(* ===== verification/Prelude.thy ===== *)
theory Prelude
  imports Main
begin

text \<open>
  Shared vocabulary of the development: instants and identifiers, JavaScript errors as values,
  effectful calls as world-passing functions with a result, the string operations the code uses,
  and the generic lemmas about them that the component theories rely on.

  A JavaScript string is a list of code units below 256 (\<open>string\<close>, a list of \<open>char\<close>); a theory
  that needs other code units says so and uses lists of numbers instead. A \<open>Date\<close> is its
  \<open>getTime()\<close>, an integer number of milliseconds.
\<close>

named_theorems io_simps
named_theorems repo_simps

type_synonym time = int
type_synonym ident = string

section \<open>Errors and effects\<close>

text \<open>
  What a \<open>throw\<close> carries: an instance of \<open>Error\<close> with its class and message, or another value.
\<close>

datatype thrown =
    Thrown (thrown_class: string) (thrown_message: string)
  | ThrownValue

definition error_message_or :: "string \<Rightarrow> thrown \<Rightarrow> string" where
  "error_message_or fallback e = (case e of Thrown _ m \<Rightarrow> m | ThrownValue \<Rightarrow> fallback)"

lemma error_message_or_simps [simp]:
  "error_message_or f (Thrown c m) = m"
  "error_message_or f ThrownValue = f"
  by (simp_all add: error_message_or_def)

definition internal_error :: "string \<Rightarrow> thrown" where
  "internal_error m = Thrown ''InternalError'' m"

text \<open>Computing on with a result, or passing on what was thrown.\<close>

definition rbind :: "thrown + 'a \<Rightarrow> ('a \<Rightarrow> thrown + 'b) \<Rightarrow> thrown + 'b" where
  "rbind m f = (case m of Inl e \<Rightarrow> Inl e | Inr x \<Rightarrow> f x)"

lemma rbind_simps [simp]: "rbind (Inl e) f = Inl e" "rbind (Inr x) f = f x"
  by (simp_all add: rbind_def)

lemma rbind_Inr: "rbind m f = Inr y \<longleftrightarrow> (\<exists>x. m = Inr x \<and> f x = Inr y)"
  by (cases m) auto

text \<open>
  An awaited call takes the world it runs in and gives its value, or what it threw, with the world
  it leaves. \<open>'w\<close> is the part of the world a component can see.
\<close>

type_synonym ('w, 'a) io = "'w \<Rightarrow> (thrown + 'a) \<times> 'w"

definition io_return :: "'a \<Rightarrow> ('w, 'a) io" where
  "io_return x = (\<lambda>w. (Inr x, w))"

definition io_throw :: "thrown \<Rightarrow> ('w, 'a) io" where
  "io_throw e = (\<lambda>w. (Inl e, w))"

definition io_bind :: "('w, 'a) io \<Rightarrow> ('a \<Rightarrow> ('w, 'b) io) \<Rightarrow> ('w, 'b) io" where
  "io_bind m f = (\<lambda>w. case m w of (Inl e, w') \<Rightarrow> (Inl e, w') | (Inr x, w') \<Rightarrow> f x w')"

text \<open>\<open>try m catch (e) { h e }\<close>\<close>

definition io_catch :: "('w, 'a) io \<Rightarrow> (thrown \<Rightarrow> ('w, 'a) io) \<Rightarrow> ('w, 'a) io" where
  "io_catch m h = (\<lambda>w. case m w of (Inl e, w') \<Rightarrow> h e w' | (Inr x, w') \<Rightarrow> (Inr x, w'))"

text \<open>\<open>try m finally f\<close>, for an \<open>f\<close> that does not throw.\<close>

definition io_finally :: "('w, 'a) io \<Rightarrow> ('w \<Rightarrow> 'w) \<Rightarrow> ('w, 'a) io" where
  "io_finally m f = (\<lambda>w. case m w of (r, w') \<Rightarrow> (r, f w'))"

text \<open>A loop over a list whose body may throw out of it.\<close>

fun io_for :: "'x list \<Rightarrow> ('x \<Rightarrow> ('w, unit) io) \<Rightarrow> ('w, unit) io" where
  "io_for [] f w = (Inr (), w)"
| "io_for (x # xs) f w = (case f x w of (Inl e, w') \<Rightarrow> (Inl e, w') | (Inr _, w') \<Rightarrow> io_for xs f w')"

text \<open>A database transaction: what it wrote is kept when it returns and undone when it throws.\<close>

definition transaction :: "('w, 'a) io \<Rightarrow> ('w, 'a) io" where
  "transaction m = (\<lambda>w. case m w of (Inl e, _) \<Rightarrow> (Inl e, w) | (Inr x, w') \<Rightarrow> (Inr x, w'))"

lemma io_simps_basic [io_simps]:
  "io_return x w = (Inr x, w)"
  "io_throw e w = (Inl e, w)"
  "io_bind m f w = (case m w of (Inl e, w') \<Rightarrow> (Inl e, w') | (Inr x, w') \<Rightarrow> f x w')"
  "io_catch m h w = (case m w of (Inl e, w') \<Rightarrow> h e w' | (Inr x, w') \<Rightarrow> (Inr x, w'))"
  "io_finally m g w = (case m w of (r, w') \<Rightarrow> (r, g w'))"
  by (simp_all add: io_return_def io_throw_def io_bind_def io_catch_def io_finally_def)

lemma io_for_append:
  "io_for (xs @ ys) f w =
     (case io_for xs f w of (Inl e, w') \<Rightarrow> (Inl e, w') | (Inr _, w') \<Rightarrow> io_for ys f w')"
  by (induction xs arbitrary: w) (auto split: prod.splits sum.splits)

text \<open>
  A property of the world that every iteration keeps, whether it returns or throws, is kept by the
  loop.
\<close>

lemma io_for_keeps:
  assumes "\<And>x w. x \<in> set xs \<Longrightarrow> P w \<Longrightarrow> P (snd (f x w))" and "P w"
  shows "P (snd (io_for xs f w))"
  using assms
proof (induction xs arbitrary: w)
  case Nil
  then show ?case by simp
next
  case (Cons x xs)
  obtain r w' where r: "f x w = (r, w')" by (cases "f x w")
  have P: "P w'" using Cons.prems(1) [of x w] Cons.prems(2) r by simp
  show ?case
  proof (cases r)
    case (Inl e)
    then show ?thesis using r P by simp
  next
    case (Inr u)
    have "P (snd (io_for xs f w'))"
      by (rule Cons.IH) (use Cons.prems(1) P in auto)
    then show ?thesis using r Inr by simp
  qed
qed

lemma transaction_rolls_back:
  "fst (transaction m w) = Inl e \<Longrightarrow> snd (transaction m w) = w"
  by (auto simp: transaction_def split: prod.splits sum.splits)

lemma transaction_commits:
  "m w = (Inr x, w') \<Longrightarrow> transaction m w = (Inr x, w')"
  by (simp add: transaction_def)

lemma transaction_keeps:
  assumes "\<And>x w'. m w = (Inr x, w') \<Longrightarrow> P w'" and "P w"
  shows "P (snd (transaction m w))"
  using assms by (auto simp: transaction_def split: prod.splits sum.splits)

text \<open>What a command run on a host answers.\<close>

record exec_result =
  er_exitCode :: int
  er_stdout :: string
  er_stderr :: string

section \<open>Strings\<close>

definition lf :: char where "lf = CHR 0x0A"
definition cr :: char where "cr = CHR 0x0D"

text \<open>The code units \<open>trim\<close> and \<open>\s\<close> remove (those below 256).\<close>

definition is_space :: "char \<Rightarrow> bool" where
  "is_space c \<longleftrightarrow> c \<in> {CHR 0x09, CHR 0x0A, CHR 0x0B, CHR 0x0C, CHR 0x0D, CHR 0x20, CHR 0xA0}"

definition trim :: "string \<Rightarrow> string" where
  "trim s = rev (dropWhile is_space (rev (dropWhile is_space s)))"

fun starts_with :: "'a list \<Rightarrow> 'a list \<Rightarrow> bool" where
  "starts_with s [] = True"
| "starts_with [] (p # ps) = False"
| "starts_with (c # s) (p # ps) = (c = p \<and> starts_with s ps)"

definition ends_with :: "'a list \<Rightarrow> 'a list \<Rightarrow> bool" where
  "ends_with s p = starts_with (rev s) (rev p)"

text \<open>\<open>s.includes(p)\<close>\<close>

fun has_sub :: "'a list \<Rightarrow> 'a list \<Rightarrow> bool" where
  "has_sub [] p = (p = [])"
| "has_sub (c # s) p = (starts_with (c # s) p \<or> has_sub s p)"

text \<open>\<open>s.split(c)\<close> for a separator of one code unit.\<close>

fun split_on :: "'a \<Rightarrow> 'a list \<Rightarrow> 'a list list" where
  "split_on c [] = [[]]"
| "split_on c (x # xs) =
     (if x = c then [] # split_on c xs
      else (case split_on c xs of [] \<Rightarrow> [[x]] | p # ps \<Rightarrow> (x # p) # ps))"

text \<open>\<open>parts.join(sep)\<close>\<close>

fun join_with :: "'a list \<Rightarrow> 'a list list \<Rightarrow> 'a list" where
  "join_with sep [] = []"
| "join_with sep [p] = p"
| "join_with sep (p # q # ps) = p @ sep @ join_with sep (q # ps)"

text \<open>\<open>s.indexOf(c)\<close> for one code unit, \<open>None\<close> for \<open>-1\<close>.\<close>

fun index_of :: "'a \<Rightarrow> 'a list \<Rightarrow> nat option" where
  "index_of c [] = None"
| "index_of c (x # xs) = (if x = c then Some 0 else map_option Suc (index_of c xs))"

text \<open>\<open>toLowerCase\<close> on the code units below 256.\<close>

definition lower_char :: "char \<Rightarrow> char" where
  "lower_char c =
     (let n = (of_char c :: nat) in
      if (65 \<le> n \<and> n \<le> 90) \<or> (192 \<le> n \<and> n \<le> 222 \<and> n \<noteq> 215) then char_of (n + 32) else c)"

definition lower :: "string \<Rightarrow> string" where
  "lower s = map lower_char s"

definition is_digit :: "char \<Rightarrow> bool" where
  "is_digit c \<longleftrightarrow> 48 \<le> (of_char c :: nat) \<and> (of_char c :: nat) \<le> 57"

definition digit_value :: "char \<Rightarrow> nat" where
  "digit_value c = of_char c - 48"

definition is_hex :: "char \<Rightarrow> bool" where
  "is_hex c \<longleftrightarrow> is_digit c \<or> c \<in> set ''abcdefABCDEF''"

definition is_lower_hex :: "char \<Rightarrow> bool" where
  "is_lower_hex c \<longleftrightarrow> is_digit c \<or> c \<in> set ''abcdef''"

definition is_alpha :: "char \<Rightarrow> bool" where
  "is_alpha c \<longleftrightarrow>
     (65 \<le> (of_char c :: nat) \<and> (of_char c :: nat) \<le> 90) \<or>
     (97 \<le> (of_char c :: nat) \<and> (of_char c :: nat) \<le> 122)"

definition is_alnum :: "char \<Rightarrow> bool" where
  "is_alnum c \<longleftrightarrow> is_alpha c \<or> is_digit c"

text \<open>\<open>Number(digits)\<close> for a string of decimal digits.\<close>

fun number_from :: "nat \<Rightarrow> string \<Rightarrow> nat" where
  "number_from acc [] = acc"
| "number_from acc (c # cs) = number_from (10 * acc + digit_value c) cs"

definition number_of :: "string \<Rightarrow> nat" where
  "number_of s = number_from 0 s"

text \<open>The decimal notation of an integer, \<open>String(n)\<close> and \<open>`${n}`\<close>.\<close>

fun nat_string :: "nat \<Rightarrow> string" where
  "nat_string n =
     (if n < 10 then [char_of (48 + n)] else nat_string (n div 10) @ [char_of (48 + n mod 10)])"

declare nat_string.simps [simp del]

definition int_string :: "int \<Rightarrow> string" where
  "int_string i = (if i < 0 then CHR ''-'' # nat_string (nat (- i)) else nat_string (nat i))"

text \<open>\<open>String(n).padStart(width, "0")\<close>\<close>

definition pad_zero :: "nat \<Rightarrow> nat \<Rightarrow> string" where
  "pad_zero width n = (let s = nat_string n in replicate (width - length s) (CHR ''0'') @ s)"

subsection \<open>Lemmas on strings\<close>

lemma starts_with_iff: "starts_with s p \<longleftrightarrow> (\<exists>r. s = p @ r)"
  by (induction s p rule: starts_with.induct) auto

lemma starts_with_append [simp]: "starts_with (p @ s) p"
  by (auto simp: starts_with_iff)

lemma starts_with_self [simp]: "starts_with p p"
  by (auto simp: starts_with_iff)

lemma has_sub_iff: "has_sub s p \<longleftrightarrow> (\<exists>a b. s = a @ p @ b)"
proof (induction s)
  case Nil
  then show ?case by auto
next
  case (Cons c s)
  have "(\<exists>a b. c # s = a @ p @ b) \<longleftrightarrow> (\<exists>b. c # s = p @ b) \<or> (\<exists>a b. s = a @ p @ b)"
  proof
    assume "\<exists>a b. c # s = a @ p @ b"
    then obtain a b where ab: "c # s = a @ p @ b" by blast
    then show "(\<exists>b. c # s = p @ b) \<or> (\<exists>a b. s = a @ p @ b)" by (cases a) auto
  next
    assume "(\<exists>b. c # s = p @ b) \<or> (\<exists>a b. s = a @ p @ b)"
    then show "\<exists>a b. c # s = a @ p @ b"
    proof
      assume "\<exists>b. c # s = p @ b"
      then show ?thesis by (metis append_Nil)
    next
      assume "\<exists>a b. s = a @ p @ b"
      then show ?thesis by (metis append_Cons)
    qed
  qed
  then show ?case using Cons.IH by (simp add: starts_with_iff)
qed

lemma split_on_not_Nil [simp]: "split_on c xs \<noteq> []"
  by (induction xs) (auto split: list.splits)

lemma join_split [simp]: "join_with [c] (split_on c xs) = xs"
proof (induction xs)
  case Nil
  then show ?case by simp
next
  case (Cons x xs)
  obtain p ps where ps: "split_on c xs = p # ps"
    using split_on_not_Nil [of c xs] by (cases "split_on c xs") auto
  then show ?case using Cons.IH by (cases ps) auto
qed

lemma split_on_parts: "p \<in> set (split_on c xs) \<Longrightarrow> c \<notin> set p"
proof (induction xs arbitrary: p)
  case Nil
  then show ?case by simp
next
  case (Cons x xs)
  then show ?case by (cases "split_on c xs") (auto split: if_splits)
qed

lemma split_on_clean: "c \<notin> set p \<Longrightarrow> split_on c p = [p]"
  by (induction p) auto

lemma split_on_append:
  "c \<notin> set p \<Longrightarrow> split_on c (p @ c # xs) = p # split_on c xs"
  by (induction p) auto

lemma split_join:
  assumes "ps \<noteq> []" and "\<forall>p \<in> set ps. c \<notin> set p"
  shows "split_on c (join_with [c] ps) = ps"
  using assms
proof (induction "[c]" ps rule: join_with.induct)
  case (3 p q ps)
  then show ?case by (simp add: split_on_append)
qed (auto simp: split_on_clean)

lemma set_join_with: "set (join_with sep ps) \<subseteq> set sep \<union> (\<Union>p \<in> set ps. set p)"
  by (induction sep ps rule: join_with.induct) auto

lemma digit_value_char_of: "n < 10 \<Longrightarrow> digit_value (char_of (48 + n)) = n"
  by (simp add: digit_value_def)

lemma is_digit_char_of: "(n::nat) < 10 \<Longrightarrow> is_digit (char_of (48 + n))"
  by (simp add: is_digit_def)

lemma number_from_append: "number_from acc (s @ t) = number_from (number_from acc s) t"
  by (induction s arbitrary: acc) auto

lemma number_of_nat_string [simp]: "number_of (nat_string n) = n"
proof (induction n rule: nat_string.induct)
  case (1 n)
  show ?case
  proof (cases "n < 10")
    case True
    then show ?thesis
      by (simp add: nat_string.simps [of n] number_of_def digit_value_char_of)
  next
    case False
    then have "number_from 0 (nat_string (n div 10)) = n div 10"
      using 1 by (simp add: number_of_def)
    with False show ?thesis
      by (simp add: nat_string.simps [of n] number_of_def number_from_append digit_value_char_of)
  qed
qed

lemma nat_string_inject [simp]: "nat_string m = nat_string n \<longleftrightarrow> m = n"
  by (metis number_of_nat_string)

lemma nat_string_digits: "\<forall>c \<in> set (nat_string n). is_digit c"
proof (induction n rule: nat_string.induct)
  case (1 n)
  then show ?case by (auto simp: nat_string.simps [of n] is_digit_char_of)
qed

lemma nat_string_not_Nil [simp]: "nat_string n \<noteq> []"
  by (subst nat_string.simps) simp

lemma int_string_inject [simp]: "int_string i = int_string j \<longleftrightarrow> i = j"
proof
  have minus: "CHR ''-'' \<notin> set (nat_string n)" for n
    using nat_string_digits [of n] by (auto simp: is_digit_def)
  assume eq: "int_string i = int_string j"
  show "i = j"
  proof (cases "i < 0")
    case True
    then have "j < 0" using eq minus by (metis int_string_def list.set_intros(1))
    then show ?thesis using eq True by (simp add: int_string_def)
  next
    case False
    then have "\<not> j < 0" using eq minus by (metis int_string_def list.set_intros(1))
    then show ?thesis using eq False by (simp add: int_string_def)
  qed
qed simp

section \<open>Dates\<close>

text \<open>
  \<open>date.toISOString()\<close>. The calendar date of a day number (days since 1970-01-01, proleptic
  Gregorian) is computed by eras of 400 years.
\<close>

definition civil_from_days :: "int \<Rightarrow> int \<times> int \<times> int" where
  "civil_from_days d =
     (let z = d + 719468;
          era = z div 146097;
          doe = z - era * 146097;
          yoe = (doe - doe div 1460 + doe div 36524 - doe div 146096) div 365;
          doy = doe - (365 * yoe + yoe div 4 - yoe div 100);
          mp = (5 * doy + 2) div 153;
          day = doy - (153 * mp + 2) div 5 + 1;
          month = (if mp < 10 then mp + 3 else mp - 9);
          year = yoe + era * 400 + (if month \<le> 2 then 1 else 0)
      in (year, month, day))"

definition iso_year :: "int \<Rightarrow> string" where
  "iso_year y =
     (if 0 \<le> y \<and> y \<le> 9999 then pad_zero 4 (nat y)
      else if y < 0 then CHR ''-'' # pad_zero 6 (nat (- y))
      else CHR ''+'' # pad_zero 6 (nat y))"

definition iso_string :: "time \<Rightarrow> string" where
  "iso_string t =
     (let days = t div 86400000; ms = nat (t mod 86400000);
          (y, m, d) = civil_from_days days
      in iso_year y @ ''-'' @ pad_zero 2 (nat m) @ ''-'' @ pad_zero 2 (nat d) @ ''T''
         @ pad_zero 2 (ms div 3600000) @ '':'' @ pad_zero 2 (ms div 60000 mod 60) @ '':''
         @ pad_zero 2 (ms div 1000 mod 60) @ ''.'' @ pad_zero 3 (ms mod 1000) @ ''Z'')"

text \<open>\<open>Math.ceil(a / b)\<close> and \<open>Math.round(a / b)\<close> of integers, for \<open>b > 0\<close>.\<close>

definition ceil_div :: "int \<Rightarrow> int \<Rightarrow> int" where
  "ceil_div a b = - ((- a) div b)"

definition round_div :: "int \<Rightarrow> int \<Rightarrow> int" where
  "round_div a b = (2 * a + b) div (2 * b)"

lemma ceil_div_bounds: "0 < b \<Longrightarrow> a \<le> ceil_div a b * b \<and> ceil_div a b * b < a + b"
proof -
  assume b: "0 < b"
  have "ceil_div a b * b = - ((- a) div b * b)" by (simp add: ceil_div_def)
  moreover have "(- a) div b * b + (- a) mod b = - a" by (rule div_mult_mod_eq)
  ultimately have "ceil_div a b * b = a + (- a) mod b" by linarith
  moreover have "0 \<le> (- a) mod b" "(- a) mod b < b" using b by simp_all
  ultimately show ?thesis by simp
qed

lemma round_div_mono: "0 < b \<Longrightarrow> a \<le> c \<Longrightarrow> round_div a b \<le> round_div c b"
  by (simp add: round_div_def zdiv_mono1)

section \<open>Lists\<close>

text \<open>\<open>xs.at(-1)\<close>, \<open>xs[xs.length - 1]\<close>, \<open>rows[0]\<close>\<close>

definition last_opt :: "'a list \<Rightarrow> 'a option" where
  "last_opt xs = (if xs = [] then None else Some (last xs))"

definition first_opt :: "'a list \<Rightarrow> 'a option" where
  "first_opt xs = (case xs of [] \<Rightarrow> None | x # _ \<Rightarrow> Some x)"

lemma last_opt_simps [simp]:
  "last_opt [] = None"
  "last_opt (xs @ [x]) = Some x"
  "last_opt xs = None \<longleftrightarrow> xs = []"
  by (auto simp: last_opt_def)

lemma first_opt_simps [simp]:
  "first_opt [] = None"
  "first_opt (x # xs) = Some x"
  by (auto simp: first_opt_def)

text \<open>\<open>xs[i]\<close> as the code reads it: \<open>undefined\<close> out of range.\<close>

definition nth_opt :: "'a list \<Rightarrow> nat \<Rightarrow> 'a option" where
  "nth_opt xs i = (if i < length xs then Some (xs ! i) else None)"

text \<open>Stable ascending sort by an integer key, \<open>[...xs].sort((l, r) => l.k - r.k)\<close>.\<close>

definition sort_by :: "('a \<Rightarrow> int) \<Rightarrow> 'a list \<Rightarrow> 'a list" where
  "sort_by k xs = sort_key k xs"

lemma find_SomeD: "find P xs = Some x \<Longrightarrow> x \<in> set xs \<and> P x"
  by (auto simp: find_Some_iff)

lemma find_None_set: "find P xs = None \<longleftrightarrow> (\<forall>x \<in> set xs. \<not> P x)"
  by (auto simp: find_None_iff)

end
