(* ===== verification/Contracts.thy ===== *)
theory Contracts
  imports Prelude
begin

text \<open>
  The contracts several tables share, as locales. \<open>insert_once\<close> is an insert with
  \<open>onConflict(...).doNothing()\<close> on a unique key: the status log, the notifications, the deliveries,
  the task runs and the signals all rest on it. \<open>keyed_upsert\<close> is an insert with
  \<open>onConflict(...).doUpdateSet(...)\<close> read back by its key: the cursors and the conditions.
\<close>

section \<open>Insert once\<close>

text \<open>Inserts one after another: what each returned, and the state after the last.\<close>

fun insert_run :: "('v \<Rightarrow> 's \<Rightarrow> 'r option \<times> 's) \<Rightarrow> 'v list \<Rightarrow> 's \<Rightarrow> 'r option list \<times> 's" where
  "insert_run ins [] s = ([], s)"
| "insert_run ins (v # vs) s =
     (let (r, s') = ins v s; (rs, s'') = insert_run ins vs s' in (r # rs, s''))"

declare insert_run.simps(2) [simp del]

lemma insert_run_Cons [simp]:
  "insert_run ins (v # vs) s =
     (fst (ins v s) # fst (insert_run ins vs (snd (ins v s))), snd (insert_run ins vs (snd (ins v s))))"
  by (simp add: insert_run.simps(2) case_prod_beta)

lemma insert_run_length [simp]: "length (fst (insert_run ins vs s)) = length vs"
  by (induction vs arbitrary: s) auto

text \<open>How many of the inserts of a key took effect.\<close>

fun wins :: "('v \<Rightarrow> 'k option) \<Rightarrow> 'k \<Rightarrow> 'v list \<Rightarrow> 'r option list \<Rightarrow> nat" where
  "wins key k (v # vs) (r # rs) =
     (if key v = Some k \<and> r \<noteq> None then 1 else 0) + wins key k vs rs"
| "wins key k _ _ = 0"

locale insert_once =
  fixes ins :: "'v \<Rightarrow> 's \<Rightarrow> 'r option \<times> 's"
    and key :: "'v \<Rightarrow> 'k option"
    and keys :: "'s \<Rightarrow> 'k set"
  assumes ins_taken: "key v = Some k \<Longrightarrow> k \<in> keys s \<Longrightarrow> fst (ins v s) = None \<and> keys (snd (ins v s)) = keys s"
    and ins_fresh: "(\<And>k. key v = Some k \<Longrightarrow> k \<notin> keys s) \<Longrightarrow>
      fst (ins v s) \<noteq> None \<and> keys (snd (ins v s)) = keys s \<union> set_option (key v)"
begin

lemma ins_result: "key v = Some k \<Longrightarrow> fst (ins v s) = None \<longleftrightarrow> k \<in> keys s"
proof (cases "k \<in> keys s")
  case True
  assume "key v = Some k"
  then show ?thesis using ins_taken [of v k s] True by simp
next
  case False
  assume "key v = Some k"
  then have "fst (ins v s) \<noteq> None" using False by (intro conjunct1 [OF ins_fresh]) auto
  then show ?thesis using False by simp
qed

lemma ins_keys: "keys (snd (ins v s)) = keys s \<union> set_option (key v)"
proof (cases "key v")
  case None
  then show ?thesis using ins_fresh [of v s] by simp
next
  case (Some k)
  show ?thesis
  proof (cases "k \<in> keys s")
    case True
    then show ?thesis using Some ins_taken [of v k s] by auto
  next
    case False
    then show ?thesis using Some by (intro conjunct2 [OF ins_fresh]) auto
  qed
qed

lemma run_keys: "keys (snd (insert_run ins vs s)) = keys s \<union> (\<Union>v \<in> set vs. set_option (key v))"
proof (induction vs arbitrary: s)
  case Nil
  then show ?case by simp
next
  case (Cons v vs)
  then show ?case using ins_keys [of v s] by auto
qed

text \<open>A key already present wins no insert; a key not present wins exactly one of its inserts.\<close>

lemma wins_taken: "k \<in> keys s \<Longrightarrow> wins key k vs (fst (insert_run ins vs s)) = 0"
proof (induction vs arbitrary: s)
  case Nil
  then show ?case by simp
next
  case (Cons v vs)
  have "k \<in> keys (snd (ins v s))" using Cons.prems ins_keys [of v s] by simp
  then show ?case
    using Cons.IH [of "snd (ins v s)"] Cons.prems ins_result [of v k s]
    by auto
qed

lemma wins_fresh:
  "k \<notin> keys s \<Longrightarrow> wins key k vs (fst (insert_run ins vs s)) = (if Some k \<in> key ` set vs then 1 else 0)"
proof (induction vs arbitrary: s)
  case Nil
  then show ?case by simp
next
  case (Cons v vs)
  show ?case
  proof (cases "key v = Some k")
    case True
    have "k \<in> keys (snd (ins v s))" using True ins_keys [of v s] by simp
    then show ?thesis
      using True Cons.prems ins_result [of v k s] wins_taken [of k "snd (ins v s)" vs]
      by auto
  next
    case False
    have "k \<notin> keys (snd (ins v s))"
      using False Cons.prems ins_keys [of v s] by (cases "key v") auto
    then show ?thesis
      using False Cons.IH [of "snd (ins v s)"] by auto
  qed
qed

lemma wins_at_most_once: "wins key k vs (fst (insert_run ins vs s)) \<le> 1"
  by (cases "k \<in> keys s") (simp_all add: wins_taken wins_fresh)

end

section \<open>Upsert by key\<close>

fun upsert_run :: "('k \<Rightarrow> 'v \<Rightarrow> 's \<Rightarrow> 's) \<Rightarrow> ('k \<times> 'v) list \<Rightarrow> 's \<Rightarrow> 's" where
  "upsert_run up [] s = s"
| "upsert_run up ((k, v) # kvs) s = upsert_run up kvs (up k v s)"

locale keyed_upsert =
  fixes up :: "'k \<Rightarrow> 'v \<Rightarrow> 's \<Rightarrow> 's"
    and look :: "'k \<Rightarrow> 's \<Rightarrow> 'v option"
  assumes look_up: "look k (up k v s) = Some v"
    and look_up_other: "k' \<noteq> k \<Longrightarrow> look k' (up k v s) = look k' s"
begin

lemma look_after: "look k' (up k v s) = (if k' = k then Some v else look k' s)"
  by (simp add: look_up look_up_other)

lemma look_run:
  "look k (upsert_run up kvs s) = (case map_of (rev kvs) k of None \<Rightarrow> look k s | Some v \<Rightarrow> Some v)"
proof (induction kvs arbitrary: s)
  case Nil
  then show ?case by simp
next
  case (Cons kv kvs)
  obtain k' v where kv: "kv = (k', v)" by (cases kv)
  show ?case using Cons.IH [of "up k' v s"] kv by (auto simp: look_after map_add_def split: option.splits)
qed

end

section \<open>Tables as lists of rows\<close>

text \<open>
  \<open>UPDATE t SET .. WHERE p\<close>: the rows that match are replaced; \<open>executeTakeFirst\<close> with
  \<open>returningAll\<close> gives the first of them.
\<close>

definition update_rows :: "('a \<Rightarrow> bool) \<Rightarrow> ('a \<Rightarrow> 'a) \<Rightarrow> 'a list \<Rightarrow> 'a list" where
  "update_rows p f = map (\<lambda>x. if p x then f x else x)"

definition updated_count :: "('a \<Rightarrow> bool) \<Rightarrow> 'a list \<Rightarrow> nat" where
  "updated_count p xs = length (filter p xs)"

lemma update_rows_simps [simp]:
  "update_rows p f [] = []"
  "update_rows p f (x # xs) = (if p x then f x else x) # update_rows p f xs"
  "update_rows p f (xs @ ys) = update_rows p f xs @ update_rows p f ys"
  "length (update_rows p f xs) = length xs"
  by (simp_all add: update_rows_def)

lemma update_rows_none: "\<forall>x \<in> set xs. \<not> p x \<Longrightarrow> update_rows p f xs = xs"
  by (simp add: update_rows_def map_idI)

lemma set_update_rows: "set (update_rows p f xs) = {if p x then f x else x | x. x \<in> set xs}"
  by (auto simp: update_rows_def)

lemma find_update_rows_same:
  assumes "\<And>x. p x \<Longrightarrow> q (f x) = q x" and "\<And>x. q x \<Longrightarrow> p x"
  shows "find q (update_rows p f xs) = map_option f (find q xs)"
  using assms by (induction xs) auto

lemma find_update_rows_other:
  assumes "\<And>x. p x \<Longrightarrow> \<not> q x \<and> \<not> q (f x)"
  shows "find q (update_rows p f xs) = find q xs"
  using assms by (induction xs) auto

lemma filter_update_rows_other:
  assumes "\<And>x. p x \<Longrightarrow> \<not> q x \<and> \<not> q (f x)"
  shows "filter q (update_rows p f xs) = filter q xs"
  using assms by (induction xs) auto

lemma find_append: "find q (xs @ ys) = (case find q xs of None \<Rightarrow> find q ys | Some x \<Rightarrow> Some x)"
  by (induction xs) auto

lemma map_update_rows_same: "(\<And>x. p x \<Longrightarrow> f (g x) = f x) \<Longrightarrow> map f (update_rows p g xs) = map f xs"
  by (induction xs) auto

lemma find_update_rows_stable:
  assumes "\<And>x. p x \<Longrightarrow> q (f x) = q x"
  shows "find q (update_rows p f xs) = map_option (\<lambda>x. if p x then f x else x) (find q xs)"
  using assms by (induction xs) auto

lemma list_ex_find: "list_ex p xs \<longleftrightarrow> find p xs \<noteq> None"
  by (induction xs) auto

lemma find_distinct_key:
  "distinct (map f xs) \<Longrightarrow> x \<in> set xs \<Longrightarrow> find (\<lambda>y. f y = f x) xs = Some x"
  by (induction xs) auto

lemma updated_count_distinct:
  assumes "distinct (map f xs)" and "\<And>x. p x \<Longrightarrow> f x = k"
  shows "updated_count p xs \<le> 1"
  using assms
proof (induction xs)
  case Nil
  then show ?case by (simp add: updated_count_def)
next
  case (Cons x xs)
  show ?case
  proof (cases "p x")
    case True
    then have "\<forall>y \<in> set xs. \<not> p y" using Cons.prems by force
    then show ?thesis by (simp add: updated_count_def)
  next
    case False
    then show ?thesis using Cons by (simp add: updated_count_def)
  qed
qed

end
