(* ===== verification/StatusContract.thy ===== *)
theory StatusContract
  imports Prelude
begin

text \<open>
  \<open>packages/contracts/src/status.ts\<close>: the states, dimensions and event kinds of the status log,
  which events are announced and which resolve which, the flapping window, the status ranges and
  the availability totals.
\<close>

section \<open>Vocabulary\<close>

datatype status_dimension =
    HostReachabilityDim | HostServiceHealthDim | HostDriftDim
  | InstanceConnectionDim | InstanceProcessDim | InstanceDriftDim

datatype status_state =
    Up | Suspect | Down | Unknown | Joined | Interrupted | NeverJoined | Excluded
  | Running | Stuck | StoppedExpected | StoppedUnexpected | Degraded | Healthy | Drifting | Clear

datatype status_event_kind =
    HostCheckFailed | HostCheckRecovered | HostUnreachable | HostRecovered | HostDegraded
  | HostHealthy | HostDriftStarted | HostDriftResolved | InstanceJoined | InstanceDisconnected
  | InstanceReconnected | InstanceKicked | InstanceConnectionLost | InstanceFlapping
  | InstanceNeverJoined | InstanceStarted | InstanceStopped | InstanceUnexpectedStop
  | InstanceProcessRecovered | InstanceNeedsAuth | InstanceDriftStarted | InstanceDriftResolved
  | MonitoringGap

fun event_kind_text :: "status_event_kind \<Rightarrow> string" where
  "event_kind_text HostCheckFailed = ''host.check_failed''"
| "event_kind_text HostCheckRecovered = ''host.check_recovered''"
| "event_kind_text HostUnreachable = ''host.unreachable''"
| "event_kind_text HostRecovered = ''host.recovered''"
| "event_kind_text HostDegraded = ''host.degraded''"
| "event_kind_text HostHealthy = ''host.healthy''"
| "event_kind_text HostDriftStarted = ''host.drift_started''"
| "event_kind_text HostDriftResolved = ''host.drift_resolved''"
| "event_kind_text InstanceJoined = ''instance.joined''"
| "event_kind_text InstanceDisconnected = ''instance.disconnected''"
| "event_kind_text InstanceReconnected = ''instance.reconnected''"
| "event_kind_text InstanceKicked = ''instance.kicked''"
| "event_kind_text InstanceConnectionLost = ''instance.connection_lost''"
| "event_kind_text InstanceFlapping = ''instance.flapping''"
| "event_kind_text InstanceNeverJoined = ''instance.never_joined''"
| "event_kind_text InstanceStarted = ''instance.started''"
| "event_kind_text InstanceStopped = ''instance.stopped''"
| "event_kind_text InstanceUnexpectedStop = ''instance.unexpected_stop''"
| "event_kind_text InstanceProcessRecovered = ''instance.process_recovered''"
| "event_kind_text InstanceNeedsAuth = ''instance.needs_auth''"
| "event_kind_text InstanceDriftStarted = ''instance.drift_started''"
| "event_kind_text InstanceDriftResolved = ''instance.drift_resolved''"
| "event_kind_text MonitoringGap = ''monitoring.gap''"

definition notifying_event_kinds :: "status_event_kind list" where
  "notifying_event_kinds =
     [HostUnreachable, HostDriftStarted, InstanceDisconnected, InstanceFlapping,
      InstanceNeverJoined, InstanceUnexpectedStop, InstanceNeedsAuth, InstanceDriftStarted]"

definition resolving_event_kinds :: "status_event_kind list" where
  "resolving_event_kinds =
     [HostRecovered, HostDriftResolved, InstanceReconnected, InstanceProcessRecovered,
      InstanceDriftResolved]"

definition is_notifying_event :: "status_event_kind \<Rightarrow> bool" where
  "is_notifying_event k \<longleftrightarrow> k \<in> set notifying_event_kinds"

fun problem_resolved_by :: "status_event_kind \<Rightarrow> status_event_kind option" where
  "problem_resolved_by HostRecovered = Some HostUnreachable"
| "problem_resolved_by HostDriftResolved = Some HostDriftStarted"
| "problem_resolved_by InstanceReconnected = Some InstanceDisconnected"
| "problem_resolved_by InstanceProcessRecovered = Some InstanceUnexpectedStop"
| "problem_resolved_by InstanceDriftResolved = Some InstanceDriftStarted"
| "problem_resolved_by _ = None"

section \<open>Flapping\<close>

definition flapping_window_ms :: int where "flapping_window_ms = 30 * 60 * 1000"
definition flapping_threshold :: nat where "flapping_threshold = 5"

definition is_flapping_within :: "time list \<Rightarrow> time \<Rightarrow> int \<Rightarrow> nat \<Rightarrow> bool" where
  "is_flapping_within losses now window threshold \<longleftrightarrow>
     threshold \<le> length (filter (\<lambda>at. now - at \<le> window) losses)"

definition is_flapping :: "time list \<Rightarrow> time \<Rightarrow> bool" where
  "is_flapping losses now = is_flapping_within losses now flapping_window_ms flapping_threshold"

section \<open>Ranges\<close>

datatype status_range = Range24h | Range7d | Range30d

fun range_seconds :: "status_range \<Rightarrow> int" where
  "range_seconds Range24h = 24 * 60 * 60"
| "range_seconds Range7d = 7 * 24 * 60 * 60"
| "range_seconds Range30d = 30 * 24 * 60 * 60"

fun bucket_seconds :: "status_range \<Rightarrow> int" where
  "bucket_seconds Range24h = 15 * 60"
| "bucket_seconds Range7d = 2 * 60 * 60"
| "bucket_seconds Range30d = 8 * 60 * 60"

text \<open>\<open>RANGE_SECONDS[range] / (24 * 60 * 60)\<close> is a whole number for each of the three ranges.\<close>

definition range_within_retention :: "status_range \<Rightarrow> int \<Rightarrow> status_range" where
  "range_within_retention r retention =
     (let wanted = range_seconds r div (24 * 60 * 60) in
      if wanted \<le> retention then r
      else if 7 \<le> retention then Range7d
      else Range24h)"

section \<open>Thresholds\<close>

definition host_suspect_to_down_ms :: int where "host_suspect_to_down_ms = 3 * 60 * 1000"
definition instance_interrupted_to_down_ms :: int where
  "instance_interrupted_to_down_ms = 2 * 60 * 1000"

section \<open>Availability\<close>

record availability =
  goodSeconds :: int
  badSeconds :: int
  degradedSeconds :: int
  unknownSeconds :: int
  excludedSeconds :: int

definition empty_availability :: availability where
  "empty_availability =
     \<lparr>goodSeconds = 0, badSeconds = 0, degradedSeconds = 0, unknownSeconds = 0, excludedSeconds = 0\<rparr>"

section \<open>Lemmas\<close>

lemma event_kind_text_inject [simp]: "event_kind_text a = event_kind_text b \<longleftrightarrow> a = b"
  by (cases a; cases b; simp)

text \<open>
  The announcing vocabulary is consistent: what is resolved is an event that announces, and a
  resolving event does not announce by itself.
\<close>

lemma problem_resolved_by_notifying:
  "problem_resolved_by k = Some p \<Longrightarrow> is_notifying_event p \<and> \<not> is_notifying_event k"
  by (cases k) (auto simp: is_notifying_event_def notifying_event_kinds_def)

lemma resolving_event_kinds_iff:
  "k \<in> set resolving_event_kinds \<longleftrightarrow> problem_resolved_by k \<noteq> None"
  by (cases k) (auto simp: resolving_event_kinds_def)

lemma problem_resolved_by_inj:
  "problem_resolved_by j = Some p \<Longrightarrow> problem_resolved_by k = Some p \<Longrightarrow> j = k"
  by (cases j; cases k; simp)

lemma bucket_seconds_pos [simp]: "0 < bucket_seconds r"
  by (cases r) auto

lemma range_is_whole_buckets: "range_seconds r mod bucket_seconds r = 0"
  by (cases r) auto

lemma range_within_retention_fits:
  "1 \<le> retention \<Longrightarrow> range_seconds (range_within_retention r retention) \<le> retention * 86400"
  by (cases r) (auto simp: range_within_retention_def Let_def)

lemma range_within_retention_max:
  assumes "range_seconds r' \<le> retention * 86400" and "range_seconds r' \<le> range_seconds r"
  shows "range_seconds r' \<le> range_seconds (range_within_retention r retention)"
  using assms by (cases r; cases r') (auto simp: range_within_retention_def Let_def)

lemma is_flapping_mono:
  "is_flapping_within losses now w n \<Longrightarrow> w \<le> w' \<Longrightarrow> n' \<le> n \<Longrightarrow> is_flapping_within losses now w' n'"
proof -
  assume a: "is_flapping_within losses now w n" "w \<le> w'" "n' \<le> n"
  have "length (filter (\<lambda>at. now - at \<le> w) losses) \<le> length (filter (\<lambda>at. now - at \<le> w') losses)"
    using a(2) by (induction losses) auto
  then show ?thesis using a by (simp add: is_flapping_within_def)
qed

end
