(* ===== verification/StatusStore.thy ===== *)
theory StatusStore
  imports Contracts StatusContract "HOL-Library.Char_ord" "HOL-Library.List_Lexorder"
    "HOL-Library.Product_Lexorder"
begin

text \<open>
  \<open>packages/core/src/status/status.repository.ts\<close> over its tables, each a list of rows in insertion
  order. A unique index is a condition of the insert that rests on it. \<open>nanoid()\<close> draws the next of a
  supply of identifiers and \<open>deps.now()\<close> the next reading of the clock; \<open>db_time\<close> is the database's own
  \<open>now()\<close>, the start of the running transaction. Text columns are compared by code unit, the order of the \<open>C\<close> collation.
\<close>

section \<open>Rows\<close>

datatype subject_ref = HostSubject ident | InstanceSubject ident

datatype status_source = HostProbe | JournalSource | LiveChannel | ReconcileSource

datatype subject_type = OrganizationSubject | HostSubjectType | InstanceSubjectType

record status_condition_row =
  sc_id :: ident
  sc_organizationId :: ident
  sc_subject :: subject_ref
  sc_dimension :: status_dimension
  sc_state :: status_state
  sc_startedAt :: time
  sc_lastObservedAt :: time
  sc_failureStartedAt :: "time option"
  sc_activeIncidentId :: "ident option"
  sc_lastFlappedAt :: "time option"

record status_interval_row =
  si_id :: ident
  si_organizationId :: ident
  si_subject :: subject_ref
  si_dimension :: status_dimension
  si_state :: status_state
  si_startedAt :: time
  si_endedAt :: "time option"
  si_startEventId :: "ident option"
  si_endEventId :: "ident option"

record status_event_values =
  se_subjectType :: subject_type
  se_subjectId :: ident
  se_subjectLabel :: string
  se_hostId :: "ident option"
  se_instanceId :: "ident option"
  se_kind :: status_event_kind
  se_occurredAt :: time
  se_observedAt :: time
  se_lastCorroboratedAt :: time
  se_incidentId :: "ident option"
  se_primarySource :: status_source
  se_sources :: "status_source list"
  se_sourceKey :: "string option"

record status_event_row =
  ev_id :: ident
  ev_organizationId :: ident
  ev_values :: status_event_values

record status_cursor_row =
  cu_organizationId :: ident
  cu_instanceId :: ident
  cu_source :: status_source
  cu_cursor :: string
  cu_lastObservedAt :: time

record status_db =
  nano_supply :: "nat \<Rightarrow> ident"
  nano_next :: nat
  clock :: "nat \<Rightarrow> time"
  clock_next :: nat
  db_time :: time
  statusConditions :: "status_condition_row list"
  statusIntervals :: "status_interval_row list"
  statusEvents :: "status_event_row list"
  statusSourceCursors :: "status_cursor_row list"

definition nanoid :: "'m status_db_scheme \<Rightarrow> ident \<times> 'm status_db_scheme" where
  "nanoid db = (nano_supply db (nano_next db), db\<lparr>nano_next := Suc (nano_next db)\<rparr>)"

definition read_now :: "'m status_db_scheme \<Rightarrow> time \<times> 'm status_db_scheme" where
  "read_now db = (clock db (clock_next db), db\<lparr>clock_next := Suc (clock_next db)\<rparr>)"

text \<open>
  \<open>db.transaction().execute(fn)\<close>: a throw undoes every table, but not what was drawn from the
  supplies outside the database.
\<close>

definition in_transaction :: "('m status_db_scheme, 'a) io \<Rightarrow> ('m status_db_scheme, 'a) io" where
  "in_transaction m db =
     (case m db of
        (Inl e, db') \<Rightarrow> (Inl e, db\<lparr>nano_next := nano_next db', clock_next := clock_next db'\<rparr>)
      | (Inr x, db') \<Rightarrow> (Inr x, db'))"

section \<open>Conditions\<close>

record condition_patch =
  cp_state :: status_state
  cp_observedAt :: time
  cp_failureStartedAt :: "time option"
  cp_activeIncidentId :: "ident option"

definition condition_matches ::
    "ident \<Rightarrow> subject_ref \<Rightarrow> status_dimension \<Rightarrow> status_condition_row \<Rightarrow> bool" where
  "condition_matches org subject dim r \<longleftrightarrow>
     sc_organizationId r = org \<and> sc_dimension r = dim \<and> sc_subject r = subject"

definition find_condition ::
    "ident \<Rightarrow> subject_ref \<Rightarrow> status_dimension \<Rightarrow> 'm status_db_scheme \<Rightarrow> status_condition_row option" where
  "find_condition org subject dim db = find (condition_matches org subject dim) (statusConditions db)"

definition patch_condition ::
    "condition_patch \<Rightarrow> time \<Rightarrow> status_condition_row \<Rightarrow> status_condition_row" where
  "patch_condition patch startedAt r =
     r\<lparr>sc_state := cp_state patch, sc_startedAt := startedAt, sc_lastObservedAt := cp_observedAt patch,
       sc_failureStartedAt := cp_failureStartedAt patch,
       sc_activeIncidentId := cp_activeIncidentId patch\<rparr>"

definition upsert_condition ::
    "ident \<Rightarrow> subject_ref \<Rightarrow> status_dimension \<Rightarrow> condition_patch \<Rightarrow> time
      \<Rightarrow> 'm status_db_scheme \<Rightarrow> 'm status_db_scheme" where
  "upsert_condition org subject dim patch startedAt db =
     (let (i, db') = nanoid db in
      (if list_ex (condition_matches org subject dim) (statusConditions db') then
         db'\<lparr>statusConditions :=
               update_rows (condition_matches org subject dim) (patch_condition patch startedAt)
                 (statusConditions db')\<rparr>
       else
         db'\<lparr>statusConditions := statusConditions db' @
               [\<lparr>sc_id = i, sc_organizationId = org, sc_subject = subject, sc_dimension = dim,
                 sc_state = cp_state patch, sc_startedAt = startedAt,
                 sc_lastObservedAt = cp_observedAt patch,
                 sc_failureStartedAt = cp_failureStartedAt patch,
                 sc_activeIncidentId = cp_activeIncidentId patch, sc_lastFlappedAt = None\<rparr>]\<rparr>))"

definition touch_condition ::
    "ident \<Rightarrow> ident \<Rightarrow> time \<Rightarrow> 'm status_db_scheme \<Rightarrow> 'm status_db_scheme" where
  "touch_condition org conditionId observedAt db =
     db\<lparr>statusConditions :=
          update_rows (\<lambda>r. sc_organizationId r = org \<and> sc_id r = conditionId)
            (\<lambda>r. r\<lparr>sc_lastObservedAt := observedAt\<rparr>) (statusConditions db)\<rparr>"

text \<open>Claims are conditional updates; they report whether exactly one row took them.\<close>

definition claim_escalation ::
    "ident \<Rightarrow> ident \<Rightarrow> ident \<Rightarrow> status_state \<Rightarrow> time \<Rightarrow> 'm status_db_scheme \<Rightarrow> bool \<times> 'm status_db_scheme" where
  "claim_escalation org conditionId incidentId state observedAt db =
     (let p = (\<lambda>r. sc_organizationId r = org \<and> sc_id r = conditionId \<and>
                 sc_activeIncidentId r = Some incidentId \<and> sc_state r = Interrupted)
      in (updated_count p (statusConditions db) = 1,
          db\<lparr>statusConditions :=
               update_rows p
                 (\<lambda>r. r\<lparr>sc_state := state, sc_lastObservedAt := observedAt, sc_startedAt := observedAt\<rparr>)
                 (statusConditions db)\<rparr>))"

definition claim_flapping ::
    "ident \<Rightarrow> ident \<Rightarrow> time \<Rightarrow> int \<Rightarrow> 'm status_db_scheme \<Rightarrow> bool \<times> 'm status_db_scheme" where
  "claim_flapping org conditionId now cooldownMs db =
     (let p = (\<lambda>r. sc_organizationId r = org \<and> sc_id r = conditionId \<and>
                 (case sc_lastFlappedAt r of None \<Rightarrow> True | Some t \<Rightarrow> t \<le> now - cooldownMs))
      in (updated_count p (statusConditions db) = 1,
          db\<lparr>statusConditions :=
               update_rows p (\<lambda>r. r\<lparr>sc_lastFlappedAt := Some now\<rparr>) (statusConditions db)\<rparr>))"

definition list_conditions ::
    "ident \<Rightarrow> status_dimension \<Rightarrow> 'm status_db_scheme \<Rightarrow> status_condition_row list" where
  "list_conditions org dim db =
     filter (\<lambda>r. sc_organizationId r = org \<and> sc_dimension r = dim) (statusConditions db)"

section \<open>Intervals\<close>

definition interval_open ::
    "ident \<Rightarrow> subject_ref \<Rightarrow> status_dimension \<Rightarrow> status_interval_row \<Rightarrow> bool" where
  "interval_open org subject dim r \<longleftrightarrow>
     si_organizationId r = org \<and> si_dimension r = dim \<and> si_endedAt r = None \<and> si_subject r = subject"

text \<open>
  \<open>statusInterval_host_open\<close> and \<open>statusInterval_instance_open\<close> are unique indexes on the open
  intervals: opening a second one throws.
\<close>

definition unique_violation :: thrown where
  "unique_violation = Thrown ''DatabaseError'' ''duplicate key value violates unique constraint''"

definition open_interval ::
    "ident \<Rightarrow> subject_ref \<Rightarrow> status_dimension \<Rightarrow> status_state \<Rightarrow> time \<Rightarrow> ident option
      \<Rightarrow> ('m status_db_scheme, status_interval_row) io" where
  "open_interval org subject dim state startedAt startEventId db =
     (let (i, db') = nanoid db;
          row = \<lparr>si_id = i, si_organizationId = org, si_subject = subject, si_dimension = dim,
                 si_state = state, si_startedAt = startedAt, si_endedAt = None,
                 si_startEventId = startEventId, si_endEventId = None\<rparr>
      in if list_ex (interval_open org subject dim) (statusIntervals db') then
           (Inl unique_violation, db')
         else (Inr row, db'\<lparr>statusIntervals := statusIntervals db' @ [row]\<rparr>))"

definition close_row ::
    "time \<Rightarrow> ident option \<Rightarrow> status_interval_row \<Rightarrow> status_interval_row" where
  "close_row endedAt endEventId r =
     r\<lparr>si_endedAt := Some (max endedAt (si_startedAt r)), si_endEventId := endEventId\<rparr>"

definition close_open_interval ::
    "ident \<Rightarrow> subject_ref \<Rightarrow> status_dimension \<Rightarrow> time \<Rightarrow> ident option
      \<Rightarrow> 'm status_db_scheme \<Rightarrow> status_interval_row option \<times> 'm status_db_scheme" where
  "close_open_interval org subject dim endedAt endEventId db =
     (map_option (close_row endedAt endEventId)
        (find (interval_open org subject dim) (statusIntervals db)),
      db\<lparr>statusIntervals :=
           update_rows (interval_open org subject dim) (close_row endedAt endEventId)
             (statusIntervals db)\<rparr>)"

definition list_intervals ::
    "ident \<Rightarrow> status_dimension \<Rightarrow> time \<Rightarrow> 'm status_db_scheme \<Rightarrow> status_interval_row list" where
  "list_intervals org dim since db =
     sort_key si_startedAt
       (filter (\<lambda>r. si_organizationId r = org \<and> si_dimension r = dim \<and>
                 (case si_endedAt r of None \<Rightarrow> True | Some e \<Rightarrow> since \<le> e)) (statusIntervals db))"

section \<open>Events\<close>

definition event_source_key :: "ident \<Rightarrow> status_event_values \<Rightarrow> (ident \<times> status_source \<times> string) option" where
  "event_source_key org v =
     (case se_sourceKey v of None \<Rightarrow> None | Some k \<Rightarrow> Some (org, se_primarySource v, k))"

definition event_row_key :: "status_event_row \<Rightarrow> (ident \<times> status_source \<times> string) option" where
  "event_row_key r = event_source_key (ev_organizationId r) (ev_values r)"

definition record_event ::
    "ident \<Rightarrow> status_event_values \<Rightarrow> 'm status_db_scheme \<Rightarrow> status_event_row option \<times> 'm status_db_scheme" where
  "record_event org v db =
     (let (i, db') = nanoid db;
          row = \<lparr>ev_id = i, ev_organizationId = org, ev_values = v\<rparr>
      in if event_source_key org v \<noteq> None \<and>
            list_ex (\<lambda>r. event_row_key r = event_source_key org v) (statusEvents db')
         then (None, db')
         else (Some row, db'\<lparr>statusEvents := statusEvents db' @ [row]\<rparr>))"

definition recent_losses_at ::
    "ident \<Rightarrow> ident \<Rightarrow> time \<Rightarrow> time \<Rightarrow> status_event_kind list \<Rightarrow> 'm status_db_scheme \<Rightarrow> time list" where
  "recent_losses_at org instanceId since until kinds db =
     (if kinds = [] then []
      else rev (sort (map (\<lambda>r. se_occurredAt (ev_values r))
             (filter (\<lambda>r. ev_organizationId r = org \<and> se_instanceId (ev_values r) = Some instanceId \<and>
                  se_kind (ev_values r) \<in> set kinds \<and>
                  since \<le> se_occurredAt (ev_values r) \<and> se_occurredAt (ev_values r) \<le> until)
                (statusEvents db)))))"

record event_filter =
  ef_since :: time
  ef_hostId :: "ident option"
  ef_instanceId :: "ident option"

definition event_matches :: "ident \<Rightarrow> event_filter \<Rightarrow> status_event_row \<Rightarrow> bool" where
  "event_matches org f r \<longleftrightarrow>
     ev_organizationId r = org \<and> ef_since f \<le> se_occurredAt (ev_values r) \<and>
     (case ef_hostId f of None \<Rightarrow> True | Some h \<Rightarrow> se_hostId (ev_values r) = Some h) \<and>
     (case ef_instanceId f of None \<Rightarrow> True | Some i \<Rightarrow> se_instanceId (ev_values r) = Some i)"

type_synonym status_event_cursor = "time \<times> ident"

definition event_position :: "status_event_row \<Rightarrow> status_event_cursor" where
  "event_position r = (se_occurredAt (ev_values r), ev_id r)"

definition before_cursor :: "status_event_cursor \<Rightarrow> status_event_row \<Rightarrow> bool" where
  "before_cursor cursor r \<longleftrightarrow>
     se_occurredAt (ev_values r) < fst cursor \<or>
     (se_occurredAt (ev_values r) = fst cursor \<and> ev_id r < snd cursor)"

definition list_events ::
    "ident \<Rightarrow> event_filter \<Rightarrow> nat \<Rightarrow> status_event_cursor option \<Rightarrow> 'm status_db_scheme
      \<Rightarrow> status_event_row list" where
  "list_events org f limit cursor db =
     take limit
       (rev (sort_key event_position
          (filter (\<lambda>r. event_matches org f r \<and>
                    (case cursor of None \<Rightarrow> True | Some c \<Rightarrow> before_cursor c r)) (statusEvents db))))"

definition count_events :: "ident \<Rightarrow> event_filter \<Rightarrow> 'm status_db_scheme \<Rightarrow> nat" where
  "count_events org f db = length (filter (event_matches org f) (statusEvents db))"

section \<open>Cursors\<close>

definition cursor_matches :: "ident \<Rightarrow> ident \<Rightarrow> status_source \<Rightarrow> status_cursor_row \<Rightarrow> bool" where
  "cursor_matches org inst src r \<longleftrightarrow>
     cu_organizationId r = org \<and> cu_instanceId r = inst \<and> cu_source r = src"

definition read_cursor ::
    "ident \<Rightarrow> ident \<Rightarrow> status_source \<Rightarrow> 'm status_db_scheme \<Rightarrow> string option" where
  "read_cursor org inst src db =
     map_option cu_cursor (find (cursor_matches org inst src) (statusSourceCursors db))"

definition write_cursor ::
    "ident \<Rightarrow> ident \<Rightarrow> status_source \<Rightarrow> string \<Rightarrow> time \<Rightarrow> 'm status_db_scheme \<Rightarrow> 'm status_db_scheme" where
  "write_cursor org inst src cursor observedAt db =
     (let db' = snd (nanoid db) in
      if list_ex (cursor_matches org inst src) (statusSourceCursors db') then
        db'\<lparr>statusSourceCursors :=
              update_rows (cursor_matches org inst src)
                (\<lambda>r. r\<lparr>cu_cursor := cursor, cu_lastObservedAt := observedAt\<rparr>) (statusSourceCursors db')\<rparr>
      else
        db'\<lparr>statusSourceCursors := statusSourceCursors db' @
              [\<lparr>cu_organizationId = org, cu_instanceId = inst, cu_source = src, cu_cursor = cursor,
                cu_lastObservedAt = observedAt\<rparr>]\<rparr>)"

section \<open>The store's contracts\<close>

lemma nanoid_simps [simp]:
  "fst (nanoid db) = nano_supply db (nano_next db)"
  "snd (nanoid db) = db\<lparr>nano_next := Suc (nano_next db)\<rparr>"
  by (simp_all add: nanoid_def)

lemma read_now_simps [simp]:
  "snd (read_now db) = db\<lparr>clock_next := Suc (clock_next db)\<rparr>"
  "fst (read_now db) = clock db (clock_next db)"
  by (simp_all add: read_now_def)

text \<open>The status log takes an event with a source key once; an event without one always.\<close>

definition event_keys :: "'m status_db_scheme \<Rightarrow> (ident \<times> status_source \<times> string) set" where
  "event_keys db = {k. \<exists>r \<in> set (statusEvents db). event_row_key r = Some k}"

lemma record_event_fst:
  "fst (record_event org v db) = None \<longleftrightarrow> (\<exists>k \<in> event_keys db. event_source_key org v = Some k)"
  by (force simp: record_event_def nanoid_def event_keys_def list_ex_iff Let_def)

lemma event_keys_record:
  "event_keys (snd (record_event org v db)) = event_keys db \<union> set_option (event_source_key org v)"
  by (force simp: record_event_def nanoid_def event_keys_def list_ex_iff Let_def event_row_key_def)

interpretation event_log: insert_once
  "\<lambda>(org, v). record_event org v" "\<lambda>(org, v). event_source_key org v" event_keys
proof unfold_locales
  fix v :: "ident \<times> status_event_values" and k s
  assume "(case v of (org, v) \<Rightarrow> event_source_key org v) = Some k" and "k \<in> event_keys s"
  then show "fst ((case v of (org, v) \<Rightarrow> record_event org v) s) = None \<and>
      event_keys (snd ((case v of (org, v) \<Rightarrow> record_event org v) s)) = event_keys s"
    by (cases v) (auto simp: record_event_fst event_keys_record)
next
  fix v :: "ident \<times> status_event_values" and s
  assume "\<And>k. (case v of (org, v) \<Rightarrow> event_source_key org v) = Some k \<Longrightarrow> k \<notin> event_keys s"
  then show "fst ((case v of (org, v) \<Rightarrow> record_event org v) s) \<noteq> None \<and>
      event_keys (snd ((case v of (org, v) \<Rightarrow> record_event org v) s)) =
        event_keys s \<union> set_option (case v of (org, v) \<Rightarrow> event_source_key org v)"
    by (cases v) (auto simp: record_event_fst event_keys_record simp del: not_None_eq)
qed

text \<open>A cursor reads back what was written last for its instance and source.\<close>

lemma read_write_cursor:
  "read_cursor org' i' src' (write_cursor org i src c t db) =
     (if (org', i', src') = (org, i, src) then Some c else read_cursor org' i' src' db)"
proof (cases "(org', i', src') = (org, i, src)")
  case True
  let ?m = "cursor_matches org i src"
  have same: "find ?m (update_rows ?m f xs) = map_option f (find ?m xs)"
    if "\<And>r. ?m (f r) = ?m r" for f xs
    using that by (intro find_update_rows_same) auto
  show ?thesis using True
    by (cases "find ?m (statusSourceCursors db)")
      (simp_all add: read_cursor_def write_cursor_def Let_def same cursor_matches_def find_append
        list_ex_find)
next
  case False
  then have other: "\<not> (cursor_matches org i src r \<and> cursor_matches org' i' src' r)" for r
    by (auto simp: cursor_matches_def)
  have upd: "find (cursor_matches org' i' src')
      (update_rows (cursor_matches org i src) (\<lambda>r. r\<lparr>cu_cursor := c, cu_lastObservedAt := t\<rparr>) xs) =
      find (cursor_matches org' i' src') xs" for xs
    using False by (intro find_update_rows_other) (auto simp: cursor_matches_def)
  show ?thesis using False
    by (auto simp: read_cursor_def write_cursor_def Let_def upd find_append split: option.splits)
      (auto simp: cursor_matches_def)
qed

interpretation cursors: keyed_upsert
  "\<lambda>(org, i, src) c. write_cursor org i src c t" "\<lambda>(org, i, src). read_cursor org i src" for t
  by unfold_locales (auto simp: read_write_cursor split: prod.splits)

subsection \<open>Conditions and open intervals by their keys\<close>

type_synonym status_key = "ident \<times> subject_ref \<times> status_dimension"

definition condition_key :: "status_condition_row \<Rightarrow> status_key" where
  "condition_key r = (sc_organizationId r, sc_subject r, sc_dimension r)"

definition interval_key :: "status_interval_row \<Rightarrow> status_key" where
  "interval_key r = (si_organizationId r, si_subject r, si_dimension r)"

definition condition_at :: "status_key \<Rightarrow> 'm status_db_scheme \<Rightarrow> status_condition_row option" where
  "condition_at k db = find (\<lambda>r. condition_key r = k) (statusConditions db)"

definition open_at :: "status_key \<Rightarrow> 'm status_db_scheme \<Rightarrow> status_interval_row option" where
  "open_at k db = find (\<lambda>r. interval_key r = k \<and> si_endedAt r = None) (statusIntervals db)"

lemma condition_matches_key: "condition_matches org s d = (\<lambda>r. condition_key r = (org, s, d))"
  by (auto simp: condition_matches_def condition_key_def)

lemma interval_open_key:
  "interval_open org s d = (\<lambda>r. interval_key r = (org, s, d) \<and> si_endedAt r = None)"
  by (auto simp: interval_open_def interval_key_def)

lemma find_condition_at: "find_condition org s d db = condition_at (org, s, d) db"
  by (simp add: find_condition_def condition_at_def condition_matches_key)

definition condition_value :: "status_condition_row \<Rightarrow> condition_patch \<times> time" where
  "condition_value r =
     (\<lparr>cp_state = sc_state r, cp_observedAt = sc_lastObservedAt r,
       cp_failureStartedAt = sc_failureStartedAt r, cp_activeIncidentId = sc_activeIncidentId r\<rparr>,
      sc_startedAt r)"

lemma condition_key_patch [simp]: "condition_key (patch_condition patch t r) = condition_key r"
  by (simp add: condition_key_def patch_condition_def)

lemma condition_value_patch [simp]: "condition_value (patch_condition patch t r) = (patch, t)"
  by (simp add: condition_value_def patch_condition_def)

lemma upsert_condition_at:
  "map_option condition_value (condition_at k' (upsert_condition org s d patch t db)) =
     (if k' = (org, s, d) then Some (patch, t) else map_option condition_value (condition_at k' db))"
proof (cases "k' = (org, s, d)")
  case True
  have "find (\<lambda>r. condition_key r = k) (update_rows (\<lambda>r. condition_key r = k) (patch_condition patch t) xs) =
      map_option (patch_condition patch t) (find (\<lambda>r. condition_key r = k) xs)" for k xs
    by (intro find_update_rows_same) auto
  then show ?thesis using True
    by (cases "find (\<lambda>r. condition_key r = (org, s, d)) (statusConditions db)")
      (simp_all add: upsert_condition_def condition_at_def condition_matches_key Let_def
        case_prod_beta list_ex_find find_append, simp_all add: condition_key_def condition_value_def)
next
  case False
  then have upd: "find (\<lambda>r. condition_key r = k')
      (update_rows (\<lambda>r. condition_key r = (org, s, d)) (patch_condition patch t) xs) =
      find (\<lambda>r. condition_key r = k') xs" for xs
    by (intro find_update_rows_other) auto
  show ?thesis using False
    by (auto simp: upsert_condition_def condition_at_def condition_matches_key Let_def case_prod_beta
        upd find_append split: option.splits) (auto simp: condition_key_def)
qed

interpretation conditions: keyed_upsert
  "\<lambda>(org, s, d) (patch, t). upsert_condition org s d patch t"
  "\<lambda>k db. map_option condition_value (condition_at k db)"
  by unfold_locales (auto simp: upsert_condition_at split: prod.splits simp del: map_option_eq_Some)

subsection \<open>Pages of the status log\<close>

definition past_cursor :: "status_event_cursor option \<Rightarrow> status_event_row \<Rightarrow> bool" where
  "past_cursor cursor r = (case cursor of None \<Rightarrow> True | Some c \<Rightarrow> event_position r < c)"

lemma before_cursor_less: "before_cursor c r \<longleftrightarrow> event_position r < c"
  by (auto simp: before_cursor_def event_position_def less_prod_def')

definition newest_first :: "ident \<Rightarrow> event_filter \<Rightarrow> 'm status_db_scheme \<Rightarrow> status_event_row list" where
  "newest_first org f db =
     rev (sort_key event_position (filter (event_matches org f) (statusEvents db)))"

lemma list_events_newest_first:
  "list_events org f n cursor db = take n (filter (past_cursor cursor) (newest_first org f db))"
proof -
  have "filter (\<lambda>r. event_matches org f r \<and> (case cursor of None \<Rightarrow> True | Some c \<Rightarrow> before_cursor c r)) es =
      filter (past_cursor cursor) (filter (event_matches org f) es)" for es
    by (auto simp: past_cursor_def before_cursor_less filter_filter conj_commute split: option.splits)
  then show ?thesis
    by (simp add: list_events_def newest_first_def rev_filter [symmetric] filter_sort)
qed

lemma set_newest_first: "set (newest_first org f db) = set (filter (event_matches org f) (statusEvents db))"
  by (simp add: newest_first_def)

lemma newest_first_descends:
  assumes "distinct (map ev_id (statusEvents db))"
  shows "sorted_wrt (\<lambda>a b. event_position b < event_position a) (newest_first org f db)"
proof -
  let ?s = "sort_key event_position (filter (event_matches org f) (statusEvents db))"
  have "distinct (map ev_id (filter (event_matches org f) (statusEvents db)))"
    using assms distinct_map_filter by blast
  then have "distinct (map ev_id ?s)"
    by (metis (no_types, lifting) distinct_map distinct_sort set_sort)
  then have d: "distinct (map event_position ?s)"
    by (auto simp: distinct_map inj_on_def event_position_def)
  have "sorted (map event_position ?s)" by simp
  then have "sorted_wrt (<) (map event_position ?s)" using d by (metis strict_sorted_iff)
  then show ?thesis by (simp add: newest_first_def sorted_wrt_rev sorted_wrt_map)
qed

lemma filter_below_nth:
  assumes "sorted_wrt (\<lambda>a b. (k b :: 'b :: linorder) < k a) xs" and "i < length xs"
  shows "filter (\<lambda>r. k r < k (xs ! i)) xs = drop (Suc i) xs"
  using assms
proof (induction xs arbitrary: i)
  case Nil
  then show ?case by simp
next
  case (Cons x xs)
  show ?case
  proof (cases i)
    case 0
    have "filter (\<lambda>r. k r < k x) xs = xs" using Cons.prems by (auto simp: filter_id_conv)
    then show ?thesis using 0 by simp
  next
    case (Suc j)
    have "k (xs ! j) < k x" using Cons.prems Suc by auto
    then have "\<not> k x < k (xs ! j)" by simp
    then show ?thesis using Cons.IH [of j] Cons.prems Suc by simp
  qed
qed

text \<open>
  The page after a full one starts where that one ended: the two together are the longer page.
\<close>

lemma list_events_next_page:
  assumes "distinct (map ev_id (statusEvents db))"
    and "page = list_events org f n cursor db" and "length page = n" and "0 < n"
  shows "page @ list_events org f m (Some (event_position (last page))) db =
     list_events org f (n + m) cursor db"
proof -
  let ?D = "newest_first org f db" and ?L = "filter (past_cursor cursor) (newest_first org f db)"
  have page: "page = take n ?L" using assms(2) by (simp add: list_events_newest_first)
  have n: "n \<le> length ?L" using page assms(3) by (metis length_take min.absorb_iff2)
  have last: "last page = ?L ! (n - 1)" using page n assms(3,4)
    by (metis One_nat_def diff_less last_conv_nth length_greater_0_conv less_numeral_extra(1) nth_take)
  have sorted: "sorted_wrt (\<lambda>a b. event_position b < event_position a) ?L"
    using newest_first_descends [OF assms(1)] sorted_wrt_filter by blast
  have below: "filter (\<lambda>r. event_position r < event_position (last page)) ?L = drop n ?L"
    using filter_below_nth [OF sorted, of "n - 1"] n assms(4) last by simp
  have "last page \<in> set ?L" using last n assms(4)
    by (metis One_nat_def diff_less less_le_trans nth_mem zero_less_one)
  then have "past_cursor cursor (last page)" by simp
  then have "event_position r < event_position (last page) \<Longrightarrow> past_cursor cursor r" for r
    by (auto simp: past_cursor_def split: option.splits)
  then have "filter (past_cursor (Some (event_position (last page)))) ?D =
      filter (\<lambda>r. event_position r < event_position (last page)) ?L"
    by (auto simp: past_cursor_def filter_filter intro!: filter_cong)
  then have "list_events org f m (Some (event_position (last page))) db = take m (drop n ?L)"
    using below by (simp add: list_events_newest_first)
  then show ?thesis using page by (simp add: list_events_newest_first take_add)
qed

text \<open>A page that is not full is the last one.\<close>

lemma list_events_short_page:
  assumes "length (list_events org f n cursor db) < n"
  shows "list_events org f n cursor db = list_events org f (n + m) cursor db"
  using assms by (simp add: list_events_newest_first)

end
