(* ===== verification/NotificationStore.thy ===== *)
theory NotificationStore
  imports StatusStore
begin

text \<open>
  The tables of \<open>packages/db/src/schema/notification.ts\<close> and the operations of
  \<open>packages/core/src/notification/notification.repository.ts\<close> on them, with the vocabulary of
  \<open>packages/contracts/src/notification.ts\<close>. Columns that default to \<open>now()\<close> take \<open>db_time\<close>. The
  advisory lock of \<open>lockTestsFor\<close> has no counterpart: operations here run one after another.
\<close>

section \<open>Vocabulary\<close>

datatype destination_kind =
    WebhookKind | TelegramKind | DiscordKind | SlackKind | TeamsKind | EmailKind | ResendKind
  | GotifyKind | NtfyKind

definition uses_email_transport :: "destination_kind \<Rightarrow> bool" where
  "uses_email_transport kind \<longleftrightarrow> kind = EmailKind"

datatype delivery_state = Queued | Delivered | Failed | Abandoned

datatype attempt_outcome = OutcomeDelivered | OutcomeRetryable | OutcomeTerminal

datatype notification_kind = EventNotification status_event_kind | TestNotification

definition notification_kinds :: "notification_kind list" where
  "notification_kinds =
     map EventNotification notifying_event_kinds @ map EventNotification resolving_event_kinds
     @ [TestNotification]"

section \<open>Tables\<close>

record destination_values =
  dv_name :: string
  dv_displayTarget :: string
  dv_secretEncrypted :: string
  dv_secretKeyId :: string

record destination_row =
  de_id :: ident
  de_organizationId :: ident
  de_kind :: destination_kind
  de_values :: destination_values
  de_enabled :: bool
  de_createdAt :: time
  de_lastSucceededAt :: "time option"
  de_lastFailedAt :: "time option"
  de_lastFailureReason :: "string option"

record subscription_row =
  su_id :: ident
  su_organizationId :: ident
  su_destinationId :: ident
  su_kind :: status_event_kind

record notification_values =
  nv_kind :: notification_kind
  nv_title :: string
  nv_body :: string
  nv_subjectType :: subject_type
  nv_subjectId :: ident
  nv_dedupeKey :: string
  nv_sourceStatusEventId :: "ident option"

record notification_row =
  no_id :: ident
  no_organizationId :: ident
  no_values :: notification_values
  no_createdAt :: time

record delivery_row =
  dl_id :: ident
  dl_organizationId :: ident
  dl_notificationId :: ident
  dl_destinationId :: ident
  dl_state :: delivery_state
  dl_attempts :: int
  dl_createdAt :: time
  dl_settledAt :: "time option"
  dl_lastError :: "string option"

record attempt_values =
  av_deliveryId :: ident
  av_attempt :: int
  av_outcome :: attempt_outcome
  av_statusCode :: "int option"
  av_error :: "string option"

record attempt_row =
  at_id :: ident
  at_organizationId :: ident
  at_values :: attempt_values
  at_at :: time

record notify_db = status_db +
  notificationDestinations :: "destination_row list"
  notificationSubscriptions :: "subscription_row list"
  notifications :: "notification_row list"
  notificationDeliveries :: "delivery_row list"
  notificationAttempts :: "attempt_row list"

section \<open>Destinations and subscriptions\<close>

definition destinations_subscribed_to ::
    "ident \<Rightarrow> status_event_kind \<Rightarrow> 'm notify_db_scheme \<Rightarrow> destination_row list" where
  "destinations_subscribed_to org kind db =
     concat (map (\<lambda>d. map (\<lambda>_. d)
         (filter (\<lambda>s. su_destinationId s = de_id d \<and> su_organizationId s = de_organizationId d \<and>
             su_kind s = kind) (notificationSubscriptions db)))
       (filter (\<lambda>d. de_organizationId d = org \<and> de_enabled d) (notificationDestinations db)))"

definition list_destinations :: "ident \<Rightarrow> 'm notify_db_scheme \<Rightarrow> destination_row list" where
  "list_destinations org db =
     sort_key (\<lambda>d. dv_name (de_values d))
       (filter (\<lambda>d. de_organizationId d = org) (notificationDestinations db))"

definition subscriptions_for ::
    "ident \<Rightarrow> ident list \<Rightarrow> 'm notify_db_scheme \<Rightarrow> (ident \<times> status_event_kind) list" where
  "subscriptions_for org destinationIds db =
     (if destinationIds = [] then []
      else map (\<lambda>s. (su_destinationId s, su_kind s))
        (filter (\<lambda>s. su_organizationId s = org \<and> su_destinationId s \<in> set destinationIds)
           (notificationSubscriptions db)))"

text \<open>Names are unique within an organization: \<open>notificationDestination_org_name_unique\<close>.\<close>

definition insert_destination ::
    "ident \<Rightarrow> destination_kind \<Rightarrow> destination_values \<Rightarrow> ('m notify_db_scheme, destination_row) io" where
  "insert_destination org kind values db =
     (let (i, db') = nanoid db;
          row = \<lparr>de_id = i, de_organizationId = org, de_kind = kind, de_values = values,
                 de_enabled = True, de_createdAt = db_time db', de_lastSucceededAt = None,
                 de_lastFailedAt = None, de_lastFailureReason = None\<rparr>
      in if list_ex (\<lambda>d. de_organizationId d = org \<and> dv_name (de_values d) = dv_name values)
              (notificationDestinations db')
         then (Inl unique_violation, db')
         else (Inr row, db'\<lparr>notificationDestinations := notificationDestinations db' @ [row]\<rparr>))"

definition is_destination :: "ident \<Rightarrow> ident \<Rightarrow> destination_row \<Rightarrow> bool" where
  "is_destination org i d \<longleftrightarrow> de_organizationId d = org \<and> de_id d = i"

definition find_destination :: "ident \<Rightarrow> ident \<Rightarrow> 'm notify_db_scheme \<Rightarrow> destination_row option" where
  "find_destination org i db = find (is_destination org i) (notificationDestinations db)"

definition update_destination ::
    "ident \<Rightarrow> ident \<Rightarrow> destination_values \<Rightarrow> ('m notify_db_scheme, destination_row option) io" where
  "update_destination org i values db =
     (if find_destination org i db \<noteq> None \<and>
         list_ex (\<lambda>d. de_organizationId d = org \<and> de_id d \<noteq> i \<and> dv_name (de_values d) = dv_name values)
           (notificationDestinations db)
      then (Inl unique_violation, db)
      else
        (Inr (map_option (\<lambda>d. d\<lparr>de_values := values\<rparr>) (find_destination org i db)),
         db\<lparr>notificationDestinations :=
              update_rows (is_destination org i) (\<lambda>d. d\<lparr>de_values := values\<rparr>)
                (notificationDestinations db)\<rparr>))"

definition set_destination_enabled ::
    "ident \<Rightarrow> ident \<Rightarrow> bool \<Rightarrow> 'm notify_db_scheme \<Rightarrow> bool \<times> 'm notify_db_scheme" where
  "set_destination_enabled org i enabled db =
     (updated_count (is_destination org i) (notificationDestinations db) = 1,
      db\<lparr>notificationDestinations :=
           update_rows (is_destination org i) (\<lambda>d. d\<lparr>de_enabled := enabled\<rparr>)
             (notificationDestinations db)\<rparr>)"

definition disable_destination :: "ident \<Rightarrow> ident \<Rightarrow> 'm notify_db_scheme \<Rightarrow> 'm notify_db_scheme" where
  "disable_destination org i db = snd (set_destination_enabled org i False db)"

text \<open>The outcome is written only when it is newer than both outcomes on record.\<close>

definition outcome_before :: "time \<Rightarrow> time option \<Rightarrow> bool" where
  "outcome_before observedAt on_record = (case on_record of None \<Rightarrow> True | Some t \<Rightarrow> t < observedAt)"

definition mark_destination_outcome ::
    "ident \<Rightarrow> ident \<Rightarrow> time option \<Rightarrow> time option \<Rightarrow> string option
      \<Rightarrow> 'm notify_db_scheme \<Rightarrow> 'm notify_db_scheme" where
  "mark_destination_outcome org i succeededAt failedAt reason db =
     (case (case succeededAt of None \<Rightarrow> failedAt | Some t \<Rightarrow> Some t) of
        None \<Rightarrow> db
      | Some observedAt \<Rightarrow>
          db\<lparr>notificationDestinations :=
               update_rows
                 (\<lambda>d. is_destination org i d \<and> outcome_before observedAt (de_lastSucceededAt d) \<and>
                   outcome_before observedAt (de_lastFailedAt d))
                 (\<lambda>d. case succeededAt of
                    None \<Rightarrow> d\<lparr>de_lastFailedAt := failedAt, de_lastFailureReason := reason\<rparr>
                  | Some t \<Rightarrow> d\<lparr>de_lastSucceededAt := Some t, de_lastFailureReason := None\<rparr>)
                 (notificationDestinations db)\<rparr>)"

fun insert_subscriptions ::
    "ident \<Rightarrow> ident \<Rightarrow> status_event_kind list \<Rightarrow> 'm notify_db_scheme \<Rightarrow> 'm notify_db_scheme" where
  "insert_subscriptions org i [] db = db"
| "insert_subscriptions org i (k # ks) db =
     (let (s, db') = nanoid db in
      insert_subscriptions org i ks
        (db'\<lparr>notificationSubscriptions := notificationSubscriptions db' @
               [\<lparr>su_id = s, su_organizationId = org, su_destinationId = i, su_kind = k\<rparr>]\<rparr>))"

text \<open>\<open>notificationSubscription_unique\<close> refuses a kind given twice.\<close>

definition replace_subscriptions ::
    "ident \<Rightarrow> ident \<Rightarrow> status_event_kind list \<Rightarrow> ('m notify_db_scheme, unit) io" where
  "replace_subscriptions org i kinds db =
     (let db' = db\<lparr>notificationSubscriptions :=
                    filter (\<lambda>s. \<not> (su_organizationId s = org \<and> su_destinationId s = i))
                      (notificationSubscriptions db)\<rparr>
      in if distinct kinds then (Inr (), insert_subscriptions org i kinds db')
         else (Inl unique_violation, db'))"

section \<open>Notifications\<close>

definition find_notification :: "ident \<Rightarrow> ident \<Rightarrow> 'm notify_db_scheme \<Rightarrow> notification_row option" where
  "find_notification org i db =
     find (\<lambda>n. no_organizationId n = org \<and> no_id n = i) (notifications db)"

definition notified_already :: "ident \<Rightarrow> string \<Rightarrow> 'm notify_db_scheme \<Rightarrow> notification_row option" where
  "notified_already org dedupeKey db =
     find (\<lambda>n. no_organizationId n = org \<and> nv_dedupeKey (no_values n) = dedupeKey) (notifications db)"

definition create_notification ::
    "ident \<Rightarrow> notification_values \<Rightarrow> 'm notify_db_scheme \<Rightarrow> notification_row option \<times> 'm notify_db_scheme" where
  "create_notification org values db =
     (let (i, db') = nanoid db;
          row = \<lparr>no_id = i, no_organizationId = org, no_values = values, no_createdAt = db_time db'\<rparr>
      in if notified_already org (nv_dedupeKey values) db' \<noteq> None then (None, db')
         else (Some row, db'\<lparr>notifications := notifications db' @ [row]\<rparr>))"

text \<open>
  \<open>lastAnnouncedAmong\<close>: the newest notification of the subject among the kinds, joined to the event
  it was raised for when an incident is given. The join drops notifications without an event.
\<close>

definition announced_for_incident :: "ident option \<Rightarrow> notification_row \<Rightarrow> 'm notify_db_scheme \<Rightarrow> bool" where
  "announced_for_incident incidentId n db =
     list_ex (\<lambda>e. nv_sourceStatusEventId (no_values n) = Some (ev_id e) \<and>
         ev_organizationId e = no_organizationId n \<and>
         (case incidentId of None \<Rightarrow> True | Some i \<Rightarrow> se_incidentId (ev_values e) = Some i))
       (statusEvents db)"

definition last_announced_among ::
    "ident \<Rightarrow> subject_type \<Rightarrow> ident \<Rightarrow> notification_kind list \<Rightarrow> ident option
      \<Rightarrow> 'm notify_db_scheme \<Rightarrow> notification_row option" where
  "last_announced_among org subjectType subjectId kinds incidentId db =
     (if kinds = [] then None
      else first_opt (rev (sort_key (\<lambda>n. (no_createdAt n, no_id n))
        (filter (\<lambda>n. no_organizationId n = org \<and> nv_subjectType (no_values n) = subjectType \<and>
             nv_subjectId (no_values n) = subjectId \<and> nv_kind (no_values n) \<in> set kinds \<and>
             announced_for_incident incidentId n db)
           (notifications db)))))"

section \<open>Deliveries\<close>

definition is_delivery :: "ident \<Rightarrow> ident \<Rightarrow> delivery_row \<Rightarrow> bool" where
  "is_delivery org i d \<longleftrightarrow> dl_organizationId d = org \<and> dl_id d = i"

definition find_delivery :: "ident \<Rightarrow> ident \<Rightarrow> 'm notify_db_scheme \<Rightarrow> delivery_row option" where
  "find_delivery org i db = find (is_delivery org i) (notificationDeliveries db)"

definition create_delivery ::
    "ident \<Rightarrow> ident \<Rightarrow> ident \<Rightarrow> 'm notify_db_scheme \<Rightarrow> delivery_row option \<times> 'm notify_db_scheme" where
  "create_delivery org notificationId destinationId db =
     (let (i, db') = nanoid db;
          row = \<lparr>dl_id = i, dl_organizationId = org, dl_notificationId = notificationId,
                 dl_destinationId = destinationId, dl_state = Queued, dl_attempts = 0,
                 dl_createdAt = db_time db', dl_settledAt = None, dl_lastError = None\<rparr>
      in if list_ex (\<lambda>d. dl_organizationId d = org \<and> dl_notificationId d = notificationId \<and>
              dl_destinationId d = destinationId) (notificationDeliveries db')
         then (None, db')
         else (Some row, db'\<lparr>notificationDeliveries := notificationDeliveries db' @ [row]\<rparr>))"

definition abandon_queued_for ::
    "ident \<Rightarrow> ident \<Rightarrow> time \<Rightarrow> string \<Rightarrow> 'm notify_db_scheme \<Rightarrow> nat \<times> 'm notify_db_scheme" where
  "abandon_queued_for org destinationId t reason db =
     (let p = (\<lambda>d. dl_organizationId d = org \<and> dl_destinationId d = destinationId \<and> dl_state d = Queued)
      in (updated_count p (notificationDeliveries db),
          db\<lparr>notificationDeliveries :=
               update_rows p
                 (\<lambda>d. d\<lparr>dl_state := Abandoned, dl_settledAt := Some t, dl_lastError := Some reason\<rparr>)
                 (notificationDeliveries db)\<rparr>))"

definition requeue_delivery :: "ident \<Rightarrow> ident \<Rightarrow> 'm notify_db_scheme \<Rightarrow> bool \<times> 'm notify_db_scheme" where
  "requeue_delivery org i db =
     (let p = (\<lambda>d. is_delivery org i d \<and> dl_state d \<in> {Failed, Abandoned})
      in (updated_count p (notificationDeliveries db) = 1,
          db\<lparr>notificationDeliveries :=
               update_rows p
                 (\<lambda>d. d\<lparr>dl_state := Queued, dl_attempts := 0, dl_settledAt := None, dl_lastError := None\<rparr>)
                 (notificationDeliveries db)\<rparr>))"

definition dismiss_delivery :: "ident \<Rightarrow> ident \<Rightarrow> time \<Rightarrow> 'm notify_db_scheme \<Rightarrow> bool \<times> 'm notify_db_scheme" where
  "dismiss_delivery org i t db =
     (let p = (\<lambda>d. is_delivery org i d \<and> dl_state d = Failed)
      in (updated_count p (notificationDeliveries db) = 1,
          db\<lparr>notificationDeliveries :=
               update_rows p (\<lambda>d. d\<lparr>dl_state := Abandoned, dl_settledAt := Some t\<rparr>)
                 (notificationDeliveries db)\<rparr>))"

record settle_values =
  sv_state :: delivery_state
  sv_attempts :: int
  sv_settledAt :: "time option"
  sv_lastError :: "string option"

definition settle_delivery ::
    "ident \<Rightarrow> ident \<Rightarrow> settle_values \<Rightarrow> 'm notify_db_scheme \<Rightarrow> 'm notify_db_scheme" where
  "settle_delivery org i v db =
     db\<lparr>notificationDeliveries :=
          update_rows (is_delivery org i)
            (\<lambda>d. d\<lparr>dl_state := sv_state v, dl_attempts := sv_attempts v,
                dl_settledAt := sv_settledAt v, dl_lastError := sv_lastError v\<rparr>)
            (notificationDeliveries db)\<rparr>"

definition record_attempt ::
    "ident \<Rightarrow> attempt_values \<Rightarrow> 'm notify_db_scheme \<Rightarrow> 'm notify_db_scheme" where
  "record_attempt org v db =
     (let (i, db') = nanoid db in
      db'\<lparr>notificationAttempts := notificationAttempts db' @
            [\<lparr>at_id = i, at_organizationId = org, at_values = v, at_at = db_time db'\<rparr>]\<rparr>)"

definition failure_count :: "ident \<Rightarrow> 'm notify_db_scheme \<Rightarrow> nat" where
  "failure_count org db =
     length (filter (\<lambda>d. dl_organizationId d = org \<and> dl_state d = Failed) (notificationDeliveries db))"

definition tests_since :: "ident \<Rightarrow> ident option \<Rightarrow> time \<Rightarrow> 'm notify_db_scheme \<Rightarrow> nat" where
  "tests_since org destinationId since db =
     length (concat (map (\<lambda>d.
         filter (\<lambda>n. no_id n = dl_notificationId d \<and> no_organizationId n = dl_organizationId d \<and>
             nv_kind (no_values n) = TestNotification) (notifications db))
       (filter (\<lambda>d. dl_organizationId d = org \<and>
           (case destinationId of None \<Rightarrow> True | Some i \<Rightarrow> dl_destinationId d = i) \<and>
           since \<le> dl_createdAt d) (notificationDeliveries db))))"

record failure_view =
  fv_deliveryId :: ident
  fv_destinationId :: ident
  fv_destinationName :: string
  fv_title :: string
  fv_reason :: "string option"
  fv_attempts :: int
  fv_settledAt :: "string option"

text \<open>
  The newest failures first; a delivery not settled sorts before the others, as \<open>desc\<close> puts nulls
  first. The joins are on the foreign keys of the delivery.
\<close>

definition failure_before :: "delivery_row \<Rightarrow> bool \<times> time \<times> ident" where
  "failure_before d =
     (case dl_settledAt d of None \<Rightarrow> (True, 0, dl_id d) | Some t \<Rightarrow> (False, t, dl_id d))"

definition recent_failures :: "ident \<Rightarrow> nat \<Rightarrow> nat \<Rightarrow> 'm notify_db_scheme \<Rightarrow> failure_view list" where
  "recent_failures org limit offset db =
     map (\<lambda>(d, n, de).
         \<lparr>fv_deliveryId = dl_id d, fv_destinationId = dl_destinationId d,
          fv_destinationName = dv_name (de_values de), fv_title = nv_title (no_values n),
          fv_reason = dl_lastError d, fv_attempts = dl_attempts d,
          fv_settledAt = map_option iso_string (dl_settledAt d)\<rparr>)
       (take limit (drop offset (rev (sort_key (\<lambda>(d, _, _). failure_before d)
         (concat (map (\<lambda>d. concat (map (\<lambda>n. map (\<lambda>de. (d, n, de))
             (filter (\<lambda>de. de_id de = dl_destinationId d \<and>
                 de_organizationId de = dl_organizationId d) (notificationDestinations db)))
           (filter (\<lambda>n. no_id n = dl_notificationId d \<and>
               no_organizationId n = dl_organizationId d) (notifications db))))
         (filter (\<lambda>d. dl_organizationId d = org \<and> dl_state d = Failed) (notificationDeliveries db))))))))"

section \<open>Deletion\<close>

text \<open>
  Deleting a destination deletes its subscriptions and deliveries, and deleting a notification its
  deliveries, by the tables' \<open>on delete cascade\<close>; a delivery takes its attempts with it.
\<close>

definition cascade_attempts :: "'m notify_db_scheme \<Rightarrow> 'm notify_db_scheme" where
  "cascade_attempts db =
     db\<lparr>notificationAttempts :=
          filter (\<lambda>a. list_ex (\<lambda>d. dl_id d = av_deliveryId (at_values a) \<and>
              dl_organizationId d = at_organizationId a) (notificationDeliveries db))
            (notificationAttempts db)\<rparr>"

definition delete_destination :: "ident \<Rightarrow> ident \<Rightarrow> 'm notify_db_scheme \<Rightarrow> bool \<times> 'm notify_db_scheme" where
  "delete_destination org i db =
     (updated_count (is_destination org i) (notificationDestinations db) = 1,
      cascade_attempts
        (db\<lparr>notificationDestinations := filter (\<lambda>d. \<not> is_destination org i d) (notificationDestinations db),
            notificationSubscriptions :=
              filter (\<lambda>s. \<not> (su_organizationId s = org \<and> su_destinationId s = i)) (notificationSubscriptions db),
            notificationDeliveries :=
              filter (\<lambda>d. \<not> (dl_organizationId d = org \<and> dl_destinationId d = i)) (notificationDeliveries db)\<rparr>))"

definition keeps_notification :: "time \<Rightarrow> 'm notify_db_scheme \<Rightarrow> notification_row \<Rightarrow> bool" where
  "keeps_notification settledBefore db n =
     list_ex (\<lambda>d. dl_notificationId d = no_id n \<and> dl_organizationId d = no_organizationId n \<and>
         (dl_state d = Queued \<or>
          (case dl_settledAt d of None \<Rightarrow> True | Some t \<Rightarrow> settledBefore \<le> t)))
       (notificationDeliveries db)"

definition delete_settled_before ::
    "ident \<Rightarrow> time \<Rightarrow> time \<Rightarrow> 'm notify_db_scheme \<Rightarrow> nat \<times> 'm notify_db_scheme" where
  "delete_settled_before org createdBefore settledBefore db =
     (let doomed = (\<lambda>n. no_organizationId n = org \<and> no_createdAt n < createdBefore \<and>
                      \<not> keeps_notification settledBefore db n)
      in (updated_count doomed (notifications db),
          cascade_attempts
            (db\<lparr>notifications := filter (\<lambda>n. \<not> doomed n) (notifications db),
                notificationDeliveries :=
                  filter (\<lambda>d. \<not> list_ex (\<lambda>n. doomed n \<and> no_id n = dl_notificationId d \<and>
                      no_organizationId n = dl_organizationId d) (notifications db))
                    (notificationDeliveries db)\<rparr>)))"

end
