(* ===== verification/Announce.thy ===== *)
theory Announce
  imports NotificationStore
begin

text \<open>
  How an event of the status log becomes a notification: the decision of
  \<open>packages/core/src/notification/producer.ts\<close>, the wording of
  \<open>packages/contracts/src/notification-copy.ts\<close>, and \<open>packages/core/src/notification/announce.ts\<close>,
  which writes the notification and queues one delivery per destination.

  The job queue is code outside the repository (pg-boss): its state is the field \<open>boss\<close>, of a type
  left open, and a \<open>job_sender\<close> is any function that may put a job on it, refuse it (\<open>None\<close>, the
  \<open>null\<close> of \<open>SendJob\<close>) or throw. Jobs are sent in the caller's transaction, so \<open>boss\<close> is undone with it.
\<close>

section \<open>Jobs\<close>

datatype queue_name =
    HostTeardownQueue | StatusEscalateQueue | NotificationCleanupQueue | NotificationHttpQueue
  | NotificationEmailQueue | NotificationDeadletterQueue | SystemUpdateCheckQueue

type_synonym payload = "(string \<times> string) list"

type_synonym 'q job_sender =
  "queue_name \<Rightarrow> payload \<Rightarrow> int option \<Rightarrow> 'q \<Rightarrow> (thrown + ident option) \<times> 'q"

record 'q app_db = notify_db +
  boss :: 'q

type_synonym ('q, 'a) app = "('q app_db, 'a) io"

definition send_job ::
    "'q job_sender \<Rightarrow> queue_name \<Rightarrow> payload \<Rightarrow> int option \<Rightarrow> ('q, ident option) app" where
  "send_job send queue payload startAfter db =
     (case send queue payload startAfter (boss db) of (r, b) \<Rightarrow> (r, db\<lparr>boss := b\<rparr>))"

section \<open>What is announced\<close>

record event_fact =
  fa_statusEventId :: ident
  fa_kind :: status_event_kind
  fa_subjectType :: subject_type
  fa_subjectId :: ident
  fa_subjectName :: string
  fa_incidentId :: "ident option"

definition dedupe_key_for :: "ident \<Rightarrow> string" where
  "dedupe_key_for i = ''event:'' @ i"

definition subscription_kind_for :: "status_event_kind \<Rightarrow> status_event_kind" where
  "subscription_kind_for kind = (case problem_resolved_by kind of Some p \<Rightarrow> p | None \<Rightarrow> kind)"

definition as_notification_kind :: "status_event_kind \<Rightarrow> notification_kind option" where
  "as_notification_kind kind = find (\<lambda>candidate. candidate = EventNotification kind) notification_kinds"

definition relevant_kinds :: "status_event_kind \<Rightarrow> notification_kind list" where
  "relevant_kinds kind =
     (let resolved = (case problem_resolved_by kind of None \<Rightarrow> None | Some p \<Rightarrow> as_notification_kind p);
          self = as_notification_kind kind
      in concat (map (\<lambda>c. case c of None \<Rightarrow> [] | Some k \<Rightarrow> [k]) [resolved, self]))"

definition worth_announcing :: "status_event_kind \<Rightarrow> notification_kind option \<Rightarrow> bool" where
  "worth_announcing kind lastAnnouncedKind =
     (case problem_resolved_by kind of
        Some problem \<Rightarrow> lastAnnouncedKind = Some (EventNotification problem)
      | None \<Rightarrow> is_notifying_event kind)"

section \<open>Wording\<close>

fun copy_of_event :: "status_event_kind \<Rightarrow> string \<Rightarrow> string \<times> string" where
  "copy_of_event HostUnreachable name =
     (name @ '' is not responding'',
      ''OpenMCC cannot reach this machine, so the bots on it are unmanaged.'')"
| "copy_of_event HostRecovered name =
     (name @ '' is back'', ''OpenMCC can reach this machine again.'')"
| "copy_of_event HostDriftStarted name =
     (name @ '' was changed elsewhere'',
      ''Something on this machine no longer matches what OpenMCC set up.'')"
| "copy_of_event HostDriftResolved name =
     (name @ '' matches again'', ''This machine is back to what OpenMCC set up.'')"
| "copy_of_event InstanceDisconnected name =
     (name @ '' left the server'', ''It has not managed to get back on.'')"
| "copy_of_event InstanceReconnected name =
     (name @ '' is back on the server'', ''It rejoined and is playing again.'')"
| "copy_of_event InstanceFlapping name =
     (name @ '' keeps dropping out'', ''It has left and rejoined repeatedly in the last half hour.'')"
| "copy_of_event InstanceNeverJoined name =
     (name @ '' never got on the server'', ''It started up but never joined.'')"
| "copy_of_event InstanceUnexpectedStop name =
     (name @ '' stopped on its own'', ''Nobody asked it to stop.'')"
| "copy_of_event InstanceProcessRecovered name =
     (name @ '' is running again'', ''It started back up.'')"
| "copy_of_event InstanceNeedsAuth name =
     (name @ '' needs you to sign in'', ''Open OpenMCC and start sign-in again.'')"
| "copy_of_event InstanceDriftStarted name =
     (name @ '' was changed elsewhere'', ''Its settings no longer match what OpenMCC has.'')"
| "copy_of_event InstanceDriftResolved name =
     (name @ '' settings match again'', ''Its settings are back to what OpenMCC has.'')"
| "copy_of_event _ name = ([], [])"

text \<open>
  \<open>COPY\<close> has an entry for each of \<open>NOTIFICATION_KINDS\<close> and no other; the last equation above is not
  reached from them.
\<close>

fun notification_copy :: "notification_kind \<Rightarrow> string \<Rightarrow> string \<times> string" where
  "notification_copy (EventNotification k) name = copy_of_event k name"
| "notification_copy TestNotification name =
     (''Test from OpenMCC'', ''If you are reading this, '' @ name @ '' is set up correctly.'')"

section \<open>Announcing\<close>

type_synonym 'w last_announced =
  "subject_type \<Rightarrow> ident \<Rightarrow> notification_kind list \<Rightarrow> ident option \<Rightarrow> 'w \<Rightarrow> notification_kind option"

definition plan_notification ::
    "event_fact \<Rightarrow> 'w last_announced \<Rightarrow> 'w \<Rightarrow> notification_values option" where
  "plan_notification ev lastAnnounced w =
     (case as_notification_kind (fa_kind ev) of
        None \<Rightarrow> None
      | Some kind \<Rightarrow>
          (let previous =
                 (if problem_resolved_by (fa_kind ev) = None then None
                  else lastAnnounced (fa_subjectType ev) (fa_subjectId ev)
                         (relevant_kinds (fa_kind ev)) (fa_incidentId ev) w)
           in if \<not> worth_announcing (fa_kind ev) previous then None
              else
                (let (title, body) = notification_copy kind (fa_subjectName ev) in
                 Some \<lparr>nv_kind = kind, nv_title = title, nv_body = body,
                       nv_subjectType = fa_subjectType ev, nv_subjectId = fa_subjectId ev,
                       nv_dedupeKey = dedupe_key_for (fa_statusEventId ev),
                       nv_sourceStatusEventId = Some (fa_statusEventId ev)\<rparr>)))"

definition queue_for :: "destination_row \<Rightarrow> queue_name" where
  "queue_for d =
     (if uses_email_transport (de_kind d) then NotificationEmailQueue else NotificationHttpQueue)"

definition delivery_payload :: "ident \<Rightarrow> ident \<Rightarrow> payload \<Rightarrow> payload" where
  "delivery_payload org deliveryId carrier =
     [(''organizationId'', org), (''deliveryId'', deliveryId), (''attempt'', ''1'')] @ carrier"

text \<open>One turn of the loop over the destinations.\<close>

definition deliver_to ::
    "'q job_sender \<Rightarrow> payload \<Rightarrow> ident \<Rightarrow> ident \<Rightarrow> destination_row \<Rightarrow> ('q, unit) app" where
  "deliver_to send carrier org notificationId d db =
     (case create_delivery org notificationId (de_id d) db of
        (None, db') \<Rightarrow> (Inr (), db')
      | (Some delivery, db') \<Rightarrow>
          (case send_job send (queue_for d) (delivery_payload org (dl_id delivery) carrier) None db' of
             (Inl e, db'') \<Rightarrow> (Inl e, db'')
           | (Inr None, db'') \<Rightarrow>
               (Inl (internal_error (''the delivery to '' @ dv_name (de_values d) @ '' could not be queued'')), db'')
           | (Inr (Some _), db'') \<Rightarrow> (Inr (), db'')))"

definition announce ::
    "'q job_sender \<Rightarrow> payload \<Rightarrow> ident \<Rightarrow> event_fact \<Rightarrow> ('q, notification_values option) app" where
  "announce send carrier org ev db =
     (case plan_notification ev
             (\<lambda>subjectType subjectId kinds incidentId w.
                map_option (\<lambda>n. nv_kind (no_values n))
                  (last_announced_among org subjectType subjectId kinds incidentId w)) db of
        None \<Rightarrow> (Inr None, db)
      | Some planned \<Rightarrow>
          (case find (\<lambda>candidate. candidate = subscription_kind_for (fa_kind ev)) notifying_event_kinds of
             None \<Rightarrow> (Inr None, db)
           | Some subscribable \<Rightarrow>
               (let destinations = destinations_subscribed_to org subscribable db in
                if destinations = [] then (Inr None, db)
                else
                  (case create_notification org planned db of
                     (None, db') \<Rightarrow> (Inr None, db')
                   | (Some notification, db') \<Rightarrow>
                       (case io_for destinations
                               (deliver_to send carrier org (no_id notification)) db' of
                          (Inl e, db'') \<Rightarrow> (Inl e, db'')
                        | (Inr _, db'') \<Rightarrow> (Inr (Some planned), db''))))))"

section \<open>Lemmas\<close>

lemma as_notification_kind_iff:
  "as_notification_kind k =
     (if k \<in> set notifying_event_kinds \<or> k \<in> set resolving_event_kinds
      then Some (EventNotification k) else None)"
  by (cases k) (simp_all add: as_notification_kind_def notification_kinds_def
      notifying_event_kinds_def resolving_event_kinds_def)

lemma find_eq: "find (\<lambda>c. c = k) xs = (if k \<in> set xs then Some k else None)"
  by (induction xs) auto

text \<open>A subscription always exists for what is worth announcing.\<close>

lemma worth_announcing_subscribable:
  "worth_announcing k previous \<Longrightarrow> subscription_kind_for k \<in> set notifying_event_kinds"
  by (auto simp: worth_announcing_def subscription_kind_for_def is_notifying_event_def
      split: option.splits dest: problem_resolved_by_notifying)

lemma plan_notification_kind:
  assumes "plan_notification ev lastAnnounced w = Some p"
  shows "nv_kind p = EventNotification (fa_kind ev) \<and> nv_dedupeKey p = dedupe_key_for (fa_statusEventId ev) \<and>
     worth_announcing (fa_kind ev)
       (if problem_resolved_by (fa_kind ev) = None then None
        else lastAnnounced (fa_subjectType ev) (fa_subjectId ev) (relevant_kinds (fa_kind ev)) (fa_incidentId ev) w)"
  using assms
  by (auto simp: plan_notification_def as_notification_kind_iff Let_def split: option.splits if_splits prod.splits)

text \<open>
  A resolution is announced only after its problem was, and not twice: the last announcement among
  the two kinds must be the problem.
\<close>

lemma plan_resolution_iff:
  assumes "problem_resolved_by (fa_kind ev) = Some problem"
  shows "plan_notification ev lastAnnounced w \<noteq> None \<longleftrightarrow>
     lastAnnounced (fa_subjectType ev) (fa_subjectId ev)
       [EventNotification problem, EventNotification (fa_kind ev)] (fa_incidentId ev) w =
     Some (EventNotification problem)"
proof -
  have k: "fa_kind ev \<in> set resolving_event_kinds"
    using assms by (simp add: resolving_event_kinds_iff)
  have p: "problem \<in> set notifying_event_kinds"
    using problem_resolved_by_notifying [OF assms] by (simp add: is_notifying_event_def)
  have "relevant_kinds (fa_kind ev) = [EventNotification problem, EventNotification (fa_kind ev)]"
    using assms k p by (simp add: relevant_kinds_def as_notification_kind_iff)
  then show ?thesis using assms k
    by (auto simp: plan_notification_def as_notification_kind_iff worth_announcing_def Let_def
        split: prod.splits)
qed

lemma plan_problem_iff:
  assumes "problem_resolved_by (fa_kind ev) = None"
  shows "plan_notification ev lastAnnounced w \<noteq> None \<longleftrightarrow> is_notifying_event (fa_kind ev)"
  using assms
  by (auto simp: plan_notification_def as_notification_kind_iff worth_announcing_def Let_def
      is_notifying_event_def resolving_event_kinds_iff split: prod.splits)

subsection \<open>Once only\<close>

definition notification_keys :: "'m notify_db_scheme \<Rightarrow> (ident \<times> string) set" where
  "notification_keys db = (\<lambda>n. (no_organizationId n, nv_dedupeKey (no_values n))) ` set (notifications db)"

lemma notified_already_iff:
  "notified_already org key db \<noteq> None \<longleftrightarrow> (org, key) \<in> notification_keys db"
  by (auto simp: notified_already_def notification_keys_def find_None_iff)

interpretation notification_log: insert_once
  "\<lambda>(org, v). create_notification org v" "\<lambda>(org, v). Some (org, nv_dedupeKey v)" notification_keys
proof unfold_locales
  fix v :: "ident \<times> notification_values" and k and s :: "'a notify_db_scheme"
  obtain org nv where v: "v = (org, nv)" by (cases v)
  assume "(case v of (org, v) \<Rightarrow> Some (org, nv_dedupeKey v)) = Some k" and "k \<in> notification_keys s"
  then have "notified_already org (nv_dedupeKey nv) (snd (nanoid s)) \<noteq> None"
    by (simp add: v notified_already_iff notification_keys_def del: not_None_eq)
  then show "fst ((case v of (org, v) \<Rightarrow> create_notification org v) s) = None \<and>
      notification_keys (snd ((case v of (org, v) \<Rightarrow> create_notification org v) s)) = notification_keys s"
    by (simp add: v create_notification_def case_prod_beta Let_def notification_keys_def del: not_None_eq)
next
  fix v :: "ident \<times> notification_values" and s :: "'a notify_db_scheme"
  obtain org nv where v: "v = (org, nv)" by (cases v)
  assume "\<And>k. (case v of (org, v) \<Rightarrow> Some (org, nv_dedupeKey v)) = Some k \<Longrightarrow> k \<notin> notification_keys s"
  then have "\<not> notified_already org (nv_dedupeKey nv) (snd (nanoid s)) \<noteq> None"
    unfolding notified_already_iff by (simp add: v notification_keys_def)
  then show "fst ((case v of (org, v) \<Rightarrow> create_notification org v) s) \<noteq> None \<and>
      notification_keys (snd ((case v of (org, v) \<Rightarrow> create_notification org v) s)) =
        notification_keys s \<union> set_option (case v of (org, v) \<Rightarrow> Some (org, nv_dedupeKey v))"
    by (auto simp: v create_notification_def case_prod_beta Let_def notification_keys_def)
qed

definition delivery_keys :: "'m notify_db_scheme \<Rightarrow> (ident \<times> ident \<times> ident) set" where
  "delivery_keys db =
     (\<lambda>d. (dl_organizationId d, dl_notificationId d, dl_destinationId d)) ` set (notificationDeliveries db)"

interpretation delivery_log: insert_once
  "\<lambda>(org, n, d). create_delivery org n d" "\<lambda>k. Some k" delivery_keys
proof unfold_locales
  fix v k :: "ident \<times> ident \<times> ident" and s :: "'a notify_db_scheme"
  assume "Some v = Some k" and "k \<in> delivery_keys s"
  then show "fst ((case v of (org, n, d) \<Rightarrow> create_delivery org n d) s) = None \<and>
      delivery_keys (snd ((case v of (org, n, d) \<Rightarrow> create_delivery org n d) s)) = delivery_keys s"
    by (cases v) (auto simp: create_delivery_def case_prod_beta Let_def delivery_keys_def list_ex_iff)
next
  fix v :: "ident \<times> ident \<times> ident" and s :: "'a notify_db_scheme"
  assume "\<And>k. Some v = Some k \<Longrightarrow> k \<notin> delivery_keys s"
  then have "v \<notin> delivery_keys s" by simp
  then show "fst ((case v of (org, n, d) \<Rightarrow> create_delivery org n d) s) \<noteq> None \<and>
      delivery_keys (snd ((case v of (org, n, d) \<Rightarrow> create_delivery org n d) s)) =
        delivery_keys s \<union> set_option (Some v)"
    by (cases v) (auto simp: create_delivery_def case_prod_beta Let_def delivery_keys_def list_ex_iff)
qed

subsection \<open>What announcing leaves alone\<close>

text \<open>The tables of the status log, and the supplies but for the identifiers drawn.\<close>

definition same_status :: "'m status_db_scheme \<Rightarrow> 'm status_db_scheme \<Rightarrow> bool" where
  "same_status db db' \<longleftrightarrow>
     nano_supply db' = nano_supply db \<and> nano_next db \<le> nano_next db' \<and>
     clock db' = clock db \<and> clock_next db \<le> clock_next db' \<and> db_time db' = db_time db \<and>
     statusConditions db' = statusConditions db \<and> statusIntervals db' = statusIntervals db \<and>
     statusEvents db' = statusEvents db \<and> statusSourceCursors db' = statusSourceCursors db"

lemma same_status_refl [simp]: "same_status db db"
  by (simp add: same_status_def)

lemma same_status_trans: "same_status a b \<Longrightarrow> same_status b c \<Longrightarrow> same_status a c"
  by (simp add: same_status_def)

lemma same_status_create_delivery [simp]: "same_status db (snd (create_delivery org n d db))"
  by (simp add: create_delivery_def case_prod_beta Let_def same_status_def)

lemma same_status_create_notification [simp]: "same_status db (snd (create_notification org v db))"
  by (simp add: create_notification_def case_prod_beta Let_def same_status_def)

lemma same_status_send_job [simp]: "same_status db (snd (send_job send q p t db))"
  by (simp add: send_job_def case_prod_beta same_status_def)

lemma same_status_deliver_to: "same_status db (snd (deliver_to send carrier org n d db))"
proof -
  obtain r db1 where c: "create_delivery org n (de_id d) db = (r, db1)" by (metis surj_pair)
  have 1: "same_status db db1" using same_status_create_delivery [of db org n "de_id d"] c by simp
  show ?thesis
  proof (cases r)
    case None
    then show ?thesis using 1 c by (simp add: deliver_to_def)
  next
    case (Some dl)
    have "same_status db1 (snd (send_job send (queue_for d) (delivery_payload org (dl_id dl) carrier) None db1))"
      by simp
    then show ?thesis using 1 c Some same_status_trans
      by (fastforce simp: deliver_to_def split: prod.splits sum.splits option.splits)
  qed
qed

lemma same_status_announce: "same_status db (snd (announce send carrier org ev db))"
proof -
  have loop: "same_status db (snd (io_for ds (deliver_to send carrier org n) db1))"
    if "same_status db db1" for ds n db1
    by (rule io_for_keeps [where P = "same_status db"])
      (use that same_status_deliver_to same_status_trans in blast)+
  have "same_status db (snd (case create_notification org v db of
        (None, db') \<Rightarrow> (Inr None, db')
      | (Some n, db') \<Rightarrow>
          (case io_for ds (deliver_to send carrier org (no_id n)) db' of
             (Inl e, db'') \<Rightarrow> (Inl e, db'') | (Inr _, db'') \<Rightarrow> (Inr (Some v), db''))))" for v ds
  proof (cases "create_notification org v db")
    case (Pair r db1)
    then have "same_status db db1"
      using same_status_create_notification [of db org v] by simp
    then have "same_status db (snd (io_for ds (deliver_to send carrier org n) db1))" for n
      by (rule loop)
    then show ?thesis using Pair \<open>same_status db db1\<close>
      by (auto split: option.splits prod.splits sum.splits) (metis snd_conv)+
  qed
  then show ?thesis
    by (simp add: announce_def Let_def split: option.split)
qed

subsection \<open>A queue that takes what it is given\<close>

text \<open>A queue that takes every job it is given.\<close>

definition obliging :: "'q job_sender \<Rightarrow> bool" where
  "obliging send \<longleftrightarrow> (\<forall>q p t b. \<exists>i b'. send q p t b = (Inr (Some i), b'))"

lemma obliging_send_job: "obliging send \<Longrightarrow> \<exists>i db'. send_job send q p t db = (Inr (Some i), db')"
  unfolding obliging_def send_job_def by (metis (mono_tags, lifting) case_prod_conv)

lemma obliging_deliver_to: "obliging send \<Longrightarrow> \<exists>db'. deliver_to send carrier org n d db = (Inr (), db')"
proof -
  assume o: "obliging send"
  obtain r db1 where c: "create_delivery org n (de_id d) db = (r, db1)" by (metis surj_pair)
  show ?thesis
  proof (cases r)
    case None
    then show ?thesis using c by (simp add: deliver_to_def)
  next
    case (Some dl)
    obtain j db2 where "send_job send (queue_for d) (delivery_payload org (dl_id dl) carrier) None db1 = (Inr (Some j), db2)"
      using obliging_send_job [OF o] by blast
    then show ?thesis using c Some by (simp add: deliver_to_def)
  qed
qed

lemma obliging_deliveries: "obliging send \<Longrightarrow> \<exists>db'. io_for ds (deliver_to send carrier org n) db = (Inr (), db')"
proof (induction ds arbitrary: db)
  case Nil
  then show ?case by simp
next
  case (Cons d ds)
  obtain db1 where "deliver_to send carrier org n d db = (Inr (), db1)"
    using obliging_deliver_to [OF Cons.prems] by blast
  then show ?case using Cons.IH [OF Cons.prems] by simp
qed

lemma obliging_announce: "obliging send \<Longrightarrow> \<exists>x db'. announce send carrier org ev db = (Inr x, db')"
proof -
  assume o: "obliging send"
  have "\<exists>x db'. (case create_notification org v db of
        (None, db') \<Rightarrow> (Inr None, db')
      | (Some n, db') \<Rightarrow>
          (case io_for ds (deliver_to send carrier org (no_id n)) db' of
             (Inl e, db'') \<Rightarrow> (Inl e, db'') | (Inr _, db'') \<Rightarrow> (Inr (Some v), db''))) = (Inr x, db')" for v ds
  proof (cases "create_notification org v db")
    case (Pair r db1)
    then show ?thesis
    proof (cases r)
      case (Some n)
      obtain db2 where "io_for ds (deliver_to send carrier org (no_id n)) db1 = (Inr (), db2)"
        using obliging_deliveries [OF o] by blast
      then show ?thesis using Pair Some by simp
    qed simp
  qed
  then show ?thesis by (simp add: announce_def Let_def split: option.split)
qed

end
