(* ===== verification/Reachability.thy ===== *)
theory Reachability
  imports StatusContract
begin

text \<open>
  \<open>packages/core/src/status/reachability.ts\<close>: one probe of a host moves its reachability between
  unknown, up, suspect and down, and names the event the move is logged as.
\<close>

datatype reachability_state = RUp | RSuspect | RDown | RUnknown

fun reachability_as_state :: "reachability_state \<Rightarrow> status_state" where
  "reachability_as_state RUp = Up"
| "reachability_as_state RSuspect = Suspect"
| "reachability_as_state RDown = Down"
| "reachability_as_state RUnknown = Unknown"

record reachability_current =
  rc_state :: reachability_state
  rc_failureStartedAt :: "time option"

record reachability_decision =
  rd_state :: reachability_state
  rd_failureStartedAt :: "time option"
  rd_event :: "status_event_kind option"
  rd_changed :: bool

definition unobserved_reachability :: reachability_current where
  "unobserved_reachability = \<lparr>rc_state = RUnknown, rc_failureStartedAt = None\<rparr>"

definition next_reachability_after ::
    "reachability_current \<Rightarrow> bool \<Rightarrow> time \<Rightarrow> int \<Rightarrow> reachability_decision" where
  "next_reachability_after current reached now suspectToDownMs =
     (if reached then
        (if rc_state current = RUp then
           \<lparr>rd_state = RUp, rd_failureStartedAt = None, rd_event = None, rd_changed = False\<rparr>
         else
           \<lparr>rd_state = RUp, rd_failureStartedAt = None,
            rd_event =
              (if rc_state current = RDown then Some HostRecovered
               else if rc_state current = RSuspect then Some HostCheckRecovered
               else None),
            rd_changed = True\<rparr>)
      else if rc_state current = RDown then
        \<lparr>rd_state = RDown, rd_failureStartedAt = rc_failureStartedAt current,
         rd_event = None, rd_changed = False\<rparr>
      else
        (let failingSince =
               (if rc_state current = RSuspect \<and> rc_failureStartedAt current \<noteq> None
                then the (rc_failureStartedAt current) else now)
         in if suspectToDownMs \<le> now - failingSince then
              \<lparr>rd_state = RDown, rd_failureStartedAt = Some failingSince,
               rd_event = Some HostUnreachable, rd_changed = True\<rparr>
            else if rc_state current = RSuspect then
              \<lparr>rd_state = RSuspect, rd_failureStartedAt = Some failingSince,
               rd_event = None, rd_changed = False\<rparr>
            else
              \<lparr>rd_state = RSuspect, rd_failureStartedAt = Some failingSince,
               rd_event = Some HostCheckFailed, rd_changed = True\<rparr>))"

definition next_reachability :: "reachability_current \<Rightarrow> bool \<Rightarrow> time \<Rightarrow> reachability_decision" where
  "next_reachability current reached now =
     next_reachability_after current reached now host_suspect_to_down_ms"

section \<open>Runs of probes\<close>

text \<open>
  A host's history is a list of probes (the answer and when). The state after a probe is what the
  decision stored; the log is the events of the decisions, in order.
\<close>

definition current_of_decision :: "reachability_decision \<Rightarrow> reachability_current" where
  "current_of_decision d =
     \<lparr>rc_state = rd_state d, rc_failureStartedAt = rd_failureStartedAt d\<rparr>"

fun probe_run :: "reachability_current \<Rightarrow> (bool \<times> time) list \<Rightarrow> reachability_current" where
  "probe_run c [] = c"
| "probe_run c ((reached, now) # ps) =
     probe_run (current_of_decision (next_reachability c reached now)) ps"

fun probe_events ::
    "reachability_current \<Rightarrow> (bool \<times> time) list \<Rightarrow> (status_event_kind \<times> time) list" where
  "probe_events c [] = []"
| "probe_events c ((reached, now) # ps) =
     (let d = next_reachability c reached now in
      (case rd_event d of None \<Rightarrow> [] | Some e \<Rightarrow> [(e, now)])
      @ probe_events (current_of_decision d) ps)"

text \<open>Well-formed: a host is failing since some instant exactly when it is suspect or down.\<close>

definition reach_ok :: "reachability_current \<Rightarrow> bool" where
  "reach_ok c \<longleftrightarrow> (rc_failureStartedAt c \<noteq> None \<longleftrightarrow> rc_state c \<in> {RSuspect, RDown})"

lemmas reach_defs =
  next_reachability_def next_reachability_after_def current_of_decision_def host_suspect_to_down_ms_def

lemma reach_ok_unobserved [simp]: "reach_ok unobserved_reachability"
  by (simp add: reach_ok_def unobserved_reachability_def)

lemma next_reachability_ok:
  "reach_ok c \<Longrightarrow> reach_ok (current_of_decision (next_reachability c reached now))"
  by (cases "rc_state c") (auto simp: reach_ok_def reach_defs Let_def)

lemma probe_run_ok: "reach_ok c \<Longrightarrow> reach_ok (probe_run c ps)"
  by (induction c ps rule: probe_run.induct) (auto simp: next_reachability_ok)

lemma probe_run_append: "probe_run c (ps @ qs) = probe_run (probe_run c ps) qs"
  by (induction c ps rule: probe_run.induct) auto

lemma probe_events_append:
  "probe_events c (ps @ qs) = probe_events c ps @ probe_events (probe_run c ps) qs"
  by (induction c ps rule: probe_run.induct) (auto simp: Let_def)

text \<open>A host that is declared unreachable has been failing for the whole threshold.\<close>

lemma unreachable_after_threshold:
  assumes "rd_event (next_reachability c reached now) = Some HostUnreachable"
  shows "\<not> reached \<and> rc_state c = RSuspect \<and>
     (\<exists>since. rc_failureStartedAt c = Some since \<and> host_suspect_to_down_ms \<le> now - since)"
  using assms
  by (cases "rc_state c") (auto simp: reach_defs Let_def split: if_splits)

text \<open>An event is logged exactly when the state moves, except from unknown to up.\<close>

lemma reachability_event_iff:
  "rd_event (next_reachability c reached now) \<noteq> None \<longleftrightarrow>
     rd_state (next_reachability c reached now) \<noteq> rc_state c \<and> \<not> (rc_state c = RUnknown \<and> reached)"
  by (cases "rc_state c") (auto simp: reach_defs Let_def)

lemma reachability_changed_iff:
  "rd_changed (next_reachability c reached now) \<longleftrightarrow>
     rd_state (next_reachability c reached now) \<noteq> rc_state c"
  by (cases "rc_state c") (auto simp: reach_defs Let_def)

lemma reachability_reached [simp]: "rd_state (next_reachability c True now) = RUp"
  by (simp add: reach_defs)

section \<open>What the log says\<close>

text \<open>
  The failing streak of a run, read off the probes alone: the instant of the first failed probe
  since the last answered one.
\<close>

fun failing_since :: "time option \<Rightarrow> (bool \<times> time) list \<Rightarrow> time option" where
  "failing_since s [] = s"
| "failing_since s ((reached, now) # ps) =
     failing_since (if reached then None else (case s of None \<Rightarrow> Some now | Some t \<Rightarrow> Some t)) ps"

text \<open>
  The abstract specification: a host is up after an answer, and after failures since \<open>t\<close> it is
  down once some failed probe came at least the threshold after \<open>t\<close>.
\<close>

fun late_failure :: "time option \<Rightarrow> (bool \<times> time) list \<Rightarrow> bool \<Rightarrow> bool" where
  "late_failure s [] b = b"
| "late_failure s ((reached, now) # ps) b =
     (if reached then late_failure None ps False
      else (case s of
              None \<Rightarrow> late_failure (Some now) ps (host_suspect_to_down_ms \<le> 0)
            | Some t \<Rightarrow> late_failure (Some t) ps (b \<or> host_suspect_to_down_ms \<le> now - t)))"

lemma probe_run_spec_aux:
  assumes "reach_ok c"
  shows "rc_failureStartedAt (probe_run c ps) = failing_since (rc_failureStartedAt c) ps \<and>
    (rc_state (probe_run c ps) = RDown \<longleftrightarrow>
       late_failure (rc_failureStartedAt c) ps (rc_state c = RDown))"
  using assms
proof (induction c ps rule: probe_run.induct)
  case (1 c)
  then show ?case by simp
next
  case (2 c reached now ps)
  let ?d = "current_of_decision (next_reachability c reached now)"
  have ok: "reach_ok ?d" using 2 by (simp add: next_reachability_ok)
  have s: "rc_failureStartedAt ?d =
      (if reached then None
       else (case rc_failureStartedAt c of None \<Rightarrow> Some now | Some t \<Rightarrow> Some t))"
    using 2(2) by (cases "rc_state c") (auto simp: reach_defs Let_def reach_ok_def)
  have b: "rc_state ?d = RDown \<longleftrightarrow>
      \<not> reached \<and> (rc_state c = RDown \<or>
        (\<exists>t. rc_failureStartedAt c = Some t \<and> host_suspect_to_down_ms \<le> now - t))"
    using 2(2) by (cases "rc_state c") (auto simp: reach_defs Let_def reach_ok_def)
  have d: "rc_failureStartedAt c = None \<Longrightarrow> rc_state c \<noteq> RDown"
    using 2(2) by (auto simp: reach_ok_def)
  show ?case
    using 2(1) [OF ok] s b d
    by (cases "rc_failureStartedAt c") (auto simp: host_suspect_to_down_ms_def)
qed

text \<open>
  Events alternate: between two announcements that a host is unreachable there is one that it
  recovered.
\<close>

definition outage_kinds :: "status_event_kind list" where
  "outage_kinds = [HostUnreachable, HostRecovered]"

fun alternates :: "status_event_kind \<Rightarrow> status_event_kind list \<Rightarrow> bool" where
  "alternates expected [] = True"
| "alternates expected (k # ks) =
     (k = expected \<and> alternates (if expected = HostUnreachable then HostRecovered else HostUnreachable) ks)"

definition outage_log :: "(status_event_kind \<times> time) list \<Rightarrow> status_event_kind list" where
  "outage_log es = filter (\<lambda>k. k \<in> set outage_kinds) (map fst es)"

lemma outage_log_append [simp]: "outage_log (xs @ ys) = outage_log xs @ outage_log ys"
  by (simp add: outage_log_def)

lemma outage_step:
  assumes "reach_ok c"
  shows "(case rd_event (next_reachability c reached now) of
            Some HostUnreachable \<Rightarrow> rc_state c \<noteq> RDown \<and> rd_state (next_reachability c reached now) = RDown
          | Some HostRecovered \<Rightarrow> rc_state c = RDown \<and> rd_state (next_reachability c reached now) \<noteq> RDown
          | _ \<Rightarrow> (rc_state c = RDown \<longleftrightarrow> rd_state (next_reachability c reached now) = RDown))"
  using assms by (cases "rc_state c") (auto simp: reach_defs Let_def)

lemma outages_alternate_aux:
  "reach_ok c \<Longrightarrow>
     alternates (if rc_state c = RDown then HostRecovered else HostUnreachable)
       (outage_log (probe_events c ps))"
proof (induction c ps rule: probe_events.induct)
  case (1 c)
  then show ?case by (simp add: outage_log_def)
next
  case (2 c reached now ps)
  let ?d = "next_reachability c reached now"
  have ok: "reach_ok (current_of_decision ?d)" using 2(2) by (rule next_reachability_ok)
  note IH = 2(1) [OF refl ok]
  have st: "rc_state (current_of_decision ?d) = rd_state ?d" by (simp add: current_of_decision_def)
  show ?case
    using IH outage_step [OF 2(2), of reached now] st
    by (cases "rd_event ?d")
      (auto simp: Let_def outage_log_def outage_kinds_def split: status_event_kind.splits if_splits)
qed

end
