(* ===== verification/Journal.thy ===== *)
theory Journal
  imports Prelude
begin

text \<open>
  \<open>packages/contracts/src/boundary/journal.ts\<close>: the lines \<open>journalctl -o short-iso --show-cursor\<close>
  prints, the cursor note at their end, and the connection signals a bot's own lines carry.

  The regular expressions are deterministic on the parts they capture and are written out as scans.
  \<open>new Date(stamp)\<close> reads formats an engine chooses, so it is the parameter \<open>read_date\<close>
  (\<open>None\<close> for an invalid date).
\<close>

section \<open>Lines\<close>

record journal_line =
  jl_at :: time
  jl_pid :: string
  jl_message :: string

definition is_line_end :: "char \<Rightarrow> bool" where
  "is_line_end c \<longleftrightarrow> c = lf \<or> c = cr"

definition section_sign :: char where "section_sign = CHR 0xA7"

text \<open>\<open>value.replace(/\<section>./g, "")\<close>: the section sign and the code unit after it.\<close>

fun strip_colour :: "string \<Rightarrow> string" where
  "strip_colour [] = []"
| "strip_colour [c] = [c]"
| "strip_colour (c # d # r) =
     (if c = section_sign \<and> \<not> is_line_end d then strip_colour r else c # strip_colour (d # r))"

text \<open>
  \<open>/^(\S+)\s+\S+\s+[^[\]]*\[(\d+)\]:\s?(.*)$/\<close>, as the three captured parts: the stamp, the process
  and the rest.
\<close>

definition match_journal_line :: "string \<Rightarrow> (string \<times> string \<times> string) option" where
  "match_journal_line raw =
     (let stamp = takeWhile (\<lambda>c. \<not> is_space c) raw;
          r1 = dropWhile (\<lambda>c. \<not> is_space c) raw;
          r2 = dropWhile is_space r1;
          host = takeWhile (\<lambda>c. \<not> is_space c) r2;
          r3 = dropWhile (\<lambda>c. \<not> is_space c) r2;
          r4 = dropWhile (\<lambda>c. c \<noteq> CHR ''['' \<and> c \<noteq> CHR '']'') r3
      in if stamp = [] \<or> r1 = [] \<or> host = [] \<or> r3 = [] then None
         else (case r4 of
             [] \<Rightarrow> None
           | b # r5 \<Rightarrow>
               if b \<noteq> CHR ''['' then None
               else
                 (let pid = takeWhile is_digit r5; r6 = dropWhile is_digit r5 in
                  if pid = [] \<or> \<not> starts_with r6 '']:'' then None
                  else
                    (let r7 = drop 2 r6;
                         rest = (case r7 of [] \<Rightarrow> [] | c # cs \<Rightarrow> if is_space c then cs else r7)
                     in if list_ex is_line_end rest then None else Some (stamp, pid, rest)))))"

definition parse_journal_line :: "(string \<Rightarrow> time option) \<Rightarrow> string \<Rightarrow> journal_line option" where
  "parse_journal_line read_date raw =
     (case match_journal_line raw of
        None \<Rightarrow> None
      | Some (stamp, pid, rest) \<Rightarrow>
          (case read_date stamp of
             None \<Rightarrow> None
           | Some t \<Rightarrow> Some \<lparr>jl_at = t, jl_pid = pid, jl_message = trim (strip_colour rest)\<rparr>))"

text \<open>\<open>parseJournal\<close> works on the raw text; the loop itself runs over its lines.\<close>

definition parse_lines :: "(string \<Rightarrow> time option) \<Rightarrow> string list \<Rightarrow> journal_line list" where
  "parse_lines read_date candidates =
     List.map_filter (\<lambda>c. if trim c = [] then None else parse_journal_line read_date c) candidates"

definition parse_journal :: "(string \<Rightarrow> time option) \<Rightarrow> string \<Rightarrow> journal_line list" where
  "parse_journal read_date raw = parse_lines read_date (split_on lf raw)"

section \<open>The cursor note\<close>

definition cursor_field :: "char \<Rightarrow> nat option \<Rightarrow> string \<Rightarrow> bool" where
  "cursor_field key width f =
     (case f of
        k # e # v \<Rightarrow>
          k = key \<and> e = CHR ''='' \<and> list_all is_lower_hex v \<and>
          (case width of None \<Rightarrow> v \<noteq> [] | Some n \<Rightarrow> length v = n)
      | _ \<Rightarrow> False)"

definition is_journal_cursor :: "string \<Rightarrow> bool" where
  "is_journal_cursor s =
     (case split_on (CHR '';'') s of
        [f1, f2, f3, f4, f5, f6] \<Rightarrow>
          cursor_field (CHR ''s'') (Some 32) f1 \<and> cursor_field (CHR ''i'') None f2 \<and>
          cursor_field (CHR ''b'') (Some 32) f3 \<and> cursor_field (CHR ''m'') None f4 \<and>
          cursor_field (CHR ''t'') None f5 \<and> cursor_field (CHR ''x'') None f6
      | _ \<Rightarrow> False)"

record journal_batch =
  jb_lines :: "string list"
  jb_cursor :: "string option"

definition cursor_note :: string where "cursor_note = ''-- cursor: ''"
definition journal_note :: string where "journal_note = ''-- ''"

fun batch_step :: "journal_batch \<Rightarrow> string \<Rightarrow> journal_batch" where
  "batch_step b candidate =
     (if trim candidate = [] then b
      else if starts_with candidate cursor_note then
        (let shown = trim (drop (length cursor_note) candidate) in
         b\<lparr>jb_cursor := (if is_journal_cursor shown then Some shown else None)\<rparr>)
      else if starts_with candidate journal_note then b
      else b\<lparr>jb_lines := jb_lines b @ [candidate]\<rparr>)"

declare batch_step.simps [simp del]

definition journal_batch_of :: "string \<Rightarrow> journal_batch" where
  "journal_batch_of raw =
     foldl batch_step \<lparr>jb_lines = [], jb_cursor = None\<rparr> (split_on lf raw)"

definition journal_refused_cursor :: "string \<Rightarrow> bool" where
  "journal_refused_cursor stderr = has_sub stderr ''Failed to seek to cursor''"

section \<open>Signals\<close>

datatype connection_signal =
    SigJoined (sig_at: time) (sig_pid: string)
  | SigDisconnected (sig_at: time) (sig_pid: string) (sig_reason: "string option")
  | SigStopped (sig_at: time) (sig_pid: string)

definition joined_marker :: string where "joined_marker = ''Server was successfully joined''"
definition disconnected_marker :: string where "disconnected_marker = ''Disconnected by Server''"
definition stopped_marker :: string where "stopped_marker = ''Stopped open-mcc@''"
definition mcc_prefix :: string where "mcc_prefix = ''[MCC]''"

definition without_prefix :: "string \<Rightarrow> string" where
  "without_prefix message =
     (if starts_with message mcc_prefix then trim (drop (length mcc_prefix) message) else message)"

text \<open>What one line signals, given the line after it.\<close>

definition signal_of_line :: "journal_line \<Rightarrow> journal_line option \<Rightarrow> connection_signal option" where
  "signal_of_line line nxt =
     (let message = without_prefix (jl_message line) in
      if has_sub message stopped_marker then Some (SigStopped (jl_at line) (jl_pid line))
      else if has_sub message joined_marker then Some (SigJoined (jl_at line) (jl_pid line))
      else if \<not> has_sub message disconnected_marker then None
      else
        (let trailing = trim (join_with '':'' (drop 1 (split_on (CHR '':'') message)));
             following =
               (case nxt of
                  None \<Rightarrow> None
                | Some n \<Rightarrow>
                    if jl_pid n \<noteq> jl_pid line then None else Some (without_prefix (jl_message n)));
             reason = (if trailing \<noteq> [] then Some trailing else following)
         in Some (SigDisconnected (jl_at line) (jl_pid line)
                   (if reason = None \<or> reason = Some [] then None else reason))))"

fun connection_signals :: "journal_line list \<Rightarrow> connection_signal list" where
  "connection_signals [] = []"
| "connection_signals (line # rest) =
     (case signal_of_line line (first_opt rest) of None \<Rightarrow> [] | Some s \<Rightarrow> [s])
     @ connection_signals rest"

section \<open>Lemmas\<close>

lemma split_lines_no_lf: "c \<in> set (split_on lf raw) \<Longrightarrow> lf \<notin> set c"
  by (rule split_on_parts)

definition lines_clean :: "journal_batch \<Rightarrow> bool" where
  "lines_clean b \<longleftrightarrow> list_all (\<lambda>l. lf \<notin> set l) (jb_lines b)"

lemma batch_step_clean: "lf \<notin> set candidate \<Longrightarrow> lines_clean b \<Longrightarrow> lines_clean (batch_step b candidate)"
  by (simp add: batch_step.simps Let_def lines_clean_def)

lemma batch_run_clean:
  "list_all (\<lambda>c. lf \<notin> set c) cs \<Longrightarrow> lines_clean b \<Longrightarrow> lines_clean (foldl batch_step b cs)"
  by (induction cs arbitrary: b) (auto intro: batch_step_clean)

lemma journal_batch_lines: "\<forall>l \<in> set (jb_lines (journal_batch_of raw)). lf \<notin> set l"
proof -
  have "list_all (\<lambda>c. lf \<notin> set c) (split_on lf raw)"
    by (auto simp: list_all_iff dest: split_lines_no_lf)
  then have "lines_clean (journal_batch_of raw)"
    unfolding journal_batch_of_def by (rule batch_run_clean) (simp add: lines_clean_def)
  then show ?thesis by (simp add: lines_clean_def list_all_iff)
qed

text \<open>\<open>parseJournal(batch.lines.join("\n"))\<close> is the parse of the batch's lines.\<close>

lemma parse_joined_lines:
  "\<forall>l \<in> set ls. lf \<notin> set l \<Longrightarrow> parse_journal read_date (join_with [lf] ls) = parse_lines read_date ls"
proof (cases "ls = []")
  case True
  then show ?thesis by (simp add: parse_journal_def parse_lines_def List.map_filter_def trim_def)
next
  case False
  assume "\<forall>l \<in> set ls. lf \<notin> set l"
  then show ?thesis using False by (simp add: parse_journal_def split_join)
qed

lemma parse_lines_append [simp]:
  "parse_lines rd (xs @ ys) = parse_lines rd xs @ parse_lines rd ys"
  by (simp add: parse_lines_def List.map_filter_def)

lemma journal_cursor_batch: "jb_cursor (journal_batch_of raw) = Some c \<Longrightarrow> is_journal_cursor c"
proof -
  have "(case jb_cursor (foldl batch_step b cs) of None \<Rightarrow> True | Some c \<Rightarrow> is_journal_cursor c)"
    if "case jb_cursor b of None \<Rightarrow> True | Some c \<Rightarrow> is_journal_cursor c" for b cs
    using that by (induction cs arbitrary: b) (simp_all add: batch_step.simps Let_def)
  then show "jb_cursor (journal_batch_of raw) = Some c \<Longrightarrow> is_journal_cursor c"
    by (fastforce simp: journal_batch_of_def split: option.splits)
qed

text \<open>Whether a line signals, and which kind, does not depend on the line after it.\<close>

lemma signal_of_line_None: "signal_of_line l n = None \<longleftrightarrow> signal_of_line l n' = None"
  by (simp add: signal_of_line_def Let_def)

lemma length_connection_signals_single:
  "length (connection_signals [l]) = (if signal_of_line l n = None then 0 else 1)"
  using signal_of_line_None [of l None n] by (auto split: option.splits)

lemma connection_signals_append:
  "connection_signals (xs @ l # ys) =
     take (length (connection_signals (xs @ [l])) - length (connection_signals [l]))
       (connection_signals (xs @ [l]))
     @ connection_signals (l # ys)"
proof (induction xs)
  case Nil
  then show ?case by simp
next
  case (Cons x xs)
  have h: "first_opt (xs @ l # ys) = first_opt (xs @ [l])" by (cases xs) auto
  have le: "length (connection_signals [l]) \<le> length (connection_signals (xs @ [l]))"
    by (induction xs) auto
  show ?case
    using Cons.IH h le by (cases "signal_of_line x (first_opt (xs @ [l]))") (auto simp: Suc_diff_le)
qed

end
