(* ===== verification/Connection.thy ===== *)
theory Connection
  imports StatusContract Journal
begin

text \<open>
  \<open>packages/core/src/status/connection.ts\<close>: a bot's connection state moved by the signals of its
  journal, and the escalation of an interruption that outlasts its grace.
\<close>

datatype connection_state = CJoined | CInterrupted | CDown | CNeverJoined | CUnknown

fun connection_as_state :: "connection_state \<Rightarrow> status_state" where
  "connection_as_state CJoined = Joined"
| "connection_as_state CInterrupted = Interrupted"
| "connection_as_state CDown = Down"
| "connection_as_state CNeverJoined = NeverJoined"
| "connection_as_state CUnknown = Unknown"

definition connection_states :: "connection_state list" where
  "connection_states = [CJoined, CInterrupted, CDown, CNeverJoined, CUnknown]"

record connection_current =
  cc_state :: connection_state
  cc_since :: "time option"
  cc_pid :: "string option"

record connection_change =
  ch_state :: connection_state
  ch_at :: time
  ch_pid :: "string option"
  ch_event :: "status_event_kind option"
  ch_reason :: "string option"

definition unobserved_connection :: connection_current where
  "unobserved_connection = \<lparr>cc_state = CUnknown, cc_since = None, cc_pid = None\<rparr>"

definition kick_hints :: "string list" where
  "kick_hints = [''kick'', ''banned'']"

definition looks_like_kick :: "string option \<Rightarrow> bool" where
  "looks_like_kick reason =
     (case reason of
        None \<Rightarrow> False
      | Some r \<Rightarrow> (let lowered = lower r in list_ex (\<lambda>hint. has_sub lowered hint) kick_hints))"

text \<open>One turn of the loop: the change pushed, if any, and the state after it.\<close>

fun change_for :: "connection_state \<Rightarrow> connection_signal \<Rightarrow> connection_change option" where
  "change_for state (SigJoined t pid) =
     (if state = CJoined then None
      else Some \<lparr>ch_state = CJoined, ch_at = t, ch_pid = Some pid,
             ch_event = Some (if state = CUnknown then InstanceJoined else InstanceReconnected),
             ch_reason = None\<rparr>)"
| "change_for state (SigStopped t pid) =
     (if state = CDown then None
      else Some \<lparr>ch_state = CDown, ch_at = t, ch_pid = Some pid, ch_event = Some InstanceStopped,
             ch_reason = None\<rparr>)"
| "change_for state (SigDisconnected t pid reason) =
     (if state = CInterrupted \<or> state = CDown then None
      else Some \<lparr>ch_state = CInterrupted, ch_at = t, ch_pid = Some pid,
             ch_event = Some (if looks_like_kick reason then InstanceKicked else InstanceConnectionLost),
             ch_reason = reason\<rparr>)"

fun changes_loop :: "connection_state \<Rightarrow> connection_signal list \<Rightarrow> connection_change list" where
  "changes_loop state [] = []"
| "changes_loop state (s # ss) =
     (case change_for state s of
        None \<Rightarrow> changes_loop state ss
      | Some c \<Rightarrow> c # changes_loop (ch_state c) ss)"

definition changes_from_signals ::
    "connection_current \<Rightarrow> connection_signal list \<Rightarrow> connection_change list" where
  "changes_from_signals current signals = changes_loop (cc_state current) signals"

definition escalate_after ::
    "connection_current \<Rightarrow> time \<Rightarrow> int \<Rightarrow> connection_change option" where
  "escalate_after current now graceMs =
     (case (cc_state current, cc_since current) of
        (CInterrupted, Some since) \<Rightarrow>
          if now - since < graceMs then None
          else Some \<lparr>ch_state = CDown, ch_at = now, ch_pid = cc_pid current,
                 ch_event = Some InstanceDisconnected, ch_reason = None\<rparr>
      | _ \<Rightarrow> None)"

definition escalate_if_still_down :: "connection_current \<Rightarrow> time \<Rightarrow> connection_change option" where
  "escalate_if_still_down current now =
     escalate_after current now instance_interrupted_to_down_ms"

section \<open>Lemmas\<close>

definition state_after :: "connection_state \<Rightarrow> connection_change list \<Rightarrow> connection_state" where
  "state_after st changes = (case last_opt changes of None \<Rightarrow> st | Some c \<Rightarrow> ch_state c)"

lemma state_after_simps [simp]:
  "state_after st [] = st"
  "state_after st (c # cs) = state_after (ch_state c) cs"
  by (auto simp: state_after_def last_opt_def)

lemma state_after_append: "state_after st (xs @ ys) = state_after (state_after st xs) ys"
  by (induction xs arbitrary: st) auto

lemma changes_loop_append:
  "changes_loop st (xs @ ys) =
     changes_loop st xs @ changes_loop (state_after st (changes_loop st xs)) ys"
  by (induction st xs rule: changes_loop.induct) (auto split: option.splits)

text \<open>The abstract machine: where each kind of signal takes the connection.\<close>

fun signal_target :: "connection_state \<Rightarrow> connection_signal \<Rightarrow> connection_state" where
  "signal_target st (SigJoined _ _) = CJoined"
| "signal_target st (SigStopped _ _) = CDown"
| "signal_target st (SigDisconnected _ _ _) = (if st = CDown then CDown else CInterrupted)"

lemma change_for_target:
  "(case change_for st s of None \<Rightarrow> signal_target st s = st
    | Some c \<Rightarrow> ch_state c = signal_target st s \<and> ch_state c \<noteq> st \<and> ch_at c = sig_at s)"
  by (cases s) auto

lemma changes_loop_refines:
  "state_after st (changes_loop st ss) = foldl signal_target st ss"
proof (induction ss arbitrary: st)
  case Nil
  then show ?case by simp
next
  case (Cons s ss)
  then show ?case using change_for_target [of st s] by (cases "change_for st s") auto
qed

text \<open>Every change moves the state: no state is reported twice in a row.\<close>

fun moves :: "connection_state \<Rightarrow> connection_change list \<Rightarrow> bool" where
  "moves st [] = True"
| "moves st (c # cs) = (ch_state c \<noteq> st \<and> moves (ch_state c) cs)"

lemma changes_loop_moves: "moves st (changes_loop st ss)"
proof (induction ss arbitrary: st)
  case Nil
  then show ?case by simp
next
  case (Cons s ss)
  then show ?case using change_for_target [of st s] by (cases "change_for st s") auto
qed

text \<open>Reading a signal again right after it changes nothing.\<close>

lemma signal_target_idem [simp]: "signal_target (signal_target st s) s = signal_target st s"
  by (cases s) auto

lemma change_for_again: "change_for (signal_target st s) s = None"
  by (cases s) auto

text \<open>The changes and the events they carry.\<close>

lemma changes_loop_events:
  assumes "c \<in> set (changes_loop st ss)"
  shows "ch_event c \<in>
    (case ch_state c of
       CJoined \<Rightarrow> {Some InstanceJoined, Some InstanceReconnected}
     | CInterrupted \<Rightarrow> {Some InstanceKicked, Some InstanceConnectionLost}
     | CDown \<Rightarrow> {Some InstanceStopped}
     | _ \<Rightarrow> {})"
  using assms
proof (induction ss arbitrary: st)
  case Nil
  then show ?case by simp
next
  case (Cons s ss)
  then show ?case by (cases s) (auto split: if_splits)
qed

lemma changes_loop_times: "set (map ch_at (changes_loop st ss)) \<subseteq> set (map sig_at ss)"
proof (induction ss arbitrary: st)
  case Nil
  then show ?case by simp
next
  case (Cons s ss)
  then show ?case by (cases s) (auto split: if_splits)
qed

lemma escalate_if_still_down_Some:
  "escalate_if_still_down current now = Some c \<longleftrightarrow>
     cc_state current = CInterrupted \<and>
     (\<exists>since. cc_since current = Some since \<and> instance_interrupted_to_down_ms \<le> now - since) \<and>
     c = \<lparr>ch_state = CDown, ch_at = now, ch_pid = cc_pid current,
          ch_event = Some InstanceDisconnected, ch_reason = None\<rparr>"
  by (auto simp: escalate_if_still_down_def escalate_after_def
      split: connection_state.splits option.splits)

end
