(* ===== verification/Incident.thy ===== *)
theory Incident
  imports Connection
begin

text \<open>
  \<open>packages/core/src/status/incident.ts\<close>: when a connection change opens, keeps or closes an
  incident, which events count as losses, and the window they are counted in.
\<close>

record incident_decision =
  idec_incidentId :: "ident option"
  idec_opened :: bool
  idec_closing :: "ident option"

definition closing_events :: "status_event_kind list" where
  "closing_events = [InstanceJoined, InstanceReconnected]"

text \<open>
  \<open>fresh\<close> is called only where an incident opens: it draws an identifier from the world it is
  given and returns the world after.
\<close>

definition next_incident ::
    "ident option \<Rightarrow> connection_state \<Rightarrow> status_event_kind option \<Rightarrow> ('w \<Rightarrow> ident \<times> 'w) \<Rightarrow> 'w
      \<Rightarrow> incident_decision \<times> 'w" where
  "next_incident current state event fresh w =
     (if (case event of None \<Rightarrow> False | Some e \<Rightarrow> e \<in> set closing_events) then
        (\<lparr>idec_incidentId = None, idec_opened = False, idec_closing = current\<rparr>, w)
      else if state = CJoined then
        (\<lparr>idec_incidentId = None, idec_opened = False, idec_closing = current\<rparr>, w)
      else if state = CInterrupted then
        (case current of
           Some _ \<Rightarrow> (\<lparr>idec_incidentId = current, idec_opened = False, idec_closing = None\<rparr>, w)
         | None \<Rightarrow>
             (let (i, w') = fresh w in
              (\<lparr>idec_incidentId = Some i, idec_opened = True, idec_closing = None\<rparr>, w')))
      else (\<lparr>idec_incidentId = current, idec_opened = False, idec_closing = None\<rparr>, w))"

definition incident_of_event :: "incident_decision \<Rightarrow> ident option" where
  "incident_of_event d =
     (case idec_incidentId d of Some i \<Rightarrow> Some i | None \<Rightarrow> idec_closing d)"

definition escalation_key_for :: "ident \<Rightarrow> string" where
  "escalation_key_for i = ''escalate:'' @ i"

definition flapping_loss_events :: "status_event_kind list" where
  "flapping_loss_events = [InstanceConnectionLost, InstanceKicked]"

definition counts_as_loss :: "status_event_kind option \<Rightarrow> bool" where
  "counts_as_loss event =
     (case event of None \<Rightarrow> False | Some e \<Rightarrow> list_ex (\<lambda>candidate. candidate = e) flapping_loss_events)"

record loss_window =
  lw_since :: time
  lw_until :: time

definition loss_window_at :: "time \<Rightarrow> loss_window" where
  "loss_window_at t = \<lparr>lw_since = t - flapping_window_ms, lw_until = t\<rparr>"

definition worth_claiming_flapping :: "time list \<Rightarrow> time \<Rightarrow> bool" where
  "worth_claiming_flapping recorded t = is_flapping recorded t"

section \<open>Lemmas\<close>

text \<open>
  An incident is open exactly while the bot is off the server: it opens with an interruption, lasts
  through the escalation and a stop, and ends when the bot joins.
\<close>

lemma next_incident_joined:
  "idec_incidentId (fst (next_incident current CJoined event fresh w)) = None"
  by (auto simp: next_incident_def)

lemma next_incident_interrupted:
  "event \<notin> {Some InstanceJoined, Some InstanceReconnected} \<Longrightarrow>
     idec_incidentId (fst (next_incident current CInterrupted event fresh w)) \<noteq> None"
  by (auto simp: next_incident_def closing_events_def split: option.splits prod.splits)

lemma next_incident_opened:
  "idec_opened (fst (next_incident current state event fresh w)) \<Longrightarrow>
     current = None \<and> state = CInterrupted \<and>
     idec_incidentId (fst (next_incident current state event fresh w)) = Some (fst (fresh w))"
  by (auto simp: next_incident_def split: option.splits prod.splits if_splits)

lemma next_incident_world:
  "snd (next_incident current state event fresh w) =
     (if idec_opened (fst (next_incident current state event fresh w)) then snd (fresh w) else w)"
  by (auto simp: next_incident_def split: option.splits prod.splits)

lemma counts_as_loss_iff:
  "counts_as_loss event \<longleftrightarrow> event \<in> {Some InstanceConnectionLost, Some InstanceKicked}"
  by (auto simp: counts_as_loss_def flapping_loss_events_def split: option.splits)

text \<open>
  The losses the query returns already lie in the window, so flapping is five of them, however
  they are ordered.
\<close>

lemma worth_claiming_flapping_window:
  assumes "\<forall>t \<in> set losses. lw_since (loss_window_at now) \<le> t"
  shows "worth_claiming_flapping losses now \<longleftrightarrow> flapping_threshold \<le> length losses"
proof -
  have "filter (\<lambda>t. now - t \<le> flapping_window_ms) losses = losses"
    using assms by (auto simp: loss_window_at_def filter_id_conv)
  then show ?thesis
    by (simp add: worth_claiming_flapping_def is_flapping_def is_flapping_within_def)
qed

end
