(* ===== verification/Rollup.thy ===== *)
theory Rollup
  imports StatusContract
begin

text \<open>
  \<open>packages/core/src/status/rollup.ts\<close>: the seconds of a window each state of a subject's intervals
  accounts for, and the buckets a range is cut into.
\<close>

record rollable_interval =
  ri_state :: status_state
  ri_startedAt :: time
  ri_endedAt :: "time option"

datatype availability_bucket = GoodB | BadB | DegradedB | UnknownB | ExcludedB

fun bucket_of :: "status_state \<Rightarrow> availability_bucket" where
  "bucket_of Up = GoodB"
| "bucket_of Joined = GoodB"
| "bucket_of Running = GoodB"
| "bucket_of Healthy = GoodB"
| "bucket_of Clear = GoodB"
| "bucket_of Down = BadB"
| "bucket_of Interrupted = BadB"
| "bucket_of NeverJoined = BadB"
| "bucket_of StoppedUnexpected = BadB"
| "bucket_of Degraded = DegradedB"
| "bucket_of Drifting = DegradedB"
| "bucket_of Stuck = DegradedB"
| "bucket_of Suspect = UnknownB"
| "bucket_of Unknown = UnknownB"
| "bucket_of Excluded = ExcludedB"
| "bucket_of StoppedExpected = ExcludedB"

text \<open>\<open>totals[bucket]\<close> and \<open>{...totals, [bucket]: v}\<close>\<close>

fun get_bucket :: "availability_bucket \<Rightarrow> availability \<Rightarrow> int" where
  "get_bucket GoodB a = goodSeconds a"
| "get_bucket BadB a = badSeconds a"
| "get_bucket DegradedB a = degradedSeconds a"
| "get_bucket UnknownB a = unknownSeconds a"
| "get_bucket ExcludedB a = excludedSeconds a"

fun set_bucket :: "availability_bucket \<Rightarrow> int \<Rightarrow> availability \<Rightarrow> availability" where
  "set_bucket GoodB v a = a\<lparr>goodSeconds := v\<rparr>"
| "set_bucket BadB v a = a\<lparr>badSeconds := v\<rparr>"
| "set_bucket DegradedB v a = a\<lparr>degradedSeconds := v\<rparr>"
| "set_bucket UnknownB v a = a\<lparr>unknownSeconds := v\<rparr>"
| "set_bucket ExcludedB v a = a\<lparr>excludedSeconds := v\<rparr>"

definition overlap_seconds :: "rollable_interval \<Rightarrow> time \<Rightarrow> time \<Rightarrow> int" where
  "overlap_seconds interval dayStart dayEnd =
     (let from = max (ri_startedAt interval) dayStart;
          until = min (case ri_endedAt interval of None \<Rightarrow> dayEnd | Some e \<Rightarrow> e) dayEnd
      in if until \<le> from then 0 else round_div (until - from) 1000)"

definition roll_up_step :: "time \<Rightarrow> time \<Rightarrow> availability \<Rightarrow> rollable_interval \<Rightarrow> availability" where
  "roll_up_step start stop totals interval =
     (let seconds = overlap_seconds interval start stop in
      if seconds = 0 then totals
      else (let bucket = bucket_of (ri_state interval) in
            set_bucket bucket (get_bucket bucket totals + seconds) totals))"

definition roll_up_window :: "rollable_interval list \<Rightarrow> time \<Rightarrow> time \<Rightarrow> availability" where
  "roll_up_window intervals start stop = foldl (roll_up_step start stop) empty_availability intervals"

definition bucket_count :: "status_range \<Rightarrow> nat" where
  "bucket_count r = nat (range_seconds r div bucket_seconds r)"

definition bucket_starts_for :: "status_range \<Rightarrow> time \<Rightarrow> time list" where
  "bucket_starts_for r now =
     (let step = bucket_seconds r * 1000;
          count = bucket_count r;
          current = now div step * step;
          since = now - range_seconds r * 1000
      in map (\<lambda>index. if index = 0 then since else current - (int count - 1 - int index) * step)
           [0..<count])"

record bucket_availability =
  ba_start :: time
  ba_availability :: availability

text \<open>\<open>start.toISOString()\<close> is left to the reader of the row: the model keeps the instant.\<close>

definition bucket_end :: "time list \<Rightarrow> int \<Rightarrow> nat \<Rightarrow> time" where
  "bucket_end starts seconds index =
     (case nth_opt starts (Suc index) of
        Some e \<Rightarrow> e
      | None \<Rightarrow> starts ! index + seconds * 1000)"

definition roll_up_buckets ::
    "rollable_interval list \<Rightarrow> time list \<Rightarrow> int \<Rightarrow> bucket_availability list" where
  "roll_up_buckets intervals starts seconds =
     map (\<lambda>index.
            \<lparr>ba_start = starts ! index,
             ba_availability =
               roll_up_window intervals (starts ! index) (bucket_end starts seconds index)\<rparr>)
       [0..<length starts]"

section \<open>What a window adds up\<close>

lemma get_set_bucket [simp]:
  "get_bucket b (set_bucket b' v a) = (if b = b' then v else get_bucket b a)"
  by (cases b; cases b'; simp)

lemma get_bucket_empty [simp]: "get_bucket b empty_availability = 0"
  by (cases b) (simp_all add: empty_availability_def)

lemma overlap_seconds_nonneg [simp]: "0 \<le> overlap_seconds i a b"
  by (auto simp: overlap_seconds_def Let_def round_div_def intro!: pos_imp_zdiv_nonneg_iff [THEN iffD2])

lemma get_roll_up_step:
  "get_bucket b (roll_up_step s e totals i) =
     get_bucket b totals + (if bucket_of (ri_state i) = b then overlap_seconds i s e else 0)"
  by (auto simp: roll_up_step_def Let_def)

lemma get_roll_up_fold:
  "get_bucket b (foldl (roll_up_step s e) totals is) =
     get_bucket b totals
     + sum_list (map (\<lambda>i. overlap_seconds i s e) (filter (\<lambda>i. bucket_of (ri_state i) = b) is))"
  by (induction "is" arbitrary: totals) (auto simp: get_roll_up_step)

text \<open>A bucket of the window is the sum of the overlaps of the intervals in its states.\<close>

lemma get_roll_up_window:
  "get_bucket b (roll_up_window is s e) =
     sum_list (map (\<lambda>i. overlap_seconds i s e) (filter (\<lambda>i. bucket_of (ri_state i) = b) is))"
  by (simp add: roll_up_window_def get_roll_up_fold)

text \<open>On whole seconds the rounding is exact and overlaps add up over adjacent windows.\<close>

definition whole_second :: "time \<Rightarrow> bool" where
  "whole_second t \<longleftrightarrow> 1000 dvd t"

definition whole_interval :: "rollable_interval \<Rightarrow> bool" where
  "whole_interval i \<longleftrightarrow>
     whole_second (ri_startedAt i) \<and> (case ri_endedAt i of None \<Rightarrow> True | Some e \<Rightarrow> whole_second e)"

lemma round_div_whole [simp]: "round_div (1000 * k) 1000 = k"
  by (simp add: round_div_def)

lemma overlap_seconds_whole:
  assumes "whole_interval i" "whole_second a" "whole_second b"
  shows "1000 * overlap_seconds i a b =
    max 0 (min (case ri_endedAt i of None \<Rightarrow> b | Some e \<Rightarrow> e) b - max (ri_startedAt i) a)"
proof -
  let ?until = "min (case ri_endedAt i of None \<Rightarrow> b | Some e \<Rightarrow> e) b"
  let ?from = "max (ri_startedAt i) a"
  have "1000 dvd ?until - ?from"
    using assms by (auto simp: whole_interval_def whole_second_def min_def max_def split: option.splits)
  then obtain k where k: "?until - ?from = 1000 * k" by (elim dvdE)
  show ?thesis
  proof (cases "?until \<le> ?from")
    case True
    then show ?thesis by (simp add: overlap_seconds_def Let_def)
  next
    case False
    then have "overlap_seconds i a b = round_div (1000 * k) 1000"
      by (simp add: overlap_seconds_def Let_def k)
    then have "1000 * overlap_seconds i a b = ?until - ?from" using k by simp
    then show ?thesis using False by simp
  qed
qed

lemma overlap_seconds_split:
  assumes "whole_interval i" "whole_second a" "whole_second b" "whole_second c" "a \<le> b" "b \<le> c"
  shows "overlap_seconds i a c = overlap_seconds i a b + overlap_seconds i b c"
proof -
  let ?e = "\<lambda>t. case ri_endedAt i of None \<Rightarrow> t | Some e \<Rightarrow> e"
  have "max 0 (min (?e c) c - max (ri_startedAt i) a) =
      max 0 (min (?e b) b - max (ri_startedAt i) a) + max 0 (min (?e c) c - max (ri_startedAt i) b)"
    using assms(5,6) by (cases "ri_endedAt i") (simp_all add: min_def max_def)
  then have "1000 * overlap_seconds i a c = 1000 * overlap_seconds i a b + 1000 * overlap_seconds i b c"
    by (simp only: overlap_seconds_whole [OF assms(1)] assms(2,3,4))
  then show ?thesis by simp
qed

text \<open>The buckets of a list of starts, as consecutive windows.\<close>

fun consecutive_overlaps :: "rollable_interval \<Rightarrow> time list \<Rightarrow> int \<Rightarrow> int" where
  "consecutive_overlaps i [] s = 0"
| "consecutive_overlaps i [a] s = overlap_seconds i a (a + s * 1000)"
| "consecutive_overlaps i (a # b # r) s = overlap_seconds i a b + consecutive_overlaps i (b # r) s"

lemma consecutive_overlaps_total:
  assumes "whole_interval i" "sorted (a # starts)" "\<forall>t \<in> set (a # starts). whole_second t" "0 \<le> s"
  shows "consecutive_overlaps i (a # starts) s = overlap_seconds i a (last (a # starts) + s * 1000)"
  using assms
proof (induction starts arbitrary: a)
  case Nil
  then show ?case by simp
next
  case (Cons b r)
  have "consecutive_overlaps i (b # r) s = overlap_seconds i b (last (b # r) + s * 1000)"
    using Cons by simp
  moreover have "whole_second (last (b # r) + s * 1000)"
    using Cons.prems(3) last_in_set [of "b # r"] by (simp add: whole_second_def)
  moreover have "b \<le> last (b # r)"
    using Cons.prems(2) last_in_set [of "b # r"] by auto
  then have "b \<le> last (b # r) + s * 1000" using Cons.prems(4) by linarith
  ultimately have "overlap_seconds i a (last (b # r) + s * 1000) =
      overlap_seconds i a b + consecutive_overlaps i (b # r) s"
    using Cons.prems overlap_seconds_split [of i a b "last (b # r) + s * 1000"] by simp
  then show ?case by simp
qed

lemma roll_up_buckets_Cons:
  "roll_up_buckets is (a # starts) s =
     \<lparr>ba_start = a,
      ba_availability =
        roll_up_window is a (case starts of [] \<Rightarrow> a + s * 1000 | b # _ \<Rightarrow> b)\<rparr>
     # roll_up_buckets is starts s"
proof -
  have "[0..<length (a # starts)] = 0 # map Suc [0..<length starts]"
    by (simp add: upt_conv_Cons map_Suc_upt del: upt_Suc)
  then show ?thesis
    by (auto simp: roll_up_buckets_def bucket_end_def nth_opt_def comp_def split: list.splits)
qed

lemma roll_up_buckets_Nil: "roll_up_buckets is [] s = []"
  by (simp add: roll_up_buckets_def)

text \<open>The availability of the buckets adds up to the availability of the window they cover.\<close>

lemma buckets_sum_overlaps:
  "sum_list (map (\<lambda>u. get_bucket b (ba_availability u)) (roll_up_buckets is starts s)) =
     sum_list (map (\<lambda>i. consecutive_overlaps i starts s) (filter (\<lambda>i. bucket_of (ri_state i) = b) is))"
proof (induction starts)
  case Nil
  then show ?case by (simp add: roll_up_buckets_Nil)
next
  case (Cons a starts)
  then show ?case
    by (cases starts)
      (simp_all add: roll_up_buckets_Cons get_roll_up_window sum_list_addf roll_up_buckets_Nil)
qed

section \<open>The starts of the buckets\<close>

lemma bucket_count_value: "bucket_count r \<in> {96, 84, 90}"
  by (cases r) (auto simp: bucket_count_def)

lemma range_is_count: "range_seconds r = int (bucket_count r) * bucket_seconds r"
  by (cases r) (auto simp: bucket_count_def)

lemma bucket_starts_length: "length (bucket_starts_for r now) = bucket_count r"
  by (simp add: bucket_starts_for_def Let_def)

lemma bucket_starts_nth:
  "index < bucket_count r \<Longrightarrow>
     bucket_starts_for r now ! index =
       (if index = 0 then now - range_seconds r * 1000
        else now div (bucket_seconds r * 1000) * (bucket_seconds r * 1000)
             - (int (bucket_count r) - 1 - int index) * (bucket_seconds r * 1000))"
  by (simp add: bucket_starts_for_def Let_def)

lemma floor_bounds:
  "0 < (step::int) \<Longrightarrow> now div step * step \<le> now \<and> now < now div step * step + step"
proof -
  assume p: "0 < step"
  have "now div step * step + now mod step = now" by (rule div_mult_mod_eq)
  moreover have "0 \<le> now mod step" "now mod step < step" using p by simp_all
  ultimately show ?thesis by linarith
qed

end
