(* ===== verification/StatusController.thy ===== *)
theory StatusController
  imports Announce Reachability Incident Rollup
begin

text \<open>
  \<open>packages/core/src/status/status.controller.ts\<close>, with the page cursor of
  \<open>packages/contracts/src/boundary/status-cursor.ts\<close> and the job handler of \<open>escalation.job.ts\<close>. Each
  operation is one transaction over the status log, the notifications and the job queue.

  \<open>send\<close> is the job sender and \<open>carrier\<close> the trace context added to a delivery's payload.
\<close>

section \<open>Host reachability\<close>

record host_observation =
  ob_hostId :: ident
  ob_hostName :: string
  ob_reached :: bool

definition reachability_current_of :: "status_condition_row option \<Rightarrow> reachability_current" where
  "reachability_current_of existing =
     (case existing of
        None \<Rightarrow> unobserved_reachability
      | Some c \<Rightarrow>
          \<lparr>rc_state =
             (if sc_state c = Up then RUp else if sc_state c = Suspect then RSuspect
              else if sc_state c = Down then RDown else RUnknown),
           rc_failureStartedAt = sc_failureStartedAt c\<rparr>)"

text \<open>The incident kept with the condition; opening one draws its identifier.\<close>

definition host_incident ::
    "reachability_state \<Rightarrow> ident option \<Rightarrow> 'm status_db_scheme \<Rightarrow> ident option \<times> 'm status_db_scheme" where
  "host_incident state active db =
     (if state = RDown then
        (case active of Some i \<Rightarrow> (Some i, db) | None \<Rightarrow> (let (i, db') = nanoid db in (Some i, db')))
      else if state = RUp then (None, db)
      else (active, db))"

definition host_event :: "host_observation \<Rightarrow> status_event_kind \<Rightarrow> time \<Rightarrow> ident option \<Rightarrow> status_event_values" where
  "host_event ob kind now incident =
     \<lparr>se_subjectType = HostSubjectType, se_subjectId = ob_hostId ob, se_subjectLabel = ob_hostName ob,
      se_hostId = Some (ob_hostId ob), se_instanceId = None, se_kind = kind, se_occurredAt = now,
      se_observedAt = now, se_lastCorroboratedAt = now, se_incidentId = incident,
      se_primarySource = HostProbe, se_sources = [HostProbe], se_sourceKey = None\<rparr>"

text \<open>Recording an event that may not be there, and announcing it when it was taken.\<close>

definition record_and_announce ::
    "'q job_sender \<Rightarrow> payload \<Rightarrow> ident \<Rightarrow> status_event_values \<Rightarrow> ident option \<Rightarrow> ('q, status_event_row option) app" where
  "record_and_announce send carrier org v factIncident db =
     (case record_event org v db of
        (None, db') \<Rightarrow> (Inr None, db')
      | (Some event, db') \<Rightarrow>
          (case announce send carrier org
                  \<lparr>fa_statusEventId = ev_id event, fa_kind = se_kind (ev_values event),
                   fa_subjectType = se_subjectType v, fa_subjectId = se_subjectId v,
                   fa_subjectName = se_subjectLabel v, fa_incidentId = factIncident\<rparr> db' of
             (Inl e, db'') \<Rightarrow> (Inl e, db'')
           | (Inr _, db'') \<Rightarrow> (Inr (Some event), db'')))"

definition record_optional ::
    "'q job_sender \<Rightarrow> payload \<Rightarrow> ident \<Rightarrow> status_event_values option \<Rightarrow> ident option \<Rightarrow> ('q, status_event_row option) app" where
  "record_optional send carrier org v factIncident db =
     (case v of None \<Rightarrow> (Inr None, db) | Some v \<Rightarrow> record_and_announce send carrier org v factIncident db)"

text \<open>Closing the open interval, opening the next and writing the condition.\<close>

definition enter_state ::
    "ident \<Rightarrow> subject_ref \<Rightarrow> status_dimension \<Rightarrow> condition_patch \<Rightarrow> time \<Rightarrow> time \<Rightarrow> ident option
      \<Rightarrow> ('q, unit) app" where
  "enter_state org subject dim patch startAt startedAt eventId db =
     (case open_interval org subject dim (cp_state patch) startAt eventId db of
        (Inl e, db') \<Rightarrow> (Inl e, db')
      | (Inr _, db') \<Rightarrow> (Inr (), upsert_condition org subject dim patch startedAt db'))"

definition host_change ::
    "'q job_sender \<Rightarrow> payload \<Rightarrow> ident \<Rightarrow> host_observation \<Rightarrow> time \<Rightarrow> status_condition_row option
      \<Rightarrow> reachability_decision \<Rightarrow> ('q, unit) app" where
  "host_change send carrier org ob now existing decision db =
     (let subject = HostSubject (ob_hostId ob);
          active = (case existing of None \<Rightarrow> None | Some c \<Rightarrow> sc_activeIncidentId c);
          (incidentId, db1) = host_incident (rd_state decision) active db;
          eventIncidentId = (case incidentId of Some i \<Rightarrow> Some i | None \<Rightarrow> active)
      in case record_optional send carrier org
                (map_option (\<lambda>k. host_event ob k now eventIncidentId) (rd_event decision))
                eventIncidentId db1 of
           (Inl e, db2) \<Rightarrow> (Inl e, db2)
         | (Inr event, db2) \<Rightarrow>
             (let db3 = snd (close_open_interval org subject HostReachabilityDim now
                               (map_option ev_id event) db2)
              in enter_state org subject HostReachabilityDim
                   \<lparr>cp_state = reachability_as_state (rd_state decision), cp_observedAt = now,
                    cp_failureStartedAt = rd_failureStartedAt decision,
                    cp_activeIncidentId = (if rd_state decision = RUp then None else incidentId)\<rparr>
                   now now (map_option ev_id event) db3))"

definition record_host_reachability ::
    "'q job_sender \<Rightarrow> payload \<Rightarrow> ident \<Rightarrow> host_observation \<Rightarrow> ('q, unit) app" where
  "record_host_reachability send carrier org ob db0 =
     (let (now, db) = read_now db0 in
      in_transaction (\<lambda>db.
        (let existing = find_condition org (HostSubject (ob_hostId ob)) HostReachabilityDim db;
             decision = next_reachability (reachability_current_of existing) (ob_reached ob) now
         in case (rd_changed decision, existing) of
              (False, Some c) \<Rightarrow> (Inr (), touch_condition org (sc_id c) now db)
            | _ \<Rightarrow> host_change send carrier org ob now existing decision db)) db)"

section \<open>Instances\<close>

record instance_ref =
  in_id :: ident
  in_name :: string

definition instance_event ::
    "instance_ref \<Rightarrow> status_event_kind \<Rightarrow> time \<Rightarrow> time \<Rightarrow> time \<Rightarrow> ident option \<Rightarrow> string \<Rightarrow> status_event_values" where
  "instance_event inst kind occurred observed corroborated incident key =
     \<lparr>se_subjectType = InstanceSubjectType, se_subjectId = in_id inst, se_subjectLabel = in_name inst,
      se_hostId = None, se_instanceId = Some (in_id inst), se_kind = kind, se_occurredAt = occurred,
      se_observedAt = observed, se_lastCorroboratedAt = corroborated, se_incidentId = incident,
      se_primarySource = JournalSource, se_sources = [JournalSource], se_sourceKey = Some key\<rparr>"

text \<open>\<open>CONNECTION_STATES.find((candidate) => candidate === condition.state)\<close>\<close>

definition as_connection_state :: "status_state \<Rightarrow> connection_state option" where
  "as_connection_state s = find (\<lambda>c. connection_as_state c = s) connection_states"

definition escalate_change ::
    "'q job_sender \<Rightarrow> payload \<Rightarrow> ident \<Rightarrow> instance_ref \<Rightarrow> ident \<Rightarrow> ident \<Rightarrow> connection_change \<Rightarrow> ('q, bool) app" where
  "escalate_change send carrier org inst incidentId conditionId change db0 =
     (let subject = InstanceSubject (in_id inst);
          state = connection_as_state (ch_state change);
          (at2, db1) = read_now db0;
          (claimed, db2) = claim_escalation org conditionId incidentId state at2 db1
      in if \<not> claimed then (Inr False, db2)
         else
           (let (at3, db3) = read_now db2; (at4, db4) = read_now db3 in
            case record_and_announce send carrier org
                   (instance_event inst InstanceDisconnected (ch_at change) at3 at4
                      (Some incidentId) (escalation_key_for incidentId)) (Some incidentId) db4 of
              (Inl e, db5) \<Rightarrow> (Inl e, db5)
            | (Inr None, db5) \<Rightarrow> (Inr False, db5)
            | (Inr (Some event), db5) \<Rightarrow>
                (let db6 = snd (close_open_interval org subject InstanceConnectionDim (ch_at change)
                                  (Some (ev_id event)) db5)
                 in case open_interval org subject InstanceConnectionDim state (ch_at change)
                           (Some (ev_id event)) db6 of
                      (Inl e, db7) \<Rightarrow> (Inl e, db7)
                    | (Inr _, db7) \<Rightarrow> (Inr True, db7))))"

definition escalate_instance ::
    "'q job_sender \<Rightarrow> payload \<Rightarrow> ident \<Rightarrow> instance_ref \<Rightarrow> ident \<Rightarrow> ('q, bool) app" where
  "escalate_instance send carrier org inst incidentId =
     in_transaction (\<lambda>db.
       (case find_condition org (InstanceSubject (in_id inst)) InstanceConnectionDim db of
          None \<Rightarrow> (Inr False, db)
        | Some condition \<Rightarrow>
            (if sc_activeIncidentId condition \<noteq> Some incidentId then (Inr False, db)
             else (case as_connection_state (sc_state condition) of
                None \<Rightarrow> (Inr False, db)
              | Some state \<Rightarrow>
                  (let (at1, db1) = read_now db in
                   case escalate_if_still_down
                          \<lparr>cc_state = state, cc_since = sc_failureStartedAt condition, cc_pid = None\<rparr> at1 of
                     None \<Rightarrow> (Inr False, db1)
                   | Some change \<Rightarrow>
                       escalate_change send carrier org inst incidentId (sc_id condition) change db1)))))"

text \<open>The turns of the loop over a bot's connection changes, in the order of its body.\<close>

definition connection_key :: "instance_ref \<Rightarrow> time \<Rightarrow> status_event_kind \<Rightarrow> string" where
  "connection_key inst t kind = in_id inst @ '':'' @ iso_string t @ '':'' @ event_kind_text kind"

definition flap_key :: "instance_ref \<Rightarrow> time \<Rightarrow> string" where
  "flap_key inst t = ''flap:'' @ in_id inst @ '':'' @ iso_string t"

definition change_event ::
    "'q job_sender \<Rightarrow> payload \<Rightarrow> ident \<Rightarrow> instance_ref \<Rightarrow> connection_change \<Rightarrow> ident option
      \<Rightarrow> ('q, status_event_row option) app" where
  "change_event send carrier org inst change eventIncidentId db =
     (case ch_event change of
        None \<Rightarrow> (Inr None, db)
      | Some kind \<Rightarrow>
          (let (t1, db1) = read_now db; (t2, db2) = read_now db1 in
           record_and_announce send carrier org
             (instance_event inst kind (ch_at change) t1 t2 eventIncidentId
                (connection_key inst (ch_at change) kind))
             eventIncidentId db2))"

definition schedule_escalation ::
    "'q job_sender \<Rightarrow> ident \<Rightarrow> instance_ref \<Rightarrow> bool \<Rightarrow> ident option \<Rightarrow> ('q, unit) app" where
  "schedule_escalation send org inst opened incidentId db =
     (case (opened, incidentId) of
        (True, Some i) \<Rightarrow>
          (case send_job send StatusEscalateQueue
                  [(''organizationId'', org), (''instanceId'', in_id inst), (''incidentId'', i)]
                  (Some (ceil_div instance_interrupted_to_down_ms 1000)) db of
             (Inl e, db') \<Rightarrow> (Inl e, db')
           | (Inr None, db') \<Rightarrow>
               (Inl (internal_error (''the check on '' @ in_name inst @ '' could not be scheduled'')), db')
           | (Inr (Some _), db') \<Rightarrow> (Inr (), db'))
      | _ \<Rightarrow> (Inr (), db))"

definition claim_and_note_flapping ::
    "'q job_sender \<Rightarrow> payload \<Rightarrow> ident \<Rightarrow> instance_ref \<Rightarrow> time \<Rightarrow> status_condition_row
      \<Rightarrow> ident option \<Rightarrow> ('q, unit) app" where
  "claim_and_note_flapping send carrier org inst changedAt condition incidentId db =
     (let (claimed, db1) = claim_flapping org (sc_id condition) changedAt flapping_window_ms db
      in if \<not> claimed then (Inr (), db1)
         else
           (let (t1, db2) = read_now db1; (t2, db3) = read_now db2 in
            case record_and_announce send carrier org
                   (instance_event inst InstanceFlapping changedAt t1 t2 incidentId
                      (flap_key inst changedAt)) None db3 of
              (Inl e, db4) \<Rightarrow> (Inl e, db4)
            | (Inr _, db4) \<Rightarrow> (Inr (), db4)))"

definition note_flapping ::
    "'q job_sender \<Rightarrow> payload \<Rightarrow> ident \<Rightarrow> instance_ref \<Rightarrow> connection_change \<Rightarrow> status_condition_row option
      \<Rightarrow> ident option \<Rightarrow> ('q, unit) app" where
  "note_flapping send carrier org inst change opening incidentId db =
     (case opening of
        None \<Rightarrow> (Inr (), db)
      | Some condition \<Rightarrow>
          (if \<not> counts_as_loss (ch_event change) then (Inr (), db)
           else
             (let w = loss_window_at (ch_at change);
                  losses = recent_losses_at org (in_id inst) (lw_since w) (lw_until w) flapping_loss_events db
              in if \<not> worth_claiming_flapping losses (ch_at change) then (Inr (), db)
                 else claim_and_note_flapping send carrier org inst (ch_at change) condition incidentId db)))"

definition enter_connection ::
    "ident \<Rightarrow> instance_ref \<Rightarrow> connection_change \<Rightarrow> ident option \<Rightarrow> ident option \<Rightarrow> ('q, unit) app" where
  "enter_connection org inst change incidentId eventId db =
     (let subject = InstanceSubject (in_id inst);
          (closed, db1) = close_open_interval org subject InstanceConnectionDim (ch_at change) eventId db;
          startAt = (case closed of
                       None \<Rightarrow> ch_at change
                     | Some r \<Rightarrow> (case si_endedAt r of
                         None \<Rightarrow> ch_at change
                       | Some e \<Rightarrow> if ch_at change < e then e else ch_at change))
      in case open_interval org subject InstanceConnectionDim (connection_as_state (ch_state change))
                startAt eventId db1 of
           (Inl e, db2) \<Rightarrow> (Inl e, db2)
         | (Inr _, db2) \<Rightarrow>
             (let (t, db3) = read_now db2 in
              (Inr (), upsert_condition org subject InstanceConnectionDim
                 \<lparr>cp_state = connection_as_state (ch_state change), cp_observedAt = t,
                  cp_failureStartedAt = (if ch_state change = CJoined then None else Some (ch_at change)),
                  cp_activeIncidentId = incidentId\<rparr>
                 (ch_at change) db3)))"

definition apply_change ::
    "'q job_sender \<Rightarrow> payload \<Rightarrow> ident \<Rightarrow> instance_ref \<Rightarrow> status_condition_row option
      \<Rightarrow> ident option \<Rightarrow> connection_change \<Rightarrow> ('q, ident option) app" where
  "apply_change send carrier org inst opening current change db =
     (let (decision, db1) = next_incident current (ch_state change) (ch_event change) nanoid db;
          incidentId = idec_incidentId decision
      in case change_event send carrier org inst change (incident_of_event decision) db1 of
           (Inl e, db2) \<Rightarrow> (Inl e, db2)
         | (Inr event, db2) \<Rightarrow>
             (case schedule_escalation send org inst (idec_opened decision) incidentId db2 of
                (Inl e, db3) \<Rightarrow> (Inl e, db3)
              | (Inr _, db3) \<Rightarrow>
                  (case note_flapping send carrier org inst change opening incidentId db3 of
                     (Inl e, db4) \<Rightarrow> (Inl e, db4)
                   | (Inr _, db4) \<Rightarrow>
                       (case enter_connection org inst change incidentId (map_option ev_id event) db4 of
                          (Inl e, db5) \<Rightarrow> (Inl e, db5)
                        | (Inr _, db5) \<Rightarrow> (Inr incidentId, db5)))))"

fun apply_changes ::
    "'q job_sender \<Rightarrow> payload \<Rightarrow> ident \<Rightarrow> instance_ref \<Rightarrow> status_condition_row option
      \<Rightarrow> ident option \<Rightarrow> connection_change list \<Rightarrow> ('q, unit) app" where
  "apply_changes send carrier org inst opening current [] db = (Inr (), db)"
| "apply_changes send carrier org inst opening current (c # cs) db =
     (case apply_change send carrier org inst opening current c db of
        (Inl e, db') \<Rightarrow> (Inl e, db')
      | (Inr incidentId, db') \<Rightarrow> apply_changes send carrier org inst opening incidentId cs db')"

definition record_instance_connection ::
    "'q job_sender \<Rightarrow> payload \<Rightarrow> ident \<Rightarrow> instance_ref \<Rightarrow> connection_change list \<Rightarrow> ('q, unit) app" where
  "record_instance_connection send carrier org inst changes db0 =
     (if changes = [] then (Inr (), db0)
      else in_transaction (\<lambda>db.
        (let opening = find_condition org (InstanceSubject (in_id inst)) InstanceConnectionDim db in
         apply_changes send carrier org inst opening
           (case opening of None \<Rightarrow> None | Some c \<Rightarrow> sc_activeIncidentId c) changes db)) db0)"

section \<open>Cursors and the current state\<close>

definition connection_cursor :: "ident \<Rightarrow> ident \<Rightarrow> 'm status_db_scheme \<Rightarrow> string option" where
  "connection_cursor org instanceId db = read_cursor org instanceId JournalSource db"

definition save_connection_cursor ::
    "ident \<Rightarrow> ident \<Rightarrow> string \<Rightarrow> 'm status_db_scheme \<Rightarrow> 'm status_db_scheme" where
  "save_connection_cursor org instanceId cursor db =
     (let (t, db') = read_now db in write_cursor org instanceId JournalSource cursor t db')"

definition current_connection :: "ident \<Rightarrow> ident \<Rightarrow> 'm status_db_scheme \<Rightarrow> connection_current" where
  "current_connection org instanceId db =
     (case find_condition org (InstanceSubject instanceId) InstanceConnectionDim db of
        None \<Rightarrow> unobserved_connection
      | Some c \<Rightarrow>
          \<lparr>cc_state = (if sc_state c = Joined then CJoined
                        else if sc_state c = Interrupted then CInterrupted
                        else if sc_state c = Down then CDown
                        else if sc_state c = NeverJoined then CNeverJoined
                        else CUnknown),
           cc_since = Some (sc_startedAt c), cc_pid = None\<rparr>)"

section \<open>The summary\<close>

record host_summary =
  hs_hostId :: ident
  hs_hostName :: string
  hs_state :: status_state
  hs_since :: time
  hs_lastCheckedAt :: time
  hs_availability :: availability
  hs_buckets :: "bucket_availability list"

record bot_summary =
  bs_instanceId :: ident
  bs_instanceName :: string
  bs_state :: status_state
  bs_availability :: availability
  bs_buckets :: "bucket_availability list"
  bs_lastChangeAt :: "time option"

record status_summary =
  ss_hosts :: "host_summary list"
  ss_bots :: "bot_summary list"
  ss_answering :: nat
  ss_total :: nat
  ss_bucketSeconds :: int
  ss_retentionDays :: int

definition availability_over :: "status_interval_row list \<Rightarrow> time \<Rightarrow> time \<Rightarrow> availability" where
  "availability_over intervals since until =
     (let clipped = map (\<lambda>r.
            \<lparr>ri_state = si_state r,
             ri_startedAt = (if si_startedAt r < since then since else si_startedAt r),
             ri_endedAt = Some (case si_endedAt r of None \<Rightarrow> until | Some e \<Rightarrow> e)\<rparr>) intervals
      in if until \<le> since then empty_availability else roll_up_window clipped since until)"

definition ended_by :: "time \<Rightarrow> status_interval_row \<Rightarrow> rollable_interval" where
  "ended_by now r =
     \<lparr>ri_state = si_state r, ri_startedAt = si_startedAt r,
      ri_endedAt = Some (case si_endedAt r of None \<Rightarrow> now | Some e \<Rightarrow> e)\<rparr>"

definition host_summary_of ::
    "status_condition_row list \<Rightarrow> status_interval_row list \<Rightarrow> time list \<Rightarrow> int \<Rightarrow> time \<Rightarrow> time
      \<Rightarrow> ident \<times> string \<Rightarrow> host_summary" where
  "host_summary_of conditions intervals starts bucketSeconds since now host =
     (let condition = find (\<lambda>c. sc_subject c = HostSubject (fst host)) conditions;
          mine = filter (\<lambda>r. si_subject r = HostSubject (fst host)) intervals
      in \<lparr>hs_hostId = fst host, hs_hostName = snd host,
          hs_state = (case condition of None \<Rightarrow> Unknown | Some c \<Rightarrow> sc_state c),
          hs_since = (case condition of None \<Rightarrow> since | Some c \<Rightarrow> sc_startedAt c),
          hs_lastCheckedAt = (case condition of None \<Rightarrow> since | Some c \<Rightarrow> sc_lastObservedAt c),
          hs_availability = availability_over mine since now,
          hs_buckets = roll_up_buckets (map (ended_by now) mine) starts bucketSeconds\<rparr>)"

definition bot_summary_of ::
    "status_condition_row list \<Rightarrow> status_interval_row list \<Rightarrow> time list \<Rightarrow> int \<Rightarrow> time \<Rightarrow> time
      \<Rightarrow> ident \<times> string \<Rightarrow> bot_summary" where
  "bot_summary_of conditions intervals starts bucketSeconds since now named =
     (let condition = find (\<lambda>c. sc_subject c = InstanceSubject (fst named)) conditions;
          mine = filter (\<lambda>r. si_subject r = InstanceSubject (fst named)) intervals
      in \<lparr>bs_instanceId = fst named, bs_instanceName = snd named,
          bs_state = (case condition of None \<Rightarrow> Unknown | Some c \<Rightarrow> sc_state c),
          bs_availability = availability_over mine since now,
          bs_buckets = roll_up_buckets (map (ended_by now) mine) starts bucketSeconds,
          bs_lastChangeAt = map_option sc_startedAt condition\<rparr>)"

text \<open>\<open>names\<close> and \<open>botNames\<close> are what \<open>hostNames\<close> and \<open>instanceNames\<close> returned.\<close>

definition summary ::
    "ident \<Rightarrow> status_range \<Rightarrow> int \<Rightarrow> (ident \<times> string) list \<Rightarrow> (ident \<times> string) list
      \<Rightarrow> 'm status_db_scheme \<Rightarrow> status_summary \<times> 'm status_db_scheme" where
  "summary org requested retentionDays names botNames db0 =
     (let rng = range_within_retention requested retentionDays;
          (now, db) = read_now db0;
          starts = bucket_starts_for rng now;
          since = (case first_opt starts of None \<Rightarrow> now | Some s \<Rightarrow> s);
          bucketSeconds = bucket_seconds rng;
          hosts = map (host_summary_of (list_conditions org HostReachabilityDim db)
                         (list_intervals org HostReachabilityDim since db) starts bucketSeconds since now) names;
          bots = map (bot_summary_of (list_conditions org InstanceConnectionDim db)
                        (list_intervals org InstanceConnectionDim since db) starts bucketSeconds since now) botNames
      in (\<lparr>ss_hosts = hosts, ss_bots = bots,
           ss_answering = length (filter (\<lambda>h. hs_state h = Up) hosts), ss_total = length hosts,
           ss_bucketSeconds = bucketSeconds, ss_retentionDays = retentionDays\<rparr>, db))"

section \<open>Pages of events\<close>

definition encode_status_event_cursor :: "status_event_cursor \<Rightarrow> string" where
  "encode_status_event_cursor c = iso_string (fst c) @ ''|'' @ snd c"

text \<open>\<open>read_date\<close> is \<open>new Date(stamp).getTime()\<close>, \<open>None\<close> for \<open>NaN\<close>.\<close>

definition parse_status_event_cursor :: "(string \<Rightarrow> time option) \<Rightarrow> string \<Rightarrow> status_event_cursor option" where
  "parse_status_event_cursor read_date raw =
     (case index_of (CHR ''|'') raw of
        None \<Rightarrow> None
      | Some i \<Rightarrow>
          (let stamp = take i raw; eid = drop (Suc i) raw in
           if eid = [] then None
           else (case read_date stamp of
              None \<Rightarrow> None
            | Some occurredAt \<Rightarrow>
                if iso_string occurredAt \<noteq> stamp then None else Some (occurredAt, eid))))"

record status_event_view =
  sev_id :: ident
  sev_kind :: status_event_kind
  sev_subjectLabel :: string
  sev_hostId :: "ident option"
  sev_instanceId :: "ident option"
  sev_occurredAt :: time

definition view_of_event :: "status_event_row \<Rightarrow> status_event_view" where
  "view_of_event r =
     \<lparr>sev_id = ev_id r, sev_kind = se_kind (ev_values r), sev_subjectLabel = se_subjectLabel (ev_values r),
      sev_hostId = se_hostId (ev_values r), sev_instanceId = se_instanceId (ev_values r),
      sev_occurredAt = se_occurredAt (ev_values r)\<rparr>"

record status_event_page =
  sp_events :: "status_event_view list"
  sp_total :: nat
  sp_nextCursor :: "string option"

definition events ::
    "ident \<Rightarrow> status_range \<Rightarrow> nat \<Rightarrow> ident option \<Rightarrow> ident option \<Rightarrow> status_event_cursor option
      \<Rightarrow> 'm status_db_scheme \<Rightarrow> status_event_page \<times> 'm status_db_scheme" where
  "events org requested limit hostId instanceId cursor db0 =
     (let (now, db) = read_now db0;
          f = \<lparr>ef_since = now - range_seconds requested * 1000, ef_hostId = hostId, ef_instanceId = instanceId\<rparr>;
          rows = list_events org f limit cursor db;
          total = count_events org f db;
          evs = map view_of_event rows
      in (\<lparr>sp_events = evs, sp_total = total,
           sp_nextCursor =
             (case last_opt evs of
                None \<Rightarrow> None
              | Some e \<Rightarrow>
                  if length evs < limit then None
                  else Some (encode_status_event_cursor (sev_occurredAt e, sev_id e)))\<rparr>, db))"

section \<open>The escalation job\<close>

text \<open>
  A payload is the job's JSON object: each field it has, with the string it holds, or \<open>None\<close> for a
  value that is not a string.
\<close>

definition payload_text :: "(string \<times> string option) list \<Rightarrow> string \<Rightarrow> string option" where
  "payload_text p key =
     (case map_of p key of Some (Some v) \<Rightarrow> if v = [] then None else Some v | _ \<Rightarrow> None)"

definition read_escalation_payload ::
    "(string \<times> string option) list \<Rightarrow> (ident \<times> ident \<times> ident) option" where
  "read_escalation_payload p =
     (case (payload_text p ''organizationId'', payload_text p ''instanceId'', payload_text p ''incidentId'') of
        (Some org, Some inst, Some incident) \<Rightarrow> Some (org, inst, incident)
      | _ \<Rightarrow> None)"

definition escalation_handler ::
    "(ident \<Rightarrow> ident \<Rightarrow> ident \<Rightarrow> ('w, bool) io) \<Rightarrow> (string \<times> string option) list \<Rightarrow> ('w, bool) io" where
  "escalation_handler escalate p =
     (case read_escalation_payload p of
        None \<Rightarrow> io_return False
      | Some (org, inst, incident) \<Rightarrow> escalate org inst incident)"

end
