(* ===== verification/StatusInvariant.thy ===== *)
theory StatusInvariant
  imports StatusController
begin

text \<open>
  The invariant of the status log and its proof for every operation of the status controller: one
  condition per subject and dimension, one open interval beside it holding the same state, an
  incident exactly while the subject is known to be away, unique identifiers and source keys.
\<close>

section \<open>Well-formed tables\<close>

definition issued :: "'m status_db_scheme \<Rightarrow> ident \<Rightarrow> bool" where
  "issued db i \<longleftrightarrow> (\<exists>n < nano_next db. i = nano_supply db n)"

definition open_keys :: "'m status_db_scheme \<Rightarrow> status_key list" where
  "open_keys db = map interval_key (filter (\<lambda>r. si_endedAt r = None) (statusIntervals db))"

definition source_keys :: "'m status_db_scheme \<Rightarrow> (ident \<times> status_source \<times> string) list" where
  "source_keys db =
     map (\<lambda>r. the (event_row_key r)) (filter (\<lambda>r. event_row_key r \<noteq> None) (statusEvents db))"

definition status_wf :: "'m status_db_scheme \<Rightarrow> bool" where
  "status_wf db \<longleftrightarrow>
     inj (nano_supply db) \<and>
     distinct (map condition_key (statusConditions db)) \<and>
     distinct (map sc_id (statusConditions db)) \<and>
     (\<forall>r \<in> set (statusConditions db). issued db (sc_id r)) \<and>
     distinct (open_keys db) \<and>
     (\<forall>r \<in> set (statusIntervals db). case si_endedAt r of None \<Rightarrow> True | Some e \<Rightarrow> si_startedAt r \<le> e) \<and>
     distinct (map ev_id (statusEvents db)) \<and>
     (\<forall>r \<in> set (statusEvents db). issued db (ev_id r)) \<and>
     distinct (source_keys db)"

text \<open>What every operation does: identifiers are only drawn, and well-formedness is kept.\<close>

definition grows :: "'m status_db_scheme \<Rightarrow> 'm status_db_scheme \<Rightarrow> bool" where
  "grows db db' \<longleftrightarrow>
     nano_supply db' = nano_supply db \<and> nano_next db \<le> nano_next db' \<and> (status_wf db \<longrightarrow> status_wf db')"

lemma grows_refl [simp]: "grows db db"
  by (simp add: grows_def)

lemma grows_trans: "grows a b \<Longrightarrow> grows b c \<Longrightarrow> grows a c"
  by (auto simp: grows_def)

lemma issued_mono:
  "issued db i \<Longrightarrow> nano_supply db' = nano_supply db \<Longrightarrow> nano_next db \<le> nano_next db' \<Longrightarrow> issued db' i"
  by (auto simp: issued_def intro: less_le_trans)

lemma not_issued_next: "inj (nano_supply db) \<Longrightarrow> \<not> issued db (nano_supply db (nano_next db))"
  by (auto simp: issued_def inj_def)

lemma grows_same_tables:
  assumes "nano_supply db' = nano_supply db" "nano_next db \<le> nano_next db'"
    "statusConditions db' = statusConditions db" "statusIntervals db' = statusIntervals db"
    "statusEvents db' = statusEvents db"
  shows "grows db db'"
  using assms issued_mono [OF _ assms(1,2)]
  by (auto simp: grows_def status_wf_def open_keys_def source_keys_def)

lemma grows_same_status: "same_status db db' \<Longrightarrow> grows db db'"
  by (rule grows_same_tables) (simp_all add: same_status_def)

lemma grows_clock [simp]: "grows db (db\<lparr>clock_next := n\<rparr>)"
  by (rule grows_same_tables) simp_all

lemma grows_nano [simp]: "grows db (db\<lparr>nano_next := Suc (nano_next db)\<rparr>)"
  by (rule grows_same_tables) simp_all

lemma grows_record_event [simp]: "grows db (snd (record_event org v db))"
proof (cases "event_source_key org v \<noteq> None \<and>
    list_ex (\<lambda>r. event_row_key r = event_source_key org v) (statusEvents db)")
  case True
  then show ?thesis by (simp add: record_event_def Let_def nanoid_def)
next
  case False
  let ?row = "\<lparr>ev_id = nano_supply db (nano_next db), ev_organizationId = org, ev_values = v\<rparr>"
  let ?db = "db\<lparr>nano_next := Suc (nano_next db), statusEvents := statusEvents db @ [?row]\<rparr>"
  have key: "event_row_key ?row = event_source_key org v" by (simp add: event_row_key_def)
  have r: "snd (record_event org v db) = ?db"
    using False by (simp add: record_event_def Let_def nanoid_def)
  have "status_wf ?db" if wf: "status_wf db"
  proof -
    have fresh: "\<not> issued db (nano_supply db (nano_next db))"
      using wf not_issued_next [of db] by (simp add: status_wf_def)
    have "distinct (map ev_id (statusEvents db @ [?row]))"
      using wf fresh by (auto simp: status_wf_def)
    moreover have "distinct (source_keys ?db)"
      using wf False key by (force simp: status_wf_def source_keys_def list_ex_iff)
    moreover have "issued ?db i" if "issued db i" for i
      using that by (rule issued_mono) simp_all
    moreover have "issued ?db (ev_id ?row)" by (auto simp: issued_def)
    ultimately show ?thesis using wf by (simp add: status_wf_def open_keys_def)
  qed
  then show ?thesis unfolding r by (simp add: grows_def)
qed

lemma open_keys_close:
  "open_keys (snd (close_open_interval org s d t e db)) = filter (\<lambda>k. k \<noteq> (org, s, d)) (open_keys db)"
proof -
  have "map interval_key (filter (\<lambda>r. si_endedAt r = None)
      (update_rows (interval_open org s d) (close_row t e) xs)) =
    filter (\<lambda>k. k \<noteq> (org, s, d)) (map interval_key (filter (\<lambda>r. si_endedAt r = None) xs))" for xs
    by (induction xs) (auto simp: interval_open_key close_row_def)
  then show ?thesis by (simp add: open_keys_def close_open_interval_def)
qed

lemma grows_close [simp]: "grows db (snd (close_open_interval org s d t e db))"
proof -
  let ?db = "snd (close_open_interval org s d t e db)"
  have "status_wf ?db" if wf: "status_wf db"
  proof -
    have "distinct (open_keys ?db)" using wf by (simp add: open_keys_close status_wf_def)
    moreover have "\<forall>r \<in> set (statusIntervals ?db). case si_endedAt r of None \<Rightarrow> True | Some e \<Rightarrow> si_startedAt r \<le> e"
      using wf by (auto simp: status_wf_def close_open_interval_def set_update_rows close_row_def)
    ultimately show ?thesis using wf
      by (simp add: status_wf_def close_open_interval_def issued_def source_keys_def)
  qed
  then show ?thesis by (simp add: grows_def close_open_interval_def)
qed

lemma grows_open [simp]: "grows db (snd (open_interval org s d st t e db))"
proof (cases "list_ex (interval_open org s d) (statusIntervals db)")
  case True
  then show ?thesis by (simp add: open_interval_def Let_def nanoid_def)
next
  case False
  let ?row = "\<lparr>si_id = nano_supply db (nano_next db), si_organizationId = org, si_subject = s,
    si_dimension = d, si_state = st, si_startedAt = t, si_endedAt = None, si_startEventId = e,
    si_endEventId = None\<rparr>"
  let ?db = "db\<lparr>nano_next := Suc (nano_next db), statusIntervals := statusIntervals db @ [?row]\<rparr>"
  have r: "snd (open_interval org s d st t e db) = ?db"
    using False by (simp add: open_interval_def Let_def nanoid_def)
  have "status_wf ?db" if wf: "status_wf db"
  proof -
    have "distinct (open_keys ?db)"
      using wf False by (auto simp: status_wf_def open_keys_def list_ex_iff interval_open_key interval_key_def)
    moreover have "issued ?db i" if "issued db i" for i
      using that by (rule issued_mono) simp_all
    ultimately show ?thesis using wf by (auto simp: status_wf_def source_keys_def)
  qed
  then show ?thesis unfolding r by (simp add: grows_def)
qed

text \<open>Updates of conditions that leave their keys and identifiers alone.\<close>

lemma grows_update_conditions:
  assumes "\<And>r. condition_key (f r) = condition_key r" and "\<And>r. sc_id (f r) = sc_id r"
  shows "grows db (db\<lparr>statusConditions := update_rows p f (statusConditions db)\<rparr>)"
proof -
  let ?db = "db\<lparr>statusConditions := update_rows p f (statusConditions db)\<rparr>"
  have "map condition_key (statusConditions ?db) = map condition_key (statusConditions db)"
    and "map sc_id (statusConditions ?db) = map sc_id (statusConditions db)"
    using assms by (simp_all add: map_update_rows_same)
  moreover have "\<forall>r \<in> set (statusConditions ?db). issued ?db (sc_id r)" if "status_wf db"
    using that assms(2) by (auto simp: status_wf_def set_update_rows issued_def)
  ultimately have "status_wf ?db" if "status_wf db"
    using that by (simp add: status_wf_def open_keys_def source_keys_def issued_def)
  then show ?thesis by (simp add: grows_def)
qed

lemma grows_touch [simp]: "grows db (touch_condition org i t db)"
  unfolding touch_condition_def by (rule grows_update_conditions) (simp_all add: condition_key_def)

lemma grows_claim_escalation [simp]: "grows db (snd (claim_escalation org i inc st t db))"
  unfolding claim_escalation_def Let_def snd_conv
  by (rule grows_update_conditions) (simp_all add: condition_key_def)

lemma grows_claim_flapping [simp]: "grows db (snd (claim_flapping org i t c db))"
  unfolding claim_flapping_def Let_def snd_conv
  by (rule grows_update_conditions) (simp_all add: condition_key_def)

lemma grows_upsert [simp]: "grows db (upsert_condition org s d patch t db)"
proof (cases "list_ex (condition_matches org s d) (statusConditions db)")
  case True
  have "grows (db\<lparr>nano_next := Suc (nano_next db)\<rparr>)
     (db\<lparr>nano_next := Suc (nano_next db), statusConditions :=
        update_rows (condition_matches org s d) (patch_condition patch t) (statusConditions db)\<rparr>)"
    using grows_update_conditions [of "patch_condition patch t" "db\<lparr>nano_next := Suc (nano_next db)\<rparr>"]
    by (simp add: patch_condition_def condition_key_def)
  then show ?thesis using True grows_nano grows_trans
    by (fastforce simp: upsert_condition_def Let_def nanoid_def)
next
  case False
  let ?row = "\<lparr>sc_id = nano_supply db (nano_next db), sc_organizationId = org, sc_subject = s,
    sc_dimension = d, sc_state = cp_state patch, sc_startedAt = t,
    sc_lastObservedAt = cp_observedAt patch, sc_failureStartedAt = cp_failureStartedAt patch,
    sc_activeIncidentId = cp_activeIncidentId patch, sc_lastFlappedAt = None\<rparr>"
  let ?db = "db\<lparr>nano_next := Suc (nano_next db), statusConditions := statusConditions db @ [?row]\<rparr>"
  have r: "upsert_condition org s d patch t db = ?db"
    using False by (simp add: upsert_condition_def Let_def nanoid_def)
  have "status_wf ?db" if wf: "status_wf db"
  proof -
    have fresh: "\<not> issued db (nano_supply db (nano_next db))"
      using wf not_issued_next [of db] by (simp add: status_wf_def)
    have "distinct (map condition_key (statusConditions ?db))"
      using wf False by (auto simp: status_wf_def list_ex_iff condition_matches_key condition_key_def)
    moreover have "distinct (map sc_id (statusConditions ?db))"
      using wf fresh by (auto simp: status_wf_def)
    moreover have "issued ?db i" if "issued db i" for i
      using that by (rule issued_mono) simp_all
    moreover have "issued ?db (sc_id ?row)" by (auto simp: issued_def)
    ultimately show ?thesis using wf by (simp add: status_wf_def open_keys_def source_keys_def)
  qed
  then show ?thesis unfolding r by (simp add: grows_def)
qed

lemma grows_write_cursor [simp]: "grows db (write_cursor org i src c t db)"
  by (rule grows_same_tables) (simp_all add: write_cursor_def Let_def)

section \<open>What a key's condition and open interval say\<close>

type_synonym condition_view = "status_state \<times> time option \<times> ident option"

definition condition_view :: "status_key \<Rightarrow> 'm status_db_scheme \<Rightarrow> condition_view option" where
  "condition_view k db =
     map_option (\<lambda>r. (sc_state r, sc_failureStartedAt r, sc_activeIncidentId r)) (condition_at k db)"

definition open_view :: "status_key \<Rightarrow> 'm status_db_scheme \<Rightarrow> status_state option" where
  "open_view k db = map_option si_state (open_at k db)"

lemmas view_defs = condition_view_def condition_at_def open_view_def open_at_def

lemma views_same_tables:
  assumes "statusConditions db' = statusConditions db" and "statusIntervals db' = statusIntervals db"
  shows "condition_view k db' = condition_view k db" and "open_view k db' = open_view k db"
  using assms by (simp_all add: view_defs)

lemma views_same_status:
  assumes "same_status db db'"
  shows "condition_view k db' = condition_view k db" and "open_view k db' = open_view k db"
  using assms by (auto intro!: views_same_tables simp: same_status_def)

lemma views_supplies [simp]:
  "condition_view k (db\<lparr>nano_next := n\<rparr>) = condition_view k db"
  "open_view k (db\<lparr>nano_next := n\<rparr>) = open_view k db"
  "condition_view k (db\<lparr>clock_next := n\<rparr>) = condition_view k db"
  "open_view k (db\<lparr>clock_next := n\<rparr>) = open_view k db"
  by (simp_all add: view_defs)

lemma views_record_event [simp]:
  "condition_view k (snd (record_event org v db)) = condition_view k db"
  "open_view k (snd (record_event org v db)) = open_view k db"
  by (rule views_same_tables; simp add: record_event_def Let_def nanoid_def)+

lemma condition_view_close [simp]:
  "condition_view k (snd (close_open_interval org s d t e db)) = condition_view k db"
  by (simp add: view_defs close_open_interval_def)

lemma open_view_close [simp]:
  "open_view k (snd (close_open_interval org s d t e db)) = (if k = (org, s, d) then None else open_view k db)"
proof -
  have "find (\<lambda>r. interval_key r = k \<and> si_endedAt r = None)
      (update_rows (interval_open org s d) (close_row t e) xs) =
    (if k = (org, s, d) then None else find (\<lambda>r. interval_key r = k \<and> si_endedAt r = None) xs)" for xs
    by (induction xs) (auto simp: interval_open_key close_row_def)
  then show ?thesis by (simp add: view_defs close_open_interval_def)
qed

lemma condition_view_open [simp]:
  "condition_view k (snd (open_interval org s d st t e db)) = condition_view k db"
  by (simp add: view_defs open_interval_def Let_def nanoid_def)

lemma open_interval_free:
  assumes "open_view (org, s, d) db = None"
  shows "isl (fst (open_interval org s d st t e db)) = False"
    and "open_view k (snd (open_interval org s d st t e db)) = (if k = (org, s, d) then Some st else open_view k db)"
proof -
  have free: "\<not> list_ex (interval_open org s d) (statusIntervals db)"
    using assms by (auto simp: view_defs list_ex_find interval_open_key)
  then show "isl (fst (open_interval org s d st t e db)) = False"
    by (simp add: open_interval_def Let_def nanoid_def)
  show "open_view k (snd (open_interval org s d st t e db)) = (if k = (org, s, d) then Some st else open_view k db)"
  proof (cases "k = (org, s, d)")
    case True
    then show ?thesis using free assms
      by (simp add: view_defs open_interval_def Let_def nanoid_def find_append interval_key_def)
  next
    case False
    then show ?thesis using free
      by (auto simp: view_defs open_interval_def Let_def nanoid_def find_append interval_key_def split: option.splits)
  qed
qed

lemma condition_view_upsert [simp]:
  "condition_view k (upsert_condition org s d patch t db) =
     (if k = (org, s, d) then Some (cp_state patch, cp_failureStartedAt patch, cp_activeIncidentId patch)
      else condition_view k db)"
proof -
  have v: "condition_view k db = map_option (\<lambda>v. (cp_state (fst v), cp_failureStartedAt (fst v), cp_activeIncidentId (fst v)))
      (map_option condition_value (condition_at k db))" for db :: "'a status_db_scheme"
    by (simp add: condition_view_def option.map_comp comp_def condition_value_def)
  show ?thesis unfolding v upsert_condition_at by simp
qed

lemma open_view_upsert [simp]: "open_view k (upsert_condition org s d patch t db) = open_view k db"
  by (simp add: view_defs upsert_condition_def Let_def nanoid_def)

lemma views_update_conditions:
  assumes "\<And>r. condition_key (f r) = condition_key r"
    and "\<And>r. (sc_state (f r), sc_failureStartedAt (f r), sc_activeIncidentId (f r)) =
           (sc_state r, sc_failureStartedAt r, sc_activeIncidentId r)"
  shows "condition_view k (db\<lparr>statusConditions := update_rows p f (statusConditions db)\<rparr>) = condition_view k db"
proof -
  have "find (\<lambda>r. condition_key r = k) (update_rows p f xs) =
      map_option (\<lambda>r. if p r then f r else r) (find (\<lambda>r. condition_key r = k) xs)" for xs
    by (rule find_update_rows_stable) (simp add: assms(1))
  then show ?thesis using assms(2)
    by (auto simp: condition_view_def condition_at_def option.map_comp comp_def intro!: option.map_cong0)
qed

lemma views_touch [simp]:
  "condition_view k (touch_condition org i t db) = condition_view k db"
  "open_view k (touch_condition org i t db) = open_view k db"
  unfolding touch_condition_def
  by (rule views_update_conditions; simp add: condition_key_def) (simp add: view_defs)

lemma views_claim_flapping [simp]:
  "condition_view k (snd (claim_flapping org i t c db)) = condition_view k db"
  "open_view k (snd (claim_flapping org i t c db)) = open_view k db"
  unfolding claim_flapping_def Let_def snd_conv
  by (rule views_update_conditions; simp add: condition_key_def) (simp add: view_defs)

lemma open_view_claim_escalation [simp]:
  "open_view k (snd (claim_escalation org i inc st t db)) = open_view k db"
  by (simp add: view_defs claim_escalation_def Let_def)

text \<open>
  A claimed escalation moves the one interrupted condition that has the incident, and a claim that
  was refused moves nothing.
\<close>

lemma claim_escalation_view:
  assumes wf: "status_wf db" and c: "condition_at key db = Some c"
    and org: "fst key = org" and inc: "sc_activeIncidentId c = Some i" and st: "sc_state c = Interrupted"
  shows "fst (claim_escalation org (sc_id c) i st' t db)"
    and "condition_view k (snd (claim_escalation org (sc_id c) i st' t db)) =
     (if k = key then Some (st', sc_failureStartedAt c, Some i) else condition_view k db)"
proof -
  let ?p = "\<lambda>r. sc_organizationId r = org \<and> sc_id r = sc_id c \<and> sc_activeIncidentId r = Some i \<and> sc_state r = Interrupted"
  let ?f = "\<lambda>r. r\<lparr>sc_state := st', sc_lastObservedAt := t, sc_startedAt := t\<rparr>"
  have cin: "c \<in> set (statusConditions db)" and ckey: "condition_key c = key"
    using find_SomeD [OF c [unfolded condition_at_def]] by auto
  have pc: "?p c" using org inc st ckey by (auto simp: condition_key_def)
  have d: "distinct (map sc_id (statusConditions db))" "distinct (map condition_key (statusConditions db))"
    using wf by (simp_all add: status_wf_def)
  have only: "?p r \<longleftrightarrow> r = c" if "r \<in> set (statusConditions db)" for r
    using that cin pc d(1) by (auto simp: distinct_map inj_on_def)
  have upd: "update_rows ?p ?f (statusConditions db) = update_rows (\<lambda>r. r = c) ?f (statusConditions db)"
    using only by (simp add: update_rows_def)
  have "updated_count ?p (statusConditions db) \<le> 1"
    by (rule updated_count_distinct [OF d(1)]) simp
  moreover have "updated_count ?p (statusConditions db) \<noteq> 0"
    using cin pc by (auto simp: updated_count_def filter_empty_conv)
  ultimately show "fst (claim_escalation org (sc_id c) i st' t db)"
    by (simp add: claim_escalation_def Let_def)
  have key_f: "condition_key (?f r) = condition_key r" for r by (simp add: condition_key_def)
  have "find (\<lambda>r. condition_key r = k) (update_rows (\<lambda>r. r = c) ?f xs) =
      map_option (\<lambda>r. if r = c then ?f r else r) (find (\<lambda>r. condition_key r = k) xs)" for xs
    by (rule find_update_rows_stable) (simp add: key_f)
  moreover have "find (\<lambda>r. condition_key r = k) (statusConditions db) = Some c \<longleftrightarrow> k = key"
    using c ckey by (auto simp: condition_at_def dest: find_SomeD)
  ultimately show "condition_view k (snd (claim_escalation org (sc_id c) i st' t db)) =
     (if k = key then Some (st', sc_failureStartedAt c, Some i) else condition_view k db)"
    using c inc unfolding claim_escalation_def Let_def snd_conv
    by (auto simp: upd condition_view_def condition_at_def option.map_comp comp_def intro!: option.map_cong)
qed

section \<open>The controller's steps\<close>

definition keeps_views :: "'m status_db_scheme \<Rightarrow> 'm status_db_scheme \<Rightarrow> bool" where
  "keeps_views db db' \<longleftrightarrow>
     grows db db' \<and> (\<forall>k. condition_view k db' = condition_view k db) \<and> (\<forall>k. open_view k db' = open_view k db)"

lemma keeps_views_refl [simp]: "keeps_views db db"
  by (simp add: keeps_views_def)

lemma keeps_views_trans: "keeps_views a b \<Longrightarrow> keeps_views b c \<Longrightarrow> keeps_views a c"
  by (auto simp: keeps_views_def intro: grows_trans)

lemma keeps_views_same_status: "same_status db db' \<Longrightarrow> keeps_views db db'"
  by (simp add: keeps_views_def grows_same_status views_same_status)

lemma keeps_views_record_event: "keeps_views db (snd (record_event org v db))"
  by (simp add: keeps_views_def)

lemma keeps_views_supplies [simp]:
  "keeps_views db (db\<lparr>clock_next := n\<rparr>)"
  "keeps_views db (db\<lparr>nano_next := Suc (nano_next db)\<rparr>)"
  by (simp_all add: keeps_views_def)

lemma keeps_views_record_and_announce: "keeps_views db (snd (record_and_announce send carrier org v i db))"
proof -
  obtain r db1 where r: "record_event org v db = (r, db1)" by (metis surj_pair)
  have 1: "keeps_views db db1" using keeps_views_record_event [of db org v] r by simp
  have 2: "keeps_views db (snd (announce send carrier org ev db1))" for ev
    using 1 keeps_views_same_status [OF same_status_announce] by (rule keeps_views_trans)
  show ?thesis
  proof (cases r)
    case None
    then show ?thesis using r 1 by (simp add: record_and_announce_def)
  next
    case (Some ev)
    let ?a = "announce send carrier org
      \<lparr>fa_statusEventId = ev_id ev, fa_kind = se_kind (ev_values ev), fa_subjectType = se_subjectType v,
       fa_subjectId = se_subjectId v, fa_subjectName = se_subjectLabel v, fa_incidentId = i\<rparr> db1"
    show ?thesis using r Some 2
      by (cases ?a; cases "fst ?a") (auto simp: record_and_announce_def, (metis snd_conv)+)
  qed
qed

lemma obliging_record_and_announce:
  assumes "obliging send"
  shows "\<exists>x db'. record_and_announce send carrier org v i db = (Inr x, db')"
proof -
  obtain r db1 where r: "record_event org v db = (r, db1)" by (metis surj_pair)
  show ?thesis
  proof (cases r)
    case None
    then show ?thesis using r by (simp add: record_and_announce_def)
  next
    case (Some ev)
    obtain x db2 where "announce send carrier org
      \<lparr>fa_statusEventId = ev_id ev, fa_kind = se_kind (ev_values ev), fa_subjectType = se_subjectType v,
       fa_subjectId = se_subjectId v, fa_subjectName = se_subjectLabel v, fa_incidentId = i\<rparr> db1 = (Inr x, db2)"
      using obliging_announce [OF assms] by blast
    then show ?thesis using r Some by (simp add: record_and_announce_def)
  qed
qed

lemma keeps_views_record_optional: "keeps_views db (snd (record_optional send carrier org v i db))"
  by (simp add: record_optional_def keeps_views_record_and_announce split: option.split)

lemma obliging_record_optional:
  "obliging send \<Longrightarrow> \<exists>x db'. record_optional send carrier org v i db = (Inr x, db')"
  by (cases v) (simp_all add: record_optional_def obliging_record_and_announce)

text \<open>
  A subject enters a state: its key's condition and open interval become the ones given, all other
  keys keep theirs. \<open>moves\<close> says so of two databases.
\<close>

definition moves_key ::
    "status_key \<Rightarrow> condition_view \<Rightarrow> 'm status_db_scheme \<Rightarrow> 'm status_db_scheme \<Rightarrow> bool" where
  "moves_key key v db db' \<longleftrightarrow>
     grows db db' \<and>
     (\<forall>k. condition_view k db' = (if k = key then Some v else condition_view k db)) \<and>
     (\<forall>k. open_view k db' = (if k = key then Some (fst v) else open_view k db))"

lemma keeps_moves: "keeps_views a b \<Longrightarrow> moves_key key v b c \<Longrightarrow> moves_key key v a c"
  by (auto simp: keeps_views_def moves_key_def intro: grows_trans)

lemma moves_keeps: "moves_key key v a b \<Longrightarrow> keeps_views b c \<Longrightarrow> moves_key key v a c"
  by (auto simp: keeps_views_def moves_key_def intro: grows_trans)

lemma close_open_enter:
  fixes db :: "'m status_db_scheme"
  assumes "snd (close_open_interval org s d t e db) = db1"
  shows "\<exists>r. open_interval org s d st t' e' db1 = (Inr r, snd (open_interval org s d st t' e' db1))"
    and "grows db (snd (open_interval org s d st t' e' db1))"
    and "condition_view k (snd (open_interval org s d st t' e' db1)) = condition_view k db"
    and "open_view k (snd (open_interval org s d st t' e' db1)) =
           (if k = (org, s, d) then Some st else open_view k db)"
proof -
  have free: "open_view (org, s, d) db1 = None" using assms by auto
  have "\<not> isl (fst (open_interval org s d st t' e' db1))" using open_interval_free(1) [OF free] by simp
  then show "\<exists>r. open_interval org s d st t' e' db1 = (Inr r, snd (open_interval org s d st t' e' db1))"
    by (cases "open_interval org s d st t' e' db1"; cases "fst (open_interval org s d st t' e' db1)") auto
  show "grows db (snd (open_interval org s d st t' e' db1))"
    using assms grows_trans [OF grows_close grows_open] by auto
  show "condition_view k (snd (open_interval org s d st t' e' db1)) = condition_view k db"
    using assms by auto
  show "open_view k (snd (open_interval org s d st t' e' db1)) =
      (if k = (org, s, d) then Some st else open_view k db)"
    using assms open_interval_free(2) [OF free] by auto
qed

lemma enter_state_after_close:
  assumes "snd (close_open_interval org s d t e db) = db1"
  shows "\<exists>db2. enter_state org s d patch t' t'' e' db1 = (Inr (), db2) \<and>
     moves_key (org, s, d) (cp_state patch, cp_failureStartedAt patch, cp_activeIncidentId patch) db db2"
proof -
  note o = close_open_enter [OF assms, where st = "cp_state patch" and t' = t' and e' = e']
  obtain r where "open_interval org s d (cp_state patch) t' e' db1 =
      (Inr r, snd (open_interval org s d (cp_state patch) t' e' db1))" using o(1) by blast
  then have "enter_state org s d patch t' t'' e' db1 =
      (Inr (), upsert_condition org s d patch t'' (snd (open_interval org s d (cp_state patch) t' e' db1)))"
    unfolding enter_state_def by (cases "open_interval org s d (cp_state patch) t' e' db1") auto
  then show ?thesis
    using grows_trans [OF o(2) grows_upsert [of _ org s d patch t'']] o(3,4)
    by (simp add: moves_key_def)
qed

subsection \<open>A host\<close>

abbreviation host_key :: "ident \<Rightarrow> ident \<Rightarrow> status_key" where
  "host_key org h \<equiv> (org, HostSubject h, HostReachabilityDim)"

lemma keeps_views_host_incident: "keeps_views db (snd (host_incident st active db))"
  by (auto simp: host_incident_def Let_def nanoid_def split: option.splits)

lemma host_incident_fst:
  "fst (host_incident st active db) \<noteq> None \<longleftrightarrow> (if st = RDown then True else if st = RUp then False else active \<noteq> None)"
  by (auto simp: host_incident_def Let_def nanoid_def split: option.splits)

lemma host_change_result:
  fixes db :: "'q app_db"
  defines "active existing \<equiv> (case existing of None \<Rightarrow> None | Some c \<Rightarrow> sc_activeIncidentId c)"
  shows "(\<exists>e. fst (host_change send carrier org ob now existing decision db) = Inl e \<and>
           keeps_views db (snd (host_change send carrier org ob now existing decision db)) \<and> \<not> obliging send) \<or>
    (fst (host_change send carrier org ob now existing decision db) = Inr () \<and>
     moves_key (host_key org (ob_hostId ob))
       (reachability_as_state (rd_state decision), rd_failureStartedAt decision,
        if rd_state decision = RUp then None else fst (host_incident (rd_state decision) (active existing) db))
       db (snd (host_change send carrier org ob now existing decision db)))"
proof -
  obtain inc db1 where h: "host_incident (rd_state decision) (active existing) db = (inc, db1)" by (metis surj_pair)
  let ?eid = "case inc of Some i \<Rightarrow> Some i | None \<Rightarrow> active existing"
  let ?v = "map_option (\<lambda>k. host_event ob k now ?eid) (rd_event decision)"
  obtain r db2 where r: "record_optional send carrier org ?v ?eid db1 = (r, db2)" by (metis surj_pair)
  have k2: "keeps_views db db2"
    using keeps_views_trans [OF keeps_views_host_incident [of db "rd_state decision" "active existing"]
        keeps_views_record_optional [of "snd (host_incident (rd_state decision) (active existing) db)" send carrier org ?v ?eid]]
      h r by simp
  show ?thesis
  proof (cases r)
    case (Inl e)
    then have "\<not> obliging send" using obliging_record_optional [of send carrier org ?v ?eid db1] r by auto
    then show ?thesis using h r Inl k2 unfolding active_def by (simp add: host_change_def Let_def)
  next
    case (Inr ev)
    let ?patch = "\<lparr>cp_state = reachability_as_state (rd_state decision), cp_observedAt = now,
        cp_failureStartedAt = rd_failureStartedAt decision,
        cp_activeIncidentId = (if rd_state decision = RUp then None else inc)\<rparr>"
    obtain db3 where e: "enter_state org (HostSubject (ob_hostId ob)) HostReachabilityDim ?patch now now (map_option ev_id ev)
        (snd (close_open_interval org (HostSubject (ob_hostId ob)) HostReachabilityDim now (map_option ev_id ev) db2)) = (Inr (), db3)"
      and m: "moves_key (host_key org (ob_hostId ob)) (cp_state ?patch, cp_failureStartedAt ?patch, cp_activeIncidentId ?patch) db2 db3"
      using enter_state_after_close [OF refl] by blast
    show ?thesis using h r Inr e keeps_moves [OF k2 m] unfolding active_def
      by (cases "rd_state decision") (simp_all add: host_change_def Let_def)
  qed
qed

subsection \<open>The invariant\<close>

fun view_ok :: "status_key \<Rightarrow> condition_view \<Rightarrow> bool" where
  "view_ok (org, subject, HostReachabilityDim) (st, since, incident) =
     (st \<in> {Up, Suspect, Down} \<and> (incident \<noteq> None \<longleftrightarrow> st = Down) \<and> (since \<noteq> None \<longleftrightarrow> st \<in> {Suspect, Down}))"
| "view_ok (org, subject, InstanceConnectionDim) (st, since, incident) =
     (st \<in> {Joined, Interrupted, Down} \<and> (since = None \<longleftrightarrow> st = Joined) \<and>
      (st = Joined \<longrightarrow> incident = None) \<and> (st = Interrupted \<longrightarrow> incident \<noteq> None))"
| "view_ok _ _ = True"

definition key_ok :: "status_key \<Rightarrow> 'm status_db_scheme \<Rightarrow> bool" where
  "key_ok k db \<longleftrightarrow>
     open_view k db = map_option fst (condition_view k db) \<and>
     (case condition_view k db of None \<Rightarrow> True | Some v \<Rightarrow> view_ok k v)"

definition status_inv :: "'m status_db_scheme \<Rightarrow> bool" where
  "status_inv db \<longleftrightarrow> status_wf db \<and> (\<forall>k. key_ok k db)"

lemma status_inv_keeps: "status_inv db \<Longrightarrow> keeps_views db db' \<Longrightarrow> status_inv db'"
  by (simp add: status_inv_def keeps_views_def key_ok_def grows_def)

lemma status_inv_moves:
  "status_inv db \<Longrightarrow> moves_key key v db db' \<Longrightarrow> view_ok key v \<Longrightarrow> status_inv db'"
  by (simp add: status_inv_def moves_key_def key_ok_def grows_def)

lemma status_inv_condition:
  assumes "status_inv db" and "find_condition org s d db = Some c"
  shows "view_ok (org, s, d) (sc_state c, sc_failureStartedAt c, sc_activeIncidentId c)"
    and "open_view (org, s, d) db = Some (sc_state c)"
proof -
  have v: "condition_view (org, s, d) db = Some (sc_state c, sc_failureStartedAt c, sc_activeIncidentId c)"
    using assms(2) by (simp add: condition_view_def find_condition_at)
  have k: "key_ok (org, s, d) db" using assms(1) by (simp add: status_inv_def)
  show "view_ok (org, s, d) (sc_state c, sc_failureStartedAt c, sc_activeIncidentId c)"
    using k v by (simp add: key_ok_def)
  show "open_view (org, s, d) db = Some (sc_state c)"
    using k v by (simp add: key_ok_def)
qed

text \<open>Transactions.\<close>

lemma in_transaction_Inr: "m db = (Inr x, db') \<Longrightarrow> in_transaction m db = (Inr x, db')"
  by (simp add: in_transaction_def)

lemma keeps_views_rollback:
  assumes "m db = (Inl e, db')" and "grows db db'"
  shows "fst (in_transaction m db) = Inl e" and "keeps_views db (snd (in_transaction m db))"
proof -
  have r: "in_transaction m db = (Inl e, db\<lparr>nano_next := nano_next db', clock_next := clock_next db'\<rparr>)"
    using assms(1) by (simp add: in_transaction_def)
  have "grows db (db\<lparr>nano_next := nano_next db', clock_next := clock_next db'\<rparr>)"
    using assms(2) by (intro grows_same_tables) (simp_all add: grows_def)
  then show "fst (in_transaction m db) = Inl e" "keeps_views db (snd (in_transaction m db))"
    using r by (simp_all add: keeps_views_def)
qed

subsection \<open>Recording a probe\<close>

definition host_reach :: "ident \<Rightarrow> ident \<Rightarrow> 'm status_db_scheme \<Rightarrow> reachability_current" where
  "host_reach org h db = reachability_current_of (find_condition org (HostSubject h) HostReachabilityDim db)"

definition reach_of_view :: "condition_view option \<Rightarrow> reachability_current" where
  "reach_of_view v =
     (case v of
        None \<Rightarrow> unobserved_reachability
      | Some (st, since, _) \<Rightarrow>
          \<lparr>rc_state = (if st = Up then RUp else if st = Suspect then RSuspect else if st = Down then RDown else RUnknown),
           rc_failureStartedAt = since\<rparr>)"

lemma host_reach_view: "host_reach org h db = reach_of_view (condition_view (host_key org h) db)"
  by (simp add: host_reach_def reachability_current_of_def reach_of_view_def condition_view_def
      find_condition_at split: option.split)

lemma host_reach_ok: "status_inv db \<Longrightarrow> reach_ok (host_reach org h db)"
proof -
  assume "status_inv db"
  then have k: "key_ok (host_key org h) db" by (simp add: status_inv_def)
  show ?thesis
  proof (cases "condition_view (host_key org h) db")
    case None
    then show ?thesis by (simp add: host_reach_view reach_of_view_def)
  next
    case (Some v)
    then show ?thesis using k
      by (cases v) (auto simp: host_reach_view reach_of_view_def reach_ok_def key_ok_def)
  qed
qed

lemma unchanged_decision:
  assumes "reach_ok c" and "\<not> rd_changed (next_reachability c reached now)"
  shows "current_of_decision (next_reachability c reached now) = c"
  using assms
  by (cases c; cases "rc_state c") (auto simp: reach_ok_def reach_defs Let_def split: if_splits)

lemma changed_decision_view:
  assumes ok: "reach_ok c" and "rd_changed (next_reachability c reached now)"
    and inc: "rd_state (next_reachability c reached now) = RDown \<longleftrightarrow> inc \<noteq> None"
  shows "view_ok (host_key org h)
     (reachability_as_state (rd_state (next_reachability c reached now)),
      rd_failureStartedAt (next_reachability c reached now), inc)"
proof -
  have "reach_ok (current_of_decision (next_reachability c reached now))"
    using ok by (rule next_reachability_ok)
  moreover have "rd_state (next_reachability c reached now) \<noteq> RUnknown"
    using assms(2) by (cases "rc_state c") (auto simp: reach_defs Let_def)
  ultimately show ?thesis using inc
    by (cases "rd_state (next_reachability c reached now)") (auto simp: reach_ok_def current_of_decision_def)
qed

lemma suspect_only_from_fine:
  "rd_changed (next_reachability c reached now) \<Longrightarrow> rd_state (next_reachability c reached now) = RSuspect \<Longrightarrow>
     rc_state c \<in> {RUp, RUnknown}"
  by (cases "rc_state c") (auto simp: reach_defs Let_def split: if_splits)

lemma record_host_reachability_step:
  fixes db :: "'q app_db"
  assumes inv: "status_inv db"
  shows "(\<exists>e db'. record_host_reachability send carrier org ob db = (Inl e, db') \<and> keeps_views db db' \<and> \<not> obliging send) \<or>
    (\<exists>db' now. record_host_reachability send carrier org ob db = (Inr (), db') \<and> status_inv db' \<and>
       now = clock db (clock_next db) \<and>
       host_reach org (ob_hostId ob) db' =
         current_of_decision (next_reachability (host_reach org (ob_hostId ob) db) (ob_reached ob) now))"
proof -
  let ?now = "clock db (clock_next db)" and ?db = "db\<lparr>clock_next := Suc (clock_next db)\<rparr>"
  let ?ex = "find_condition org (HostSubject (ob_hostId ob)) HostReachabilityDim ?db"
  let ?c = "reachability_current_of ?ex"
  let ?d = "next_reachability ?c (ob_reached ob) ?now"
  have kv: "keeps_views db ?db" by simp
  have inv': "status_inv ?db" using status_inv_keeps [OF inv kv] .
  have ex: "find_condition org s d ?db = find_condition org s d db" for s d
    by (simp add: find_condition_def)
  have reach: "?c = host_reach org (ob_hostId ob) db" by (simp add: host_reach_def ex)
  have ok: "reach_ok ?c" unfolding reach using host_reach_ok [OF inv] .
  define body where "body = (\<lambda>db1 :: 'q app_db.
    let existing = find_condition org (HostSubject (ob_hostId ob)) HostReachabilityDim db1;
        decision = next_reachability (reachability_current_of existing) (ob_reached ob) ?now
    in case (rd_changed decision, existing) of
         (False, Some c) \<Rightarrow> (Inr (), touch_condition org (sc_id c) ?now db1)
       | _ \<Rightarrow> host_change send carrier org ob ?now existing decision db1)"
  have rec: "record_host_reachability send carrier org ob db = in_transaction body ?db"
    by (simp add: record_host_reachability_def Let_def read_now_def body_def)
  show ?thesis
  proof (cases "\<not> rd_changed ?d \<and> ?ex \<noteq> None")
    case True
    then obtain c where c: "?ex = Some c" by blast
    have b: "body ?db = (Inr (), touch_condition org (sc_id c) ?now ?db)"
      using True c by (simp add: body_def Let_def)
    have kt: "keeps_views db (touch_condition org (sc_id c) ?now ?db)"
      using keeps_views_trans [OF kv] by (simp add: keeps_views_def)
    have "host_reach org (ob_hostId ob) (touch_condition org (sc_id c) ?now ?db) = host_reach org (ob_hostId ob) db"
      using kt by (simp add: host_reach_view keeps_views_def)
    then show ?thesis
      using rec in_transaction_Inr [of body ?db, OF b] status_inv_keeps [OF inv kt] unchanged_decision [OF ok] True reach
      by auto
  next
    case False
    have ch: "rd_changed ?d"
      using False by (cases "?ex = None") (auto simp: reachability_current_of_def unobserved_reachability_def reach_defs Let_def)
    have b: "body ?db = host_change send carrier org ob ?now ?ex ?d ?db"
      using ch by (simp add: body_def Let_def)
    let ?active = "case ?ex of None \<Rightarrow> None | Some c \<Rightarrow> sc_activeIncidentId c"
    from host_change_result [of send carrier org ob ?now ?ex ?d ?db]
    consider (bad) e where "fst (body ?db) = Inl e" "keeps_views ?db (snd (body ?db))" "\<not> obliging send"
      | (good) "fst (body ?db) = Inr ()"
        "moves_key (host_key org (ob_hostId ob))
           (reachability_as_state (rd_state ?d), rd_failureStartedAt ?d,
            if rd_state ?d = RUp then None else fst (host_incident (rd_state ?d) ?active ?db))
           ?db (snd (body ?db))"
      unfolding b by blast
    then show ?thesis
    proof cases
      case bad
      have b1: "body ?db = (Inl e, snd (body ?db))" using bad(1) by (metis prod.collapse)
      have "grows ?db (snd (body ?db))" using bad(2) by (simp add: keeps_views_def)
      from keeps_views_rollback [of body ?db, OF b1 this] have "fst (in_transaction body ?db) = Inl e"
        and k2: "keeps_views ?db (snd (in_transaction body ?db))" by simp_all
      then show ?thesis using rec keeps_views_trans [OF kv k2] bad(3) by (metis prod.collapse)
    next
      case good
      let ?v = "(reachability_as_state (rd_state ?d), rd_failureStartedAt ?d,
            if rd_state ?d = RUp then None else fst (host_incident (rd_state ?d) ?active ?db))"
      have b1: "body ?db = (Inr (), snd (body ?db))" using good(1) by (metis prod.collapse)
      have active: "?active = None" if "rd_state ?d = RSuspect"
      proof (cases ?ex)
        case (Some c)
        have "rc_state ?c \<in> {RUp, RUnknown}" using suspect_only_from_fine [OF ch that] .
        then show ?thesis using Some status_inv_condition(1) [OF inv' Some]
          by (auto simp: reachability_current_of_def split: if_splits)
      qed simp
      have inc: "rd_state ?d = RDown \<longleftrightarrow>
          (if rd_state ?d = RUp then None else fst (host_incident (rd_state ?d) ?active ?db)) \<noteq> None"
        using host_incident_fst [of "rd_state ?d" ?active ?db] active ch
        by (cases "rd_state ?d") (auto simp: reach_defs Let_def split: if_splits)
      have v: "view_ok (host_key org (ob_hostId ob)) ?v"
        using changed_decision_view [OF ok ch inc] .
      have m: "moves_key (host_key org (ob_hostId ob)) ?v db (snd (body ?db))"
        using keeps_moves [OF kv good(2)] .
      have "host_reach org (ob_hostId ob) (snd (body ?db)) = current_of_decision ?d"
        using m v by (cases "rd_state ?d")
          (auto simp: host_reach_view moves_key_def reach_of_view_def current_of_decision_def)
      then show ?thesis
        using rec in_transaction_Inr [of body ?db, OF b1] status_inv_moves [OF inv m v] reach by auto
    qed
  qed
qed

end
