(* ===== verification/StatusMachine.thy ===== *)
theory StatusMachine
  imports StatusInvariant
begin

text \<open>
  The invariant carried through escalation and through recorded connection changes, and the state
  machine of the status log: every database reached from an empty one satisfies it.
\<close>

section \<open>Source keys\<close>

text \<open>
  An escalation's key has one colon, as identifiers have none; the keys of the other events have
  more.
\<close>

definition no_colon :: "string \<Rightarrow> bool" where
  "no_colon i \<longleftrightarrow> CHR '':'' \<notin> set i"

definition ordinary_key :: "ident \<times> status_source \<times> string \<Rightarrow> bool" where
  "ordinary_key k \<longleftrightarrow> (\<forall>i. no_colon i \<longrightarrow> snd (snd k) \<noteq> escalation_key_for i)"

lemma colons_escalation: "no_colon i \<Longrightarrow> count_list (escalation_key_for i) (CHR '':'') = 1"
  by (simp add: escalation_key_for_def no_colon_def count_list_0_iff)

lemma ordinary_keyI: "2 \<le> count_list (snd (snd k)) (CHR '':'') \<Longrightarrow> ordinary_key k"
  using colons_escalation by (force simp: ordinary_key_def)

lemma ordinary_connection_key: "ordinary_key (org, src, connection_key inst t kind)"
  by (rule ordinary_keyI) (simp add: connection_key_def)

lemma ordinary_flap_key: "ordinary_key (org, src, flap_key inst t)"
  by (rule ordinary_keyI) (simp add: flap_key_def)

section \<open>Steps that only log\<close>

definition logs :: "(ident \<times> status_source \<times> string) set \<Rightarrow> 'm status_db_scheme \<Rightarrow> 'm status_db_scheme \<Rightarrow> bool" where
  "logs K db db' \<longleftrightarrow> keeps_views db db' \<and> event_keys db' \<subseteq> event_keys db \<union> K"

lemma logs_refl [simp]: "logs K db db"
  by (simp add: logs_def)

lemma logs_trans: "logs K a b \<Longrightarrow> logs L b c \<Longrightarrow> logs (K \<union> L) a c"
  by (auto simp: logs_def intro: keeps_views_trans)

lemma logs_mono: "logs K a b \<Longrightarrow> K \<subseteq> L \<Longrightarrow> logs L a b"
  by (auto simp: logs_def)

lemma logs_supplies [simp]: "logs K db (db\<lparr>clock_next := n\<rparr>)" "logs K db (db\<lparr>nano_next := Suc (nano_next db)\<rparr>)"
  by (auto simp: logs_def event_keys_def)

lemma logs_same_status: "same_status db db' \<Longrightarrow> logs K db db'"
  by (auto simp: logs_def event_keys_def keeps_views_same_status same_status_def)

lemma logs_record_event: "logs (set_option (event_source_key org v)) db (snd (record_event org v db))"
  by (simp add: logs_def keeps_views_record_event event_keys_record)

lemma logs_claim_flapping: "logs K db (snd (claim_flapping org i t c db))"
  by (auto simp: logs_def keeps_views_def event_keys_def claim_flapping_def Let_def
      intro: views_claim_flapping [of _ org i t c db, unfolded claim_flapping_def Let_def snd_conv]
             grows_claim_flapping [of db org i t c, unfolded claim_flapping_def Let_def snd_conv])

lemma logs_record_and_announce:
  "logs (set_option (event_source_key org v)) db (snd (record_and_announce send carrier org v i db))"
proof -
  obtain r db1 where r: "record_event org v db = (r, db1)" by (metis surj_pair)
  have "event_keys (snd (announce send carrier org ev db1)) = event_keys db1" for ev
    using same_status_announce [of db1 send carrier org ev] by (simp add: same_status_def event_keys_def)
  then have "event_keys (snd (record_and_announce send carrier org v i db)) \<subseteq> event_keys db1"
    using r by (auto simp: record_and_announce_def split: option.splits prod.splits sum.splits) (metis snd_conv)+
  moreover have "event_keys db1 = event_keys db \<union> set_option (event_source_key org v)"
    using event_keys_record [of org v db] r by simp
  ultimately show ?thesis by (simp add: logs_def keeps_views_record_and_announce)
qed

lemma logs_change_event:
  "logs {k. ordinary_key k} db (snd (change_event send carrier org inst change i db))"
proof (cases "ch_event change")
  case None
  then show ?thesis by (simp add: change_event_def)
next
  case (Some kind)
  let ?db = "db\<lparr>clock_next := Suc (Suc (clock_next db))\<rparr>"
  have "logs {k. ordinary_key k} ?db (snd (record_and_announce send carrier org v i ?db))"
    if "set_option (event_source_key org v) \<subseteq> {k. ordinary_key k}" for v
    using logs_mono [OF logs_record_and_announce that] .
  then have "logs ({k. ordinary_key k} \<union> {k. ordinary_key k}) db (snd (record_and_announce send carrier org v i ?db))"
    if "set_option (event_source_key org v) \<subseteq> {k. ordinary_key k}" for v
    using logs_trans [OF logs_supplies(1)] that by blast
  then show ?thesis using Some
    by (simp add: change_event_def read_now_def Let_def event_source_key_def instance_event_def ordinary_connection_key)
qed

lemma obliging_change_event:
  "obliging send \<Longrightarrow> \<exists>x db'. change_event send carrier org inst change i db = (Inr x, db')"
  by (simp add: change_event_def read_now_def Let_def obliging_record_and_announce split: option.split)

lemma logs_schedule_escalation: "logs K db (snd (schedule_escalation send org inst opened i db))"
proof -
  have s: "logs K db (snd (send_job send q p t db))" for q p t
    by (rule logs_same_status) simp
  show ?thesis
    using s by (auto simp: schedule_escalation_def split: bool.splits option.splits prod.splits sum.splits)
      (metis snd_conv)+
qed

lemma obliging_schedule_escalation:
  assumes "obliging send"
  shows "\<exists>db'. schedule_escalation send org inst opened i db = (Inr (), db')"
proof (cases "opened \<and> i \<noteq> None")
  case True
  then obtain i' where i: "i = Some i'" "opened" by blast
  obtain j db' where "send_job send StatusEscalateQueue
      [(''organizationId'', org), (''instanceId'', in_id inst), (''incidentId'', i')]
      (Some (ceil_div instance_interrupted_to_down_ms 1000)) db = (Inr (Some j), db')"
    using obliging_send_job [OF assms] by blast
  then show ?thesis using i by (simp add: schedule_escalation_def)
next
  case False
  then show ?thesis by (auto simp: schedule_escalation_def split: bool.splits option.splits)
qed

lemma logs_note_flapping:
  "logs {k. ordinary_key k} db (snd (note_flapping send carrier org inst change opn i db))"
proof -
  let ?K = "{k. ordinary_key k}"
  have rec: "logs ?K db (snd (claim_and_note_flapping send carrier org inst t c i db))" for t c
  proof -
    let ?r = "claim_flapping org (sc_id c) t flapping_window_ms db"
    let ?db1 = "snd ?r" and ?db3 = "(snd ?r)\<lparr>clock_next := Suc (Suc (clock_next (snd ?r)))\<rparr>"
    let ?v = "instance_event inst InstanceFlapping t (clock ?db1 (clock_next ?db1))
      (clock ?db1 (Suc (clock_next ?db1))) i (flap_key inst t)"
    have "logs (?K \<union> ?K) db ?db3" by (rule logs_trans [OF logs_claim_flapping logs_supplies(1)])
    moreover have "logs ?K ?db3 (snd (record_and_announce send carrier org ?v None ?db3))"
      by (rule logs_mono [OF logs_record_and_announce])
        (simp add: event_source_key_def instance_event_def ordinary_flap_key)
    ultimately have "logs (?K \<union> ?K \<union> ?K) db (snd (record_and_announce send carrier org ?v None ?db3))"
      by (rule logs_trans)
    moreover have "snd (claim_and_note_flapping send carrier org inst t c i db) =
        (if fst ?r then snd (record_and_announce send carrier org ?v None ?db3) else ?db1)"
      by (auto simp: claim_and_note_flapping_def Let_def read_now_def case_prod_beta split: sum.split)
    ultimately show ?thesis using logs_claim_flapping [of ?K db org "sc_id c" t flapping_window_ms]
      by (auto split: if_splits)
  qed
  then show ?thesis by (simp add: note_flapping_def Let_def split: option.split)
qed

lemma obliging_note_flapping:
  assumes "obliging send"
  shows "\<exists>db'. note_flapping send carrier org inst change opn i db = (Inr (), db')"
proof -
  have "\<exists>x db'. record_and_announce send carrier org v j d = (Inr x, db')" for v j d
    by (rule obliging_record_and_announce [OF assms])
  then have "fst (record_and_announce send carrier org v j d) \<noteq> Inl e" for v j d e
    by (metis fst_conv sum.distinct(1))
  then have "\<exists>db'. claim_and_note_flapping send carrier org inst t c i db = (Inr (), db')" for t c
    by (auto simp: claim_and_note_flapping_def Let_def read_now_def case_prod_beta split: sum.split)
  then show ?thesis by (simp add: note_flapping_def Let_def split: option.split)
qed

section \<open>The escalation invariant\<close>

definition incident_at :: "status_key \<Rightarrow> 'm status_db_scheme \<Rightarrow> ident option" where
  "incident_at k db = (case condition_view k db of None \<Rightarrow> None | Some (_, _, i) \<Rightarrow> i)"

definition escalated :: "ident \<Rightarrow> ident \<Rightarrow> 'm status_db_scheme \<Rightarrow> bool" where
  "escalated org i db \<longleftrightarrow> (org, JournalSource, escalation_key_for i) \<in> event_keys db"

text \<open>
  Identifiers have no colon; an incident belongs to one key and was issued; only issued incidents
  were escalated; and an interrupted bot's incident has not been escalated yet.
\<close>

definition esc_inv :: "'m status_db_scheme \<Rightarrow> bool" where
  "esc_inv db \<longleftrightarrow>
     (\<forall>n. no_colon (nano_supply db n)) \<and>
     (\<forall>k i. incident_at k db = Some i \<longrightarrow> issued db i) \<and>
     (\<forall>k k' i. incident_at k db = Some i \<longrightarrow> incident_at k' db = Some i \<longrightarrow> k = k') \<and>
     (\<forall>org i. no_colon i \<longrightarrow> escalated org i db \<longrightarrow> issued db i) \<and>
     (\<forall>org s i f. condition_view (org, s, InstanceConnectionDim) db = Some (Interrupted, f, Some i) \<longrightarrow>
        \<not> escalated org i db)"

lemma esc_invD:
  assumes "esc_inv db"
  shows "no_colon (nano_supply db n)"
    and "incident_at k db = Some i \<Longrightarrow> issued db i"
    and "incident_at k db = Some i \<Longrightarrow> incident_at k' db = Some i \<Longrightarrow> k = k'"
    and "no_colon i \<Longrightarrow> escalated org i db \<Longrightarrow> issued db i"
    and "condition_view (org, s, InstanceConnectionDim) db = Some (Interrupted, f, Some i) \<Longrightarrow> \<not> escalated org i db"
  using assms unfolding esc_inv_def by blast+

lemma issued_no_colon: "esc_inv db \<Longrightarrow> issued db i \<Longrightarrow> no_colon i"
  by (auto simp: esc_inv_def issued_def)

lemma grows_issued: "grows db db' \<Longrightarrow> issued db i \<Longrightarrow> issued db' i"
  by (auto simp: grows_def intro: issued_mono)

lemma escalated_ordinary:
  "event_keys db' \<subseteq> event_keys db \<union> {k. ordinary_key k} \<Longrightarrow> no_colon i \<Longrightarrow> escalated org i db' \<Longrightarrow> escalated org i db"
  by (force simp: escalated_def ordinary_key_def)

lemma esc_inv_logs:
  assumes inv: "esc_inv db" and l: "logs {k. ordinary_key k} db db'"
  shows "esc_inv db'"
proof -
  have g: "grows db db'" and v: "\<And>k. condition_view k db' = condition_view k db"
    and e: "event_keys db' \<subseteq> event_keys db \<union> {k. ordinary_key k}"
    using l unfolding logs_def keeps_views_def by blast+
  have s: "nano_supply db' = nano_supply db" using g by (simp add: grows_def)
  have i: "incident_at k db' = incident_at k db" for k by (simp add: incident_at_def v)
  have esc: "no_colon i \<Longrightarrow> escalated org i db' \<Longrightarrow> escalated org i db" for org i
    by (rule escalated_ordinary [OF e])
  show ?thesis unfolding esc_inv_def
  proof (intro conjI allI impI)
    fix n show "no_colon (nano_supply db' n)" using inv s by (simp add: esc_inv_def)
  next
    fix k j assume "incident_at k db' = Some j"
    then show "issued db' j" using i esc_invD(2) [OF inv] grows_issued [OF g] by auto
  next
    fix k k' j assume "incident_at k db' = Some j" "incident_at k' db' = Some j"
    then show "k = k'" using inv i unfolding esc_inv_def by metis
  next
    fix org j assume "no_colon j" "escalated org j db'"
    then show "issued db' j" using esc_invD(4) [OF inv] esc grows_issued [OF g] by blast
  next
    fix org s j f
    assume "condition_view (org, s, InstanceConnectionDim) db' = Some (Interrupted, f, Some j)"
    then have c: "condition_view (org, s, InstanceConnectionDim) db = Some (Interrupted, f, Some j)" by (simp add: v)
    then have "incident_at (org, s, InstanceConnectionDim) db = Some j" by (simp add: incident_at_def)
    then have "issued db j" using esc_invD(2) [OF inv] by blast
    then have "no_colon j" using issued_no_colon [OF inv] by blast
    then show "\<not> escalated org j db'" using esc_invD(5) [OF inv c] esc by blast
  qed
qed

definition fresh_or_kept :: "status_key \<Rightarrow> ident option \<Rightarrow> bool \<Rightarrow> 'm status_db_scheme \<Rightarrow> 'm status_db_scheme \<Rightarrow> bool" where
  "fresh_or_kept key inc interrupted db db' \<longleftrightarrow>
     inc = None \<or> (inc = incident_at key db \<and> \<not> interrupted) \<or>
     (\<exists>i. inc = Some i \<and> \<not> issued db i \<and> issued db' i)"

lemma esc_inv_moves:
  assumes inv: "esc_inv db" and m: "moves_key key (st, f, inc) db db'"
    and e: "event_keys db' \<subseteq> event_keys db \<union> {k. ordinary_key k}"
    and inc: "fresh_or_kept key inc (snd (snd key) = InstanceConnectionDim \<and> st = Interrupted) db db'"
  shows "esc_inv db'"
proof -
  have g: "grows db db'"
    and v: "\<And>k. condition_view k db' = (if k = key then Some (st, f, inc) else condition_view k db)"
    using m unfolding moves_key_def by blast+
  have s: "nano_supply db' = nano_supply db" using g by (simp add: grows_def)
  have i: "incident_at k db' = (if k = key then inc else incident_at k db)" for k
    by (simp add: incident_at_def v)
  have esc: "no_colon i \<Longrightarrow> escalated org i db' \<Longrightarrow> escalated org i db" for org i
    by (rule escalated_ordinary [OF e])
  have old: "incident_at k db = Some j \<Longrightarrow> issued db j" for k j using esc_invD(2) [OF inv] .
  have inc_issued: "inc = Some j \<Longrightarrow> issued db' j" for j
    using inc old [of key j] grows_issued [OF g] by (auto simp: fresh_or_kept_def)
  show ?thesis unfolding esc_inv_def
  proof (intro conjI allI impI)
    fix n show "no_colon (nano_supply db' n)" using inv s by (simp add: esc_inv_def)
  next
    fix k j assume "incident_at k db' = Some j"
    then show "issued db' j" using i old inc_issued grows_issued [OF g] by (auto split: if_splits)
  next
    fix k k' j assume a: "incident_at k db' = Some j" "incident_at k' db' = Some j"
    have uniq: "incident_at k db = Some j \<Longrightarrow> incident_at k' db = Some j \<Longrightarrow> k = k'" for k k' j
      using inv unfolding esc_inv_def by metis
    have "k2 = key" if "inc = Some j" "incident_at k2 db = Some j" for k2
    proof -
      have "issued db j" using old that(2) by blast
      then have "inc = incident_at key db" using inc that(1) by (auto simp: fresh_or_kept_def)
      then show ?thesis using uniq that by metis
    qed
    then show "k = k'" using a i uniq by (metis)
  next
    fix org j assume "no_colon j" "escalated org j db'"
    then show "issued db' j" using esc_invD(4) [OF inv] esc grows_issued [OF g] by blast
  next
    fix org s j f'
    assume c: "condition_view (org, s, InstanceConnectionDim) db' = Some (Interrupted, f', Some j)"
    show "\<not> escalated org j db'"
    proof (cases "(org, s, InstanceConnectionDim) = key")
      case True
      then have "inc = Some j" "st = Interrupted" using c v by simp_all
      then have j: "\<not> issued db j" "issued db' j" using inc True by (auto simp: fresh_or_kept_def)
      have "no_colon j" using j(2) esc_invD(1) [OF inv] s unfolding issued_def by auto
      then show ?thesis using j(1) esc esc_invD(4) [OF inv] by blast
    next
      case False
      then have c': "condition_view (org, s, InstanceConnectionDim) db = Some (Interrupted, f', Some j)"
        using c v by simp
      then have "incident_at (org, s, InstanceConnectionDim) db = Some j" by (simp add: incident_at_def)
    then have "issued db j" using esc_invD(2) [OF inv] by blast
      then have "no_colon j" using issued_no_colon [OF inv] by blast
      then show ?thesis using esc_invD(5) [OF inv c'] esc by blast
    qed
  qed
qed

text \<open>The tables of the log that entering a state leaves alone.\<close>

lemma event_keys_simps [simp]:
  "event_keys (snd (close_open_interval org s d t e db)) = event_keys db"
  "event_keys (snd (open_interval org s d st t e db)) = event_keys db"
  "event_keys (upsert_condition org s d patch t db) = event_keys db"
  "event_keys (touch_condition org i t db) = event_keys db"
  "event_keys (snd (claim_escalation org i inc st t db)) = event_keys db"
  "event_keys (db\<lparr>nano_next := n\<rparr>) = event_keys db"
  "event_keys (db\<lparr>clock_next := n\<rparr>) = event_keys db"
  by (simp_all add: event_keys_def close_open_interval_def open_interval_def upsert_condition_def
      touch_condition_def claim_escalation_def Let_def nanoid_def)

section \<open>Recording connection changes\<close>

abbreviation instance_key :: "ident \<Rightarrow> ident \<Rightarrow> status_key" where
  "instance_key org i \<equiv> (org, InstanceSubject i, InstanceConnectionDim)"

definition log_inv :: "'m status_db_scheme \<Rightarrow> bool" where
  "log_inv db \<longleftrightarrow> status_inv db \<and> esc_inv db"

lemma log_inv_logs: "log_inv db \<Longrightarrow> logs {k. ordinary_key k} db db' \<Longrightarrow> log_inv db'"
  unfolding log_inv_def logs_def [of _ db db'] by (metis esc_inv_logs logs_def status_inv_keeps)

lemma enter_connection_moves:
  "\<exists>db'. enter_connection org inst change incidentId eventId db = (Inr (), db') \<and>
     moves_key (instance_key org (in_id inst))
       (connection_as_state (ch_state change),
        if ch_state change = CJoined then None else Some (ch_at change), incidentId) db db' \<and>
     event_keys db' = event_keys db"
proof -
  let ?s = "InstanceSubject (in_id inst)" and ?st = "connection_as_state (ch_state change)"
  let ?c = "close_open_interval org ?s InstanceConnectionDim (ch_at change) eventId db"
  define startAt where "startAt = (case fst ?c of None \<Rightarrow> ch_at change
     | Some r \<Rightarrow> (case si_endedAt r of None \<Rightarrow> ch_at change
                 | Some e \<Rightarrow> if ch_at change < e then e else ch_at change))"
  let ?o = "open_interval org ?s InstanceConnectionDim ?st startAt eventId (snd ?c)"
  note o = close_open_enter [OF refl, where org = org and s = ?s and d = InstanceConnectionDim and t = "ch_at change"
      and e = eventId and db = db and st = ?st and t' = startAt and e' = eventId]
  obtain r where r: "?o = (Inr r, snd ?o)" using o(1) by blast
  let ?db' = "upsert_condition org ?s InstanceConnectionDim
     \<lparr>cp_state = ?st, cp_observedAt = clock (snd ?o) (clock_next (snd ?o)),
      cp_failureStartedAt = (if ch_state change = CJoined then None else Some (ch_at change)),
      cp_activeIncidentId = incidentId\<rparr> (ch_at change) ((snd ?o)\<lparr>clock_next := Suc (clock_next (snd ?o))\<rparr>)"
  have "enter_connection org inst change incidentId eventId db = (Inr (), ?db')"
    using r unfolding enter_connection_def Let_def startAt_def [symmetric] read_now_def
    by (cases ?c; cases ?o) (auto simp: startAt_def)
  moreover have "grows db ?db'"
    by (rule grows_trans [OF o(2) grows_trans [OF grows_clock grows_upsert]])
  ultimately show ?thesis using o(3,4) by (simp add: moves_key_def)
qed

text \<open>What a change does to the incident: a join ends it, an interruption opens a fresh one.\<close>

definition incident_after ::
    "connection_state \<Rightarrow> ident option \<Rightarrow> 'm status_db_scheme \<Rightarrow> ident option" where
  "incident_after st current db =
     (case st of CJoined \<Rightarrow> None | CInterrupted \<Rightarrow> Some (nano_supply db (nano_next db)) | _ \<Rightarrow> current)"

text \<open>
  The changes a bot's journal gives, from the connection state on record: no interruption of a bot
  that is interrupted or down.
\<close>

definition change_follows :: "connection_state \<Rightarrow> connection_change \<Rightarrow> bool" where
  "change_follows st c \<longleftrightarrow>
     ch_state c \<in> {CJoined, CInterrupted, CDown} \<and>
     (ch_state c = CInterrupted \<longrightarrow> st \<notin> {CInterrupted, CDown}) \<and>
     (ch_event c \<in> {Some InstanceJoined, Some InstanceReconnected} \<longrightarrow> ch_state c = CJoined)"

fun changes_follow :: "connection_state \<Rightarrow> connection_change list \<Rightarrow> bool" where
  "changes_follow st [] = True"
| "changes_follow st (c # cs) = (change_follows st c \<and> changes_follow (ch_state c) cs)"

lemma changes_loop_follow: "changes_follow st (changes_loop st ss)"
proof (induction ss arbitrary: st)
  case Nil
  then show ?case by simp
next
  case (Cons s ss)
  then show ?case by (cases s) (auto simp: change_follows_def)
qed

lemma changes_loop_follow_escalated: "changes_follow CDown (changes_loop CInterrupted ss)"
proof (induction ss)
  case Nil
  then show ?case by simp
next
  case (Cons s ss)
  then show ?case using changes_loop_follow
    by (cases s) (auto simp: change_follows_def)
qed

text \<open>The connection state on record.\<close>

definition recorded_connection :: "ident \<Rightarrow> ident \<Rightarrow> 'm status_db_scheme \<Rightarrow> connection_state" where
  "recorded_connection org i db =
     (case condition_view (instance_key org i) db of
        None \<Rightarrow> CUnknown
      | Some (st, _, _) \<Rightarrow>
          (if st = Joined then CJoined else if st = Interrupted then CInterrupted
           else if st = Down then CDown else if st = NeverJoined then CNeverJoined else CUnknown))"

lemma current_connection_state: "cc_state (current_connection org i db) = recorded_connection org i db"
  by (simp add: current_connection_def recorded_connection_def condition_view_def find_condition_at
      unobserved_connection_def split: option.split)

lemma recorded_incident:
  assumes "status_inv db" and "recorded_connection org i db \<notin> {CInterrupted, CDown}"
  shows "incident_at (instance_key org i) db = None"
proof (cases "condition_view (instance_key org i) db")
  case None
  then show ?thesis by (simp add: incident_at_def)
next
  case (Some v)
  have "key_ok (instance_key org i) db" using assms(1) by (simp add: status_inv_def)
  then show ?thesis using Some assms(2)
    by (cases v) (auto simp: key_ok_def incident_at_def recorded_connection_def split: if_splits)
qed

lemma apply_change_step:
  fixes db :: "'q app_db"
  assumes inv: "log_inv db" and f: "change_follows (recorded_connection org (in_id inst) db) c"
    and cur: "current = incident_at (instance_key org (in_id inst)) db"
  shows "(\<exists>e db'. apply_change send carrier org inst opn current c db = (Inl e, db') \<and> grows db db' \<and> \<not> obliging send) \<or>
    (\<exists>i db'. apply_change send carrier org inst opn current c db = (Inr i, db') \<and> log_inv db' \<and> grows db db' \<and>
       recorded_connection org (in_id inst) db' = ch_state c \<and>
       i = incident_at (instance_key org (in_id inst)) db')"
proof -
  let ?key = "instance_key org (in_id inst)"
  let ?K = "{k. ordinary_key k}"
  obtain d db1 where n: "next_incident current (ch_state c) (ch_event c) nanoid db = (d, db1)" by (metis surj_pair)
  have none: "current = None" if "ch_state c = CInterrupted"
    using recorded_incident inv f that cur by (auto simp: log_inv_def change_follows_def)
  have d: "idec_incidentId d = incident_after (ch_state c) current db"
    using n none f by (auto simp: next_incident_def incident_after_def change_follows_def closing_events_def nanoid_def
        split: option.splits connection_state.splits if_splits)
  have db1: "db1 = db \<or> db1 = db\<lparr>nano_next := Suc (nano_next db)\<rparr>"
    and db1i: "ch_state c = CInterrupted \<Longrightarrow> db1 = db\<lparr>nano_next := Suc (nano_next db)\<rparr>"
    using n none f by (auto simp: next_incident_def nanoid_def change_follows_def closing_events_def
        split: option.splits if_splits)
  have l1: "logs ?K db db1" using db1 by auto
  obtain ev db2 where ev: "change_event send carrier org inst c (incident_of_event d) db1 = (ev, db2)" by (metis surj_pair)
  have l2: "logs ?K db db2"
    using logs_trans [OF l1 logs_change_event [of db1 send carrier org inst c "incident_of_event d"]] ev by simp
  obtain sch db3 where sch: "schedule_escalation send org inst (idec_opened d) (idec_incidentId d) db2 = (sch, db3)" by (metis surj_pair)
  have l3: "logs ?K db db3"
    using logs_trans [OF l2 logs_schedule_escalation [of ?K db2 send org inst "idec_opened d" "idec_incidentId d"]] sch by simp
  obtain fl db4 where fl: "note_flapping send carrier org inst c opn (idec_incidentId d) db3 = (fl, db4)" by (metis surj_pair)
  have l4: "logs ?K db db4"
    using logs_trans [OF l3 logs_note_flapping [where db = db3 and send = send and carrier = carrier and org = org and inst = inst and change = c and opn = opn and i = "idec_incidentId d"]] fl by simp
  have g: "logs ?K db x \<Longrightarrow> grows db x" for x by (simp add: logs_def keeps_views_def)
  show ?thesis
  proof (cases ev)
    case (Inl e)
    then show ?thesis using n ev g [OF l2] obliging_change_event [of send carrier org inst c "incident_of_event d" db1]
      by (auto simp: apply_change_def Let_def)
  next
    case (Inr event)
    note ev1 = Inr
    show ?thesis
    proof (cases sch)
      case (Inl e)
      then show ?thesis using n ev ev1 sch g [OF l3]
          obliging_schedule_escalation [of send org inst "idec_opened d" "idec_incidentId d" db2]
        by (auto simp: apply_change_def Let_def)
    next
      case (Inr u)
      note sch1 = Inr
      show ?thesis
      proof (cases fl)
        case (Inl e)
        then show ?thesis using n ev ev1 sch sch1 fl g [OF l4]
            obliging_note_flapping [of send carrier org inst c opn "idec_incidentId d" db3]
          by (auto simp: apply_change_def Let_def)
      next
        case (Inr u')
        let ?v = "(connection_as_state (ch_state c), if ch_state c = CJoined then None else Some (ch_at c), idec_incidentId d)"
        obtain db5 where e: "enter_connection org inst c (idec_incidentId d) (map_option ev_id event) db4 = (Inr (), db5)"
          and m: "moves_key ?key ?v db4 db5" and k: "event_keys db5 = event_keys db4"
          using enter_connection_moves by blast
        have res: "apply_change send carrier org inst opn current c db = (Inr (idec_incidentId d), db5)"
          using n ev ev1 sch sch1 fl Inr e by (simp add: apply_change_def Let_def)
        have m': "moves_key ?key ?v db db5" using keeps_moves [OF _ m] l4 by (simp add: logs_def)
        have g5: "grows db db5" using m' by (simp add: moves_key_def)
        have st: "ch_state c \<in> {CJoined, CInterrupted, CDown}" using f by (simp add: change_follows_def)
        have fresh: "\<not> issued db (nano_supply db (nano_next db))" 
          using inv not_issued_next [of db] by (simp add: log_inv_def status_inv_def status_wf_def)
        have "issued db5 (nano_supply db (nano_next db))" if "ch_state c = CInterrupted"
        proof -
          have "issued db1 (nano_supply db (nano_next db))" using db1i [OF that] by (auto simp: issued_def)
          moreover have "grows db1 db4"
            using logs_trans [OF logs_trans [OF logs_change_event [of db1 send carrier org inst c "incident_of_event d"]
                logs_schedule_escalation [of ?K _ send org inst "idec_opened d" "idec_incidentId d"]]
                logs_note_flapping [where send = send and carrier = carrier and org = org and inst = inst and change = c and opn = opn and i = "idec_incidentId d"]] ev sch fl
            by (simp add: logs_def keeps_views_def)
          moreover have "grows db4 db5" using m by (simp add: moves_key_def)
          ultimately show ?thesis using grows_issued by blast
        qed
        then have fk: "fresh_or_kept ?key (idec_incidentId d)
            (snd (snd ?key) = InstanceConnectionDim \<and> connection_as_state (ch_state c) = Interrupted) db db5"
          using d cur fresh st by (auto simp: fresh_or_kept_def incident_after_def)
        have esc: "esc_inv db5"
          using esc_inv_moves [OF _ m' _ fk] inv l4 k by (simp add: log_inv_def logs_def)
        have "view_ok ?key ?v"
        proof -
          have "status_inv db" using inv by (simp add: log_inv_def)
          then show ?thesis using st d by (auto simp: incident_after_def)
        qed
        then have "log_inv db5"
          using status_inv_moves [OF _ m'] inv esc by (simp add: log_inv_def)
        moreover have "recorded_connection org (in_id inst) db5 = ch_state c"
          using m' st by (auto simp: recorded_connection_def moves_key_def)
        moreover have "idec_incidentId d = incident_at ?key db5"
          using m' by (simp add: incident_at_def moves_key_def)
        ultimately show ?thesis using res g5 by blast
      qed
    qed
  qed
qed

lemma apply_changes_steps:
  fixes db :: "'q app_db"
  assumes "log_inv db" and "changes_follow (recorded_connection org (in_id inst) db) cs"
    and "current = incident_at (instance_key org (in_id inst)) db"
  shows "(\<exists>e db'. apply_changes send carrier org inst opn current cs db = (Inl e, db') \<and> grows db db' \<and> \<not> obliging send) \<or>
    (\<exists>db'. apply_changes send carrier org inst opn current cs db = (Inr (), db') \<and> log_inv db' \<and> grows db db' \<and>
       recorded_connection org (in_id inst) db' = state_after (recorded_connection org (in_id inst) db) cs)"
  using assms
proof (induction cs arbitrary: db current)
  case Nil
  then show ?case by simp
next
  case (Cons c cs)
  from apply_change_step [OF Cons.prems(1) _ Cons.prems(3), of c send carrier opn] Cons.prems(2)
  consider (bad) e db1 where "apply_change send carrier org inst opn current c db = (Inl e, db1)" "grows db db1" "\<not> obliging send"
    | (good) i db1 where "apply_change send carrier org inst opn current c db = (Inr i, db1)" "log_inv db1" "grows db db1"
       "recorded_connection org (in_id inst) db1 = ch_state c" "i = incident_at (instance_key org (in_id inst)) db1"
    by auto
  then show ?case
  proof cases
    case bad
    then show ?thesis by simp
  next
    case good
    have "changes_follow (recorded_connection org (in_id inst) db1) cs"
      using Cons.prems(2) good(4) by simp
    from Cons.IH [OF good(2) this good(5)] show ?thesis
      using good grows_trans [OF good(3)] by (auto; blast)
  qed
qed

lemma rollback_log:
  assumes "m db = (Inl e, db')" and "grows db db'"
  shows "fst (in_transaction m db) = Inl e" and "logs K db (snd (in_transaction m db))"
proof -
  show "fst (in_transaction m db) = Inl e" using keeps_views_rollback(1) [of m db, OF assms] .
  have "event_keys (snd (in_transaction m db)) = event_keys db"
    using assms(1) by (simp add: in_transaction_def event_keys_def)
  then show "logs K db (snd (in_transaction m db))"
    using keeps_views_rollback(2) [of m db, OF assms] by (simp add: logs_def)
qed

text \<open>
  What the recorder is given: the changes of signals from the state it read, where the escalation
  may have moved the bot from interrupted to down since.
\<close>

definition changes_observed ::
    "ident \<Rightarrow> ident \<Rightarrow> connection_change list \<Rightarrow> 'm status_db_scheme \<Rightarrow> bool" where
  "changes_observed org i cs db \<longleftrightarrow>
     (\<exists>current signals. cs = changes_from_signals current signals \<and>
        (cc_state current = recorded_connection org i db \<or>
         (cc_state current = CInterrupted \<and> recorded_connection org i db = CDown)))"

lemma changes_observed_follow: "changes_observed org i cs db \<Longrightarrow> changes_follow (recorded_connection org i db) cs"
  using changes_loop_follow changes_loop_follow_escalated
  by (fastforce simp: changes_observed_def changes_from_signals_def)

lemma record_instance_connection_step:
  fixes db :: "'q app_db"
  assumes inv: "log_inv db" and f: "changes_follow (recorded_connection org (in_id inst) db) cs"
  shows "(\<exists>e db'. record_instance_connection send carrier org inst cs db = (Inl e, db') \<and> logs {k. ordinary_key k} db db' \<and> \<not> obliging send) \<or>
    (\<exists>db'. record_instance_connection send carrier org inst cs db = (Inr (), db') \<and> log_inv db' \<and>
       recorded_connection org (in_id inst) db' = state_after (recorded_connection org (in_id inst) db) cs)"
proof (cases "cs = []")
  case True
  then show ?thesis using inv by (simp add: record_instance_connection_def)
next
  case False
  let ?opn = "find_condition org (InstanceSubject (in_id inst)) InstanceConnectionDim db"
  let ?cur = "case ?opn of None \<Rightarrow> None | Some c \<Rightarrow> sc_activeIncidentId c"
  define m where "m = (\<lambda>db :: 'q app_db.
    let opn = find_condition org (InstanceSubject (in_id inst)) InstanceConnectionDim db in
    apply_changes send carrier org inst opn (case opn of None \<Rightarrow> None | Some c \<Rightarrow> sc_activeIncidentId c) cs db)"
  have rec: "record_instance_connection send carrier org inst cs db = in_transaction m db"
    using False by (simp add: record_instance_connection_def m_def)
  have mdb: "m db = apply_changes send carrier org inst ?opn ?cur cs db" by (simp add: m_def Let_def)
  have cur: "?cur = incident_at (instance_key org (in_id inst)) db"
    by (simp add: incident_at_def condition_view_def find_condition_at split: option.split)
  from apply_changes_steps [OF inv f cur, of send carrier ?opn]
  show ?thesis
  proof (elim disjE exE conjE)
    fix e db' assume a: "apply_changes send carrier org inst ?opn ?cur cs db = (Inl e, db')" "grows db db'" "\<not> obliging send"
    have md: "m db = (Inl e, db')" using a(1) mdb by simp
    show ?thesis using rec rollback_log [of m db, OF md a(2)] a(3) by (metis prod.collapse)
  next
    fix db' assume a: "apply_changes send carrier org inst ?opn ?cur cs db = (Inr (), db')" "log_inv db'"
      "recorded_connection org (in_id inst) db' = state_after (recorded_connection org (in_id inst) db) cs"
    have md: "m db = (Inr (), db')" using a(1) mdb by simp
    show ?thesis using rec in_transaction_Inr [of m db, OF md] a(2,3) by simp
  qed
qed

section \<open>Escalation\<close>

lemma fresh_escalation_recorded:
  assumes "\<not> escalated org i db"
  shows "\<exists>ev db'. record_event org (instance_event inst kind t t1 t2 (Some i) (escalation_key_for i)) db = (Some ev, db')"
proof -
  have "fst (record_event org (instance_event inst kind t t1 t2 (Some i) (escalation_key_for i)) db) \<noteq> None"
    using assms by (auto simp: record_event_fst escalated_def event_source_key_def instance_event_def)
  then show ?thesis by (metis not_None_eq prod.collapse)
qed

lemma esc_inv_escalate:
  assumes inv: "esc_inv db" and c: "condition_view key db = Some (Interrupted, f, Some i)"
    and m: "moves_key key (Down, f, Some i) db db'"
    and e: "event_keys db' = event_keys db \<union> {(fst key, JournalSource, escalation_key_for i)}"
  shows "esc_inv db'"
proof -
  have g: "grows db db'"
    and v: "\<And>k. condition_view k db' = (if k = key then Some (Down, f, Some i) else condition_view k db)"
    using m unfolding moves_key_def by blast+
  have s: "nano_supply db' = nano_supply db" using g by (simp add: grows_def)
  have inc: "incident_at k db' = incident_at k db" for k using c by (simp add: incident_at_def v)
  have ik: "incident_at key db = Some i" using c by (simp add: incident_at_def)
  have iss: "issued db i" using esc_invD(2) [OF inv ik] .
  have esc: "escalated org j db' \<longleftrightarrow> escalated org j db \<or> (org = fst key \<and> j = i)" for org j
    using e by (auto simp: escalated_def escalation_key_for_def)
  show ?thesis unfolding esc_inv_def
  proof (intro conjI allI impI)
    fix n show "no_colon (nano_supply db' n)" using esc_invD(1) [OF inv] s by simp
  next
    fix k j assume "incident_at k db' = Some j"
    then show "issued db' j" using inc esc_invD(2) [OF inv] grows_issued [OF g] by auto
  next
    fix k k' j assume "incident_at k db' = Some j" "incident_at k' db' = Some j"
    then show "k = k'" using inc esc_invD(3) [OF inv] by metis
  next
    fix org j assume "no_colon j" "escalated org j db'"
    then show "issued db' j" using esc esc_invD(4) [OF inv] iss grows_issued [OF g] by blast
  next
    fix org s j f'
    assume "condition_view (org, s, InstanceConnectionDim) db' = Some (Interrupted, f', Some j)"
    then have c': "condition_view (org, s, InstanceConnectionDim) db = Some (Interrupted, f', Some j)"
      and ne: "(org, s, InstanceConnectionDim) \<noteq> key" using v by (auto split: if_splits)
    have "incident_at (org, s, InstanceConnectionDim) db = Some j" using c' by (simp add: incident_at_def)
    then have "j \<noteq> i" using esc_invD(3) [OF inv _ ik] ne by metis
    then show "\<not> escalated org j db'" using esc esc_invD(5) [OF inv c'] by blast
  qed
qed

lemma as_connection_state_Interrupted: "as_connection_state Interrupted = Some CInterrupted"
  by (simp add: as_connection_state_def connection_states_def)

lemma as_connection_state_CInterrupted: "as_connection_state st = Some CInterrupted \<longleftrightarrow> st = Interrupted"
  by (cases st) (simp_all add: as_connection_state_def connection_states_def)

text \<open>
  The escalation of an interruption that outlasted its grace: it is recorded, the bot becomes down
  with its incident kept, and the key is used up.
\<close>

lemma escalate_change_step:
  fixes db :: "'q app_db"
  assumes inv: "log_inv db"
    and c: "find_condition org (InstanceSubject (in_id inst)) InstanceConnectionDim db = Some c"
    and i: "sc_activeIncidentId c = Some i" and st: "sc_state c = Interrupted" and down: "ch_state change = CDown"
  shows "(\<exists>e db'. escalate_change send carrier org inst i (sc_id c) change db = (Inl e, db') \<and> grows db db' \<and> \<not> obliging send) \<or>
    (\<exists>db'. escalate_change send carrier org inst i (sc_id c) change db = (Inr True, db') \<and> log_inv db' \<and> grows db db' \<and>
       moves_key (instance_key org (in_id inst)) (Down, sc_failureStartedAt c, Some i) db db' \<and>
       event_keys db' = event_keys db \<union> {(org, JournalSource, escalation_key_for i)})"
proof -
  let ?key = "instance_key org (in_id inst)" and ?s = "InstanceSubject (in_id inst)"
  let ?db1 = "db\<lparr>clock_next := Suc (clock_next db)\<rparr>" and ?t = "clock db (clock_next db)"
  have st_wf: "status_wf db" using inv by (simp add: log_inv_def status_inv_def)
  have v: "condition_view ?key db = Some (Interrupted, sc_failureStartedAt c, Some i)"
    using c i st by (simp add: condition_view_def find_condition_at)
  have wf1: "status_wf ?db1" using st_wf grows_clock [of db] by (auto simp: grows_def)
  have c1: "condition_at ?key ?db1 = Some c" using c by (simp add: find_condition_at condition_at_def)
  let ?claim = "claim_escalation org (sc_id c) i Down ?t ?db1"
  note cl = claim_escalation_view [OF wf1 c1 _ i st, where org = org and st' = Down and t = ?t, simplified]
  let ?db2 = "snd ?claim"
  have g2: "grows db ?db2" using grows_trans [OF grows_clock grows_claim_escalation] .
  let ?db4 = "?db2\<lparr>clock_next := Suc (Suc (clock_next ?db2))\<rparr>"
  let ?v = "instance_event inst InstanceDisconnected (ch_at change) (clock ?db2 (clock_next ?db2))
     (clock ?db2 (Suc (clock_next ?db2))) (Some i) (escalation_key_for i)"
  have "\<not> escalated org i db" using esc_invD(5) inv v unfolding log_inv_def by blast
  then have ne: "\<not> escalated org i ?db4" by (simp add: escalated_def)
  obtain ev db5' where ev: "record_event org ?v ?db4 = (Some ev, db5')" using fresh_escalation_recorded [OF ne] by blast
  obtain r db5 where r: "record_and_announce send carrier org ?v (Some i) ?db4 = (r, db5)" by (metis surj_pair)
  have k5: "keeps_views ?db4 db5" using keeps_views_record_and_announce [of ?db4 send carrier org ?v "Some i"] r by simp
  have g4: "grows db ?db4" using grows_trans [OF g2 grows_clock] .
  have g5: "grows db db5" using grows_trans [OF g4] k5 by (simp add: keeps_views_def)
  have e5: "event_keys db5 = event_keys db \<union> {(org, JournalSource, escalation_key_for i)}"
  proof -
    have "event_keys (snd (announce send carrier org x db5')) = event_keys db5'" for x
      using same_status_announce [of db5' send carrier org x] by (simp add: same_status_def event_keys_def)
    then have "event_keys db5 = event_keys db5'"
      using r ev by (auto simp: record_and_announce_def split: prod.splits sum.splits) (metis snd_conv)+
    moreover have "event_keys db5' = event_keys ?db4 \<union> set_option (event_source_key org ?v)"
      using event_keys_record [of org ?v ?db4] ev by simp
    ultimately show ?thesis by (simp add: event_source_key_def instance_event_def)
  qed
  show ?thesis
  proof (cases r)
    case (Inl e)
    then show ?thesis using cl(1) r g5 obliging_record_and_announce [of send carrier org ?v "Some i" ?db4] down
      by (auto simp: escalate_change_def Let_def read_now_def case_prod_beta)
  next
    case (Inr x)
    have x: "x = Some ev" using r ev Inr by (auto simp: record_and_announce_def split: prod.splits sum.splits)
    let ?db6 = "snd (close_open_interval org ?s InstanceConnectionDim (ch_at change) (Some (ev_id ev)) db5)"
    let ?o = "open_interval org ?s InstanceConnectionDim Down (ch_at change) (Some (ev_id ev)) ?db6"
    note o = close_open_enter [OF refl, where org = org and s = ?s and d = InstanceConnectionDim
        and t = "ch_at change" and e = "Some (ev_id ev)" and db = db5 and st = Down and t' = "ch_at change"
        and e' = "Some (ev_id ev)"]
    obtain row where row: "?o = (Inr row, snd ?o)" using o(1) by blast
    have res: "escalate_change send carrier org inst i (sc_id c) change db = (Inr True, snd ?o)"
      using cl(1) r Inr x down
      by (simp add: escalate_change_def Let_def read_now_def case_prod_beta)
        (subst row, simp)
    have g: "grows db (snd ?o)" using grows_trans [OF g5 o(2)] .
    have m: "moves_key ?key (Down, sc_failureStartedAt c, Some i) db (snd ?o)"
      using g o(3,4) k5 cl(2) by (simp add: moves_key_def keeps_views_def)
    have e: "event_keys (snd ?o) = event_keys db \<union> {(org, JournalSource, escalation_key_for i)}"
      using e5 by simp
    have vo: "view_ok ?key (Interrupted, sc_failureStartedAt c, Some i)"
      using status_inv_condition(1) [OF _ c] inv i st by (simp add: log_inv_def)
    have "log_inv (snd ?o)"
      using status_inv_moves [OF _ m] esc_inv_escalate [OF _ v m] e inv vo by (simp add: log_inv_def)
    then show ?thesis using res g m e by blast
  qed
qed

lemma escalate_instance_step:
  fixes db :: "'q app_db"
  assumes inv: "log_inv db"
  shows "(\<exists>e db'. escalate_instance send carrier org inst i db = (Inl e, db') \<and> logs {} db db' \<and> \<not> obliging send) \<or>
    (\<exists>db'. escalate_instance send carrier org inst i db = (Inr False, db') \<and> logs {} db db') \<or>
    (\<exists>db'. escalate_instance send carrier org inst i db = (Inr True, db') \<and> log_inv db' \<and>
       incident_at (instance_key org (in_id inst)) db = Some i \<and>
       recorded_connection org (in_id inst) db = CInterrupted \<and>
       recorded_connection org (in_id inst) db' = CDown \<and>
       \<not> escalated org i db \<and> escalated org i db')"
proof -
  let ?key = "instance_key org (in_id inst)"
  define m where "m = (\<lambda>db :: 'q app_db.
       (case find_condition org (InstanceSubject (in_id inst)) InstanceConnectionDim db of
          None \<Rightarrow> (Inr False, db)
        | Some condition \<Rightarrow>
            (if sc_activeIncidentId condition \<noteq> Some i then (Inr False, db)
             else (case as_connection_state (sc_state condition) of
                None \<Rightarrow> (Inr False, db)
              | Some state \<Rightarrow>
                  (let (at1, db1) = read_now db in
                   case escalate_if_still_down
                          \<lparr>cc_state = state, cc_since = sc_failureStartedAt condition, cc_pid = None\<rparr> at1 of
                     None \<Rightarrow> (Inr False, db1)
                   | Some change \<Rightarrow>
                       escalate_change send carrier org inst i (sc_id condition) change db1)))))"
  have esc: "escalate_instance send carrier org inst i db = in_transaction m db"
    by (simp add: escalate_instance_def m_def)
  let ?db1 = "db\<lparr>clock_next := Suc (clock_next db)\<rparr>"
  have quiet: ?thesis if "m db = (Inr False, db')" "logs {} db db'" for db'
  proof -
    have "escalate_instance send carrier org inst i db = (Inr False, db')"
      using esc in_transaction_Inr [of m db, OF that(1)] by simp
    then show ?thesis using that(2) by blast
  qed
  show ?thesis
  proof (cases "find_condition org (InstanceSubject (in_id inst)) InstanceConnectionDim db")
    case None
    then show ?thesis by (intro quiet [of db]) (simp_all add: m_def)
  next
    case (Some c)
    note c = Some
    show ?thesis
    proof (cases "sc_activeIncidentId c = Some i")
      case False
      then show ?thesis using c by (intro quiet [of db]) (simp_all add: m_def)
    next
      case True
      note ic = True
      show ?thesis
      proof (cases "as_connection_state (sc_state c)")
        case None
        then show ?thesis using c ic by (intro quiet [of db]) (simp_all add: m_def)
      next
        case (Some st)
        let ?ch = "escalate_if_still_down \<lparr>cc_state = st, cc_since = sc_failureStartedAt c, cc_pid = None\<rparr> (clock db (clock_next db))"
        show ?thesis
        proof (cases ?ch)
          case None
          then show ?thesis using c ic Some by (intro quiet [of ?db1]) (simp_all add: m_def read_now_def)
        next
          case (Some ch)
          have stI: "st = CInterrupted" and down: "ch_state ch = CDown"
            using Some escalate_if_still_down_Some by (fastforce, fastforce)
          have sI: "sc_state c = Interrupted"
            using \<open>as_connection_state (sc_state c) = Some st\<close> stI as_connection_state_CInterrupted by simp
          have mdb: "m db = escalate_change send carrier org inst i (sc_id c) ch ?db1"
            using c ic \<open>as_connection_state (sc_state c) = Some st\<close> Some by (simp add: m_def read_now_def)
          have inv1: "log_inv ?db1" using log_inv_logs [OF inv] by simp
          have c1: "find_condition org (InstanceSubject (in_id inst)) InstanceConnectionDim ?db1 = Some c"
            using c by (simp add: find_condition_def)
          have v: "condition_view ?key db = Some (Interrupted, sc_failureStartedAt c, Some i)"
            using c ic sI by (simp add: condition_view_def find_condition_at)
          have before: "incident_at ?key db = Some i" "recorded_connection org (in_id inst) db = CInterrupted"
            using v by (simp_all add: incident_at_def recorded_connection_def)
          have ne: "\<not> escalated org i db" using esc_invD(5) [OF _ v] inv by (simp add: log_inv_def)
          have eq: "event_keys ?db1 = event_keys db" by simp
          from escalate_change_step [OF inv1 c1 ic sI down, of send carrier] show ?thesis
          proof (elim disjE exE conjE)
            fix e db' assume a: "escalate_change send carrier org inst i (sc_id c) ch ?db1 = (Inl e, db')" "grows ?db1 db'" "\<not> obliging send"
            have md: "m db = (Inl e, db')" using a(1) mdb by simp
            have "grows db db'" using grows_trans [OF grows_clock a(2)] .
            from rollback_log [of m db, OF md this] show ?thesis using esc a(3) by (metis prod.collapse)
          next
            fix db' assume a: "escalate_change send carrier org inst i (sc_id c) ch ?db1 = (Inr True, db')" "log_inv db'"
              "moves_key ?key (Down, sc_failureStartedAt c, Some i) ?db1 db'"
              "event_keys db' = event_keys ?db1 \<union> {(org, JournalSource, escalation_key_for i)}"
            have md: "m db = (Inr True, db')" using a(1) mdb by simp
            have "recorded_connection org (in_id inst) db' = CDown"
              using a(3) by (simp add: moves_key_def recorded_connection_def)
            moreover have "escalated org i db'" using a(4) by (simp add: escalated_def)
            ultimately show ?thesis using esc in_transaction_Inr [of m db, OF md] a(2) before ne by simp
          qed
        qed
      qed
    qed
  qed
qed

section \<open>Probes\<close>

lemma event_keys_record_optional_host:
  "event_keys (snd (record_optional send carrier org (map_option (\<lambda>k. host_event ob k now i) e) j db)) = event_keys db"
proof (cases e)
  case None
  then show ?thesis by (simp add: record_optional_def)
next
  case (Some k)
  have l: "logs {} db (snd (record_and_announce send carrier org (host_event ob k now i) j db))"
    using logs_record_and_announce [of org "host_event ob k now i" db send carrier j]
    by (simp add: event_source_key_def host_event_def)
  obtain r db1 where r: "record_event org (host_event ob k now i) db = (r, db1)" by (metis surj_pair)
  have "event_keys db1 = event_keys db"
    using event_keys_record [of org "host_event ob k now i" db] r by (simp add: event_source_key_def host_event_def)
  moreover have "event_keys (snd (announce send carrier org x db1)) = event_keys db1" for x
    using same_status_announce [of db1 send carrier org x] by (simp add: same_status_def event_keys_def)
  ultimately show ?thesis using r Some
    by (auto simp: record_optional_def record_and_announce_def split: option.splits prod.splits sum.splits)
      (metis snd_conv)+
qed

lemma event_keys_enter_state [simp]: "event_keys (snd (enter_state org s d patch t t' e db)) = event_keys db"
proof -
  obtain r db1 where o: "open_interval org s d (cp_state patch) t e db = (r, db1)" by (metis surj_pair)
  then have "event_keys db1 = event_keys db" by (metis event_keys_simps(2) snd_conv)
  then show ?thesis using o by (cases r) (simp_all add: enter_state_def)
qed

lemma host_change_from_incident:
  fixes db :: "'q app_db"
  defines "active existing \<equiv> (case existing of None \<Rightarrow> None | Some c \<Rightarrow> sc_activeIncidentId c)"
  shows "grows (snd (host_incident (rd_state decision) (active existing) db))
           (snd (host_change send carrier org ob now existing decision db))"
    and "event_keys (snd (host_change send carrier org ob now existing decision db)) = event_keys db"
proof -
  obtain inc db1 where h: "host_incident (rd_state decision) (active existing) db = (inc, db1)" by (metis surj_pair)
  let ?eid = "case inc of Some i \<Rightarrow> Some i | None \<Rightarrow> active existing"
  let ?v = "map_option (\<lambda>k. host_event ob k now ?eid) (rd_event decision)"
  obtain r db2 where r: "record_optional send carrier org ?v ?eid db1 = (r, db2)" by (metis surj_pair)
  have e1: "event_keys db1 = event_keys db"
    using h by (auto simp: host_incident_def Let_def nanoid_def split: if_splits option.splits)
  have g2: "grows db1 db2" and e2: "event_keys db2 = event_keys db1"
    using keeps_views_record_optional [of db1 send carrier org ?v ?eid]
      event_keys_record_optional_host [of send carrier org ob now ?eid "rd_event decision" ?eid db1] r
    by (simp_all add: keeps_views_def)
  have "grows db1 (snd (host_change send carrier org ob now existing decision db)) \<and>
      event_keys (snd (host_change send carrier org ob now existing decision db)) = event_keys db"
  proof (cases r)
    case (Inl e)
    then show ?thesis using h r g2 e1 e2 unfolding active_def by (simp add: host_change_def Let_def)
  next
    case (Inr ev)
    let ?patch = "\<lparr>cp_state = reachability_as_state (rd_state decision), cp_observedAt = now,
        cp_failureStartedAt = rd_failureStartedAt decision,
        cp_activeIncidentId = (if rd_state decision = RUp then None else inc)\<rparr>"
    let ?c = "snd (close_open_interval org (HostSubject (ob_hostId ob)) HostReachabilityDim now (map_option ev_id ev) db2)"
    have hc: "host_change send carrier org ob now existing decision db =
        enter_state org (HostSubject (ob_hostId ob)) HostReachabilityDim ?patch now now (map_option ev_id ev) ?c"
      using h r Inr unfolding active_def by (simp add: host_change_def Let_def)
    obtain db3 where e: "enter_state org (HostSubject (ob_hostId ob)) HostReachabilityDim ?patch now now (map_option ev_id ev) ?c = (Inr (), db3)"
      and m: "moves_key (host_key org (ob_hostId ob)) (cp_state ?patch, cp_failureStartedAt ?patch, cp_activeIncidentId ?patch) db2 db3"
      using enter_state_after_close [OF refl] by blast
    have "event_keys db3 = event_keys ?c" using e event_keys_enter_state by (metis snd_conv)
    then show ?thesis using hc e m grows_trans [OF g2] e1 e2 by (simp add: moves_key_def)
  qed
  then show "grows (snd (host_incident (rd_state decision) (active existing) db))
           (snd (host_change send carrier org ob now existing decision db))"
    and "event_keys (snd (host_change send carrier org ob now existing decision db)) = event_keys db"
    using h by simp_all
qed

lemma host_change_esc:
  fixes db :: "'q app_db"
  assumes inv: "esc_inv db" and wf: "status_wf db"
    and ex: "existing = find_condition org (HostSubject (ob_hostId ob)) HostReachabilityDim db"
    and ok: "fst (host_change send carrier org ob now existing decision db) = Inr ()"
  shows "esc_inv (snd (host_change send carrier org ob now existing decision db))"
proof -
  let ?active = "case existing of None \<Rightarrow> None | Some c \<Rightarrow> sc_activeIncidentId c"
  let ?h = "host_incident (rd_state decision) ?active db"
  let ?inc = "if rd_state decision = RUp then None else fst ?h"
  let ?key = "host_key org (ob_hostId ob)"
  let ?db' = "snd (host_change send carrier org ob now existing decision db)"
  have m: "moves_key ?key (reachability_as_state (rd_state decision), rd_failureStartedAt decision, ?inc) db ?db'"
    using host_change_result [of send carrier org ob now existing decision db] ok by auto
  have a: "?active = incident_at ?key db"
    using ex by (simp add: incident_at_def condition_view_def find_condition_at split: option.split)
  note from_inc = host_change_from_incident [where decision = decision and existing = existing and db = db and send = send
      and carrier = carrier and org = org and ob = ob and now = now]
  have fresh: "\<not> issued db (nano_supply db (nano_next db))" using wf not_issued_next [of db] by (simp add: status_wf_def)
  have "?inc = None \<or> ?inc = ?active \<or> (?inc = Some (nano_supply db (nano_next db)) \<and> snd ?h = db\<lparr>nano_next := Suc (nano_next db)\<rparr>)"
    by (auto simp: host_incident_def Let_def nanoid_def split: option.splits)
  then have "fresh_or_kept ?key ?inc (snd (snd ?key) = InstanceConnectionDim \<and> reachability_as_state (rd_state decision) = Interrupted) db ?db'"
  proof (elim disjE conjE)
    assume n: "?inc = Some (nano_supply db (nano_next db))" "snd ?h = db\<lparr>nano_next := Suc (nano_next db)\<rparr>"
    have "issued (snd ?h) (nano_supply db (nano_next db))" using n(2) by (auto simp: issued_def)
    then have "issued ?db' (nano_supply db (nano_next db))" using grows_issued [OF from_inc(1)] by blast
    then show ?thesis using n(1) fresh by (auto simp: fresh_or_kept_def)
  qed (auto simp: fresh_or_kept_def a)
  then show ?thesis using esc_inv_moves [OF inv m] from_inc(2) by auto
qed

lemma record_host_reachability_log:
  fixes db :: "'q app_db"
  assumes inv: "log_inv db"
  shows "log_inv (snd (record_host_reachability send carrier org ob db))"
proof -
  let ?now = "clock db (clock_next db)" and ?db = "db\<lparr>clock_next := Suc (clock_next db)\<rparr>"
  have inv1: "log_inv ?db" using log_inv_logs [OF inv] by simp
  define body where "body = (\<lambda>db1 :: 'q app_db.
    let existing = find_condition org (HostSubject (ob_hostId ob)) HostReachabilityDim db1;
        decision = next_reachability (reachability_current_of existing) (ob_reached ob) ?now
    in case (rd_changed decision, existing) of
         (False, Some c) \<Rightarrow> (Inr (), touch_condition org (sc_id c) ?now db1)
       | _ \<Rightarrow> host_change send carrier org ob ?now existing decision db1)"
  have rec: "record_host_reachability send carrier org ob db = in_transaction body ?db"
    by (simp add: record_host_reachability_def Let_def read_now_def body_def)
  let ?ex = "find_condition org (HostSubject (ob_hostId ob)) HostReachabilityDim ?db"
  let ?d = "next_reachability (reachability_current_of ?ex) (ob_reached ob) ?now"
  have si: "status_inv (snd (in_transaction body ?db))"
    using record_host_reachability_step [of db send carrier org ob] inv rec status_inv_keeps
    by (auto simp: log_inv_def)
  have es: "esc_inv (snd (in_transaction body ?db))"
  proof (cases "\<not> rd_changed ?d \<and> ?ex \<noteq> None")
    case True
    then obtain c where c: "?ex = Some c" by blast
    have b: "body ?db = (Inr (), touch_condition org (sc_id c) ?now ?db)"
      using True c by (simp add: body_def Let_def)
    have "logs {k. ordinary_key k} ?db (touch_condition org (sc_id c) ?now ?db)"
      by (simp add: logs_def keeps_views_def)
    then have "esc_inv (touch_condition org (sc_id c) ?now ?db)"
      using esc_inv_logs inv1 unfolding log_inv_def by blast
    then show ?thesis using in_transaction_Inr [of body ?db, OF b] by simp
  next
    case False
    have b: "body ?db = host_change send carrier org ob ?now ?ex ?d ?db"
      using False by (auto simp: body_def Let_def split: option.splits bool.splits)
    show ?thesis
    proof (cases "fst (body ?db)")
      case (Inl e)
      have b1: "body ?db = (Inl e, snd (body ?db))" using Inl by (metis prod.collapse)
      have "grows ?db (snd (body ?db))"
        using host_change_result [of send carrier org ob ?now ?ex ?d ?db] Inl b by (auto simp: keeps_views_def)
      from rollback_log(2) [of body ?db, OF b1 this] show ?thesis
        using esc_inv_logs inv1 unfolding log_inv_def by blast
    next
      case (Inr u)
      have b1: "body ?db = (Inr (), snd (body ?db))" using Inr by (metis old.unit.exhaust prod.collapse)
      have "esc_inv (snd (body ?db))" unfolding b
        by (rule host_change_esc) (use inv1 Inr b in \<open>auto simp: log_inv_def status_inv_def\<close>)
      then show ?thesis using in_transaction_Inr [of body ?db, OF b1] by simp
    qed
  qed
  show ?thesis using si es rec by (simp add: log_inv_def)
qed

section \<open>The state machine\<close>

text \<open>
  One step: an operation of the controller, a page or summary read, the queue or another part of the
  program at work on its own tables (\<open>outside\<close>, which may also advance the database's clock).
\<close>

definition outside_step :: "'q app_db \<Rightarrow> 'q app_db \<Rightarrow> bool" where
  "outside_step db db' \<longleftrightarrow>
     nano_supply db' = nano_supply db \<and> nano_next db \<le> nano_next db' \<and>
     statusConditions db' = statusConditions db \<and> statusIntervals db' = statusIntervals db \<and>
     statusEvents db' = statusEvents db"

inductive log_step :: "'q job_sender \<Rightarrow> payload \<Rightarrow> 'q app_db \<Rightarrow> 'q app_db \<Rightarrow> bool"
  for send :: "'q job_sender" and carrier :: payload where
  probe: "log_step send carrier db (snd (record_host_reachability send carrier org ob db))"
| changes: "changes_observed org (in_id inst) cs db \<Longrightarrow>
    log_step send carrier db (snd (record_instance_connection send carrier org inst cs db))"
| escalation: "log_step send carrier db (snd (escalate_instance send carrier org inst i db))"
| cursor: "log_step send carrier db (save_connection_cursor org i c db)"
| outside: "outside_step db db' \<Longrightarrow> log_step send carrier db db'"

inductive_cases log_stepE: "log_step send carrier db db'"

inductive reachable :: "'q job_sender \<Rightarrow> payload \<Rightarrow> 'q app_db \<Rightarrow> 'q app_db \<Rightarrow> bool"
  for send :: "'q job_sender" and carrier :: payload and db0 :: "'q app_db" where
  start: "reachable send carrier db0 db0"
| step: "reachable send carrier db0 db \<Longrightarrow> log_step send carrier db db' \<Longrightarrow> reachable send carrier db0 db'"

text \<open>An empty log whose supply gives each identifier once, none with a colon.\<close>

definition empty_log :: "'m status_db_scheme \<Rightarrow> bool" where
  "empty_log db \<longleftrightarrow>
     inj (nano_supply db) \<and> (\<forall>n. no_colon (nano_supply db n)) \<and>
     statusConditions db = [] \<and> statusIntervals db = [] \<and> statusEvents db = []"

lemma log_inv_empty: "empty_log db \<Longrightarrow> log_inv db"
  by (simp add: empty_log_def log_inv_def status_inv_def status_wf_def open_keys_def source_keys_def
      key_ok_def view_defs esc_inv_def incident_at_def escalated_def event_keys_def)

lemma log_inv_step:
  assumes "log_step send carrier db db'" and inv: "log_inv db"
  shows "log_inv db'"
  using assms(1)
proof cases
  case (probe org ob)
  then show ?thesis using record_host_reachability_log [OF inv] by simp
next
  case (changes org inst cs)
  then show ?thesis
    using record_instance_connection_step [OF inv changes_observed_follow [OF changes(2)], of send carrier]
      log_inv_logs [OF inv] by auto
next
  case (escalation org inst i)
  have "logs {} db d \<Longrightarrow> log_inv d" for d
    using log_inv_logs [OF inv] logs_mono by blast
  then show ?thesis using escalate_instance_step [OF inv, of send carrier org inst i] escalation by auto
next
  case (cursor org i c)
  have "logs {k. ordinary_key k} db (save_connection_cursor org i c db)"
    by (auto simp: save_connection_cursor_def read_now_def logs_def keeps_views_def write_cursor_def Let_def event_keys_def view_defs
        intro!: grows_same_tables)
  then show ?thesis using log_inv_logs [OF inv] cursor by blast
next
  case outside
  then have t: "nano_supply db' = nano_supply db" "nano_next db \<le> nano_next db'"
     "statusConditions db' = statusConditions db" "statusIntervals db' = statusIntervals db"
     "statusEvents db' = statusEvents db" by (simp_all add: outside_step_def)
  have "logs {k. ordinary_key k} db db'"
    using grows_same_tables [OF t] views_same_tables [OF t(3,4)] t(5)
    by (auto simp: logs_def keeps_views_def event_keys_def)
  then show ?thesis using log_inv_logs [OF inv] by blast
qed

lemma log_inv_reachable: "reachable send carrier db0 db \<Longrightarrow> empty_log db0 \<Longrightarrow> log_inv db"
  by (induction rule: reachable.induct) (auto simp: log_inv_empty intro: log_inv_step)

end
