(* ===== verification/Unit.thy ===== *)
theory Unit
  imports Prelude
begin

text \<open>
  \<open>packages/core/src/instance/unit.ts\<close>, \<open>host/profile.ts\<close> and \<open>host/deadline.ts\<close>: the shell commands
  run on a host for one bot, how values are quoted in them, and the parsers of what they print.

  A throw is the left of a sum. \<open>Buffer.byteLength(document, "utf8")\<close> counts one byte for a code
  unit below 128 and two for the others of \<open>string\<close>.
\<close>

section \<open>The user's services on a host\<close>

definition instances_path :: string where "instances_path = ''.local/share/open-mcc''"
definition instances_root :: string where "instances_root = CHR 0x22 # ''$HOME'' @ [CHR 0x22] @ ''/'' @ instances_path"
definition runtime_dir_prefix :: string where "runtime_dir_prefix = ''XDG_RUNTIME_DIR=/run/user/$(id -u) ''"

definition systemctl :: "string \<Rightarrow> string" where
  "systemctl arguments = runtime_dir_prefix @ ''systemctl --user '' @ arguments"

definition journalctl :: "string \<Rightarrow> string" where
  "journalctl arguments = runtime_dir_prefix @ ''journalctl --user '' @ arguments"

definition podman :: "string \<Rightarrow> string" where
  "podman arguments = runtime_dir_prefix @ ''podman '' @ arguments"

text \<open>\<open>/^\/[A-Za-z0-9._\-\/]*$/\<close>\<close>

definition is_usable_home :: "string \<Rightarrow> string \<Rightarrow> bool" where
  "is_usable_home home passwdHome =
     ((case home of [] \<Rightarrow> False
       | c # cs \<Rightarrow> c = CHR ''/'' \<and> list_all (\<lambda>c. is_alnum c \<or> c \<in> set ''._-/'') cs)
      \<and> home = passwdHome)"

definition with_deadline :: "nat \<Rightarrow> nat \<Rightarrow> string \<Rightarrow> string" where
  "with_deadline killAfterSeconds seconds command =
     ''timeout -k '' @ nat_string killAfterSeconds @ '' '' @ nat_string seconds @ '' '' @ command
     @ ''; s=$?; exit $s''"

definition ended_by_deadline :: "int \<Rightarrow> bool" where
  "ended_by_deadline exitCode = list_ex (\<lambda>code. code = exitCode) [124, 137]"

section \<open>Quoting\<close>

definition quote_char :: char where "quote_char = CHR 0x27"
definition backslash :: char where "backslash = CHR 0x5C"

definition shell_quote :: "string \<Rightarrow> string" where
  "shell_quote value =
     quote_char # concat (map (\<lambda>c. if c = quote_char then [quote_char, backslash, quote_char, quote_char] else [c]) value)
     @ [quote_char]"

section \<open>Instance identifiers\<close>

definition instance_id_ok :: "string \<Rightarrow> bool" where
  "instance_id_ok i \<longleftrightarrow> 1 \<le> length i \<and> length i \<le> 64 \<and> list_all (\<lambda>c. is_alnum c \<or> c = CHR ''_'' \<or> c = CHR ''-'') i"

definition validate_instance_id :: "string \<Rightarrow> thrown + string" where
  "validate_instance_id i =
     (if has_sub i ''%'' then
        Inl (internal_error
          (''Instance id must not contain '' @ [quote_char] @ ''%'' @ [quote_char] @ '', which systemd expands as a specifier''))
      else if \<not> instance_id_ok i then
        Inl (internal_error
          (''Instance id must be 1-64 characters of letters, digits, '' @ [quote_char] @ ''-'' @ [quote_char]
           @ '' and '' @ [quote_char] @ ''_'' @ [quote_char]))
      else Inr i)"

definition unit_name :: "string \<Rightarrow> thrown + string" where
  "unit_name i = rbind (validate_instance_id i) (\<lambda>v. Inr (''open-mcc@'' @ v))"

definition auth_unit_name :: "string \<Rightarrow> thrown + string" where
  "auth_unit_name i = rbind (validate_instance_id i) (\<lambda>v. Inr (''open-mcc-auth@'' @ v @ ''.service''))"

definition stop_auth_command :: "string \<Rightarrow> thrown + string" where
  "stop_auth_command i =
     rbind (auth_unit_name i) (\<lambda>name.
       let unit = shell_quote name in
       Inr (systemctl (''stop '' @ unit) @ '' || true; '' @ systemctl (''reset-failed '' @ unit) @ '' || true''))"

definition instance_dir :: "string \<Rightarrow> thrown + string" where
  "instance_dir i = rbind (validate_instance_id i) (\<lambda>v. Inr (instances_root @ ''/instances/'' @ v))"

section \<open>Environment and port files\<close>

definition live_control_token_env :: string where "live_control_token_env = ''MCC_MCP_AUTH_TOKEN''"

definition render_environment_file :: "string \<Rightarrow> thrown + string" where
  "render_environment_file token =
     (if \<not> (length token = 32 \<and> list_all is_lower_hex token) then
        Inl (internal_error ''The live control token must be 32 lowercase hex characters'')
      else Inr (live_control_token_env @ ''='' @ token @ [lf]))"

text \<open>\<open>/^[1-9][0-9]{0,4}$/\<close> of \<open>String(port)\<close>, for an integer \<open>port\<close>.\<close>

definition port_digits :: "string \<Rightarrow> bool" where
  "port_digits s =
     (case s of [] \<Rightarrow> False
      | c # cs \<Rightarrow> is_digit c \<and> c \<noteq> CHR ''0'' \<and> length cs \<le> 4 \<and> list_all is_digit cs)"

definition render_unit_env :: "int \<Rightarrow> thrown + string" where
  "render_unit_env port =
     (let digits = int_string port in
      if \<not> port_digits digits \<or> 65535 < port then
        Inl (internal_error ''The live control port must be a whole number from 1 to 65535'')
      else Inr (''OPEN_MCC_PORT='' @ digits @ [lf]))"

definition byte_length :: "string \<Rightarrow> nat" where
  "byte_length s = sum_list (map (\<lambda>c. if (of_char c :: nat) < 128 then 1 else 2) s)"

definition dquote :: char where "dquote = CHR 0x22"

definition config_file_name :: string where "config_file_name = ''MinecraftClient.ini''"

text \<open>\<open>"$t"\<close> and the like, between double quotes.\<close>

definition dq :: "string \<Rightarrow> string" where "dq s = [dquote] @ s @ [dquote]"

definition config_write_command :: "string \<Rightarrow> string \<Rightarrow> thrown + string" where
  "config_write_command i document =
     rbind (instance_dir i) (\<lambda>dir.
       let bytes = byte_length document in
       if bytes = 0 then
         Inl (internal_error
           ''The settings document must not be empty, which the byte check cannot tell from a lost channel'')
       else Inr (with_deadline 2 10 (''sh -c '' @ shell_quote (join_with ''; ''
         [''t=$(mktemp '' @ dir @ ''/config/.'' @ config_file_name @ ''.XXXXXX) || exit 1'',
          ''if cat > '' @ dq ''$t'' @ '' && [ '' @ dq (''$(wc -c < '' @ dq ''$t'' @ '')'') @ '' -eq ''
            @ nat_string bytes @ '' ] && mv -f -- '' @ dq ''$t'' @ '' '' @ dir @ ''/config/'' @ config_file_name
            @ ''; then exit 0; fi'',
          ''rm -f -- '' @ dq ''$t'',
          ''exit 1'']))))"

definition env_written :: string where "env_written = ''written''"
definition env_kept :: string where "env_kept = ''kept''"

definition answer_command :: "string \<Rightarrow> string" where
  "answer_command word = ''printf '' @ shell_quote (word @ [backslash] @ ''n'')"

definition env_write_command :: "string \<Rightarrow> string \<Rightarrow> int option \<Rightarrow> thrown + string" where
  "env_write_command i environment liveControlPort =
     (let bytes = byte_length environment;
          temp = ''t=$(mktemp '' @ dq ''$d'' @ ''/.env.XXXXXX) || exit 1'';
          received = ''cat > '' @ dq ''$t'' @ '' && [ '' @ dq (''$(wc -c < '' @ dq ''$t'' @ '')'') @ '' -eq ''
                     @ nat_string bytes @ '' ]'';
          renamed = ''mv -f -- '' @ dq ''$t'' @ '' '' @ dq ''$d'' @ ''/env'';
          written = answer_command env_written
      in rbind
           (case liveControlPort of
              None \<Rightarrow>
                Inr [temp, ''if '' @ received @ '' && '' @ renamed @ ''; then '' @ written
                       @ ''; else rm -f -- '' @ dq ''$t'' @ ''; exit 1; fi'']
            | Some port \<Rightarrow>
                rbind (render_unit_env port) (\<lambda>unitEnv.
                  Inr [temp,
                       ''u=$(mktemp '' @ dq ''$d'' @ ''/.unit.env.XXXXXX) || { rm -f -- '' @ dq ''$t'' @ ''; exit 1; }'',
                       ''if '' @ received @ '' && printf '' @ shell_quote ''%s'' @ '' '' @ shell_quote unitEnv
                         @ '' > '' @ dq ''$u'' @ '' && mv -f -- '' @ dq ''$u'' @ '' '' @ dq ''$d'' @ ''/unit.env && ''
                         @ renamed @ ''; then '' @ written @ ''; else rm -f -- '' @ dq ''$t'' @ '' '' @ dq ''$u''
                         @ ''; exit 1; fi'']))
           (\<lambda>steps. rbind (instance_dir i) (\<lambda>dir. Inr (join_with ''; '' ((''d='' @ dir) # steps)))))"

definition running_unit_states :: "string list" where
  "running_unit_states = [''active'', ''activating'', ''deactivating'', ''reloading'']"

definition env_write_unless_running_command :: "string \<Rightarrow> string \<Rightarrow> int \<Rightarrow> thrown + string" where
  "env_write_unless_running_command i environment liveControlPort =
     rbind (unit_name i) (\<lambda>name.
       let unit = shell_quote (name @ ''.service'');
           state = systemctl (''show -p ActiveState --value '' @ unit);
           kept = answer_command env_kept
       in rbind (env_write_command i environment (Some liveControlPort)) (\<lambda>write.
            Inr (''case '' @ dq (''$('' @ state @ '')'') @ '' in '' @ join_with ''|'' running_unit_states @ '') ''
                 @ kept @ '';; *) '' @ write @ '';; esac'')))"

section \<open>Answers\<close>

text \<open>The output without its last line end.\<close>

definition without_final_newline :: "string \<Rightarrow> string" where
  "without_final_newline output = (if ends_with output [lf] then butlast output else output)"

definition parse_env_write_answer :: "string \<Rightarrow> string option" where
  "parse_env_write_answer output =
     (let answer = without_final_newline output in
      if answer = env_written then Some env_written
      else if answer = env_kept then Some env_kept
      else None)"

definition start_unit_command :: "string \<Rightarrow> thrown + string" where
  "start_unit_command i =
     rbind (unit_name i) (\<lambda>name. rbind (auth_unit_name i) (\<lambda>signInName.
       let unit = shell_quote name; signIn = shell_quote signInName in
       Inr (systemctl (''start '' @ unit) @ '' && '' @ systemctl (''show -p ActiveState -p Result '' @ unit)
            @ '' && printf '' @ [quote_char] @ ''SignIn=%s'' @ [backslash] @ ''n'' @ [quote_char] @ '' ''
            @ dq (''$('' @ systemctl (''show -p ActiveState --value '' @ signIn) @ '')''))))"

text \<open>A line \<open>key=value\<close> of the keys given, its value accepted by \<open>ok\<close>.\<close>

definition key_line :: "string list \<Rightarrow> (string \<Rightarrow> bool) \<Rightarrow> string \<Rightarrow> (string \<times> string) option" where
  "key_line keys ok line =
     (case index_of (CHR ''='') line of
        None \<Rightarrow> None
      | Some n \<Rightarrow>
          (let k = take n line; v = drop (Suc n) line in
           if k \<in> set keys \<and> ok v then Some (k, v) else None))"

text \<open>\<open>[a-z][a-z-]*\<close>\<close>

definition is_lower_alpha :: "char \<Rightarrow> bool" where
  "is_lower_alpha c \<longleftrightarrow> 97 \<le> (of_char c :: nat) \<and> (of_char c :: nat) \<le> 122"

definition unit_word :: "string \<Rightarrow> bool" where
  "unit_word v =
     (case v of [] \<Rightarrow> False
      | c # cs \<Rightarrow> is_lower_alpha c \<and> list_all (\<lambda>c. is_lower_alpha c \<or> c = CHR ''-'') cs)"

fun read_key_lines ::
    "string list \<Rightarrow> (string \<Rightarrow> bool) \<Rightarrow> string list \<Rightarrow> (string \<times> string) list \<Rightarrow> (string \<times> string) list option" where
  "read_key_lines keys ok [] values = Some values"
| "read_key_lines keys ok (line # rest) values =
     (case key_line keys ok line of
        None \<Rightarrow> None
      | Some (k, v) \<Rightarrow>
          if map_of values k \<noteq> None then None
          else read_key_lines keys ok rest (values @ [(k, v)]))"

record unit_start_state =
  us_activeState :: string
  us_result :: string
  us_signIn :: string

definition parse_unit_start_state :: "string \<Rightarrow> unit_start_state option" where
  "parse_unit_start_state output =
     (let ls = split_on lf (without_final_newline output) in
      if length ls \<noteq> 3 then None
      else (case read_key_lines [''ActiveState'', ''Result'', ''SignIn''] unit_word ls [] of
         None \<Rightarrow> None
       | Some values \<Rightarrow>
           (case (map_of values ''ActiveState'', map_of values ''Result'', map_of values ''SignIn'') of
              (Some a, Some r, Some s) \<Rightarrow> Some \<lparr>us_activeState = a, us_result = r, us_signIn = s\<rparr>
            | _ \<Rightarrow> None)))"

definition unit_exit_command :: "string \<Rightarrow> thrown + string" where
  "unit_exit_command i =
     rbind (unit_name i) (\<lambda>name.
       Inr (systemctl (''show -p ExecMainStatus -p Result '' @ shell_quote (name @ ''.service''))))"

text \<open>\<open>/^(?:0|[1-9][0-9]{0,2})$/\<close>\<close>

definition exit_status :: "string \<Rightarrow> bool" where
  "exit_status s \<longleftrightarrow>
     s = ''0'' \<or>
     (case s of [] \<Rightarrow> False
      | c # cs \<Rightarrow> is_digit c \<and> c \<noteq> CHR ''0'' \<and> length cs \<le> 2 \<and> list_all is_digit cs)"

definition plain_text :: "string \<Rightarrow> bool" where
  "plain_text v \<longleftrightarrow> v \<noteq> [] \<and> list_all (\<lambda>c. c \<noteq> lf \<and> c \<noteq> cr) v"

record unit_exit_state =
  ux_execMainStatus :: nat
  ux_result :: string

definition parse_unit_exit_state :: "string \<Rightarrow> unit_exit_state option" where
  "parse_unit_exit_state output =
     (let ls = split_on lf (without_final_newline output) in
      if length ls \<noteq> 2 then None
      else (case read_key_lines [''ExecMainStatus'', ''Result''] plain_text ls [] of
         None \<Rightarrow> None
       | Some values \<Rightarrow>
           (case (map_of values ''ExecMainStatus'', map_of values ''Result'') of
              (Some status, Some r) \<Rightarrow>
                if \<not> exit_status status \<or> \<not> unit_word r then None
                else Some \<lparr>ux_execMainStatus = number_of status, ux_result = r\<rparr>
            | _ \<Rightarrow> None)))"

section \<open>Laying an instance out\<close>

record layout_step =
  ls_command :: string
  ls_failure :: string
  ls_stdin :: "string option"

definition instance_layout_steps :: "string \<Rightarrow> int \<Rightarrow> string \<Rightarrow> string \<Rightarrow> thrown + layout_step list" where
  "instance_layout_steps i liveControlPort liveControlToken configDocument =
     rbind (instance_dir i) (\<lambda>dir.
     rbind (render_environment_file liveControlToken) (\<lambda>environment.
     rbind (render_unit_env liveControlPort) (\<lambda>unitEnv.
     rbind (env_write_command i environment None) (\<lambda>envWrite.
     rbind (config_write_command i configDocument) (\<lambda>configWrite.
       Inr [\<lparr>ls_command = ''install -d -m 0700 '' @ dir @ '' '' @ dir @ ''/config '' @ dir @ ''/state '' @ dir
               @ ''/replays '' @ dir @ ''/recording-cache'',
             ls_failure = ''Failed to create the instance directories'', ls_stdin = None\<rparr>,
            \<lparr>ls_command = ''(test -p '' @ dir @ ''/control || mkfifo -m 0600 '' @ dir @ ''/control) && (umask 077; : > ''
               @ dir @ ''/collect.lock && printf '' @ shell_quote ''%s'' @ '' '' @ shell_quote unitEnv @ '' > '' @ dir
               @ ''/unit.env)'',
             ls_failure = ''Failed to create the control fifo, the collector lock and the port file'', ls_stdin = None\<rparr>,
            \<lparr>ls_command = envWrite, ls_failure = ''Failed to write the instance environment'',
             ls_stdin = Some environment\<rparr>,
            \<lparr>ls_command = configWrite, ls_failure = ''Failed to write the instance config'',
             ls_stdin = Some configDocument\<rparr>])))))"

section \<open>Lemmas\<close>

text \<open>
  How a POSIX shell reads one word made of quoted and plain parts: between single quotes every
  character stands for itself, a backslash outside them takes the next character literally, and a
  plain character must not be one the shell treats specially.
\<close>

definition shell_special :: "string" where
  "shell_special = [lf, CHR 0x09, CHR 0x20, dquote] @ ''$`&|;<>()*?[]#~=%{}!''"

fun shell_word :: "bool \<Rightarrow> string \<Rightarrow> string option" where
  "shell_word quoted [] = (if quoted then None else Some [])"
| "shell_word True (c # cs) =
     (if c = quote_char then shell_word False cs else map_option ((#) c) (shell_word True cs))"
| "shell_word False (c # cs) =
     (if c = quote_char then shell_word True cs
      else if c = backslash then (case cs of [] \<Rightarrow> None | d # ds \<Rightarrow> map_option ((#) d) (shell_word False ds))
      else if c \<in> set shell_special then None
      else map_option ((#) c) (shell_word False cs))"

lemma shell_word_body:
  "shell_word True
     (concat (map (\<lambda>c. if c = quote_char then [quote_char, backslash, quote_char, quote_char] else [c]) value) @ [quote_char] @ r) =
   map_option ((@) value) (shell_word False r)"
proof (induction "value")
  case Nil
  then show ?case by (simp add: option.map_ident)
next
  case (Cons c cs)
  have "quote_char \<noteq> backslash" by (simp add: quote_char_def backslash_def)
  then show ?case using Cons.IH by (auto simp: option.map_comp comp_def)
qed

lemma shell_quote_word: "shell_word False (shell_quote value @ r) = map_option ((@) value) (shell_word False r)"
  by (simp add: shell_quote_def shell_word_body [simplified])

lemma instance_id_chars: "instance_id_ok i \<Longrightarrow> list_all (\<lambda>c. is_alnum c \<or> c = CHR ''_'' \<or> c = CHR ''-'') i"
  by (simp add: instance_id_ok_def)

lemma instance_id_no_percent: "instance_id_ok i \<Longrightarrow> \<not> has_sub i ''%''"
  by (auto simp: has_sub_iff instance_id_ok_def is_alnum_def is_alpha_def is_digit_def)

lemma validate_instance_id_Inr: "validate_instance_id i = Inr v \<longleftrightarrow> instance_id_ok i \<and> v = i"
  using instance_id_no_percent by (auto simp: validate_instance_id_def)

lemma unit_name_Inr: "unit_name i = Inr v \<longleftrightarrow> instance_id_ok i \<and> v = ''open-mcc@'' @ i"
  by (auto simp: unit_name_def rbind_Inr validate_instance_id_Inr)

text \<open>A word of the safe alphabet is read as itself, quoted or not.\<close>

lemma shell_word_plain:
  "list_all (\<lambda>c. is_alnum c \<or> c = CHR ''_'' \<or> c = CHR ''-'' \<or> c = CHR ''@'' \<or> c = CHR ''.'') w \<Longrightarrow> shell_word False w = Some w"
proof (induction w)
  case Nil
  then show ?case by simp
next
  case (Cons c cs)
  have "c \<noteq> quote_char \<and> c \<noteq> backslash \<and> c \<notin> set shell_special"
    using Cons.prems
    by (auto simp: shell_special_def quote_char_def backslash_def lf_def dquote_def is_alnum_def is_alpha_def is_digit_def)
  then show ?case using Cons by simp
qed

subsection \<open>Ports\<close>

lemma char_of_zero_digit: "char_of (48 :: nat) = CHR ''0''"
  by code_simp

lemma nat_string_digit: "n < 10 \<Longrightarrow> nat_string n = [char_of (48 + n)]"
  by (subst nat_string.simps) simp

lemma nat_string_step: "10 \<le> n \<Longrightarrow> nat_string n = nat_string (n div 10) @ [char_of (48 + n mod 10)]"
  by (subst nat_string.simps) simp

lemma nat_string_head: "0 < n \<Longrightarrow> \<exists>c cs. nat_string n = c # cs \<and> is_digit c \<and> c \<noteq> CHR ''0''"
proof (induction n rule: nat_string.induct)
  case (1 n)
  show ?case
  proof (cases "n < 10")
    case True
    have "(char_of (48 + n) :: char) \<noteq> CHR ''0''"
    proof
      assume "(char_of (48 + n) :: char) = CHR ''0''"
      then have "(of_char (char_of (48 + n) :: char) :: nat) = of_char (CHR ''0'')" by simp
      then show False using True 1(2) by simp
    qed
    then show ?thesis using True is_digit_char_of [of n] by (simp add: nat_string_digit)
  next
    case False
    then obtain c cs where "nat_string (n div 10) = c # cs" "is_digit c" "c \<noteq> CHR ''0''"
      using 1(1) by force
    then show ?thesis using False by (simp add: nat_string_step)
  qed
qed

lemma nat_string_length: "n < 10 ^ k \<Longrightarrow> 0 < k \<Longrightarrow> length (nat_string n) \<le> k"
proof (induction k arbitrary: n)
  case 0
  then show ?case by simp
next
  case (Suc k)
  show ?case
  proof (cases "n < 10")
    case True
    then show ?thesis by (simp add: nat_string_digit)
  next
    case False
    then have "0 < k" using Suc.prems by (cases k) auto
    moreover have "n div 10 < 10 ^ k" using Suc.prems by (simp add: div_less_iff_less_mult)
    ultimately show ?thesis using Suc.IH [of "n div 10"] False by (simp add: nat_string_step)
  qed
qed

lemma port_digits_nat: "port_digits (nat_string n) \<longleftrightarrow> 0 < n \<and> length (nat_string n) \<le> 5"
proof (cases "n = 0")
  case True
  then show ?thesis by (simp add: port_digits_def nat_string_digit char_of_zero_digit)
next
  case False
  then obtain c cs where "nat_string n = c # cs" "is_digit c" "c \<noteq> CHR ''0''" using nat_string_head by blast
  then show ?thesis using False nat_string_digits [of n] by (auto simp: port_digits_def list_all_iff)
qed

lemma render_unit_env_iff:
  "(\<exists>t. render_unit_env port = Inr t) \<longleftrightarrow> 1 \<le> port \<and> port \<le> 65535"
proof (cases "1 \<le> port")
  case True
  have "length (nat_string (nat port)) \<le> 5" if "port \<le> 65535"
    using that by (intro nat_string_length) simp_all
  then show ?thesis using True
    by (auto simp: render_unit_env_def Let_def int_string_def port_digits_nat)
next
  case False
  then have "\<not> port_digits (int_string port)"
    by (cases "port = 0") (auto simp: int_string_def port_digits_def nat_string_digit char_of_zero_digit is_digit_def)
  then show ?thesis using False by (simp add: render_unit_env_def Let_def)
qed

subsection \<open>Reading answers back\<close>

lemma key_line_render:
  "CHR ''='' \<notin> set k \<Longrightarrow> k \<in> set keys \<Longrightarrow> ok v \<Longrightarrow> key_line keys ok (k @ ''='' @ v) = Some (k, v)"
proof -
  assume a: "CHR ''='' \<notin> set k" "k \<in> set keys" "ok v"
  have "index_of (CHR ''='') (k @ CHR ''='' # v) = Some (length k)"
    using a(1) by (induction k) auto
  then show ?thesis using a by (simp add: key_line_def)
qed

lemma read_key_lines_render:
  assumes "\<forall>(k, v) \<in> set kvs. CHR ''='' \<notin> set k \<and> k \<in> set keys \<and> ok v"
    and "distinct (map fst (vs @ kvs))"
  shows "read_key_lines keys ok (map (\<lambda>(k, v). k @ ''='' @ v) kvs) vs = Some (vs @ kvs)"
  using assms
proof (induction kvs arbitrary: vs)
  case Nil
  then show ?case by simp
next
  case (Cons kv kvs)
  obtain k v where kv: "kv = (k, v)" by (cases kv)
  have "key_line keys ok (k @ ''='' @ v) = Some (k, v)"
    by (rule key_line_render) (use Cons.prems(1) kv in auto)
  moreover have "map_of vs k = None"
    using Cons.prems(2) kv by (auto simp: map_of_eq_None_iff)
  ultimately show ?case using Cons.IH [of "vs @ [(k, v)]"] Cons.prems kv by auto
qed

lemma unit_word_no_lf: "unit_word v \<Longrightarrow> lf \<notin> set v"
  by (auto simp: unit_word_def is_lower_alpha_def lf_def list_all_iff split: list.splits)

text \<open>What the host prints for a started unit is read back, in whatever order its lines come.\<close>

lemma without_final_newline_snoc [simp]: "without_final_newline (s @ [lf]) = s"
  by (simp add: without_final_newline_def ends_with_def)

lemma parse_unit_start_state_render:
  assumes set: "set kvs = {(''ActiveState'', a), (''Result'', r), (''SignIn'', s)}" and len: "length kvs = 3"
    and ok: "unit_word a" "unit_word r" "unit_word s"
  shows "parse_unit_start_state (join_with [lf] (map (\<lambda>(k, v). k @ ''='' @ v) kvs) @ [lf]) =
     Some \<lparr>us_activeState = a, us_result = r, us_signIn = s\<rparr>"
proof -
  let ?l = "map (\<lambda>(k, v). k @ ''='' @ v) kvs"
  have "card (set kvs) = 3" by (simp add: set)
  then have "distinct kvs" using len by (intro card_distinct) simp
  then have dist: "distinct (map fst kvs)" by (simp add: distinct_map set inj_on_def)
  have "\<forall>l \<in> set ?l. lf \<notin> set l"
    using unit_word_no_lf ok by (auto simp: set lf_def)
  moreover have "?l \<noteq> []" using len by auto
  ultimately have "split_on lf (join_with [lf] ?l) = ?l" by (intro split_join)
  moreover have "read_key_lines [''ActiveState'', ''Result'', ''SignIn''] unit_word ?l [] = Some ([] @ kvs)"
    using dist ok by (intro read_key_lines_render) (auto simp: set)
  moreover have "map_of kvs ''ActiveState'' = Some a" "map_of kvs ''Result'' = Some r" "map_of kvs ''SignIn'' = Some s"
    using dist by (simp_all add: map_of_eq_Some_iff set)
  ultimately show ?thesis using len by (simp add: parse_unit_start_state_def)
qed

end
