(* ===== verification/Observer.thy ===== *)
theory Observer
  imports Connection Unit
begin

text \<open>
  \<open>packages/core/src/status/instance-observer.ts\<close>: reading a bot's journal from the last cursor, page
  by page, into connection changes, and the sweep over a host's bots.

  The host is the parameter \<open>exec\<close>, any effectful function from a command to its result; \<open>read_date\<close>
  is the date constructor, as in the journal's parser.
\<close>

section \<open>Commands\<close>

definition journal_max_lines :: nat where "journal_max_lines = 2000"
definition journal_line_columns :: nat where "journal_line_columns = 130"
definition seed_window :: string where "seed_window = ''-7d''"
definition journal_drain_rounds :: nat where "journal_drain_rounds = 4"

definition journal_resume :: "string option \<Rightarrow> string option" where
  "journal_resume cursor =
     (case cursor of None \<Rightarrow> None | Some c \<Rightarrow> if is_journal_cursor c then Some c else None)"

definition width_of :: "string \<Rightarrow> string" where
  "width_of command = ''COLUMNS='' @ nat_string journal_line_columns @ '' '' @ command"

text \<open>\<open>JSON.stringify\<close> of a string.\<close>

definition hex_digit :: "nat \<Rightarrow> char" where
  "hex_digit n = ''0123456789abcdef'' ! n"

definition json_char :: "char \<Rightarrow> string" where
  "json_char c =
     (let n = (of_char c :: nat) in
      if c = dquote \<or> c = backslash then [backslash, c]
      else if n = 8 then backslash # ''b'' else if n = 9 then backslash # ''t''
      else if n = 10 then backslash # ''n'' else if n = 12 then backslash # ''f''
      else if n = 13 then backslash # ''r''
      else if n < 32 then backslash # ''u00'' @ [hex_digit (n div 16), hex_digit (n mod 16)]
      else [c])"

definition json_quote :: "string \<Rightarrow> string" where
  "json_quote s = [dquote] @ concat (map json_char s) @ [dquote]"

definition journal_command :: "string \<Rightarrow> string option \<Rightarrow> thrown + string" where
  "journal_command instanceId cursor =
     rbind (unit_name instanceId) (\<lambda>name.
       let read = ''-u '' @ name @ '' --utc -o short-iso --no-pager --no-full --show-cursor'' in
       Inr (case journal_resume cursor of
              None \<Rightarrow>
                width_of (journalctl (read @ '' --since '' @ json_quote seed_window @ '' -n ''
                  @ nat_string journal_max_lines))
            | Some resume \<Rightarrow>
                width_of (journalctl (read @ '' --cursor '' @ json_quote resume @ '' -n ''
                  @ nat_string (journal_max_lines + 1)))))"

section \<open>One reading\<close>

record instance_reading =
  ir_changes :: "connection_change list"
  ir_cursor :: "string option"
  ir_full :: bool
  ir_refused :: bool

definition seed_change :: "connection_signal \<Rightarrow> connection_change" where
  "seed_change latest =
     (case latest of
        SigJoined t pid \<Rightarrow>
          \<lparr>ch_state = CJoined, ch_at = t, ch_pid = Some pid, ch_event = Some InstanceJoined, ch_reason = None\<rparr>
      | SigStopped t pid \<Rightarrow>
          \<lparr>ch_state = CDown, ch_at = t, ch_pid = Some pid, ch_event = Some InstanceStopped, ch_reason = None\<rparr>
      | SigDisconnected t pid reason \<Rightarrow>
          \<lparr>ch_state = CInterrupted, ch_at = t, ch_pid = Some pid, ch_event = Some InstanceConnectionLost,
           ch_reason = reason\<rparr>)"

definition reading_of ::
    "(string \<Rightarrow> time option) \<Rightarrow> connection_current \<Rightarrow> string option \<Rightarrow> exec_result \<Rightarrow> instance_reading" where
  "reading_of read_date current cursor result =
     (let resume = journal_resume cursor in
      if er_exitCode result \<noteq> 0 then
        \<lparr>ir_changes = [], ir_cursor = cursor, ir_full = False,
         ir_refused = (resume \<noteq> None \<and> journal_refused_cursor (er_stderr result))\<rparr>
      else
        (let batch = journal_batch_of (er_stdout result);
             full = (resume \<noteq> None \<and> journal_max_lines < length (jb_lines batch));
             sighted = connection_signals (parse_journal read_date (join_with [lf] (jb_lines batch)));
             beyond = length (connection_signals (parse_journal read_date
                        (if full then join_with [lf] [last (jb_lines batch)] else [])));
             signals = take (length sighted - beyond) sighted;
             nxt = (case jb_cursor batch of None \<Rightarrow> cursor | Some c \<Rightarrow> Some c)
         in if resume = None then
              \<lparr>ir_changes = (case last_opt signals of None \<Rightarrow> [] | Some latest \<Rightarrow> [seed_change latest]),
               ir_cursor = nxt, ir_full = full, ir_refused = False\<rparr>
            else
              \<lparr>ir_changes = changes_from_signals current signals, ir_cursor = nxt, ir_full = full,
               ir_refused = False\<rparr>))"

definition read_connection_changes ::
    "(string \<Rightarrow> time option) \<Rightarrow> (string \<Rightarrow> ('w, exec_result) io) \<Rightarrow> string \<Rightarrow> connection_current
      \<Rightarrow> string option \<Rightarrow> ('w, instance_reading) io" where
  "read_connection_changes read_date exec instanceId current cursor w =
     (case journal_command instanceId cursor of
        Inl e \<Rightarrow> (Inl e, w)
      | Inr command \<Rightarrow>
          (case exec command w of
             (Inl e, w') \<Rightarrow> (Inl e, w')
           | (Inr result, w') \<Rightarrow> (Inr (reading_of read_date current cursor result), w')))"

section \<open>Draining\<close>

record 'w journal_lease =
  jl_exec :: "string \<Rightarrow> ('w, exec_result) io"
  jl_release :: "'w \<Rightarrow> 'w"

record 'w journal_drain =
  jd_lease :: "('w, 'w journal_lease option) io"
  jd_record :: "connection_change list \<Rightarrow> ('w, unit) io"
  jd_saveCursor :: "string \<Rightarrow> ('w, unit) io"
  jd_onRefused :: "string \<Rightarrow> 'w \<Rightarrow> 'w"

datatype drain_outcome = Drained | Unleased

definition connection_after :: "connection_current \<Rightarrow> connection_change list \<Rightarrow> connection_current" where
  "connection_after current changes =
     (case last_opt changes of
        None \<Rightarrow> current
      | Some c \<Rightarrow> \<lparr>cc_state = ch_state c, cc_since = Some (ch_at c), cc_pid = ch_pid c\<rparr>)"

text \<open>The rounds left, the state seen and the cursor reached are the loop's variables.\<close>

fun drain_rounds ::
    "nat \<Rightarrow> (string \<Rightarrow> time option) \<Rightarrow> 'w journal_drain \<Rightarrow> string \<Rightarrow> connection_current \<Rightarrow> string option
      \<Rightarrow> ('w, drain_outcome) io" where
  "drain_rounds 0 read_date drain instanceId seen cursor w = (Inr Drained, w)"
| "drain_rounds (Suc n) read_date drain instanceId seen cursor w =
     (case jd_lease drain w of
        (Inl e, w1) \<Rightarrow> (Inl e, w1)
      | (Inr None, w1) \<Rightarrow> (Inr Unleased, w1)
      | (Inr (Some leased), w1) \<Rightarrow>
          (case io_finally (read_connection_changes read_date (jl_exec leased) instanceId seen cursor)
                  (jl_release leased) w1 of
             (Inl e, w2) \<Rightarrow> (Inl e, w2)
           | (Inr reading, w2) \<Rightarrow>
               (case jd_record drain (ir_changes reading) w2 of
                  (Inl e, w3) \<Rightarrow> (Inl e, w3)
                | (Inr _, w3) \<Rightarrow>
                    (case (ir_refused reading, cursor) of
                       (True, Some c) \<Rightarrow>
                         drain_rounds n read_date drain instanceId seen None (jd_onRefused drain c w3)
                     | _ \<Rightarrow>
                         (case ir_cursor reading of
                            None \<Rightarrow> (Inr Drained, w3)
                          | Some nxt \<Rightarrow>
                              if \<not> ir_full reading then
                                (if Some nxt \<noteq> cursor then
                                   (case jd_saveCursor drain nxt w3 of
                                      (Inl e, w4) \<Rightarrow> (Inl e, w4) | (Inr _, w4) \<Rightarrow> (Inr Drained, w4))
                                 else (Inr Drained, w3))
                              else
                                (case jd_saveCursor drain nxt w3 of
                                   (Inl e, w4) \<Rightarrow> (Inl e, w4)
                                 | (Inr _, w4) \<Rightarrow>
                                     drain_rounds n read_date drain instanceId
                                       (connection_after seen (ir_changes reading)) (Some nxt) w4))))))"

definition drain_connection_changes ::
    "(string \<Rightarrow> time option) \<Rightarrow> 'w journal_drain \<Rightarrow> string \<Rightarrow> connection_current \<Rightarrow> string option
      \<Rightarrow> ('w, drain_outcome) io" where
  "drain_connection_changes read_date drain instanceId current cursor =
     drain_rounds journal_drain_rounds read_date drain instanceId current cursor"

section \<open>The sweep\<close>

fun observe_each_instance ::
    "('i \<Rightarrow> ('w, drain_outcome) io) \<Rightarrow> ('i \<Rightarrow> thrown \<Rightarrow> 'w \<Rightarrow> 'w) \<Rightarrow> 'i list \<Rightarrow> 'w \<Rightarrow> 'w" where
  "observe_each_instance observe onFailed [] w = w"
| "observe_each_instance observe onFailed (i # is) w =
     (case observe i w of
        (Inl e, w') \<Rightarrow> observe_each_instance observe onFailed is (onFailed i e w')
      | (Inr Unleased, w') \<Rightarrow> w'
      | (Inr Drained, w') \<Rightarrow> observe_each_instance observe onFailed is w')"

section \<open>Paging\<close>

text \<open>What the host prints for a page: its lines and the cursor note.\<close>

definition page_text :: "string list \<Rightarrow> string \<Rightarrow> string" where
  "page_text ls c = join_with [lf] (ls @ [cursor_note @ c]) @ [lf]"

definition readable_line :: "(string \<Rightarrow> time option) \<Rightarrow> string \<Rightarrow> bool" where
  "readable_line read_date l \<longleftrightarrow>
     lf \<notin> set l \<and> trim l \<noteq> [] \<and> \<not> starts_with l journal_note \<and> parse_journal_line read_date l \<noteq> None"

lemma cursor_field_no_space: "cursor_field k w f \<Longrightarrow> \<not> is_space k \<Longrightarrow> \<forall>c \<in> set f. \<not> is_space c"
  by (auto simp: cursor_field_def is_lower_hex_def is_digit_def is_space_def list_all_iff split: list.splits)

lemma journal_cursor_no_space:
  assumes "is_journal_cursor c"
  shows "\<forall>x \<in> set c. \<not> is_space x"
proof -
  obtain f1 f2 f3 f4 f5 f6 where s: "split_on (CHR '';'') c = [f1, f2, f3, f4, f5, f6]"
    and f: "cursor_field (CHR ''s'') (Some 32) f1" "cursor_field (CHR ''i'') None f2"
      "cursor_field (CHR ''b'') (Some 32) f3" "cursor_field (CHR ''m'') None f4"
      "cursor_field (CHR ''t'') None f5" "cursor_field (CHR ''x'') None f6"
    using assms by (auto simp: is_journal_cursor_def split: list.splits)
  have "join_with [CHR '';''] [f1, f2, f3, f4, f5, f6] = c"
    using join_split [of "CHR '';''" c] unfolding s .
  then have "set c \<subseteq> {CHR '';''} \<union> (\<Union>p \<in> set [f1, f2, f3, f4, f5, f6]. set p)"
    using set_join_with [of "[CHR '';'']" "[f1, f2, f3, f4, f5, f6]"] by (simp only: list.set)
  moreover have "\<not> is_space (CHR ''s'')" "\<not> is_space (CHR ''i'')" "\<not> is_space (CHR ''b'')"
    "\<not> is_space (CHR ''m'')" "\<not> is_space (CHR ''t'')" "\<not> is_space (CHR ''x'')"
    by (simp_all add: is_space_def)
  with f have "\<forall>p \<in> set [f1, f2, f3, f4, f5, f6]. \<forall>x \<in> set p. \<not> is_space x"
    using cursor_field_no_space by simp
  moreover have "\<not> is_space (CHR '';'')" by (simp add: is_space_def)
  ultimately show ?thesis by blast
qed

lemma dropWhile_none: "\<forall>x \<in> set c. \<not> P x \<Longrightarrow> dropWhile P c = c"
  by (cases c) auto

lemma trim_no_space: "\<forall>x \<in> set c. \<not> is_space x \<Longrightarrow> trim c = c"
  by (simp add: trim_def dropWhile_none)

lemma join_with_snoc: "ps \<noteq> [] \<Longrightarrow> join_with sep (ps @ [p]) = join_with sep ps @ sep @ p"
  by (induction sep ps rule: join_with.induct) auto

lemma trim_NilD: "trim s = [] \<Longrightarrow> x \<in> set s \<Longrightarrow> is_space x"
proof -
  assume t: "trim s = []" and x: "x \<in> set s"
  have "dropWhile is_space s = []"
  proof (rule ccontr)
    assume ne: "dropWhile is_space s \<noteq> []"
    have "\<forall>x \<in> set (rev (dropWhile is_space s)). is_space x"
      using t by (intro iffD1 [OF dropWhile_eq_Nil_conv]) (simp add: trim_def)
    then show False using hd_dropWhile [OF ne] ne by (metis hd_in_set set_rev)
  qed
  then show "is_space x" using x iffD1 [OF dropWhile_eq_Nil_conv] by metis
qed

lemma trim_note: "trim (cursor_note @ c) \<noteq> []"
proof -
  have "CHR ''-'' \<in> set (cursor_note @ c)" "\<not> is_space (CHR ''-'')"
    by (simp_all add: cursor_note_def is_space_def)
  then show ?thesis using trim_NilD by blast
qed

lemma batch_of_lines:
  "\<forall>l \<in> set ls. readable_line rd l \<Longrightarrow> foldl batch_step b ls = b\<lparr>jb_lines := jb_lines b @ ls\<rparr>"
proof (induction ls arbitrary: b)
  case Nil
  then show ?case by simp
next
  case (Cons l ls)
  have r: "readable_line rd l" using Cons.prems by simp
  have "\<not> starts_with l cursor_note"
  proof
    assume "starts_with l cursor_note"
    then obtain r where "l = cursor_note @ r" by (auto simp: starts_with_iff)
    then have "starts_with l journal_note" by (simp add: cursor_note_def journal_note_def)
    then show False using r by (simp add: readable_line_def)
  qed
  then have "batch_step b l = b\<lparr>jb_lines := jb_lines b @ [l]\<rparr>"
    using r by (simp add: batch_step.simps readable_line_def)
  then show ?case using Cons by simp
qed

lemma journal_batch_page:
  assumes "\<forall>l \<in> set ls. readable_line rd l" and "is_journal_cursor c"
  shows "journal_batch_of (page_text ls c) = \<lparr>jb_lines = ls, jb_cursor = Some c\<rparr>"
proof -
  have c: "\<forall>x \<in> set c. \<not> is_space x" using journal_cursor_no_space [OF assms(2)] .
  then have lfc: "lf \<notin> set c" by (auto simp: is_space_def lf_def)
  have "page_text ls c = join_with [lf] (ls @ [cursor_note @ c] @ [[]])"
    using join_with_snoc [of "ls @ [cursor_note @ c]" "[lf]" "[]"] by (simp add: page_text_def)
  moreover have "split_on lf (join_with [lf] (ls @ [cursor_note @ c] @ [[]])) = ls @ [cursor_note @ c] @ [[]]"
    using assms(1) lfc by (intro split_join) (auto simp: readable_line_def cursor_note_def lf_def)
  ultimately have s: "split_on lf (page_text ls c) = ls @ [cursor_note @ c, []]" by simp
  have n: "batch_step b (cursor_note @ c) = b\<lparr>jb_cursor := Some c\<rparr>" for b
    using trim_note [of c] trim_no_space [OF c] assms(2) by (simp add: batch_step.simps)
  have e: "batch_step b [] = b" for b by (simp add: batch_step.simps trim_def)
  show ?thesis
    using batch_of_lines [OF assms(1)] by (simp add: journal_batch_of_def s n e)
qed

definition signals_from :: "(string \<Rightarrow> time option) \<Rightarrow> string list \<Rightarrow> nat \<Rightarrow> connection_signal list" where
  "signals_from read_date J p = connection_signals (parse_lines read_date (drop p J))"

lemma parse_lines_readable:
  "readable_line rd l \<Longrightarrow> \<exists>pl. parse_lines rd [l] = [pl]"
  by (auto simp: readable_line_def parse_lines_def List.map_filter_def)

lemma parse_joined_readable:
  "\<forall>l \<in> set ls. readable_line rd l \<Longrightarrow> parse_journal rd (join_with [lf] ls) = parse_lines rd ls"
  by (rule parse_joined_lines) (simp add: readable_line_def)

text \<open>
  A full page leaves out what its last line signals; that line opens the next page, and the two
  together signal what the whole journal does.
\<close>

lemma reading_full_page:
  assumes J: "\<forall>l \<in> set J. readable_line rd l" and more: "journal_max_lines < length J - p"
    and resume: "is_journal_cursor c" and c': "is_journal_cursor c'"
    and out: "er_exitCode res = 0" "er_stdout res = page_text (take (Suc journal_max_lines) (drop p J)) c'"
  shows "\<exists>signals. reading_of rd cur (Some c) res =
       \<lparr>ir_changes = changes_from_signals cur signals, ir_cursor = Some c', ir_full = True, ir_refused = False\<rparr> \<and>
     signals_from rd J p = signals @ signals_from rd J (p + journal_max_lines)"
proof -
  let ?N = journal_max_lines
  define xs l ys where "xs = take ?N (drop p J)" and "l = J ! (p + ?N)" and "ys = drop (Suc (p + ?N)) J"
  have pl: "p + ?N < length J" using more by linarith
  have page: "take (Suc ?N) (drop p J) = xs @ [l]"
    using pl by (simp add: take_Suc_conv_app_nth xs_def l_def)
  have rest: "drop (p + ?N) J = l # ys" using pl unfolding l_def ys_def by (rule Cons_nth_drop_Suc [symmetric])
  have all: "drop p J = xs @ l # ys"
    unfolding xs_def by (metis append_take_drop_id drop_drop add.commute rest)
  have rl: "readable_line rd l" using J pl by (simp add: l_def)
  obtain q where q: "parse_lines rd [l] = [q]" using parse_lines_readable [OF rl] by blast
  have parse_all: "parse_lines rd (drop p J) = parse_lines rd xs @ q # parse_lines rd ys"
    using q parse_lines_append [of rd xs "[l] @ ys"] parse_lines_append [of rd "[l]" ys] by (simp add: all)
  have parse_rest: "parse_lines rd (drop (p + ?N) J) = q # parse_lines rd ys"
    using q parse_lines_append [of rd "[l]" ys] by (simp add: rest)
  have readable: "\<forall>l \<in> set (take (Suc ?N) (drop p J)). readable_line rd l"
    using J by (meson in_set_dropD in_set_takeD)
  have batch: "journal_batch_of (er_stdout res) = \<lparr>jb_lines = xs @ [l], jb_cursor = Some c'\<rparr>"
    using journal_batch_page [OF readable c'] out(2) page by simp
  have len: "?N < length (xs @ [l])" using pl by (simp add: xs_def)
  have sighted: "parse_journal rd (join_with [lf] (xs @ [l])) = parse_lines rd xs @ [q]"
    using parse_joined_readable [of "xs @ [l]" rd] readable q page by simp
  have beyond: "parse_journal rd (join_with [lf] [l]) = [q]"
    using parse_joined_readable [of "[l]" rd] rl q by simp
  let ?signals = "take (length (connection_signals (parse_lines rd xs @ [q])) - length (connection_signals [q]))
      (connection_signals (parse_lines rd xs @ [q]))"
  have "reading_of rd cur (Some c) res =
       \<lparr>ir_changes = changes_from_signals cur ?signals, ir_cursor = Some c', ir_full = True, ir_refused = False\<rparr>"
    using out(1) resume batch len sighted beyond by (simp add: reading_of_def journal_resume_def Let_def)
  moreover have "signals_from rd J p = ?signals @ signals_from rd J (p + ?N)"
    unfolding signals_from_def parse_all parse_rest by (rule connection_signals_append)
  ultimately show ?thesis by blast
qed

lemma reading_last_page:
  assumes J: "\<forall>l \<in> set J. readable_line rd l" and fits: "length J - p \<le> journal_max_lines"
    and resume: "is_journal_cursor c" and c': "is_journal_cursor c'"
    and out: "er_exitCode res = 0" "er_stdout res = page_text (take (Suc journal_max_lines) (drop p J)) c'"
  shows "reading_of rd cur (Some c) res =
       \<lparr>ir_changes = changes_from_signals cur (signals_from rd J p), ir_cursor = Some c', ir_full = False, ir_refused = False\<rparr>"
proof -
  have page: "take (Suc journal_max_lines) (drop p J) = drop p J" using fits by simp
  have readable: "\<forall>l \<in> set (drop p J). readable_line rd l" using J by (meson in_set_dropD)
  have batch: "journal_batch_of (er_stdout res) = \<lparr>jb_lines = drop p J, jb_cursor = Some c'\<rparr>"
    using journal_batch_page [OF readable c'] out(2) page by simp
  have nil: "parse_journal rd [] = []"
    using parse_joined_readable [of "[]" rd] by (simp add: parse_lines_def List.map_filter_def)
  show ?thesis
    using out(1) resume batch fits parse_joined_readable [OF readable] nil
    by (simp add: reading_of_def journal_resume_def Let_def signals_from_def)
qed

lemma connection_after_state: "cc_state (connection_after cur cs) = state_after (cc_state cur) cs"
  by (simp add: connection_after_def state_after_def split: option.split)

lemma changes_from_signals_append:
  "changes_from_signals cur (xs @ ys) =
     changes_from_signals cur xs @ changes_from_signals (connection_after cur (changes_from_signals cur xs)) ys"
  by (simp add: changes_from_signals_def changes_loop_append connection_after_state)

text \<open>
  A host that answers the journal's commands as \<open>journalctl --cursor c -n N\<close> is documented to: the
  \<open>N\<close> entries from the one the cursor names, and the cursor of the last of them.
\<close>

definition journal_host ::
    "string list \<Rightarrow> (nat \<Rightarrow> string) \<Rightarrow> string \<Rightarrow> (string \<Rightarrow> ('w, exec_result) io) \<Rightarrow> bool" where
  "journal_host J cursor_of inst exec \<longleftrightarrow>
     (\<forall>p w. p < length J \<longrightarrow>
        (\<exists>cmd. journal_command inst (Some (cursor_of p)) = Inr cmd \<and>
           exec cmd w =
             (Inr \<lparr>er_exitCode = 0,
                   er_stdout = page_text (take (Suc journal_max_lines) (drop p J))
                                 (cursor_of (min (p + journal_max_lines) (length J - 1))),
                   er_stderr = []\<rparr>, w)))"

text \<open>A drain that keeps what it records and the cursor it saves.\<close>

type_synonym drain_log = "connection_change list \<times> string option"

definition recording_drain :: "(string \<Rightarrow> (drain_log, exec_result) io) \<Rightarrow> drain_log journal_drain" where
  "recording_drain exec =
     \<lparr>jd_lease = (\<lambda>w. (Inr (Some \<lparr>jl_exec = exec, jl_release = (\<lambda>w. w)\<rparr>), w)),
      jd_record = (\<lambda>cs w. (Inr (), (fst w @ cs, snd w))),
      jd_saveCursor = (\<lambda>c w. (Inr (), (fst w, Some c))),
      jd_onRefused = (\<lambda>_ w. w)\<rparr>"

lemma drain_rounds_whole:
  assumes J: "\<forall>l \<in> set J. readable_line rd l" and cur: "\<forall>p. is_journal_cursor (cursor_of p)"
    and host: "journal_host J cursor_of inst exec"
    and p: "p < length J" and rounds: "length J - p \<le> n * journal_max_lines"
  shows "drain_rounds n rd (recording_drain exec) inst seen (Some (cursor_of p)) (r, Some (cursor_of p)) =
     (Inr Drained, (r @ changes_from_signals seen (signals_from rd J p), Some (cursor_of (length J - 1))))"
  using p rounds
proof (induction n arbitrary: p seen r)
  case 0
  then show ?case by simp
next
  case (Suc n)
  let ?N = journal_max_lines
  have N: "0 < ?N" by (simp add: journal_max_lines_def)
  obtain cmd where cmd: "journal_command inst (Some (cursor_of p)) = Inr cmd"
    and ex: "\<And>w. exec cmd w = (Inr \<lparr>er_exitCode = 0,
                   er_stdout = page_text (take (Suc ?N) (drop p J)) (cursor_of (min (p + ?N) (length J - 1))),
                   er_stderr = []\<rparr>, w)"
    using host Suc.prems(1) unfolding journal_host_def by (metis sum.inject(2))
  let ?res = "\<lparr>er_exitCode = 0, er_stdout = page_text (take (Suc ?N) (drop p J)) (cursor_of (min (p + ?N) (length J - 1))),
                   er_stderr = []\<rparr>"
  define reading where "reading = reading_of rd seen (Some (cursor_of p)) ?res"
  have read: "read_connection_changes rd exec inst seen (Some (cursor_of p)) w = (Inr reading, w)" for w
    unfolding reading_def by (simp add: read_connection_changes_def cmd ex)
  have one: "drain_rounds (Suc n) rd (recording_drain exec) inst seen (Some (cursor_of p)) (r, Some (cursor_of p)) =
      (if ir_full reading
       then drain_rounds n rd (recording_drain exec) inst (connection_after seen (ir_changes reading)) (Some nxt)
              (r @ ir_changes reading, Some nxt)
       else (Inr Drained, (r @ ir_changes reading, Some nxt)))"
    if "\<not> ir_refused reading" "ir_cursor reading = Some nxt" for nxt
    using that by (auto simp: recording_drain_def io_simps read)
  show ?case
  proof (cases "?N < length J - p")
    case True
    have m: "min (p + ?N) (length J - 1) = p + ?N" using True by linarith
    obtain signals where rd: "reading =
         \<lparr>ir_changes = changes_from_signals seen signals, ir_cursor = Some (cursor_of (p + ?N)), ir_full = True, ir_refused = False\<rparr>"
      and s: "signals_from rd J p = signals @ signals_from rd J (p + ?N)"
      using reading_full_page [OF J True, of "cursor_of p" "cursor_of (p + ?N)" ?res seen] cur m unfolding reading_def by auto
    have "p + ?N < length J" and "length J - (p + ?N) \<le> n * ?N" using True Suc.prems(2) by simp_all
    from Suc.IH [OF this] show ?thesis
      using one [of "cursor_of (p + ?N)"] by (simp add: rd s changes_from_signals_append)
  next
    case False
    have m: "min (p + ?N) (length J - 1) = length J - 1" using False Suc.prems(1) by linarith
    have rd: "reading =
         \<lparr>ir_changes = changes_from_signals seen (signals_from rd J p), ir_cursor = Some (cursor_of (length J - 1)),
          ir_full = False, ir_refused = False\<rparr>"
      using reading_last_page [OF J _, of p "cursor_of p" "cursor_of (length J - 1)" ?res seen] False cur m unfolding reading_def by simp
    show ?thesis using one [of "cursor_of (length J - 1)"] by (simp add: rd)
  qed
qed

text \<open>Reading the last entry again, as the next drain does, changes nothing.\<close>

lemma last_entry_again:
  assumes J: "\<forall>l \<in> set J. readable_line rd l" and p: "p < length J"
  shows "changes_from_signals (connection_after seen (changes_from_signals seen (signals_from rd J p)))
     (signals_from rd J (length J - 1)) = []"
proof -
  have ne: "J \<noteq> []" using p by auto
  have last: "drop (length J - 1) J = [last J]"
    using ne by (metis append_butlast_last_id append_eq_conv_conj length_butlast)
  have rl: "readable_line rd (last J)" using J ne by simp
  obtain q where q: "parse_lines rd [last J] = [q]" using parse_lines_readable [OF rl] by blast
  have "drop p J = take (length J - 1 - p) (drop p J) @ [last J]"
    using p by (metis append_butlast_last_id butlast_conv_take drop_eq_Nil2 last_drop leD length_drop ne diff_right_commute)
  then have "parse_lines rd (drop p J) = parse_lines rd (take (length J - 1 - p) (drop p J)) @ [q]"
    using q parse_lines_append by metis
  then obtain pre where all: "signals_from rd J p = pre @ connection_signals [q]"
    unfolding signals_from_def using connection_signals_append [of _ q "[]"] by metis
  let ?st = "state_after (cc_state seen) (changes_loop (cc_state seen) pre)"
  have "changes_loop (state_after ?st (changes_loop ?st (connection_signals [q]))) (connection_signals [q]) = []"
  proof (cases "signal_of_line q None")
    case None
    then show ?thesis by simp
  next
    case (Some sg)
    have "state_after ?st (changes_loop ?st (connection_signals [q])) = signal_target ?st sg"
      using Some by (simp only: changes_loop_refines) simp
    then show ?thesis using Some change_for_again [of ?st sg] by simp
  qed
  moreover have "signals_from rd J (length J - 1) = connection_signals [q]"
    using q by (simp only: signals_from_def last)
  ultimately show ?thesis
    by (simp only: all changes_from_signals_def changes_loop_append connection_after_state state_after_append)
qed

end
