(* ===== verification/Outcome.thy ===== *)
theory Outcome
  imports Prelude
begin

text \<open>
  \<open>packages/core/src/notification/outcome.ts\<close>, with the replies it reads
  (\<open>packages/contracts/src/boundary/discord.ts\<close>, \<open>telegram.ts\<close> and \<open>resend.ts\<close>), \<open>retention.ts\<close> and the
  text bounds of \<open>bounds.ts\<close>: what an answer of a destination means for a delivery, how long is waited,
  and how long things are kept.

  \<open>Date.parse\<close> and \<open>JSON.parse\<close> are the parameters \<open>parse_date\<close> and \<open>parse_json\<close>; a JSON number is a
  decimal \<open>m * 10 ^ e\<close>, or what \<open>JSON.parse\<close> makes of a number too large to hold. An object is the
  list of its fields, each key once.
\<close>

section \<open>JSON values\<close>

datatype json_number = Finite int int | Infinite

datatype json =
    JNull | JBool bool | JNum json_number | JStr string | JArr "json list" | JObj "(string \<times> json) list"

text \<open>\<open>asRecord(value)\<close> and the read of a property, \<open>undefined\<close> when it is not there.\<close>

fun as_record :: "json \<Rightarrow> (string \<times> json) list option" where
  "as_record (JObj fs) = Some fs"
| "as_record _ = None"

definition parsed_record :: "(string \<Rightarrow> json option) \<Rightarrow> string \<Rightarrow> (string \<times> json) list option" where
  "parsed_record parse_json raw = (case parse_json raw of None \<Rightarrow> None | Some v \<Rightarrow> as_record v)"

definition decimal_ceil :: "int \<Rightarrow> int \<Rightarrow> int" where
  "decimal_ceil m e = (if 0 \<le> e then m * 10 ^ nat e else ceil_div m (10 ^ nat (- e)))"

definition decimal_whole :: "int \<Rightarrow> int \<Rightarrow> bool" where
  "decimal_whole m e \<longleftrightarrow> 0 \<le> e \<or> m mod 10 ^ nat (- e) = 0"

definition parse_discord_retry_after :: "(string \<Rightarrow> json option) \<Rightarrow> string \<Rightarrow> int option" where
  "parse_discord_retry_after parse_json raw =
     (case parsed_record parse_json raw of
        None \<Rightarrow> None
      | Some body \<Rightarrow>
          (case map_of body ''retry_after'' of
             Some (JNum (Finite m e)) \<Rightarrow> if m < 0 then None else Some (decimal_ceil m e)
           | _ \<Rightarrow> None))"

record telegram_reply =
  tr_ok :: bool
  tr_errorCode :: "int option"
  tr_description :: "string option"
  tr_retryAfterSeconds :: "int option"

definition as_whole_number :: "json option \<Rightarrow> int option" where
  "as_whole_number v =
     (case v of
        Some (JNum (Finite m e)) \<Rightarrow>
          if decimal_whole m e \<and> 0 \<le> m \<and> decimal_ceil m e \<le> 9007199254740991
          then Some (decimal_ceil m e) else None
      | _ \<Rightarrow> None)"

definition as_string :: "json option \<Rightarrow> string option" where
  "as_string v = (case v of Some (JStr s) \<Rightarrow> if s = [] then None else Some s | _ \<Rightarrow> None)"

definition parse_telegram_reply :: "(string \<Rightarrow> json option) \<Rightarrow> string \<Rightarrow> telegram_reply option" where
  "parse_telegram_reply parse_json raw =
     (case parsed_record parse_json raw of
        None \<Rightarrow> None
      | Some body \<Rightarrow>
          (case map_of body ''ok'' of
             Some (JBool ok) \<Rightarrow>
               (let parameters = (case map_of body ''parameters'' of None \<Rightarrow> None | Some p \<Rightarrow> as_record p) in
                Some \<lparr>tr_ok = ok, tr_errorCode = as_whole_number (map_of body ''error_code''),
                      tr_description = as_string (map_of body ''description''),
                      tr_retryAfterSeconds =
                        (case parameters of None \<Rightarrow> None | Some p \<Rightarrow> as_whole_number (map_of p ''retry_after''))\<rparr>)
           | _ \<Rightarrow> None))"

definition parse_resend_error_name :: "(string \<Rightarrow> json option) \<Rightarrow> string \<Rightarrow> string option" where
  "parse_resend_error_name parse_json raw =
     (case parsed_record parse_json raw of None \<Rightarrow> None | Some body \<Rightarrow> as_string (map_of body ''name''))"

section \<open>Outcomes\<close>

datatype delivery_outcome =
    OutDelivered (out_status: "int option")
  | OutRetryable (out_status: "int option") (out_reason: string) (out_retryAfter: "int option")
      (out_detail: "string option")
  | OutTerminal (out_status: "int option") (out_reason: string) (out_stopSending: bool)
      (out_detail: "string option")

definition max_retry_after_seconds :: int where "max_retry_after_seconds = 60 * 60"

definition retryable_status :: "int list" where
  "retryable_status = [408, 425, 429, 500, 502, 503, 504]"

definition parse_retry_after :: "(string \<Rightarrow> time option) \<Rightarrow> string option \<Rightarrow> time \<Rightarrow> int option" where
  "parse_retry_after parse_date v now =
     (case v of
        None \<Rightarrow> None
      | Some s \<Rightarrow>
          (let trimmed = trim s in
           if trimmed = [] then None
           else if list_all is_digit trimmed then Some (min (int (number_of trimmed)) max_retry_after_seconds)
           else (case parse_date trimmed of
              None \<Rightarrow> None
            | Some at_time \<Rightarrow>
                (let seconds = ceil_div (at_time - now) 1000 in
                 if seconds \<le> 0 then Some 0 else Some (min seconds max_retry_after_seconds)))))"

definition server_answered :: "int \<Rightarrow> string" where
  "server_answered status = ''Server answered '' @ int_string status"

definition classify_http_status ::
    "(string \<Rightarrow> time option) \<Rightarrow> int \<Rightarrow> string option \<Rightarrow> time \<Rightarrow> delivery_outcome" where
  "classify_http_status parse_date status retryAfter now =
     (if 200 \<le> status \<and> status < 300 then OutDelivered (Some status)
      else if status = 410 then
        OutTerminal (Some status) ''This destination asked us to stop sending'' True None
      else if status \<in> set retryable_status \<or> 500 \<le> status then
        OutRetryable (Some status) (server_answered status) (parse_retry_after parse_date retryAfter now) None
      else OutTerminal (Some status) (''Server refused with '' @ int_string status) False None)"

definition classify_network_failure :: "string \<Rightarrow> delivery_outcome" where
  "classify_network_failure reason = OutRetryable None reason None None"

definition classify_refusal :: "string \<Rightarrow> delivery_outcome" where
  "classify_refusal reason = OutTerminal None reason False None"

definition telegram_terminal :: "int list" where
  "telegram_terminal = [400, 401, 403, 404]"

definition telegram_reason :: "int \<Rightarrow> string" where
  "telegram_reason code =
     (if code = 400 then ''Telegram refused the message; check the chat ID''
      else if code = 401 then ''Telegram did not accept the bot token''
      else if code = 403 then ''The bot may not post in that chat''
      else if code = 404 then ''Telegram did not accept the bot token''
      else if code = 429 then ''Telegram asked us to slow down''
      else ''Telegram refused with '' @ int_string code)"

text \<open>Without a \<open>Retry-After\<close> the clock of \<open>classifyHttpStatus\<close> is not read: any instant will do.\<close>

definition classify_telegram_reply :: "int \<Rightarrow> telegram_reply option \<Rightarrow> delivery_outcome" where
  "classify_telegram_reply httpStatus reply =
     (case reply of
        None \<Rightarrow> classify_http_status (\<lambda>_. None) httpStatus None 0
      | Some r \<Rightarrow>
          if tr_ok r then OutDelivered (Some httpStatus)
          else
            (let code = (case tr_errorCode r of None \<Rightarrow> httpStatus | Some c \<Rightarrow> c);
                 reason = telegram_reason code;
                 retryAfterSeconds = map_option (\<lambda>s. min s max_retry_after_seconds) (tr_retryAfterSeconds r)
             in if code = 429 then OutRetryable (Some code) reason retryAfterSeconds (tr_description r)
                else if code \<in> set telegram_terminal then
                  OutTerminal (Some code) reason False (tr_description r)
                else OutRetryable (Some code) reason retryAfterSeconds (tr_description r)))"

definition resend_quota_spent :: "string list" where
  "resend_quota_spent = [''daily_quota_exceeded'', ''monthly_quota_exceeded'']"

definition classify_discord_reply ::
    "(string \<Rightarrow> time option) \<Rightarrow> (string \<Rightarrow> json option) \<Rightarrow> int \<Rightarrow> string option \<Rightarrow> string \<Rightarrow> time \<Rightarrow> delivery_outcome" where
  "classify_discord_reply parse_date parse_json status retryAfter body now =
     (if status \<noteq> 429 then classify_http_status parse_date status retryAfter now
      else
        (let fromHeader = parse_retry_after parse_date retryAfter now;
             fromBody = parse_discord_retry_after parse_json body;
             asked = List.map_filter (\<lambda>v. v) [fromHeader, fromBody];
             longest = (if asked = [] then None else Some (foldl max (hd asked) (tl asked)))
         in OutRetryable (Some status) (server_answered status)
              (map_option (\<lambda>l. min l max_retry_after_seconds) longest) None))"

definition classify_resend_reply ::
    "(string \<Rightarrow> time option) \<Rightarrow> (string \<Rightarrow> json option) \<Rightarrow> int \<Rightarrow> string option \<Rightarrow> string \<Rightarrow> time \<Rightarrow> delivery_outcome" where
  "classify_resend_reply parse_date parse_json status retryAfter body now =
     (if status = 429 \<and>
         (case parse_resend_error_name parse_json body of None \<Rightarrow> False | Some n \<Rightarrow> n \<in> set resend_quota_spent) then
        OutTerminal (Some status) ''The email service has used up its sending quota'' False None
      else classify_http_status parse_date status retryAfter now)"

definition classify_smtp_reply :: "int \<Rightarrow> string \<Rightarrow> delivery_outcome" where
  "classify_smtp_reply code reason =
     (if 200 \<le> code \<and> code < 400 then OutDelivered (Some code)
      else if 400 \<le> code \<and> code < 500 then OutRetryable (Some code) reason None None
      else OutTerminal (Some code) reason False None)"

section \<open>Retention\<close>

definition notification_retention_days :: int where "notification_retention_days = 90"
definition test_window_ms :: int where "test_window_ms = 60 * 1000"
definition tests_per_window :: nat where "tests_per_window = 3"
definition tests_per_window_per_organization :: nat where "tests_per_window_per_organization = 10"

text \<open>\<open>DEADLETTER_RETENTION_SECONDS / (24 * 60 * 60)\<close>, thirty days.\<close>

definition deadletter_retention_days :: int where
  "deadletter_retention_days = (30 * (24 * 60 * 60)) div (24 * 60 * 60)"

definition cutoff_for :: "time \<Rightarrow> int \<Rightarrow> time" where
  "cutoff_for now days = now - days * 24 * 60 * 60 * 1000"

record retention_boundaries =
  rb_createdBefore :: time
  rb_settledBefore :: time

definition boundaries_for :: "time \<Rightarrow> int \<Rightarrow> retention_boundaries" where
  "boundaries_for now retentionDays =
     \<lparr>rb_createdBefore = cutoff_for now retentionDays,
      rb_settledBefore = cutoff_for now deadletter_retention_days\<rparr>"

definition throttle_exceeded :: "nat \<Rightarrow> nat \<Rightarrow> bool" where
  "throttle_exceeded recent limit \<longleftrightarrow> limit \<le> recent"

section \<open>Bounds\<close>

text \<open>
  Text as code points; \<open>utf8_length\<close> is the length of a code point's encoding. A string of lone
  surrogates is encoded as its replacement, of three bytes, as is any point between 2048 and 65535.
\<close>

definition utf8_length :: "nat \<Rightarrow> nat" where
  "utf8_length p = (if p < 128 then 1 else if p < 2048 then 2 else if p < 65536 then 3 else 4)"

definition text_bytes :: "nat list \<Rightarrow> nat" where
  "text_bytes ps = sum_list (map utf8_length ps)"

definition ellipsis :: nat where "ellipsis = 0x2026"

definition truncate_chars :: "nat list \<Rightarrow> nat \<Rightarrow> nat list" where
  "truncate_chars points limit =
     (if length points \<le> limit then points
      else if limit \<le> 1 then take limit points
      else take (limit - 1) points @ [ellipsis])"

fun take_bytes :: "nat \<Rightarrow> nat list \<Rightarrow> nat list" where
  "take_bytes budget [] = []"
| "take_bytes budget (p # ps) =
     (if budget < utf8_length p then [] else p # take_bytes (budget - utf8_length p) ps)"

definition truncate_bytes :: "nat list \<Rightarrow> nat \<Rightarrow> nat list" where
  "truncate_bytes text limit =
     (if text_bytes text \<le> limit then text
      else
        (let marker = utf8_length ellipsis; room = marker < limit;
             budget = (if room then limit - marker else limit);
             kept = take_bytes budget text
         in if room then kept @ [ellipsis] else kept))"

section \<open>Lemmas\<close>

lemma parse_retry_after_bounds:
  "parse_retry_after parse_date v now = Some s \<Longrightarrow> 0 \<le> s \<and> s \<le> max_retry_after_seconds"
  by (auto simp: parse_retry_after_def Let_def max_retry_after_seconds_def split: option.splits if_splits)

lemma truncate_chars_length: "length (truncate_chars ps n) \<le> n"
  by (auto simp: truncate_chars_def)

lemma text_bytes_simps [simp]:
  "text_bytes [] = 0"
  "text_bytes (p # ps) = utf8_length p + text_bytes ps"
  "text_bytes (ps @ qs) = text_bytes ps + text_bytes qs"
  by (simp_all add: text_bytes_def)

lemma take_bytes_fits: "text_bytes (take_bytes n ps) \<le> n"
  by (induction n ps rule: take_bytes.induct) auto

lemma take_bytes_prefix: "\<exists>r. ps = take_bytes n ps @ r"
  by (induction n ps rule: take_bytes.induct) auto

text \<open>The kept prefix is the longest that fits.\<close>

lemma take_bytes_maximal:
  "ps = q @ r \<Longrightarrow> text_bytes q \<le> n \<Longrightarrow> \<exists>s. take_bytes n ps = q @ s"
proof (induction n ps arbitrary: q rule: take_bytes.induct)
  case (1 n)
  then show ?case by simp
next
  case (2 n p ps)
  show ?case
  proof (cases q)
    case Nil
    then show ?thesis by simp
  next
    case (Cons a q')
    then have p: "a = p" "ps = q' @ r" using 2(2) by auto
    then have "\<not> n < utf8_length p" "text_bytes q' \<le> n - utf8_length p" using 2(3) Cons by auto
    then show ?thesis using 2(1) [of q'] p Cons by simp
  qed
qed

lemma truncate_bytes_fits: "text_bytes (truncate_bytes ps n) \<le> n"
proof -
  have "text_bytes (take_bytes (n - utf8_length ellipsis) ps) \<le> n - utf8_length ellipsis"
    by (rule take_bytes_fits)
  then show ?thesis
    using take_bytes_fits [of n ps] by (auto simp: truncate_bytes_def Let_def)
qed

lemma truncate_bytes_id: "text_bytes ps \<le> n \<Longrightarrow> truncate_bytes ps n = ps"
  by (simp add: truncate_bytes_def)

end
