(* ===== verification/Delivery.thy ===== *)
theory Delivery
  imports Announce Outcome
begin

text \<open>
  \<open>packages/core/src/notification/delivery.job.ts\<close> and \<open>delivery.batch.ts\<close>: the job that sends one
  delivery, settles it or queues the next attempt, with the cleanup of \<open>retention.ts\<close>.

  What a destination answers is code outside the repository once the request is made: \<open>deliver\<close> is any
  function of the destination, the envelope and the state \<open>boss\<close> of the world outside. \<open>redact\<close> is the
  rewriting of a reason before it is stored, \<open>to_number\<close> is \<open>Number\<close> of a string, \<open>None\<close> when that is
  not an integer. The log lines of \<open>onError\<close> and the tracing spans are left out.
\<close>

section \<open>Delays\<close>

definition base_retry_seconds :: int where "base_retry_seconds = 15"
definition max_retry_seconds :: int where "max_retry_seconds = 60 * 60"
definition delivery_retry_limit :: int where "delivery_retry_limit = 8"

definition backoff_seconds :: "int \<Rightarrow> int" where
  "backoff_seconds attempt = min max_retry_seconds (base_retry_seconds * 2 ^ nat (max 0 (attempt - 1)))"

definition next_delay_seconds :: "int \<Rightarrow> int option \<Rightarrow> int" where
  "next_delay_seconds attempt askedFor =
     min max_retry_seconds (max (case askedFor of None \<Rightarrow> 0 | Some s \<Rightarrow> s) (backoff_seconds attempt))"

section \<open>Payloads\<close>

record delivery_payload_view =
  dp_organizationId :: ident
  dp_deliveryId :: ident
  dp_attempt :: int
  dp_traceparent :: "string option"

definition read_delivery_payload :: "(string \<Rightarrow> int option) \<Rightarrow> json \<Rightarrow> delivery_payload_view option" where
  "read_delivery_payload to_number payload =
     (case as_record payload of
        None \<Rightarrow> None
      | Some rec \<Rightarrow>
          (case (as_string (map_of rec ''organizationId''), as_string (map_of rec ''deliveryId'')) of
             (Some org, Some delivery) \<Rightarrow>
               (let carried = as_string (map_of rec ''traceparent'');
                    build = (\<lambda>n. Some \<lparr>dp_organizationId = org, dp_deliveryId = delivery, dp_attempt = n,
                                        dp_traceparent = carried\<rparr>);
                    counted = (\<lambda>n. if n < 1 then None else build n)
                in case map_of rec ''attempt'' of
                     None \<Rightarrow> build 1
                   | Some (JStr s) \<Rightarrow> (case to_number s of None \<Rightarrow> None | Some n \<Rightarrow> counted n)
                   | Some (JNum (Finite m e)) \<Rightarrow>
                       if decimal_whole m e then counted (decimal_ceil m e) else None
                   | Some _ \<Rightarrow> None)
           | _ \<Rightarrow> None))"

section \<open>The handler\<close>

record notification_envelope =
  en_id :: ident
  en_deliveryId :: ident
  en_kind :: notification_kind
  en_title :: string
  en_body :: string
  en_subjectType :: subject_type
  en_subjectId :: ident
  en_occurredAt :: time

type_synonym 'q delivery_send =
  "destination_row \<Rightarrow> notification_envelope \<Rightarrow> 'q \<Rightarrow> (thrown + delivery_outcome) \<times> 'q"

datatype delivery_result =
    ResultDelivered | ResultFailed | ResultAbandoned | ResultSkipped | ResultRetrying int

definition settled_states :: "delivery_state list" where
  "settled_states = [Delivered, Failed, Abandoned]"

definition gave_up :: string where "gave_up = ''the delivery did not go through''"

definition envelope_of :: "notification_row \<Rightarrow> delivery_row \<Rightarrow> notification_envelope" where
  "envelope_of n d =
     \<lparr>en_id = no_id n, en_deliveryId = dl_id d, en_kind = nv_kind (no_values n),
      en_title = nv_title (no_values n), en_body = nv_body (no_values n),
      en_subjectType = nv_subjectType (no_values n), en_subjectId = nv_subjectId (no_values n),
      en_occurredAt = no_createdAt n\<rparr>"

definition abandon :: "ident \<Rightarrow> ident \<Rightarrow> int \<Rightarrow> string \<Rightarrow> 'm notify_db_scheme \<Rightarrow> 'm notify_db_scheme" where
  "abandon org deliveryId attempt reason db =
     (let (t, db1) = read_now db in
      settle_delivery org deliveryId
        \<lparr>sv_state = Abandoned, sv_attempts = attempt, sv_settledAt = Some t, sv_lastError = Some reason\<rparr> db1)"

definition outcome_kind :: "delivery_outcome \<Rightarrow> attempt_outcome" where
  "outcome_kind o1 =
     (case o1 of OutDelivered _ \<Rightarrow> OutcomeDelivered | OutRetryable _ _ _ _ \<Rightarrow> OutcomeRetryable
      | OutTerminal _ _ _ _ \<Rightarrow> OutcomeTerminal)"

definition outcome_error :: "(string \<Rightarrow> string) \<Rightarrow> delivery_outcome \<Rightarrow> string option" where
  "outcome_error redact o1 =
     (case o1 of OutDelivered _ \<Rightarrow> None | OutRetryable _ r _ _ \<Rightarrow> Some (redact r)
      | OutTerminal _ r _ _ \<Rightarrow> Some (redact r))"

definition gives_up :: "delivery_outcome \<Rightarrow> int \<Rightarrow> int \<Rightarrow> bool" where
  "gives_up o1 attempt retryLimit \<longleftrightarrow> (case o1 of OutTerminal _ _ _ _ \<Rightarrow> True | _ \<Rightarrow> False) \<or> retryLimit \<le> attempt"

definition carried_field :: "string option \<Rightarrow> payload" where
  "carried_field traceparent = (case traceparent of None \<Rightarrow> [] | Some t \<Rightarrow> [(''traceparent'', t)])"

text \<open>A job sent from the transaction, whose refusal undoes it.\<close>

definition queue_then ::
    "'q job_sender \<Rightarrow> queue_name \<Rightarrow> payload \<Rightarrow> int option \<Rightarrow> string \<Rightarrow> 'a \<Rightarrow> ('q, 'a) app" where
  "queue_then send queue body startAfter refused result db =
     (case send_job send queue body startAfter db of
        (Inl e, db') \<Rightarrow> (Inl e, db')
      | (Inr None, db') \<Rightarrow> (Inl (internal_error refused), db')
      | (Inr (Some _), db') \<Rightarrow> (Inr result, db'))"

text \<open>The settling transaction, once the outcome is known.\<close>

definition settle_outcome ::
    "(string \<Rightarrow> string) \<Rightarrow> 'q job_sender \<Rightarrow> queue_name \<Rightarrow> int \<Rightarrow> delivery_payload_view \<Rightarrow> delivery_row
      \<Rightarrow> destination_row \<Rightarrow> delivery_outcome \<Rightarrow> time \<Rightarrow> ('q, delivery_result) app" where
  "settle_outcome redact send queue retryLimit payload delivery destination o1 settledAt db0 =
     (let org = dp_organizationId payload; attempt = dp_attempt payload;
          lastError = outcome_error redact o1;
          db1 = record_attempt org
                  \<lparr>av_deliveryId = dl_id delivery, av_attempt = attempt, av_outcome = outcome_kind o1,
                   av_statusCode = out_status o1, av_error = lastError\<rparr> db0
      in case o1 of
           OutDelivered _ \<Rightarrow>
             (Inr ResultDelivered,
              mark_destination_outcome org (de_id destination) (Some settledAt) None None
                (settle_delivery org (dl_id delivery)
                  \<lparr>sv_state = Delivered, sv_attempts = attempt, sv_settledAt = Some settledAt,
                   sv_lastError = None\<rparr> db1))
         | _ \<Rightarrow>
             (let db2 = mark_destination_outcome org (de_id destination) None (Some settledAt) lastError db1 in
              if gives_up o1 attempt retryLimit then
                (let stop = (case o1 of OutTerminal _ _ s _ \<Rightarrow> s | _ \<Rightarrow> False);
                     db3 = (if stop then disable_destination org (de_id destination) db2 else db2);
                     db4 = settle_delivery org (dl_id delivery)
                             \<lparr>sv_state = Failed, sv_attempts = attempt, sv_settledAt = Some settledAt,
                              sv_lastError = lastError\<rparr> db3
                 in queue_then send NotificationDeadletterQueue
                      ([(''organizationId'', org), (''deliveryId'', dl_id delivery)]
                       @ carried_field (dp_traceparent payload))
                      None ''this delivery could not be set aside'' ResultFailed db4)
              else
                (let afterSeconds = next_delay_seconds attempt
                                      (case o1 of OutRetryable _ _ r _ \<Rightarrow> r | _ \<Rightarrow> None);
                     db3 = settle_delivery org (dl_id delivery)
                             \<lparr>sv_state = Queued, sv_attempts = attempt, sv_settledAt = None,
                              sv_lastError = lastError\<rparr> db2
                 in queue_then send queue
                      ([(''organizationId'', org), (''deliveryId'', dl_id delivery),
                        (''attempt'', int_string (attempt + 1))] @ carried_field (dp_traceparent payload))
                      (Some afterSeconds) ''this delivery could not be queued again''
                      (ResultRetrying afterSeconds) db3)))"

text \<open>The request itself; a throw is a refusal.\<close>

definition attempt_delivery ::
    "'q delivery_send \<Rightarrow> destination_row \<Rightarrow> notification_envelope \<Rightarrow> 'q app_db \<Rightarrow> delivery_outcome \<times> 'q app_db" where
  "attempt_delivery deliver destination envelope db =
     (case deliver destination envelope (boss db) of
        (Inl _, b) \<Rightarrow> (classify_refusal gave_up, db\<lparr>boss := b\<rparr>)
      | (Inr o1, b) \<Rightarrow> (o1, db\<lparr>boss := b\<rparr>))"

definition deliver_job ::
    "(string \<Rightarrow> string) \<Rightarrow> 'q delivery_send \<Rightarrow> 'q job_sender \<Rightarrow> queue_name \<Rightarrow> int \<Rightarrow> delivery_payload_view
      \<Rightarrow> ('q, delivery_result) app" where
  "deliver_job redact deliver send queue retryLimit payload db =
     (let org = dp_organizationId payload; attempt = dp_attempt payload in
      case find_delivery org (dp_deliveryId payload) db of
        None \<Rightarrow> (Inr ResultSkipped, db)
      | Some delivery \<Rightarrow>
          if dl_state delivery \<in> set settled_states then (Inr ResultSkipped, db)
          else
            (case (find_destination org (dl_destinationId delivery) db,
                   find_notification org (dl_notificationId delivery) db) of
               (Some destination, Some notification) \<Rightarrow>
                 if \<not> de_enabled destination then
                   (Inr ResultAbandoned,
                    abandon org (dl_id delivery) attempt ''this destination was turned off before it could be sent'' db)
                 else
                   (let (o1, db1) = attempt_delivery deliver destination (envelope_of notification delivery) db;
                        (settledAt, db2) = read_now db1
                    in in_transaction
                         (settle_outcome redact send queue retryLimit payload delivery destination o1 settledAt) db2)
             | _ \<Rightarrow>
                 (Inr ResultAbandoned,
                  abandon org (dl_id delivery) attempt
                    ''the destination was removed before this could be sent'' db)))"

text \<open>
  A batch of jobs; malformed ones are counted as reported and passed over, a throw ends the batch.
\<close>

fun deliver_queued_batch ::
    "(string \<Rightarrow> int option) \<Rightarrow> (delivery_payload_view \<Rightarrow> ('w, delivery_result) io) \<Rightarrow> (ident \<times> json) list
      \<Rightarrow> ident list \<Rightarrow> ('w, ident list) io" where
  "deliver_queued_batch to_number deliver [] malformed w = (Inr malformed, w)"
| "deliver_queued_batch to_number deliver ((job, data) # jobs) malformed w =
     (case read_delivery_payload to_number data of
        None \<Rightarrow> deliver_queued_batch to_number deliver jobs (malformed @ [job]) w
      | Some payload \<Rightarrow>
          (case deliver payload w of
             (Inl e, w') \<Rightarrow> (Inl e, w')
           | (Inr _, w') \<Rightarrow> deliver_queued_batch to_number deliver jobs malformed w'))"

section \<open>Cleanup\<close>

fun cleanup_organizations ::
    "retention_boundaries \<Rightarrow> ident list \<Rightarrow> 'm notify_db_scheme \<Rightarrow> nat \<times> 'm notify_db_scheme" where
  "cleanup_organizations boundaries [] db = (0, db)"
| "cleanup_organizations boundaries (org # orgs) db =
     (let (n, db1) = delete_settled_before org (rb_createdBefore boundaries) (rb_settledBefore boundaries) db;
          (m, db2) = cleanup_organizations boundaries orgs db1
      in (n + m, db2))"

definition cleanup_handler ::
    "(ident list) \<Rightarrow> int \<Rightarrow> 'm notify_db_scheme \<Rightarrow> nat \<times> 'm notify_db_scheme" where
  "cleanup_handler organizationIds retentionDays db0 =
     (let (now, db) = read_now db0 in
      cleanup_organizations (boundaries_for now retentionDays) organizationIds db)"

section \<open>Lemmas\<close>

lemma backoff_bounds: "base_retry_seconds \<le> backoff_seconds attempt \<and> backoff_seconds attempt \<le> max_retry_seconds"
proof -
  have "(1 :: int) \<le> 2 ^ nat (max 0 (attempt - 1))" by simp
  then show ?thesis by (simp add: backoff_seconds_def base_retry_seconds_def max_retry_seconds_def)
qed

lemma backoff_mono: "a \<le> b \<Longrightarrow> backoff_seconds a \<le> backoff_seconds b"
proof -
  assume "a \<le> b"
  then have "nat (max 0 (a - 1)) \<le> nat (max 0 (b - 1))" by simp
  then have "(2 :: int) ^ nat (max 0 (a - 1)) \<le> 2 ^ nat (max 0 (b - 1))" by (rule power_increasing) simp
  then show ?thesis unfolding backoff_seconds_def
    by (intro min.mono) (simp_all add: base_retry_seconds_def)
qed

lemma next_delay_bounds:
  "base_retry_seconds \<le> next_delay_seconds attempt asked \<and> next_delay_seconds attempt asked \<le> max_retry_seconds"
  using backoff_bounds [of attempt]
  by (auto simp: next_delay_seconds_def base_retry_seconds_def max_retry_seconds_def split: option.split)

lemma next_delay_honours:
  "s \<le> max_retry_seconds \<Longrightarrow> s \<le> next_delay_seconds attempt (Some s)"
  by (simp add: next_delay_seconds_def)

subsection \<open>What a job does to its delivery\<close>

lemma find_settle_delivery:
  "find_delivery org i (settle_delivery org i v db) =
     map_option (\<lambda>d. d\<lparr>dl_state := sv_state v, dl_attempts := sv_attempts v, dl_settledAt := sv_settledAt v,
                      dl_lastError := sv_lastError v\<rparr>) (find_delivery org i db)"
proof -
  have "find (is_delivery org i) (update_rows (is_delivery org i) f xs) = map_option f (find (is_delivery org i) xs)"
    if "\<And>d. is_delivery org i (f d) = is_delivery org i d" for f xs
    using that by (intro find_update_rows_same) auto
  then show ?thesis by (simp add: find_delivery_def settle_delivery_def is_delivery_def)
qed

lemma deliveries_kept [simp]:
  "notificationDeliveries (record_attempt org v db) = notificationDeliveries db"
  "notificationDeliveries (mark_destination_outcome org i s f r db) = notificationDeliveries db"
  "notificationDeliveries (disable_destination org i db) = notificationDeliveries db"
  "notificationDeliveries (snd (send_job send q p t db')) = notificationDeliveries db'"
  by (simp_all add: record_attempt_def Let_def nanoid_def mark_destination_outcome_def disable_destination_def
      set_destination_enabled_def send_job_def case_prod_beta split: option.split)

lemma find_delivery_cong:
  "notificationDeliveries db' = notificationDeliveries db \<Longrightarrow> find_delivery org i db' = find_delivery org i db"
  by (simp add: find_delivery_def)

lemma find_delivery_kept [simp]:
  "find_delivery o1 i1 (record_attempt org v db) = find_delivery o1 i1 db"
  "find_delivery o1 i1 (mark_destination_outcome org i s f r db) = find_delivery o1 i1 db"
  "find_delivery o1 i1 (disable_destination org i db) = find_delivery o1 i1 db"
  by (rule find_delivery_cong; simp)+

lemma find_delivery_supplies [simp]:
  "find_delivery org i (db\<lparr>clock_next := n\<rparr>) = find_delivery org i db"
  "find_delivery org i (db2\<lparr>boss := b\<rparr>) = find_delivery org i db2"
  "find_delivery org i (db\<lparr>nano_next := n, clock_next := m\<rparr>) = find_delivery org i db"
  by (simp_all add: find_delivery_def)

lemma find_delivery_id: "find_delivery org i db = Some d \<Longrightarrow> dl_id d = i \<and> dl_organizationId d = org"
  by (auto simp: find_delivery_def is_delivery_def dest: find_SomeD)

text \<open>The state a result stands for.\<close>

fun result_state :: "delivery_result \<Rightarrow> delivery_state option" where
  "result_state ResultDelivered = Some Delivered"
| "result_state ResultFailed = Some Failed"
| "result_state ResultAbandoned = Some Abandoned"
| "result_state ResultSkipped = None"
| "result_state (ResultRetrying _) = Some Queued"

definition delivery_state_of :: "ident \<Rightarrow> ident \<Rightarrow> 'm notify_db_scheme \<Rightarrow> delivery_state option" where
  "delivery_state_of org i db = map_option dl_state (find_delivery org i db)"

lemma queue_then_Inr:
  assumes "queue_then send q body t m x db = (Inr r, db')"
  shows "r = x" and "find_delivery org i db' = find_delivery org i db"
proof -
  obtain y db1 where y: "send_job send q body t db = (y, db1)" by (metis surj_pair)
  have "notificationDeliveries db1 = notificationDeliveries db" using deliveries_kept(4) [of send q body t db] y by simp
  then have f: "find_delivery org i db1 = find_delivery org i db" by (rule find_delivery_cong)
  show "r = x" using assms y by (auto simp: queue_then_def split: sum.splits option.splits)
  show "find_delivery org i db' = find_delivery org i db"
    using assms y f by (auto simp: queue_then_def split: sum.splits option.splits)
qed

lemma obliging_queue_then:
  "obliging send \<Longrightarrow> \<exists>db'. queue_then send q body t m x db = (Inr x, db')"
  using obliging_send_job [of send q body t db] by (auto simp: queue_then_def)

lemma settle_outcome_result:
  assumes d: "find_delivery (dp_organizationId p) (dl_id delivery) db = Some delivery"
    and r: "settle_outcome redact send queue limit p delivery destination o1 t db = (Inr r, db')"
  shows "r \<noteq> ResultSkipped \<and> r \<noteq> ResultAbandoned \<and>
     delivery_state_of (dp_organizationId p) (dl_id delivery) db' = result_state r \<and>
     (\<forall>s. r = ResultRetrying s \<longrightarrow> dp_attempt p < limit \<and> base_retry_seconds \<le> s \<and> s \<le> max_retry_seconds)"
proof (cases o1)
  case (OutDelivered c)
  then show ?thesis using r d
    by (auto simp: settle_outcome_def Let_def delivery_state_of_def find_settle_delivery)
next
  case o1: (OutRetryable c reason after detail)
  show ?thesis
  proof (cases "limit \<le> dp_attempt p")
    case True
    then show ?thesis using r d queue_then_Inr
      by (fastforce simp: o1 settle_outcome_def Let_def gives_up_def delivery_state_of_def find_settle_delivery)
  next
    case False
    note q = r [unfolded o1 settle_outcome_def Let_def, simplified gives_up_def delivery_outcome.case if_False simp_thms False]
    show ?thesis
      using queue_then_Inr [OF q] d next_delay_bounds [of "dp_attempt p"] False
      by (auto simp: delivery_state_of_def find_settle_delivery)
  qed
next
  case o1: (OutTerminal c reason stop detail)
  then show ?thesis using r d queue_then_Inr
    by (cases stop) (fastforce simp: settle_outcome_def Let_def gives_up_def delivery_state_of_def find_settle_delivery)+
qed

lemma obliging_settle_outcome:
  fixes send :: "'q job_sender"
  assumes "obliging send"
  shows "\<exists>r db'. settle_outcome redact send queue limit p delivery destination o1 t db = (Inr r, db')"
proof -
  have q: "\<exists>r db'. queue_then send q body t1 m x y = (Inr r, db')" for q body t1 m x and y :: "'q app_db"
    using obliging_queue_then [OF assms] by fast
  show ?thesis by (cases o1) (simp_all add: settle_outcome_def Let_def q)
qed

lemma deliver_job_settled:
  assumes "delivery_state_of (dp_organizationId p) (dp_deliveryId p) db = Some st" and "st \<noteq> Queued"
  shows "deliver_job redact deliver send queue limit p db = (Inr ResultSkipped, db)"
  using assms by (cases st) (auto simp: deliver_job_def delivery_state_of_def settled_states_def)

lemma deliver_job_result:
  assumes r: "deliver_job redact deliver send queue limit p db = (Inr r, db')"
  shows "(r = ResultSkipped \<and> db' = db \<and> delivery_state_of (dp_organizationId p) (dp_deliveryId p) db \<noteq> Some Queued) \<or>
     (r \<noteq> ResultSkipped \<and>
      delivery_state_of (dp_organizationId p) (dp_deliveryId p) db = Some Queued \<and>
      delivery_state_of (dp_organizationId p) (dp_deliveryId p) db' = result_state r \<and>
      (\<forall>s. r = ResultRetrying s \<longrightarrow> dp_attempt p < limit \<and> base_retry_seconds \<le> s \<and> s \<le> max_retry_seconds))"
proof (cases "find_delivery (dp_organizationId p) (dp_deliveryId p) db")
  case None
  then show ?thesis using r by (simp add: deliver_job_def delivery_state_of_def)
next
  case (Some d)
  have did: "dl_id d = dp_deliveryId p" using find_delivery_id [OF Some] by simp
  show ?thesis
  proof (cases "dl_state d = Queued")
    case False
    then show ?thesis using r Some by (cases "dl_state d") (auto simp: deliver_job_def delivery_state_of_def settled_states_def)
  next
    case True
    let ?org = "dp_organizationId p"
    have q: "delivery_state_of ?org (dp_deliveryId p) db = Some Queued"
      using Some True by (simp add: delivery_state_of_def)
    have ab: "delivery_state_of ?org (dp_deliveryId p) (abandon ?org (dl_id d) a m db) = Some Abandoned" for a m
      using Some did by (simp add: abandon_def read_now_def delivery_state_of_def find_settle_delivery)
    show ?thesis
    proof (cases "find_destination ?org (dl_destinationId d) db = None \<or> find_notification ?org (dl_notificationId d) db = None")
      case True
      then have "deliver_job redact deliver send queue limit p db =
          (Inr ResultAbandoned, abandon ?org (dl_id d) (dp_attempt p) ''the destination was removed before this could be sent'' db)"
        using Some \<open>dl_state d = Queued\<close>
        by (auto simp: deliver_job_def settled_states_def Let_def split: option.split)
      then show ?thesis using r ab q by auto
    next
      case False
      then obtain de n where de: "find_destination ?org (dl_destinationId d) db = Some de"
        and n: "find_notification ?org (dl_notificationId d) db = Some n" by auto
      show ?thesis
      proof (cases "de_enabled de")
        case False
        then show ?thesis using r Some True de n ab q by (auto simp: deliver_job_def settled_states_def)
      next
        case enabled: True
        obtain o1 db1 where o1: "attempt_delivery deliver de (envelope_of n d) db = (o1, db1)" by (metis surj_pair)
        have f1: "find_delivery ?org (dl_id d) db1 = Some d"
          using o1 Some did by (auto simp: attempt_delivery_def split: prod.splits sum.splits)
        let ?db2 = "db1\<lparr>clock_next := Suc (clock_next db1)\<rparr>"
        let ?s = "settle_outcome redact send queue limit p d de o1 (clock db1 (clock_next db1))"
        have j: "deliver_job redact deliver send queue limit p db = in_transaction ?s ?db2"
          using Some True de n enabled o1 by (simp add: deliver_job_def settled_states_def Let_def read_now_def)
        have f2: "find_delivery ?org (dl_id d) ?db2 = Some d" using f1 by simp
        from r j have "?s ?db2 = (Inr r, db')"
          by (auto simp: in_transaction_def split: prod.splits sum.splits)
        from settle_outcome_result [OF f2 this] show ?thesis using q did by (cases r) auto
      qed
    qed
  qed
qed

lemma deliver_job_throws:
  assumes r: "deliver_job redact deliver send queue limit p db = (Inl e, db')"
  shows "\<not> obliging send \<and> (\<forall>org i. find_delivery org i db' = find_delivery org i db)"
proof -
  let ?org = "dp_organizationId p"
  obtain d de n where d: "find_delivery ?org (dp_deliveryId p) db = Some d" "dl_state d \<notin> set settled_states"
    "find_destination ?org (dl_destinationId d) db = Some de" "find_notification ?org (dl_notificationId d) db = Some n"
    "de_enabled de"
    using r by (auto simp: deliver_job_def Let_def split: option.splits if_splits)
  obtain o1 db1 where o1: "attempt_delivery deliver de (envelope_of n d) db = (o1, db1)" by (metis surj_pair)
  let ?db2 = "db1\<lparr>clock_next := Suc (clock_next db1)\<rparr>"
  let ?s = "settle_outcome redact send queue limit p d de o1 (clock db1 (clock_next db1))"
  have j: "deliver_job redact deliver send queue limit p db = in_transaction ?s ?db2"
    using d o1 by (simp add: deliver_job_def Let_def read_now_def)
  obtain db3 where s: "?s ?db2 = (Inl e, db3)"
    and db': "db' = ?db2\<lparr>nano_next := nano_next db3, clock_next := clock_next db3\<rparr>"
    using r j by (auto simp: in_transaction_def split: prod.splits sum.splits)
  have "\<not> obliging send"
    using obliging_settle_outcome [of send redact queue limit p d de o1 "clock db1 (clock_next db1)" ?db2] s by auto
  moreover have "notificationDeliveries db1 = notificationDeliveries db"
    using o1 by (auto simp: attempt_delivery_def split: prod.splits sum.splits)
  ultimately show ?thesis using db' by (simp add: find_delivery_def)
qed

text \<open>
  The attempts of one delivery, each run from the job the last one queued. The fuel counts the jobs.
\<close>

fun delivery_chain ::
    "nat \<Rightarrow> (string \<Rightarrow> string) \<Rightarrow> 'q delivery_send \<Rightarrow> 'q job_sender \<Rightarrow> queue_name \<Rightarrow> int
      \<Rightarrow> delivery_payload_view \<Rightarrow> ('q, delivery_result) app" where
  "delivery_chain 0 redact deliver send queue limit p db = (Inr (ResultRetrying 0), db)"
| "delivery_chain (Suc n) redact deliver send queue limit p db =
     (case deliver_job redact deliver send queue limit p db of
        (Inl e, db') \<Rightarrow> (Inl e, db')
      | (Inr (ResultRetrying _), db') \<Rightarrow>
          delivery_chain n redact deliver send queue limit (p\<lparr>dp_attempt := dp_attempt p + 1\<rparr>) db'
      | (Inr r, db') \<Rightarrow> (Inr r, db'))"

lemma delivery_chain_settles_aux:
  assumes "obliging send" and "limit - dp_attempt p < int n" and "0 < n"
    and "delivery_state_of (dp_organizationId p) (dp_deliveryId p) db = Some Queued"
  shows "\<exists>r db'. delivery_chain n redact deliver send queue limit p db = (Inr r, db') \<and>
     r \<in> {ResultDelivered, ResultFailed, ResultAbandoned} \<and>
     delivery_state_of (dp_organizationId p) (dp_deliveryId p) db' = result_state r"
  using assms
proof (induction n arbitrary: p db)
  case 0
  then show ?case by simp
next
  case (Suc n)
  obtain r db' where r: "deliver_job redact deliver send queue limit p db = (Inr r, db')"
    using deliver_job_throws [of redact deliver send queue limit p db] Suc.prems(1)
    by (cases "deliver_job redact deliver send queue limit p db"; cases "fst (deliver_job redact deliver send queue limit p db)") auto
  from deliver_job_result [OF r] Suc.prems(4)
  have res: "r \<noteq> ResultSkipped" "delivery_state_of (dp_organizationId p) (dp_deliveryId p) db' = result_state r"
    "\<And>s. r = ResultRetrying s \<Longrightarrow> dp_attempt p < limit" by auto
  show ?case
  proof (cases r)
    case (ResultRetrying s)
    let ?p = "p\<lparr>dp_attempt := dp_attempt p + 1\<rparr>"
    have "limit - dp_attempt ?p < int n" using Suc.prems(2) by simp
    moreover have "0 < n" using Suc.prems(2) res(3) [OF ResultRetrying] by simp
    ultimately show ?thesis
      using Suc.IH [OF Suc.prems(1), of ?p db'] r ResultRetrying res(2) by simp
  qed (use r res in auto)
qed

subsection \<open>Cleanup\<close>

lemma cascade_notifications [simp]: "notifications (cascade_attempts db) = notifications db"
  "notificationDeliveries (cascade_attempts db) = notificationDeliveries db"
  by (simp_all add: cascade_attempts_def)

text \<open>What cleanup removes, and that nothing with an open or recent delivery goes.\<close>

lemma delete_settled_before_removes:
  "n \<in> set (notifications (snd (delete_settled_before org c s db))) \<longleftrightarrow>
     n \<in> set (notifications db) \<and>
     \<not> (no_organizationId n = org \<and> no_createdAt n < c \<and> \<not> keeps_notification s db n)"
  by (auto simp: delete_settled_before_def Let_def)

lemma delete_settled_before_queued:
  assumes "d \<in> set (notificationDeliveries db)" and "dl_state d = Queued \<or> dl_settledAt d = None"
  shows "d \<in> set (notificationDeliveries (snd (delete_settled_before org c s db)))"
proof -
  have keep: "keeps_notification s db n" if "no_id n = dl_notificationId d" "no_organizationId n = dl_organizationId d" for n
    using assms that by (auto simp: keeps_notification_def list_ex_iff)
  show ?thesis using assms(1) keep by (auto simp: delete_settled_before_def Let_def list_ex_iff)
qed

lemma delete_settled_before_count:
  "fst (delete_settled_before org c s db) + length (notifications (snd (delete_settled_before org c s db))) =
     length (notifications db)"
proof -
  let ?doomed = "\<lambda>n. no_organizationId n = org \<and> no_createdAt n < c \<and> \<not> keeps_notification s db n"
  have "fst (delete_settled_before org c s db) = length (filter ?doomed (notifications db))"
    by (simp add: delete_settled_before_def Let_def updated_count_def)
  moreover have "notifications (snd (delete_settled_before org c s db)) = filter (\<lambda>n. \<not> ?doomed n) (notifications db)"
    by (simp add: delete_settled_before_def Let_def)
  ultimately show ?thesis by (simp only: sum_length_filter_compl)
qed

end
