(* ===== verification/Schedule.thy ===== *)
theory Schedule
  imports Unit
begin

text \<open>
  \<open>packages/contracts/src/schedule.ts\<close>, \<open>packages/core/src/instance/schedule.ts\<close> and \<open>due.ts\<close>: days of
  the week and times of day, how a sleep window becomes a pair of systemd timers, and when a stored
  time is due in its own time zone.

  \<open>Intl.DateTimeFormat(..).formatToParts\<close> is the parameter \<open>zone_parts\<close>: from a time zone and an instant
  to the parts by type, \<open>None\<close> where the constructor throws. Minutes of the day are stored as integers
  from 0 to 1439, so they are natural numbers here.
\<close>

section \<open>Days and times\<close>

datatype day_of_week = Mon | Tue | Wed | Thu | Fri | Sat | Sun

definition days_of_week :: "day_of_week list" where
  "days_of_week = [Mon, Tue, Wed, Thu, Fri, Sat, Sun]"

fun day_name :: "day_of_week \<Rightarrow> string" where
  "day_name Mon = ''Mon''"
| "day_name Tue = ''Tue''"
| "day_name Wed = ''Wed''"
| "day_name Thu = ''Thu''"
| "day_name Fri = ''Fri''"
| "day_name Sat = ''Sat''"
| "day_name Sun = ''Sun''"

definition minutes_per_day :: nat where "minutes_per_day = 24 * 60"

record time_of_day =
  hour :: nat
  minute :: nat

definition time_of_day_ok :: "time_of_day \<Rightarrow> bool" where
  "time_of_day_ok t \<longleftrightarrow> hour t \<le> 23 \<and> minute t \<le> 59"

definition minute_of_day :: "time_of_day \<Rightarrow> nat" where
  "minute_of_day t = hour t * 60 + minute t"

definition time_of_day_of :: "nat \<Rightarrow> time_of_day" where
  "time_of_day_of minutes = \<lparr>hour = minutes div 60, minute = minutes mod 60\<rparr>"

text \<open>\<open>/^[A-Za-z][A-Za-z0-9+_-]*(?:\/[A-Za-z0-9+_-]+){0,2}$/\<close>\<close>

definition zone_char :: "char \<Rightarrow> bool" where
  "zone_char c \<longleftrightarrow> is_alnum c \<or> c \<in> set ''+_-''"

definition timezone_pattern :: "string \<Rightarrow> bool" where
  "timezone_pattern s =
     (case split_on (CHR ''/'') s of
        [] \<Rightarrow> False
      | area # rest \<Rightarrow>
          (case area of [] \<Rightarrow> False | c # cs \<Rightarrow> is_alpha c \<and> list_all zone_char cs) \<and>
          length rest \<le> 2 \<and> list_all (\<lambda>part. part \<noteq> [] \<and> list_all zone_char part) rest)"

text \<open>The checks of \<open>sleepWindowInput\<close> that are not \<open>Intl\<close>'s.\<close>

record sleep_window =
  sw_instanceId :: string
  sw_daysOfWeek :: "day_of_week list"
  sw_stopAt :: time_of_day
  sw_startAt :: time_of_day
  sw_timezone :: string

definition sleep_window_input_ok :: "(string \<Rightarrow> bool) \<Rightarrow> sleep_window \<Rightarrow> bool" where
  "sleep_window_input_ok isKnownTimezone w \<longleftrightarrow>
     1 \<le> length (sw_instanceId w) \<and>
     1 \<le> length (sw_daysOfWeek w) \<and> length (sw_daysOfWeek w) \<le> 7 \<and>
     time_of_day_ok (sw_stopAt w) \<and> time_of_day_ok (sw_startAt w) \<and>
     1 \<le> length (sw_timezone w) \<and> length (sw_timezone w) \<le> 64 \<and>
     timezone_pattern (sw_timezone w) \<and> isKnownTimezone (sw_timezone w) \<and>
     minute_of_day (sw_stopAt w) \<noteq> minute_of_day (sw_startAt w)"

section \<open>Sleep timers\<close>

definition sleep_stop_unit :: string where "sleep_stop_unit = ''open-mcc-sleep-stop''"
definition sleep_start_unit :: string where "sleep_start_unit = ''open-mcc-sleep-start''"

definition sleep_stop_timer :: "string \<Rightarrow> thrown + string" where
  "sleep_stop_timer instanceId =
     rbind (validate_instance_id instanceId) (\<lambda>i. Inr (sleep_stop_unit @ ''@'' @ i @ ''.timer''))"

definition sleep_start_timer :: "string \<Rightarrow> thrown + string" where
  "sleep_start_timer instanceId =
     rbind (validate_instance_id instanceId) (\<lambda>i. Inr (sleep_start_unit @ ''@'' @ i @ ''.timer''))"

definition validate_timezone :: "string \<Rightarrow> thrown + string" where
  "validate_timezone timezone =
     (if \<not> timezone_pattern timezone \<or> 64 < length timezone then
        Inl (internal_error (''Refusing to render a timer for an unrecognised timezone: '' @ timezone))
      else Inr timezone)"

definition ordered_days :: "day_of_week list \<Rightarrow> day_of_week list" where
  "ordered_days days = filter (\<lambda>day. day \<in> set days) days_of_week"

definition no_days :: thrown where
  "no_days = internal_error ''A sleep window must name at least one day''"

definition joined_days :: "day_of_week list \<Rightarrow> string" where
  "joined_days ordered = join_with '','' (map day_name ordered)"

definition render_days_of_week :: "day_of_week list \<Rightarrow> thrown + string" where
  "render_days_of_week days =
     (let ordered = ordered_days days in
      if length ordered = 0 then Inl no_days
      else Inr (if length ordered = length days_of_week then ''*'' else joined_days ordered))"

definition calendar_weekday_prefix :: "day_of_week list \<Rightarrow> thrown + string" where
  "calendar_weekday_prefix days =
     (let ordered = ordered_days days in
      if length ordered = 0 then Inl no_days
      else Inr (if length ordered = length days_of_week then [] else joined_days ordered @ '' ''))"

definition day_of_name :: "string \<Rightarrow> day_of_week option" where
  "day_of_name value = find (\<lambda>day. day_name day = value) days_of_week"

definition is_day_of_week :: "string \<Rightarrow> bool" where
  "is_day_of_week value = list_ex (\<lambda>day. day_name day = value) days_of_week"

definition parse_days_of_week :: "string \<Rightarrow> day_of_week list" where
  "parse_days_of_week stored =
     (if stored = ''*'' then days_of_week
      else ordered_days (List.map_filter day_of_name (filter is_day_of_week (split_on (CHR '','') stored))))"

definition render_on_calendar :: "day_of_week list \<Rightarrow> nat \<Rightarrow> string \<Rightarrow> thrown + string" where
  "render_on_calendar days minutes timezone =
     rbind (calendar_weekday_prefix days) (\<lambda>weekdays.
       rbind (validate_timezone timezone) (\<lambda>zone.
         Inr (weekdays @ ''*-*-* '' @ pad_zero 2 (minutes div 60) @ '':'' @ pad_zero 2 (minutes mod 60)
              @ '':00 '' @ zone)))"

definition timer_unit :: "string \<Rightarrow> string \<Rightarrow> string \<Rightarrow> string" where
  "timer_unit description onCalendar instanceId =
     ''[Unit]'' @ [lf] @
     ''Description='' @ description @ '' for open-mcc instance '' @ instanceId @ [lf] @
     [lf] @
     ''[Timer]'' @ [lf] @
     ''OnCalendar='' @ onCalendar @ [lf] @
     ''Persistent=false'' @ [lf] @
     ''AccuracySec=30s'' @ [lf] @
     [lf] @
     ''[Install]'' @ [lf] @
     ''WantedBy=timers.target'' @ [lf]"

definition render_sleep_timers :: "sleep_window \<Rightarrow> thrown + (string \<times> string) list" where
  "render_sleep_timers w =
     rbind (validate_instance_id (sw_instanceId w)) (\<lambda>instanceId.
       rbind (render_on_calendar (sw_daysOfWeek w) (minute_of_day (sw_stopAt w)) (sw_timezone w)) (\<lambda>stop.
         rbind (render_on_calendar (sw_daysOfWeek w) (minute_of_day (sw_startAt w)) (sw_timezone w)) (\<lambda>start.
           Inr [(sleep_stop_unit @ ''@'' @ instanceId @ ''.timer'', timer_unit ''Sleep window stop'' stop instanceId),
                (sleep_start_unit @ ''@'' @ instanceId @ ''.timer'', timer_unit ''Sleep window start'' start instanceId)])))"

section \<open>Due\<close>

definition catch_up_grace_minutes :: nat where "catch_up_grace_minutes = 60"

record zoned_moment =
  zm_weekday :: day_of_week
  zm_minuteOfDay :: nat
  zm_dateKey :: string

type_synonym zone_parts = "string \<Rightarrow> time \<Rightarrow> (string \<times> string) list option"

definition unknown_timezone :: "string \<Rightarrow> thrown" where
  "unknown_timezone m = Thrown ''UnknownTimezoneError'' m"

text \<open>\<open>parts.find((part) => part.type === type)?.value ?? ""\<close>\<close>

definition part_value :: "(string \<times> string) list \<Rightarrow> string \<Rightarrow> string" where
  "part_value parts type = (case find (\<lambda>p. fst p = type) parts of None \<Rightarrow> [] | Some p \<Rightarrow> snd p)"

text \<open>\<open>WEEKDAY_BY_SHORT_NAME\<close> maps each short name to the day of that name.\<close>

definition zoned_moment_of :: "zone_parts \<Rightarrow> time \<Rightarrow> string \<Rightarrow> thrown + zoned_moment" where
  "zoned_moment_of zone_parts t timezone =
     (case zone_parts timezone t of
        None \<Rightarrow> Inl (unknown_timezone (''Unknown timezone: '' @ timezone))
      | Some parts \<Rightarrow>
          (case day_of_name (part_value parts ''weekday'') of
             None \<Rightarrow> Inl (unknown_timezone (''Unknown weekday for timezone: '' @ timezone))
           | Some weekday \<Rightarrow>
               Inr \<lparr>zm_weekday = weekday,
                    zm_minuteOfDay = number_of (part_value parts ''hour'') * 60
                      + number_of (part_value parts ''minute''),
                    zm_dateKey = part_value parts ''year'' @ ''-'' @ part_value parts ''month'' @ ''-''
                      @ part_value parts ''day''\<rparr>))"

record due_candidate =
  dc_daysOfWeek :: "day_of_week list"
  dc_minuteOfDay :: nat
  dc_timezone :: string
  dc_enabled :: bool
  dc_lastRunAt :: "time option"

definition is_due :: "zone_parts \<Rightarrow> due_candidate \<Rightarrow> time \<Rightarrow> thrown + bool" where
  "is_due zone_parts candidate t =
     (if \<not> dc_enabled candidate then Inr False
      else if length (dc_daysOfWeek candidate) = 0 then Inr False
      else rbind (zoned_moment_of zone_parts t (dc_timezone candidate)) (\<lambda>now.
        if zm_weekday now \<notin> set (dc_daysOfWeek candidate) then Inr False
        else
          (let elapsed = int (zm_minuteOfDay now) - int (dc_minuteOfDay candidate) in
           if elapsed < 0 \<or> int catch_up_grace_minutes < elapsed then Inr False
           else (case dc_lastRunAt candidate of
              None \<Rightarrow> Inr True
            | Some lastRun \<Rightarrow>
                rbind (zoned_moment_of zone_parts lastRun (dc_timezone candidate)) (\<lambda>before.
                  Inr (zm_dateKey before \<noteq> zm_dateKey now))))))"

definition every_day :: "day_of_week list" where "every_day = days_of_week"

definition start_of_local_day :: "zone_parts \<Rightarrow> string \<Rightarrow> time \<Rightarrow> thrown + time" where
  "start_of_local_day zone_parts timezone t =
     rbind (zoned_moment_of zone_parts t timezone) (\<lambda>m. Inr (t - int (zm_minuteOfDay m) * 60000))"

section \<open>Lemmas\<close>

lemma day_name_inject [simp]: "day_name a = day_name b \<longleftrightarrow> a = b"
  by (cases a; cases b) simp_all

lemma in_days_of_week [simp]: "d \<in> set days_of_week"
  by (cases d) (simp_all add: days_of_week_def)

lemma day_of_name_name [simp]: "day_of_name (day_name d) = Some d"
  by (cases d) (simp_all add: day_of_name_def days_of_week_def)

lemma is_day_of_week_name [simp]: "is_day_of_week (day_name d)"
  by (cases d) (simp_all add: is_day_of_week_def days_of_week_def)

lemma day_name_chars: "c \<in> set (day_name d) \<Longrightarrow> is_alpha c"
  by (cases d) (auto simp: is_alpha_def)

lemma day_name_clean [simp]: "CHR '','' \<notin> set (day_name d)" "lf \<notin> set (day_name d)"
  by (cases d; simp add: lf_def)+

lemma set_ordered_days [simp]: "set (ordered_days days) = set days"
  by (auto simp: ordered_days_def)

lemma ordered_days_Nil [simp]: "ordered_days days = [] \<longleftrightarrow> days = []"
  by (metis set_ordered_days set_empty)

lemma ordered_days_idem [simp]: "ordered_days (ordered_days days) = ordered_days days"
  by (simp add: ordered_days_def)

lemma ordered_days_full: "length (ordered_days days) = length days_of_week \<Longrightarrow> ordered_days days = days_of_week"
  by (metis ordered_days_def filter_id_conv length_filter_less less_irrefl)

lemma joined_days_not_star: "joined_days ds \<noteq> ''*''"
proof (cases ds)
  case Nil
  then show ?thesis by (simp add: joined_days_def)
next
  case (Cons d rest)
  show ?thesis by (cases rest; cases d) (simp_all add: Cons joined_days_def)
qed

lemma parse_joined_days: "ds \<noteq> [] \<Longrightarrow> parse_days_of_week (joined_days ds) = ordered_days ds"
proof -
  assume ne: "ds \<noteq> []"
  have split: "split_on (CHR '','') (joined_days ds) = map day_name ds"
    unfolding joined_days_def by (rule split_join) (use ne in auto)
  have "filter is_day_of_week (map day_name ds) = map day_name ds" by (simp add: filter_id_conv)
  moreover have "List.map_filter day_of_name (map day_name ds) = ds"
    by (induction ds) (simp_all add: List.map_filter_def)
  ultimately show ?thesis
    by (simp add: parse_days_of_week_def split joined_days_not_star)
qed

text \<open>What is stored for a set of days reads back as those days, in the week's order.\<close>

lemma parse_render_days:
  assumes "render_days_of_week days = Inr stored"
  shows "parse_days_of_week stored = ordered_days days"
proof (cases "length (ordered_days days) = length days_of_week")
  case True
  then have "stored = ''*''" using assms by (simp add: render_days_of_week_def Let_def split: if_splits)
  then show ?thesis using ordered_days_full [OF True] by (simp add: parse_days_of_week_def)
next
  case False
  then have "stored = joined_days (ordered_days days)" "ordered_days days \<noteq> []"
    using assms by (auto simp: render_days_of_week_def Let_def split: if_splits)
  then show ?thesis by (simp add: parse_joined_days)
qed

lemma render_days_Inr_iff: "(\<exists>s. render_days_of_week days = Inr s) \<longleftrightarrow> days \<noteq> []"
  by (simp add: render_days_of_week_def Let_def)

lemma time_of_day_round:
  "time_of_day_of (minute_of_day t) = t" if "minute t \<le> 59"
  using that by (simp add: time_of_day_of_def minute_of_day_def)

lemma minute_of_day_round: "minute_of_day (time_of_day_of m) = m"
  by (simp add: time_of_day_of_def minute_of_day_def)

lemma minute_of_day_bound: "time_of_day_ok t \<Longrightarrow> minute_of_day t < minutes_per_day"
  by (simp add: time_of_day_ok_def minute_of_day_def minutes_per_day_def)

subsection \<open>A rendered timer holds its directives and no others\<close>

lemma zone_char_clean: "zone_char c \<Longrightarrow> c \<noteq> lf"
  by (auto simp: zone_char_def is_alnum_def is_alpha_def is_digit_def lf_def)

lemma is_alpha_zone_char: "is_alpha c \<Longrightarrow> zone_char c"
  by (simp add: zone_char_def is_alnum_def)

lemma timezone_pattern_chars:
  assumes "timezone_pattern s" and "c \<in> set s"
  shows "zone_char c \<or> c = CHR ''/''"
proof -
  obtain area rest where parts: "split_on (CHR ''/'') s = area # rest"
    using assms(1) by (auto simp: timezone_pattern_def split: list.splits)
  have ok: "list_all zone_char p" if "p \<in> set (area # rest)" for p
    using that assms(1) parts
    by (auto simp: timezone_pattern_def list_all_iff is_alpha_zone_char split: list.splits)
  have "s = join_with ''/'' (area # rest)" using parts by (metis join_split)
  then have "c \<in> set ''/'' \<union> (\<Union>p \<in> set (area # rest). set p)"
    using assms(2) subsetD [OF set_join_with [of "''/''" "area # rest"]] by metis
  then show ?thesis using ok by (auto simp: list_all_iff)
qed

lemma timezone_pattern_no_lf: "timezone_pattern s \<Longrightarrow> lf \<notin> set s"
proof
  assume "timezone_pattern s" "lf \<in> set s"
  then have "zone_char lf \<or> lf = CHR ''/''" by (rule timezone_pattern_chars)
  then show False using zone_char_clean [of lf] by (simp add: lf_def)
qed

lemma pad_zero_no_lf [simp]: "lf \<notin> set (pad_zero w n)"
  using nat_string_digits [of n] by (auto simp: pad_zero_def Let_def is_digit_def lf_def)

lemma joined_days_no_lf [simp]: "lf \<notin> set (joined_days ds)"
proof
  assume "lf \<in> set (joined_days ds)"
  then have "lf \<in> set '','' \<union> (\<Union>p \<in> set (map day_name ds). set p)"
    using subsetD [OF set_join_with [of "'',''" "map day_name ds"]] unfolding joined_days_def by metis
  moreover have "lf \<notin> set '',''" by (simp add: lf_def)
  ultimately show False by auto
qed

lemma weekday_prefix_no_lf: "calendar_weekday_prefix days = Inr p \<Longrightarrow> lf \<notin> set p"
  using joined_days_no_lf [of "ordered_days days"]
  by (auto simp: calendar_weekday_prefix_def Let_def lf_def split: if_splits)

lemma render_on_calendar_no_lf:
  assumes "render_on_calendar days minutes timezone = Inr s"
  shows "lf \<notin> set s"
proof -
  obtain p where p: "calendar_weekday_prefix days = Inr p" and z: "timezone_pattern timezone"
    and s: "s = p @ ''*-*-* '' @ pad_zero 2 (minutes div 60) @ '':'' @ pad_zero 2 (minutes mod 60)
              @ '':00 '' @ timezone"
    using assms
    by (auto simp: render_on_calendar_def rbind_Inr validate_timezone_def split: if_splits)
  have "lf \<notin> set ''*-*-* ''" "lf \<notin> set '':''" "lf \<notin> set '':00 ''" by (simp_all add: lf_def)
  then show ?thesis
    using weekday_prefix_no_lf [OF p] timezone_pattern_no_lf [OF z] s by simp
qed

lemma instance_id_no_lf: "instance_id_ok i \<Longrightarrow> lf \<notin> set i"
  using instance_id_chars [of i]
  by (auto simp: list_all_iff is_alnum_def is_alpha_def is_digit_def lf_def)

lemma timer_unit_lines:
  assumes "lf \<notin> set d" and "lf \<notin> set c" and "lf \<notin> set i"
  shows "split_on lf (timer_unit d c i) =
    [''[Unit]'', ''Description='' @ d @ '' for open-mcc instance '' @ i, [],
     ''[Timer]'', ''OnCalendar='' @ c, ''Persistent=false'', ''AccuracySec=30s'', [],
     ''[Install]'', ''WantedBy=timers.target'', []]" (is "_ = ?lines")
proof -
  have eq: "timer_unit d c i = join_with [lf] ?lines" by (simp add: timer_unit_def)
  have "\<forall>p \<in> set ?lines. lf \<notin> set p" using assms by (simp add: lf_def)
  then show ?thesis unfolding eq by (intro split_join) simp_all
qed

lemma render_sleep_timers_cases:
  assumes "render_sleep_timers w = Inr timers"
  shows "\<exists>stop start. instance_id_ok (sw_instanceId w) \<and>
    render_on_calendar (sw_daysOfWeek w) (minute_of_day (sw_stopAt w)) (sw_timezone w) = Inr stop \<and>
    render_on_calendar (sw_daysOfWeek w) (minute_of_day (sw_startAt w)) (sw_timezone w) = Inr start \<and>
    timers = [(sleep_stop_unit @ ''@'' @ sw_instanceId w @ ''.timer'', timer_unit ''Sleep window stop'' stop (sw_instanceId w)),
              (sleep_start_unit @ ''@'' @ sw_instanceId w @ ''.timer'', timer_unit ''Sleep window start'' start (sw_instanceId w))]"
  using assms by (auto simp: render_sleep_timers_def rbind_Inr validate_instance_id_Inr)

text \<open>
  Whatever window renders, each of its two units has exactly one \<open>OnCalendar\<close> line, that of the window's
  time, and no value of the window adds a line.
\<close>

lemma render_sleep_timers_lines:
  assumes "render_sleep_timers w = Inr timers" and "unit \<in> set timers"
  shows "\<exists>calendar. (\<exists>t \<in> {sw_stopAt w, sw_startAt w}.
      render_on_calendar (sw_daysOfWeek w) (minute_of_day t) (sw_timezone w) = Inr calendar) \<and>
    length (split_on lf (snd unit)) = 11 \<and>
    filter (\<lambda>l. starts_with l ''OnCalendar='') (split_on lf (snd unit)) = [''OnCalendar='' @ calendar]"
proof -
  obtain stop start where ok: "instance_id_ok (sw_instanceId w)"
    and stop: "render_on_calendar (sw_daysOfWeek w) (minute_of_day (sw_stopAt w)) (sw_timezone w) = Inr stop"
    and start: "render_on_calendar (sw_daysOfWeek w) (minute_of_day (sw_startAt w)) (sw_timezone w) = Inr start"
    and unit: "snd unit = timer_unit ''Sleep window stop'' stop (sw_instanceId w) \<or>
               snd unit = timer_unit ''Sleep window start'' start (sw_instanceId w)"
    using render_sleep_timers_cases [OF assms(1)] assms(2) by auto
  have clean: "lf \<notin> set ''Sleep window stop''" "lf \<notin> set ''Sleep window start''"
    by (simp_all add: lf_def)
  have lines: "split_on lf (snd unit) = split_on lf (timer_unit d c (sw_instanceId w))
      \<Longrightarrow> lf \<notin> set d \<Longrightarrow> lf \<notin> set c \<Longrightarrow> length (split_on lf (snd unit)) = 11 \<and>
        filter (\<lambda>l. starts_with l ''OnCalendar='') (split_on lf (snd unit)) = [''OnCalendar='' @ c]" for d c
    using timer_unit_lines [of d c "sw_instanceId w"] instance_id_no_lf [OF ok] by simp
  from unit show ?thesis
    using lines [of "''Sleep window stop''" stop] lines [of "''Sleep window start''" start]
      render_on_calendar_no_lf [OF stop] render_on_calendar_no_lf [OF start] stop start clean
    by auto
qed

subsection \<open>When a stored time is due\<close>

lemma is_due_iff:
  assumes "zoned_moment_of zp t (dc_timezone c) = Inr now"
    and "\<And>r. dc_lastRunAt c = Some r \<Longrightarrow> zoned_moment_of zp r (dc_timezone c) = Inr (before r)"
  shows "is_due zp c t = Inr
    (dc_enabled c \<and> zm_weekday now \<in> set (dc_daysOfWeek c) \<and>
     dc_minuteOfDay c \<le> zm_minuteOfDay now \<and>
     zm_minuteOfDay now \<le> dc_minuteOfDay c + catch_up_grace_minutes \<and>
     (\<forall>r. dc_lastRunAt c = Some r \<longrightarrow> zm_dateKey (before r) \<noteq> zm_dateKey now))"
  using assms
  by (cases "dc_lastRunAt c") (auto simp: is_due_def Let_def)

end
