(* ===== verification/Tasks.thy ===== *)
theory Tasks
  imports Schedule Complex_Main
begin

text \<open>
  \<open>packages/core/src/instance/task.ts\<close> and \<open>task-run.ts\<close>: what makes a task due, by signal, by time of day
  and by interval, and sending its steps in order.

  \<open>Math.random()\<close> is a real argument of the jitter. A step's failure carries the class the source gives
  it, with the steps sent before.
\<close>

section \<open>Rows\<close>

definition task_tick_ms :: int where "task_tick_ms = 30000"
definition task_signal_catch_up_ms :: int where "task_signal_catch_up_ms = 10 * 60 * 1000"
definition task_run_retention_days :: int where "task_run_retention_days = 7"
definition task_signal_retention_days :: int where "task_signal_retention_days = 120"
definition task_abandoned_after_ms :: int where "task_abandoned_after_ms = 15 * 60 * 1000"
definition task_abandoned_reason :: string where
  "task_abandoned_reason = ''The manager stopped part-way through this task''"

datatype task_trigger = OnFirstLogin | OnLogin | OnRespawn | OnTime | OnInterval

datatype task_run_outcome = RunRunning | RunSent | RunFailed | RunAbandoned

datatype signal_kind = SignalLogin | SignalRespawn

record instance_task_row =
  it_id :: ident
  it_organizationId :: ident
  it_instanceId :: ident
  it_name :: string
  it_stepDelaySeconds :: nat
  it_enabled :: bool
  it_timezone :: string
  it_onFirstLogin :: bool
  it_onLogin :: bool
  it_onRespawn :: bool
  it_intervalMinSeconds :: "nat option"
  it_intervalMaxSeconds :: "nat option"
  it_intervalNextRunAt :: "time option"
  it_intervalObservedAt :: "time option"
  it_lastRunAt :: "time option"
  it_lastRunError :: "string option"
  it_createdAt :: time

record task_step_row =
  ts_id :: ident
  ts_organizationId :: ident
  ts_taskId :: ident
  ts_position :: nat
  ts_command :: string

record task_time_row =
  tt_id :: ident
  tt_organizationId :: ident
  tt_taskId :: ident
  tt_daysOfWeek :: string
  tt_minuteOfDay :: nat

record signal_row =
  sg_id :: ident
  sg_organizationId :: ident
  sg_instanceId :: ident
  sg_kind :: signal_kind
  sg_identity :: string
  sg_process :: "string option"
  sg_firstForProcess :: bool
  sg_occurredAt :: time
  sg_observedAt :: time

record task_definition =
  td_row :: instance_task_row
  td_steps :: "task_step_row list"
  td_times :: "task_time_row list"

record task_claim =
  tc_trigger :: task_trigger
  tc_claimKey :: string

definition ordered_steps :: "task_step_row list \<Rightarrow> task_step_row list" where
  "ordered_steps steps = sort_key ts_position steps"

definition wants_join_signal :: "instance_task_row \<Rightarrow> bool" where
  "wants_join_signal row \<longleftrightarrow> it_onFirstLogin row \<or> it_onLogin row"

definition wants_respawn_signal :: "instance_task_row \<Rightarrow> bool" where
  "wants_respawn_signal row \<longleftrightarrow> it_onRespawn row"

section \<open>Claims by signal\<close>

definition newer_signal :: "signal_row option \<Rightarrow> signal_row \<Rightarrow> signal_row option" where
  "newer_signal newest signal =
     (case newest of
        None \<Rightarrow> Some signal
      | Some n \<Rightarrow> if sg_occurredAt n < sg_occurredAt signal then Some signal else newest)"

definition latest_of :: "signal_row list \<Rightarrow> signal_kind \<Rightarrow> signal_row option" where
  "latest_of signals kind = foldl newer_signal None (filter (\<lambda>s. sg_kind s = kind) signals)"

definition login_claims :: "instance_task_row \<Rightarrow> signal_row option \<Rightarrow> task_claim list" where
  "login_claims row login =
     (case login of
        None \<Rightarrow> []
      | Some s \<Rightarrow>
          if it_createdAt row < sg_occurredAt s then
            (let asFirstLogin = (it_onFirstLogin row \<and> sg_firstForProcess s) in
             if it_onLogin row \<or> asFirstLogin then
               [\<lparr>tc_trigger = (if asFirstLogin then OnFirstLogin else OnLogin),
                 tc_claimKey = ''login:'' @ sg_identity s\<rparr>]
             else [])
          else [])"

definition respawn_claims :: "instance_task_row \<Rightarrow> signal_row option \<Rightarrow> task_claim list" where
  "respawn_claims row respawn =
     (if it_onRespawn row then
        (case respawn of
           None \<Rightarrow> []
         | Some s \<Rightarrow>
             if it_createdAt row < sg_occurredAt s then
               [\<lparr>tc_trigger = OnRespawn, tc_claimKey = ''respawn:'' @ sg_identity s\<rparr>]
             else [])
      else [])"

definition signal_claims :: "instance_task_row \<Rightarrow> signal_row list \<Rightarrow> task_claim list" where
  "signal_claims row signals =
     login_claims row (latest_of signals SignalLogin) @ respawn_claims row (latest_of signals SignalRespawn)"

section \<open>Claims by time of day\<close>

definition time_candidate :: "instance_task_row \<Rightarrow> task_time_row \<Rightarrow> due_candidate" where
  "time_candidate row tm =
     \<lparr>dc_daysOfWeek = parse_days_of_week (tt_daysOfWeek tm), dc_minuteOfDay = tt_minuteOfDay tm,
      dc_timezone = it_timezone row, dc_enabled = True, dc_lastRunAt = None\<rparr>"

fun time_claims_of ::
    "zone_parts \<Rightarrow> instance_task_row \<Rightarrow> task_time_row list \<Rightarrow> time \<Rightarrow> thrown + task_claim list" where
  "time_claims_of zp row [] t = Inr []"
| "time_claims_of zp row (tm # tms) t =
     rbind (is_due zp (time_candidate row tm) t) (\<lambda>due.
       if \<not> due then time_claims_of zp row tms t
       else rbind (zoned_moment_of zp t (it_timezone row)) (\<lambda>m.
         rbind (time_claims_of zp row tms t) (\<lambda>claims.
           Inr (\<lparr>tc_trigger = OnTime,
                 tc_claimKey = ''time:'' @ zm_dateKey m @ '':'' @ nat_string (tt_minuteOfDay tm)\<rparr> # claims))))"

definition time_claims :: "zone_parts \<Rightarrow> task_definition \<Rightarrow> time \<Rightarrow> thrown + task_claim list" where
  "time_claims zp d t = time_claims_of zp (td_row d) (td_times d) t"

section \<open>Intervals\<close>

record interval_arm =
  ia_nextRunAt :: time
  ia_observedAt :: time

datatype interval_plan =
    Unarmed
  | Arm interval_arm
  | Hold interval_arm
  | Wait interval_arm
  | Fire task_claim interval_arm

type_synonym interval_jitter = "nat \<Rightarrow> nat \<Rightarrow> nat"

definition even_jitter :: "real \<Rightarrow> interval_jitter" where
  "even_jitter random minSeconds maxSeconds =
     (if maxSeconds \<le> minSeconds then minSeconds
      else minSeconds + nat \<lfloor>random * real (maxSeconds - minSeconds + 1)\<rfloor>)"

definition interval_plan_of ::
    "instance_task_row \<Rightarrow> time \<Rightarrow> bool \<Rightarrow> interval_jitter \<Rightarrow> interval_plan" where
  "interval_plan_of row t running jitter =
     (case (it_intervalMinSeconds row, it_intervalMaxSeconds row) of
        (Some minSeconds, Some maxSeconds) \<Rightarrow>
          (let rearmed = \<lparr>ia_nextRunAt = t + int (jitter minSeconds maxSeconds) * 1000, ia_observedAt = t\<rparr> in
           case (it_intervalNextRunAt row, it_intervalObservedAt row) of
             (Some armed, Some observed) \<Rightarrow>
               if \<not> running then
                 (let paused = max 0 (t - observed) in
                  Hold \<lparr>ia_nextRunAt = armed + paused, ia_observedAt = t\<rparr>)
               else if t < armed then Wait \<lparr>ia_nextRunAt = armed, ia_observedAt = t\<rparr>
               else Fire \<lparr>tc_trigger = OnInterval, tc_claimKey = ''interval:'' @ iso_string armed\<rparr> rearmed
           | _ \<Rightarrow> Arm rearmed)
      | _ \<Rightarrow> Unarmed)"

fun interval_claim_of :: "interval_plan \<Rightarrow> task_claim option" where
  "interval_claim_of Unarmed = None"
| "interval_claim_of (Arm _) = None"
| "interval_claim_of (Hold _) = None"
| "interval_claim_of (Wait _) = None"
| "interval_claim_of (Fire claim _) = Some claim"

fun interval_arm_of :: "interval_plan \<Rightarrow> interval_arm option" where
  "interval_arm_of Unarmed = None"
| "interval_arm_of (Arm arm) = Some arm"
| "interval_arm_of (Hold arm) = Some arm"
| "interval_arm_of (Wait arm) = Some arm"
| "interval_arm_of (Fire _ arm) = Some arm"

text \<open>What \<open>armInterval\<close> stores of a plan in the task's row.\<close>

definition arm_row :: "interval_arm \<Rightarrow> instance_task_row \<Rightarrow> instance_task_row" where
  "arm_row arm row =
     row\<lparr>it_intervalNextRunAt := Some (ia_nextRunAt arm), it_intervalObservedAt := Some (ia_observedAt arm)\<rparr>"

section \<open>Sending the steps\<close>

datatype step_failure = StepsFailed (sf_message: string) (sf_stepsSent: nat) | OtherFailure thrown

record 'w step_runner =
  rn_send :: "string \<Rightarrow> ('w, unit) io"
  rn_wait :: "int \<Rightarrow> ('w, unit) io"
  rn_describeFailure :: "thrown + string \<Rightarrow> string"

definition unknown_step_failure :: string where
  "unknown_step_failure = ''The step could not be sent''"

definition step_failed_message :: "nat \<Rightarrow> nat \<Rightarrow> string \<Rightarrow> string" where
  "step_failed_message index count reason =
     ''Step '' @ nat_string (index + 1) @ '' of '' @ nat_string count
     @ '' failed and the rest were not sent: '' @ reason"

text \<open>The loop from \<open>index\<close> on; \<open>sent\<close> is the number of steps sent.\<close>

fun send_steps_from ::
    "'w step_runner \<Rightarrow> nat \<Rightarrow> nat \<Rightarrow> nat \<Rightarrow> nat \<Rightarrow> task_step_row list \<Rightarrow> 'w
      \<Rightarrow> (step_failure + nat) \<times> 'w" where
  "send_steps_from runner delay count index sent [] w = (Inr sent, w)"
| "send_steps_from runner delay count index sent (step # steps) w =
     (case (if 0 < index \<and> 0 < delay then rn_wait runner (int delay * 1000) w else (Inr (), w)) of
        (Inl e, w1) \<Rightarrow> (Inl (OtherFailure e), w1)
      | (Inr _, w1) \<Rightarrow>
          (case rn_send runner (ts_command step) w1 of
             (Inl e, w2) \<Rightarrow>
               (Inl (StepsFailed
                  (step_failed_message index count
                    (rn_describeFailure runner (case e of Thrown _ _ \<Rightarrow> Inl e | ThrownValue \<Rightarrow> Inr unknown_step_failure)))
                  sent), w2)
           | (Inr _, w2) \<Rightarrow> send_steps_from runner delay count (index + 1) (sent + 1) steps w2))"

definition send_steps_in_order ::
    "task_step_row list \<Rightarrow> nat \<Rightarrow> 'w step_runner \<Rightarrow> 'w \<Rightarrow> (step_failure + nat) \<times> 'w" where
  "send_steps_in_order steps delay runner w =
     (let ordered = sort_key ts_position steps in
      send_steps_from runner delay (length ordered) 0 0 ordered w)"

section \<open>Lemmas\<close>

lemma even_jitter_bounds:
  assumes "minSeconds \<le> maxSeconds" and "0 \<le> random" and "random < 1"
  shows "minSeconds \<le> even_jitter random minSeconds maxSeconds \<and>
    even_jitter random minSeconds maxSeconds \<le> maxSeconds"
proof (cases "maxSeconds \<le> minSeconds")
  case True
  then show ?thesis using assms(1) by (simp add: even_jitter_def)
next
  case False
  let ?n = "real (maxSeconds - minSeconds + 1)"
  have "random * ?n < ?n" using assms(3) by simp
  then have "\<lfloor>random * ?n\<rfloor> < int (maxSeconds - minSeconds + 1)"
    by (simp add: floor_less_iff)
  then show ?thesis using False by (simp add: even_jitter_def)
qed

subsection \<open>Signals\<close>

lemma newer_signal_simps [simp]:
  "newer_signal None s = Some s"
  "newer_signal (Some n) s = (if sg_occurredAt n < sg_occurredAt s then Some s else Some n)"
  by (simp_all add: newer_signal_def)

lemma newer_signal_fold:
  "foldl newer_signal (Some n) ss = Some s \<Longrightarrow>
    (s = n \<or> s \<in> set ss) \<and> sg_occurredAt n \<le> sg_occurredAt s \<and>
    (\<forall>s' \<in> set ss. sg_occurredAt s' \<le> sg_occurredAt s)"
proof (induction ss arbitrary: n)
  case Nil
  then show ?case by simp
next
  case (Cons x ss)
  show ?case
  proof (cases "sg_occurredAt n < sg_occurredAt x")
    case True
    then have "foldl newer_signal (Some x) ss = Some s" using Cons.prems by simp
    from Cons.IH [OF this] show ?thesis using True by auto
  next
    case False
    then have "foldl newer_signal (Some n) ss = Some s" using Cons.prems by simp
    from Cons.IH [OF this] show ?thesis using False by auto
  qed
qed

lemma newer_signal_Some: "\<exists>s. foldl newer_signal (Some n) ss = Some s"
proof (induction ss arbitrary: n)
  case Nil
  then show ?case by simp
next
  case (Cons x ss)
  then show ?case by (auto)
qed

lemma latest_of_None [simp]: "latest_of signals kind = None \<longleftrightarrow> (\<forall>s \<in> set signals. sg_kind s \<noteq> kind)"
proof (cases "filter (\<lambda>s. sg_kind s = kind) signals")
  case Nil
  then show ?thesis by (auto simp: latest_of_def filter_empty_conv)
next
  case (Cons x xs)
  have "x \<in> set (filter (\<lambda>s. sg_kind s = kind) signals)" by (simp add: Cons)
  then have "x \<in> set signals \<and> sg_kind x = kind" by simp
  moreover have "latest_of signals kind \<noteq> None"
    using newer_signal_Some [of x xs] by (auto simp: latest_of_def Cons)
  ultimately show ?thesis by auto
qed

lemma latest_of_Some:
  assumes "latest_of signals kind = Some s"
  shows "s \<in> set signals \<and> sg_kind s = kind \<and>
    (\<forall>s' \<in> set signals. sg_kind s' = kind \<longrightarrow> sg_occurredAt s' \<le> sg_occurredAt s)"
proof (cases "filter (\<lambda>s. sg_kind s = kind) signals")
  case Nil
  then show ?thesis using assms by (simp add: latest_of_def)
next
  case (Cons x xs)
  have "foldl newer_signal (Some x) xs = Some s"
    using assms by (simp add: latest_of_def Cons)
  from newer_signal_fold [OF this]
  have "s \<in> set (x # xs)" "\<forall>s' \<in> set (x # xs). sg_occurredAt s' \<le> sg_occurredAt s" by auto
  then show ?thesis unfolding Cons [symmetric] by auto
qed

text \<open>The key's first word is that of the trigger's family, so keys of different families differ.\<close>

fun key_family :: "task_trigger \<Rightarrow> string" where
  "key_family OnFirstLogin = ''login''"
| "key_family OnLogin = ''login''"
| "key_family OnRespawn = ''respawn''"
| "key_family OnTime = ''time''"
| "key_family OnInterval = ''interval''"

definition family_key :: "task_claim \<Rightarrow> bool" where
  "family_key c \<longleftrightarrow> (\<exists>rest. tc_claimKey c = key_family (tc_trigger c) @ '':'' @ rest)"

lemma signal_claims_families: "list_all family_key (signal_claims row signals)"
  by (simp add: signal_claims_def login_claims_def respawn_claims_def family_key_def Let_def
      split: option.split)

lemma signal_claims_family: "c \<in> set (signal_claims row signals) \<Longrightarrow> family_key c"
  using signal_claims_families [of row signals] by (simp add: list_all_iff)

lemma time_claims_family: "time_claims_of zp row tms t = Inr cs \<Longrightarrow> c \<in> set cs \<Longrightarrow> family_key c"
proof (induction tms arbitrary: cs)
  case Nil
  then show ?case by simp
next
  case (Cons tm tms)
  then show ?case by (auto simp: rbind_Inr family_key_def split: if_splits)
qed

lemma interval_claim_family: "interval_claim_of (interval_plan_of row t running j) = Some c \<Longrightarrow> family_key c"
  by (auto simp: interval_plan_of_def Let_def family_key_def split: option.splits if_splits)

lemma family_key_differ:
  assumes "family_key c" and "family_key d" and "tc_claimKey c = tc_claimKey d"
  shows "key_family (tc_trigger c) = key_family (tc_trigger d)"
  using assms by (cases "tc_trigger c"; cases "tc_trigger d") (auto simp: family_key_def)

text \<open>A login signal and a respawn signal each make at most one claim, the login's first.\<close>

lemma signal_claims_length: "length (signal_claims row signals) \<le> 2"
  by (cases "latest_of signals SignalLogin"; cases "latest_of signals SignalRespawn")
    (auto simp: signal_claims_def login_claims_def respawn_claims_def Let_def simp del: latest_of_None)

lemma login_claim_iff:
  "list_ex (\<lambda>c. key_family (tc_trigger c) = ''login'') (signal_claims row signals) \<longleftrightarrow>
    (\<exists>s. latest_of signals SignalLogin = Some s \<and> it_createdAt row < sg_occurredAt s \<and>
      (it_onLogin row \<or> it_onFirstLogin row \<and> sg_firstForProcess s))"
  by (simp add: signal_claims_def login_claims_def respawn_claims_def Let_def del: latest_of_None
      split: option.split)

subsection \<open>Times of day\<close>

lemma time_claims_keys:
  assumes "time_claims_of zp row tms t = Inr cs" and "c \<in> set cs"
  shows "\<exists>tm m. tm \<in> set tms \<and> zoned_moment_of zp t (it_timezone row) = Inr m \<and>
    is_due zp (time_candidate row tm) t = Inr True \<and>
    tc_claimKey c = ''time:'' @ zm_dateKey m @ '':'' @ nat_string (tt_minuteOfDay tm)"
  using assms
proof (induction tms arbitrary: cs)
  case Nil
  then show ?case by simp
next
  case (Cons tm tms)
  then show ?case by (fastforce simp: rbind_Inr split: if_splits)
qed

subsection \<open>The interval's countdown\<close>

text \<open>Ticks of one task: the moment, whether its bot runs, and the jitter drawn.\<close>

type_synonym interval_tick = "time \<times> bool \<times> interval_jitter"

definition interval_step :: "instance_task_row \<Rightarrow> interval_tick \<Rightarrow> bool \<times> instance_task_row" where
  "interval_step row tick =
     (let plan = interval_plan_of row (fst tick) (fst (snd tick)) (snd (snd tick)) in
      (interval_claim_of plan \<noteq> None,
       case interval_arm_of plan of None \<Rightarrow> row | Some arm \<Rightarrow> arm_row arm row))"

fun interval_run :: "instance_task_row \<Rightarrow> interval_tick list \<Rightarrow> bool list \<times> instance_task_row" where
  "interval_run row [] = ([], row)"
| "interval_run row (tick # ticks) =
     (let (fired, row') = interval_step row tick; (fs, row'') = interval_run row' ticks in (fired # fs, row''))"

text \<open>The time the bot was seen not running, counted from the tick before each such sighting.\<close>

fun paused_for :: "time \<Rightarrow> interval_tick list \<Rightarrow> time" where
  "paused_for seen [] = 0"
| "paused_for seen ((t, running, j) # ticks) =
     (if running then 0 else max 0 (t - seen)) + paused_for t ticks"

fun last_seen :: "time \<Rightarrow> interval_tick list \<Rightarrow> time" where
  "last_seen seen [] = seen"
| "last_seen seen ((t, running, j) # ticks) = last_seen t ticks"

definition interval_armed :: "instance_task_row \<Rightarrow> time \<Rightarrow> time \<Rightarrow> bool" where
  "interval_armed row nextRun seen \<longleftrightarrow>
     it_intervalMinSeconds row \<noteq> None \<and> it_intervalMaxSeconds row \<noteq> None \<and>
     it_intervalNextRunAt row = Some nextRun \<and> it_intervalObservedAt row = Some seen"

lemma interval_step_armed:
  assumes "interval_armed row nextRun seen"
  shows "interval_step row (t, running, j) =
    (if \<not> running then
       (False, arm_row \<lparr>ia_nextRunAt = nextRun + max 0 (t - seen), ia_observedAt = t\<rparr> row)
     else if t < nextRun then (False, arm_row \<lparr>ia_nextRunAt = nextRun, ia_observedAt = t\<rparr> row)
     else (True, arm_row \<lparr>ia_nextRunAt =
       t + int (j (the (it_intervalMinSeconds row)) (the (it_intervalMaxSeconds row))) * 1000,
       ia_observedAt = t\<rparr> row))"
  using assms by (auto simp: interval_step_def interval_armed_def interval_plan_of_def Let_def)

lemma arm_row_fields [simp]:
  "it_intervalMinSeconds (arm_row arm row) = it_intervalMinSeconds row"
  "it_intervalMaxSeconds (arm_row arm row) = it_intervalMaxSeconds row"
  "it_intervalNextRunAt (arm_row arm row) = Some (ia_nextRunAt arm)"
  "it_intervalObservedAt (arm_row arm row) = Some (ia_observedAt arm)"
  by (simp_all add: arm_row_def)

lemma interval_armed_arm_row [simp]:
  "interval_armed (arm_row arm row) nextRun seen \<longleftrightarrow>
    it_intervalMinSeconds row \<noteq> None \<and> it_intervalMaxSeconds row \<noteq> None \<and>
    nextRun = ia_nextRunAt arm \<and> seen = ia_observedAt arm"
  by (auto simp: interval_armed_def)

text \<open>
  While it does not fire, an armed interval is put off by exactly the time its bot was seen not running.
\<close>

lemma interval_run_waits:
  assumes "interval_armed row nextRun seen" and "True \<notin> set (fst (interval_run row ticks))"
  shows "interval_armed (snd (interval_run row ticks)) (nextRun + paused_for seen ticks) (last_seen seen ticks)"
  using assms
proof (induction ticks arbitrary: row nextRun seen)
  case Nil
  then show ?case by simp
next
  case (Cons tick ticks)
  obtain t running j where tick: "tick = (t, running, j)" by (cases tick) auto
  have quiet: "\<not> (running \<and> nextRun \<le> t)"
    using Cons.prems by (auto simp: tick interval_step_armed [OF Cons.prems(1)] case_prod_beta Let_def)
  define row' where "row' = snd (interval_step row tick)"
  have armed': "interval_armed row' (nextRun + (if running then 0 else max 0 (t - seen))) t"
    using quiet Cons.prems(1)
    by (auto simp: row'_def tick interval_step_armed [OF Cons.prems(1)] interval_armed_def)
  have "True \<notin> set (fst (interval_run row' ticks))"
    using Cons.prems(2) by (auto simp: row'_def case_prod_beta Let_def)
  from Cons.IH [OF armed' this] show ?case
    by (simp add: row'_def tick case_prod_beta Let_def add.assoc)
qed

lemma interval_run_append:
  "interval_run row (xs @ ys) =
    (fst (interval_run row xs) @ fst (interval_run (snd (interval_run row xs)) ys),
     snd (interval_run (snd (interval_run row xs)) ys))"
  by (induction xs arbitrary: row) (simp_all add: case_prod_beta Let_def)

lemma paused_for_nonneg: "0 \<le> paused_for seen ticks"
  by (induction seen ticks rule: paused_for.induct) auto

subsection \<open>Steps\<close>

text \<open>A runner that records what it does and fails on the commands given.\<close>

datatype step_event = Sent string | Waited int

definition recording_runner :: "(string \<Rightarrow> bool) \<Rightarrow> step_event list step_runner" where
  "recording_runner fails =
     \<lparr>rn_send = (\<lambda>c log. if fails c then (Inl (Thrown ''Error'' c), log) else (Inr (), log @ [Sent c])),
      rn_wait = (\<lambda>ms log. (Inr (), log @ [Waited ms])),
      rn_describeFailure = (\<lambda>f. case f of Inl e \<Rightarrow> thrown_message e | Inr m \<Rightarrow> m)\<rparr>"

text \<open>What the steps from one of index \<open>i\<close> on look like in the log.\<close>

fun steps_log :: "nat \<Rightarrow> nat \<Rightarrow> string list \<Rightarrow> step_event list" where
  "steps_log delay i [] = []"
| "steps_log delay i (c # cs) =
     (if 0 < i \<and> 0 < delay then [Waited (int delay * 1000)] else []) @ [Sent c] @ steps_log delay (i + 1) cs"

lemma send_steps_from_recording:
  "send_steps_from (recording_runner fails) delay n i k steps acts =
    (let sent = takeWhile (\<lambda>c. \<not> fails c) (map ts_command steps);
         rest = dropWhile (\<lambda>c. \<not> fails c) (map ts_command steps);
         log' = acts @ steps_log delay i sent
     in case rest of
          [] \<Rightarrow> (Inr (k + length steps), log')
        | c # _ \<Rightarrow>
            (Inl (StepsFailed (step_failed_message (i + length sent) n c) (k + length sent)),
             log' @ (if 0 < i + length sent \<and> 0 < delay then [Waited (int delay * 1000)] else [])))"
proof (induction steps arbitrary: i k acts)
  case Nil
  then show ?case by (simp add: Let_def)
next
  case (Cons step steps)
  show ?case
  proof (cases "fails (ts_command step)")
    case True
    then show ?thesis by (simp add: recording_runner_def Let_def)
  next
    case False
    have IH: "send_steps_from (recording_runner fails) delay n (i + 1) (k + 1) steps log1 =
      (let sent = takeWhile (\<lambda>c. \<not> fails c) (map ts_command steps);
         rest = dropWhile (\<lambda>c. \<not> fails c) (map ts_command steps);
         log' = log1 @ steps_log delay (i + 1) sent
     in case rest of
          [] \<Rightarrow> (Inr (k + 1 + length steps), log')
        | c # _ \<Rightarrow>
            (Inl (StepsFailed (step_failed_message (i + 1 + length sent) n c) (k + 1 + length sent)),
             log' @ (if 0 < i + 1 + length sent \<and> 0 < delay then [Waited (int delay * 1000)] else [])))" for log1
      by (rule Cons.IH)
    have runner: "rn_wait (recording_runner fails) ms log1 = (Inr (), log1 @ [Waited ms])"
      "rn_send (recording_runner fails) (ts_command step) log1 = (Inr (), log1 @ [Sent (ts_command step)])"
      for ms log1
      using False by (simp_all add: recording_runner_def)
    define d where "d = dropWhile (\<lambda>c. \<not> fails c) (map ts_command steps)"
    show ?thesis
      using False IH
      by (cases d) (simp_all add: runner Let_def d_def [symmetric] del: dropWhile_eq_Nil_conv)
  qed
qed

end
