(* ===== verification/CommandStore.thy ===== *)
theory CommandStore
  imports Schedule StatusStore
begin

text \<open>
  \<open>packages/core/src/instance/command.repository.ts\<close>, \<open>schedule.repository.ts\<close> and \<open>scheduler.ts\<close>:
  the stored sleep windows and scheduled commands, and one tick of the scheduler that sends the
  commands that are due.

  The tables extend the database record of \<open>StatusStore\<close>, whose identifier supply they draw from.
  \<open>createdAt\<close> defaults to the database's \<open>now()\<close>. The unique indexes are those the upserts name.
\<close>

section \<open>Tables\<close>

record instance_command_row =
  ic_id :: ident
  ic_organizationId :: ident
  ic_instanceId :: ident
  ic_name :: string
  ic_command :: string
  ic_daysOfWeek :: string
  ic_minuteOfDay :: nat
  ic_timezone :: string
  ic_enabled :: bool
  ic_lastRunAt :: "time option"
  ic_lastRunError :: "string option"

record instance_schedule_row =
  is_id :: ident
  is_organizationId :: ident
  is_instanceId :: ident
  is_daysOfWeek :: string
  is_stopMinuteOfDay :: nat
  is_startMinuteOfDay :: nat
  is_timezone :: string
  is_enabled :: bool
  is_createdAt :: time

record command_db = status_db +
  instanceCommands :: "instance_command_row list"
  instanceSchedules :: "instance_schedule_row list"

section \<open>Scheduled commands\<close>

record scheduled_command_values =
  cv_instanceId :: ident
  cv_name :: string
  cv_command :: string
  cv_daysOfWeek :: string
  cv_minuteOfDay :: nat
  cv_timezone :: string
  cv_enabled :: bool

definition command_matches :: "ident \<Rightarrow> ident \<Rightarrow> string \<Rightarrow> instance_command_row \<Rightarrow> bool" where
  "command_matches org inst name r \<longleftrightarrow>
     ic_organizationId r = org \<and> ic_instanceId r = inst \<and> ic_name r = name"

definition patch_command :: "scheduled_command_values \<Rightarrow> instance_command_row \<Rightarrow> instance_command_row" where
  "patch_command v r =
     r\<lparr>ic_command := cv_command v, ic_daysOfWeek := cv_daysOfWeek v, ic_minuteOfDay := cv_minuteOfDay v,
       ic_timezone := cv_timezone v, ic_enabled := cv_enabled v, ic_lastRunAt := None,
       ic_lastRunError := None\<rparr>"

definition upsert_command ::
    "ident \<Rightarrow> scheduled_command_values \<Rightarrow> 'm command_db_scheme
      \<Rightarrow> instance_command_row option \<times> 'm command_db_scheme" where
  "upsert_command org v db =
     (let (i, db') = nanoid db;
          p = command_matches org (cv_instanceId v) (cv_name v);
          row = \<lparr>ic_id = i, ic_organizationId = org, ic_instanceId = cv_instanceId v, ic_name = cv_name v,
                 ic_command = cv_command v, ic_daysOfWeek = cv_daysOfWeek v,
                 ic_minuteOfDay = cv_minuteOfDay v, ic_timezone = cv_timezone v,
                 ic_enabled = cv_enabled v, ic_lastRunAt = None, ic_lastRunError = None\<rparr>
      in if list_ex p (instanceCommands db') then
           (map_option (patch_command v) (find p (instanceCommands db')),
            db'\<lparr>instanceCommands := update_rows p (patch_command v) (instanceCommands db')\<rparr>)
         else (Some row, db'\<lparr>instanceCommands := instanceCommands db' @ [row]\<rparr>))"

definition list_commands :: "ident \<Rightarrow> ident \<Rightarrow> 'm command_db_scheme \<Rightarrow> instance_command_row list" where
  "list_commands org inst db =
     sort_key ic_minuteOfDay
       (filter (\<lambda>r. ic_instanceId r = inst \<and> ic_organizationId r = org) (instanceCommands db))"

definition list_enabled_commands :: "'m command_db_scheme \<Rightarrow> instance_command_row list" where
  "list_enabled_commands db = filter ic_enabled (instanceCommands db)"

definition command_owned :: "ident \<Rightarrow> ident \<Rightarrow> instance_command_row \<Rightarrow> bool" where
  "command_owned org i r \<longleftrightarrow> ic_id r = i \<and> ic_organizationId r = org"

definition delete_command_returning ::
    "ident \<Rightarrow> ident \<Rightarrow> 'm command_db_scheme \<Rightarrow> instance_command_row option \<times> 'm command_db_scheme" where
  "delete_command_returning org i db =
     (find (command_owned org i) (instanceCommands db),
      db\<lparr>instanceCommands := filter (\<lambda>r. \<not> command_owned org i r) (instanceCommands db)\<rparr>)"

definition delete_command :: "ident \<Rightarrow> ident \<Rightarrow> 'm command_db_scheme \<Rightarrow> bool \<times> 'm command_db_scheme" where
  "delete_command org i db =
     (0 < updated_count (command_owned org i) (instanceCommands db),
      db\<lparr>instanceCommands := filter (\<lambda>r. \<not> command_owned org i r) (instanceCommands db)\<rparr>)"

definition claimable :: "ident \<Rightarrow> time \<Rightarrow> instance_command_row \<Rightarrow> bool" where
  "claimable i notRunSince r \<longleftrightarrow>
     ic_id r = i \<and> (case ic_lastRunAt r of None \<Rightarrow> True | Some t \<Rightarrow> t < notRunSince)"

definition claim_command_run ::
    "ident \<Rightarrow> time \<Rightarrow> time \<Rightarrow> 'm command_db_scheme \<Rightarrow> bool \<times> 'm command_db_scheme" where
  "claim_command_run i ranAt notRunSince db =
     (list_ex (claimable i notRunSince) (instanceCommands db),
      db\<lparr>instanceCommands :=
           update_rows (claimable i notRunSince)
             (\<lambda>r. r\<lparr>ic_lastRunAt := Some ranAt, ic_lastRunError := None\<rparr>) (instanceCommands db)\<rparr>)"

definition record_command_run ::
    "ident \<Rightarrow> time \<Rightarrow> string option \<Rightarrow> 'm command_db_scheme \<Rightarrow> 'm command_db_scheme" where
  "record_command_run i ranAt error db =
     db\<lparr>instanceCommands :=
          update_rows (\<lambda>r. ic_id r = i)
            (\<lambda>r. r\<lparr>ic_lastRunAt := Some ranAt, ic_lastRunError := error\<rparr>) (instanceCommands db)\<rparr>"

section \<open>Sleep windows\<close>

record sleep_window_values =
  wv_instanceId :: ident
  wv_daysOfWeek :: string
  wv_stopMinuteOfDay :: nat
  wv_startMinuteOfDay :: nat
  wv_timezone :: string
  wv_enabled :: bool

definition schedule_matches :: "ident \<Rightarrow> ident \<Rightarrow> instance_schedule_row \<Rightarrow> bool" where
  "schedule_matches org inst r \<longleftrightarrow> is_instanceId r = inst \<and> is_organizationId r = org"

definition patch_schedule :: "sleep_window_values \<Rightarrow> instance_schedule_row \<Rightarrow> instance_schedule_row" where
  "patch_schedule v r =
     r\<lparr>is_daysOfWeek := wv_daysOfWeek v, is_stopMinuteOfDay := wv_stopMinuteOfDay v,
       is_startMinuteOfDay := wv_startMinuteOfDay v, is_timezone := wv_timezone v,
       is_enabled := wv_enabled v\<rparr>"

definition upsert_schedule ::
    "ident \<Rightarrow> sleep_window_values \<Rightarrow> 'm command_db_scheme
      \<Rightarrow> instance_schedule_row option \<times> 'm command_db_scheme" where
  "upsert_schedule org v db =
     (let (i, db') = nanoid db;
          p = schedule_matches org (wv_instanceId v);
          row = \<lparr>is_id = i, is_organizationId = org, is_instanceId = wv_instanceId v,
                 is_daysOfWeek = wv_daysOfWeek v, is_stopMinuteOfDay = wv_stopMinuteOfDay v,
                 is_startMinuteOfDay = wv_startMinuteOfDay v, is_timezone = wv_timezone v,
                 is_enabled = wv_enabled v, is_createdAt = db_time db'\<rparr>
      in if list_ex p (instanceSchedules db') then
           (map_option (patch_schedule v) (find p (instanceSchedules db')),
            db'\<lparr>instanceSchedules := update_rows p (patch_schedule v) (instanceSchedules db')\<rparr>)
         else (Some row, db'\<lparr>instanceSchedules := instanceSchedules db' @ [row]\<rparr>))"

definition find_schedule :: "ident \<Rightarrow> ident \<Rightarrow> 'm command_db_scheme \<Rightarrow> instance_schedule_row option" where
  "find_schedule org inst db = find (schedule_matches org inst) (instanceSchedules db)"

definition list_schedules :: "ident \<Rightarrow> 'm command_db_scheme \<Rightarrow> instance_schedule_row list" where
  "list_schedules org db =
     sort_key (\<lambda>r. - is_createdAt r) (filter (\<lambda>r. is_organizationId r = org) (instanceSchedules db))"

definition delete_schedule :: "ident \<Rightarrow> ident \<Rightarrow> 'm command_db_scheme \<Rightarrow> bool \<times> 'm command_db_scheme" where
  "delete_schedule org inst db =
     (0 < updated_count (schedule_matches org inst) (instanceSchedules db),
      db\<lparr>instanceSchedules := filter (\<lambda>r. \<not> schedule_matches org inst r) (instanceSchedules db)\<rparr>)"

section \<open>The scheduler's tick\<close>

text \<open>
  What the caught value is when it is passed on: the \<open>Error\<close> itself, or the fallback text. \<open>onError\<close>
  only logs and is left out.
\<close>

type_synonym failure = "thrown + string"

definition failure_of :: "string \<Rightarrow> thrown \<Rightarrow> failure" where
  "failure_of fallback e = (case e of Thrown _ _ \<Rightarrow> Inl e | ThrownValue \<Rightarrow> Inr fallback)"

record scheduler_run =
  sr_considered :: nat
  sr_fired :: "ident list"
  sr_failed :: "(ident \<times> string) list"
  sr_skipped :: nat
  sr_unclaimed :: nat

record 'w scheduler_deps =
  sd_dueCommands :: "('w, instance_command_row list) io"
  sd_send :: "instance_command_row \<Rightarrow> ('w, unit) io"
  sd_claimRun :: "ident \<Rightarrow> time \<Rightarrow> time \<Rightarrow> ('w, bool) io"
  sd_recordRun :: "ident \<Rightarrow> time \<Rightarrow> string option \<Rightarrow> ('w, unit) io"
  sd_now :: "'w \<Rightarrow> time \<times> 'w"
  sd_describeFailure :: "failure \<Rightarrow> string"

definition unknown_scheduler_failure :: string where
  "unknown_scheduler_failure = ''Unknown scheduler failure''"

definition candidate_for :: "instance_command_row \<Rightarrow> due_candidate" where
  "candidate_for r =
     \<lparr>dc_daysOfWeek = parse_days_of_week (ic_daysOfWeek r), dc_minuteOfDay = ic_minuteOfDay r,
      dc_timezone = ic_timezone r, dc_enabled = ic_enabled r, dc_lastRunAt = ic_lastRunAt r\<rparr>"

definition add_failed :: "ident \<Rightarrow> string \<Rightarrow> scheduler_run \<Rightarrow> scheduler_run" where
  "add_failed i reason run = run\<lparr>sr_failed := sr_failed run @ [(i, reason)]\<rparr>"

text \<open>\<open>promise.catch(() => undefined)\<close>: only what the call did remains.\<close>

definition swallow :: "('w, 'a) io \<Rightarrow> 'w \<Rightarrow> 'w" where
  "swallow m w = snd (m w)"

definition consider_command ::
    "zone_parts \<Rightarrow> 'w scheduler_deps \<Rightarrow> time \<Rightarrow> instance_command_row \<Rightarrow> scheduler_run \<times> 'w
      \<Rightarrow> scheduler_run \<times> 'w" where
  "consider_command zp deps t row =
     (\<lambda>(run, w).
       case is_due zp (candidate_for row) t of
         Inl e \<Rightarrow>
           (let reason = error_message_or unknown_scheduler_failure e in
            (add_failed (ic_id row) reason run, swallow (sd_recordRun deps (ic_id row) t (Some reason)) w))
       | Inr due \<Rightarrow>
           if \<not> due then (run\<lparr>sr_skipped := sr_skipped run + 1\<rparr>, w)
           else
             (case (case start_of_local_day zp (ic_timezone row) t of
                      Inl e \<Rightarrow> (Inl e, w)
                    | Inr since \<Rightarrow> sd_claimRun deps (ic_id row) t since w) of
                (Inl e, w1) \<Rightarrow>
                  (add_failed (ic_id row) (error_message_or unknown_scheduler_failure e) run, w1)
              | (Inr claimed, w1) \<Rightarrow>
                  if \<not> claimed then (run\<lparr>sr_unclaimed := sr_unclaimed run + 1\<rparr>, w1)
                  else
                    (case sd_send deps row w1 of
                       (Inr _, w2) \<Rightarrow> (run\<lparr>sr_fired := sr_fired run @ [ic_id row]\<rparr>, w2)
                     | (Inl e, w2) \<Rightarrow>
                         (let reason = sd_describeFailure deps (failure_of unknown_scheduler_failure e) in
                          (add_failed (ic_id row) reason run,
                           swallow (sd_recordRun deps (ic_id row) t (Some reason)) w2)))))"

definition run_scheduler_tick :: "zone_parts \<Rightarrow> 'w scheduler_deps \<Rightarrow> ('w, scheduler_run) io" where
  "run_scheduler_tick zp deps w =
     (let (t, w1) = sd_now deps w in
      case sd_dueCommands deps w1 of
        (Inl e, w2) \<Rightarrow> (Inl e, w2)
      | (Inr rows, w2) \<Rightarrow>
          (let (run, w3) = fold (consider_command zp deps t) rows
             (\<lparr>sr_considered = length rows, sr_fired = [], sr_failed = [], sr_skipped = 0,
               sr_unclaimed = 0\<rparr>, w2)
           in (Inr run, w3)))"

text \<open>The dependencies as the server wires them: the repository, the clock and one \<open>send\<close>.\<close>

definition stored_scheduler ::
    "(instance_command_row \<Rightarrow> ('m command_db_scheme, unit) io) \<Rightarrow> (failure \<Rightarrow> string)
      \<Rightarrow> 'm command_db_scheme scheduler_deps" where
  "stored_scheduler send describe =
     \<lparr>sd_dueCommands = (\<lambda>db. (Inr (list_enabled_commands db), db)),
      sd_send = send,
      sd_claimRun = (\<lambda>i ranAt since db. let (b, db') = claim_command_run i ranAt since db in (Inr b, db')),
      sd_recordRun = (\<lambda>i ranAt error db. (Inr (), record_command_run i ranAt error db)),
      sd_now = read_now,
      sd_describeFailure = describe\<rparr>"

section \<open>Lemmas\<close>

subsection \<open>Every row is accounted for\<close>

definition accounted :: "scheduler_run \<Rightarrow> nat" where
  "accounted run = length (sr_fired run) + length (sr_failed run) + sr_skipped run + sr_unclaimed run"

lemma consider_command_accounted:
  "accounted (fst (consider_command zp deps t row (run, w))) = accounted run + 1 \<and>
   sr_considered (fst (consider_command zp deps t row (run, w))) = sr_considered run"
  by (simp add: consider_command_def accounted_def add_failed_def Let_def split: sum.split prod.split)

lemma fold_consider_accounted:
  "accounted (fst (fold (consider_command zp deps t) rows rw)) = accounted (fst rw) + length rows \<and>
   sr_considered (fst (fold (consider_command zp deps t) rows rw)) = sr_considered (fst rw)"
proof (induction rows arbitrary: rw)
  case Nil
  then show ?case by simp
next
  case (Cons row rows)
  then show ?case
    using consider_command_accounted [of zp deps t row "fst rw" "snd rw"] by simp
qed

lemma scheduler_tick_cases:
  assumes "run_scheduler_tick zp deps w = (Inr run, w')"
  shows "\<exists>t w1 rows w2. sd_now deps w = (t, w1) \<and> sd_dueCommands deps w1 = (Inr rows, w2) \<and>
    fold (consider_command zp deps t) rows
      (\<lparr>sr_considered = length rows, sr_fired = [], sr_failed = [], sr_skipped = 0, sr_unclaimed = 0\<rparr>, w2)
      = (run, w')"
  using assms by (auto simp: run_scheduler_tick_def Let_def split: prod.splits sum.splits)

subsection \<open>A command is claimed once a day\<close>

text \<open>
  The claims made on a day that began at \<open>s\<close>: each by some manager at some moment \<open>n\<close> milliseconds into
  the day.
\<close>

definition daily_claim ::
    "time \<Rightarrow> ident \<times> nat \<Rightarrow> 'm command_db_scheme \<Rightarrow> unit option \<times> 'm command_db_scheme" where
  "daily_claim s v db =
     (let (b, db') = claim_command_run (fst v) (s + int (snd v)) s db in (if b then Some () else None, db'))"

definition taken_today :: "time \<Rightarrow> 'm command_db_scheme \<Rightarrow> ident set" where
  "taken_today s db = {i. \<not> list_ex (claimable i s) (instanceCommands db)}"

lemma claimable_after_claim:
  assumes "since \<le> ranAt"
  shows "list_ex (claimable i' since)
      (update_rows (claimable i since) (\<lambda>r. r\<lparr>ic_lastRunAt := Some ranAt, ic_lastRunError := e\<rparr>) rows) \<longleftrightarrow>
    i' \<noteq> i \<and> list_ex (claimable i' since) rows"
  using assms by (induction rows) (auto simp: claimable_def split: option.splits)

interpretation daily: insert_once "daily_claim s" "\<lambda>v. Some (fst v)" "taken_today s" for s
proof unfold_locales
  fix v :: "ident \<times> nat" and k and db :: "'a command_db_scheme"
  assume "Some (fst v) = Some k" and "k \<in> taken_today s db"
  then show "fst (daily_claim s v db) = None \<and> taken_today s (snd (daily_claim s v db)) = taken_today s db"
    by (auto simp: daily_claim_def claim_command_run_def taken_today_def claimable_after_claim)
next
  fix v :: "ident \<times> nat" and db :: "'a command_db_scheme"
  assume "\<And>k. Some (fst v) = Some k \<Longrightarrow> k \<notin> taken_today s db"
  then have "list_ex (claimable (fst v) s) (instanceCommands db)" by (simp add: taken_today_def)
  then show "fst (daily_claim s v db) \<noteq> None \<and>
      taken_today s (snd (daily_claim s v db)) = taken_today s db \<union> set_option (Some (fst v))"
    by (auto simp: daily_claim_def claim_command_run_def taken_today_def claimable_after_claim)
qed

subsection \<open>A day of ticks\<close>

text \<open>
  Ticks at the given moments, of the scheduler as the server wires it; the identifiers it sent, in
  order.
\<close>

fun scheduler_ticks ::
    "zone_parts \<Rightarrow> (instance_command_row \<Rightarrow> ('m command_db_scheme, unit) io) \<Rightarrow> (failure \<Rightarrow> string)
      \<Rightarrow> time list \<Rightarrow> 'm command_db_scheme \<Rightarrow> ident list \<times> 'm command_db_scheme" where
  "scheduler_ticks zp send describe [] db = ([], db)"
| "scheduler_ticks zp send describe (t # ts) db =
     (case run_scheduler_tick zp ((stored_scheduler send describe)\<lparr>sd_now := Pair t\<rparr>) db of
        (Inl _, db') \<Rightarrow> scheduler_ticks zp send describe ts db'
      | (Inr run, db') \<Rightarrow>
          (let (fired, db'') = scheduler_ticks zp send describe ts db' in (sr_fired run @ fired, db'')))"

text \<open>\<open>s\<close> is in the local day of every zone at \<open>t\<close>, and not after \<open>t\<close>.\<close>

definition day_started :: "zone_parts \<Rightarrow> time \<Rightarrow> time \<Rightarrow> bool" where
  "day_started zp s t \<longleftrightarrow> s \<le> t \<and> (\<forall>tz s'. start_of_local_day zp tz t = Inr s' \<longrightarrow> s' \<le> s)"

text \<open>Sent so often, and claimed for the day when sent.\<close>

definition sent_once :: "time \<Rightarrow> ident \<Rightarrow> ident list \<Rightarrow> 'm command_db_scheme \<Rightarrow> bool" where
  "sent_once s i fired db \<longleftrightarrow>
     count_list fired i \<le> 1 \<and> (i \<in> set fired \<longrightarrow> i \<in> taken_today s db)"

lemma claimable_mono: "since \<le> s \<Longrightarrow> claimable i since r \<Longrightarrow> claimable i s r"
  by (auto simp: claimable_def split: option.splits)

lemma taken_no_claim:
  "i \<in> taken_today s db \<Longrightarrow> since \<le> s \<Longrightarrow> \<not> fst (claim_command_run i ranAt since db)"
  using claimable_mono by (fastforce simp: taken_today_def claim_command_run_def list_ex_iff)

lemma taken_after_claim:
  assumes "since \<le> s" and "s \<le> ranAt"
  shows "i' \<in> taken_today s db \<Longrightarrow> i' \<in> taken_today s (snd (claim_command_run i ranAt since db))"
  using assms
  by (fastforce simp: taken_today_def claim_command_run_def list_ex_iff set_update_rows claimable_def
      split: option.splits if_splits)

lemma taken_after_record:
  assumes "s \<le> ranAt"
  shows "i' \<in> taken_today s db \<Longrightarrow> i' \<in> taken_today s (record_command_run i ranAt e db)"
  using assms
  by (fastforce simp: taken_today_def record_command_run_def list_ex_iff set_update_rows claimable_def
      split: option.splits if_splits)

definition command_ids :: "'m command_db_scheme \<Rightarrow> ident list" where
  "command_ids db = map ic_id (instanceCommands db)"

lemma command_ids_kept [simp]:
  "command_ids (snd (claim_command_run i ranAt since db)) = command_ids db"
  "command_ids (record_command_run i ranAt e db) = command_ids db"
  by (simp_all add: command_ids_def claim_command_run_def record_command_run_def map_update_rows_same)

lemma taken_by_claim:
  assumes "fst (claim_command_run i ranAt since db)" and "s \<le> ranAt" and "distinct (command_ids db)"
  shows "i \<in> taken_today s (snd (claim_command_run i ranAt since db))"
proof -
  obtain r where r: "r \<in> set (instanceCommands db)" "claimable i since r"
    using assms(1) by (auto simp: claim_command_run_def list_ex_iff)
  have only: "x = r" if "x \<in> set (instanceCommands db)" "ic_id x = i" for x
  proof -
    have "inj_on ic_id (set (instanceCommands db))"
      using assms(3) by (simp add: command_ids_def distinct_map)
    moreover have "ic_id r = ic_id x" using that(2) r(2) by (simp add: claimable_def)
    ultimately show ?thesis using that(1) r(1) by (simp add: inj_on_eq_iff)
  qed
  have "\<not> claimable i s x"
    if x: "x \<in> set (instanceCommands (snd (claim_command_run i ranAt since db)))" for x
  proof
    assume cx: "claimable i s x"
    obtain y where y: "y \<in> set (instanceCommands db)"
      and xy: "x = (if claimable i since y
        then y\<lparr>ic_lastRunAt := Some ranAt, ic_lastRunError := None\<rparr> else y)"
      using x by (auto simp: claim_command_run_def set_update_rows)
    have "ic_id y = i" using cx xy by (auto simp: claimable_def split: if_splits)
    then have "y = r" by (rule only [OF y])
    then have "ic_lastRunAt x = Some ranAt" using xy r(2) by simp
    then show False using cx assms(2) by (simp add: claimable_def)
  qed
  then show ?thesis by (auto simp: taken_today_def list_ex_iff)
qed

text \<open>What the loop keeps for a command: it is sent at most once, and no more once it is claimed.\<close>

definition day_inv :: "time \<Rightarrow> ident \<Rightarrow> ident list \<Rightarrow> 'm command_db_scheme \<Rightarrow> bool" where
  "day_inv s i fired db \<longleftrightarrow> distinct (command_ids db) \<and> sent_once s i fired db"

lemma day_inv_claim:
  assumes "day_inv s i fired db" and "since \<le> s" and "s \<le> t"
  shows "day_inv s i fired (snd (claim_command_run j t since db))"
  using assms taken_after_claim [OF assms(2,3), of i db j] by (auto simp: day_inv_def sent_once_def)

lemma day_inv_record:
  "day_inv s i fired db \<Longrightarrow> s \<le> t \<Longrightarrow> day_inv s i fired (record_command_run j t e db)"
  using taken_after_record [of s t i db j e] by (auto simp: day_inv_def sent_once_def)

lemma day_inv_keeps:
  "day_inv s i fired db \<Longrightarrow> instanceCommands db' = instanceCommands db \<Longrightarrow> day_inv s i fired db'"
  by (simp add: day_inv_def sent_once_def command_ids_def taken_today_def)

lemma day_inv_fire:
  assumes "day_inv s i fired db" and "fst (claim_command_run j t since db)" and "since \<le> s" and "s \<le> t"
  shows "day_inv s i (fired @ [j]) (snd (claim_command_run j t since db))"
proof (cases "j = i")
  case True
  then have "i \<notin> set fired"
    using assms(1,2) taken_no_claim [OF _ assms(3)] by (auto simp: day_inv_def sent_once_def)
  then have "count_list fired i = 0" by (simp add: count_list_0_iff)
  then show ?thesis
    using True assms(1) taken_by_claim [OF assms(2) assms(4)]
    by (simp add: day_inv_def sent_once_def)
next
  case False
  then show ?thesis using day_inv_claim [OF assms(1,3,4), of j] by (auto simp: day_inv_def sent_once_def)
qed

lemma consider_command_day:
  fixes send :: "instance_command_row \<Rightarrow> ('m command_db_scheme, unit) io"
  assumes inv: "day_inv s i (sent @ sr_fired run) db" and day: "day_started zp s t"
    and send: "\<And>row db. instanceCommands (snd (send row db)) = instanceCommands db"
    and step: "consider_command zp ((stored_scheduler send describe)\<lparr>sd_now := now\<rparr>) t row (run, db)
      = (run', db')"
  shows "day_inv s i (sent @ sr_fired run') db'"
proof -
  have st: "s \<le> t" and since: "\<And>since. start_of_local_day zp (ic_timezone row) t = Inr since \<Longrightarrow> since \<le> s"
    using day by (auto simp: day_started_def)
  note kept = day_inv_keeps [OF _ send]
  show ?thesis
  proof (cases "is_due zp (candidate_for row) t")
    case (Inl e)
    then show ?thesis
      using step day_inv_record [OF inv st]
      by (auto simp: consider_command_def stored_scheduler_def swallow_def add_failed_def Let_def)
  next
    case (Inr due)
    show ?thesis
    proof (cases "due \<and> (\<exists>since. start_of_local_day zp (ic_timezone row) t = Inr since \<and>
        fst (claim_command_run (ic_id row) t since db))")
      case False
      then show ?thesis
        using step Inr inv day_inv_claim [OF inv since st]
        by (auto simp: consider_command_def stored_scheduler_def add_failed_def case_prod_beta
            split: sum.splits if_splits)
    next
      case True
      then obtain since' where s': "start_of_local_day zp (ic_timezone row) t = Inr since'"
        and c: "fst (claim_command_run (ic_id row) t since' db)" by auto
      define db1 where "db1 = snd (claim_command_run (ic_id row) t since' db)"
      have inv1: "day_inv s i (sent @ sr_fired run) db1"
        unfolding db1_def by (rule day_inv_claim [OF inv since [OF s'] st])
      have inv2: "day_inv s i (sent @ sr_fired run @ [ic_id row]) db1"
        using day_inv_fire [OF inv c since [OF s'] st] unfolding db1_def by simp
      show ?thesis
        using step Inr True s' c kept [OF inv1] kept [OF inv2] day_inv_record [OF kept [OF inv1] st]
        by (cases "send row db1")
          (auto simp: consider_command_def stored_scheduler_def add_failed_def swallow_def case_prod_beta
            db1_def [symmetric] Let_def split: sum.splits dest!: arg_cong [where f = snd])
    qed
  qed
qed

lemma fold_consider_day:
  fixes send :: "instance_command_row \<Rightarrow> ('m command_db_scheme, unit) io"
  assumes "day_inv s i (sent @ sr_fired (fst rw)) (snd rw)" and "day_started zp s t"
    and "\<And>row db. instanceCommands (snd (send row db)) = instanceCommands db"
  shows "(case fold (consider_command zp ((stored_scheduler send describe)\<lparr>sd_now := now\<rparr>) t) rows rw of
      (run', db') \<Rightarrow> day_inv s i (sent @ sr_fired run') db')"
  using assms(1)
proof (induction rows arbitrary: rw)
  case Nil
  then show ?case by (simp add: case_prod_beta)
next
  case (Cons row rows)
  obtain run db where rw: "rw = (run, db)" by (cases rw)
  obtain run' db' where st: "consider_command zp ((stored_scheduler send describe)\<lparr>sd_now := now\<rparr>) t row (run, db)
      = (run', db')" by fastforce
  have "day_inv s i (sent @ sr_fired run') db'"
    using consider_command_day [OF _ assms(2,3) st] Cons.prems rw by simp
  then show ?case using Cons.IH [of "(run', db')"] rw st by simp
qed

lemma scheduler_tick_day:
  fixes send :: "instance_command_row \<Rightarrow> ('m command_db_scheme, unit) io"
  assumes inv: "day_inv s i sent db" and day: "day_started zp s t"
    and send: "\<And>row db. instanceCommands (snd (send row db)) = instanceCommands db"
    and tick: "run_scheduler_tick zp ((stored_scheduler send describe)\<lparr>sd_now := Pair t\<rparr>) db = (r, db')"
  shows "\<exists>run. r = Inr run \<and> day_inv s i (sent @ sr_fired run) db'"
proof -
  let ?start = "\<lparr>sr_considered = length (list_enabled_commands db), sr_fired = [], sr_failed = [],
    sr_skipped = 0, sr_unclaimed = 0\<rparr>"
  obtain run db'' where f: "fold (consider_command zp ((stored_scheduler send describe)\<lparr>sd_now := Pair t\<rparr>) t)
      (list_enabled_commands db) (?start, db) = (run, db'')" by fastforce
  have "day_inv s i (sent @ sr_fired run) db''"
    using fold_consider_day [where send = send and rw = "(?start, db)" and sent = sent and s = s
        and i = i and zp = zp and t = t and rows = "list_enabled_commands db" and describe = describe and now = "Pair t"] inv day send f by simp
  moreover have "r = Inr run" "db' = db''"
    using tick f by (auto simp: run_scheduler_tick_def stored_scheduler_def Let_def)
  ultimately show ?thesis by blast
qed

lemma scheduler_ticks_day:
  fixes send :: "instance_command_row \<Rightarrow> ('m command_db_scheme, unit) io"
  assumes send: "\<And>row db. instanceCommands (snd (send row db)) = instanceCommands db"
  shows "day_inv s i sent db \<Longrightarrow> (\<And>t. t \<in> set ts \<Longrightarrow> day_started zp s t) \<Longrightarrow>
    day_inv s i (sent @ fst (scheduler_ticks zp send describe ts db))
      (snd (scheduler_ticks zp send describe ts db))"
proof (induction ts arbitrary: sent db)
  case Nil
  then show ?case by simp
next
  case (Cons t ts)
  obtain r db' where tick: "run_scheduler_tick zp ((stored_scheduler send describe)\<lparr>sd_now := Pair t\<rparr>) db = (r, db')"
    by fastforce
  obtain run where r: "r = Inr run" and inv: "day_inv s i (sent @ sr_fired run) db'"
    using scheduler_tick_day [OF Cons.prems(1) Cons.prems(2) send tick] by auto
  show ?case
    using Cons.IH [OF inv] Cons.prems(2) tick r by (simp add: case_prod_beta)
qed

lemma day_inv_start: "distinct (command_ids db) \<Longrightarrow> day_inv s i [] db"
  by (simp add: day_inv_def sent_once_def)

subsection \<open>A day the clocks change\<close>

text \<open>
  The start of the local day is the instant less the minutes its wall clock shows. Where the wall clock
  has skipped an hour since midnight, that is an hour before midnight, and a run in the hour before it
  counts as the new day's: the command is due and its claim is refused.
\<close>

lemma claim_refused_iff:
  "distinct (command_ids db) \<Longrightarrow> r \<in> set (instanceCommands db) \<Longrightarrow>
    fst (claim_command_run (ic_id r) t since db) \<longleftrightarrow>
      (case ic_lastRunAt r of None \<Rightarrow> True | Some ranAt \<Rightarrow> ranAt < since)"
proof -
  assume d: "distinct (command_ids db)" and r: "r \<in> set (instanceCommands db)"
  have "x = r" if "x \<in> set (instanceCommands db)" "ic_id x = ic_id r" for x
  proof -
    have "inj_on ic_id (set (instanceCommands db))" using d by (simp add: command_ids_def distinct_map)
    then show ?thesis using that r by (simp add: inj_on_eq_iff)
  qed
  then show ?thesis using r by (auto simp: claim_command_run_def list_ex_iff claimable_def)
qed

end
