(* ===== verification/TaskStore.thy ===== *)
theory TaskStore
  imports Tasks CommandStore
begin

text \<open>
  \<open>packages/core/src/instance/task.repository.ts\<close>: tasks with their steps and times, their runs, and the
  signals that trigger them, with the rows that make a run or a signal happen once.

  Deleting a task deletes its steps, times and runs, as the tables' foreign keys cascade.
\<close>

section \<open>Tables\<close>

datatype signal_source = SignalJournal | SignalLiveEvents

record task_run_row =
  tr_id :: ident
  tr_organizationId :: ident
  tr_taskId :: ident
  tr_trigger :: task_trigger
  tr_claimKey :: string
  tr_outcome :: task_run_outcome
  tr_startedAt :: time
  tr_finishedAt :: "time option"
  tr_stepsSent :: nat
  tr_error :: "string option"

record signal_cursor_row =
  gc_id :: ident
  gc_organizationId :: ident
  gc_instanceId :: ident
  gc_source :: signal_source
  gc_cursor :: string
  gc_lastObservedAt :: time

record task_db = command_db +
  instanceTasks :: "instance_task_row list"
  instanceTaskSteps :: "task_step_row list"
  instanceTaskTimes :: "task_time_row list"
  instanceTaskRuns :: "task_run_row list"
  instanceSignals :: "signal_row list"
  instanceSignalCursors :: "signal_cursor_row list"

record task_values =
  tv_instanceId :: ident
  tv_name :: string
  tv_stepDelaySeconds :: nat
  tv_enabled :: bool
  tv_timezone :: string
  tv_onFirstLogin :: bool
  tv_onLogin :: bool
  tv_onRespawn :: bool
  tv_intervalMinSeconds :: "nat option"
  tv_intervalMaxSeconds :: "nat option"

record task_parts =
  pt_task :: instance_task_row
  pt_steps :: "task_step_row list"
  pt_times :: "task_time_row list"
  pt_runs :: "task_run_row list"

record signal_values =
  sv_instanceId :: ident
  sv_kind :: signal_kind
  sv_identity :: string
  sv_process :: "string option"
  sv_firstForProcess :: bool
  sv_occurredAt :: time
  sv_observedAt :: time

section \<open>Tasks\<close>

definition task_owned :: "ident \<Rightarrow> ident \<Rightarrow> instance_task_row \<Rightarrow> bool" where
  "task_owned org i r \<longleftrightarrow> it_id r = i \<and> it_organizationId r = org"

text \<open>\<open>instanceTask_org_instance_name_unique\<close>\<close>

definition task_named :: "ident \<Rightarrow> ident \<Rightarrow> string \<Rightarrow> instance_task_row \<Rightarrow> bool" where
  "task_named org inst name r \<longleftrightarrow> it_organizationId r = org \<and> it_instanceId r = inst \<and> it_name r = name"

definition insert_task :: "ident \<Rightarrow> task_values \<Rightarrow> ('m task_db_scheme, instance_task_row) io" where
  "insert_task org v db =
     (let (i, db') = nanoid db;
          row = \<lparr>it_id = i, it_organizationId = org, it_instanceId = tv_instanceId v, it_name = tv_name v,
                 it_stepDelaySeconds = tv_stepDelaySeconds v, it_enabled = tv_enabled v,
                 it_timezone = tv_timezone v, it_onFirstLogin = tv_onFirstLogin v,
                 it_onLogin = tv_onLogin v, it_onRespawn = tv_onRespawn v,
                 it_intervalMinSeconds = tv_intervalMinSeconds v,
                 it_intervalMaxSeconds = tv_intervalMaxSeconds v,
                 it_intervalNextRunAt = None, it_intervalObservedAt = None,
                 it_lastRunAt = None, it_lastRunError = None, it_createdAt = db_time db'\<rparr>
      in if list_ex (task_named org (tv_instanceId v) (tv_name v)) (instanceTasks db')
         then (Inl unique_violation, db')
         else (Inr row, db'\<lparr>instanceTasks := instanceTasks db' @ [row]\<rparr>))"

definition patch_task :: "task_values \<Rightarrow> instance_task_row \<Rightarrow> instance_task_row" where
  "patch_task v r =
     r\<lparr>it_name := tv_name v, it_stepDelaySeconds := tv_stepDelaySeconds v, it_enabled := tv_enabled v,
       it_timezone := tv_timezone v, it_onFirstLogin := tv_onFirstLogin v, it_onLogin := tv_onLogin v,
       it_onRespawn := tv_onRespawn v, it_intervalMinSeconds := tv_intervalMinSeconds v,
       it_intervalMaxSeconds := tv_intervalMaxSeconds v, it_intervalNextRunAt := None,
       it_intervalObservedAt := None\<rparr>"

definition update_task ::
    "ident \<Rightarrow> ident \<Rightarrow> task_values \<Rightarrow> ('m task_db_scheme, instance_task_row option) io" where
  "update_task org i v db =
     (let p = (\<lambda>r. task_owned org i r \<and> it_instanceId r = tv_instanceId v) in
      if list_ex p (instanceTasks db) \<and>
         list_ex (\<lambda>r. \<not> p r \<and> task_named org (tv_instanceId v) (tv_name v) r) (instanceTasks db)
      then (Inl unique_violation, db)
      else
        (Inr (map_option (patch_task v) (find p (instanceTasks db))),
         db\<lparr>instanceTasks := update_rows p (patch_task v) (instanceTasks db)\<rparr>))"

text \<open>A row for each value, each with its own identifier, in the order of the list.\<close>

fun fresh_rows :: "(ident \<Rightarrow> 'v \<Rightarrow> 'r) \<Rightarrow> 'v list \<Rightarrow> 'm status_db_scheme \<Rightarrow> 'r list \<times> 'm status_db_scheme" where
  "fresh_rows mk [] db = ([], db)"
| "fresh_rows mk (v # vs) db =
     (let (i, db') = nanoid db; (rows, db'') = fresh_rows mk vs db' in (mk i v # rows, db''))"

definition replace_steps ::
    "ident \<Rightarrow> ident \<Rightarrow> string list \<Rightarrow> 'm task_db_scheme \<Rightarrow> 'm task_db_scheme" where
  "replace_steps org taskId commands db =
     (let db1 = db\<lparr>instanceTaskSteps :=
            filter (\<lambda>r. \<not> (ts_taskId r = taskId \<and> ts_organizationId r = org)) (instanceTaskSteps db)\<rparr> in
      if length commands = 0 then db1
      else
        (let (rows, db2) = fresh_rows
               (\<lambda>i (command, position).
                  \<lparr>ts_id = i, ts_organizationId = org, ts_taskId = taskId, ts_position = position,
                   ts_command = command\<rparr>)
               (zip commands [0..<length commands]) db1
         in db2\<lparr>instanceTaskSteps := instanceTaskSteps db2 @ rows\<rparr>))"

text \<open>\<open>instanceTaskTime_task_time_unique\<close>: the same days and minute twice throws.\<close>

definition replace_times ::
    "ident \<Rightarrow> ident \<Rightarrow> (string \<times> nat) list \<Rightarrow> ('m task_db_scheme, unit) io" where
  "replace_times org taskId values db =
     (let db1 = db\<lparr>instanceTaskTimes :=
            filter (\<lambda>r. \<not> (tt_taskId r = taskId \<and> tt_organizationId r = org)) (instanceTaskTimes db)\<rparr> in
      if length values = 0 then (Inr (), db1)
      else
        (let (rows, db2) = fresh_rows
               (\<lambda>i (days, minutes).
                  \<lparr>tt_id = i, tt_organizationId = org, tt_taskId = taskId, tt_daysOfWeek = days,
                   tt_minuteOfDay = minutes\<rparr>)
               values db1
         in if \<not> distinct values then (Inl unique_violation, db2)
            else (Inr (), db2\<lparr>instanceTaskTimes := instanceTaskTimes db2 @ rows\<rparr>)))"

definition in_scope :: "ident option \<Rightarrow> ident \<Rightarrow> bool" where
  "in_scope scope org = (case scope of None \<Rightarrow> True | Some o' \<Rightarrow> org = o')"

definition parts_for ::
    "ident option \<Rightarrow> instance_task_row list \<Rightarrow> time \<Rightarrow> 'm task_db_scheme \<Rightarrow> task_parts list" where
  "parts_for scope tasks runsSince db =
     (if length tasks = 0 then []
      else
        (let ids = map it_id tasks;
             steps = sort_key ts_position
               (filter (\<lambda>r. ts_taskId r \<in> set ids \<and> in_scope scope (ts_organizationId r)) (instanceTaskSteps db));
             times = sort_key tt_minuteOfDay
               (filter (\<lambda>r. tt_taskId r \<in> set ids \<and> in_scope scope (tt_organizationId r)) (instanceTaskTimes db));
             runs = sort_key (\<lambda>r. - tr_startedAt r)
               (filter (\<lambda>r. tr_taskId r \<in> set ids \<and> runsSince \<le> tr_startedAt r
                    \<and> in_scope scope (tr_organizationId r)) (instanceTaskRuns db))
         in map (\<lambda>task.
              \<lparr>pt_task = task, pt_steps = filter (\<lambda>r. ts_taskId r = it_id task) steps,
               pt_times = filter (\<lambda>r. tt_taskId r = it_id task) times,
               pt_runs = filter (\<lambda>r. tr_taskId r = it_id task) runs\<rparr>) tasks))"

definition list_tasks_for_instance ::
    "ident \<Rightarrow> ident \<Rightarrow> time \<Rightarrow> 'm task_db_scheme \<Rightarrow> task_parts list" where
  "list_tasks_for_instance org inst runsSince db =
     parts_for (Some org)
       (sort_key it_createdAt
          (filter (\<lambda>r. it_instanceId r = inst \<and> it_organizationId r = org) (instanceTasks db)))
       runsSince db"

definition list_enabled_tasks :: "time \<Rightarrow> 'm task_db_scheme \<Rightarrow> task_parts list" where
  "list_enabled_tasks runsSince db =
     parts_for None (sort_key it_createdAt (filter it_enabled (instanceTasks db))) runsSince db"

definition find_task :: "ident \<Rightarrow> ident \<Rightarrow> 'm task_db_scheme \<Rightarrow> instance_task_row option" where
  "find_task org i db = find (task_owned org i) (instanceTasks db)"

definition delete_task_returning ::
    "ident \<Rightarrow> ident \<Rightarrow> 'm task_db_scheme \<Rightarrow> instance_task_row option \<times> 'm task_db_scheme" where
  "delete_task_returning org i db =
     (let gone = (\<lambda>o' t. list_ex (\<lambda>r. task_owned org i r \<and> it_id r = t \<and> it_organizationId r = o') (instanceTasks db)) in
      (find (task_owned org i) (instanceTasks db),
       db\<lparr>instanceTasks := filter (\<lambda>r. \<not> task_owned org i r) (instanceTasks db),
          instanceTaskSteps := filter (\<lambda>r. \<not> gone (ts_organizationId r) (ts_taskId r)) (instanceTaskSteps db),
          instanceTaskTimes := filter (\<lambda>r. \<not> gone (tt_organizationId r) (tt_taskId r)) (instanceTaskTimes db),
          instanceTaskRuns := filter (\<lambda>r. \<not> gone (tr_organizationId r) (tr_taskId r)) (instanceTaskRuns db)\<rparr>))"

definition steps_for :: "ident \<Rightarrow> ident \<Rightarrow> 'm task_db_scheme \<Rightarrow> task_step_row list" where
  "steps_for org taskId db =
     sort_key ts_position
       (filter (\<lambda>r. ts_taskId r = taskId \<and> ts_organizationId r = org) (instanceTaskSteps db))"

definition arm_interval :: "ident \<Rightarrow> ident \<Rightarrow> interval_arm \<Rightarrow> 'm task_db_scheme \<Rightarrow> 'm task_db_scheme" where
  "arm_interval org i arm db =
     db\<lparr>instanceTasks := update_rows (task_owned org i) (arm_row arm) (instanceTasks db)\<rparr>"

section \<open>Runs\<close>

definition run_key :: "task_run_row \<Rightarrow> ident \<times> ident \<times> string" where
  "run_key r = (tr_organizationId r, tr_taskId r, tr_claimKey r)"

definition claim_task_run ::
    "ident \<Rightarrow> ident \<Rightarrow> task_claim \<Rightarrow> time \<Rightarrow> 'm task_db_scheme \<Rightarrow> ident option \<times> 'm task_db_scheme" where
  "claim_task_run org taskId claim startedAt db =
     (let (i, db') = nanoid db;
          row = \<lparr>tr_id = i, tr_organizationId = org, tr_taskId = taskId, tr_trigger = tc_trigger claim,
                 tr_claimKey = tc_claimKey claim, tr_outcome = RunRunning, tr_startedAt = startedAt,
                 tr_finishedAt = None, tr_stepsSent = 0, tr_error = None\<rparr>
      in if list_ex (\<lambda>r. run_key r = (org, taskId, tc_claimKey claim)) (instanceTaskRuns db')
         then (None, db')
         else (Some i, db'\<lparr>instanceTaskRuns := instanceTaskRuns db' @ [row]\<rparr>))"

definition finish_task_run ::
    "ident \<Rightarrow> ident \<Rightarrow> task_run_outcome \<Rightarrow> nat \<Rightarrow> string option \<Rightarrow> time \<Rightarrow> 'm task_db_scheme \<Rightarrow> 'm task_db_scheme" where
  "finish_task_run org runId outcome stepsSent error finishedAt db =
     db\<lparr>instanceTaskRuns :=
          update_rows (\<lambda>r. tr_id r = runId \<and> tr_organizationId r = org)
            (\<lambda>r. r\<lparr>tr_outcome := outcome, tr_stepsSent := stepsSent, tr_error := error,
                   tr_finishedAt := Some finishedAt\<rparr>)
            (instanceTaskRuns db)\<rparr>"

definition record_task_outcome ::
    "ident \<Rightarrow> ident \<Rightarrow> time \<Rightarrow> string option \<Rightarrow> 'm task_db_scheme \<Rightarrow> 'm task_db_scheme" where
  "record_task_outcome org taskId ranAt error db =
     db\<lparr>instanceTasks :=
          update_rows (task_owned org taskId)
            (\<lambda>r. r\<lparr>it_lastRunAt := Some ranAt, it_lastRunError := error\<rparr>) (instanceTasks db)\<rparr>"

definition abandon_stale_runs :: "time \<Rightarrow> string \<Rightarrow> 'm task_db_scheme \<Rightarrow> nat \<times> 'm task_db_scheme" where
  "abandon_stale_runs startedBefore reason db =
     (let p = (\<lambda>r. tr_outcome r = RunRunning \<and> tr_startedAt r < startedBefore) in
      (updated_count p (instanceTaskRuns db),
       db\<lparr>instanceTaskRuns :=
            update_rows p
              (\<lambda>r. r\<lparr>tr_outcome := RunAbandoned, tr_error := Some reason, tr_finishedAt := Some startedBefore\<rparr>)
              (instanceTaskRuns db)\<rparr>))"

definition prune_runs :: "time \<Rightarrow> 'm task_db_scheme \<Rightarrow> nat \<times> 'm task_db_scheme" where
  "prune_runs startedBefore db =
     (let p = (\<lambda>r. tr_startedAt r < startedBefore \<and> tr_outcome r \<noteq> RunRunning) in
      (updated_count p (instanceTaskRuns db),
       db\<lparr>instanceTaskRuns := filter (\<lambda>r. \<not> p r) (instanceTaskRuns db)\<rparr>))"

section \<open>Signals\<close>

definition signal_key :: "signal_row \<Rightarrow> ident \<times> ident \<times> signal_kind \<times> string" where
  "signal_key r = (sg_organizationId r, sg_instanceId r, sg_kind r, sg_identity r)"

definition record_signal ::
    "ident \<Rightarrow> signal_values \<Rightarrow> 'm task_db_scheme \<Rightarrow> bool \<times> 'm task_db_scheme" where
  "record_signal org v db =
     (let (i, db') = nanoid db;
          row = \<lparr>sg_id = i, sg_organizationId = org, sg_instanceId = sv_instanceId v, sg_kind = sv_kind v,
                 sg_identity = sv_identity v, sg_process = sv_process v,
                 sg_firstForProcess = sv_firstForProcess v, sg_occurredAt = sv_occurredAt v,
                 sg_observedAt = sv_observedAt v\<rparr>
      in if list_ex (\<lambda>r. signal_key r = signal_key row) (instanceSignals db')
         then (False, db')
         else (True, db'\<lparr>instanceSignals := instanceSignals db' @ [row]\<rparr>))"

definition has_joined_as :: "ident \<Rightarrow> ident \<Rightarrow> string \<Rightarrow> 'm task_db_scheme \<Rightarrow> bool" where
  "has_joined_as org inst process db =
     list_ex (\<lambda>r. sg_organizationId r = org \<and> sg_instanceId r = inst \<and> sg_kind r = SignalLogin
        \<and> sg_process r = Some process) (instanceSignals db)"

definition signals_since :: "ident \<Rightarrow> ident \<Rightarrow> time \<Rightarrow> 'm task_db_scheme \<Rightarrow> signal_row list" where
  "signals_since org inst since db =
     sort_key (\<lambda>r. - sg_occurredAt r)
       (filter (\<lambda>r. sg_organizationId r = org \<and> sg_instanceId r = inst \<and> since \<le> sg_occurredAt r)
          (instanceSignals db))"

definition prune_signals :: "time \<Rightarrow> 'm task_db_scheme \<Rightarrow> nat \<times> 'm task_db_scheme" where
  "prune_signals occurredBefore db =
     (updated_count (\<lambda>r. sg_occurredAt r < occurredBefore) (instanceSignals db),
      db\<lparr>instanceSignals := filter (\<lambda>r. \<not> sg_occurredAt r < occurredBefore) (instanceSignals db)\<rparr>)"

definition signal_cursor_matches :: "ident \<Rightarrow> ident \<Rightarrow> signal_source \<Rightarrow> signal_cursor_row \<Rightarrow> bool" where
  "signal_cursor_matches org inst src r \<longleftrightarrow>
     gc_organizationId r = org \<and> gc_instanceId r = inst \<and> gc_source r = src"

definition read_signal_cursor :: "ident \<Rightarrow> ident \<Rightarrow> signal_source \<Rightarrow> 'm task_db_scheme \<Rightarrow> string option" where
  "read_signal_cursor org inst src db =
     map_option gc_cursor (find (signal_cursor_matches org inst src) (instanceSignalCursors db))"

definition write_signal_cursor ::
    "ident \<Rightarrow> ident \<Rightarrow> signal_source \<Rightarrow> string \<Rightarrow> time \<Rightarrow> 'm task_db_scheme \<Rightarrow> 'm task_db_scheme" where
  "write_signal_cursor org inst src cursor observedAt db =
     (let (i, db') = nanoid db in
      if list_ex (signal_cursor_matches org inst src) (instanceSignalCursors db') then
        db'\<lparr>instanceSignalCursors :=
              update_rows (signal_cursor_matches org inst src)
                (\<lambda>r. r\<lparr>gc_cursor := cursor, gc_lastObservedAt := observedAt\<rparr>) (instanceSignalCursors db')\<rparr>
      else
        db'\<lparr>instanceSignalCursors := instanceSignalCursors db' @
              [\<lparr>gc_id = i, gc_organizationId = org, gc_instanceId = inst, gc_source = src,
                gc_cursor = cursor, gc_lastObservedAt = observedAt\<rparr>]\<rparr>)"

section \<open>The store's contracts\<close>

text \<open>A claim key runs once per task, and a signal is recorded once per bot, kind and identity.\<close>

definition claimed_run_keys :: "'m task_db_scheme \<Rightarrow> (ident \<times> ident \<times> string) set" where
  "claimed_run_keys db = run_key ` set (instanceTaskRuns db)"

lemma claim_task_run_cases:
  "(org, task, tc_claimKey c) \<in> claimed_run_keys db \<Longrightarrow>
     fst (claim_task_run org task c t db) = None \<and> claimed_run_keys (snd (claim_task_run org task c t db)) = claimed_run_keys db"
  "(org, task, tc_claimKey c) \<notin> claimed_run_keys db \<Longrightarrow>
     fst (claim_task_run org task c t db) \<noteq> None \<and>
     claimed_run_keys (snd (claim_task_run org task c t db)) = insert (org, task, tc_claimKey c) (claimed_run_keys db)"
  by (auto simp: claim_task_run_def claimed_run_keys_def list_ex_iff Let_def nanoid_def run_key_def image_iff)

interpretation run_log: insert_once
  "\<lambda>(org, task, c, t). claim_task_run org task c t" "\<lambda>(org, task, c, t). Some (org, task, tc_claimKey c)" claimed_run_keys
proof unfold_locales
  fix v :: "ident \<times> ident \<times> task_claim \<times> time" and k and s :: "'a task_db_scheme"
  assume "(case v of (org, task, c, t) \<Rightarrow> Some (org, task, tc_claimKey c)) = Some k" and "k \<in> claimed_run_keys s"
  then show "fst ((case v of (org, task, c, t) \<Rightarrow> claim_task_run org task c t) s) = None \<and>
      claimed_run_keys (snd ((case v of (org, task, c, t) \<Rightarrow> claim_task_run org task c t) s)) = claimed_run_keys s"
    by (cases v) (auto simp: claim_task_run_cases)
next
  fix v :: "ident \<times> ident \<times> task_claim \<times> time" and s :: "'a task_db_scheme"
  assume "\<And>k. (case v of (org, task, c, t) \<Rightarrow> Some (org, task, tc_claimKey c)) = Some k \<Longrightarrow> k \<notin> claimed_run_keys s"
  then show "fst ((case v of (org, task, c, t) \<Rightarrow> claim_task_run org task c t) s) \<noteq> None \<and>
      claimed_run_keys (snd ((case v of (org, task, c, t) \<Rightarrow> claim_task_run org task c t) s)) =
        claimed_run_keys s \<union> set_option (case v of (org, task, c, t) \<Rightarrow> Some (org, task, tc_claimKey c))"
    by (cases v) (auto simp: claim_task_run_cases simp del: not_None_eq)
qed

definition signal_values_key :: "ident \<Rightarrow> signal_values \<Rightarrow> ident \<times> ident \<times> signal_kind \<times> string" where
  "signal_values_key org v = (org, sv_instanceId v, sv_kind v, sv_identity v)"

definition signal_keys :: "'m task_db_scheme \<Rightarrow> (ident \<times> ident \<times> signal_kind \<times> string) set" where
  "signal_keys db = signal_key ` set (instanceSignals db)"

definition note_signal :: "ident \<times> signal_values \<Rightarrow> 'm task_db_scheme \<Rightarrow> unit option \<times> 'm task_db_scheme" where
  "note_signal v db =
     (let (b, db') = record_signal (fst v) (snd v) db in (if b then Some () else None, db'))"

lemma note_signal_cases:
  "signal_values_key org v \<in> signal_keys db \<Longrightarrow>
     fst (note_signal (org, v) db) = None \<and> signal_keys (snd (note_signal (org, v) db)) = signal_keys db"
  "signal_values_key org v \<notin> signal_keys db \<Longrightarrow>
     fst (note_signal (org, v) db) \<noteq> None \<and>
     signal_keys (snd (note_signal (org, v) db)) = insert (signal_values_key org v) (signal_keys db)"
  by (auto simp: note_signal_def record_signal_def signal_keys_def signal_values_key_def list_ex_iff Let_def
      nanoid_def signal_key_def image_iff)

interpretation signal_log: insert_once
  note_signal "\<lambda>v. Some (signal_values_key (fst v) (snd v))" signal_keys
proof unfold_locales
  fix v :: "ident \<times> signal_values" and k and s :: "'a task_db_scheme"
  assume "Some (signal_values_key (fst v) (snd v)) = Some k" and "k \<in> signal_keys s"
  then show "fst (note_signal v s) = None \<and> signal_keys (snd (note_signal v s)) = signal_keys s"
    by (cases v) (auto simp: note_signal_cases)
next
  fix v :: "ident \<times> signal_values" and s :: "'a task_db_scheme"
  assume "\<And>k. Some (signal_values_key (fst v) (snd v)) = Some k \<Longrightarrow> k \<notin> signal_keys s"
  then show "fst (note_signal v s) \<noteq> None \<and>
      signal_keys (snd (note_signal v s)) = signal_keys s \<union> set_option (Some (signal_values_key (fst v) (snd v)))"
    by (cases v) (auto simp: note_signal_cases simp del: not_None_eq)
qed

lemma read_write_signal_cursor:
  "read_signal_cursor org' i' src' (write_signal_cursor org i src c t db) =
     (if (org', i', src') = (org, i, src) then Some c else read_signal_cursor org' i' src' db)"
proof (cases "(org', i', src') = (org, i, src)")
  case True
  let ?m = "signal_cursor_matches org i src"
  have same: "find ?m (update_rows ?m f xs) = map_option f (find ?m xs)"
    if "\<And>r. ?m (f r) = ?m r" for f xs
    using that by (intro find_update_rows_same) auto
  show ?thesis using True
    by (cases "find ?m (instanceSignalCursors db)")
      (simp_all add: read_signal_cursor_def write_signal_cursor_def Let_def same signal_cursor_matches_def
        find_append list_ex_find nanoid_def)
next
  case False
  have upd: "find (signal_cursor_matches org' i' src')
      (update_rows (signal_cursor_matches org i src) (\<lambda>r. r\<lparr>gc_cursor := c, gc_lastObservedAt := t\<rparr>) xs) =
      find (signal_cursor_matches org' i' src') xs" for xs
    using False by (intro find_update_rows_other) (auto simp: signal_cursor_matches_def)
  show ?thesis using False
    by (auto simp: read_signal_cursor_def write_signal_cursor_def Let_def upd find_append nanoid_def
        split: option.splits)
      (auto simp: signal_cursor_matches_def)
qed

interpretation signal_cursors: keyed_upsert
  "\<lambda>(org, i, src) c. write_signal_cursor org i src c t" "\<lambda>(org, i, src). read_signal_cursor org i src" for t
  by unfold_locales (auto simp: read_write_signal_cursor split: prod.splits)

subsection \<open>Steps read back in order\<close>

lemma fresh_rows_map:
  assumes "\<And>i v. f (mk i v) = g v"
  shows "map f (fst (fresh_rows mk vs db)) = map g vs"
  using assms by (induction vs arbitrary: db) (simp_all add: case_prod_beta Let_def)

lemma fresh_rows_set:
  assumes "\<And>i v. P (mk i v)"
  shows "\<forall>r \<in> set (fst (fresh_rows mk vs db)). P r"
  using assms by (induction vs arbitrary: db) (auto simp: case_prod_beta Let_def)

lemma fresh_rows_db: "snd (fresh_rows mk vs db) = db\<lparr>nano_next := nano_next db + length vs\<rparr>"
  by (induction vs arbitrary: db) (simp_all add: case_prod_beta Let_def nanoid_def)

lemma sort_key_sorted: "sorted (map k xs) \<Longrightarrow> sort_key k xs = xs"
  by (rule sort_key_id_if_sorted)

text \<open>What \<open>replaceSteps\<close> stores is what \<open>stepsFor\<close> reads, in the order given.\<close>

lemma steps_for_replace_steps:
  "map ts_command (steps_for org taskId (replace_steps org taskId commands db)) = commands"
proof (cases commands)
  case Nil
  then show ?thesis
    by (simp add: steps_for_def replace_steps_def Let_def)
next
  case (Cons c cs)
  define mk where "mk = (\<lambda>i (command, position).
    \<lparr>ts_id = i, ts_organizationId = org, ts_taskId = taskId, ts_position = position, ts_command = command\<rparr>)"
  define vs where "vs = zip commands [0..<length commands]"
  define db1 where "db1 = db\<lparr>instanceTaskSteps :=
      filter (\<lambda>r. \<not> (ts_taskId r = taskId \<and> ts_organizationId r = org)) (instanceTaskSteps db)\<rparr>"
  define rows where "rows = fst (fresh_rows mk vs db1)"
  have eq: "instanceTaskSteps (replace_steps org taskId commands db) = instanceTaskSteps db1 @ rows"
    using Cons
    by (simp add: replace_steps_def Let_def case_prod_beta rows_def vs_def mk_def db1_def fresh_rows_db)
  have "map ts_position rows = map snd vs"
    unfolding rows_def by (rule fresh_rows_map) (simp add: mk_def case_prod_beta)
  then have "sorted (map ts_position rows)" by (simp add: vs_def)
  moreover have "\<forall>r \<in> set rows. ts_taskId r = taskId \<and> ts_organizationId r = org"
    unfolding rows_def by (rule fresh_rows_set) (simp add: mk_def case_prod_beta)
  then have "filter (\<lambda>r. ts_taskId r = taskId \<and> ts_organizationId r = org) (instanceTaskSteps db1 @ rows) = rows"
    by (simp add: db1_def filter_empty_conv filter_id_conv)
  moreover have "map ts_command rows = map fst vs"
    unfolding rows_def by (rule fresh_rows_map) (simp add: mk_def case_prod_beta)
  ultimately show ?thesis
    by (simp add: steps_for_def eq sort_key_sorted vs_def)
qed

end
