(* ===== verification/TaskScheduler.thy ===== *)
theory TaskScheduler
  imports TaskStore "HOL-Library.Multiset"
begin

text \<open>
  \<open>packages/core/src/instance/task-scheduler.ts\<close>: one tick over the enabled tasks, bot by bot, which reads
  a bot's signals, keeps the interval countdowns, claims what is due and carries it out.

  The dependencies are a record of effectful calls, and \<open>stored_task_scheduler\<close> wires the ones the server
  wires to the repository. \<open>onError\<close> only logs and is left out. The jitter drawn in a call of
  \<open>intervalPlan\<close> is read from the world, as \<open>Math.random()\<close> would be.
\<close>

record signal_needs =
  nd_join :: bool
  nd_respawn :: bool

record task_scheduler_run =
  kr_considered :: nat
  kr_fired :: "ident list"
  kr_failed :: "(ident \<times> string) list"
  kr_unclaimed :: nat
  kr_observed :: nat

record 'w task_scheduler_deps =
  kd_enabledTasks :: "time \<Rightarrow> ('w, task_parts list) io"
  kd_isRunning :: "ident \<Rightarrow> ident \<Rightarrow> ('w, bool) io"
  kd_observeSignals :: "ident \<Rightarrow> ident \<Rightarrow> signal_needs \<Rightarrow> time \<Rightarrow> ('w, unit) io"
  kd_signalsSince :: "ident \<Rightarrow> ident \<Rightarrow> time \<Rightarrow> ('w, signal_row list) io"
  kd_armInterval :: "ident \<Rightarrow> ident \<Rightarrow> interval_arm \<Rightarrow> ('w, unit) io"
  kd_claimRun :: "ident \<Rightarrow> ident \<Rightarrow> task_claim \<Rightarrow> time \<Rightarrow> ('w, ident option) io"
  kd_send :: "task_parts \<Rightarrow> 'w \<Rightarrow> (step_failure + nat) \<times> 'w"
  kd_finishRun :: "ident \<Rightarrow> ident \<Rightarrow> task_run_outcome \<Rightarrow> nat \<Rightarrow> string option \<Rightarrow> time \<Rightarrow> ('w, unit) io"
  kd_recordTaskOutcome :: "ident \<Rightarrow> ident \<Rightarrow> time \<Rightarrow> string option \<Rightarrow> ('w, unit) io"
  kd_sweep :: "time \<Rightarrow> time \<Rightarrow> time \<Rightarrow> string \<Rightarrow> ('w, unit) io"
  kd_now :: "'w \<Rightarrow> time \<times> 'w"
  kd_jitter :: "'w \<Rightarrow> interval_jitter \<times> 'w"
  kd_describeFailure :: "failure \<Rightarrow> string"

definition unknown_task_failure :: string where
  "unknown_task_failure = ''Unknown task failure''"

definition needs_of :: "task_parts list \<Rightarrow> signal_needs" where
  "needs_of tasks =
     \<lparr>nd_join = list_ex (\<lambda>p. wants_join_signal (pt_task p)) tasks,
      nd_respawn = list_ex (\<lambda>p. wants_respawn_signal (pt_task p)) tasks\<rparr>"

text \<open>A map from keys to lists keeps its keys in the order they were first set.\<close>

definition task_group_key :: "task_parts \<Rightarrow> string" where
  "task_group_key p = it_organizationId (pt_task p) @ '':'' @ it_instanceId (pt_task p)"

fun add_to_group :: "string \<Rightarrow> 'v \<Rightarrow> (string \<times> 'v list) list \<Rightarrow> (string \<times> 'v list) list" where
  "add_to_group k v [] = [(k, [v])]"
| "add_to_group k v ((k', vs) # groups) =
     (if k' = k then (k', vs @ [v]) # groups else (k', vs) # add_to_group k v groups)"

definition by_instance :: "task_parts list \<Rightarrow> (string \<times> task_parts list) list" where
  "by_instance tasks = foldl (\<lambda>groups p. add_to_group (task_group_key p) p groups) [] tasks"

section \<open>One task\<close>

definition add_task_failed :: "ident \<Rightarrow> string \<Rightarrow> task_scheduler_run \<Rightarrow> task_scheduler_run" where
  "add_task_failed i reason run = run\<lparr>kr_failed := kr_failed run @ [(i, reason)]\<rparr>"

definition failure_reason :: "'w task_scheduler_deps \<Rightarrow> step_failure \<Rightarrow> string" where
  "failure_reason deps f =
     (case f of
        StepsFailed m n \<Rightarrow> m
      | OtherFailure e \<Rightarrow> kd_describeFailure deps (failure_of unknown_task_failure e))"

definition failure_steps :: "step_failure \<Rightarrow> nat" where
  "failure_steps f = (case f of StepsFailed m n \<Rightarrow> n | OtherFailure e \<Rightarrow> 0)"

text \<open>The \<open>try\<close> block, with the run's report so far when it throws.\<close>

definition carry_out_try ::
    "'w task_scheduler_deps \<Rightarrow> task_parts \<Rightarrow> ident \<Rightarrow> time \<Rightarrow> task_scheduler_run \<Rightarrow> 'w
      \<Rightarrow> (step_failure + unit) \<times> task_scheduler_run \<times> 'w" where
  "carry_out_try deps parts runId t run w =
     (let org = it_organizationId (pt_task parts); taskId = it_id (pt_task parts) in
      case kd_send deps parts w of
        (Inl f, w1) \<Rightarrow> (Inl f, run, w1)
      | (Inr stepsSent, w1) \<Rightarrow>
          (let run1 = run\<lparr>kr_fired := kr_fired run @ [taskId]\<rparr>; (now, w2) = kd_now deps w1 in
           case kd_finishRun deps org runId RunSent stepsSent None now w2 of
             (Inl e, w3) \<Rightarrow> (Inl (OtherFailure e), run1, w3)
           | (Inr _, w3) \<Rightarrow>
               (case kd_recordTaskOutcome deps org taskId t None w3 of
                  (Inl e, w4) \<Rightarrow> (Inl (OtherFailure e), run1, w4)
                | (Inr _, w4) \<Rightarrow> (Inr (), run1, w4))))"

definition carry_out ::
    "'w task_scheduler_deps \<Rightarrow> task_parts \<Rightarrow> ident \<Rightarrow> time \<Rightarrow> task_scheduler_run \<times> 'w
      \<Rightarrow> task_scheduler_run \<times> 'w" where
  "carry_out deps parts runId t rw =
     (let org = it_organizationId (pt_task parts); taskId = it_id (pt_task parts) in
      case carry_out_try deps parts runId t (fst rw) (snd rw) of
        (Inr _, run1, w1) \<Rightarrow> (run1, w1)
      | (Inl f, run1, w1) \<Rightarrow>
          (let reason = failure_reason deps f;
               run2 = add_task_failed taskId reason run1;
               (now, w2) = kd_now deps w1;
               w3 = swallow (kd_finishRun deps org runId RunFailed (failure_steps f) (Some reason) now) w2;
               w4 = swallow (kd_recordTaskOutcome deps org taskId t (Some reason)) w3
           in (run2, w4)))"

definition consider_claim ::
    "'w task_scheduler_deps \<Rightarrow> task_parts \<Rightarrow> time \<Rightarrow> task_claim \<Rightarrow> task_scheduler_run \<times> 'w
      \<Rightarrow> task_scheduler_run \<times> 'w" where
  "consider_claim deps parts t claim =
     (\<lambda>(run, w).
       case kd_claimRun deps (it_organizationId (pt_task parts)) (it_id (pt_task parts)) claim t w of
         (Inl e, w1) \<Rightarrow>
           (add_task_failed (it_id (pt_task parts)) (error_message_or unknown_task_failure e) run, w1)
       | (Inr None, w1) \<Rightarrow> (run\<lparr>kr_unclaimed := kr_unclaimed run + 1\<rparr>, w1)
       | (Inr (Some runId), w1) \<Rightarrow> carry_out deps parts runId t (run, w1))"

definition definition_of :: "task_parts \<Rightarrow> task_definition" where
  "definition_of p = \<lparr>td_row = pt_task p, td_steps = pt_steps p, td_times = pt_times p\<rparr>"

definition consider_task ::
    "zone_parts \<Rightarrow> 'w task_scheduler_deps \<Rightarrow> time \<Rightarrow> bool \<Rightarrow> signal_row list \<Rightarrow> task_parts
      \<Rightarrow> task_scheduler_run \<times> 'w \<Rightarrow> task_scheduler_run \<times> 'w" where
  "consider_task zp deps t running signals parts =
     (\<lambda>(run, w).
       let org = it_organizationId (pt_task parts); taskId = it_id (pt_task parts) in
       case time_claims zp (definition_of parts) t of
         Inl e \<Rightarrow>
           (let reason = error_message_or unknown_task_failure e in
            (add_task_failed taskId reason run,
             swallow (kd_recordTaskOutcome deps org taskId t (Some reason)) w))
       | Inr byTime \<Rightarrow>
           (let claims = signal_claims (pt_task parts) signals @ byTime;
                (jitter, w1) = kd_jitter deps w;
                plan = interval_plan_of (pt_task parts) t running jitter in
            case (case interval_arm_of plan of
                    None \<Rightarrow> (Inr (), w1)
                  | Some arm \<Rightarrow> kd_armInterval deps org taskId arm w1) of
              (Inl e, w2) \<Rightarrow> (run, w2)
            | (Inr _, w2) \<Rightarrow>
                (let claims' = claims @ (case interval_claim_of plan of None \<Rightarrow> [] | Some c \<Rightarrow> [c]) in
                 if length claims' = 0 then (run, w2)
                 else if \<not> running then (run, w2)
                 else fold (consider_claim deps parts t) claims' (run, w2))))"

section \<open>The tick\<close>

definition consider_group ::
    "zone_parts \<Rightarrow> 'w task_scheduler_deps \<Rightarrow> time \<Rightarrow> string \<times> task_parts list
      \<Rightarrow> task_scheduler_run \<times> 'w \<Rightarrow> task_scheduler_run \<times> 'w" where
  "consider_group zp deps t keyed =
     (\<lambda>(run, w).
       case snd keyed of
         [] \<Rightarrow> (run, w)
       | first # rest \<Rightarrow>
           (let group = first # rest; org = it_organizationId (pt_task first);
                instanceId = it_instanceId (pt_task first) in
            case kd_isRunning deps org instanceId w of
              (Inl e, w1) \<Rightarrow> (run, w1)
            | (Inr running, w1) \<Rightarrow>
                (let needs = needs_of group;
                     (run2, w2) =
                       (if running \<and> (nd_join needs \<or> nd_respawn needs) then
                          (case kd_observeSignals deps org instanceId needs t w1 of
                             (Inl e, w2) \<Rightarrow> (run, w2)
                           | (Inr _, w2) \<Rightarrow> (run\<lparr>kr_observed := kr_observed run + 1\<rparr>, w2))
                        else (run, w1));
                     (signals, w3) =
                       (if nd_join needs \<or> nd_respawn needs then
                          (case kd_signalsSince deps org instanceId (t - task_signal_catch_up_ms) w2 of
                             (Inl e, w3) \<Rightarrow> ([], w3)
                           | (Inr found, w3) \<Rightarrow> (found, w3))
                        else ([], w2))
                 in fold (consider_task zp deps t running signals) group (run2, w3))))"

definition day_ms :: int where "day_ms = 24 * 60 * 60 * 1000"

definition run_task_scheduler_tick ::
    "zone_parts \<Rightarrow> 'w task_scheduler_deps \<Rightarrow> ('w, task_scheduler_run) io" where
  "run_task_scheduler_tick zp deps w =
     (let (t, w1) = kd_now deps w;
          retainedSince = t - task_run_retention_days * day_ms;
          w2 = swallow (kd_sweep deps (t - task_abandoned_after_ms) retainedSince
                 (t - task_signal_retention_days * day_ms) task_abandoned_reason) w1
      in case kd_enabledTasks deps retainedSince w2 of
           (Inl e, w3) \<Rightarrow> (Inl e, w3)
         | (Inr tasks, w3) \<Rightarrow>
             (let (run, w4) = fold (consider_group zp deps t) (by_instance tasks)
                (\<lparr>kr_considered = length tasks, kr_fired = [], kr_failed = [], kr_unclaimed = 0,
                  kr_observed = 0\<rparr>, w3)
              in (Inr run, w4)))"

text \<open>
  The dependencies as the server wires them. Whether a bot runs, the reading of its signals, the
  sending of its steps and the jitter are the rest of the program and the outside.
\<close>

definition stored_task_scheduler ::
    "(ident \<Rightarrow> ident \<Rightarrow> ('m task_db_scheme, bool) io)
      \<Rightarrow> (ident \<Rightarrow> ident \<Rightarrow> signal_needs \<Rightarrow> time \<Rightarrow> ('m task_db_scheme, unit) io)
      \<Rightarrow> (task_parts \<Rightarrow> 'm task_db_scheme \<Rightarrow> (step_failure + nat) \<times> 'm task_db_scheme)
      \<Rightarrow> ('m task_db_scheme \<Rightarrow> interval_jitter \<times> 'm task_db_scheme) \<Rightarrow> (failure \<Rightarrow> string)
      \<Rightarrow> 'm task_db_scheme task_scheduler_deps" where
  "stored_task_scheduler isRunning observe send jitter describe =
     \<lparr>kd_enabledTasks = (\<lambda>since db. (Inr (list_enabled_tasks since db), db)),
      kd_isRunning = isRunning,
      kd_observeSignals = observe,
      kd_signalsSince = (\<lambda>org i since db. (Inr (signals_since org i since db), db)),
      kd_armInterval = (\<lambda>org i arm db. (Inr (), arm_interval org i arm db)),
      kd_claimRun = (\<lambda>org i c t db. let (r, db') = claim_task_run org i c t db in (Inr r, db')),
      kd_send = send,
      kd_finishRun = (\<lambda>org i outcome n e t db. (Inr (), finish_task_run org i outcome n e t db)),
      kd_recordTaskOutcome = (\<lambda>org i t e db. (Inr (), record_task_outcome org i t e db)),
      kd_sweep = (\<lambda>abandonBefore runsBefore signalsBefore reason db.
        (Inr (), snd (prune_signals signalsBefore (snd (prune_runs runsBefore
                   (snd (abandon_stale_runs abandonBefore reason db))))))),
      kd_now = read_now,
      kd_jitter = jitter,
      kd_describeFailure = describe\<rparr>"

section \<open>Lemmas\<close>

lemma stored_task_scheduler_fields [simp]:
  "kd_enabledTasks (stored_task_scheduler ir ob se ji de) = (\<lambda>since db. (Inr (list_enabled_tasks since db), db))"
  "kd_isRunning (stored_task_scheduler ir ob se ji de) = ir"
  "kd_observeSignals (stored_task_scheduler ir ob se ji de) = ob"
  "kd_signalsSince (stored_task_scheduler ir ob se ji de) = (\<lambda>org i since db. (Inr (signals_since org i since db), db))"
  "kd_armInterval (stored_task_scheduler ir ob se ji de) = (\<lambda>org i arm db. (Inr (), arm_interval org i arm db))"
  "kd_claimRun (stored_task_scheduler ir ob se ji de) =
     (\<lambda>org i c t db. let (r, db') = claim_task_run org i c t db in (Inr r, db'))"
  "kd_send (stored_task_scheduler ir ob se ji de) = se"
  "kd_finishRun (stored_task_scheduler ir ob se ji de) =
     (\<lambda>org i outcome n e t db. (Inr (), finish_task_run org i outcome n e t db))"
  "kd_recordTaskOutcome (stored_task_scheduler ir ob se ji de) =
     (\<lambda>org i t e db. (Inr (), record_task_outcome org i t e db))"
  "kd_now (stored_task_scheduler ir ob se ji de) = read_now"
  "kd_jitter (stored_task_scheduler ir ob se ji de) = ji"
  "kd_describeFailure (stored_task_scheduler ir ob se ji de) = de"
  by (simp_all add: stored_task_scheduler_def)

subsection \<open>What a run ends as\<close>

text \<open>
  Carrying out a claimed run stores how it ended: sent with its steps, or failed with the steps sent
  before and the reason.
\<close>

lemma carry_out_stored:
  "carry_out (stored_task_scheduler ir ob se ji de) parts runId t (run, db) =
    (let org = it_organizationId (pt_task parts); i = it_id (pt_task parts) in
     case se parts db of
       (Inr n, db1) \<Rightarrow>
         (run\<lparr>kr_fired := kr_fired run @ [i]\<rparr>,
          record_task_outcome org i t None
            (finish_task_run org runId RunSent n None (fst (read_now db1)) (snd (read_now db1))))
     | (Inl f, db1) \<Rightarrow>
         (let reason = failure_reason (stored_task_scheduler ir ob se ji de) f in
          (add_task_failed i reason run,
           record_task_outcome org i t (Some reason)
             (finish_task_run org runId RunFailed (failure_steps f) (Some reason) (fst (read_now db1))
                (snd (read_now db1))))))"
  by (cases "se parts db"; cases "fst (se parts db)")
    (auto simp: carry_out_def carry_out_try_def Let_def swallow_def read_now_def)

definition running_runs :: "'m task_db_scheme \<Rightarrow> task_run_row set" where
  "running_runs db = {r \<in> set (instanceTaskRuns db). tr_outcome r = RunRunning}"

lemma running_runs_cong: "instanceTaskRuns db' = instanceTaskRuns db \<Longrightarrow> running_runs db' = running_runs db"
  by (simp add: running_runs_def)

lemma running_runs_other [simp]:
  "running_runs (record_task_outcome org i t e db) = running_runs db"
  "running_runs (arm_interval org i arm db) = running_runs db"
  "running_runs (snd (prune_signals before db)) = running_runs db"
  "running_runs (snd (read_now db)) = running_runs db"
  by (simp_all add: running_runs_def record_task_outcome_def arm_interval_def prune_signals_def read_now_def)

lemma running_runs_prune: "running_runs (snd (prune_runs before db)) = running_runs db"
  by (auto simp: running_runs_def prune_runs_def Let_def)

lemma running_runs_abandon: "running_runs (snd (abandon_stale_runs before reason db)) \<subseteq> running_runs db"
  by (auto simp: running_runs_def abandon_stale_runs_def Let_def set_update_rows split: if_splits)

lemma running_runs_finish:
  assumes "outcome \<noteq> RunRunning"
  shows "running_runs (finish_task_run org i outcome n e t db) =
    {r \<in> running_runs db. \<not> (tr_id r = i \<and> tr_organizationId r = org)}"
proof -
  define f where "f = (\<lambda>r :: task_run_row. r\<lparr>tr_outcome := outcome, tr_stepsSent := n, tr_error := e,
    tr_finishedAt := Some t\<rparr>)"
  have "tr_outcome (f r) \<noteq> RunRunning" for r using assms by (simp add: f_def)
  then show ?thesis
    by (auto simp: running_runs_def finish_task_run_def set_update_rows f_def [symmetric] split: if_splits)
qed

lemma running_runs_claim:
  "claim_task_run org task c t db = (Some i, db') \<Longrightarrow>
    running_runs db' \<subseteq> running_runs db \<union> {r. tr_id r = i \<and> tr_organizationId r = org}"
  by (auto simp: running_runs_def claim_task_run_def Let_def nanoid_def split: if_splits)

lemma running_runs_unclaimed:
  "claim_task_run org task c t db = (None, db') \<Longrightarrow> running_runs db' = running_runs db"
  by (auto simp: running_runs_def claim_task_run_def Let_def nanoid_def split: if_splits)

definition keeps_runs :: "('m task_db_scheme \<Rightarrow> 'a \<times> 'm task_db_scheme) \<Rightarrow> bool" where
  "keeps_runs f \<longleftrightarrow> (\<forall>db. instanceTaskRuns (snd (f db)) = instanceTaskRuns db)"

lemma keeps_runs_running: "keeps_runs f \<Longrightarrow> running_runs (snd (f db)) = running_runs db"
  unfolding keeps_runs_def by (rule running_runs_cong) (erule spec)

lemma carry_out_settles:
  assumes "keeps_runs (se parts)"
  shows "running_runs (snd (carry_out (stored_task_scheduler ir ob se ji de) parts runId t (run, db))) =
    {r \<in> running_runs db. \<not> (tr_id r = runId \<and> tr_organizationId r = it_organizationId (pt_task parts))}"
proof -
  obtain r db1 where r: "se parts db = (r, db1)" by fastforce
  have kept: "running_runs db1 = running_runs db"
    using keeps_runs_running [OF assms, of db] r by simp
  show ?thesis
    by (cases r)
      (simp_all add: carry_out_stored r Let_def running_runs_finish kept del: read_now_simps)
qed

lemma consider_claim_settles:
  assumes "keeps_runs (se parts)"
  shows "running_runs (snd (consider_claim (stored_task_scheduler ir ob se ji de) parts t c (run, db)))
    \<subseteq> running_runs db"
proof -
  let ?org = "it_organizationId (pt_task parts)" and ?i = "it_id (pt_task parts)"
  obtain r db' where claim: "claim_task_run ?org ?i c t db = (r, db')" by fastforce
  show ?thesis
  proof (cases r)
    case None
    then show ?thesis using claim running_runs_unclaimed [OF claim [unfolded None]]
      by (simp add: consider_claim_def Let_def)
  next
    case (Some runId)
    then show ?thesis
      using claim running_runs_claim [OF claim [unfolded Some]]
        carry_out_settles [where se = se and parts = parts and ir = ir and ob = ob and ji = ji and de = de
          and runId = runId and t = t and run = run and db = db'] assms
      by (auto simp: consider_claim_def Let_def)
  qed
qed

lemma fold_settles:
  assumes "\<And>x run db. x \<in> set xs \<Longrightarrow> running_runs (snd (f x (run, db))) \<subseteq> running_runs db"
  shows "running_runs (snd (fold f xs rw)) \<subseteq> running_runs (snd rw)"
  using assms
proof (induction xs arbitrary: rw)
  case Nil
  then show ?case by simp
next
  case (Cons x xs)
  have "running_runs (snd (fold f xs (f x rw))) \<subseteq> running_runs (snd (f x rw))"
    using Cons.prems by (intro Cons.IH) simp
  also have "\<dots> \<subseteq> running_runs (snd rw)" using Cons.prems [of x "fst rw" "snd rw"] by simp
  finally show ?case by simp
qed

lemma consider_task_settles:
  assumes "keeps_runs (se parts)" and "keeps_runs ji"
  shows "running_runs (snd (consider_task zp (stored_task_scheduler ir ob se ji de) t running signals parts (run, db)))
    \<subseteq> running_runs db"
proof (cases "time_claims zp (definition_of parts) t")
  case (Inl e)
  then show ?thesis by (simp add: consider_task_def Let_def swallow_def)
next
  case (Inr byTime)
  obtain jitter db1 where j: "ji db = (jitter, db1)" by fastforce
  then have run1: "running_runs db1 = running_runs db" using keeps_runs_running [OF assms(2), of db] by simp
  have step: "running_runs (snd (fold (consider_claim (stored_task_scheduler ir ob se ji de) parts t) cs rw))
      \<subseteq> running_runs (snd rw)" for cs rw
    by (rule fold_settles) (rule consider_claim_settles [where se = se, OF assms(1)])
  define plan where "plan = interval_plan_of (pt_task parts) t running jitter"
  define cs where "cs = (signal_claims (pt_task parts) signals @ byTime) @
    (case interval_claim_of plan of None \<Rightarrow> [] | Some c \<Rightarrow> [c])"
  define db2 where "db2 = (case interval_arm_of plan of None \<Rightarrow> db1
    | Some arm \<Rightarrow> arm_interval (it_organizationId (pt_task parts)) (it_id (pt_task parts)) arm db1)"
  have "snd (consider_task zp (stored_task_scheduler ir ob se ji de) t running signals parts (run, db)) =
      snd (if length cs = 0 \<or> \<not> running then (run, db2)
       else fold (consider_claim (stored_task_scheduler ir ob se ji de) parts t) cs (run, db2))"
    by (cases running; cases "interval_arm_of (interval_plan_of (pt_task parts) t running jitter)")
      (simp_all add: consider_task_def j Inr Let_def plan_def cs_def db2_def)
  moreover have "running_runs db2 = running_runs db"
    using run1 by (simp add: db2_def split: option.split)
  ultimately show ?thesis using step [of cs "(run, db2)"] by simp
qed

lemma consider_group_settles:
  assumes se: "\<And>p. keeps_runs (se p)" and ji: "keeps_runs ji" and ir: "\<And>o' i. keeps_runs (ir o' i)"
    and ob: "\<And>o' i n t. keeps_runs (ob o' i n t)"
  shows "running_runs (snd (consider_group zp (stored_task_scheduler ir ob se ji de) t keyed (run, db)))
    \<subseteq> running_runs db"
proof (cases "snd keyed")
  case Nil
  then show ?thesis by (simp add: consider_group_def)
next
  case (Cons first rest)
  let ?org = "it_organizationId (pt_task first)" and ?inst = "it_instanceId (pt_task first)"
  obtain r db1 where running: "ir ?org ?inst db = (r, db1)" by fastforce
  then have run1: "running_runs db1 = running_runs db"
    using keeps_runs_running [OF ir, of ?org ?inst db] by simp
  have obs: "running_runs (snd (ob ?org ?inst n t db1)) = running_runs db1" for n
    by (rule keeps_runs_running [OF ob])
  have tasks: "running_runs (snd (fold (consider_task zp (stored_task_scheduler ir ob se ji de) t running signals) ps rw))
      \<subseteq> running_runs (snd rw)" for running signals ps rw
    by (rule fold_settles) (rule consider_task_settles [where se = se, OF se ji])
  show ?thesis
  proof (cases r)
    case (Inl e)
    then show ?thesis using Cons running run1 by (simp add: consider_group_def Let_def)
  next
    case (Inr is_running)
    obtain ro db2 where o2: "ob ?org ?inst (needs_of (first # rest)) t db1 = (ro, db2)" by fastforce
    have run2: "running_runs db2 = running_runs db"
      using obs [of "needs_of (first # rest)"] run1 o2 by simp
    define rw where "rw = (if is_running \<and> (nd_join (needs_of (first # rest)) \<or> nd_respawn (needs_of (first # rest)))
      then (case ro of Inl e \<Rightarrow> (run, db2) | Inr _ \<Rightarrow> (run\<lparr>kr_observed := kr_observed run + 1\<rparr>, db2))
      else (run, db1))"
    have rw: "running_runs (snd rw) = running_runs db"
      using run1 run2 by (simp add: rw_def split: sum.split)
    define sigs where "sigs = (if nd_join (needs_of (first # rest)) \<or> nd_respawn (needs_of (first # rest))
      then signals_since ?org ?inst (t - task_signal_catch_up_ms) (snd rw) else [])"
    have "consider_group zp (stored_task_scheduler ir ob se ji de) t keyed (run, db) =
      fold (consider_task zp (stored_task_scheduler ir ob se ji de) t is_running sigs) (first # rest) rw"
      by (cases ro) (simp_all add: consider_group_def Let_def Cons running Inr o2 rw_def sigs_def del: fold_simps)
    then show ?thesis using tasks [of is_running sigs "first # rest" rw] rw by simp
  qed
qed

lemma task_tick_settles:
  assumes se: "\<And>p. keeps_runs (se p)" and ji: "keeps_runs ji" and ir: "\<And>o' i. keeps_runs (ir o' i)"
    and ob: "\<And>o' i n t. keeps_runs (ob o' i n t)"
  shows "running_runs (snd (run_task_scheduler_tick zp (stored_task_scheduler ir ob se ji de) db))
    \<subseteq> running_runs db"
proof -
  define db1 where "db1 = snd (read_now db)"
  define t where "t = fst (read_now db)"
  define db2 where "db2 = snd (prune_signals (t - task_signal_retention_days * day_ms)
    (snd (prune_runs (t - task_run_retention_days * day_ms)
      (snd (abandon_stale_runs (t - task_abandoned_after_ms) task_abandoned_reason db1)))))"
  have swept: "running_runs db2 \<subseteq> running_runs db"
    using running_runs_abandon [of "t - task_abandoned_after_ms" task_abandoned_reason db1]
    by (simp add: db2_def db1_def running_runs_prune del: read_now_simps)
  have groups: "running_runs (snd (fold (consider_group zp (stored_task_scheduler ir ob se ji de) t) gs rw))
      \<subseteq> running_runs (snd rw)" for gs rw
    by (rule fold_settles) (rule consider_group_settles [where se = se and ir = ir and ob = ob, OF se ji ir ob])
  define rw where "rw = fold (consider_group zp (stored_task_scheduler ir ob se ji de) t)
    (by_instance (list_enabled_tasks (t - task_run_retention_days * day_ms) db2))
    (\<lparr>kr_considered = length (list_enabled_tasks (t - task_run_retention_days * day_ms) db2), kr_fired = [],
      kr_failed = [], kr_unclaimed = 0, kr_observed = 0\<rparr>, db2)"
  have now: "read_now db = (t, db1)" by (simp add: t_def db1_def del: read_now_simps)
  have "run_task_scheduler_tick zp (stored_task_scheduler ir ob se ji de) db = (Inr (fst rw), snd rw)"
    by (simp add: run_task_scheduler_tick_def now Let_def swallow_def db2_def [symmetric] rw_def
        case_prod_beta del: read_now_simps)
      (simp add: stored_task_scheduler_def swallow_def db2_def)
  moreover have "running_runs (snd rw) \<subseteq> running_runs db2"
    unfolding rw_def using groups [of _ "(_, db2)"] by fastforce
  ultimately show ?thesis using swept by simp
qed

subsection \<open>A bot that is not running is sent nothing\<close>

lemma consider_task_idle:
  "consider_task zp (deps\<lparr>kd_send := s\<rparr>) t False signals parts rw = consider_task zp deps t False signals parts rw"
proof (cases rw)
  case (Pair run w)
  obtain jitter w1 where "kd_jitter deps w = (jitter, w1)" by fastforce
  then show ?thesis
    by (cases "time_claims zp (definition_of parts) t";
        cases "interval_arm_of (interval_plan_of (pt_task parts) t False jitter)")
      (simp_all add: Pair consider_task_def Let_def split: sum.split prod.split)
qed

lemma consider_task_idle_fired:
  "kr_fired (fst (consider_task zp deps t False signals parts rw)) = kr_fired (fst rw)"
  by (auto simp: consider_task_def Let_def add_task_failed_def split: prod.split sum.split)

lemma fold_cong_all: "(\<And>x y. f x y = g x y) \<Longrightarrow> fold f xs y = fold g xs y"
  by (induction xs arbitrary: y) auto

lemma fold_idle_fired:
  "kr_fired (fst (fold (consider_task zp deps t False signals) ps rw)) = kr_fired (fst rw)"
  by (induction ps arbitrary: rw) (simp_all add: consider_task_idle_fired)

lemma consider_group_idle:
  assumes "fst (kd_isRunning deps (it_organizationId (pt_task p)) (it_instanceId (pt_task p)) w) \<noteq> Inr True"
  shows "consider_group zp (deps\<lparr>kd_send := s\<rparr>) t (k, p # ps) (run, w) = consider_group zp deps t (k, p # ps) (run, w) \<and>
    kr_fired (fst (consider_group zp deps t (k, p # ps) (run, w))) = kr_fired run"
proof (cases "kd_isRunning deps (it_organizationId (pt_task p)) (it_instanceId (pt_task p)) w")
  case (Pair r w1)
  show ?thesis
  proof (cases r)
    case (Inl e)
    then show ?thesis using Pair by (simp add: consider_group_def Let_def)
  next
    case (Inr running)
    then have "\<not> running" using assms Pair by simp
    moreover have "fold (consider_task zp (deps\<lparr>kd_send := s\<rparr>) t False signals) qs rw =
        fold (consider_task zp deps t False signals) qs rw" for signals qs rw
      by (rule fold_cong_all) (rule consider_task_idle)
    ultimately show ?thesis
      using Pair Inr
      by (simp add: consider_group_def Let_def fold_idle_fired consider_task_idle consider_task_idle_fired
          case_prod_beta)
  qed
qed

subsection \<open>One failing bot or task stops no other\<close>

lemma task_tick_returns:
  "\<exists>run. fst (run_task_scheduler_tick zp (stored_task_scheduler ir ob se ji de) db) = Inr run"
proof -
  obtain t w1 where now: "read_now db = (t, w1)" by fastforce
  show ?thesis unfolding run_task_scheduler_tick_def Let_def stored_task_scheduler_fields now prod.case sum.case
    by (simp only: case_prod_beta fst_conv sum.inject) simp
qed

subsection \<open>Groups\<close>

text \<open>Grouping keeps every task, and each group is one bot's key.\<close>

lemma add_to_group_concat:
  "mset (concat (map snd (add_to_group k v groups))) = add_mset v (mset (concat (map snd groups)))"
  by (induction groups) auto

definition one_bot :: "string \<times> task_parts list \<Rightarrow> bool" where
  "one_bot g \<longleftrightarrow> snd g \<noteq> [] \<and> list_all (\<lambda>p. task_group_key p = fst g) (snd g)"

lemma add_to_group_keys:
  "list_all one_bot groups \<Longrightarrow> list_all one_bot (add_to_group (task_group_key p) p groups)"
  by (induction groups) (auto simp: one_bot_def)

lemma by_instance_mset: "mset (concat (map snd (by_instance tasks))) = mset tasks"
proof -
  have "mset (concat (map snd (foldl (\<lambda>groups p. add_to_group (task_group_key p) p groups) gs tasks))) =
      mset (concat (map snd gs)) + mset tasks" for gs
    by (induction tasks arbitrary: gs) (simp_all add: add_to_group_concat)
  then show ?thesis by (simp add: by_instance_def)
qed

lemma by_instance_groups: "list_all one_bot (by_instance tasks)"
proof -
  have "list_all one_bot gs \<Longrightarrow>
      list_all one_bot (foldl (\<lambda>groups p. add_to_group (task_group_key p) p groups) gs tasks)" for gs
    by (induction tasks arbitrary: gs) (simp_all add: add_to_group_keys)
  from this [of "[]"] show ?thesis by (simp add: by_instance_def)
qed

end
