(* ===== verification/TaskSignals.thy ===== *)
theory TaskSignals
  imports TaskStore Observer
begin

text \<open>
  \<open>packages/core/src/instance/task-signals.ts\<close>, with \<open>recordJoinSightings\<close> of \<open>instance.controller.ts\<close>:
  the logins a bot's journal shows and the respawns its event feed shows, as the signals that trigger
  tasks.

  Reading the event feed is a call over the live channel and stays outside; \<open>respawns_from\<close> is what the
  code makes of the page it answers.
\<close>

section \<open>Joins\<close>

definition join_drain_rounds :: nat where "join_drain_rounds = 4"

record join_sighting =
  js_process :: string
  js_occurredAt :: time

record join_reading =
  jr_joins :: "join_sighting list"
  jr_cursor :: "string option"
  jr_seeded :: bool
  jr_refused :: bool
  jr_full :: bool

text \<open>\<open>signals.filter((signal) => signal.kind === "joined").map(..)\<close>\<close>

fun sighting_of :: "connection_signal \<Rightarrow> join_sighting list" where
  "sighting_of (SigJoined t pid) = [\<lparr>js_process = pid, js_occurredAt = t\<rparr>]"
| "sighting_of (SigDisconnected t pid reason) = []"
| "sighting_of (SigStopped t pid) = []"

definition join_reading_of ::
    "(string \<Rightarrow> time option) \<Rightarrow> string option \<Rightarrow> exec_result \<Rightarrow> join_reading" where
  "join_reading_of read_date cursor result =
     (let resume = journal_resume cursor in
      if er_exitCode result \<noteq> 0 then
        \<lparr>jr_joins = [], jr_cursor = cursor, jr_seeded = False,
         jr_refused = (resume \<noteq> None \<and> journal_refused_cursor (er_stderr result)), jr_full = False\<rparr>
      else
        (let batch = journal_batch_of (er_stdout result);
             nxt = (case jb_cursor batch of None \<Rightarrow> cursor | Some c \<Rightarrow> Some c)
         in if resume = None then
              \<lparr>jr_joins = [], jr_cursor = nxt, jr_seeded = True, jr_refused = False, jr_full = False\<rparr>
            else
              \<lparr>jr_joins = concat (map sighting_of
                 (connection_signals (parse_journal read_date (join_with [lf] (jb_lines batch))))),
               jr_cursor = nxt, jr_seeded = False, jr_refused = False,
               jr_full = (journal_max_lines < length (jb_lines batch))\<rparr>))"

definition read_join_sightings ::
    "(string \<Rightarrow> time option) \<Rightarrow> (string \<Rightarrow> ('w, exec_result) io) \<Rightarrow> string \<Rightarrow> string option
      \<Rightarrow> ('w, join_reading) io" where
  "read_join_sightings read_date exec instanceId cursor w =
     (case journal_command instanceId cursor of
        Inl e \<Rightarrow> (Inl e, w)
      | Inr command \<Rightarrow>
          (case exec command w of
             (Inl e, w') \<Rightarrow> (Inl e, w')
           | (Inr result, w') \<Rightarrow> (Inr (join_reading_of read_date cursor result), w')))"

record 'w join_drain =
  jn_read :: "string option \<Rightarrow> ('w, join_reading) io"
  jn_record :: "join_sighting list \<Rightarrow> ('w, unit) io"
  jn_saveCursor :: "string \<Rightarrow> ('w, unit) io"

fun join_rounds :: "nat \<Rightarrow> 'w join_drain \<Rightarrow> string option \<Rightarrow> ('w, unit) io" where
  "join_rounds 0 drain cursor w = (Inr (), w)"
| "join_rounds (Suc n) drain cursor w =
     (case jn_read drain cursor w of
        (Inl e, w1) \<Rightarrow> (Inl e, w1)
      | (Inr reading, w1) \<Rightarrow>
          (case jn_record drain (jr_joins reading) w1 of
             (Inl e, w2) \<Rightarrow> (Inl e, w2)
           | (Inr _, w2) \<Rightarrow>
               if jr_refused reading \<and> cursor \<noteq> None then join_rounds n drain None w2
               else
                 (case jr_cursor reading of
                    None \<Rightarrow> (Inr (), w2)
                  | Some nxt \<Rightarrow>
                      (case (if Some nxt \<noteq> cursor then jn_saveCursor drain nxt w2 else (Inr (), w2)) of
                         (Inl e, w3) \<Rightarrow> (Inl e, w3)
                       | (Inr _, w3) \<Rightarrow>
                           if \<not> jr_full reading then (Inr (), w3) else join_rounds n drain (Some nxt) w3))))"

definition drain_join_sightings :: "'w join_drain \<Rightarrow> string option \<Rightarrow> ('w, unit) io" where
  "drain_join_sightings drain cursor = join_rounds join_drain_rounds drain cursor"

section \<open>Recording them\<close>

definition join_values :: "ident \<Rightarrow> join_sighting \<Rightarrow> bool \<Rightarrow> time \<Rightarrow> signal_values" where
  "join_values inst join seen t =
     \<lparr>sv_instanceId = inst, sv_kind = SignalLogin,
      sv_identity = js_process join @ '':'' @ iso_string (js_occurredAt join),
      sv_process = Some (js_process join), sv_firstForProcess = (\<not> seen),
      sv_occurredAt = js_occurredAt join, sv_observedAt = t\<rparr>"

fun record_join_sightings ::
    "ident \<Rightarrow> ident \<Rightarrow> join_sighting list \<Rightarrow> time \<Rightarrow> 'm task_db_scheme \<Rightarrow> 'm task_db_scheme" where
  "record_join_sightings org inst [] t db = db"
| "record_join_sightings org inst (join # joins) t db =
     (let seen = has_joined_as org inst (js_process join) db;
          (_, db') = record_signal org (join_values inst join seen t) db
      in record_join_sightings org inst joins t db')"

section \<open>Respawns\<close>

record mcp_event =
  me_id :: int
  me_timestampUtc :: string
  me_type :: string

record mcp_event_page =
  mp_latestId :: int
  mp_events :: "mcp_event list"

record respawn_sighting =
  rs_eventId :: int
  rs_occurredAt :: time

record respawn_reading =
  rr_respawns :: "respawn_sighting list"
  rr_cursor :: int
  rr_seeded :: bool

definition respawn_event_type :: string where "respawn_event_type = ''respawn''"

definition moment_of :: "(string \<Rightarrow> time option) \<Rightarrow> string \<Rightarrow> time \<Rightarrow> time" where
  "moment_of read_date stamp fallback = (case read_date stamp of None \<Rightarrow> fallback | Some t \<Rightarrow> t)"

definition respawns_from ::
    "(string \<Rightarrow> time option) \<Rightarrow> mcp_event_page \<Rightarrow> int option \<Rightarrow> time \<Rightarrow> respawn_reading" where
  "respawns_from read_date page cursor t =
     (let afterId = (case cursor of None \<Rightarrow> 0 | Some c \<Rightarrow> c);
          highest = foldl (\<lambda>seen event. max seen (me_id event)) (mp_latestId page) (mp_events page);
          nxt = max afterId highest
      in case cursor of
           None \<Rightarrow> \<lparr>rr_respawns = [], rr_cursor = nxt, rr_seeded = True\<rparr>
         | Some _ \<Rightarrow>
             \<lparr>rr_respawns = map (\<lambda>event. \<lparr>rs_eventId = me_id event,
                  rs_occurredAt = moment_of read_date (me_timestampUtc event) t\<rparr>)
                (filter (\<lambda>event. me_type event = respawn_event_type \<and> afterId < me_id event) (mp_events page)),
              rr_cursor = nxt, rr_seeded = False\<rparr>)"

section \<open>Lemmas\<close>

subsection \<open>A process has one first login\<close>

definition login_of :: "ident \<Rightarrow> ident \<Rightarrow> string \<Rightarrow> signal_row \<Rightarrow> bool" where
  "login_of org inst process r \<longleftrightarrow>
     sg_organizationId r = org \<and> sg_instanceId r = inst \<and> sg_kind r = SignalLogin \<and> sg_process r = Some process"

definition first_logins :: "ident \<Rightarrow> ident \<Rightarrow> string \<Rightarrow> 'm task_db_scheme \<Rightarrow> nat" where
  "first_logins org inst process db =
     length (filter (\<lambda>r. login_of org inst process r \<and> sg_firstForProcess r) (instanceSignals db))"

definition one_first_login :: "'m task_db_scheme \<Rightarrow> bool" where
  "one_first_login db \<longleftrightarrow> (\<forall>org inst process.
     first_logins org inst process db = (if has_joined_as org inst process db then 1 else 0))"

lemma record_signal_appends:
  "instanceSignals (snd (record_signal org v db)) = instanceSignals db \<or>
   (\<exists>i. instanceSignals (snd (record_signal org v db)) = instanceSignals db @
     [\<lparr>sg_id = i, sg_organizationId = org, sg_instanceId = sv_instanceId v, sg_kind = sv_kind v,
       sg_identity = sv_identity v, sg_process = sv_process v, sg_firstForProcess = sv_firstForProcess v,
       sg_occurredAt = sv_occurredAt v, sg_observedAt = sv_observedAt v\<rparr>])"
  by (auto simp: record_signal_def Let_def nanoid_def)

lemma has_joined_as_login: "has_joined_as org inst p db \<longleftrightarrow> list_ex (login_of org inst p) (instanceSignals db)"
  unfolding has_joined_as_def by (simp add: list_ex_iff login_of_def)

lemma one_first_login_record:
  assumes "one_first_login db"
  shows "one_first_login (snd (record_signal org
    (join_values inst join (has_joined_as org inst (js_process join) db) t) db))"
    (is "one_first_login (snd (record_signal org ?v db))")
proof -
  let ?db = "snd (record_signal org ?v db)"
  from record_signal_appends [of org ?v db] show ?thesis
  proof
    assume "instanceSignals ?db = instanceSignals db"
    then show ?thesis
      using assms by (simp add: one_first_login_def first_logins_def has_joined_as_def)
  next
    assume "\<exists>i. instanceSignals ?db = instanceSignals db @
     [\<lparr>sg_id = i, sg_organizationId = org, sg_instanceId = sv_instanceId ?v, sg_kind = sv_kind ?v,
       sg_identity = sv_identity ?v, sg_process = sv_process ?v, sg_firstForProcess = sv_firstForProcess ?v,
       sg_occurredAt = sv_occurredAt ?v, sg_observedAt = sv_observedAt ?v\<rparr>]"
    then obtain i row where rows: "instanceSignals ?db = instanceSignals db @ [row]"
      and row: "row = \<lparr>sg_id = i, sg_organizationId = org, sg_instanceId = sv_instanceId ?v,
       sg_kind = sv_kind ?v, sg_identity = sv_identity ?v, sg_process = sv_process ?v,
       sg_firstForProcess = sv_firstForProcess ?v, sg_occurredAt = sv_occurredAt ?v,
       sg_observedAt = sv_observedAt ?v\<rparr>" by metis
    have login: "login_of o' i' p' row \<longleftrightarrow> o' = org \<and> i' = inst \<and> p' = js_process join" for o' i' p'
      by (auto simp: row login_of_def join_values_def)
    have first: "sg_firstForProcess row \<longleftrightarrow> \<not> has_joined_as org inst (js_process join) db"
      by (simp add: row join_values_def)
    show ?thesis
      unfolding one_first_login_def
    proof (intro allI)
      fix o' i' p'
      have old: "first_logins o' i' p' db = (if has_joined_as o' i' p' db then 1 else 0)"
        using assms by (simp add: one_first_login_def)
      have "first_logins o' i' p' ?db = first_logins o' i' p' db +
          (if login_of o' i' p' row \<and> sg_firstForProcess row then 1 else 0)"
        by (simp add: first_logins_def rows)
      moreover have "has_joined_as o' i' p' ?db \<longleftrightarrow> has_joined_as o' i' p' db \<or> login_of o' i' p' row"
        using has_joined_as_login [of o' i' p' ?db] has_joined_as_login [of o' i' p' db]
        unfolding rows list_ex_append by auto
      ultimately show "first_logins o' i' p' ?db = (if has_joined_as o' i' p' ?db then 1 else 0)"
        using old login first by auto
    qed
  qed
qed

lemma one_first_login_sightings:
  "one_first_login db \<Longrightarrow> one_first_login (record_join_sightings org inst joins t db)"
proof (induction joins arbitrary: db)
  case Nil
  then show ?case by simp
next
  case (Cons join joins)
  show ?case
    using Cons.IH [OF one_first_login_record [OF Cons.prems]]
    by (simp add: Let_def case_prod_beta)
qed

text \<open>Every sighting ends up recorded, and recording them again changes no signal.\<close>

lemma record_signal_key: "signal_values_key org v \<in> signal_keys (snd (record_signal org v db))"
  using signal_log.ins_keys [of "(org, v)" db] by (simp add: note_signal_def Let_def case_prod_beta split: if_splits)

subsection \<open>Respawns are seen once\<close>

lemma foldl_max_ge: "m \<le> foldl (\<lambda>seen e. max seen (f e)) m xs" for m :: int
proof (induction xs arbitrary: m)
  case Nil
  then show ?case by simp
next
  case (Cons x xs)
  have "max m (f x) \<le> foldl (\<lambda>seen e. max seen (f e)) (max m (f x)) xs" by (rule Cons.IH)
  then show ?case by simp
qed

lemma foldl_max_mem: "x \<in> set xs \<Longrightarrow> f x \<le> foldl (\<lambda>seen e. max seen (f e)) m xs" for m :: int
proof (induction xs arbitrary: m)
  case Nil
  then show ?case by simp
next
  case (Cons y ys)
  show ?case
  proof (cases "x = y")
    case True
    then show ?thesis using foldl_max_ge [of "max m (f y)" f ys] by simp
  next
    case False
    then show ?thesis using Cons by simp
  qed
qed

lemma respawns_cursor:
  "(\<forall>c. cursor = Some c \<longrightarrow> c \<le> rr_cursor (respawns_from rd page cursor t)) \<and>
   (\<forall>e \<in> set (mp_events page). me_id e \<le> rr_cursor (respawns_from rd page cursor t))"
proof -
  define highest where "highest = foldl (\<lambda>seen event. max seen (me_id event)) (mp_latestId page) (mp_events page)"
  have mem: "\<forall>e \<in> set (mp_events page). me_id e \<le> highest"
    unfolding highest_def by (intro ballI foldl_max_mem)
  have "rr_cursor (respawns_from rd page cursor t) = max (case cursor of None \<Rightarrow> 0 | Some c \<Rightarrow> c) highest"
    by (simp add: respawns_from_def Let_def highest_def split: option.split)
  then show ?thesis using mem by (auto simp: le_max_iff_disj)
qed

text \<open>Readings one after another, each from the cursor the one before left.\<close>

fun respawn_run ::
    "(string \<Rightarrow> time option) \<Rightarrow> time \<Rightarrow> int option \<Rightarrow> mcp_event_page list \<Rightarrow> int list" where
  "respawn_run rd t cursor [] = []"
| "respawn_run rd t cursor (page # pages) =
     (let reading = respawns_from rd page cursor t in
      map rs_eventId (rr_respawns reading) @ respawn_run rd t (Some (rr_cursor reading)) pages)"

lemma respawn_run_above: "c < x" if "x \<in> set (respawn_run rd t (Some c) pages)"
  using that
proof (induction pages arbitrary: c)
  case Nil
  then show ?case by simp
next
  case (Cons page pages)
  have mono: "c \<le> rr_cursor (respawns_from rd page (Some c) t)"
    using respawns_cursor [of "Some c" rd page t] by simp
  from Cons.prems consider
    "x \<in> set (map rs_eventId (rr_respawns (respawns_from rd page (Some c) t)))"
    | "x \<in> set (respawn_run rd t (Some (rr_cursor (respawns_from rd page (Some c) t))) pages)"
    by (auto simp: Let_def)
  then show ?case
  proof cases
    case 1
    then show ?thesis by (auto simp: respawns_from_def Let_def)
  next
    case 2
    from Cons.IH [OF this] show ?thesis using mono by simp
  qed
qed

lemma respawn_run_distinct:
  assumes "\<forall>page \<in> set pages. distinct (map me_id (mp_events page))"
  shows "distinct (respawn_run rd t cursor pages)"
  using assms
proof (induction pages arbitrary: cursor)
  case Nil
  then show ?case by simp
next
  case (Cons page pages)
  let ?r = "respawns_from rd page cursor t"
  have ids: "map rs_eventId (rr_respawns ?r) = [] \<or>
      map rs_eventId (rr_respawns ?r) = map me_id (filter (\<lambda>e. me_type e = respawn_event_type \<and>
        the cursor < me_id e) (mp_events page))"
    by (auto simp: respawns_from_def Let_def split: option.split)
  have d: "distinct (map me_id (filter P (mp_events page)))" for P
    using Cons.prems by (simp add: distinct_map_filter)
  have "distinct (map rs_eventId (rr_respawns ?r))" using ids d by auto
  moreover have "x \<le> rr_cursor ?r" if "x \<in> set (map rs_eventId (rr_respawns ?r))" for x
  proof -
    have "x \<in> set (map me_id (filter (\<lambda>e. me_type e = respawn_event_type \<and> the cursor < me_id e) (mp_events page)))"
      using that ids by (metis empty_iff list.set(1))
    then obtain e where "e \<in> set (mp_events page)" "x = me_id e" by auto
    then show ?thesis using respawns_cursor [of cursor rd page t] by simp
  qed
  moreover have "rr_cursor ?r < x" if "x \<in> set (respawn_run rd t (Some (rr_cursor ?r)) pages)" for x
    by (rule respawn_run_above [OF that])
  moreover have "distinct (respawn_run rd t (Some (rr_cursor ?r)) pages)"
    using Cons by simp
  ultimately show ?case by (force simp: Let_def)
qed

end
