(* ===== verification/Encoding.thy ===== *)
theory Encoding
  imports Outcome
begin

text \<open>
  The two encodings the mail code writes with: UTF-8, \<open>Buffer.from(value, "utf8")\<close>, and base64,
  \<open>toString("base64")\<close>. Bytes are numbers below 256. The decoder is the reference the encoder is
  proved against.
\<close>

section \<open>UTF-8\<close>

definition utf8_point :: "nat \<Rightarrow> nat list" where
  "utf8_point p =
     (if p < 128 then [p]
      else if p < 2048 then [192 + p div 64, 128 + p mod 64]
      else if p < 65536 then [224 + p div 4096, 128 + p div 64 mod 64, 128 + p mod 64]
      else [240 + p div 262144, 128 + p div 4096 mod 64, 128 + p div 64 mod 64, 128 + p mod 64])"

definition utf8_bytes :: "nat list \<Rightarrow> nat list" where
  "utf8_bytes ps = concat (map utf8_point ps)"

definition points_of :: "string \<Rightarrow> nat list" where
  "points_of s = map of_char s"

definition is_point :: "nat \<Rightarrow> bool" where "is_point p \<longleftrightarrow> p < 1114112"

section \<open>Base64\<close>

definition base64_char :: "nat \<Rightarrow> char" where
  "base64_char n =
     char_of (if n < 26 then 65 + n else if n < 52 then 71 + n else if n < 62 then n - 4
              else if n = 62 then 43 else 47)"

fun base64 :: "nat list \<Rightarrow> string" where
  "base64 [] = []"
| "base64 [a] = [base64_char (a div 4), base64_char (a mod 4 * 16), CHR ''='', CHR ''='']"
| "base64 [a, b] =
     [base64_char (a div 4), base64_char (a mod 4 * 16 + b div 16), base64_char (b mod 16 * 4), CHR ''='']"
| "base64 (a # b # c # rest) =
     [base64_char (a div 4), base64_char (a mod 4 * 16 + b div 16),
      base64_char (b mod 16 * 4 + c div 64), base64_char (c mod 64)] @ base64 rest"

section \<open>Reading back\<close>

definition base64_value :: "char \<Rightarrow> nat option" where
  "base64_value c =
     (let n = (of_char c :: nat) in
      if 65 \<le> n \<and> n \<le> 90 then Some (n - 65)
      else if 97 \<le> n \<and> n \<le> 122 then Some (n - 71)
      else if 48 \<le> n \<and> n \<le> 57 then Some (n + 4)
      else if n = 43 then Some 62
      else if n = 47 then Some 63 else None)"

fun sextets_bytes :: "nat list \<Rightarrow> nat list" where
  "sextets_bytes (a # b # c # d # rest) =
     [a * 4 + b div 16, b mod 16 * 16 + c div 4, c mod 4 * 64 + d] @ sextets_bytes rest"
| "sextets_bytes [a, b, c] = [a * 4 + b div 16, b mod 16 * 16 + c div 4]"
| "sextets_bytes [a, b] = [a * 4 + b div 16]"
| "sextets_bytes _ = []"

text \<open>Everything that is not of the alphabet is passed over, as a mail reader does.\<close>

definition base64_read :: "string \<Rightarrow> nat list" where
  "base64_read s = sextets_bytes (List.map_filter base64_value s)"

section \<open>Lemmas\<close>

lemma base64_value_char: "n < 64 \<Longrightarrow> base64_value (base64_char n) = Some n"
  by (auto simp: base64_value_def base64_char_def Let_def)

lemma base64_value_pad [simp]: "base64_value (CHR ''='') = None"
  by (simp add: base64_value_def)

text \<open>The characters base64 is written in.\<close>

definition base64_text :: "char \<Rightarrow> bool" where
  "base64_text c \<longleftrightarrow> is_alnum c \<or> c \<in> set ''+/=''"

lemma base64_text_char: "n < 64 \<Longrightarrow> base64_text (base64_char n)"
proof -
  assume n: "n < 64"
  have plus: "char_of (43::nat) = CHR ''+''" "char_of (47::nat) = CHR ''/''" by (simp_all add: char_of_eq_iff)
  consider "n < 26" | "26 \<le> n" "n < 52" | "52 \<le> n" "n < 62" | "n = 62" | "n = 63" using n by linarith
  then show ?thesis
    by cases (auto simp: base64_text_def base64_char_def is_alnum_def is_alpha_def is_digit_def plus)
qed

lemma base64_text_pad [simp]: "base64_text (CHR ''='')"
  by (simp add: base64_text_def)

lemma packed_div: "k < n \<Longrightarrow> (m * n + k) div n = m" for k :: nat
  by simp

lemma packed_mod: "k < n \<Longrightarrow> (m * n + k) mod n = k" for k :: nat
  by simp

lemma below_div: "a < 256 \<Longrightarrow> a div 4 < 64" "a < 256 \<Longrightarrow> a div 16 < 16" "a < 256 \<Longrightarrow> a div 64 < 4" for a :: nat
  by auto

lemma below_pack:
  "b < 256 \<Longrightarrow> a mod 4 * 16 + b div 16 < 64" "c < 256 \<Longrightarrow> b mod 16 * 4 + c div 64 < 64"
  "a mod 4 * 16 < 64" "b mod 16 * 4 < 64" for a b c :: nat
proof -
  have "a mod 4 \<le> 3" "b mod 16 \<le> 15" by (simp_all flip: less_Suc_eq_le)
  then show "b < 256 \<Longrightarrow> a mod 4 * 16 + b div 16 < 64" "c < 256 \<Longrightarrow> b mod 16 * 4 + c div 64 < 64"
    "a mod 4 * 16 < 64" "b mod 16 * 4 < 64" by linarith+
qed

lemmas below = below_div below_pack

lemma map_filter_value:
  "List.map_filter base64_value (c # s) =
     (case base64_value c of None \<Rightarrow> List.map_filter base64_value s | Some v \<Rightarrow> v # List.map_filter base64_value s)"
  by (simp add: map_filter_simps)

text \<open>Reading base64 gives the bytes back.\<close>

lemma base64_read_base64: "list_all (\<lambda>b. b < 256) bs \<Longrightarrow> base64_read (base64 bs) = bs"
proof (induction bs rule: base64.induct)
  case 1
  then show ?case by (simp add: base64_read_def map_filter_simps)
next
  case (2 a)
  then show ?case by (simp add: base64_read_def map_filter_value base64_value_char below)
next
  case (3 a b)
  then show ?case
    by (simp add: base64_read_def map_filter_value base64_value_char below packed_div packed_mod)
next
  case (4 a b c rest)
  moreover have "base64_read (base64 rest) = rest" using 4 by simp
  ultimately show ?case
    by (simp add: base64_read_def map_filter_value base64_value_char below packed_div packed_mod)
qed

lemma base64_is_text: "list_all (\<lambda>b. b < 256) bs \<Longrightarrow> list_all base64_text (base64 bs)"
  by (induction bs rule: base64.induct) (simp_all add: base64_text_char below)

lemma base64_text_neq:
  "base64_text c \<Longrightarrow> c \<noteq> cr \<and> c \<noteq> lf \<and> c \<noteq> CHR ''.''"
  by (auto simp: base64_text_def cr_def lf_def is_alnum_def is_alpha_def is_digit_def)

lemma utf8_bytes_range: "list_all is_point ps \<Longrightarrow> list_all (\<lambda>b. b < 256) (utf8_bytes ps)"
  by (induction ps) (auto simp: utf8_bytes_def utf8_point_def is_point_def)

lemma length_utf8_bytes: "length (utf8_bytes ps) = text_bytes ps"
  by (induction ps) (auto simp: utf8_bytes_def utf8_point_def utf8_length_def)

lemma points_of_is_point: "list_all is_point (points_of s)"
proof -
  have "(of_char c :: nat) < 1114112" for c :: char
    using nat_of_char_less_256 [of c] by linarith
  then show ?thesis by (simp add: points_of_def is_point_def list_all_iff)
qed

end
