(* ===== verification/MailText.thy ===== *)
theory MailText
  imports Encoding
begin

text \<open>
  The texts mail is sent with: the replies of a server (\<open>packages/core/src/notification/smtp.reply.ts\<close>)
  and the message (\<open>smtp.message.ts\<close>).
\<close>

section \<open>Replies\<close>

record smtp_reply =
  sr_code :: nat
  sr_lines :: "string list"

text \<open>What is before the next CRLF, and what is after it.\<close>

fun until_crlf :: "string \<Rightarrow> (string \<times> string) option" where
  "until_crlf (c # d # s) =
     (if c = cr \<and> d = lf then Some ([], s)
      else (case until_crlf (d # s) of None \<Rightarrow> None | Some (raw, rest) \<Rightarrow> Some (c # raw, rest)))"
| "until_crlf _ = None"

lemma until_crlf_shorter: "until_crlf s = Some (raw, rest) \<Longrightarrow> length rest < length s"
  by (induction s arbitrary: raw rule: until_crlf.induct) (auto split: if_splits option.splits)

definition match_reply_line :: "string \<Rightarrow> (nat \<times> char \<times> string) option" where
  "match_reply_line raw =
     (let digits = take 3 raw; after = drop 3 raw in
      if length digits = 3 \<and> list_all is_digit digits then
        (case after of
           [] \<Rightarrow> None
         | separator # rest \<Rightarrow>
             if (separator = CHR '' '' \<or> separator = CHR ''-'') \<and> list_all (\<lambda>c. c \<noteq> cr \<and> c \<noteq> lf) rest
             then Some (number_of digits, separator, rest) else None)
      else None)"

function read_reply_from :: "string list \<Rightarrow> string \<Rightarrow> (smtp_reply \<times> string) option" where
  "read_reply_from lines buffer =
     (case until_crlf buffer of
        None \<Rightarrow> None
      | Some (raw, rest) \<Rightarrow>
          (case match_reply_line raw of
             None \<Rightarrow> None
           | Some (code, separator, said) \<Rightarrow>
               if separator = CHR '' '' then Some (\<lparr>sr_code = code, sr_lines = lines @ [said]\<rparr>, rest)
               else read_reply_from (lines @ [said]) rest))"
  by pat_completeness auto
termination
  by (relation "measure (\<lambda>(lines, buffer). length buffer)") (auto dest: until_crlf_shorter)

declare read_reply_from.simps [simp del]

definition read_reply :: "string \<Rightarrow> (smtp_reply \<times> string) option" where
  "read_reply buffer = read_reply_from [] buffer"

text \<open>\<open>toUpperCase\<close> and \<open>split(/\s+/)\<close> on the code units below 256.\<close>

definition upper_char :: "char \<Rightarrow> string" where
  "upper_char c =
     (let n = (of_char c :: nat) in
      if (97 \<le> n \<and> n \<le> 122) \<or> (224 \<le> n \<and> n \<le> 254 \<and> n \<noteq> 247) then [char_of (n - 32)]
      else if n = 223 then ''SS'' else [c])"

definition upper :: "string \<Rightarrow> string" where
  "upper s = concat (map upper_char s)"

fun split_spaces :: "string \<Rightarrow> string list" where
  "split_spaces [] = [[]]"
| "split_spaces (c # s) =
     (if is_space c then (case s of
          d # _ \<Rightarrow> if is_space d then split_spaces s else [] # split_spaces s
        | [] \<Rightarrow> [] # split_spaces s)
      else (case split_spaces s of [] \<Rightarrow> [[c]] | w # ws \<Rightarrow> (c # w) # ws))"

definition advertises :: "smtp_reply \<Rightarrow> string \<Rightarrow> bool" where
  "advertises reply keyword =
     list_ex (\<lambda>line. upper (hd (split_spaces (trim line))) = upper keyword) (sr_lines reply)"

definition auth_mechanisms :: "smtp_reply \<Rightarrow> string list" where
  "auth_mechanisms reply =
     concat (map (\<lambda>line. let parts = split_spaces (trim line) in
                         if upper (hd parts) = ''AUTH'' then map upper (tl parts) else [])
       (sr_lines reply))"

definition is_positive :: "smtp_reply \<Rightarrow> bool" where
  "is_positive reply \<longleftrightarrow> 200 \<le> sr_code reply \<and> sr_code reply < 400"

definition is_transient :: "nat \<Rightarrow> bool" where
  "is_transient code \<longleftrightarrow> 400 \<le> code \<and> code < 500"

section \<open>Messages\<close>

text \<open>
  The subject and the text are code points, since both are truncated by points and end in an
  ellipsis. \<open>utc\<close> is \<open>at.toUTCString()\<close>.
\<close>

record smtp_message =
  sm_id :: string
  sm_from :: string
  sm_to :: "string list"
  sm_subject :: "nat list"
  sm_text :: "nat list"
  sm_utc :: string

definition encoded_word :: "nat list \<Rightarrow> string" where
  "encoded_word v =
     (if list_all (\<lambda>p. 32 \<le> p \<and> p \<le> 126) v then map char_of v
      else ''=?UTF-8?B?'' @ base64 (utf8_bytes v) @ ''?='')"

function wrap_lines :: "string \<Rightarrow> string" where
  "wrap_lines s = (if length s < 76 then s else take 76 s @ [cr, lf] @ wrap_lines (drop 76 s))"
  by pat_completeness auto
termination by (relation "measure length") auto

declare wrap_lines.simps [simp del]

definition wrapped_base64 :: "nat list \<Rightarrow> string" where
  "wrapped_base64 v = wrap_lines (base64 (utf8_bytes v))"

definition domain_of :: "string \<Rightarrow> string" where
  "domain_of address =
     (case index_of (CHR ''@'') (rev address) of
        None \<Rightarrow> ''openmcc.invalid''
      | Some back \<Rightarrow> drop (length address - back) address)"

definition header_lines :: "smtp_message \<Rightarrow> string list" where
  "header_lines m =
     [''From: '' @ sm_from m,
      ''To: '' @ join_with '', '' (sm_to m),
      ''Subject: '' @ encoded_word (sm_subject m),
      ''Date: '' @ sm_utc m,
      ''Message-ID: <'' @ sm_id m @ ''@'' @ domain_of (sm_from m) @ ''>'',
      ''MIME-Version: 1.0'',
      ''Content-Type: text/plain; charset=\"utf-8\"'',
      ''Content-Transfer-Encoding: base64'']"

definition message_bytes :: "smtp_message \<Rightarrow> string" where
  "message_bytes m = join_with [cr, lf] (header_lines m @ [[], wrapped_base64 (sm_text m)])"

definition crlf :: string where "crlf = [cr, lf]"

section \<open>Lemmas on replies\<close>

lemma until_crlf_line: "lf \<notin> set raw \<Longrightarrow> until_crlf (raw @ cr # lf # rest) = Some (raw, rest)"
proof (induction raw)
  case Nil
  then show ?case by simp
next
  case (Cons c raw)
  obtain d s where d: "raw @ cr # lf # rest = d # s" "d \<noteq> lf"
    using Cons.prems by (cases raw) (auto simp: cr_def lf_def)
  then show ?case using Cons by simp
qed

lemma until_crlf_append: "until_crlf b = Some (raw, rest) \<Longrightarrow> until_crlf (b @ c) = Some (raw, rest @ c)"
  by (induction b arbitrary: raw rule: until_crlf.induct) (auto split: if_splits option.splits)

text \<open>A reply is read as soon as it is there, and more behind it does not change it.\<close>

lemma read_reply_from_append:
  "read_reply_from lines b = Some (r, rest) \<Longrightarrow> read_reply_from lines (b @ c) = Some (r, rest @ c)"
proof (induction lines b rule: read_reply_from.induct)
  case (1 lines b)
  obtain raw after where u: "until_crlf b = Some (raw, after)"
    using 1(2) by (auto simp: read_reply_from.simps [of lines b] split: option.splits)
  obtain code sep said where m: "match_reply_line raw = Some (code, sep, said)"
    using 1(2) u by (auto simp: read_reply_from.simps [of lines b] split: option.splits)
  show ?case
    using 1 u m by (auto simp: read_reply_from.simps [of lines b] read_reply_from.simps [of lines "b @ c"]
        until_crlf_append split: if_splits)
qed

lemma read_reply_append: "read_reply b = Some (r, rest) \<Longrightarrow> read_reply (b @ c) = Some (r, rest @ c)"
  by (simp add: read_reply_def read_reply_from_append)

text \<open>How a server writes a reply.\<close>

fun reply_text :: "nat \<Rightarrow> string list \<Rightarrow> string" where
  "reply_text code [] = []"
| "reply_text code [said] = pad_zero 3 code @ CHR '' '' # said @ crlf"
| "reply_text code (said # others) = pad_zero 3 code @ CHR ''-'' # said @ crlf @ reply_text code others"

definition one_line :: "string \<Rightarrow> bool" where
  "one_line s \<longleftrightarrow> list_all (\<lambda>c. c \<noteq> cr \<and> c \<noteq> lf) s"

lemma digit_value_zero [simp]: "digit_value (CHR ''0'') = 0"
  by (simp add: digit_value_def)

lemma number_of_pad_zero: "number_of (pad_zero w n) = n"
proof -
  have "number_from 0 (replicate k (CHR ''0'') @ s) = number_from 0 s" for k s
    by (induction k) simp_all
  then show ?thesis
    using number_of_nat_string [of n] unfolding number_of_def by (simp add: pad_zero_def Let_def)
qed

lemma pad_zero_digits: "list_all is_digit (pad_zero w n)"
  using nat_string_digits [of n] by (auto simp: pad_zero_def Let_def list_all_iff is_digit_def)

lemma length_nat_string_le: "n < 10 ^ k \<Longrightarrow> 0 < k \<Longrightarrow> length (nat_string n) \<le> k"
proof (induction k arbitrary: n)
  case 0
  then show ?case by simp
next
  case (Suc k)
  show ?case
  proof (cases "n < 10")
    case True
    then show ?thesis by (simp add: nat_string.simps [of n])
  next
    case False
    then have "0 < k" using Suc.prems by (cases k) auto
    moreover have "n div 10 < 10 ^ k" using Suc.prems by (simp add: less_mult_imp_div_less mult.commute)
    ultimately show ?thesis using Suc.IH [of "n div 10"] False by (simp add: nat_string.simps [of n])
  qed
qed

lemma length_pad_zero_3: "code < 1000 \<Longrightarrow> length (pad_zero 3 code) = 3"
  using length_nat_string_le [of code 3] by (simp add: pad_zero_def Let_def)

lemma match_rendered:
  assumes "code < 1000" and "one_line said" and "sep = CHR '' '' \<or> sep = CHR ''-''"
  shows "match_reply_line (pad_zero 3 code @ sep # said) = Some (code, sep, said)"
  using assms by (auto simp: match_reply_line_def Let_def length_pad_zero_3 pad_zero_digits number_of_pad_zero one_line_def)

lemma until_rendered:
  assumes "one_line said" and "sep \<noteq> lf"
  shows "until_crlf (pad_zero 3 code @ sep # said @ crlf @ rest) = Some (pad_zero 3 code @ sep # said, rest)"
proof -
  have "lf \<notin> set (pad_zero 3 code)"
    using pad_zero_digits [of 3 code] by (auto simp: list_all_iff is_digit_def lf_def)
  then have "lf \<notin> set (pad_zero 3 code @ sep # said)"
    using assms by (auto simp: one_line_def list_all_iff)
  from until_crlf_line [OF this, of rest] show ?thesis by (simp add: crlf_def)
qed

lemma read_reply_from_rendered:
  "code < 1000 \<Longrightarrow> said \<noteq> [] \<Longrightarrow> list_all one_line said \<Longrightarrow>
     read_reply_from lines (reply_text code said @ rest) = Some (\<lparr>sr_code = code, sr_lines = lines @ said\<rparr>, rest)"
proof (induction code said arbitrary: lines rule: reply_text.induct)
  case (1 code)
  then show ?case by simp
next
  case (2 code said)
  then show ?case
    by (subst read_reply_from.simps) (simp add: until_rendered match_rendered lf_def)
next
  case (3 code said following others)
  then show ?case
    by (subst read_reply_from.simps) (simp add: until_rendered match_rendered lf_def)
qed

lemma read_reply_rendered:
  "code < 1000 \<Longrightarrow> said \<noteq> [] \<Longrightarrow> list_all one_line said \<Longrightarrow>
     read_reply (reply_text code said @ rest) = Some (\<lparr>sr_code = code, sr_lines = said\<rparr>, rest)"
  by (simp add: read_reply_def read_reply_from_rendered)

section \<open>Lemmas on messages\<close>

fun base64_lines :: "nat \<Rightarrow> string \<Rightarrow> string list" where
  "base64_lines 0 s = [s]"
| "base64_lines (Suc k) s = (if length s < 76 then [s] else take 76 s # base64_lines k (drop 76 s))"

lemma base64_lines_not_Nil [simp]: "base64_lines k s \<noteq> []"
  by (cases k) auto

lemma join_with_Cons: "ps \<noteq> [] \<Longrightarrow> join_with sep (p # ps) = p @ sep @ join_with sep ps"
  by (cases ps) auto

lemma wrap_lines_join: "length s \<le> k \<Longrightarrow> wrap_lines s = join_with [cr, lf] (base64_lines k s)"
proof (induction k s rule: base64_lines.induct)
  case (1 s)
  then show ?case by (simp add: wrap_lines.simps [of "[]"])
next
  case (2 k s)
  then show ?case by (subst wrap_lines.simps) (simp add: join_with_Cons)
qed

lemma base64_lines_set: "list_all base64_text s \<Longrightarrow> l \<in> set (base64_lines k s) \<Longrightarrow> list_all base64_text l"
  by (induction k s rule: base64_lines.induct) (auto simp: list_all_iff dest: in_set_takeD in_set_dropD split: if_splits)

lemma base64_read_wrapped: "base64_read (wrap_lines s) = base64_read s"
proof -
  have "List.map_filter base64_value (wrap_lines s) = List.map_filter base64_value s"
  proof (induction s rule: wrap_lines.induct)
    case (1 s)
    show ?case
    proof (cases "length s < 76")
      case True
      then show ?thesis by (simp add: wrap_lines.simps [of s])
    next
      case False
      have sp: "base64_value cr = None" "base64_value lf = None" by (simp_all add: base64_value_def cr_def lf_def)
      have ap: "List.map_filter base64_value (a @ b) = List.map_filter base64_value a @ List.map_filter base64_value b" for a b
        by (simp add: List.map_filter_def)
      have "List.map_filter base64_value (wrap_lines s) =
          List.map_filter base64_value (take 76 s) @ List.map_filter base64_value (drop 76 s)"
        using False 1 by (subst wrap_lines.simps) (simp add: ap map_filter_value sp)
      then show ?thesis by (simp flip: ap)
    qed
  qed
  then show ?thesis by (simp add: base64_read_def)
qed

text \<open>The text of a message reads back from its body.\<close>

lemma body_reads_back: "list_all is_point v \<Longrightarrow> base64_read (wrapped_base64 v) = utf8_bytes v"
  by (simp add: wrapped_base64_def base64_read_wrapped base64_read_base64 utf8_bytes_range)

definition message_lines :: "smtp_message \<Rightarrow> string list" where
  "message_lines m =
     header_lines m @ [] # base64_lines (length (base64 (utf8_bytes (sm_text m)))) (base64 (utf8_bytes (sm_text m)))"

lemma join_with_append: "ps \<noteq> [] \<Longrightarrow> qs \<noteq> [] \<Longrightarrow> join_with sep (ps @ qs) = join_with sep ps @ sep @ join_with sep qs"
  by (induction sep ps rule: join_with.induct) (auto simp: join_with_Cons)

lemma message_bytes_lines: "message_bytes m = join_with [cr, lf] (message_lines m)"
  by (simp add: message_bytes_def message_lines_def wrapped_base64_def wrap_lines_join header_lines_def
      join_with_Cons)

lemma join_with_lines: "ps \<noteq> [] \<Longrightarrow> join_with sep ps @ sep = concat (map (\<lambda>p. p @ sep) ps)"
  by (induction sep ps rule: join_with.induct) auto

lemma split_on_mid: "split_on c (x @ c # y) = split_on c x @ split_on c y"
proof (induction x)
  case (Cons a x)
  then show ?case by (cases "split_on c x") auto
qed simp

lemma split_lines:
  "list_all one_line ls \<Longrightarrow> split_on lf (concat (map (\<lambda>l. l @ [cr, lf]) ls)) = map (\<lambda>l. l @ [cr]) ls @ [[]]"
proof (induction ls)
  case (Cons l ls)
  have "lf \<notin> set (l @ [cr])" using Cons.prems by (auto simp: one_line_def list_all_iff lf_def cr_def)
  from split_on_append [OF this] Cons show ?case by simp
qed simp

text \<open>A text of one-line lines ends at its only line that is a dot.\<close>

lemma ends_at_the_dot:
  assumes "concat (map (\<lambda>l. l @ [cr, lf]) (ls @ [''.''])) = a @ [cr, lf] @ ''.'' @ [cr, lf] @ b"
    and one: "list_all one_line ls" and nodot: "''.'' \<notin> set ls"
  shows "b = []"
proof -
  have one': "list_all one_line (ls @ [''.''])" using one by (simp add: one_line_def cr_def lf_def)
  have dot: "''.'' @ [cr] = [CHR ''.'', cr]" by simp
  have clean: "lf \<notin> set [CHR ''.'', cr]" by (simp add: cr_def lf_def)
  have "split_on lf ((a @ [cr]) @ lf # ([CHR ''.'', cr] @ lf # b)) =
      split_on lf (a @ [cr]) @ [[CHR ''.'', cr]] @ split_on lf b"
    using split_on_append [OF clean, of b] by (simp only: split_on_mid) simp
  then have eq: "map (\<lambda>l. l @ [cr]) ls @ [[CHR ''.'', cr], []] =
      split_on lf (a @ [cr]) @ [[CHR ''.'', cr]] @ split_on lf b"
    using split_lines [OF one'] assms(1) by simp
  define M where "M = map (\<lambda>l. l @ [cr]) ls"
  have "[CHR ''.'', cr] \<notin> set M" using nodot by (auto simp: M_def)
  then have "split_on lf b = [[]] \<or> split_on lf b = []"
    using eq unfolding M_def [symmetric]
    by (auto simp: append_eq_append_conv2 Cons_eq_append_conv append_eq_Cons_conv)
  then have "split_on lf b = [[]]" by simp
  then have "join_with [lf] (split_on lf b) = []" by simp
  then show "b = []" by simp
qed

text \<open>Where every field is one line, so is every line of the message, and none is a dot.\<close>

definition one_line_fields :: "smtp_message \<Rightarrow> bool" where
  "one_line_fields m \<longleftrightarrow>
     one_line (sm_from m) \<and> list_all one_line (sm_to m) \<and> one_line (sm_id m) \<and> one_line (sm_utc m) \<and>
     list_all is_point (sm_subject m) \<and> list_all is_point (sm_text m)"

lemma one_line_append [simp]: "one_line (a @ b) \<longleftrightarrow> one_line a \<and> one_line b"
  by (simp add: one_line_def)

lemma one_line_Cons [simp]: "one_line (c # s) \<longleftrightarrow> c \<noteq> cr \<and> c \<noteq> lf \<and> one_line s"
  by (simp add: one_line_def)

lemma one_line_Nil [simp]: "one_line []"
  by (simp add: one_line_def)

lemma one_line_join: "one_line sep \<Longrightarrow> list_all one_line ps \<Longrightarrow> one_line (join_with sep ps)"
  by (induction sep ps rule: join_with.induct) auto

lemma one_line_base64: "list_all base64_text s \<Longrightarrow> one_line s"
  by (auto simp: one_line_def list_all_iff dest: base64_text_neq)

lemma one_line_encoded_word: "list_all is_point v \<Longrightarrow> one_line (encoded_word v)"
proof (cases "list_all (\<lambda>p. 32 \<le> p \<and> p \<le> 126) v")
  case True
  have "char_of p \<noteq> cr \<and> char_of p \<noteq> lf" if "32 \<le> p" "p \<le> 126" for p :: nat
    using that by (auto simp: cr_def lf_def char_of_eq_iff take_bit_eq_mod)
  then show ?thesis using True by (auto simp: encoded_word_def one_line_def list_all_iff)
next
  case False
  assume "list_all is_point v"
  then have "one_line (base64 (utf8_bytes v))"
    by (simp add: one_line_base64 base64_is_text utf8_bytes_range)
  with False show ?thesis by (simp add: encoded_word_def cr_def lf_def)
qed

lemma one_line_domain: "one_line s \<Longrightarrow> one_line (domain_of s)"
  by (auto simp: domain_of_def one_line_def list_all_iff cr_def lf_def dest: in_set_dropD split: option.splits)

lemma message_lines_one_line:
  assumes "one_line_fields m"
  shows "list_all one_line (message_lines m) \<and> ''.'' \<notin> set (message_lines m)"
proof
  have encoding: "list_all base64_text (base64 (utf8_bytes (sm_text m)))"
    using assms by (simp add: one_line_fields_def base64_is_text utf8_bytes_range)
  have lines: "list_all base64_text l"
    if "l \<in> set (base64_lines k (base64 (utf8_bytes (sm_text m))))" for l k
    using base64_lines_set [OF encoding that] .
  have "list_all one_line (header_lines m)"
    using assms by (simp add: header_lines_def one_line_fields_def one_line_join one_line_encoded_word one_line_domain
        cr_def lf_def)
  then show "list_all one_line (message_lines m)"
    using lines one_line_base64 by (auto simp: message_lines_def list_all_iff)
  have "''.'' \<notin> set (header_lines m)" by (simp add: header_lines_def)
  then show "''.'' \<notin> set (message_lines m)"
    using lines base64_text_neq by (fastforce simp: message_lines_def)
qed

end
