(* ===== verification/Failure.thy ===== *)
theory Failure
  imports Prelude
begin

text \<open>
  \<open>packages/core/src/notification/failure.ts\<close>: what is told of a request that threw. The codes an
  error carries, its own and its cause's, are read by a parameter; only codes that are strings count.
\<close>

definition timed_out :: string where "timed_out = ''That address did not answer in time''"
definition refused_connection :: string where "refused_connection = ''That address refused the connection''"
definition dropped_connection :: string where "dropped_connection = ''That address closed the connection''"
definition unreachable_address :: string where "unreachable_address = ''That address could not be reached''"
definition insecure_address :: string where
  "insecure_address = ''That address presented a certificate we could not trust''"
definition did_not_go_through :: string where "did_not_go_through = ''The delivery did not go through''"

definition network_reasons :: "(string \<times> string) list" where
  "network_reasons =
     [(''UND_ERR_CONNECT_TIMEOUT'', timed_out),
      (''UND_ERR_HEADERS_TIMEOUT'', timed_out),
      (''UND_ERR_BODY_TIMEOUT'', timed_out),
      (''ETIMEDOUT'', timed_out),
      (''ECONNREFUSED'', refused_connection),
      (''ECONNRESET'', dropped_connection),
      (''EPIPE'', dropped_connection),
      (''UND_ERR_SOCKET'', dropped_connection),
      (''EHOSTUNREACH'', unreachable_address),
      (''ENETUNREACH'', unreachable_address),
      (''ENETDOWN'', unreachable_address),
      (''EAI_AGAIN'', unreachable_address),
      (''ENOTFOUND'', unreachable_address),
      (''CERT_HAS_EXPIRED'', insecure_address),
      (''CERT_NOT_YET_VALID'', insecure_address),
      (''CERT_SIGNATURE_FAILURE'', insecure_address),
      (''UNABLE_TO_VERIFY_LEAF_SIGNATURE'', insecure_address),
      (''UNABLE_TO_GET_ISSUER_CERT'', insecure_address),
      (''UNABLE_TO_GET_ISSUER_CERT_LOCALLY'', insecure_address),
      (''SELF_SIGNED_CERT_IN_CHAIN'', insecure_address),
      (''DEPTH_ZERO_SELF_SIGNED_CERT'', insecure_address),
      (''ERR_TLS_CERT_ALTNAME_INVALID'', insecure_address),
      (''ERR_TLS_INVALID_PROTOCOL_VERSION'', insecure_address),
      (''ERR_SSL_WRONG_VERSION_NUMBER'', insecure_address),
      (''HOSTNAME_MISMATCH'', insecure_address)]"

record error_codes =
  ec_own :: "string option"
  ec_cause :: "string option"

definition error_code :: "(thrown \<Rightarrow> error_codes) \<Rightarrow> thrown \<Rightarrow> string option" where
  "error_code codes e = (case ec_own (codes e) of Some own \<Rightarrow> Some own | None \<Rightarrow> ec_cause (codes e))"

definition reason_of_code :: "string \<Rightarrow> string option" where
  "reason_of_code code =
     (case map_of network_reasons code of
        Some known \<Rightarrow> Some known
      | None \<Rightarrow>
          if starts_with code ''ERR_TLS'' \<or> starts_with code ''ERR_SSL'' then Some insecure_address
          else if starts_with code ''CERT_'' \<or> starts_with code ''DEPTH_'' then Some insecure_address
          else if has_sub code ''SELF_SIGNED'' \<or> has_sub code ''UNABLE_TO_'' then Some insecure_address
          else None)"

definition network_reason :: "(thrown \<Rightarrow> error_codes) \<Rightarrow> thrown \<Rightarrow> string" where
  "network_reason codes e =
     (case e of
        ThrownValue \<Rightarrow> did_not_go_through
      | Thrown name _ \<Rightarrow>
          (case (case error_code codes e of None \<Rightarrow> None | Some code \<Rightarrow> reason_of_code code) of
             Some reason \<Rightarrow> reason
           | None \<Rightarrow>
               if name = ''AbortError'' \<or> name = ''TimeoutError'' then timed_out else did_not_go_through))"

text \<open>What is told is one of six sentences, whatever the error says: nothing of it is passed on.\<close>

lemma network_reason_told:
  "network_reason codes e \<in>
     {timed_out, refused_connection, dropped_connection, unreachable_address, insecure_address, did_not_go_through}"
proof -
  have "reason_of_code code = Some r \<Longrightarrow>
      r \<in> {timed_out, refused_connection, dropped_connection, unreachable_address, insecure_address}" for code r
    by (auto simp: reason_of_code_def network_reasons_def split: option.splits if_splits)
  then show ?thesis
    by (auto simp: network_reason_def split: thrown.splits option.splits)
qed

end
