(* ===== verification/Egress.thy ===== *)
theory Egress
  imports Prelude "HOL-Library.Word"
begin

text \<open>
  \<open>packages/core/src/notification/egress.ts\<close>: which addresses and URLs a notification may be sent to.

  An address is its octets, kept at their width. \<open>isIP\<close> of \<open>node:net\<close> is written out as documented: four
  decimal parts without leading zeros, or the text form of RFC 4291 with an optional zone. \<open>new URL\<close> is
  the parameter \<open>parse_url\<close>, \<open>None\<close> where the constructor throws.
\<close>

unbundle bit_operations_syntax

section \<open>Policies and verdicts\<close>

type_synonym octet = "8 word"
type_synonym hextet = "16 word"

record address_allowance =
  al_bytes :: "octet list"
  al_bits :: nat

record egress_policy =
  ep_allowHttp :: bool
  ep_allowedHosts :: "string list"
  ep_allowedAddresses :: "address_allowance list"

definition public_only :: egress_policy where
  "public_only = \<lparr>ep_allowHttp = False, ep_allowedHosts = [], ep_allowedAddresses = []\<rparr>"

datatype rejection_category =
    RejLoopback | RejPrivate | RejReserved | RejUnreadable | RejInsecure | RejCredentials | RejFragment
  | RejHost | RejRetired | RejSignin | RejParameters

datatype address_verdict =
    AddressAllowed bool
  | AddressRefused string rejection_category

definition loopback_reason :: string where "loopback_reason = ''it points back at this machine''"
definition private_reason :: string where "private_reason = ''it points at a private network''"
definition reserved_reason :: string where "reserved_reason = ''it points at a reserved address''"
definition unreadable_reason :: string where "unreadable_reason = ''that address could not be read''"

section \<open>Names\<close>

text \<open>\<open>hostname.replace(/^\[|\]$/g, "")\<close>\<close>

definition bare_hostname :: "string \<Rightarrow> string" where
  "bare_hostname h =
     (let h1 = (if starts_with h ''['' then drop 1 h else h)
      in if ends_with h1 '']'' then butlast h1 else h1)"

definition local_suffixes :: "string list" where
  "local_suffixes = [''.localhost'', ''.local'', ''.internal'', ''.home.arpa'']"

definition looks_local_name :: "string \<Rightarrow> bool" where
  "looks_local_name h \<longleftrightarrow> h = ''localhost'' \<or> list_ex (ends_with h) local_suffixes"

section \<open>Reading addresses\<close>

text \<open>\<open>/^\d{1,3}$/\<close>\<close>

definition short_number :: "string \<Rightarrow> bool" where
  "short_number s \<longleftrightarrow> 1 \<le> length s \<and> length s \<le> 3 \<and> list_all is_digit s"

fun parse_v4_parts :: "string list \<Rightarrow> octet list option" where
  "parse_v4_parts [] = Some []"
| "parse_v4_parts (part # parts) =
     (if \<not> short_number part then None
      else (let byte = number_of part in
        if 255 < byte then None
        else map_option ((#) (of_nat byte)) (parse_v4_parts parts)))"

definition parse_v4 :: "string \<Rightarrow> octet list option" where
  "parse_v4 address =
     (let parts = split_on (CHR ''.'') address in
      if length parts \<noteq> 4 then None else parse_v4_parts parts)"

definition hex_value :: "char \<Rightarrow> nat" where
  "hex_value c =
     (if is_digit c then digit_value c
      else if 97 \<le> (of_char c :: nat) then of_char c - 87 else of_char c - 55)"

text \<open>\<open>Number.parseInt(s, 16)\<close> of a string of hexadecimal digits.\<close>

definition hex_number :: "string \<Rightarrow> nat" where
  "hex_number s = foldl (\<lambda>n c. 16 * n + hex_value c) 0 s"

definition is_hextet :: "string \<Rightarrow> bool" where
  "is_hextet s \<longleftrightarrow> 1 \<le> length s \<and> length s \<le> 4 \<and> list_all is_hex s"

definition join_octets :: "octet \<Rightarrow> octet \<Rightarrow> hextet" where
  "join_octets a b = push_bit 8 (ucast a) OR ucast b"

text \<open>The loop of \<open>hextetsOf\<close>; only its last group may be a dotted address.\<close>

fun hextet_groups :: "string list \<Rightarrow> hextet list option" where
  "hextet_groups [] = Some []"
| "hextet_groups (g # gs) =
     (if gs = [] \<and> CHR ''.'' \<in> set g then
        (case parse_v4 g of
           Some [a, b, c, d] \<Rightarrow> Some [join_octets a b, join_octets c d]
         | _ \<Rightarrow> None)
      else if \<not> is_hextet g then None
      else map_option ((#) (of_nat (hex_number g))) (hextet_groups gs))"

definition hextets_of :: "string \<Rightarrow> hextet list option" where
  "hextets_of segment = (if length segment = 0 then Some [] else hextet_groups (split_on (CHR '':'') segment))"

definition octets_of :: "hextet list \<Rightarrow> octet list" where
  "octets_of groups = concat (map (\<lambda>g. [ucast (drop_bit 8 g), ucast g]) groups)"

definition v6_groups :: nat where "v6_groups = 8"

text \<open>\<open>address.split("::")\<close>\<close>

fun split_double_colon :: "string \<Rightarrow> string list" where
  "split_double_colon [] = [[]]"
| "split_double_colon [c] = [[c]]"
| "split_double_colon (c # d # r) =
     (if c = CHR '':'' \<and> d = CHR '':'' then [] # split_double_colon r
      else (case split_double_colon (d # r) of [] \<Rightarrow> [[c]] | p # ps \<Rightarrow> (c # p) # ps))"

definition parse_v6 :: "string \<Rightarrow> octet list option" where
  "parse_v6 address =
     (if CHR ''%'' \<in> set address then None
      else (case split_double_colon address of
         [only] \<Rightarrow>
           (case hextets_of only of
              Some groups \<Rightarrow> if length groups \<noteq> v6_groups then None else Some (octets_of groups)
            | None \<Rightarrow> None)
       | [before, after] \<Rightarrow>
           (case (hextets_of before, hextets_of after) of
              (Some head, Some tail) \<Rightarrow>
                if v6_groups < length head + length tail + 1 then None
                else Some (octets_of (head @ replicate (v6_groups - length head - length tail) 0 @ tail))
            | _ \<Rightarrow> None)
       | _ \<Rightarrow> None))"

text \<open>\<open>isIP\<close>: the family of an address, or zero.\<close>

definition v4_part :: "string \<Rightarrow> bool" where
  "v4_part s \<longleftrightarrow> short_number s \<and> number_of s \<le> 255 \<and> (length s = 1 \<or> hd s \<noteq> CHR ''0'')"

definition is_ipv4 :: "string \<Rightarrow> bool" where
  "is_ipv4 s \<longleftrightarrow> length (split_on (CHR ''.'') s) = 4 \<and> list_all v4_part (split_on (CHR ''.'') s)"

fun v6_part_groups :: "string list \<Rightarrow> nat option" where
  "v6_part_groups [] = Some 0"
| "v6_part_groups [g] =
     (if is_hextet g then Some 1 else if is_ipv4 g then Some 2 else None)"
| "v6_part_groups (g # gs) = (if is_hextet g then map_option Suc (v6_part_groups gs) else None)"

definition v6_half :: "string \<Rightarrow> nat option" where
  "v6_half s = (if s = [] then Some 0 else v6_part_groups (split_on (CHR '':'') s))"

definition is_ipv6 :: "string \<Rightarrow> bool" where
  "is_ipv6 s =
     (let address = takeWhile (\<lambda>c. c \<noteq> CHR ''%'') s; zone = dropWhile (\<lambda>c. c \<noteq> CHR ''%'') s in
      length zone \<noteq> 1 \<and>
      (case map v6_half (split_double_colon address) of
         [Some n] \<Rightarrow> n = 8
       | [Some n, Some m] \<Rightarrow> n + m < 8
       | _ \<Rightarrow> False))"

definition is_ip :: "string \<Rightarrow> nat" where
  "is_ip s = (if is_ipv4 s then 4 else if is_ipv6 s then 6 else 0)"

definition parse_address :: "string \<Rightarrow> octet list option" where
  "parse_address address =
     (let family = is_ip address in
      if family = 4 then parse_v4 address else if family = 6 then parse_v6 address else None)"

section \<open>Ranges\<close>

record egress_range = address_allowance +
  er_reason :: string
  er_category :: rejection_category

definition allowance_of :: "string \<Rightarrow> address_allowance option" where
  "allowance_of notation =
     (let slash = index_of (CHR ''/'') notation;
          written = (case slash of None \<Rightarrow> notation | Some i \<Rightarrow> take i notation)
      in case parse_address (bare_hostname written) of
           None \<Rightarrow> None
         | Some bytes \<Rightarrow>
             (case slash of
                None \<Rightarrow> Some \<lparr>al_bytes = bytes, al_bits = length bytes * 8\<rparr>
              | Some i \<Rightarrow>
                  (let width = drop (Suc i) notation in
                   if \<not> short_number width then None
                   else (let bits = number_of width in
                     if length bytes * 8 < bits then None
                     else Some \<lparr>al_bytes = bytes, al_bits = bits\<rparr>))))"

definition category_of :: "(string \<times> rejection_category) list" where
  "category_of = [(loopback_reason, RejLoopback), (private_reason, RejPrivate),
     (reserved_reason, RejReserved), (unreadable_reason, RejUnreadable)]"

definition category_for :: "string \<Rightarrow> rejection_category" where
  "category_for reason = (case map_of category_of reason of None \<Rightarrow> RejReserved | Some c \<Rightarrow> c)"

definition address_range :: "string \<Rightarrow> string \<Rightarrow> thrown + egress_range" where
  "address_range notation reason =
     (case allowance_of notation of
        None \<Rightarrow> Inl (internal_error (''unusable address range: '' @ notation))
      | Some a \<Rightarrow> Inr \<lparr>al_bytes = al_bytes a, al_bits = al_bits a, er_reason = reason,
                       er_category = category_for reason\<rparr>)"

text \<open>
  The module throws while it loads where a range is unusable; \<open>tables_load\<close> shows that none is, so
  \<open>loaded\<close> drops nothing.
\<close>

definition loaded :: "(string \<times> string) list \<Rightarrow> egress_range list" where
  "loaded notations = concat (map (\<lambda>(n, r). case address_range n r of Inl _ \<Rightarrow> [] | Inr x \<Rightarrow> [x]) notations)"

definition octet_mask :: "nat \<Rightarrow> octet" where
  "octet_mask width = push_bit (8 - width) 255 AND 255"

fun within_bits :: "nat \<Rightarrow> octet list \<Rightarrow> octet list \<Rightarrow> bool" where
  "within_bits remaining left right =
     (if remaining = 0 then True
      else (case (left, right) of
         (l # ls, r # rs) \<Rightarrow>
           (let width = min 8 remaining; m = octet_mask width in
            if l AND m \<noteq> r AND m then False else within_bits (remaining - width) ls rs)
       | _ \<Rightarrow> False))"

declare within_bits.simps [simp del]

definition within :: "octet list \<Rightarrow> 'x address_allowance_scheme \<Rightarrow> bool" where
  "within bytes limit =
     (if length bytes \<noteq> length (al_bytes limit) then False
      else if length (al_bytes limit) * 8 < al_bits limit then False
      else within_bits (al_bits limit) bytes (al_bytes limit))"

definition never_v4_notations :: "(string \<times> string) list" where
  "never_v4_notations =
     [(''0.0.0.0/8'', loopback_reason), (''169.254.0.0/16'', reserved_reason),
      (''224.0.0.0/4'', reserved_reason), (''240.0.0.0/4'', reserved_reason),
      (''100.100.100.100/32'', reserved_reason), (''100.100.100.200/32'', reserved_reason),
      (''192.0.0.192/32'', reserved_reason)]"

definition never_v6_notations :: "(string \<times> string) list" where
  "never_v6_notations =
     [(''::/128'', loopback_reason), (''ff00::/8'', reserved_reason), (''fe80::/10'', reserved_reason),
      (''fd00:ec2::254/128'', reserved_reason)]"

definition forbidden_v4_notations :: "(string \<times> string) list" where
  "forbidden_v4_notations =
     [(''10.0.0.0/8'', private_reason), (''100.64.0.0/10'', private_reason), (''127.0.0.0/8'', loopback_reason),
      (''172.16.0.0/12'', private_reason), (''192.0.0.0/24'', reserved_reason), (''192.0.2.0/24'', reserved_reason),
      (''192.88.99.0/24'', reserved_reason), (''192.168.0.0/16'', private_reason),
      (''198.18.0.0/15'', reserved_reason), (''198.51.100.0/24'', reserved_reason),
      (''203.0.113.0/24'', reserved_reason)]"

definition non_global_v6_notations :: "(string \<times> string) list" where
  "non_global_v6_notations =
     [(''::1/128'', loopback_reason), (''fc00::/7'', private_reason), (''fec0::/10'', private_reason)]"

definition forbidden_v6_notations :: "(string \<times> string) list" where
  "forbidden_v6_notations =
     [(''2001::/32'', reserved_reason), (''2001:2::/48'', reserved_reason), (''2001:10::/28'', reserved_reason),
      (''2001:20::/28'', reserved_reason), (''2001:db8::/32'', reserved_reason), (''2002::/16'', reserved_reason),
      (''3fff::/20'', reserved_reason)]"

definition never_v4 :: "egress_range list" where "never_v4 = loaded never_v4_notations"
definition never_v6 :: "egress_range list" where "never_v6 = loaded never_v6_notations"
definition forbidden_v4 :: "egress_range list" where "forbidden_v4 = loaded forbidden_v4_notations"
definition non_global_v6 :: "egress_range list" where "non_global_v6 = loaded non_global_v6_notations"
definition forbidden_v6 :: "egress_range list" where "forbidden_v6 = loaded forbidden_v6_notations"
definition global_v6 :: egress_range where "global_v6 = hd (loaded [(''2000::/3'', reserved_reason)])"
definition mapped_v4 :: egress_range where "mapped_v4 = hd (loaded [(''::ffff:0:0/96'', reserved_reason)])"

section \<open>Verifying an address\<close>

definition soft_deny :: "octet list \<Rightarrow> egress_range option" where
  "soft_deny bytes =
     (if length bytes = 4 then find (within bytes) forbidden_v4
      else if \<not> within bytes global_v6 then
        (case find (within bytes) non_global_v6 of None \<Rightarrow> Some global_v6 | Some r \<Rightarrow> Some r)
      else find (within bytes) forbidden_v6)"

definition normalised :: "octet list \<Rightarrow> octet list" where
  "normalised bytes = (if length bytes = 16 \<and> within bytes mapped_v4 then drop 12 bytes else bytes)"

definition verify_octets :: "octet list \<Rightarrow> egress_policy \<Rightarrow> bool \<Rightarrow> address_verdict" where
  "verify_octets parsed policy hostAllowed =
     (let bytes = normalised parsed in
      case find (within bytes) (if length bytes = 4 then never_v4 else never_v6) of
        Some never \<Rightarrow> AddressRefused (er_reason never) (er_category never)
      | None \<Rightarrow>
          (let named = (hostAllowed \<or> list_ex (within bytes) (ep_allowedAddresses policy)) in
           case soft_deny bytes of
             None \<Rightarrow> AddressAllowed named
           | Some hit \<Rightarrow>
               if named then AddressAllowed True else AddressRefused (er_reason hit) (er_category hit)))"

definition verify_address :: "string \<Rightarrow> egress_policy \<Rightarrow> bool \<Rightarrow> address_verdict" where
  "verify_address address policy hostAllowed =
     (case parse_address address of
        None \<Rightarrow> AddressRefused unreadable_reason RejUnreadable
      | Some parsed \<Rightarrow> verify_octets parsed policy hostAllowed)"

definition host_is_allowed :: "string \<Rightarrow> egress_policy \<Rightarrow> bool" where
  "host_is_allowed hostname policy \<longleftrightarrow> lower (bare_hostname hostname) \<in> set (ep_allowedHosts policy)"

section \<open>Verifying a URL or a host\<close>

record url_parts =
  up_protocol :: string
  up_username :: string
  up_password :: string
  up_hostname :: string
  up_search :: string
  up_hash :: string

datatype url_verdict =
    UrlAllowed string
  | UrlRefused string rejection_category

definition insecure_reason :: string where "insecure_reason = ''the address must start with https''"

definition named_verdict :: "address_verdict option \<Rightarrow> bool" where
  "named_verdict v = (case v of Some (AddressAllowed named) \<Rightarrow> named | _ \<Rightarrow> False)"

definition verify_destination_url ::
    "(string \<Rightarrow> url_parts option) \<Rightarrow> string \<Rightarrow> egress_policy \<Rightarrow> url_verdict" where
  "verify_destination_url parse_url raw policy =
     (case parse_url raw of
        None \<Rightarrow> UrlRefused ''that does not look like a web address'' RejUnreadable
      | Some parsed \<Rightarrow>
          if up_protocol parsed \<noteq> ''https:'' \<and> up_protocol parsed \<noteq> ''http:'' then
            UrlRefused insecure_reason RejInsecure
          else if 0 < length (up_username parsed) \<or> 0 < length (up_password parsed) then
            UrlRefused ''the address must not contain a username or password'' RejCredentials
          else if 0 < length (up_hash parsed) then
            UrlRefused ''the address must not contain a fragment'' RejFragment
          else
            (let hostname = bare_hostname (up_hostname parsed) in
             if length hostname = 0 then
               UrlRefused ''that does not look like a web address'' RejUnreadable
             else
               (let hostAllowed = host_is_allowed hostname policy;
                    literal = (is_ip hostname \<noteq> 0);
                    verdict = (if literal then Some (verify_address hostname policy hostAllowed) else None)
                in case verdict of
                     Some (AddressRefused reason category) \<Rightarrow> UrlRefused reason category
                   | _ \<Rightarrow>
                       if \<not> hostAllowed \<and> \<not> literal \<and> looks_local_name hostname then
                         UrlRefused loopback_reason RejLoopback
                       else if up_protocol parsed = ''http:'' \<and>
                           (\<not> ep_allowHttp policy \<or> \<not> (hostAllowed \<or> named_verdict verdict)) then
                         UrlRefused insecure_reason RejInsecure
                       else UrlAllowed (up_hostname parsed))))"

definition verify_destination_host :: "string \<Rightarrow> egress_policy \<Rightarrow> url_verdict" where
  "verify_destination_host raw policy =
     (let hostname = lower (bare_hostname (trim raw)) in
      if length hostname = 0 then
        UrlRefused ''that does not look like a server address'' RejUnreadable
      else
        (let hostAllowed = host_is_allowed hostname policy in
         if is_ip hostname \<noteq> 0 then
           (case verify_address hostname policy hostAllowed of
              AddressAllowed _ \<Rightarrow> UrlAllowed hostname
            | AddressRefused reason category \<Rightarrow> UrlRefused reason category)
         else if has_sub hostname ''/'' \<or> has_sub hostname ''@'' \<or> has_sub hostname '':'' then
           UrlRefused ''give the server address only, with nothing after it'' RejParameters
         else if \<not> hostAllowed \<and> looks_local_name hostname then
           UrlRefused loopback_reason RejLoopback
         else UrlAllowed hostname))"

section \<open>The policy of the settings\<close>

record egress_settings =
  es_allowHttp :: bool
  es_allowedHosts :: string
  es_allowedAddresses :: string

definition listed :: "string \<Rightarrow> string list" where
  "listed raw = filter (\<lambda>entry. 0 < length entry) (map (\<lambda>entry. lower (trim entry)) (split_on (CHR '','') raw))"

definition reads_as_address_list :: "string \<Rightarrow> bool" where
  "reads_as_address_list raw \<longleftrightarrow> list_all (\<lambda>entry. allowance_of entry \<noteq> None) (listed raw)"

fun allowances_of :: "string list \<Rightarrow> thrown + address_allowance list" where
  "allowances_of [] = Inr []"
| "allowances_of (entry # entries) =
     (case allowance_of entry of
        None \<Rightarrow> Inl (internal_error (''that address could not be read: '' @ entry))
      | Some allowance \<Rightarrow> rbind (allowances_of entries) (\<lambda>rest. Inr (allowance # rest)))"

definition egress_policy_of :: "egress_settings \<Rightarrow> thrown + egress_policy" where
  "egress_policy_of settings =
     rbind (allowances_of (listed (es_allowedAddresses settings))) (\<lambda>allowances.
       Inr \<lparr>ep_allowHttp = es_allowHttp settings,
            ep_allowedHosts = map bare_hostname (listed (es_allowedHosts settings)),
            ep_allowedAddresses = allowances\<rparr>)"

section \<open>Lemmas\<close>

subsection \<open>A range is a prefix\<close>

text \<open>The number an address stands for, its octets from the highest.\<close>

fun address_value :: "octet list \<Rightarrow> nat" where
  "address_value [] = 0"
| "address_value (b # bs) = unat b * 2 ^ (8 * length bs) + address_value bs"

lemma address_value_bound: "address_value bs < 2 ^ (8 * length bs)"
proof (induction bs)
  case Nil
  then show ?case by simp
next
  case (Cons b bs)
  have "unat b + 1 \<le> 2 ^ 8" using unsigned_less [of b, where ?'a = nat] by simp
  then have "(unat b + 1) * 2 ^ (8 * length bs) \<le> 2 ^ 8 * 2 ^ (8 * length bs)" by (rule mult_right_mono) simp
  also have "\<dots> = 2 ^ (8 + 8 * length bs)" by (rule power_add [symmetric])
  also have "\<dots> = 2 ^ (8 * length (b # bs))" by simp
  finally have "unat b * 2 ^ (8 * length bs) + 2 ^ (8 * length bs) \<le> 2 ^ (8 * length (b # bs))"
    by (simp only: distrib_right mult_1)
  moreover have "address_value (b # bs) < unat b * 2 ^ (8 * length bs) + 2 ^ (8 * length bs)"
    using Cons by simp
  ultimately show ?case by (rule less_le_trans [rotated])
qed

lemma octet_mask_eq:
  fixes l r :: octet
  assumes "w \<le> 8"
  shows "l AND octet_mask w = r AND octet_mask w \<longleftrightarrow> unat l div 2 ^ (8 - w) = unat r div 2 ^ (8 - w)"
proof -
  have m: "bit (octet_mask w) i \<longleftrightarrow> 8 - w \<le> i \<and> i < 8" for i
  proof -
    have f: "(255 :: octet) = mask 8" by (simp add: mask_eq_exp_minus_1)
    show ?thesis unfolding octet_mask_def f by (auto simp: bit_simps)
  qed
  have out: "bit x i \<Longrightarrow> i < 8" for x :: octet and i using bit_imp_le_length [of x i] by simp
  have "l AND octet_mask w = r AND octet_mask w \<longleftrightarrow> (\<forall>i. 8 - w \<le> i \<longrightarrow> bit l i = bit r i)"
    using out by (auto simp: bit_eq_iff bit_and_iff m)
  also have "\<dots> \<longleftrightarrow> drop_bit (8 - w) l = drop_bit (8 - w) r"
  proof -
    have "drop_bit (8 - w) l = drop_bit (8 - w) r \<longleftrightarrow> (\<forall>i. bit l (8 - w + i) = bit r (8 - w + i))"
      using out [of l] out [of r] by (simp add: bit_eq_iff bit_drop_bit_eq) (meson le_add2 le_less_trans)
    then show ?thesis by (metis le_add1 le_Suc_ex)
  qed
  also have "\<dots> \<longleftrightarrow> unat (drop_bit (8 - w) l) = unat (drop_bit (8 - w) r)" by (rule word_unat_eq_iff)
  also have "\<dots> \<longleftrightarrow> unat l div 2 ^ (8 - w) = unat r div 2 ^ (8 - w)" by (simp only: unat_drop_bit_eq) (simp only: drop_bit_eq_div)
  finally show ?thesis .
qed

lemma pair_div_eq:
  fixes u v x y :: nat
  assumes "v < 2 ^ k" "y < 2 ^ k" "m \<le> k"
  shows "(u * 2 ^ k + v) div 2 ^ m = (x * 2 ^ k + y) div 2 ^ m \<longleftrightarrow> u = x \<and> v div 2 ^ m = y div 2 ^ m"
proof -
  have p: "(2 :: nat) ^ k = 2 ^ (k - m) * 2 ^ m" using assms(3) by (simp flip: power_add)
  have b: "v div 2 ^ m < 2 ^ (k - m)" "y div 2 ^ m < 2 ^ (k - m)"
    using assms(1,2) by (simp_all add: div_less_iff_less_mult p)
  have d: "(u * 2 ^ k + v) div 2 ^ m = u * 2 ^ (k - m) + v div 2 ^ m" for u v :: nat
    unfolding p by (simp add: mult.assoc [symmetric])
  have "(u * 2 ^ (k - m) + v div 2 ^ m) div 2 ^ (k - m) = u" "(x * 2 ^ (k - m) + y div 2 ^ m) div 2 ^ (k - m) = x"
    using b by simp_all
  then show ?thesis unfolding d by (metis add_left_cancel)
qed

text \<open>The masked comparison of the octets compares the addresses' leading bits.\<close>

lemma within_bits_value:
  "length xs = length ys \<Longrightarrow> n \<le> 8 * length xs \<Longrightarrow>
     within_bits n xs ys \<longleftrightarrow>
       address_value xs div 2 ^ (8 * length xs - n) = address_value ys div 2 ^ (8 * length xs - n)"
proof (induction n xs ys rule: within_bits.induct)
  case (1 n xs ys)
  show ?case
  proof (cases "n = 0")
    case True
    then show ?thesis
      using address_value_bound [of xs] address_value_bound [of ys] 1(2) by (simp add: within_bits.simps [of 0])
  next
    case False
    then obtain l ls r rs where xs: "xs = l # ls" and ys: "ys = r # rs"
      using 1(2,3) by (cases xs; cases ys) auto
    have len: "length rs = length ls" using 1(2) by (simp add: xs ys)
    let ?k = "8 * length ls"
    have bl: "address_value ls < 2 ^ ?k" and br: "address_value rs < 2 ^ ?k"
      using address_value_bound [of ls] address_value_bound [of rs] len by simp_all
    have step: "within_bits n xs ys \<longleftrightarrow>
        l AND octet_mask (min 8 n) = r AND octet_mask (min 8 n) \<and> within_bits (n - min 8 n) ls rs"
      using False by (simp add: xs ys within_bits.simps [of n] Let_def)
    have mask: "l AND octet_mask (min 8 n) = r AND octet_mask (min 8 n) \<longleftrightarrow>
        unat l div 2 ^ (8 - min 8 n) = unat r div 2 ^ (8 - min 8 n)"
      by (rule octet_mask_eq) simp
    show ?thesis
    proof (cases "8 \<le> n")
      case True
      then have m: "min 8 n = 8" by simp
      have parts: "address_value xs div 2 ^ (8 * length xs - n) = address_value ys div 2 ^ (8 * length xs - n) \<longleftrightarrow>
          unat l = unat r \<and> address_value ls div 2 ^ (?k - (n - 8)) = address_value rs div 2 ^ (?k - (n - 8))"
        using pair_div_eq [OF bl br, of "?k - (n - 8)" "unat l" "unat r"] True 1(3) len
        by (simp add: xs ys add.commute)
      show ?thesis
      proof (cases "l AND octet_mask (min 8 n) = r AND octet_mask (min 8 n)")
        case same: True
        have "within_bits (n - 8) ls rs \<longleftrightarrow>
            address_value ls div 2 ^ (?k - (n - 8)) = address_value rs div 2 ^ (?k - (n - 8))"
          using 1(1) [OF False refl xs ys, of "min 8 n" "octet_mask (min 8 n)"] same len 1(3) True m xs by simp
        then show ?thesis using same step mask parts m by simp
      next
        case False
        then show ?thesis using step mask parts m by simp
      qed
    next
      case small: False
      then have m: "min 8 n = n" "n - min 8 n = 0" by simp_all
      have e: "8 * length (l # ls) - n = ?k + (8 - n)" using small by simp
      have d: "(unat b * 2 ^ ?k + v) div 2 ^ (?k + (8 - n)) = unat b div 2 ^ (8 - n)" if "v < 2 ^ ?k" for b :: octet and v
        using that by (simp add: power_add div_mult2_eq)
      have z: "within_bits (n - n) ls rs" by (simp add: within_bits.simps)
      show ?thesis
        unfolding step mask by (simp only: xs ys m z e address_value.simps len d [OF bl] d [OF br] simp_thms)
    qed
  qed
qed

lemma within_iff:
  "within bytes limit \<longleftrightarrow>
     length bytes = length (al_bytes limit) \<and> al_bits limit \<le> 8 * length bytes \<and>
     address_value bytes div 2 ^ (8 * length bytes - al_bits limit) =
       address_value (al_bytes limit) div 2 ^ (8 * length bytes - al_bits limit)"
  using within_bits_value [of bytes "al_bytes limit" "al_bits limit"] by (auto simp: within_def)

subsection \<open>The ranges of the source\<close>

named_theorems reading

lemmas [reading] = parse_v4_def short_number_def number_of_def digit_value_def is_digit_def parse_v6_def
  hextets_of_def hex_number_def hex_value_def v6_groups_def octets_of_def is_hextet_def is_hex_def is_ip_def
  is_ipv4_def is_ipv6_def v6_half_def v4_part_def parse_address_def allowance_of_def bare_hostname_def
  ends_with_def address_range_def Let_def

lemma replicate_numeral [reading]: "replicate (numeral k) x = x # replicate (pred_numeral k) x"
  by (simp add: numeral_eq_Suc)

definition block :: "egress_range \<Rightarrow> nat \<times> nat \<times> nat" where
  "block r = (length (al_bytes r), al_bits r, address_value (al_bytes r))"

lemma never_v4_blocks:
  "map block never_v4 = [(4, 8, 0), (4, 16, 0xA9FE0000), (4, 4, 0xE0000000), (4, 4, 0xF0000000),
     (4, 32, 0x64646464), (4, 32, 0x646464C8), (4, 32, 0xC00000C0)]"
  by (simp add: never_v4_def never_v4_notations_def loaded_def reading block_def)

lemma forbidden_v4_blocks:
  "map block forbidden_v4 = [(4, 8, 0x0A000000), (4, 10, 0x64400000), (4, 8, 0x7F000000), (4, 12, 0xAC100000),
     (4, 24, 0xC0000000), (4, 24, 0xC0000200), (4, 24, 0xC0586300), (4, 16, 0xC0A80000), (4, 15, 0xC6120000),
     (4, 24, 0xC6336400), (4, 24, 0xCB007100)]"
  by (simp add: forbidden_v4_def forbidden_v4_notations_def loaded_def reading block_def)

lemma never_v6_blocks:
  "map block never_v6 = [(16, 128, 0), (16, 8, 0xFF * 2 ^ 120), (16, 10, 0xFE80 * 2 ^ 112),
     (16, 128, 0xFD000EC2 * 2 ^ 96 + 0x254)]"
  by (simp add: never_v6_def never_v6_notations_def loaded_def reading block_def)

lemma other_v6_blocks:
  "map block (global_v6 # mapped_v4 # non_global_v6) =
     [(16, 3, 0x2000 * 2 ^ 112), (16, 96, 0xFFFF * 2 ^ 32), (16, 128, 1), (16, 7, 0xFC00 * 2 ^ 112),
      (16, 10, 0xFEC0 * 2 ^ 112)]"
  by (simp add: global_v6_def mapped_v4_def non_global_v6_def non_global_v6_notations_def loaded_def reading block_def)

lemma forbidden_v6_blocks:
  "map block forbidden_v6 =
     [(16, 32, 0x2001 * 2 ^ 112), (16, 48, 0x20010002 * 2 ^ 96), (16, 28, 0x20010010 * 2 ^ 96),
      (16, 28, 0x20010020 * 2 ^ 96), (16, 32, 0x20010DB8 * 2 ^ 96), (16, 16, 0x2002 * 2 ^ 112),
      (16, 20, 0x3FFF * 2 ^ 112)]"
  by (simp add: forbidden_v6_def forbidden_v6_notations_def loaded_def reading block_def)

subsection \<open>What public means\<close>

text \<open>An IPv4 address of four decimal parts, and the blocks written as their first and last address.\<close>

definition ip4 :: "nat \<Rightarrow> nat \<Rightarrow> nat \<Rightarrow> nat \<Rightarrow> nat" where
  "ip4 a b c d = ((a * 256 + b) * 256 + c) * 256 + d"

definition between :: "nat \<Rightarrow> nat \<Rightarrow> nat \<Rightarrow> bool" where
  "between lo hi v \<longleftrightarrow> lo \<le> v \<and> v \<le> hi"

text \<open>What no policy lets through.\<close>

definition unreachable_v4 :: "nat \<Rightarrow> bool" where
  "unreachable_v4 v \<longleftrightarrow>
     between (ip4 0 0 0 0) (ip4 0 255 255 255) v \<or> between (ip4 169 254 0 0) (ip4 169 254 255 255) v \<or>
     between (ip4 224 0 0 0) (ip4 255 255 255 255) v \<or>
     v = ip4 100 100 100 100 \<or> v = ip4 100 100 100 200 \<or> v = ip4 192 0 0 192"

definition private_v4 :: "nat \<Rightarrow> bool" where
  "private_v4 v \<longleftrightarrow>
     between (ip4 10 0 0 0) (ip4 10 255 255 255) v \<or> between (ip4 100 64 0 0) (ip4 100 127 255 255) v \<or>
     between (ip4 127 0 0 0) (ip4 127 255 255 255) v \<or> between (ip4 172 16 0 0) (ip4 172 31 255 255) v \<or>
     between (ip4 192 0 0 0) (ip4 192 0 0 255) v \<or> between (ip4 192 0 2 0) (ip4 192 0 2 255) v \<or>
     between (ip4 192 88 99 0) (ip4 192 88 99 255) v \<or> between (ip4 192 168 0 0) (ip4 192 168 255 255) v \<or>
     between (ip4 198 18 0 0) (ip4 198 19 255 255) v \<or> between (ip4 198 51 100 0) (ip4 198 51 100 255) v \<or>
     between (ip4 203 0 113 0) (ip4 203 0 113 255) v"

definition in_block :: "nat \<Rightarrow> nat \<Rightarrow> nat \<times> nat \<times> nat \<Rightarrow> bool" where
  "in_block n v = (\<lambda>(len, bits, base). n = len \<and> bits \<le> 8 * len \<and> v div 2 ^ (8 * len - bits) = base div 2 ^ (8 * len - bits))"

lemma within_block: "within bytes r \<longleftrightarrow> in_block (length bytes) (address_value bytes) (block r)"
  by (auto simp: within_iff block_def in_block_def)

lemma div_eq_between:
  fixes m :: nat
  assumes "0 < m"
  shows "v div m = c \<longleftrightarrow> between (c * m) (c * m + (m - 1)) v"
proof
  assume "v div m = c"
  then show "between (c * m) (c * m + (m - 1)) v"
    using div_times_less_eq_dividend [of v m] dividend_less_div_times [OF assms, of v] by (auto simp: between_def)
next
  assume "between (c * m) (c * m + (m - 1)) v"
  then show "v div m = c" using assms by (intro div_nat_eqI) (auto simp: between_def mult.commute)
qed

lemma within_any: "list_ex (within bytes) rs \<longleftrightarrow> list_ex (in_block (length bytes) (address_value bytes)) (map block rs)"
  by (induction rs) (simp_all add: within_block)

lemma find_None_ex: "find p xs = None \<longleftrightarrow> \<not> list_ex p xs"
  by (induction xs) auto

lemma never_v4_iff:
  assumes "length bytes = 4"
  shows "list_ex (within bytes) never_v4 \<longleftrightarrow> unreachable_v4 (address_value bytes)"
proof -
  have b: "address_value bytes < 4294967296" using address_value_bound [of bytes] assms by simp
  show ?thesis unfolding within_any never_v4_blocks unreachable_v4_def using b
    by (simp add: in_block_def assms div_eq_between ip4_def) (auto simp: between_def)
qed

lemma forbidden_v4_iff:
  assumes "length bytes = 4"
  shows "list_ex (within bytes) forbidden_v4 \<longleftrightarrow> private_v4 (address_value bytes)"
  unfolding within_any forbidden_v4_blocks private_v4_def
  by (simp add: in_block_def assms div_eq_between ip4_def)

text \<open>The blocks of IPv6, by their first and last address in groups of sixteen bits.\<close>

definition ip6 :: "nat \<Rightarrow> nat \<Rightarrow> nat \<Rightarrow> nat" where
  "ip6 a b c = (a * 65536 + b) * 65536 ^ 6 + c"

definition low6 :: nat where "low6 = 65536 ^ 6 - 1"

definition unreachable_v6 :: "nat \<Rightarrow> bool" where
  "unreachable_v6 v \<longleftrightarrow>
     v = 0 \<or> between (ip6 0xFF00 0 0) (ip6 0xFFFF 0xFFFF low6) v \<or>
     between (ip6 0xFE80 0 0) (ip6 0xFEBF 0xFFFF low6) v \<or> v = ip6 0xFD00 0x0EC2 0x254"

definition private_v6 :: "nat \<Rightarrow> bool" where
  "private_v6 v \<longleftrightarrow>
     \<not> between (ip6 0x2000 0 0) (ip6 0x3FFF 0xFFFF low6) v \<or>
     between (ip6 0x2001 0 0) (ip6 0x2001 0 low6) v \<or>
     between (ip6 0x2001 2 0) (ip6 0x2001 2 (65536 ^ 5 - 1)) v \<or>
     between (ip6 0x2001 0x10 0) (ip6 0x2001 0x2F low6) v \<or>
     between (ip6 0x2001 0xDB8 0) (ip6 0x2001 0xDB8 low6) v \<or>
     between (ip6 0x2002 0 0) (ip6 0x2002 0xFFFF low6) v \<or>
     between (ip6 0x3FFF 0 0) (ip6 0x3FFF 0x0FFF low6) v"

lemma between_point: "between a a v \<longleftrightarrow> v = a"
  by (auto simp: between_def)

lemma never_v6_iff:
  assumes "length bytes = 16"
  shows "list_ex (within bytes) never_v6 \<longleftrightarrow> unreachable_v6 (address_value bytes)"
  unfolding within_any never_v6_blocks unreachable_v6_def
  by (simp add: in_block_def assms div_eq_between between_point ip6_def low6_def)

lemma forbidden_v6_iff:
  assumes "length bytes = 16"
  shows "\<not> within bytes global_v6 \<or> list_ex (within bytes) forbidden_v6 \<longleftrightarrow> private_v6 (address_value bytes)"
proof -
  have g: "block global_v6 = (16, 3, 0x2000 * 2 ^ 112)" using other_v6_blocks by simp
  show ?thesis unfolding within_any forbidden_v6_blocks private_v6_def within_block g
    by (simp add: in_block_def assms div_eq_between ip6_def low6_def) (auto simp: between_def)
qed

definition never_address :: "octet list \<Rightarrow> bool" where
  "never_address bytes =
     (if length bytes = 4 then unreachable_v4 (address_value bytes) else unreachable_v6 (address_value bytes))"

definition local_address :: "octet list \<Rightarrow> bool" where
  "local_address bytes =
     (if length bytes = 4 then private_v4 (address_value bytes) else private_v6 (address_value bytes))"

lemma soft_deny_iff:
  assumes "length bytes \<in> {4, 16}"
  shows "soft_deny bytes = None \<longleftrightarrow> \<not> local_address bytes"
proof (cases "length bytes = 4")
  case True
  then show ?thesis by (simp add: soft_deny_def local_address_def find_None_ex forbidden_v4_iff)
next
  case False
  then have "length bytes = 16" using assms by simp
  from forbidden_v6_iff [OF this] show ?thesis
    using False by (auto simp: soft_deny_def local_address_def find_None_ex split: option.split)
qed

lemma normalised_length: "length bytes \<in> {4, 16} \<Longrightarrow> length (normalised bytes) \<in> {4, 16}"
  by (auto simp: normalised_def)

definition names_address :: "egress_policy \<Rightarrow> bool \<Rightarrow> octet list \<Rightarrow> bool" where
  "names_address policy hostAllowed bytes \<longleftrightarrow> hostAllowed \<or> list_ex (within bytes) (ep_allowedAddresses policy)"

lemma verify_octets_iff:
  assumes "length bytes \<in> {4, 16}"
  shows "verify_octets bytes policy hostAllowed = AddressAllowed named \<longleftrightarrow>
    \<not> never_address (normalised bytes) \<and>
    named = names_address policy hostAllowed (normalised bytes) \<and> (\<not> local_address (normalised bytes) \<or> named)"
proof -
  let ?b = "normalised bytes"
  have len: "length ?b \<in> {4, 16}" by (rule normalised_length [OF assms])
  have never: "find (within ?b) (if length ?b = 4 then never_v4 else never_v6) = None \<longleftrightarrow> \<not> never_address ?b"
    using len never_v4_iff [of ?b] never_v6_iff [of ?b] by (auto simp: find_None_ex never_address_def)
  show ?thesis
  proof (cases "find (within ?b) (if length ?b = 4 then never_v4 else never_v6)")
    case None
    then show ?thesis
      using never soft_deny_iff [OF len]
      by (cases "soft_deny ?b") (auto simp: verify_octets_def Let_def names_address_def)
  next
    case (Some r)
    then show ?thesis using never by (simp add: verify_octets_def Let_def)
  qed
qed

subsection \<open>Reading is total on what \<open>isIP\<close> accepts\<close>

lemma parse_v4_parts_ok: "list_all v4_part parts \<Longrightarrow> \<exists>bs. parse_v4_parts parts = Some bs \<and> length bs = length parts"
  by (induction parts) (auto simp: v4_part_def)

lemma parse_v4_parts_length: "parse_v4_parts parts = Some bs \<Longrightarrow> length bs = length parts"
  by (induction parts arbitrary: bs) (auto simp: Let_def split: if_splits)

lemma parse_v4_length: "parse_v4 a = Some bs \<Longrightarrow> length bs = 4"
  by (auto simp: parse_v4_def Let_def dest: parse_v4_parts_length split: if_splits)

lemma parse_v4_ok: "is_ipv4 a \<Longrightarrow> \<exists>bs. parse_v4 a = Some bs"
  using parse_v4_parts_ok [of "split_on (CHR ''.'') a"] by (auto simp: is_ipv4_def parse_v4_def)

lemma octets_of_length [simp]: "length (octets_of gs) = 2 * length gs"
  by (induction gs) (simp_all add: octets_of_def)

lemma parse_v6_length: "parse_v6 a = Some bs \<Longrightarrow> length bs = 16"
  by (auto simp: parse_v6_def v6_groups_def split: list.splits option.splits if_splits)

lemma parse_address_length: "parse_address a = Some bs \<Longrightarrow> length bs \<in> {4, 16}"
  by (auto simp: parse_address_def Let_def dest: parse_v4_length parse_v6_length split: if_splits)

lemma is_hextet_no_dot: "is_hextet g \<Longrightarrow> CHR ''.'' \<notin> set g"
  by (auto simp: is_hextet_def list_all_iff is_hex_def is_digit_def)

lemma split_on_absent: "c \<notin> set s \<Longrightarrow> split_on c s = [s]"
  by (induction s) auto

lemma is_ipv4_dot: "is_ipv4 g \<Longrightarrow> CHR ''.'' \<in> set g"
  using split_on_absent [of "CHR ''.''" g] by (cases "CHR ''.'' \<in> set g") (auto simp: is_ipv4_def)

lemma hextet_groups_ok:
  "v6_part_groups gs = Some n \<Longrightarrow> \<exists>hs. hextet_groups gs = Some hs \<and> length hs = n"
proof (induction gs arbitrary: n rule: v6_part_groups.induct)
  case 1
  then show ?case by simp
next
  case (2 g)
  show ?case
  proof (cases "is_hextet g")
    case True
    then show ?thesis using 2 is_hextet_no_dot [OF True] by auto
  next
    case False
    then have v4: "is_ipv4 g" "n = 2" using 2 by (auto split: if_splits)
    then obtain bs where bs: "parse_v4 g = Some bs" using parse_v4_ok by blast
    then obtain a b c d where "bs = [a, b, c, d]"
      using parse_v4_length [OF bs] by (auto simp: length_Suc_conv numeral_eq_Suc)
    then show ?thesis using v4 bs is_ipv4_dot by simp
  qed
next
  case (3 g h gs)
  then show ?case by (fastforce split: if_splits)
qed

lemma hextets_of_ok: "v6_half s = Some n \<Longrightarrow> \<exists>hs. hextets_of s = Some hs \<and> length hs = n"
  using hextet_groups_ok by (auto simp: v6_half_def hextets_of_def split: if_splits)

lemma one_or_two:
  "(case xs of [Some n] \<Rightarrow> P n | [Some n, Some m] \<Rightarrow> Q n m | _ \<Rightarrow> False) \<Longrightarrow>
    (\<exists>n. xs = [Some n] \<and> P n) \<or> (\<exists>n m. xs = [Some n, Some m] \<and> Q n m)"
  by (cases xs; cases "hd xs"; cases "tl xs"; cases "hd (tl xs)"; cases "tl (tl xs)") auto

lemma before_absent: "c \<notin> set s \<Longrightarrow> takeWhile (\<lambda>x. x \<noteq> c) s = s" "c \<notin> set s \<Longrightarrow> dropWhile (\<lambda>x. x \<noteq> c) s = []"
  by (induction s) auto

lemma parse_address_iff: "parse_address a \<noteq> None \<longleftrightarrow> is_ip a \<noteq> 0 \<and> (is_ip a = 4 \<or> CHR ''%'' \<notin> set a)"
proof (cases "is_ipv4 a")
  case True
  then show ?thesis using parse_v4_ok [OF True] by (auto simp: parse_address_def is_ip_def)
next
  case False
  note v4 = this
  show ?thesis
  proof (cases "CHR ''%'' \<in> set a")
    case True
    then show ?thesis using v4 by (simp add: parse_address_def is_ip_def parse_v6_def)
  next
    case False
    have t: "takeWhile (\<lambda>c. c \<noteq> CHR ''%'') a = a" by (rule before_absent(1) [OF False])
    have "parse_v6 a \<noteq> None" if v6: "is_ipv6 a"
    proof -
      have "case map v6_half (split_double_colon a) of [Some n] \<Rightarrow> n = 8 | [Some n, Some m] \<Rightarrow> n + m < 8 | _ \<Rightarrow> False"
        using v6 unfolding is_ipv6_def Let_def t by (rule conjunct2)
      from one_or_two [OF this] consider n where "map v6_half (split_double_colon a) = [Some n]" "n = 8"
        | n m where "map v6_half (split_double_colon a) = [Some n, Some m]" "n + m < 8"
        by metis
      then show ?thesis
      proof cases
        case 1
        then obtain s where s: "split_double_colon a = [s]" "v6_half s = Some n" by auto
        obtain hs where "hextets_of s = Some hs" "length hs = n" using hextets_of_ok [OF s(2)] by blast
        then show ?thesis using 1 s False by (simp add: parse_v6_def v6_groups_def)
      next
        case 2
        then obtain s u where s: "split_double_colon a = [s, u]" "v6_half s = Some n" "v6_half u = Some m" by auto
        obtain hs where "hextets_of s = Some hs" "length hs = n" using hextets_of_ok [OF s(2)] by blast
        moreover obtain us where "hextets_of u = Some us" "length us = m" using hextets_of_ok [OF s(3)] by blast
        ultimately show ?thesis using 2 s False by (simp add: parse_v6_def v6_groups_def)
      qed
    qed
    then show ?thesis using v4 False by (simp add: parse_address_def is_ip_def)
  qed
qed

subsection \<open>An IPv4 address written as an IPv6 one\<close>

lemma join_octets_split:
  "ucast (drop_bit 8 (join_octets a b)) = a" "ucast (join_octets a b) = b"
  by (auto simp: join_octets_def bit_eq_iff bit_simps dest: bit_imp_le_length)

lemma octets_of_joined: "octets_of [join_octets a b, join_octets c d] = [a, b, c, d]"
  by (simp add: octets_of_def join_octets_split)

lemma octets_of_append [simp]: "octets_of (xs @ ys) = octets_of xs @ octets_of ys"
  by (simp add: octets_of_def)

lemma is_ipv4_chars: "is_ipv4 s \<Longrightarrow> x \<in> set s \<Longrightarrow> is_digit x \<or> x = CHR ''.''"
proof -
  assume v4: "is_ipv4 s" and x: "x \<in> set s"
  have "x \<in> set [CHR ''.''] \<union> (\<Union>p \<in> set (split_on (CHR ''.'') s). set p)"
    using x subsetD [OF set_join_with [of "[CHR ''.'']" "split_on (CHR ''.'') s"]] by (metis join_split)
  then show ?thesis using v4 by (auto simp: is_ipv4_def v4_part_def short_number_def list_all_iff)
qed

lemma split_double_colon_absent: "CHR '':'' \<notin> set s \<Longrightarrow> split_double_colon s = [s]"
  by (induction s rule: split_double_colon.induct) auto

lemma mapped_text:
  assumes "is_ipv4 s"
  shows "is_ip (''::ffff:'' @ s) = 6 \<and>
    parse_v6 (''::ffff:'' @ s) = map_option (\<lambda>bs. replicate 10 0 @ [255, 255] @ bs) (parse_v4 s)"
proof -
  have c: "CHR '':'' \<notin> set s" "CHR ''%'' \<notin> set s"
    using is_ipv4_chars [OF assms, of "CHR '':''"] is_ipv4_chars [OF assms, of "CHR ''%''"]
    by (auto simp: is_digit_def)
  have dot: "CHR ''.'' \<in> set s" by (rule is_ipv4_dot [OF assms])
  have ne: "s \<noteq> []" using dot by auto
  obtain x t where s: "s = x # t" using ne by (cases s) auto
  have d2: "split_double_colon (''::ffff:'' @ s) = [[], ''ffff:'' @ s]"
  proof -
    have "split_double_colon (CHR '':'' # s) = [CHR '':'' # s]"
      using c(1) split_double_colon_absent [OF c(1)] by (auto simp: s)
    then show ?thesis by (simp add: s)
  qed
  have g: "split_on (CHR '':'') (''ffff:'' @ s) = [''ffff'', s]"
    using split_on_absent [OF c(1)] by simp
  have hx: "is_hextet ''ffff''" "hex_number ''ffff'' = 65535" by (simp_all add: reading)
  have nh: "\<not> is_hextet s" using is_hextet_no_dot [of s] dot by blast
  obtain bs where bs: "parse_v4 s = Some bs" using parse_v4_ok [OF assms] by blast
  then obtain a b e f where bs4: "bs = [a, b, e, f]"
    using parse_v4_length [OF bs] by (auto simp: length_Suc_conv numeral_eq_Suc)
  have h: "hextets_of (''ffff:'' @ s) = Some [65535, join_octets a b, join_octets e f]"
    unfolding hextets_of_def g using dot bs bs4 hx by simp
  have p: "parse_v6 (''::ffff:'' @ s) = Some (octets_of (replicate 5 0 @ [65535, join_octets a b, join_octets e f]))"
    unfolding parse_v6_def d2 using c h by (simp add: hextets_of_def v6_groups_def)
  have o: "octets_of (replicate 5 0 @ [65535, join_octets a b, join_octets e f]) = replicate 10 0 @ [255, 255] @ bs"
    using octets_of_joined [of a b e f] bs4 by (simp add: octets_of_def reading)
  have four: "\<not> is_ipv4 (''::ffff:'' @ s)"
    using is_ipv4_chars [of "''::ffff:'' @ s" "CHR '':''"] by (auto simp: is_digit_def)
  have t: "takeWhile (\<lambda>y. y \<noteq> CHR ''%'') (''::ffff:'' @ s) = ''::ffff:'' @ s"
    "dropWhile (\<lambda>y. y \<noteq> CHR ''%'') (''::ffff:'' @ s) = []"
    using c(2) by (simp_all add: before_absent del: dropWhile_eq_Nil_conv)
  have "is_ipv6 (''::ffff:'' @ s)"
    unfolding is_ipv6_def t d2 Let_def using g hx nh assms by (simp add: v6_half_def)
  then show ?thesis using four p o bs by (simp add: is_ip_def)
qed

lemma normalised_mapped:
  assumes "length bs = 4"
  shows "normalised (replicate 10 0 @ [255, 255] @ bs) = bs" and "normalised bs = bs"
proof -
  have v: "address_value (replicate 10 0 @ [255, 255] @ bs) = 0xFFFF * 2 ^ 32 + address_value bs"
    using assms by (simp add: reading)
  have b: "address_value bs < 2 ^ 32" using address_value_bound [of bs] assms by simp
  have m: "block mapped_v4 = (16, 96, 0xFFFF * 2 ^ 32)" using other_v6_blocks by simp
  have "within (replicate 10 0 @ [255, 255] @ bs) mapped_v4"
    unfolding within_block m v using assms b by (simp add: in_block_def)
  then show "normalised (replicate 10 0 @ [255, 255] @ bs) = bs" using assms by (simp add: normalised_def)
  show "normalised bs = bs" using assms by (simp add: normalised_def)
qed

lemma verify_mapped:
  assumes "is_ipv4 s"
  shows "verify_address (''::ffff:'' @ s) policy hostAllowed = verify_address s policy hostAllowed"
proof -
  obtain bs where bs: "parse_v4 s = Some bs" using parse_v4_ok [OF assms] by blast
  have len: "length bs = 4" by (rule parse_v4_length [OF bs])
  have "parse_address (''::ffff:'' @ s) = Some (replicate 10 0 @ [255, 255] @ bs)"
    using mapped_text [OF assms] bs by (simp add: parse_address_def)
  moreover have "parse_address s = Some bs" using assms bs by (simp add: parse_address_def is_ip_def)
  ultimately show ?thesis
    using normalised_mapped [OF len] by (simp add: verify_address_def verify_octets_def)
qed

subsection \<open>URLs and settings\<close>

lemma verify_destination_url_allowed:
  assumes "verify_destination_url parse_url raw policy = UrlAllowed hostname"
  shows "\<exists>parts. parse_url raw = Some parts \<and> hostname = up_hostname parts \<and>
    up_protocol parts \<in> {''https:'', ''http:''} \<and> up_username parts = [] \<and> up_password parts = [] \<and>
    up_hash parts = [] \<and> bare_hostname hostname \<noteq> [] \<and>
    (is_ip (bare_hostname hostname) \<noteq> 0 \<longrightarrow>
      (\<exists>named. verify_address (bare_hostname hostname) policy (host_is_allowed (bare_hostname hostname) policy) =
         AddressAllowed named)) \<and>
    (up_protocol parts = ''http:'' \<longrightarrow> ep_allowHttp policy)"
  using assms
  by (auto simp: verify_destination_url_def Let_def split: option.splits if_splits address_verdict.splits)

lemma allowances_of_Inr:
  "(\<exists>as. allowances_of entries = Inr as) \<longleftrightarrow> list_all (\<lambda>entry. allowance_of entry \<noteq> None) entries"
  by (induction entries) (auto simp: rbind_Inr split: option.splits)

lemma egress_policy_Inr:
  "(\<exists>policy. egress_policy_of settings = Inr policy) \<longleftrightarrow> reads_as_address_list (es_allowedAddresses settings)"
  unfolding reads_as_address_list_def allowances_of_Inr [symmetric]
  by (auto simp: egress_policy_of_def rbind_Inr)

end
