(* ===== verification/Pinned.thy ===== *)
theory Pinned
  imports NotificationStore Egress
begin

text \<open>
  \<open>packages/core/src/notification/pinned.ts\<close> and \<open>provider-url.ts\<close>: looking a destination up once,
  verifying every address it has, and connecting to those addresses only.

  The lookup, the HTTP client and the race with the deadline are parameters. \<open>race\<close> is
  \<open>Promise.race\<close> of the work with the deadline: it gives what the work gives, or throws.
\<close>

section \<open>Pinning\<close>

record pinned_address =
  pa_address :: string
  pa_family :: nat
  pa_named :: bool

datatype pin_verdict = PinOk "pinned_address list" | PinRefused string

definition no_answer :: string where "no_answer = ''that address could not be looked up''"
definition pin_too_slow :: string where "pin_too_slow = ''the delivery took too long''"

fun pin_answers :: "(string \<times> nat) list \<Rightarrow> egress_policy \<Rightarrow> bool \<Rightarrow> pinned_address list \<Rightarrow> pin_verdict" where
  "pin_answers [] policy hostAllowed pinned = PinOk pinned"
| "pin_answers (answer # answers) policy hostAllowed pinned =
     (let family = is_ip (fst answer) in
      if family = 0 then PinRefused no_answer
      else (case verify_address (fst answer) policy hostAllowed of
         AddressRefused reason _ \<Rightarrow> PinRefused reason
       | AddressAllowed named \<Rightarrow>
           pin_answers answers policy hostAllowed
             (pinned @ [\<lparr>pa_address = fst answer, pa_family = (if family = 4 then 4 else 6), pa_named = named\<rparr>])))"

definition resolve_pinned ::
    "(string \<Rightarrow> ('w, (string \<times> nat) list) io) \<Rightarrow> string \<Rightarrow> egress_policy \<Rightarrow> 'w \<Rightarrow> pin_verdict \<times> 'w" where
  "resolve_pinned lookup hostname policy w =
     (let hostAllowed = host_is_allowed hostname policy; literal = is_ip hostname in
      if literal \<noteq> 0 then
        ((case verify_address hostname policy hostAllowed of
            AddressRefused reason _ \<Rightarrow> PinRefused reason
          | AddressAllowed named \<Rightarrow>
              PinOk [\<lparr>pa_address = hostname, pa_family = (if literal = 4 then 4 else 6), pa_named = named\<rparr>]), w)
      else
        (case lookup hostname w of
           (Inl _, w') \<Rightarrow> (PinRefused no_answer, w')
         | (Inr answers, w') \<Rightarrow>
             if length answers = 0 then (PinRefused no_answer, w')
             else (pin_answers answers policy hostAllowed [], w')))"

section \<open>The lookup the connection is given\<close>

datatype asked_family = AnyFamily | FamilyNumber nat | FamilyName string

definition wanted_family :: "asked_family \<Rightarrow> nat option" where
  "wanted_family f =
     (if f = FamilyNumber 4 \<or> f = FamilyName ''IPv4'' then Some 4
      else if f = FamilyNumber 6 \<or> f = FamilyName ''IPv6'' then Some 6 else None)"

text \<open>What the callback is called with: the addresses with their families, all or the first.\<close>

definition pinned_lookup ::
    "pinned_address list \<Rightarrow> asked_family \<Rightarrow> bool \<Rightarrow> thrown + (string \<times> nat) list" where
  "pinned_lookup addresses family allAddresses =
     (let chosen = (case wanted_family family of
                      None \<Rightarrow> addresses
                    | Some wanted \<Rightarrow> filter (\<lambda>entry. pa_family entry = wanted) addresses)
      in case chosen of
           [] \<Rightarrow> Inl (internal_error no_answer)
         | first # _ \<Rightarrow>
             if allAddresses then Inr (map (\<lambda>entry. (pa_address entry, pa_family entry)) chosen)
             else Inr [(pa_address first, pa_family first)])"

section \<open>Sending\<close>

text \<open>Header values and the body are code points: titles are cut with an ellipsis.\<close>

record pinned_request =
  pq_url :: string
  pq_method :: string
  pq_headers :: "(string \<times> nat list) list"
  pq_body :: "nat list option"
  pq_timeoutMs :: "int option"
  pq_maxResponseBytes :: "int option"
  pq_policy :: "egress_policy option"

record http_response =
  hr_status :: int
  hr_headers :: "(string \<times> string) list"
  hr_body :: string

datatype pinned_result = PinnedSent http_response | PinnedNotSent string

definition delivery_timeout_ms :: int where "delivery_timeout_ms = 20000"
definition delivery_max_response_bytes :: int where "delivery_max_response_bytes = 64 * 1024"

type_synonym 'w http_client = "(asked_family \<Rightarrow> bool \<Rightarrow> thrown + (string \<times> nat) list) \<Rightarrow> int \<Rightarrow> int \<Rightarrow> pinned_request \<Rightarrow> ('w, http_response) io"

definition pin_io ::
    "(string \<Rightarrow> ('w, (string \<times> nat) list) io) \<Rightarrow> string \<Rightarrow> egress_policy \<Rightarrow> ('w, pin_verdict) io" where
  "pin_io lookup hostname policy w = (let (v, w') = resolve_pinned lookup hostname policy w in (Inr v, w'))"

text \<open>The request over an agent whose lookup is the pinned one, destroyed when it is done.\<close>

definition send_over ::
    "(string \<Rightarrow> url_parts option) \<Rightarrow> 'w http_client \<Rightarrow> pinned_request \<Rightarrow> pinned_address list \<Rightarrow> int
      \<Rightarrow> ('w, pinned_result) io" where
  "send_over parse_url client request addresses timeoutMs w =
     (case parse_url (pq_url request) of
        None \<Rightarrow> (Inl (Thrown ''TypeError'' ''Invalid URL''), w)
      | Some parsed \<Rightarrow>
          if up_protocol parsed = ''http:'' \<and> \<not> list_all pa_named addresses then
            (Inr (PinnedNotSent ''the address must start with https''), w)
          else
            (case client (pinned_lookup addresses) timeoutMs
                    (case pq_maxResponseBytes request of None \<Rightarrow> delivery_max_response_bytes | Some m \<Rightarrow> m)
                    request w of
               (Inl e, w2) \<Rightarrow> (Inl e, w2)
             | (Inr response, w2) \<Rightarrow> (Inr (PinnedSent response), w2)))"

definition send_pinned ::
    "(string \<Rightarrow> url_parts option) \<Rightarrow> (('w, pin_verdict) io \<Rightarrow> ('w, pin_verdict) io)
      \<Rightarrow> (string \<Rightarrow> ('w, (string \<times> nat) list) io) \<Rightarrow> 'w http_client \<Rightarrow> pinned_request \<Rightarrow> ('w, pinned_result) io" where
  "send_pinned parse_url race lookup client request w =
     (let policy = (case pq_policy request of None \<Rightarrow> public_only | Some p \<Rightarrow> p);
          timeoutMs = (case pq_timeoutMs request of None \<Rightarrow> delivery_timeout_ms | Some t \<Rightarrow> t)
      in case verify_destination_url parse_url (pq_url request) policy of
           UrlRefused reason _ \<Rightarrow> (Inr (PinnedNotSent reason), w)
         | UrlAllowed hostname \<Rightarrow>
             (case race (pin_io lookup (bare_hostname hostname) policy) w of
                (Inl e, w1) \<Rightarrow> (Inl e, w1)
              | (Inr (PinRefused reason), w1) \<Rightarrow> (Inr (PinnedNotSent reason), w1)
              | (Inr (PinOk addresses), w1) \<Rightarrow> send_over parse_url client request addresses timeoutMs w1))"

section \<open>Providers' addresses\<close>

datatype provider_verdict = ProviderAllowed | ProviderRefused string rejection_category

definition teams_host_suffix :: string where "teams_host_suffix = ''environment.api.powerplatform.com''"
definition discord_hosts :: "string list" where "discord_hosts = [''discord.com'', ''discordapp.com'']"
definition slack_host :: string where "slack_host = ''hooks.slack.com''"
definition retired_teams_hosts :: "string list" where
  "retired_teams_hosts = [''webhook.office.com'', ''logic.azure.com'']"

definition matches_host :: "string \<Rightarrow> string \<Rightarrow> bool" where
  "matches_host hostname candidate \<longleftrightarrow> hostname = candidate \<or> ends_with hostname (CHR ''.'' # candidate)"

text \<open>\<open>signature\<close> is what \<open>searchParams.get("sig")\<close> gives of the URL.\<close>

definition verify_provider_url ::
    "(string \<Rightarrow> url_parts option) \<Rightarrow> (string \<Rightarrow> string option) \<Rightarrow> destination_kind \<Rightarrow> string \<Rightarrow> string list
      \<Rightarrow> provider_verdict" where
  "verify_provider_url parse_url signature kind raw extraTeamsHosts =
     (if kind = WebhookKind \<or> kind = TelegramKind \<or> kind = ResendKind \<or> kind = EmailKind then ProviderAllowed
      else (case parse_url raw of
         None \<Rightarrow> ProviderRefused ''that does not look like a web address'' RejUnreadable
       | Some parsed \<Rightarrow>
           (let hostname = lower (bare_hostname (up_hostname parsed)) in
            if kind = DiscordKind then
              (if list_ex (matches_host hostname) discord_hosts then ProviderAllowed
               else ProviderRefused ''that is not a Discord webhook address'' RejHost)
            else if kind = SlackKind then
              (if hostname = slack_host then ProviderAllowed
               else ProviderRefused ''that is not a Slack webhook address'' RejHost)
            else if kind = TeamsKind then
              (if list_ex (matches_host hostname) retired_teams_hosts then
                 ProviderRefused ''that kind of Teams address no longer works'' RejRetired
               else if \<not> list_ex (matches_host hostname) (teams_host_suffix # extraTeamsHosts) then
                 ProviderRefused ''that is not a Teams workflow address'' RejHost
               else (case signature raw of
                  Some s \<Rightarrow> if 0 < length s then ProviderAllowed
                            else ProviderRefused ''that workflow requires someone to sign in'' RejSignin
                | None \<Rightarrow> ProviderRefused ''that workflow requires someone to sign in'' RejSignin))
            else if 0 < length (up_search parsed) then
              ProviderRefused ''a server address cannot carry anything after a question mark'' RejParameters
            else ProviderAllowed)))"

section \<open>Lemmas\<close>

definition verified :: "egress_policy \<Rightarrow> bool \<Rightarrow> pinned_address \<Rightarrow> bool" where
  "verified policy hostAllowed a \<longleftrightarrow> verify_address (pa_address a) policy hostAllowed = AddressAllowed (pa_named a)"

lemma pin_answers_verified:
  "pin_answers answers policy hostAllowed pinned = PinOk addresses \<Longrightarrow>
     list_all (verified policy hostAllowed) pinned \<Longrightarrow>
     list_all (verified policy hostAllowed) addresses \<and>
     map pa_address addresses = map pa_address pinned @ map fst answers"
proof (induction answers arbitrary: pinned)
  case Nil
  then show ?case by simp
next
  case (Cons answer answers)
  obtain named where v: "verify_address (fst answer) policy hostAllowed = AddressAllowed named"
    and f: "is_ip (fst answer) \<noteq> 0"
    using Cons.prems(1) by (auto simp: Let_def split: if_splits address_verdict.splits)
  show ?case
    using Cons.prems v f
      Cons.IH [of "pinned @ [\<lparr>pa_address = fst answer, pa_family = (if is_ip (fst answer) = 4 then 4 else 6), pa_named = named\<rparr>]"]
    by (simp add: verified_def Let_def)
qed

lemma resolve_pinned_verified:
  "fst (resolve_pinned lookup hostname policy w) = PinOk addresses \<Longrightarrow>
     addresses \<noteq> [] \<and> list_all (verified policy (host_is_allowed hostname policy)) addresses"
  by (auto simp: resolve_pinned_def Let_def verified_def split: if_splits address_verdict.splits prod.splits sum.splits
      dest!: pin_answers_verified)

text \<open>The connection is given pinned addresses only.\<close>

lemma pinned_lookup_subset:
  assumes l: "pinned_lookup addresses family allAddresses = Inr found"
  shows "found \<noteq> [] \<and> set (map fst found) \<subseteq> set (map pa_address addresses)"
proof -
  define chosen where "chosen = (case wanted_family family of
      None \<Rightarrow> addresses | Some wanted \<Rightarrow> filter (\<lambda>entry. pa_family entry = wanted) addresses)"
  have sub: "set chosen \<subseteq> set addresses" by (auto simp: chosen_def split: option.splits)
  have "found \<noteq> [] \<and> set (map fst found) \<subseteq> pa_address ` set chosen"
    using l by (auto simp: pinned_lookup_def chosen_def [symmetric] Let_def
        split: list.splits if_splits)
  moreover have "pa_address ` set chosen \<subseteq> set (map pa_address addresses)"
    using sub by (simp add: image_mono)
  ultimately show ?thesis by blast
qed

definition keeps_to :: "(('w, 'a) io \<Rightarrow> ('w, 'a) io) \<Rightarrow> bool" where
  "keeps_to race \<longleftrightarrow> (\<forall>m w x w'. race m w = (Inr x, w') \<longrightarrow> fst (m w) = Inr x)"

text \<open>
  A request that was sent went to a URL that passed, over a lookup that knows only addresses that
  passed, and in the clear only where every one of them was named.
\<close>

lemma send_pinned_sent:
  assumes sent: "send_pinned parse_url race lookup client request w = (Inr (PinnedSent response), w')"
    and race: "keeps_to race" and policy: "policy = (case pq_policy request of None \<Rightarrow> public_only | Some p \<Rightarrow> p)"
  shows "\<exists>hostname addresses t m w1 parts.
     verify_destination_url parse_url (pq_url request) policy = UrlAllowed hostname \<and> addresses \<noteq> [] \<and>
     list_all (verified policy (host_is_allowed (bare_hostname hostname) policy)) addresses \<and>
     client (pinned_lookup addresses) t m request w1 = (Inr response, w') \<and>
     parse_url (pq_url request) = Some parts \<and> (up_protocol parts \<noteq> ''http:'' \<or> list_all pa_named addresses)"
proof -
  let ?t = "case pq_timeoutMs request of None \<Rightarrow> delivery_timeout_ms | Some t \<Rightarrow> t"
  obtain hostname where h: "verify_destination_url parse_url (pq_url request) policy = UrlAllowed hostname"
    using sent by (cases "verify_destination_url parse_url (pq_url request) policy")
      (auto simp: send_pinned_def Let_def policy [symmetric])
  let ?pin = "pin_io lookup (bare_hostname hostname) policy"
  obtain x w1 where x: "race ?pin w = (x, w1)" by fastforce
  obtain addresses where r: "x = Inr (PinOk addresses)"
    and over: "send_over parse_url client request addresses ?t w1 = (Inr (PinnedSent response), w')"
    using sent h x by (auto simp: send_pinned_def Let_def policy [symmetric] split: sum.splits pin_verdict.splits)
  have "fst (?pin w) = Inr (PinOk addresses)" using race x r unfolding keeps_to_def by blast
  then have "fst (resolve_pinned lookup (bare_hostname hostname) policy w) = PinOk addresses"
    by (simp add: pin_io_def case_prod_beta Let_def)
  from resolve_pinned_verified [OF this] have ok: "addresses \<noteq> []"
    "list_all (verified policy (host_is_allowed (bare_hostname hostname) policy)) addresses" by auto
  obtain parts where p: "parse_url (pq_url request) = Some parts"
    "up_protocol parts \<noteq> ''http:'' \<or> list_all pa_named addresses"
    using over by (auto simp: send_over_def split: option.splits if_splits)
  have "\<exists>m. client (pinned_lookup addresses) ?t m request w1 = (Inr response, w')"
    using over p by (auto simp: send_over_def split: prod.splits sum.splits if_splits)
  then show ?thesis using h ok p by blast
qed

end
