(* ===== verification/Smtp.thy ===== *)
theory Smtp
  imports MailText Failure Pinned
begin

text \<open>
  Sending mail: \<open>packages/core/src/notification/smtp.client.ts\<close>, \<open>smtp.connect.ts\<close> and
  \<open>smtp.sender.ts\<close>.

  The network is a parameter: what a write, a connect and a TLS handshake give, and the events a
  socket emits. An event that comes while a write is awaited comes with that write; one that comes
  while a reply is awaited is the next event. Waiting for a reply is a \<open>partial_function\<close>: a server
  that goes on sending what is not a reply keeps it waiting, which is the value \<open>None\<close>.
\<close>

section \<open>Connections\<close>

definition implicit_tls_port :: int where "implicit_tls_port = 465"

definition needs_start_tls :: "int \<Rightarrow> bool" where
  "needs_start_tls port \<longleftrightarrow> port \<noteq> implicit_tls_port"

datatype secure_options = ByServername string | ByHost string

definition secure_options :: "string \<Rightarrow> secure_options" where
  "secure_options hostname = (if is_ip hostname = 0 then ByServername hostname else ByHost hostname)"

section \<open>Lines, and what is on record\<close>

datatype smtp_line =
    Ehlo string | StartTls | AuthPlain string string | AuthLogin | Encoded string
  | MailFrom string | RcptTo string | DataLine | Body smtp_message | Quit

definition encoded :: "nat list \<Rightarrow> string" where
  "encoded v = base64 (utf8_bytes v)"

definition plain_credential :: "string \<Rightarrow> string \<Rightarrow> string" where
  "plain_credential username password = encoded (0 # points_of username @ 0 # points_of password)"


fun line_text :: "smtp_line \<Rightarrow> string" where
  "line_text (Ehlo name) = ''EHLO '' @ name @ crlf"
| "line_text StartTls = ''STARTTLS'' @ crlf"
| "line_text (AuthPlain username password) = ''AUTH PLAIN '' @ plain_credential username password @ crlf"
| "line_text AuthLogin = ''AUTH LOGIN'' @ crlf"
| "line_text (Encoded v) = encoded (points_of v) @ crlf"
| "line_text (MailFrom from_address) = ''MAIL FROM:<'' @ from_address @ ''>'' @ crlf"
| "line_text (RcptTo recipient) = ''RCPT TO:<'' @ recipient @ ''>'' @ crlf"
| "line_text DataLine = ''DATA'' @ crlf"
| "line_text (Body m) = message_bytes m @ crlf @ ''.'' @ crlf"
| "line_text Quit = ''QUIT'' @ crlf"

text \<open>
  What a conversation did, in order: \<open>Wrote secure line\<close> records whether the socket was TLS. The
  record is ours, the code keeps none.
\<close>

datatype smtp_act = Opened string int | Wrote bool smtp_line | Heard nat | Upgraded | Destroyed

datatype socket_event = Arrived string | Broke thrown | Ended

record 'n smtp_net =
  nw_open :: "string \<Rightarrow> int \<Rightarrow> int \<Rightarrow> 'n \<Rightarrow> (thrown + unit) \<times> 'n"
  nw_secure :: "secure_options \<Rightarrow> int \<Rightarrow> 'n \<Rightarrow> (thrown + unit) \<times> 'n"
  nw_write :: "string \<Rightarrow> 'n \<Rightarrow> (thrown + unit) \<times> socket_event list \<times> 'n"
  nw_next :: "'n \<Rightarrow> socket_event \<times> 'n"

record 'n talk =
  tk_net :: 'n
  tk_buffer :: string
  tk_failure :: "thrown option"
  tk_secure :: bool
  tk_dataWritten :: bool
  tk_acts :: "smtp_act list"

type_synonym ('n, 'a) talking = "'n talk \<Rightarrow> ((thrown + 'a) \<times> 'n talk) option"

definition treturn :: "'a \<Rightarrow> ('n, 'a) talking" where
  "treturn x t = Some (Inr x, t)"

definition tbind :: "('n, 'a) talking \<Rightarrow> ('a \<Rightarrow> ('n, 'b) talking) \<Rightarrow> ('n, 'b) talking" where
  "tbind m f t =
     (case m t of None \<Rightarrow> None | Some (Inl e, t') \<Rightarrow> Some (Inl e, t') | Some (Inr x, t') \<Rightarrow> f x t')"

definition act :: "smtp_act \<Rightarrow> 'n talk \<Rightarrow> 'n talk" where
  "act a t = t\<lparr>tk_acts := tk_acts t @ [a]\<rparr>"

section \<open>The reader\<close>

definition smtp_closed :: string where "smtp_closed = ''That mail server smtp_closed the connection''"

fun on_event :: "socket_event \<Rightarrow> 'n talk \<Rightarrow> 'n talk" where
  "on_event (Arrived chunk) t = t\<lparr>tk_buffer := tk_buffer t @ chunk\<rparr>"
| "on_event (Broke e) t = t\<lparr>tk_failure := Some e\<rparr>"
| "on_event Ended t = t\<lparr>tk_failure := Some (internal_error smtp_closed)\<rparr>"

definition create_reader :: "'n talk \<Rightarrow> 'n talk" where
  "create_reader t = t\<lparr>tk_buffer := [], tk_failure := None\<rparr>"

partial_function (option) await_reply :: "('n \<Rightarrow> socket_event \<times> 'n) \<Rightarrow> 'n talk \<Rightarrow> ((thrown + smtp_reply) \<times> 'n talk) option" where
  "await_reply next_event t =
     (case read_reply (tk_buffer t) of
        Some (reply, rest) \<Rightarrow> Some (Inr reply, act (Heard (sr_code reply)) (t\<lparr>tk_buffer := rest\<rparr>))
      | None \<Rightarrow>
          (let (event, n) = next_event (tk_net t); t' = on_event event (t\<lparr>tk_net := n\<rparr>) in
           case tk_failure t' of
             Some e \<Rightarrow> Some (Inl e, t')
           | None \<Rightarrow> await_reply next_event t'))"

definition read_next :: "'n smtp_net \<Rightarrow> ('n, smtp_reply) talking" where
  "read_next net t = (case tk_failure t of Some e \<Rightarrow> Some (Inl e, t) | None \<Rightarrow> await_reply (nw_next net) t)"

definition say :: "'n smtp_net \<Rightarrow> smtp_line \<Rightarrow> ('n, unit) talking" where
  "say net line t =
     (let (r, events, n) = nw_write net (line_text line) (tk_net t) in
      Some (r, fold on_event events (act (Wrote (tk_secure t) line) (t\<lparr>tk_net := n\<rparr>))))"

definition smtp_step :: "'n smtp_net \<Rightarrow> smtp_line \<Rightarrow> ('n, smtp_reply) talking" where
  "smtp_step net line = tbind (say net line) (\<lambda>_. read_next net)"

section \<open>The conversation\<close>

definition injected :: string where "injected = ''That mail server'' @ [CHR 0x27] @ ''s reply looked tampered with''"
definition no_tls :: string where "no_tls = ''That mail server would not start a secure session''"
definition no_auth :: string where
  "no_auth = ''That mail server does not accept the sign-in we support''"
definition smtp_too_slow :: string where "smtp_too_slow = ''That mail server took too long''"
definition refused_message :: string where "refused_message = ''That mail server refused the message''"
definition refused_recipient :: string where
  "refused_recipient = ''That mail server refused one of the addresses''"
definition partial_refusal :: string where
  "partial_refusal = ''That mail server refused one or more of the addresses''"
definition unexpected :: string where
  "unexpected = ''That mail server answered in a way we did not expect''"

record smtp_credentials =
  sc_hostname :: string
  sc_port :: int
  sc_username :: string
  sc_password :: string

datatype conversation = Settled delivery_outcome | TryNextAddress delivery_outcome

definition by_reply :: "nat \<Rightarrow> string \<Rightarrow> conversation" where
  "by_reply code reason =
     (if is_transient code then TryNextAddress (classify_smtp_reply (int code) reason)
      else Settled (classify_smtp_reply (int code) reason))"

definition quit_with :: "'n smtp_net \<Rightarrow> conversation \<Rightarrow> ('n, conversation) talking" where
  "quit_with net landed t =
     (case say net Quit t of None \<Rightarrow> None | Some (_, t') \<Rightarrow> Some (Inr landed, t'))"

fun ask_recipients :: "'n smtp_net \<Rightarrow> string list \<Rightarrow> nat list \<Rightarrow> nat \<Rightarrow> ('n, nat list \<times> nat) talking" where
  "ask_recipients net [] refusals takers = treturn (refusals, takers)"
| "ask_recipients net (recipient # rest) refusals takers =
     tbind (smtp_step net (RcptTo recipient)) (\<lambda>answer.
       if is_positive answer then ask_recipients net rest refusals (takers + 1)
       else ask_recipients net rest (refusals @ [sr_code answer]) takers)"

definition explains :: "nat list \<Rightarrow> nat" where
  "explains refusals =
     (case find (\<lambda>code. \<not> is_transient code) refusals of
        Some code \<Rightarrow> code
      | None \<Rightarrow> (case refusals of code # _ \<Rightarrow> code | [] \<Rightarrow> 550))"

definition write_body :: "'n smtp_net \<Rightarrow> smtp_message \<Rightarrow> nat list \<Rightarrow> ('n, conversation) talking" where
  "write_body net m refusals t =
     tbind (smtp_step net (Body m)) (\<lambda>accepted.
       if \<not> is_positive accepted then treturn (by_reply (sr_code accepted) refused_message)
       else quit_with net
         (Settled (if refusals = [] then OutDelivered (Some (int (sr_code accepted)))
                   else OutTerminal (Some (int (explains refusals))) partial_refusal False None)))
       (t\<lparr>tk_dataWritten := True\<rparr>)"

definition send_message :: "'n smtp_net \<Rightarrow> smtp_message \<Rightarrow> ('n, conversation) talking" where
  "send_message net m =
     tbind (smtp_step net (MailFrom (sm_from m))) (\<lambda>sender.
       if \<not> is_positive sender then treturn (by_reply (sr_code sender) refused_message)
       else tbind (ask_recipients net (sm_to m) [] 0) (\<lambda>(refusals, takers).
         if takers = 0 then treturn (by_reply (explains refusals) refused_recipient)
         else tbind (smtp_step net DataLine) (\<lambda>opened.
           if sr_code opened \<noteq> 354 then treturn (by_reply (sr_code opened) refused_message)
           else write_body net m refusals)))"

definition sign_in ::
    "'n smtp_net \<Rightarrow> smtp_credentials \<Rightarrow> smtp_message \<Rightarrow> smtp_reply \<Rightarrow> ('n, conversation) talking" where
  "sign_in net credentials m capabilities =
     (let mechanisms = auth_mechanisms capabilities in
      if ''PLAIN'' \<in> set mechanisms then
        tbind (smtp_step net (AuthPlain (sc_username credentials) (sc_password credentials))) (\<lambda>signedIn.
          if \<not> is_positive signedIn then treturn (by_reply (sr_code signedIn) no_auth)
          else send_message net m)
      else if ''LOGIN'' \<in> set mechanisms then
        tbind (smtp_step net AuthLogin) (\<lambda>asked.
          if sr_code asked \<noteq> 334 then treturn (by_reply (sr_code asked) no_auth)
          else tbind (smtp_step net (Encoded (sc_username credentials))) (\<lambda>wantsPassword.
            if sr_code wantsPassword \<noteq> 334 then treturn (by_reply (sr_code wantsPassword) no_auth)
            else tbind (smtp_step net (Encoded (sc_password credentials))) (\<lambda>signedIn.
              if \<not> is_positive signedIn then treturn (by_reply (sr_code signedIn) no_auth)
              else send_message net m)))
      else treturn (Settled (classify_refusal no_auth)))"

definition upgrade :: "'n smtp_net \<Rightarrow> string \<Rightarrow> int \<Rightarrow> ('n, unit) talking" where
  "upgrade net hostname timeoutMs t =
     (let (r, n) = nw_secure net (secure_options hostname) timeoutMs (tk_net t); t' = t\<lparr>tk_net := n\<rparr> in
      case r of
        Inl e \<Rightarrow> Some (Inl e, t')
      | Inr _ \<Rightarrow> Some (Inr (), act Upgraded (t'\<lparr>tk_secure := True\<rparr>)))"

definition greet_again ::
    "'n smtp_net \<Rightarrow> string \<Rightarrow> smtp_credentials \<Rightarrow> smtp_message \<Rightarrow> ('n, conversation) talking" where
  "greet_again net name credentials m t =
     tbind (smtp_step net (Ehlo name)) (\<lambda>again.
       if \<not> is_positive again then treturn (by_reply (sr_code again) unexpected)
       else sign_in net credentials m again) (create_reader t)"

definition upgrade_and_greet ::
    "'n smtp_net \<Rightarrow> int \<Rightarrow> string \<Rightarrow> smtp_credentials \<Rightarrow> smtp_message \<Rightarrow> smtp_reply \<Rightarrow> ('n, conversation) talking" where
  "upgrade_and_greet net timeoutMs name credentials m ready t =
     (if \<not> is_positive ready then treturn (by_reply (sr_code ready) no_tls) t
      else if tk_buffer t \<noteq> [] then treturn (Settled (classify_refusal injected)) t
      else tbind (upgrade net (sc_hostname credentials) timeoutMs) (\<lambda>_. greet_again net name credentials m) t)"

definition start_tls ::
    "'n smtp_net \<Rightarrow> int \<Rightarrow> string \<Rightarrow> smtp_credentials \<Rightarrow> smtp_message \<Rightarrow> smtp_reply \<Rightarrow> ('n, conversation) talking" where
  "start_tls net timeoutMs name credentials m capabilities =
     (if \<not> advertises capabilities ''STARTTLS'' then treturn (Settled (classify_refusal no_tls))
      else tbind (smtp_step net StartTls) (upgrade_and_greet net timeoutMs name credentials m))"

definition greet ::
    "'n smtp_net \<Rightarrow> int \<Rightarrow> string \<Rightarrow> smtp_credentials \<Rightarrow> smtp_message \<Rightarrow> ('n, conversation) talking" where
  "greet net timeoutMs name credentials m =
     tbind (read_next net) (\<lambda>greeting.
       if \<not> is_positive greeting then treturn (by_reply (sr_code greeting) unexpected)
       else tbind (smtp_step net (Ehlo name)) (\<lambda>capabilities.
         if \<not> is_positive capabilities then treturn (by_reply (sr_code capabilities) unexpected)
         else if needs_start_tls (sc_port credentials) then
           start_tls net timeoutMs name credentials m capabilities
         else sign_in net credentials m capabilities))"

text \<open>\<open>converse\<close>: the conversation, what it threw read as a failed attempt, and the socket destroyed.\<close>

definition converse ::
    "(thrown \<Rightarrow> error_codes) \<Rightarrow> 'n smtp_net \<Rightarrow> int \<Rightarrow> string \<Rightarrow> smtp_credentials \<Rightarrow> smtp_message
      \<Rightarrow> 'n talk \<Rightarrow> (conversation \<times> 'n talk) option" where
  "converse codes net timeoutMs name credentials m t =
     (case greet net timeoutMs name credentials m (create_reader (t\<lparr>tk_dataWritten := False\<rparr>)) of
        None \<Rightarrow> None
      | Some (Inr c, t') \<Rightarrow> Some (c, act Destroyed t')
      | Some (Inl e, t') \<Rightarrow>
          (let reason = (if e = ThrownValue then network_reason codes e
                         else if thrown_message e = smtp_too_slow then smtp_too_slow
                         else network_reason codes e);
               outcome = OutRetryable None reason None None
           in Some (if tk_dataWritten t' then Settled outcome else TryNextAddress outcome, act Destroyed t')))"

section \<open>Sending to the verified addresses\<close>

definition nowhere :: string where "nowhere = ''that mail server could not be reached''"
definition email_subject_chars :: nat where "email_subject_chars = 250"
definition email_text_chars :: nat where "email_text_chars = 4000"

record email_settings =
  es_smtpServer :: string
  es_smtpPort :: int
  es_username :: string
  es_password :: string
  es_fromAddress :: string
  es_toAddresses :: "string list"

text \<open>The envelope's delivery, title and body, and the date the message carries.\<close>

definition email_message :: "email_settings \<Rightarrow> ident \<Rightarrow> string \<Rightarrow> string \<Rightarrow> string \<Rightarrow> smtp_message" where
  "email_message settings deliveryId title body utc =
     \<lparr>sm_id = deliveryId, sm_from = es_fromAddress settings, sm_to = es_toAddresses settings,
      sm_subject = truncate_chars (points_of title) email_subject_chars,
      sm_text = truncate_chars (points_of (title @ [lf, lf] @ body)) email_text_chars,
      sm_utc = utc\<rparr>"

definition open_pinned :: "'n smtp_net \<Rightarrow> string \<Rightarrow> int \<Rightarrow> int \<Rightarrow> ('n, unit) talking" where
  "open_pinned net address port timeoutMs t =
     (let (r, n) = nw_open net address port timeoutMs (tk_net t); t' = t\<lparr>tk_net := n\<rparr> in
      case r of
        Inl e \<Rightarrow> Some (Inl e, t')
      | Inr _ \<Rightarrow> Some (Inr (), act (Opened address port) (t'\<lparr>tk_secure := False\<rparr>)))"

definition secure_first :: "'n smtp_net \<Rightarrow> int \<Rightarrow> string \<Rightarrow> int \<Rightarrow> ('n, unit) talking" where
  "secure_first net port hostname timeoutMs =
     (if \<not> needs_start_tls port then upgrade net hostname timeoutMs else treturn ())"

fun try_addresses ::
    "(thrown \<Rightarrow> error_codes) \<Rightarrow> 'n smtp_net \<Rightarrow> int \<Rightarrow> smtp_credentials \<Rightarrow> smtp_message \<Rightarrow> pinned_address list
      \<Rightarrow> delivery_outcome \<Rightarrow> 'n talk \<Rightarrow> (delivery_outcome \<times> 'n talk) option" where
  "try_addresses codes net timeoutMs credentials m [] lastFailure t = Some (lastFailure, t)"
| "try_addresses codes net timeoutMs credentials m (pinned # rest) lastFailure t =
     (case open_pinned net (pa_address pinned) (sc_port credentials) timeoutMs t of
        None \<Rightarrow> None
      | Some (Inl e, t1) \<Rightarrow>
          try_addresses codes net timeoutMs credentials m rest (classify_network_failure (network_reason codes e)) t1
      | Some (Inr _, t1) \<Rightarrow>
          (case secure_first net (sc_port credentials) (sc_hostname credentials) timeoutMs t1 of
             None \<Rightarrow> None
           | Some (Inl e, t2) \<Rightarrow>
               try_addresses codes net timeoutMs credentials m rest
                 (classify_network_failure (network_reason codes e)) (act Destroyed t2)
           | Some (Inr _, t2) \<Rightarrow>
               (case converse codes net timeoutMs ''openmcc'' credentials m t2 of
                  None \<Rightarrow> None
                | Some (Settled outcome, t3) \<Rightarrow> Some (outcome, t3)
                | Some (TryNextAddress outcome, t3) \<Rightarrow>
                    try_addresses codes net timeoutMs credentials m rest outcome t3)))"

definition deliver_email ::
    "(thrown \<Rightarrow> error_codes) \<Rightarrow> 'n smtp_net \<Rightarrow> (string \<Rightarrow> ('n, (string \<times> nat) list) io) \<Rightarrow> email_settings
      \<Rightarrow> ident \<Rightarrow> string \<Rightarrow> string \<Rightarrow> egress_policy \<Rightarrow> int \<Rightarrow> string \<Rightarrow> 'n talk \<Rightarrow> (delivery_outcome \<times> 'n talk) option" where
  "deliver_email codes net lookup settings deliveryId title body policy timeoutMs utc t =
     (let hostname = lower (bare_hostname (es_smtpServer settings));
          (verdict, n) = resolve_pinned lookup hostname policy (tk_net t); t' = t\<lparr>tk_net := n\<rparr> in
      case verdict of
        PinRefused reason \<Rightarrow> Some (classify_refusal reason, t')
      | PinOk addresses \<Rightarrow>
          try_addresses codes net timeoutMs
            \<lparr>sc_hostname = hostname, sc_port = es_smtpPort settings, sc_username = es_username settings,
             sc_password = es_password settings\<rparr>
            (email_message settings deliveryId title body utc) addresses (classify_refusal nowhere) t')"

section \<open>Lemmas on conversations\<close>

lemma fold_on_event [simp]:
  "tk_acts (fold on_event es t) = tk_acts t"
  "tk_secure (fold on_event es t) = tk_secure t"
  "tk_dataWritten (fold on_event es t) = tk_dataWritten t"
proof -
  have one: "tk_acts (on_event e t) = tk_acts t" "tk_secure (on_event e t) = tk_secure t"
    "tk_dataWritten (on_event e t) = tk_dataWritten t" for e t by (cases e; simp)+
  show "tk_acts (fold on_event es t) = tk_acts t" "tk_secure (fold on_event es t) = tk_secure t"
    "tk_dataWritten (fold on_event es t) = tk_dataWritten t"
    by (induction es arbitrary: t) (simp_all add: one)
qed

lemma on_event_simps [simp]:
  "tk_acts (on_event e t) = tk_acts t" "tk_secure (on_event e t) = tk_secure t"
  "tk_dataWritten (on_event e t) = tk_dataWritten t"
  by (cases e; simp)+

lemma act_simps [simp]:
  "tk_acts (act a t) = tk_acts t @ [a]" "tk_secure (act a t) = tk_secure t"
  "tk_dataWritten (act a t) = tk_dataWritten t"
  "tk_net (act a t) = tk_net t" "tk_buffer (act a t) = tk_buffer t" "tk_failure (act a t) = tk_failure t"
  by (simp_all add: act_def)

definition heard :: "thrown + smtp_reply \<Rightarrow> smtp_act list" where
  "heard r = (case r of Inl _ \<Rightarrow> [] | Inr reply \<Rightarrow> [Heard (sr_code reply)])"

lemma heard_simps [simp]: "heard (Inl e) = []" "heard (Inr reply) = [Heard (sr_code reply)]"
  by (simp_all add: heard_def)

lemma await_reply_acts:
  assumes "await_reply next_event t = Some (r, t')"
  shows "tk_acts t' = tk_acts t @ heard r \<and> tk_secure t' = tk_secure t \<and> tk_dataWritten t' = tk_dataWritten t"
proof -
  define P where "P t y = (tk_acts (snd y) = tk_acts t @ heard (fst y) \<and> tk_secure (snd y) = tk_secure t \<and>
      tk_dataWritten (snd y) = tk_dataWritten t)" for t :: "'a talk" and y :: "(thrown + smtp_reply) \<times> 'a talk"
  have "P t (r, t')"
  proof (rule await_reply.raw_induct [OF _ assms])
    fix rec and next_event :: "'a \<Rightarrow> socket_event \<times> 'a" and t :: "'a talk" and y
    assume IH: "\<And>next_event t y. rec next_event t = Some y \<Longrightarrow> P t y"
      and run: "(case read_reply (tk_buffer t) of
        None \<Rightarrow> let (event, n) = next_event (tk_net t); t' = on_event event (t\<lparr>tk_net := n\<rparr>)
                in case tk_failure t' of None \<Rightarrow> rec next_event t' | Some e \<Rightarrow> Some (Inl e, t')
      | Some (reply, rest) \<Rightarrow> Some (Inr reply, act (Heard (sr_code reply)) (t\<lparr>tk_buffer := rest\<rparr>))) = Some y"
    show "P t y"
    proof (cases "read_reply (tk_buffer t)")
      case None
      obtain ev n where n: "next_event (tk_net t) = (ev, n)" by fastforce
      let ?t = "on_event ev (t\<lparr>tk_net := n\<rparr>)"
      show ?thesis
      proof (cases "tk_failure ?t")
        case failed: None
        then have "P ?t y" using IH run None n by simp
        then show ?thesis by (simp add: P_def)
      next
        case (Some e)
        then show ?thesis using run None n by (auto simp: P_def)
      qed
    next
      case (Some a)
      then show ?thesis using run by (cases a) (auto simp: P_def)
    qed
  qed
  then show ?thesis by (simp add: P_def)
qed

lemma read_next_acts:
  "read_next net t = Some (r, t') \<Longrightarrow>
     tk_acts t' = tk_acts t @ heard r \<and> tk_secure t' = tk_secure t \<and> tk_dataWritten t' = tk_dataWritten t"
  by (auto simp: read_next_def dest: await_reply_acts split: option.splits)

lemma say_acts:
  "say net line t = Some (r, t') \<Longrightarrow>
     tk_acts t' = tk_acts t @ [Wrote (tk_secure t) line] \<and> tk_secure t' = tk_secure t \<and>
     tk_dataWritten t' = tk_dataWritten t"
  by (auto simp: say_def split: prod.splits)

lemma smtp_step_acts:
  "smtp_step net line t = Some (r, t') \<Longrightarrow>
     tk_acts t' = tk_acts t @ Wrote (tk_secure t) line # heard r \<and> tk_secure t' = tk_secure t \<and>
     tk_dataWritten t' = tk_dataWritten t"
  by (auto simp: smtp_step_def tbind_def dest!: say_acts read_next_acts split: option.splits prod.splits sum.splits)

section \<open>Rules for what a conversation keeps\<close>

text \<open>Whatever \<open>m\<close> ends with where it began with \<open>P\<close>, \<open>Q\<close> holds of it.\<close>

definition runs :: "('n talk \<Rightarrow> bool) \<Rightarrow> ('n, 'a) talking \<Rightarrow> (thrown + 'a \<Rightarrow> 'n talk \<Rightarrow> bool) \<Rightarrow> bool" where
  "runs P m Q \<longleftrightarrow> (\<forall>t r t'. P t \<longrightarrow> m t = Some (r, t') \<longrightarrow> Q r t')"

lemma runsI: "(\<And>t r t'. P t \<Longrightarrow> m t = Some (r, t') \<Longrightarrow> Q r t') \<Longrightarrow> runs P m Q"
  by (auto simp: runs_def)

lemma runsD: "runs P m Q \<Longrightarrow> P t \<Longrightarrow> m t = Some (r, t') \<Longrightarrow> Q r t'"
  by (auto simp: runs_def)

lemma runs_treturn: "(\<And>t. P t \<Longrightarrow> Q (Inr x) t) \<Longrightarrow> runs P (treturn x) Q"
  by (auto simp: runs_def treturn_def)

lemma runs_tbind:
  assumes "runs P m (\<lambda>r t. case r of Inl e \<Rightarrow> Q (Inl e) t | Inr x \<Rightarrow> R x t)" and "\<And>x. runs (R x) (f x) Q"
  shows "runs P (tbind m f) Q"
proof (rule runsI)
  fix t r t' assume P: "P t" and b: "tbind m f t = Some (r, t')"
  obtain r1 t1 where m: "m t = Some (r1, t1)" using b by (auto simp: tbind_def split: option.splits)
  with runsD [OF assms(1) P] have q: "case r1 of Inl e \<Rightarrow> Q (Inl e) t1 | Inr x \<Rightarrow> R x t1" by blast
  show "Q r t'"
    using b m q runsD [OF assms(2)] by (cases r1) (auto simp: tbind_def)
qed

text \<open>A phase that keeps \<open>P\<close>, before one that ends with \<open>Q\<close>.\<close>

lemma runs_phase:
  assumes "runs P m (\<lambda>_. P)" and "\<And>e t. P t \<Longrightarrow> Q (Inl e) t" and "\<And>x. runs P (f x) Q"
  shows "runs P (tbind m f) Q"
  by (rule runs_tbind [where R = "\<lambda>_. P"])
    (use assms in \<open>auto simp: runs_def split: sum.splits\<close>)

lemma runs_weaken:
  "runs P m Q \<Longrightarrow> (\<And>t. P' t \<Longrightarrow> P t) \<Longrightarrow> (\<And>r t. Q r t \<Longrightarrow> Q' r t) \<Longrightarrow> runs P' m Q'"
  unfolding runs_def by blast

lemma runs_if: "(b \<Longrightarrow> runs P m Q) \<Longrightarrow> (\<not> b \<Longrightarrow> runs P n Q) \<Longrightarrow> runs P (if b then m else n) Q"
  by simp

lemma runs_step:
  assumes "\<And>t r t'. P t \<Longrightarrow> tk_acts t' = tk_acts t @ Wrote (tk_secure t) line # heard r \<Longrightarrow>
      tk_secure t' = tk_secure t \<Longrightarrow> tk_dataWritten t' = tk_dataWritten t \<Longrightarrow> Q r t'"
  shows "runs P (smtp_step net line) Q"
  using assms smtp_step_acts by (blast intro: runsI)

text \<open>Reading a reply and going on with it: what was written and answered last is known.\<close>

definition answered :: "smtp_line \<Rightarrow> nat \<Rightarrow> 'n talk \<Rightarrow> bool" where
  "answered line code t \<longleftrightarrow> (\<exists>done_before s. tk_acts t = done_before @ [Wrote s line, Heard code])"

text \<open>The message ends where it is written to end: no dot inside it can end it early.\<close>

lemma message_ends_once:
  assumes fields: "one_line_fields m" and split: "line_text (Body m) = a @ crlf @ ''.'' @ crlf @ b"
  shows "b = []"
proof -
  have "message_lines m \<noteq> []" by (simp add: message_lines_def)
  from join_with_lines [OF this, of "[cr, lf]"]
  have "concat (map (\<lambda>l. l @ [cr, lf]) (message_lines m @ [''.''])) = line_text (Body m)"
    by (simp add: message_bytes_lines crlf_def)
  then have "concat (map (\<lambda>l. l @ [cr, lf]) (message_lines m @ [''.''])) = a @ [cr, lf] @ ''.'' @ [cr, lf] @ b"
    using split by (simp only: crlf_def)
  then show "b = []"
    using ends_at_the_dot message_lines_one_line [OF fields] by blast
qed

end
