(* ===== verification/SmtpSafety.thy ===== *)
theory SmtpSafety
  imports Smtp
begin

text \<open>
  What a mail conversation keeps to: what is written in the clear, what a delivery stands on, how often
  the message is written, that replies do not depend on how they come in pieces, and that a
  conversation ends.
\<close>

section \<open>Nothing but the opening in the clear\<close>

fun opening_line :: "smtp_line \<Rightarrow> bool" where
  "opening_line (Ehlo _) = True"
| "opening_line StartTls = True"
| "opening_line _ = False"

text \<open>An act is careful where it opens a verified address, or writes over TLS or an opening line.\<close>

fun careful_act :: "pinned_address set \<Rightarrow> smtp_act \<Rightarrow> bool" where
  "careful_act as (Opened address port) = (address \<in> pa_address ` as)"
| "careful_act as (Wrote secure line) = (secure \<or> opening_line line)"
| "careful_act as (Heard code) = True"
| "careful_act as Upgraded = True"
| "careful_act as Destroyed = True"

definition careful :: "pinned_address set \<Rightarrow> 'n talk \<Rightarrow> bool" where
  "careful as t \<longleftrightarrow> list_all (careful_act as) (tk_acts t)"

definition careful_tls :: "pinned_address set \<Rightarrow> 'n talk \<Rightarrow> bool" where
  "careful_tls as t \<longleftrightarrow> careful as t \<and> tk_secure t"

lemma careful_tls_step: "runs (careful_tls as) (smtp_step net line) (\<lambda>_. careful_tls as)"
  by (rule runs_step)
    (auto simp: careful_tls_def careful_def heard_def split: sum.splits)

lemma careful_opening_step: "opening_line line \<Longrightarrow> runs (careful as) (smtp_step net line) (\<lambda>_. careful as)"
  by (rule runs_step) (auto simp: careful_def heard_def split: sum.splits)

lemma careful_read: "runs (careful as) (read_next net) (\<lambda>_. careful as)"
  by (rule runsI) (auto simp: careful_def heard_def dest!: read_next_acts
      split: sum.splits)

lemma careful_tls_quit: "runs (careful_tls as) (quit_with net landed) (\<lambda>_. careful_tls as)"
  by (rule runsI) (auto simp: quit_with_def careful_tls_def careful_def
      dest!: say_acts split: option.splits)

lemmas careful_steps = runs_phase [where P = "careful_tls as" and Q = "\<lambda>_. careful_tls as" for as]
  runs_treturn careful_tls_step careful_tls_quit

lemma careful_tls_recipients:
  "runs (careful_tls as) (ask_recipients net rs refusals takers) (\<lambda>_. careful_tls as)"
  by (induction net rs refusals takers rule: ask_recipients.induct) (auto intro!: careful_steps)

lemma careful_tls_send_message: "runs (careful_tls as) (send_message net m) (\<lambda>_. careful_tls as)"
proof -
  have "runs (careful_tls as) (write_body net m refusals) (\<lambda>_. careful_tls as)" for refusals
  proof (rule runsI)
    fix t r and t' :: "'a talk" assume P: "careful_tls as t" and w: "write_body net m refusals t = Some (r, t')"
    have "runs (careful_tls as) (tbind (smtp_step net (Body m)) (\<lambda>accepted.
       if \<not> is_positive accepted then treturn (by_reply (sr_code accepted) refused_message)
       else quit_with net
         (Settled (if refusals = [] then OutDelivered (Some (int (sr_code accepted)))
                   else OutTerminal (Some (int (explains refusals))) partial_refusal False None)))) (\<lambda>_. careful_tls as)"
      by (auto intro!: careful_steps)
    from runsD [OF this _ w [unfolded write_body_def]] P show "careful_tls as t'"
      by (simp add: careful_tls_def careful_def)
  qed
  then show ?thesis
    unfolding send_message_def by (auto intro!: careful_steps careful_tls_recipients split: prod.splits)
qed

lemma careful_tls_sign_in: "runs (careful_tls as) (sign_in net credentials m capabilities) (\<lambda>_. careful_tls as)"
  unfolding sign_in_def Let_def by (auto intro!: careful_steps careful_tls_send_message)

lemma careful_tls_greet_again: "runs (careful_tls as) (greet_again net name credentials m) (\<lambda>_. careful_tls as)"
proof -
  have "careful_tls as (create_reader t) = careful_tls as t" for t :: "'a talk"
    by (simp add: create_reader_def careful_tls_def careful_def)
  moreover have "runs (careful_tls as) (tbind (smtp_step net (Ehlo name)) (\<lambda>again.
       if \<not> is_positive again then treturn (by_reply (sr_code again) unexpected)
       else sign_in net credentials m again)) (\<lambda>_. careful_tls as)"
    by (auto intro!: careful_steps careful_tls_sign_in)
  ultimately show ?thesis unfolding runs_def greet_again_def by blast
qed

lemma careful_upgrade_and_greet:
  "runs (careful as) (upgrade_and_greet net timeoutMs name credentials m ready) (\<lambda>_. careful as)"
proof -
  have up: "runs (careful as) (upgrade net hostname timeoutMs)
      (\<lambda>r t. case r of Inl e \<Rightarrow> careful as t | Inr _ \<Rightarrow> careful_tls as t)" for hostname
    by (rule runsI) (auto simp: upgrade_def Let_def careful_def careful_tls_def split: prod.splits sum.splits)
  have "runs (careful as) (tbind (upgrade net (sc_hostname credentials) timeoutMs)
      (\<lambda>_. greet_again net name credentials m)) (\<lambda>_. careful as)"
    by (rule runs_tbind [OF up])
      (rule runs_weaken [OF careful_tls_greet_again [of as]], simp_all add: careful_tls_def)
  then show ?thesis
    unfolding runs_def upgrade_and_greet_def by (simp add: treturn_def)
qed

lemma careful_start_tls:
  "runs (careful as) (start_tls net timeoutMs name credentials m capabilities) (\<lambda>_. careful as)"
  unfolding start_tls_def
  by (auto intro!: runs_treturn runs_phase [OF careful_opening_step] careful_upgrade_and_greet)

text \<open>The conversation on a socket that is TLS where the port says so from the start.\<close>

lemma careful_greet:
  assumes "P = (\<lambda>t. careful as t \<and> (needs_start_tls (sc_port credentials) \<or> tk_secure t))"
  shows "runs P (greet net timeoutMs name credentials m) (\<lambda>_. careful as)"
proof (cases "needs_start_tls (sc_port credentials)")
  case True
  then have P: "P = careful as" using assms by auto
  show ?thesis
    unfolding P greet_def using True
    by (auto intro!: runs_treturn runs_phase [OF careful_read] runs_phase [OF careful_opening_step] careful_start_tls)
next
  case False
  then have P: "P = careful_tls as" using assms by (auto simp: careful_tls_def fun_eq_iff)
  have read: "runs (careful_tls as) (read_next net) (\<lambda>_. careful_tls as)"
    by (rule runsI) (auto simp: careful_tls_def careful_def heard_def
        dest!: read_next_acts split: sum.splits)
  have "runs (careful_tls as) (greet net timeoutMs name credentials m) (\<lambda>_. careful_tls as)"
    unfolding greet_def using False
    by (auto intro!: runs_phase [OF read] careful_steps careful_tls_sign_in)
  then show ?thesis unfolding P by (rule runs_weaken) (simp_all add: careful_tls_def)
qed

lemma careful_converse:
  assumes "converse codes net timeoutMs name credentials m t = Some (c, t')"
    and "careful as t" and "needs_start_tls (sc_port credentials) \<or> tk_secure t"
  shows "careful as t'"
proof -
  let ?t = "create_reader (t\<lparr>tk_dataWritten := False\<rparr>)"
  obtain r t1 where g: "greet net timeoutMs name credentials m ?t = Some (r, t1)" and t': "t' = act Destroyed t1"
    using assms(1) by (auto simp: converse_def Let_def split: option.splits sum.splits)
  have "careful as t1"
    using runsD [OF careful_greet [OF refl] _ g] assms(2,3) by (simp add: create_reader_def careful_def)
  then show ?thesis by (auto simp: t' careful_def)
qed

lemma careful_try_addresses:
  "try_addresses codes net timeoutMs credentials m addresses lastFailure t = Some (outcome, t') \<Longrightarrow>
     careful as t \<Longrightarrow> set addresses \<subseteq> as \<Longrightarrow> careful as t'"
proof (induction codes net timeoutMs credentials m addresses lastFailure t rule: try_addresses.induct)
  case (1 codes net timeoutMs credentials m lastFailure t)
  then show ?case by simp
next
  case (2 codes net timeoutMs credentials m pinned rest lastFailure t)
  obtain r1 t1 where o: "open_pinned net (pa_address pinned) (sc_port credentials) timeoutMs t = Some (r1, t1)"
    using 2(4) by (auto split: option.splits)
  then have c1: "careful as t1"
    using 2(5,6) by (auto simp: open_pinned_def Let_def careful_def
        split: prod.splits sum.splits)
  show ?case
  proof (cases r1)
    case (Inl e)
    then show ?thesis using 2(1) [OF o refl Inl] 2(4,6) o c1 Inl by simp
  next
    case (Inr u)
    obtain r2 t2 where s: "secure_first net (sc_port credentials) (sc_hostname credentials) timeoutMs t1 = Some (r2, t2)"
      using 2(4) o Inr by (auto split: option.splits)
    then have c2: "careful as t2" "\<And>u. r2 = Inr u \<Longrightarrow> needs_start_tls (sc_port credentials) \<or> tk_secure t2"
      using c1 by (auto simp: secure_first_def upgrade_def treturn_def Let_def careful_def split: if_splits prod.splits sum.splits)
    show ?thesis
    proof (cases r2)
      case l: (Inl e)
      have "careful as (act Destroyed t2)" using c2 by (auto simp: careful_def)
      then show ?thesis using 2 o Inr s l by simp
    next
      case r: (Inr v)
      obtain c t3 where cv: "converse codes net timeoutMs ''openmcc'' credentials m t2 = Some (c, t3)"
        using 2(4) o Inr s r by (auto split: option.splits)
      from careful_converse [OF cv c2(1)] c2(2) r have c3: "careful as t3" by blast
      show ?thesis
        using 2 o Inr s r cv c3 by (cases c) auto
    qed
  qed
qed

text \<open>
  Whatever the server answers, credentials and message are written over TLS only, and to addresses
  that were verified.
\<close>

lemma careful_deliver_email:
  assumes "deliver_email codes net lookup settings deliveryId title body policy timeoutMs utc t = Some (outcome, t')"
    and "tk_acts t = []"
  shows "\<exists>addresses.
     list_all (verified policy (host_is_allowed (lower (bare_hostname (es_smtpServer settings))) policy)) addresses \<and>
     list_all (careful_act (set addresses)) (tk_acts t')"
proof -
  let ?host = "lower (bare_hostname (es_smtpServer settings))"
  obtain verdict n where r: "resolve_pinned lookup ?host policy (tk_net t) = (verdict, n)" by fastforce
  show ?thesis
  proof (cases verdict)
    case (PinRefused reason)
    then have "tk_acts t' = []" using assms r by (auto simp: deliver_email_def)
    then show ?thesis by (intro exI [of _ "[]"]) simp
  next
    case (PinOk addresses)
    then have ok: "list_all (verified policy (host_is_allowed ?host policy)) addresses"
      using resolve_pinned_verified [of lookup ?host policy "tk_net t" addresses] r by simp
    have run: "try_addresses codes net timeoutMs
            \<lparr>sc_hostname = ?host, sc_port = es_smtpPort settings, sc_username = es_username settings,
             sc_password = es_password settings\<rparr>
            (email_message settings deliveryId title body utc) addresses (classify_refusal nowhere)
            (t\<lparr>tk_net := n\<rparr>) = Some (outcome, t')"
      using assms(1) r PinOk by (simp add: deliver_email_def Let_def)
    have "careful (set addresses) (t\<lparr>tk_net := n\<rparr>)" using assms(2) by (simp add: careful_def)
    from careful_try_addresses [OF run this order_refl] ok show ?thesis unfolding careful_def by blast
  qed
qed

section \<open>What an outcome stands on\<close>

definition exchange :: "smtp_act list \<Rightarrow> smtp_line \<Rightarrow> nat \<Rightarrow> bool" where
  "exchange acts line code \<longleftrightarrow> (\<exists>a s b. acts = a @ [Wrote s line, Heard code] @ b)"

text \<open>
  The two replies read as a delivery: the one to the message, and one that should have asked for
  more (\<open>334\<close>, \<open>354\<close>) and was another positive code.
\<close>

fun asks_for_more :: "smtp_line \<Rightarrow> bool" where
  "asks_for_more AuthLogin = True"
| "asks_for_more (Encoded _) = True"
| "asks_for_more DataLine = True"
| "asks_for_more _ = False"

definition founded :: "smtp_message \<Rightarrow> thrown + conversation \<Rightarrow> 'n talk \<Rightarrow> bool" where
  "founded m r t \<longleftrightarrow>
     (\<forall>status. r = Inr (Settled (OutDelivered status)) \<longrightarrow>
        (\<exists>code. status = Some (int code) \<and> 200 \<le> code \<and> code < 400 \<and>
           (exchange (tk_acts t) (Body m) code \<or>
            (\<exists>line. asks_for_more line \<and> exchange (tk_acts t) line code \<and>
               code \<noteq> (if line = DataLine then 354 else 334)))))"

lemma founded_Inl [simp]: "founded m (Inl e) t"
  by (simp add: founded_def)

lemma runs_answered:
  assumes "\<And>reply. runs (answered line (sr_code reply)) (f reply) (founded m)"
  shows "runs P (tbind (smtp_step net line) f) (founded m)"
  by (rule runs_tbind [where R = "\<lambda>reply. answered line (sr_code reply)"])
    (use assms in \<open>auto simp: answered_def split: sum.splits intro!: runs_step\<close>)

lemma exchange_answered: "answered line code t \<Longrightarrow> exchange (tk_acts t) line code"
  by (fastforce simp: answered_def exchange_def)

lemma exchange_later: "answered line code t \<Longrightarrow> acts = tk_acts t @ later \<Longrightarrow> exchange acts line code"
  unfolding answered_def exchange_def by (metis append.assoc)

text \<open>A negative reply is never a delivery.\<close>

lemma founded_by_reply:
  "\<not> is_positive reply \<Longrightarrow> founded m (Inr (by_reply (sr_code reply) reason)) t"
  by (auto simp: founded_def by_reply_def is_positive_def is_transient_def classify_smtp_reply_def split: if_splits)

lemma founded_misread:
  assumes "asks_for_more line" and "sr_code reply \<noteq> (if line = DataLine then 354 else 334)"
    and "answered line (sr_code reply) t"
  shows "founded m (Inr (by_reply (sr_code reply) reason)) t"
  using assms exchange_answered
  by (fastforce simp: founded_def by_reply_def is_transient_def classify_smtp_reply_def split: if_splits)

lemma founded_write_body: "runs P (write_body net m refusals) (founded m)"
proof (rule runsI)
  fix t r and t' :: "'a talk" assume w: "write_body net m refusals t = Some (r, t')"
  have "runs (\<lambda>_. True) (tbind (smtp_step net (Body m)) (\<lambda>accepted.
       if \<not> is_positive accepted then treturn (by_reply (sr_code accepted) refused_message)
       else quit_with net
         (Settled (if refusals = [] then OutDelivered (Some (int (sr_code accepted)))
                   else OutTerminal (Some (int (explains refusals))) partial_refusal False None)))) (founded m)"
  proof (rule runs_answered)
    fix accepted :: smtp_reply
    have "founded m (Inr (Settled (if refusals = [] then OutDelivered (Some (int (sr_code accepted)))
                   else OutTerminal (Some (int (explains refusals))) partial_refusal False None))) t2"
      if "answered (Body m) (sr_code accepted) t1" "is_positive accepted" "tk_acts t2 = tk_acts t1 @ [Wrote s Quit]"
      for t1 t2 :: "'a talk" and s
      using that(2) exchange_later [OF that(1,3)] by (simp add: founded_def is_positive_def)
    then show "runs (answered (Body m) (sr_code accepted)) (if \<not> is_positive accepted then treturn (by_reply (sr_code accepted) refused_message)
       else quit_with net
         (Settled (if refusals = [] then OutDelivered (Some (int (sr_code accepted)))
                   else OutTerminal (Some (int (explains refusals))) partial_refusal False None))) (founded m)"
      by (auto simp: runs_def quit_with_def treturn_def founded_by_reply split: option.splits dest!: say_acts)
  qed
  from runsD [OF this TrueI w [unfolded write_body_def]] show "founded m r t'" .
qed

definition all_negative :: "nat list \<Rightarrow> bool" where
  "all_negative codes \<longleftrightarrow> list_all (\<lambda>code. \<not> (200 \<le> code \<and> code < 400)) codes"

lemma ask_recipients_negative:
  "all_negative refusals \<Longrightarrow>
     runs P (ask_recipients net rs refusals takers)
       (\<lambda>r t. case r of Inl _ \<Rightarrow> True | Inr (codes, _) \<Rightarrow> all_negative codes)"
proof (induction net rs refusals takers arbitrary: P rule: ask_recipients.induct)
  case (1 net refusals takers)
  then show ?case by (auto intro: runs_treturn)
next
  case (2 net recipient rest refusals takers)
  have "runs (\<lambda>_. True) (if is_positive answer then ask_recipients net rest refusals (takers + 1)
      else ask_recipients net rest (refusals @ [sr_code answer]) takers)
      (\<lambda>r t. case r of Inl _ \<Rightarrow> True | Inr (codes, _) \<Rightarrow> all_negative codes)" for answer
    using 2 by (auto simp: all_negative_def is_positive_def)
  then show ?case
    unfolding ask_recipients.simps
    by (intro runs_tbind [where R = "\<lambda>_ _. True"]) (auto simp: runs_def split: sum.splits)
qed

lemma explains_negative: "all_negative codes \<Longrightarrow> \<not> (200 \<le> explains codes \<and> explains codes < 400)"
  by (auto simp: explains_def all_negative_def list_all_iff dest!: find_SomeD split: option.splits list.splits)

lemma founded_send_message: "runs P (send_message net m) (founded m)"
proof -
  have data: "runs (\<lambda>_. all_negative refusals)
      (if takers = 0 then treturn (by_reply (explains refusals) refused_recipient)
       else tbind (smtp_step net DataLine) (\<lambda>opened.
         if sr_code opened \<noteq> 354 then treturn (by_reply (sr_code opened) refused_message)
         else write_body net m refusals)) (founded m)" for refusals :: "nat list" and takers :: nat
  proof (rule runs_if)
    show "runs (\<lambda>_. all_negative refusals) (treturn (by_reply (explains refusals) refused_recipient)) (founded m)"
      using founded_by_reply [of "\<lparr>sr_code = explains refusals, sr_lines = []\<rparr>"] explains_negative
      by (auto simp: runs_def treturn_def is_positive_def)
    show "runs (\<lambda>_. all_negative refusals) (tbind (smtp_step net DataLine) (\<lambda>opened.
         if sr_code opened \<noteq> 354 then treturn (by_reply (sr_code opened) refused_message)
         else write_body net m refusals)) (founded m)"
      by (rule runs_answered)
        (auto intro!: runs_if runs_treturn founded_write_body founded_misread [where line = DataLine])
  qed
  have recipients: "runs P (tbind (ask_recipients net (sm_to m) [] 0) (\<lambda>(refusals, takers).
         if takers = 0 then treturn (by_reply (explains refusals) refused_recipient)
         else tbind (smtp_step net DataLine) (\<lambda>opened.
           if sr_code opened \<noteq> 354 then treturn (by_reply (sr_code opened) refused_message)
           else write_body net m refusals))) (founded m)" for P
  proof (rule runs_tbind [where R = "\<lambda>(codes, _) _. all_negative codes"])
    show "runs P (ask_recipients net (sm_to m) [] 0)
        (\<lambda>r t. case r of Inl e \<Rightarrow> founded m (Inl e) t | Inr x \<Rightarrow> (case x of (codes, _) \<Rightarrow> \<lambda>_. all_negative codes) t)"
      using ask_recipients_negative [of "[]" P net "sm_to m" 0]
      by (auto simp: all_negative_def split: sum.splits elim!: runs_weaken)
  next
    fix x :: "nat list \<times> nat"
    show "runs ((\<lambda>(codes, _) _. all_negative codes) x) (case x of (refusals, takers) \<Rightarrow>
         if takers = 0 then treturn (by_reply (explains refusals) refused_recipient)
         else tbind (smtp_step net DataLine) (\<lambda>opened.
           if sr_code opened \<noteq> 354 then treturn (by_reply (sr_code opened) refused_message)
           else write_body net m refusals)) (founded m)"
      by (cases x) (simp only: prod.case data)
  qed
  show ?thesis
    unfolding send_message_def
    by (rule runs_answered) (auto intro!: runs_if runs_treturn founded_by_reply recipients)
qed

lemma founded_reply:
  "\<not> is_positive reply \<or>
     (\<exists>line. answered line (sr_code reply) t \<and> asks_for_more line \<and>
        sr_code reply \<noteq> (if line = DataLine then 354 else 334)) \<Longrightarrow>
   founded m (Inr (by_reply (sr_code reply) reason)) t"
  using founded_by_reply founded_misread by blast

lemma founded_sign_in: "runs P (sign_in net credentials m capabilities) (founded m)"
  unfolding sign_in_def Let_def
  by (auto intro!: runs_if runs_answered runs_treturn founded_send_message founded_reply
      simp: founded_def classify_refusal_def)

lemma founded_greet: "runs P (greet net timeoutMs name credentials m) (founded m)"
proof -
  have refusal: "founded m (Inr (Settled (classify_refusal reason))) t" for reason and t :: "'a talk"
    by (simp add: founded_def classify_refusal_def)
  have again: "runs P (greet_again net name credentials m) (founded m)" for P
  proof -
    have "runs (\<lambda>_. True) (tbind (smtp_step net (Ehlo name)) (\<lambda>again.
       if \<not> is_positive again then treturn (by_reply (sr_code again) unexpected)
       else sign_in net credentials m again)) (founded m)"
      by (auto intro!: runs_if runs_answered runs_treturn founded_sign_in founded_reply)
    then show ?thesis unfolding runs_def greet_again_def by blast
  qed
  have up: "runs P (upgrade_and_greet net timeoutMs name credentials m ready) (founded m)" for ready and P
  proof -
    have "runs (\<lambda>_. True) (tbind (upgrade net (sc_hostname credentials) timeoutMs)
        (\<lambda>_. greet_again net name credentials m)) (founded m)"
      by (rule runs_tbind [where R = "\<lambda>_ _. True"]) (auto simp: runs_def split: sum.splits intro: runsD [OF again])
    then show ?thesis
      unfolding runs_def upgrade_and_greet_def by (simp add: treturn_def founded_reply refusal)
  qed
  have tls: "runs P (start_tls net timeoutMs name credentials m capabilities) (founded m)" for capabilities P
    unfolding start_tls_def by (auto intro!: runs_if runs_treturn refusal runs_answered up)
  have ehlo: "runs P (tbind (smtp_step net (Ehlo name)) (\<lambda>capabilities.
         if \<not> is_positive capabilities then treturn (by_reply (sr_code capabilities) unexpected)
         else if needs_start_tls (sc_port credentials) then
           start_tls net timeoutMs name credentials m capabilities
         else sign_in net credentials m capabilities)) (founded m)" for P
    by (auto intro!: runs_if runs_answered runs_treturn founded_sign_in founded_reply tls)
  show ?thesis
    unfolding greet_def
  proof (rule runs_tbind [where R = "\<lambda>_ _. True"])
    show "runs P (read_next net) (\<lambda>r t. case r of Inl e \<Rightarrow> founded m (Inl e) t | Inr x \<Rightarrow> True)"
      by (simp add: runs_def split: sum.split)
  next
    fix greeting
    show "runs (\<lambda>_. True)
          (if \<not> is_positive greeting then treturn (by_reply (sr_code greeting) unexpected)
           else tbind (smtp_step net (Ehlo name)) (\<lambda>capabilities.
             if \<not> is_positive capabilities then treturn (by_reply (sr_code capabilities) unexpected)
             else if needs_start_tls (sc_port credentials) then
               start_tls net timeoutMs name credentials m capabilities
             else sign_in net credentials m capabilities)) (founded m)"
      by (intro runs_if runs_treturn ehlo founded_reply) simp
  qed
qed

text \<open>
  A conversation ends in a delivery only on a positive reply to the message, or on a positive reply
  where the server should have asked for more.
\<close>

lemma converse_delivered:
  assumes "converse codes net timeoutMs name credentials m t = Some (Settled (OutDelivered status), t')"
  shows "\<exists>code. status = Some (int code) \<and> 200 \<le> code \<and> code < 400 \<and>
     (exchange (tk_acts t') (Body m) code \<or>
      (\<exists>line. asks_for_more line \<and> exchange (tk_acts t') line code \<and> code \<noteq> (if line = DataLine then 354 else 334)))"
proof -
  let ?t = "create_reader (t\<lparr>tk_dataWritten := False\<rparr>)"
  obtain t1 where g: "greet net timeoutMs name credentials m ?t = Some (Inr (Settled (OutDelivered status)), t1)"
    and t': "t' = act Destroyed t1"
    using assms by (auto simp: converse_def Let_def split: option.splits sum.splits if_splits)
  have more_acts: "exchange (tk_acts t1) line code \<Longrightarrow> exchange (tk_acts t') line code" for line code
    unfolding t' exchange_def act_simps by (metis append.assoc)
  have "founded m (Inr (Settled (OutDelivered status))) t1"
    by (rule runsD [OF founded_greet [of "\<lambda>_. True"] TrueI g])
  then show ?thesis unfolding founded_def using more_acts by blast
qed

section \<open>The message is written once\<close>

definition bodyless :: "smtp_message \<Rightarrow> smtp_act list \<Rightarrow> bool" where
  "bodyless m acts \<longleftrightarrow> list_all (\<lambda>a. a \<notin> {Wrote True (Body m), Wrote False (Body m)}) acts"

lemma bodyless_simps [simp]:
  "bodyless m []"
  "bodyless m (a # acts) \<longleftrightarrow> (\<forall>s. a \<noteq> Wrote s (Body m)) \<and> bodyless m acts"
  "bodyless m (acts @ others) \<longleftrightarrow> bodyless m acts \<and> bodyless m others"
proof -
  have "(a \<notin> {Wrote True (Body m), Wrote False (Body m)}) = (\<forall>s. a \<noteq> Wrote s (Body m))"
    by (metis (full_types) insert_iff singletonD)
  then show "bodyless m (a # acts) \<longleftrightarrow> (\<forall>s. a \<noteq> Wrote s (Body m)) \<and> bodyless m acts"
    by (simp add: bodyless_def)
qed (simp_all add: bodyless_def)

lemma bodyless_heard [simp]: "bodyless m (heard r)"
  by (simp add: heard_def split: sum.split)

definition before_body :: "smtp_act list \<Rightarrow> smtp_message \<Rightarrow> 'n talk \<Rightarrow> bool" where
  "before_body base m t \<longleftrightarrow> (\<exists>new. tk_acts t = base @ new \<and> bodyless m new) \<and> \<not> tk_dataWritten t"

definition body_accounted :: "smtp_act list \<Rightarrow> smtp_message \<Rightarrow> bool \<Rightarrow> smtp_act list \<Rightarrow> bool" where
  "body_accounted base m again acts \<longleftrightarrow>
     (\<exists>new. acts = base @ new \<and> bodyless m new) \<or>
     (\<exists>a s b. acts = base @ a @ Wrote s (Body m) # b \<and> bodyless m a \<and> bodyless m b \<and>
        (again \<longrightarrow> (\<exists>k b'. b = Heard k # b' \<and> is_transient k)))"

lemma body_accountedI:
  "acts = base @ a @ Wrote s (Body m) # b \<Longrightarrow> bodyless m a \<Longrightarrow> bodyless m b \<Longrightarrow>
     (again \<Longrightarrow> \<exists>k b'. b = Heard k # b' \<and> is_transient k) \<Longrightarrow> body_accounted base m again acts"
  unfolding body_accounted_def by blast

lemma body_accounted_weaker:
  "body_accounted base m again acts \<Longrightarrow> (later \<longrightarrow> again) \<Longrightarrow> body_accounted base m later acts"
  unfolding body_accounted_def by blast

lemma body_accounted_then:
  assumes "body_accounted base m again acts" and "\<And>s. x \<noteq> Wrote s (Body m)"
  shows "body_accounted base m again (acts @ [x])"
proof -
  consider new where "acts = base @ new" "bodyless m new"
    | a s b where "acts = base @ a @ Wrote s (Body m) # b" "bodyless m a" "bodyless m b"
        "again \<longrightarrow> (\<exists>k b'. b = Heard k # b' \<and> is_transient k)"
    using assms(1) unfolding body_accounted_def by blast
  then show ?thesis
  proof cases
    case 1
    then have "acts @ [x] = base @ (new @ [x])" "bodyless m (new @ [x])" using assms(2) by auto
    then show ?thesis unfolding body_accounted_def by blast
  next
    case 2
    then show ?thesis using assms(2) by (intro body_accountedI [of _ base a s m "b @ [x]"]) auto
  qed
qed

definition goes_on :: "thrown + conversation \<Rightarrow> bool" where
  "goes_on r \<longleftrightarrow> (\<exists>outcome. r = Inr (TryNextAddress outcome))"

definition wrote_once :: "smtp_act list \<Rightarrow> smtp_message \<Rightarrow> thrown + conversation \<Rightarrow> 'n talk \<Rightarrow> bool" where
  "wrote_once base m r t \<longleftrightarrow>
     before_body base m t \<or> tk_dataWritten t \<and> body_accounted base m (goes_on r) (tk_acts t)"

lemma before_body_step:
  assumes "\<And>n. line \<noteq> Body n"
  shows "runs (before_body base m) (smtp_step net line) (\<lambda>_. before_body base m)"
  by (rule runs_step) (use assms in \<open>auto simp: before_body_def\<close>)

lemma before_body_read: "runs (before_body base m) (read_next net) (\<lambda>_. before_body base m)"
  by (rule runsI) (auto simp: before_body_def dest!: read_next_acts)

lemma wrote_once_before: "before_body base m t \<Longrightarrow> wrote_once base m r t"
  by (simp add: wrote_once_def)

lemma by_reply_goes_on: "goes_on (Inr (by_reply code reason)) \<longleftrightarrow> is_transient code"
  by (simp add: goes_on_def by_reply_def)

lemma wrote_once_write_body: "runs (before_body base m) (write_body net m refusals) (wrote_once base m)"
proof (rule runsI)
  fix t r and t' :: "'a talk"
  assume before: "before_body base m t" and w: "write_body net m refusals t = Some (r, t')"
  obtain new where new: "tk_acts t = base @ new" "bodyless m new" using before by (auto simp: before_body_def)
  let ?t = "t\<lparr>tk_dataWritten := True\<rparr>"
  obtain r1 t1 where s: "smtp_step net (Body m) ?t = Some (r1, t1)"
    using w by (auto simp: write_body_def tbind_def split: option.splits)
  from smtp_step_acts [OF s] have t1: "tk_acts t1 = base @ new @ Wrote (tk_secure t) (Body m) # heard r1" "tk_dataWritten t1"
    using new by auto
  show "wrote_once base m r t'"
  proof (cases r1)
    case (Inl e)
    then have "r = Inl e" "t' = t1" using w s by (auto simp: write_body_def tbind_def)
    then show ?thesis
      using t1 new Inl body_accountedI [of "tk_acts t1" base new "tk_secure t" m "[]"]
      by (simp add: wrote_once_def goes_on_def)
  next
    case (Inr accepted)
    show ?thesis
    proof (cases "is_positive accepted")
      case True
      obtain landed where "quit_with net (Settled landed) t1 = Some (r, t')"
        using w s Inr True by (auto simp: write_body_def tbind_def)
      then have "r = Inr (Settled landed)" "tk_acts t' = tk_acts t1 @ [Wrote (tk_secure t1) Quit]" "tk_dataWritten t'"
        using t1 by (auto simp: quit_with_def dest!: say_acts split: option.splits)
      then show ?thesis
        using t1 new Inr body_accountedI [of "tk_acts t'" base new "tk_secure t" m "[Heard (sr_code accepted), Wrote (tk_secure t1) Quit]"]
        by (simp add: wrote_once_def goes_on_def)
    next
      case False
      then have r: "r = Inr (by_reply (sr_code accepted) refused_message)" "t' = t1"
        using w s Inr by (auto simp: write_body_def tbind_def treturn_def)
      then show ?thesis
        using t1 new Inr body_accountedI [of "tk_acts t1" base new "tk_secure t" m "[Heard (sr_code accepted)]"]
        by (simp add: wrote_once_def by_reply_goes_on)
    qed
  qed
qed

lemma before_body_recipients:
  "runs (before_body base m) (ask_recipients net rs refusals takers) (\<lambda>_. before_body base m)"
  by (induction net rs refusals takers rule: ask_recipients.induct)
    (auto intro!: runs_treturn runs_phase [OF before_body_step])

lemma wrote_once_send_message: "runs (before_body base m) (send_message net m) (wrote_once base m)"
  unfolding send_message_def
  by (auto intro!: runs_phase [OF before_body_step] runs_phase [OF before_body_recipients] runs_if runs_treturn
      wrote_once_before wrote_once_write_body split: prod.split)

lemma wrote_once_sign_in: "runs (before_body base m) (sign_in net credentials m capabilities) (wrote_once base m)"
  unfolding sign_in_def Let_def
  by (auto intro!: runs_phase [OF before_body_step] runs_if runs_treturn wrote_once_before wrote_once_send_message)

lemma wrote_once_greet_again: "runs (before_body base m) (greet_again net name credentials m) (wrote_once base m)"
proof -
  have "before_body base m (create_reader t) = before_body base m t" for t :: "'a talk"
    by (simp add: create_reader_def before_body_def)
  moreover have "runs (before_body base m) (tbind (smtp_step net (Ehlo name)) (\<lambda>again.
       if \<not> is_positive again then treturn (by_reply (sr_code again) unexpected)
       else sign_in net credentials m again)) (wrote_once base m)"
    by (auto intro!: runs_phase [OF before_body_step] runs_if runs_treturn wrote_once_before wrote_once_sign_in)
  ultimately show ?thesis unfolding runs_def greet_again_def by blast
qed

lemma wrote_once_start_tls:
  "runs (before_body base m) (start_tls net timeoutMs name credentials m capabilities) (wrote_once base m)"
proof -
  have up: "runs (before_body base m) (upgrade net hostname timeoutMs) (\<lambda>_. before_body base m)" for hostname
    by (rule runsI) (auto simp: upgrade_def Let_def before_body_def split: prod.splits sum.splits)
  have "runs (before_body base m) (tbind (upgrade net (sc_hostname credentials) timeoutMs)
      (\<lambda>_. greet_again net name credentials m)) (wrote_once base m)"
    by (auto intro!: runs_phase [OF up] wrote_once_before wrote_once_greet_again)
  then have "runs (before_body base m) (upgrade_and_greet net timeoutMs name credentials m ready) (wrote_once base m)"
    for ready
    unfolding runs_def upgrade_and_greet_def by (simp add: treturn_def wrote_once_before)
  then show ?thesis
    unfolding start_tls_def by (auto intro!: runs_phase [OF before_body_step] runs_treturn wrote_once_before)
qed

lemma wrote_once_greet:
  "runs (before_body base m) (greet net timeoutMs name credentials m) (wrote_once base m)"
  unfolding greet_def
  by (auto intro!: runs_phase [OF before_body_read] runs_phase [OF before_body_step] runs_if runs_treturn
      wrote_once_before wrote_once_sign_in wrote_once_start_tls)

text \<open>
  A conversation writes the message at most once, and has the next address tried only where it did
  not write it or the server answered it with a transient refusal.
\<close>

lemma converse_writes_once:
  assumes "converse codes net timeoutMs name credentials m t = Some (c, t')"
  shows "body_accounted (tk_acts t) m (\<exists>outcome. c = TryNextAddress outcome) (tk_acts t')"
proof -
  let ?t = "create_reader (t\<lparr>tk_dataWritten := False\<rparr>)"
  obtain r t1 where g: "greet net timeoutMs name credentials m ?t = Some (r, t1)" and t': "t' = act Destroyed t1"
    and c: "c = (case r of Inr c \<Rightarrow> c | Inl e \<Rightarrow> (if tk_dataWritten t1 then Settled else TryNextAddress)
        (OutRetryable None (if e = ThrownValue then network_reason codes e
                         else if thrown_message e = smtp_too_slow then smtp_too_slow
                         else network_reason codes e) None None))"
    using assms by (auto simp: converse_def Let_def split: option.splits sum.splits)
  have "before_body (tk_acts t) m ?t" by (simp add: before_body_def create_reader_def)
  with runsD [OF wrote_once_greet _ g] have once: "wrote_once (tk_acts t) m r t1" by blast
  consider "before_body (tk_acts t) m t1" | "tk_dataWritten t1" "body_accounted (tk_acts t) m (goes_on r) (tk_acts t1)"
    using once by (auto simp: wrote_once_def)
  then have "body_accounted (tk_acts t) m (\<exists>outcome. c = TryNextAddress outcome) (tk_acts t1)"
  proof cases
    case 1
    then show ?thesis by (auto simp: before_body_def body_accounted_def)
  next
    case 2
    then have "(\<exists>outcome. c = TryNextAddress outcome) \<longrightarrow> goes_on r" using c by (cases r) (auto simp: goes_on_def)
    then show ?thesis using body_accounted_weaker 2 by blast
  qed
  then show ?thesis using body_accounted_then [of _ _ _ _ Destroyed] by (simp add: t')
qed

text \<open>Over all addresses: after the message was written, it is written again only after a transient refusal.\<close>

definition rewritten_after_refusal :: "smtp_message \<Rightarrow> smtp_act list \<Rightarrow> bool" where
  "rewritten_after_refusal m acts \<longleftrightarrow>
     (\<forall>a s b. acts = a @ Wrote s (Body m) # b \<longrightarrow>
        bodyless m b \<or> (\<exists>k b'. b = Heard k # b' \<and> is_transient k))"

definition body_settled :: "smtp_message \<Rightarrow> smtp_act list \<Rightarrow> bool" where
  "body_settled m acts \<longleftrightarrow>
     (\<forall>a s b. acts = a @ Wrote s (Body m) # b \<longrightarrow> (\<exists>k b'. b = Heard k # b' \<and> is_transient k))"

lemma bodyless_no_split: "bodyless m acts \<Longrightarrow> acts \<noteq> a @ Wrote s (Body m) # b"
  by auto

lemma split_or: "xs @ ys = a @ z # b \<Longrightarrow> (\<exists>c. xs = a @ z # c \<and> b = c @ ys) \<or> (\<exists>c. a = xs @ c \<and> ys = c @ z # b)"
  by (auto simp: append_eq_append_conv2 append_eq_Cons_conv Cons_eq_append_conv)

lemma body_settled_append:
  assumes "body_settled m base" and "bodyless m new"
  shows "body_settled m (base @ new)"
  unfolding body_settled_def
proof (intro allI impI)
  fix a s b assume "base @ new = a @ Wrote s (Body m) # b"
  from split_or [OF this] show "\<exists>k b'. b = Heard k # b' \<and> is_transient k"
    using assms bodyless_no_split unfolding body_settled_def by (metis append_Cons)
qed

lemma rewritten_of_settled: "body_settled m acts \<Longrightarrow> rewritten_after_refusal m acts"
  unfolding body_settled_def rewritten_after_refusal_def by blast

lemma body_accounted_settled:
  assumes base: "body_settled m base" and acc: "body_accounted base m again acts"
  shows "rewritten_after_refusal m acts" and "again \<Longrightarrow> body_settled m acts"
proof -
  consider new where "acts = base @ new" "bodyless m new"
    | a s b where "acts = base @ a @ Wrote s (Body m) # b" "bodyless m a" "bodyless m b"
        "again \<longrightarrow> (\<exists>k b'. b = Heard k # b' \<and> is_transient k)"
    using acc unfolding body_accounted_def by blast
  then have "rewritten_after_refusal m acts \<and> (again \<longrightarrow> body_settled m acts)"
  proof cases
    case 1
    then show ?thesis using body_settled_append [OF base] rewritten_of_settled by blast
  next
    case (2 a0 s0 b0)
    have base': "body_settled m (base @ a0)" using body_settled_append [OF base 2(2)] .
    have "(\<exists>k b'. b = Heard k # b' \<and> is_transient k) \<or> b = b0"
      if eq: "acts = a @ Wrote s (Body m) # b" for a s b
    proof -
      have "(base @ a0) @ Wrote s0 (Body m) # b0 = a @ Wrote s (Body m) # b" using 2(1) eq by simp
      from split_or [OF this] show ?thesis
      proof
        assume "\<exists>c. base @ a0 = a @ Wrote s (Body m) # c \<and> b = c @ Wrote s0 (Body m) # b0"
        then show ?thesis using base' unfolding body_settled_def by (metis append_Cons)
      next
        assume "\<exists>c. a = (base @ a0) @ c \<and> Wrote s0 (Body m) # b0 = c @ Wrote s (Body m) # b"
        then show ?thesis using 2(3) by (auto simp: Cons_eq_append_conv)
      qed
    qed
    then show ?thesis
      using 2(3,4) unfolding rewritten_after_refusal_def body_settled_def by metis
  qed
  then show "rewritten_after_refusal m acts" "again \<Longrightarrow> body_settled m acts" by auto
qed

lemma try_addresses_writes_once:
  "try_addresses codes net timeoutMs credentials m addresses lastFailure t = Some (outcome, t') \<Longrightarrow>
     body_settled m (tk_acts t) \<Longrightarrow> rewritten_after_refusal m (tk_acts t')"
proof (induction codes net timeoutMs credentials m addresses lastFailure t rule: try_addresses.induct)
  case (1 codes net timeoutMs credentials m lastFailure t)
  then show ?case by (simp add: rewritten_of_settled)
next
  case (2 codes net timeoutMs credentials m pinned rest lastFailure t)
  obtain r1 t1 where o: "open_pinned net (pa_address pinned) (sc_port credentials) timeoutMs t = Some (r1, t1)"
    using 2(4) by (auto split: option.splits)
  then obtain n1 where "tk_acts t1 = tk_acts t @ n1" "bodyless m n1"
    by (auto simp: open_pinned_def Let_def split: prod.splits sum.splits)
  then have c1: "body_settled m (tk_acts t1)" using 2(5) body_settled_append by simp
  show ?case
  proof (cases r1)
    case (Inl e)
    then show ?thesis using 2(1) [OF o refl Inl] 2(4) o c1 by simp
  next
    case (Inr u)
    obtain r2 t2 where s: "secure_first net (sc_port credentials) (sc_hostname credentials) timeoutMs t1 = Some (r2, t2)"
      using 2(4) o Inr by (auto split: option.splits)
    then obtain n2 where "tk_acts t2 = tk_acts t1 @ n2" "bodyless m n2"
      by (auto simp: secure_first_def upgrade_def treturn_def Let_def split: if_splits prod.splits sum.splits)
    then have c2: "body_settled m (tk_acts t2)" using c1 body_settled_append by simp
    show ?thesis
    proof (cases r2)
      case l: (Inl e)
      have "body_settled m (tk_acts (act Destroyed t2))" using body_settled_append [OF c2, of "[Destroyed]"] by simp
      then show ?thesis using 2 o Inr s l by simp
    next
      case r: (Inr v)
      obtain c t3 where cv: "converse codes net timeoutMs ''openmcc'' credentials m t2 = Some (c, t3)"
        using 2(4) o Inr s r by (auto split: option.splits)
      note acc = body_accounted_settled [OF c2 converse_writes_once [OF cv]]
      show ?thesis using 2 o Inr s r cv acc by (cases c) auto
    qed
  qed
qed

section \<open>Replies in pieces\<close>

text \<open>A server that sends the given pieces, whatever is written to it, and then ends.\<close>

fun script_next :: "string list \<Rightarrow> socket_event \<times> string list" where
  "script_next [] = (Ended, [])"
| "script_next (chunk # chunks) = (Arrived chunk, chunks)"

lemma await_script:
  "read_reply (tk_buffer t @ concat (tk_net t)) = Some (reply, rest) \<Longrightarrow> tk_failure t = None \<Longrightarrow>
     \<exists>t'. await_reply script_next t = Some (Inr reply, t') \<and> tk_buffer t' @ concat (tk_net t') = rest"
proof (induction "tk_net t" arbitrary: t)
  case Nil
  then show ?case by (simp add: await_reply.simps Nil.hyps [symmetric])
next
  case (Cons chunk chunks)
  show ?case
  proof (cases "read_reply (tk_buffer t)")
    case (Some found)
    obtain r left where f: "found = (r, left)" by fastforce
    have "read_reply (tk_buffer t @ concat (tk_net t)) = Some (r, left @ concat (tk_net t))"
      by (rule read_reply_append) (simp add: Some f)
    then show ?thesis using Cons.prems Some f by (simp add: await_reply.simps)
  next
    case None
    let ?t = "t\<lparr>tk_net := chunks, tk_buffer := tk_buffer t @ chunk\<rparr>"
    have "await_reply script_next t = await_reply script_next ?t"
      using None Cons.prems(2) by (subst await_reply.simps) (simp add: Cons.hyps(2) [symmetric])
    moreover have "\<exists>t'. await_reply script_next ?t = Some (Inr reply, t') \<and> tk_buffer t' @ concat (tk_net t') = rest"
      using Cons.hyps(1) [of ?t] Cons.prems by (simp add: Cons.hyps(2) [symmetric])
    ultimately show ?thesis by simp
  qed
qed

section \<open>Conversations end\<close>

text \<open>The socket emits only finitely much before it fails or ends.\<close>

inductive falls_silent :: "('n \<Rightarrow> socket_event \<times> 'n) \<Rightarrow> 'n \<Rightarrow> bool" for next_event where
  "(\<And>chunk n'. next_event n = (Arrived chunk, n') \<Longrightarrow> falls_silent next_event n') \<Longrightarrow> falls_silent next_event n"

lemma falls_silent_script: "falls_silent script_next chunks"
proof (induction chunks)
  case Nil
  show ?case by (rule falls_silent.intros) simp
next
  case (Cons chunk chunks)
  then show ?case by (auto intro: falls_silent.intros)
qed

lemma await_reply_total:
  "falls_silent next_event n \<Longrightarrow> tk_net t = n \<Longrightarrow> \<exists>y. await_reply next_event t = Some y"
proof (induction arbitrary: t rule: falls_silent.induct)
  case (1 n)
  show ?case
  proof (cases "read_reply (tk_buffer t)")
    case None
    obtain ev n' where n': "next_event (tk_net t) = (ev, n')" by fastforce
    show ?thesis
    proof (cases ev)
      case (Arrived chunk)
      let ?t = "t\<lparr>tk_net := n', tk_buffer := tk_buffer t @ chunk\<rparr>"
      have "\<exists>y. await_reply next_event ?t = Some y" using 1(2) [of chunk n' ?t] n' Arrived 1(3) by simp
      then show ?thesis
        using None n' Arrived by (subst await_reply.simps) (auto simp: Let_def split: option.split)
    qed (use None n' in \<open>subst await_reply.simps; simp\<close>)+
  qed (auto simp: await_reply.simps)
qed

definition answers :: "('n, 'a) talking \<Rightarrow> bool" where
  "answers m \<longleftrightarrow> (\<forall>t. \<exists>y. m t = Some y)"

lemma total_tbind: "answers m \<Longrightarrow> (\<And>x. answers (f x)) \<Longrightarrow> answers (tbind m f)"
proof -
  assume m: "answers m" and f: "\<And>x. answers (f x)"
  have "\<exists>y. tbind m f t = Some y" for t
  proof -
    obtain r t' where "m t = Some (r, t')" using m unfolding answers_def by (metis surj_pair)
    then show ?thesis using f unfolding answers_def tbind_def by (cases r) auto
  qed
  then show ?thesis by (simp add: answers_def)
qed

lemma total_treturn [simp]: "answers (treturn x)"
  by (simp add: answers_def treturn_def)

lemma total_if: "answers m \<Longrightarrow> answers n \<Longrightarrow> answers (if b then m else n)"
  by simp

lemma total_say: "answers (say net line)"
  by (auto simp: answers_def say_def split: prod.splits)

definition always_ends :: "'n smtp_net \<Rightarrow> bool" where
  "always_ends net \<longleftrightarrow> (\<forall>n. falls_silent (nw_next net) n)"

lemma total_read: "always_ends net \<Longrightarrow> answers (read_next net)"
  using await_reply_total by (fastforce simp: answers_def read_next_def always_ends_def split: option.split)

lemma total_step: "always_ends net \<Longrightarrow> answers (smtp_step net line)"
  unfolding smtp_step_def by (auto intro: total_tbind total_say total_read)

lemma total_recipients: "always_ends net \<Longrightarrow> answers (ask_recipients net rs refusals takers)"
  by (induction net rs refusals takers rule: ask_recipients.induct) (auto intro!: total_tbind total_step)

lemma total_after: "answers m \<Longrightarrow> \<exists>y. m t = Some y"
  by (simp add: answers_def)

lemma total_write_body: "always_ends net \<Longrightarrow> answers (write_body net m refusals)"
proof -
  assume ends: "always_ends net"
  have quit: "answers (quit_with net landed)" for landed
    by (auto simp: answers_def quit_with_def say_def split: prod.splits)
  have "answers (tbind (smtp_step net (Body m)) (\<lambda>accepted.
       if \<not> is_positive accepted then treturn (by_reply (sr_code accepted) refused_message)
       else quit_with net
         (Settled (if refusals = [] then OutDelivered (Some (int (sr_code accepted)))
                   else OutTerminal (Some (int (explains refusals))) partial_refusal False None))))"
    by (intro total_tbind total_if total_treturn total_step ends quit)
  then show ?thesis unfolding answers_def write_body_def by blast
qed

lemma total_send_message: "always_ends net \<Longrightarrow> answers (send_message net m)"
  unfolding send_message_def
  by (auto intro!: total_tbind total_if total_step total_recipients total_write_body split: prod.split)

lemma total_sign_in: "always_ends net \<Longrightarrow> answers (sign_in net credentials m capabilities)"
  unfolding sign_in_def Let_def by (auto intro!: total_tbind total_if total_step total_send_message)

lemma total_start_tls: "always_ends net \<Longrightarrow> answers (start_tls net timeoutMs name credentials m capabilities)"
proof -
  assume ends: "always_ends net"
  have up: "answers (upgrade net hostname timeoutMs)" for hostname
    by (auto simp: answers_def upgrade_def Let_def split: prod.splits sum.splits)
  have "answers (tbind (smtp_step net (Ehlo name)) (\<lambda>again.
       if \<not> is_positive again then treturn (by_reply (sr_code again) unexpected)
       else sign_in net credentials m again))"
    by (intro total_tbind total_if total_treturn total_step total_sign_in ends)
  then have "answers (greet_again net name credentials m)" unfolding answers_def greet_again_def by blast
  then have "answers (tbind (upgrade net (sc_hostname credentials) timeoutMs) (\<lambda>_. greet_again net name credentials m))"
    by (intro total_tbind up)
  then have "answers (upgrade_and_greet net timeoutMs name credentials m ready)" for ready
    unfolding answers_def upgrade_and_greet_def by (simp add: treturn_def)
  then show ?thesis
    unfolding start_tls_def by (intro total_if total_treturn total_tbind total_step ends)
qed

lemma total_greet: "always_ends net \<Longrightarrow> answers (greet net timeoutMs name credentials m)"
  unfolding greet_def
  by (intro total_tbind total_if total_treturn total_step total_read total_start_tls total_sign_in)

lemma converse_total: "always_ends net \<Longrightarrow> \<exists>y. converse codes net timeoutMs name credentials m t = Some y"
proof -
  assume "always_ends net"
  then obtain r t' where
    "greet net timeoutMs name credentials m (create_reader (t\<lparr>tk_dataWritten := False\<rparr>)) = Some (r, t')"
    using total_greet total_after by (metis surj_pair)
  then show ?thesis by (cases r) (auto simp: converse_def Let_def)
qed

lemma try_addresses_total:
  assumes "always_ends net"
  shows "\<exists>y. try_addresses codes net timeoutMs credentials m addresses lastFailure t = Some y"
proof (induction addresses arbitrary: lastFailure t)
  case (Cons pinned rest)
  have "answers (open_pinned net (pa_address pinned) (sc_port credentials) timeoutMs)"
    by (auto simp: answers_def open_pinned_def Let_def split: prod.splits sum.splits)
  then obtain r1 t1 where o: "open_pinned net (pa_address pinned) (sc_port credentials) timeoutMs t = Some (r1, t1)"
    using total_after by (metis surj_pair)
  have "answers (secure_first net (sc_port credentials) (sc_hostname credentials) timeoutMs)"
    by (auto simp: answers_def secure_first_def upgrade_def treturn_def Let_def split: prod.splits sum.splits)
  then obtain r2 t2 where
    s: "secure_first net (sc_port credentials) (sc_hostname credentials) timeoutMs t1 = Some (r2, t2)"
    using total_after by (metis surj_pair)
  obtain c t3 where "converse codes net timeoutMs ''openmcc'' credentials m t2 = Some (c, t3)"
    using converse_total [OF assms] by (metis surj_pair)
  then show ?case using o s Cons.IH by (auto split: sum.split conversation.split)
qed simp

text \<open>Sending mail returns where no socket emits for ever.\<close>

lemma deliver_email_total:
  assumes "always_ends net"
  shows "\<exists>outcome t'. deliver_email codes net lookup settings deliveryId title body policy timeoutMs utc t = Some (outcome, t')"
proof -
  obtain verdict n where
    r: "resolve_pinned lookup (lower (bare_hostname (es_smtpServer settings))) policy (tk_net t) = (verdict, n)" by fastforce
  have "\<exists>y. deliver_email codes net lookup settings deliveryId title body policy timeoutMs utc t = Some y"
    using r try_addresses_total [OF assms] by (cases verdict) (simp_all add: deliver_email_def Let_def)
  then show ?thesis by (metis surj_pair)
qed

section \<open>A server that answers by a script\<close>

definition scripted :: "string list smtp_net" where
  "scripted =
     \<lparr>nw_open = (\<lambda>address port timeoutMs n. (Inr (), n)), nw_secure = (\<lambda>options timeoutMs n. (Inr (), n)),
      nw_write = (\<lambda>line n. (Inr (), [], n)), nw_next = script_next\<rparr>"

lemma always_ends_scripted: "always_ends scripted"
  by (simp add: always_ends_def scripted_def falls_silent_script)

lemma scripted_reply:
  assumes "tk_net t = reply_text code said # rest" and "tk_buffer t = []" and "tk_failure t = None"
    and "code < 1000" and "said \<noteq> []" and "list_all one_line said"
  shows "read_next scripted t =
     Some (Inr \<lparr>sr_code = code, sr_lines = said\<rparr>, act (Heard code) (t\<lparr>tk_net := rest\<rparr>))"
proof -
  have "read_reply (tk_buffer t) = None"
    using assms(2) by (simp add: read_reply_def read_reply_from.simps)
  moreover have "read_reply (reply_text code said) = Some (\<lparr>sr_code = code, sr_lines = said\<rparr>, [])"
    using read_reply_rendered [OF assms(4-6), of "[]"] by simp
  ultimately show ?thesis
    using assms by (simp add: read_next_def scripted_def await_reply.simps [of script_next] act_def)
qed

lemma scripted_step:
  assumes "tk_net t = reply_text code said # rest" and "tk_buffer t = []" and "tk_failure t = None"
    and "code < 1000" and "said \<noteq> []" and "list_all one_line said"
  shows "smtp_step scripted line t =
     Some (Inr \<lparr>sr_code = code, sr_lines = said\<rparr>,
       act (Heard code) (act (Wrote (tk_secure t) line) (t\<lparr>tk_net := rest\<rparr>)))"
proof -
  have "say scripted line t = Some (Inr (), act (Wrote (tk_secure t) line) t)"
    by (simp add: say_def scripted_def act_def)
  moreover have "tk_net (act (Wrote (tk_secure t) line) t) = reply_text code said # rest" using assms by simp
  ultimately show ?thesis
    using scripted_reply [of "act (Wrote (tk_secure t) line) t" code said rest] assms
    by (simp add: smtp_step_def tbind_def act_def)
qed

text \<open>A server that takes the message up to \<open>DATA\<close>, which it answers with \<open>250\<close>.\<close>

definition hasty_script :: "string list" where
  "hasty_script =
     [reply_text 220 [''ready''], reply_text 250 [''mail'', ''AUTH PLAIN''], reply_text 235 [''welcome''],
      reply_text 250 [''sender''], reply_text 250 [''recipient''], reply_text 250 [''done'']]"

definition scripted_talk :: "bool \<Rightarrow> string list \<Rightarrow> string list talk" where
  "scripted_talk tls chunks =
     \<lparr>tk_net = chunks, tk_buffer = [], tk_failure = None, tk_secure = tls, tk_dataWritten = False, tk_acts = []\<rparr>"

definition small_settings :: email_settings where
  "small_settings =
     \<lparr>es_smtpServer = ''1.1.1.1'', es_smtpPort = 465, es_username = ''u'', es_password = ''p'',
      es_fromAddress = ''a@b'', es_toAddresses = [''c@d'']\<rparr>"

definition small_credentials :: smtp_credentials where
  "small_credentials = \<lparr>sc_hostname = ''1.1.1.1'', sc_port = 465, sc_username = ''u'', sc_password = ''p''\<rparr>"

definition small_message :: smtp_message where
  "small_message = email_message small_settings ''d'' ''t'' ''b'' ''now''"

lemma small_mechanisms: "auth_mechanisms \<lparr>sr_code = 250, sr_lines = [''mail'', ''AUTH PLAIN'']\<rparr> = [''PLAIN'']"
  by (simp add: auth_mechanisms_def Let_def trim_def is_space_def upper_def upper_char_def char_of_eq_iff)

lemma hasty_delivered:
  "converse (\<lambda>_. \<lparr>ec_own = None, ec_cause = None\<rparr>) scripted 1000 ''openmcc'' small_credentials small_message
     (scripted_talk True hasty_script) =
   Some (Settled (OutDelivered (Some 250)),
     (scripted_talk True []) \<lparr>tk_acts :=
        [Heard 220, Wrote True (Ehlo ''openmcc''), Heard 250, Wrote True (AuthPlain ''u'' ''p''), Heard 235,
         Wrote True (MailFrom ''a@b''), Heard 250, Wrote True (RcptTo ''c@d''), Heard 250,
         Wrote True DataLine, Heard 250, Destroyed]\<rparr>)"
proof -
  note run = converse_def greet_def sign_in_def send_message_def tbind_def treturn_def create_reader_def
    scripted_reply scripted_step small_mechanisms hasty_script_def scripted_talk_def is_positive_def
    needs_start_tls_def implicit_tls_port_def small_credentials_def small_message_def small_settings_def
    email_message_def by_reply_def is_transient_def classify_smtp_reply_def cr_def lf_def Let_def
  show ?thesis by (simp add: run act_def del: reply_text.simps)
qed

text \<open>Over a whole sending the message is written again only after a transient refusal of it.\<close>

lemma deliver_email_writes_once:
  assumes "deliver_email codes net lookup settings deliveryId title body policy timeoutMs utc t = Some (outcome, t')"
    and "tk_acts t = []"
  shows "rewritten_after_refusal (email_message settings deliveryId title body utc) (tk_acts t')"
proof -
  let ?host = "lower (bare_hostname (es_smtpServer settings))"
  obtain verdict n where r: "resolve_pinned lookup ?host policy (tk_net t) = (verdict, n)" by fastforce
  have none: "body_settled m []" for m by (simp add: body_settled_def)
  show ?thesis
  proof (cases verdict)
    case (PinRefused reason)
    then have "tk_acts t' = []" using assms r by (auto simp: deliver_email_def)
    then show ?thesis by (simp add: rewritten_of_settled none)
  next
    case (PinOk addresses)
    then have run: "try_addresses codes net timeoutMs
            \<lparr>sc_hostname = ?host, sc_port = es_smtpPort settings, sc_username = es_username settings,
             sc_password = es_password settings\<rparr>
            (email_message settings deliveryId title body utc) addresses (classify_refusal nowhere)
            (t\<lparr>tk_net := n\<rparr>) = Some (outcome, t')"
      using assms(1) r by (simp add: deliver_email_def Let_def)
    show ?thesis by (rule try_addresses_writes_once [OF run]) (simp add: assms(2) none)
  qed
qed

end
