(* ===== verification/Sender.thy ===== *)
theory Sender
  imports Encoding Failure Pinned Delivery
begin

text \<open>
  What each provider is sent: \<open>packages/core/src/notification/sender.ts\<close>, \<open>signature.ts\<close> and
  \<open>dispatch.ts\<close>, with the stored settings of \<open>packages/contracts/src/notification.ts\<close>.

  Texts are lists of code points. The transport, the HMAC, the reading of base64 keys, the opening
  of sealed settings and their schema are parameters; \<open>JSON.stringify\<close> is modelled.
\<close>

section \<open>JSON text\<close>

datatype jdoc = JText "nat list" | JInt int | JTrue | JFalse | JList "jdoc list" | JRecord "(string \<times> jdoc) list"

definition hex_digit :: "nat \<Rightarrow> nat" where
  "hex_digit n = (if n < 10 then 48 + n else 87 + n)"

definition unicode_escape :: "nat \<Rightarrow> nat list" where
  "unicode_escape p =
     [92, 117, hex_digit (p div 4096 mod 16), hex_digit (p div 256 mod 16), hex_digit (p div 16 mod 16), hex_digit (p mod 16)]"

definition escape_point :: "nat \<Rightarrow> nat list" where
  "escape_point p =
     (if p = 34 \<or> p = 92 then [92, p]
      else if p = 8 then [92, 98] else if p = 9 then [92, 116] else if p = 10 then [92, 110]
      else if p = 12 then [92, 102] else if p = 13 then [92, 114]
      else if p < 32 \<or> (55296 \<le> p \<and> p < 57344) then unicode_escape p
      else [p])"

definition quoted :: "nat list \<Rightarrow> nat list" where
  "quoted ps = 34 # concat (map escape_point ps) @ [34]"

fun stringify :: "jdoc \<Rightarrow> nat list" where
  "stringify (JText ps) = quoted ps"
| "stringify (JInt i) = points_of (int_string i)"
| "stringify JTrue = points_of ''true''"
| "stringify JFalse = points_of ''false''"
| "stringify (JList ds) = 91 # join_with [44] (map stringify ds) @ [93]"
| "stringify (JRecord fs) = 123 # join_with [44] (map (\<lambda>(k, d). quoted (points_of k) @ 58 # stringify d) fs) @ [125]"

definition jtext :: "string \<Rightarrow> jdoc" where "jtext s = JText (points_of s)"

section \<open>Signatures\<close>

definition signing_secret_prefix :: string where "signing_secret_prefix = ''whsec_''"
definition signature_version :: string where "signature_version = ''v1''"

definition signing_key_bytes :: "(string \<Rightarrow> nat list) \<Rightarrow> string \<Rightarrow> nat list" where
  "signing_key_bytes decode secret =
     decode (if starts_with secret signing_secret_prefix then drop (length signing_secret_prefix) secret else secret)"

definition signed_content :: "string \<Rightarrow> string \<Rightarrow> nat list \<Rightarrow> nat list" where
  "signed_content ident_text timestamp body = points_of ident_text @ 46 # points_of timestamp @ 46 # body"

definition sign_payload ::
    "(nat list \<Rightarrow> nat list \<Rightarrow> nat list) \<Rightarrow> (string \<Rightarrow> nat list) \<Rightarrow> string \<Rightarrow> string \<Rightarrow> string \<Rightarrow> nat list \<Rightarrow> string" where
  "sign_payload hmac decode secret ident_text timestamp body =
     signature_version @ CHR '','' #
       base64 (hmac (signing_key_bytes decode secret) (utf8_bytes (signed_content ident_text timestamp body)))"

definition signature_header ::
    "(nat list \<Rightarrow> nat list \<Rightarrow> nat list) \<Rightarrow> (string \<Rightarrow> nat list) \<Rightarrow> string list \<Rightarrow> string \<Rightarrow> string \<Rightarrow> nat list \<Rightarrow> string" where
  "signature_header hmac decode secrets ident_text timestamp body =
     join_with '' '' (map (\<lambda>secret. sign_payload hmac decode secret ident_text timestamp body) secrets)"

definition verify_signature ::
    "(nat list \<Rightarrow> nat list \<Rightarrow> nat list) \<Rightarrow> (string \<Rightarrow> nat list) \<Rightarrow> string \<Rightarrow> string \<Rightarrow> string \<Rightarrow> string \<Rightarrow> nat list \<Rightarrow> bool" where
  "verify_signature hmac decode offered secret ident_text timestamp body =
     (let expected = sign_payload hmac decode secret ident_text timestamp body in
      list_ex (\<lambda>candidate. candidate = expected)
        (filter (\<lambda>candidate. 0 < length candidate) (split_on (CHR '' '') offered)))"

section \<open>Stored settings\<close>

record webhook_config =
  wc_url :: string
  wc_signingSecret :: string
  wc_previousSigningSecret :: "string option"
  wc_previousSigningSecretExpiresAt :: "string option"

datatype stored_config =
    WebhookStored webhook_config
  | TelegramStored string string "int option"
  | DiscordStored string
  | SlackStored string
  | TeamsStored string
  | GotifyStored string string int
  | NtfyStored string string "string option" int
  | ResendStored string string "string list"
  | EmailStored string int string string string "string list"

text \<open>\<open>read_date\<close> is \<open>new Date(text).getTime()\<close>, \<open>None\<close> for NaN.\<close>

definition usable_signing_secrets :: "(string \<Rightarrow> time option) \<Rightarrow> webhook_config \<Rightarrow> time \<Rightarrow> string list" where
  "usable_signing_secrets read_date config now =
     (case (wc_previousSigningSecret config, wc_previousSigningSecretExpiresAt config) of
        (Some previous, Some expiresAt) \<Rightarrow>
          (case read_date expiresAt of
             None \<Rightarrow> [wc_signingSecret config]
           | Some until \<Rightarrow>
               if until \<le> now then [wc_signingSecret config] else [wc_signingSecret config, previous])
      | _ \<Rightarrow> [wc_signingSecret config])"

section \<open>Senders\<close>

fun notification_kind_text :: "notification_kind \<Rightarrow> string" where
  "notification_kind_text (EventNotification k) = event_kind_text k"
| "notification_kind_text TestNotification = ''test''"

fun subject_text :: "subject_type \<Rightarrow> string" where
  "subject_text HostSubjectType = ''host''"
| "subject_text InstanceSubjectType = ''instance''"

definition webhook_body :: "notification_envelope \<Rightarrow> nat list" where
  "webhook_body envelope =
     stringify (JRecord
       [(''type'', jtext (notification_kind_text (en_kind envelope))),
        (''timestamp'', jtext (iso_string (en_occurredAt envelope))),
        (''data'', JRecord
           [(''id'', jtext (en_id envelope)),
            (''title'', jtext (en_title envelope)),
            (''body'', jtext (en_body envelope)),
            (''subject'', JRecord [(''type'', jtext (subject_text (en_subjectType envelope))),
                                   (''id'', jtext (en_subjectId envelope))])])])"

type_synonym 'w transport = "pinned_request \<Rightarrow> ('w, pinned_result) io"

definition attempt_send ::
    "(thrown \<Rightarrow> error_codes) \<Rightarrow> pinned_request \<Rightarrow> 'w transport \<Rightarrow> (http_response \<Rightarrow> delivery_outcome)
      \<Rightarrow> 'w \<Rightarrow> delivery_outcome \<times> 'w" where
  "attempt_send codes request transport onSent w =
     (case transport request w of
        (Inl e, w') \<Rightarrow> (classify_network_failure (network_reason codes e), w')
      | (Inr (PinnedNotSent reason), w') \<Rightarrow> (classify_refusal reason, w')
      | (Inr (PinnedSent response), w') \<Rightarrow> (onSent response, w'))"

definition post_request :: "string \<Rightarrow> (string \<times> nat list) list \<Rightarrow> nat list \<Rightarrow> egress_policy \<Rightarrow> pinned_request" where
  "post_request url headers body policy =
     \<lparr>pq_url = url, pq_method = ''POST'', pq_headers = headers, pq_body = Some body,
      pq_timeoutMs = Some delivery_timeout_ms, pq_maxResponseBytes = None, pq_policy = Some policy\<rparr>"

definition header_of :: "string \<Rightarrow> string \<Rightarrow> string \<times> nat list" where
  "header_of name v = (name, points_of v)"

definition json_headers :: "(string \<times> nat list) list" where
  "json_headers = [header_of ''content-type'' ''application/json'', header_of ''user-agent'' ''OpenMCC'']"

definition retry_after :: "http_response \<Rightarrow> string option" where
  "retry_after response = map_of (hr_headers response) ''retry-after''"

definition by_status :: "(string \<Rightarrow> time option) \<Rightarrow> time \<Rightarrow> http_response \<Rightarrow> delivery_outcome" where
  "by_status parse_date now response = classify_http_status parse_date (hr_status response) (retry_after response) now"

definition webhook_request ::
    "(nat list \<Rightarrow> nat list \<Rightarrow> nat list) \<Rightarrow> (string \<Rightarrow> nat list) \<Rightarrow> string \<Rightarrow> string list \<Rightarrow> notification_envelope
      \<Rightarrow> time \<Rightarrow> egress_policy \<Rightarrow> pinned_request" where
  "webhook_request hmac decode url secrets envelope now policy =
     (let body = webhook_body envelope; timestamp = int_string (now div 1000) in
      post_request url
        (json_headers @
         [header_of ''webhook-id'' (en_id envelope),
          header_of ''webhook-timestamp'' timestamp,
          header_of ''webhook-signature'' (signature_header hmac decode secrets (en_id envelope) timestamp body)])
        body policy)"

definition telegram_text :: "notification_envelope \<Rightarrow> nat list" where
  "telegram_text envelope = points_of (en_title envelope @ lf # en_body envelope)"

definition telegram_url :: "string \<Rightarrow> string" where
  "telegram_url botToken = ''https://api.telegram.org/bot'' @ botToken @ ''/sendMessage''"

definition telegram_request ::
    "string \<Rightarrow> string \<Rightarrow> int option \<Rightarrow> notification_envelope \<Rightarrow> egress_policy \<Rightarrow> pinned_request" where
  "telegram_request botToken chatId messageThreadId envelope policy =
     post_request (telegram_url botToken) json_headers
       (stringify (JRecord
         ([(''chat_id'', jtext chatId), (''text'', JText (telegram_text envelope)),
           (''disable_notification'', JFalse), (''disable_web_page_preview'', JTrue)]
          @ (case messageThreadId of None \<Rightarrow> [] | Some thread \<Rightarrow> [(''message_thread_id'', JInt thread)]))))
       policy"

definition discord_content_chars :: nat where "discord_content_chars = 2000"
definition slack_text_chars :: nat where "slack_text_chars = 4000"
definition teams_body_bytes :: nat where "teams_body_bytes = 25000"
definition teams_text_bytes :: nat where "teams_text_bytes = 20000"
definition teams_title_chars :: nat where "teams_title_chars = 250"
definition ntfy_message_bytes :: nat where "ntfy_message_bytes = 4096"
definition ntfy_title_chars :: nat where "ntfy_title_chars = 250"
definition operational_text_chars :: nat where "operational_text_chars = 4000"

definition resolving_kind :: "notification_kind \<Rightarrow> bool" where
  "resolving_kind kind = (case kind of EventNotification k \<Rightarrow> k \<in> set resolving_event_kinds | TestNotification \<Rightarrow> False)"

definition plain_text :: "notification_envelope \<Rightarrow> nat list" where
  "plain_text envelope = points_of (en_title envelope @ lf # en_body envelope)"

definition discord_content :: "notification_envelope \<Rightarrow> nat list" where
  "discord_content envelope = truncate_chars (plain_text envelope) discord_content_chars"

definition discord_body :: "notification_envelope \<Rightarrow> nat list" where
  "discord_body envelope = stringify (JRecord [(''content'', JText (discord_content envelope))])"

definition slack_text :: "notification_envelope \<Rightarrow> nat list" where
  "slack_text envelope = truncate_chars (plain_text envelope) slack_text_chars"

definition slack_body :: "notification_envelope \<Rightarrow> nat list" where
  "slack_body envelope = stringify (JRecord [(''text'', JText (slack_text envelope))])"

definition teams_title :: "notification_envelope \<Rightarrow> nat list" where
  "teams_title envelope =
     (if resolving_kind (en_kind envelope) then [0x2705] else [0x26A0, 0xFE0F])
     @ 32 # truncate_chars (points_of (en_title envelope)) teams_title_chars"

definition teams_text :: "notification_envelope \<Rightarrow> nat list" where
  "teams_text envelope = truncate_bytes (points_of (en_body envelope)) teams_text_bytes"

definition teams_body :: "notification_envelope \<Rightarrow> nat list" where
  "teams_body envelope =
     stringify (JRecord
       [(''type'', jtext ''message''),
        (''attachments'', JList [JRecord
           [(''contentType'', jtext ''application/vnd.microsoft.card.adaptive''),
            (''content'', JRecord
               [(''type'', jtext ''AdaptiveCard''),
                (''$schema'', jtext ''http://adaptivecards.io/schemas/adaptive-card.json''),
                (''version'', jtext ''1.2''),
                (''body'', JList
                   [JRecord [(''type'', jtext ''TextBlock''), (''text'', JText (teams_title envelope)),
                             (''size'', jtext ''Medium''), (''weight'', jtext ''Bolder''), (''wrap'', JTrue)],
                    JRecord [(''type'', jtext ''TextBlock''), (''text'', JText (teams_text envelope)),
                             (''wrap'', JTrue)]])])]])])"

text \<open>\<open>serverUrl.replace(/\/+$/, "")\<close>\<close>

definition without_slashes :: "string \<Rightarrow> string" where
  "without_slashes url = rev (dropWhile (\<lambda>c. c = CHR ''/'') (rev url))"

definition gotify_url :: "string \<Rightarrow> string" where
  "gotify_url serverUrl = without_slashes serverUrl @ ''/message''"

definition gotify_body :: "notification_envelope \<Rightarrow> int \<Rightarrow> nat list" where
  "gotify_body envelope priority =
     stringify (JRecord
       [(''title'', JText (truncate_chars (points_of (en_title envelope)) teams_title_chars)),
        (''message'', JText (truncate_chars (points_of (en_body envelope)) operational_text_chars)),
        (''priority'', JInt priority),
        (''extras'', JRecord [(''client::display'', JRecord [(''contentType'', jtext ''text/plain'')])])])"

definition ntfy_message :: "notification_envelope \<Rightarrow> nat list" where
  "ntfy_message envelope = truncate_bytes (points_of (en_body envelope)) ntfy_message_bytes"

definition ntfy_url :: "string \<Rightarrow> string \<Rightarrow> string" where
  "ntfy_url serverUrl topic = without_slashes serverUrl @ CHR ''/'' # topic"

definition ntfy_request ::
    "string \<Rightarrow> string \<Rightarrow> string option \<Rightarrow> int \<Rightarrow> notification_envelope \<Rightarrow> egress_policy \<Rightarrow> pinned_request" where
  "ntfy_request serverUrl topic accessToken priority envelope policy =
     post_request (ntfy_url serverUrl topic)
       ([header_of ''content-type'' ''text/plain; charset=utf-8'', header_of ''user-agent'' ''OpenMCC'',
         (''x-title'', truncate_chars (points_of (en_title envelope)) ntfy_title_chars),
         header_of ''x-priority'' (int_string priority)]
        @ (case accessToken of None \<Rightarrow> [] | Some token \<Rightarrow> [header_of ''authorization'' (''Bearer '' @ token)]))
       (ntfy_message envelope) policy"

definition resend_url :: string where "resend_url = ''https://api.resend.com/emails''"

definition resend_body :: "notification_envelope \<Rightarrow> string \<Rightarrow> string list \<Rightarrow> nat list" where
  "resend_body envelope from_address to_addresses =
     stringify (JRecord
       [(''from'', jtext from_address), (''to'', JList (map jtext to_addresses)),
        (''subject'', JText (truncate_chars (points_of (en_title envelope)) teams_title_chars)),
        (''text'', JText (truncate_chars (points_of (en_body envelope)) operational_text_chars))])"

definition resend_request ::
    "string \<Rightarrow> string \<Rightarrow> string list \<Rightarrow> notification_envelope \<Rightarrow> egress_policy \<Rightarrow> pinned_request" where
  "resend_request apiKey from_address to_addresses envelope policy =
     post_request resend_url
       (json_headers @ [header_of ''authorization'' (''Bearer '' @ apiKey), header_of ''idempotency-key'' (en_deliveryId envelope)])
       (resend_body envelope from_address to_addresses) policy"

definition deliver_webhook ::
    "(thrown \<Rightarrow> error_codes) \<Rightarrow> (nat list \<Rightarrow> nat list \<Rightarrow> nat list) \<Rightarrow> (string \<Rightarrow> nat list) \<Rightarrow> (string \<Rightarrow> time option)
      \<Rightarrow> 'w transport \<Rightarrow> string \<Rightarrow> string list \<Rightarrow> notification_envelope \<Rightarrow> egress_policy \<Rightarrow> time \<Rightarrow> 'w \<Rightarrow> delivery_outcome \<times> 'w" where
  "deliver_webhook codes hmac decode parse_date transport url secrets envelope policy now =
     attempt_send codes (webhook_request hmac decode url secrets envelope now policy) transport (by_status parse_date now)"

definition deliver_telegram ::
    "(thrown \<Rightarrow> error_codes) \<Rightarrow> (string \<Rightarrow> json option) \<Rightarrow> 'w transport \<Rightarrow> string \<Rightarrow> string \<Rightarrow> int option
      \<Rightarrow> notification_envelope \<Rightarrow> egress_policy \<Rightarrow> 'w \<Rightarrow> delivery_outcome \<times> 'w" where
  "deliver_telegram codes parse_json transport botToken chatId messageThreadId envelope policy =
     attempt_send codes (telegram_request botToken chatId messageThreadId envelope policy) transport
       (\<lambda>response. classify_telegram_reply (hr_status response) (parse_telegram_reply parse_json (hr_body response)))"

definition deliver_discord ::
    "(thrown \<Rightarrow> error_codes) \<Rightarrow> (string \<Rightarrow> time option) \<Rightarrow> (string \<Rightarrow> json option) \<Rightarrow> 'w transport \<Rightarrow> string
      \<Rightarrow> notification_envelope \<Rightarrow> egress_policy \<Rightarrow> time \<Rightarrow> 'w \<Rightarrow> delivery_outcome \<times> 'w" where
  "deliver_discord codes parse_date parse_json transport url envelope policy now =
     attempt_send codes (post_request url json_headers (discord_body envelope) policy) transport
       (\<lambda>response. classify_discord_reply parse_date parse_json (hr_status response) (retry_after response)
                      (hr_body response) now)"

definition deliver_slack ::
    "(thrown \<Rightarrow> error_codes) \<Rightarrow> (string \<Rightarrow> time option) \<Rightarrow> 'w transport \<Rightarrow> string \<Rightarrow> notification_envelope
      \<Rightarrow> egress_policy \<Rightarrow> time \<Rightarrow> 'w \<Rightarrow> delivery_outcome \<times> 'w" where
  "deliver_slack codes parse_date transport url envelope policy now =
     attempt_send codes (post_request url json_headers (slack_body envelope) policy) transport (by_status parse_date now)"

definition deliver_teams ::
    "(thrown \<Rightarrow> error_codes) \<Rightarrow> (string \<Rightarrow> time option) \<Rightarrow> 'w transport \<Rightarrow> string \<Rightarrow> notification_envelope
      \<Rightarrow> egress_policy \<Rightarrow> time \<Rightarrow> 'w \<Rightarrow> delivery_outcome \<times> 'w" where
  "deliver_teams codes parse_date transport url envelope policy now =
     attempt_send codes (post_request url json_headers (teams_body envelope) policy) transport (by_status parse_date now)"

definition deliver_gotify ::
    "(thrown \<Rightarrow> error_codes) \<Rightarrow> (string \<Rightarrow> time option) \<Rightarrow> 'w transport \<Rightarrow> string \<Rightarrow> string \<Rightarrow> int \<Rightarrow> notification_envelope
      \<Rightarrow> egress_policy \<Rightarrow> time \<Rightarrow> 'w \<Rightarrow> delivery_outcome \<times> 'w" where
  "deliver_gotify codes parse_date transport serverUrl appToken priority envelope policy now =
     attempt_send codes
       (post_request (gotify_url serverUrl) (json_headers @ [header_of ''x-gotify-key'' appToken]) (gotify_body envelope priority) policy)
       transport (by_status parse_date now)"

definition deliver_ntfy ::
    "(thrown \<Rightarrow> error_codes) \<Rightarrow> (string \<Rightarrow> time option) \<Rightarrow> 'w transport \<Rightarrow> string \<Rightarrow> string \<Rightarrow> string option \<Rightarrow> int
      \<Rightarrow> notification_envelope \<Rightarrow> egress_policy \<Rightarrow> time \<Rightarrow> 'w \<Rightarrow> delivery_outcome \<times> 'w" where
  "deliver_ntfy codes parse_date transport serverUrl topic accessToken priority envelope policy now =
     attempt_send codes (ntfy_request serverUrl topic accessToken priority envelope policy) transport (by_status parse_date now)"

definition deliver_resend ::
    "(thrown \<Rightarrow> error_codes) \<Rightarrow> (string \<Rightarrow> time option) \<Rightarrow> (string \<Rightarrow> json option) \<Rightarrow> 'w transport \<Rightarrow> string \<Rightarrow> string
      \<Rightarrow> string list \<Rightarrow> notification_envelope \<Rightarrow> egress_policy \<Rightarrow> time \<Rightarrow> 'w \<Rightarrow> delivery_outcome \<times> 'w" where
  "deliver_resend codes parse_date parse_json transport apiKey from_address to_addresses envelope policy now =
     attempt_send codes (resend_request apiKey from_address to_addresses envelope policy) transport
       (\<lambda>response. classify_resend_reply parse_date parse_json (hr_status response) (retry_after response)
                      (hr_body response) now)"

definition fits_teams_message :: "nat list \<Rightarrow> bool" where
  "fits_teams_message body \<longleftrightarrow> text_bytes body \<le> teams_body_bytes"

section \<open>Dispatch\<close>

text \<open>
  What the rest of the program provides: the network with the transport over it, the sealed box,
  the schema of the settings, and sending by mail. The clock is read once, at \<open>now\<close>.
\<close>

record 'w sending =
  sg_codes :: "thrown \<Rightarrow> error_codes"
  sg_hmac :: "nat list \<Rightarrow> nat list \<Rightarrow> nat list"
  sg_decode :: "string \<Rightarrow> nat list"
  sg_parse_date :: "string \<Rightarrow> time option"
  sg_parse_json :: "string \<Rightarrow> json option"
  sg_transport :: "'w transport"
  sg_open :: "string \<Rightarrow> string \<Rightarrow> thrown + string"
  sg_parse_config :: "destination_kind \<Rightarrow> json \<Rightarrow> stored_config option"
  sg_email :: "int \<Rightarrow> string \<Rightarrow> string \<Rightarrow> string \<Rightarrow> string \<Rightarrow> string list \<Rightarrow> notification_envelope \<Rightarrow> egress_policy
                 \<Rightarrow> 'w \<Rightarrow> delivery_outcome \<times> 'w"

definition unreadable_settings :: string where
  "unreadable_settings = ''this destination'' @ CHR 0x27 # ''s settings could not be read''"

definition read_destination_config :: "'w sending \<Rightarrow> destination_kind \<Rightarrow> string \<Rightarrow> stored_config option" where
  "read_destination_config sg kind sealed =
     (case sg_parse_json sg sealed of None \<Rightarrow> None | Some decoded \<Rightarrow> sg_parse_config sg kind decoded)"

fun deliver_by :: "'w sending \<Rightarrow> stored_config \<Rightarrow> notification_envelope \<Rightarrow> egress_policy \<Rightarrow> time \<Rightarrow> 'w \<Rightarrow> delivery_outcome \<times> 'w" where
  "deliver_by sg (TelegramStored botToken chatId threadId) envelope policy now =
     deliver_telegram (sg_codes sg) (sg_parse_json sg) (sg_transport sg) botToken chatId threadId envelope policy"
| "deliver_by sg (WebhookStored config) envelope policy now =
     deliver_webhook (sg_codes sg) (sg_hmac sg) (sg_decode sg) (sg_parse_date sg) (sg_transport sg) (wc_url config)
       (usable_signing_secrets (sg_parse_date sg) config now) envelope policy now"
| "deliver_by sg (DiscordStored url) envelope policy now =
     deliver_discord (sg_codes sg) (sg_parse_date sg) (sg_parse_json sg) (sg_transport sg) url envelope policy now"
| "deliver_by sg (SlackStored url) envelope policy now =
     deliver_slack (sg_codes sg) (sg_parse_date sg) (sg_transport sg) url envelope policy now"
| "deliver_by sg (TeamsStored url) envelope policy now =
     deliver_teams (sg_codes sg) (sg_parse_date sg) (sg_transport sg) url envelope policy now"
| "deliver_by sg (GotifyStored serverUrl appToken priority) envelope policy now =
     deliver_gotify (sg_codes sg) (sg_parse_date sg) (sg_transport sg) serverUrl appToken priority envelope policy now"
| "deliver_by sg (NtfyStored serverUrl topic accessToken priority) envelope policy now =
     deliver_ntfy (sg_codes sg) (sg_parse_date sg) (sg_transport sg) serverUrl topic accessToken priority envelope policy now"
| "deliver_by sg (ResendStored apiKey from_address to_addresses) envelope policy now =
     deliver_resend (sg_codes sg) (sg_parse_date sg) (sg_parse_json sg) (sg_transport sg) apiKey from_address to_addresses
       envelope policy now"
| "deliver_by sg (EmailStored smtpServer smtpPort username password from_address to_addresses) envelope policy now =
     sg_email sg smtpPort smtpServer username password from_address to_addresses envelope policy"

definition dispatch_to ::
    "'w sending \<Rightarrow> destination_row \<Rightarrow> notification_envelope \<Rightarrow> egress_policy \<Rightarrow> time \<Rightarrow> 'w \<Rightarrow> delivery_outcome \<times> 'w" where
  "dispatch_to sg destination envelope policy now w =
     (case sg_open sg (dv_secretEncrypted (de_values destination)) (dv_secretKeyId (de_values destination)) of
        Inl _ \<Rightarrow> (classify_refusal unreadable_settings, w)
      | Inr opened \<Rightarrow>
          (case read_destination_config sg (de_kind destination) opened of
             None \<Rightarrow> (classify_refusal unreadable_settings, w)
           | Some settings \<Rightarrow> deliver_by sg settings envelope policy now w))"

section \<open>Lemmas on JSON text\<close>

text \<open>How a reader of JSON reads the rest of a string, after its first quote.\<close>

definition hex_value :: "nat \<Rightarrow> nat" where
  "hex_value p = (if p < 58 then p - 48 else p - 87)"

definition simple_escape :: "nat \<Rightarrow> nat" where
  "simple_escape p =
     (if p = 98 then 8 else if p = 116 then 9 else if p = 110 then 10 else if p = 102 then 12
      else if p = 114 then 13 else p)"

fun read_text :: "nat list \<Rightarrow> (nat list \<times> nat list) option" where
  "read_text [] = None"
| "read_text (p # ps) =
     (if p = 34 then Some ([], ps)
      else if p = 92 then
        (case ps of
           [] \<Rightarrow> None
         | e # others \<Rightarrow>
             if e = 117 then
               (case others of
                  a # b # c # d # rest \<Rightarrow>
                    map_option (\<lambda>(text_read, left).
                        ((((hex_value a * 16 + hex_value b) * 16 + hex_value c) * 16 + hex_value d) # text_read, left))
                      (read_text rest)
                | _ \<Rightarrow> None)
             else map_option (\<lambda>(text_read, left). (simple_escape e # text_read, left)) (read_text others))
      else map_option (\<lambda>(text_read, left). (p # text_read, left)) (read_text ps))"

lemma hex_value_digit: "n < 16 \<Longrightarrow> hex_value (hex_digit n) = n"
  by (auto simp: hex_value_def hex_digit_def)

lemma hex_digits_of: "p < 65536 \<Longrightarrow>
  ((p div 4096 mod 16 * 16 + p div 256 mod 16) * 16 + p div 16 mod 16) * 16 + p mod 16 = p" for p :: nat
proof -
  assume p: "p < 65536"
  have "p div 256 = p div 16 div 16" "p div 4096 = p div 16 div 16 div 16" by (simp_all flip: div_mult2_eq)
  moreover have "p div 16 div 16 div 16 < 16" using p by (simp flip: div_mult2_eq)
  ultimately show ?thesis by simp
qed

lemma read_text_escape:
  "read_text (escape_point p @ rest) = map_option (\<lambda>(text_read, left). (p # text_read, left)) (read_text rest)"
proof -
  consider "p = 34 \<or> p = 92" | "p \<in> {8, 9, 10, 12, 13}"
    | "p \<noteq> 34" "p \<noteq> 92" "p \<notin> {8, 9, 10, 12, 13}" "p < 32 \<or> (55296 \<le> p \<and> p < 57344)"
    | "p \<noteq> 34" "p \<noteq> 92" "p \<notin> {8, 9, 10, 12, 13}" "\<not> (p < 32 \<or> (55296 \<le> p \<and> p < 57344))" by blast
  then show ?thesis
  proof cases
    case 3
    then have "escape_point p = unicode_escape p" by (auto simp: escape_point_def)
    moreover have "p < 65536" using 3(4) by auto
    ultimately show ?thesis
      using hex_digits_of [of p] by (simp add: unicode_escape_def hex_value_digit)
  qed (auto simp: escape_point_def simple_escape_def)
qed

text \<open>A text reads back as itself, and what follows it is left as it was: no text breaks out of its quotes.\<close>

lemma read_text_quoted: "read_text (tl (quoted ps @ rest)) = Some (ps, rest)"
proof -
  have "read_text (concat (map escape_point ps) @ 34 # rest) = Some (ps, rest)"
    by (induction ps) (simp_all add: read_text_escape del: read_text.simps(2), simp)
  then show ?thesis by (simp add: quoted_def)
qed

lemma quoted_inject: "quoted ps @ rest = quoted qs @ others \<Longrightarrow> ps = qs \<and> rest = others"
  using read_text_quoted by (metis option.inject prod.inject)

section \<open>Lemmas on signatures\<close>

text \<open>What is signed determines what was sent, where neither part before the body holds a dot.\<close>

lemma points_of_inject [simp]: "points_of a = points_of b \<longleftrightarrow> a = b"
  by (simp add: points_of_def inj_map_eq_map inj_on_def)

lemma before_dot:
  "(46::nat) \<notin> set a \<Longrightarrow> 46 \<notin> set b \<Longrightarrow> a @ 46 # x = b @ 46 # y \<Longrightarrow> a = b \<and> x = y"
  using split_on_append [of 46 a x] split_on_append [of 46 b y]
  by (metis append_eq_append_conv list.inject same_append_eq)

lemma points_of_no_dot: "CHR ''.'' \<notin> set s \<Longrightarrow> 46 \<notin> set (points_of s)"
proof
  assume "CHR ''.'' \<notin> set s" and "46 \<in> set (points_of s)"
  then obtain c where "c \<in> set s" "(of_char c :: nat) = 46" by (auto simp: points_of_def)
  moreover have "(of_char (CHR ''.'') :: nat) = 46" by simp
  ultimately show False using \<open>CHR ''.'' \<notin> set s\<close> by (metis of_char_eq_iff)
qed

lemma signed_content_inject:
  assumes "signed_content i t b = signed_content i' t' b'"
    and "CHR ''.'' \<notin> set i" "CHR ''.'' \<notin> set t" "CHR ''.'' \<notin> set i'" "CHR ''.'' \<notin> set t'"
  shows "i = i' \<and> t = t' \<and> b = b'"
proof -
  have "points_of i = points_of i' \<and> points_of t @ 46 # b = points_of t' @ 46 # b'"
    using assms(1) before_dot [OF points_of_no_dot [OF assms(2)] points_of_no_dot [OF assms(4)]]
    by (simp add: signed_content_def)
  then show ?thesis
    using before_dot [OF points_of_no_dot [OF assms(3)] points_of_no_dot [OF assms(5)], of b b'] by simp
qed

lemma sign_payload_one_word:
  assumes "\<And>k v. list_all (\<lambda>b. b < 256) (hmac k v)"
  shows "CHR '' '' \<notin> set (sign_payload hmac decode secret i t b) \<and> sign_payload hmac decode secret i t b \<noteq> []"
  using base64_is_text [OF assms [of "signing_key_bytes decode secret" "utf8_bytes (signed_content i t b)"]]
  by (auto simp: sign_payload_def signature_version_def list_all_iff base64_text_def is_alnum_def is_alpha_def is_digit_def)

text \<open>
  A receiver accepts a header exactly where one of the secrets it was made with signs as the
  receiver's secret does: during a rotation the old secret and the new one both do.
\<close>

lemma verify_signature_iff:
  assumes bytes: "\<And>k v. list_all (\<lambda>b. b < 256) (hmac k v)"
  shows "verify_signature hmac decode (signature_header hmac decode secrets i t b) secret i' t' b' \<longleftrightarrow>
     (\<exists>s \<in> set secrets. sign_payload hmac decode s i t b = sign_payload hmac decode secret i' t' b')"
proof -
  let ?sign = "\<lambda>s. sign_payload hmac decode s i t b"
  note word = sign_payload_one_word [of hmac, OF bytes]
  have "filter (\<lambda>c. 0 < length c) (split_on (CHR '' '') (signature_header hmac decode secrets i t b)) = map ?sign secrets"
  proof (cases secrets)
    case Nil
    then show ?thesis by (simp add: signature_header_def)
  next
    case (Cons s ss)
    have "split_on (CHR '' '') (join_with '' '' (map ?sign secrets)) = map ?sign secrets"
      by (rule split_join) (use word Cons in auto)
    then show ?thesis using word by (auto simp: signature_header_def filter_id_conv)
  qed
  then show ?thesis
    by (simp only: verify_signature_def Let_def list_ex_iff set_map bex_simps)
qed

section \<open>Lemmas on dispatch\<close>

fun target_url :: "stored_config \<Rightarrow> string option" where
  "target_url (WebhookStored config) = Some (wc_url config)"
| "target_url (TelegramStored botToken _ _) = Some (telegram_url botToken)"
| "target_url (DiscordStored url) = Some url"
| "target_url (SlackStored url) = Some url"
| "target_url (TeamsStored url) = Some url"
| "target_url (GotifyStored serverUrl _ _) = Some (gotify_url serverUrl)"
| "target_url (NtfyStored serverUrl topic _ _) = Some (ntfy_url serverUrl topic)"
| "target_url (ResendStored _ _ _) = Some resend_url"
| "target_url (EmailStored _ _ _ _ _ _) = None"

text \<open>Every sender but mail makes one attempt, at its own address and under the policy it was given.\<close>

lemma deliver_by_attempt:
  assumes "target_url settings = Some url"
  shows "\<exists>request onSent. deliver_by sg settings envelope policy now = attempt_send (sg_codes sg) request (sg_transport sg) onSent \<and>
     pq_url request = url \<and> pq_policy request = Some policy"
proof -
  have url: "pq_url (post_request url headers body policy) = url" "pq_policy (post_request url headers body policy) = Some policy"
    for url headers body by (simp_all add: post_request_def)
  note defs = deliver_webhook_def webhook_request_def deliver_telegram_def telegram_request_def deliver_discord_def
    deliver_slack_def deliver_teams_def deliver_gotify_def deliver_ntfy_def ntfy_request_def deliver_resend_def
    resend_request_def Let_def
  show ?thesis
    by (cases settings; (use assms in \<open>simp\<close>)?) (unfold defs, (intro exI conjI, rule refl, simp_all add: url assms)+)
qed

lemma attempt_delivered:
  assumes "attempt_send codes request transport onSent w = (OutDelivered status, w')"
  obtains response where "transport request w = (Inr (PinnedSent response), w')"
  using assms by (auto simp: attempt_send_def classify_network_failure_def classify_refusal_def split: prod.splits sum.splits
      pinned_result.splits)

text \<open>
  A delivery over the pinned transport went to the destination's own address, over a lookup that
  knows verified addresses only.
\<close>

lemma dispatch_delivered:
  assumes sent: "dispatch_to sg destination envelope policy now w = (OutDelivered status, w')"
    and opened: "sg_open sg (dv_secretEncrypted (de_values destination)) (dv_secretKeyId (de_values destination)) = Inr opened"
    and settings: "read_destination_config sg (de_kind destination) opened = Some settings"
    and url: "target_url settings = Some url"
    and transport: "sg_transport sg = send_pinned parse_url race lookup client" and race: "keeps_to race"
  shows "\<exists>hostname addresses t m request w1 response.
     verify_destination_url parse_url url policy = UrlAllowed hostname \<and> addresses \<noteq> [] \<and>
     list_all (verified policy (host_is_allowed (bare_hostname hostname) policy)) addresses \<and>
     pq_url request = url \<and> client (pinned_lookup addresses) t m request w1 = (Inr response, w')"
proof -
  obtain request onSent where
    a: "deliver_by sg settings envelope policy now = attempt_send (sg_codes sg) request (sg_transport sg) onSent"
    and r: "pq_url request = url" "pq_policy request = Some policy"
    using deliver_by_attempt [OF url] by blast
  have "attempt_send (sg_codes sg) request (sg_transport sg) onSent w = (OutDelivered status, w')"
    using sent by (simp add: dispatch_to_def opened settings a)
  then obtain response where
    "send_pinned parse_url race lookup client request w = (Inr (PinnedSent response), w')"
    using transport by (auto elim: attempt_delivered)
  from send_pinned_sent [OF this race refl, unfolded r option.case] show ?thesis using r(1) by blast
qed

end
