(* ===== verification/HostFacts.thy ===== *)
theory HostFacts
  imports Unit
begin

text \<open>
  What the program reads of a host before bots run on it: \<open>host/facts.ts\<close>, \<open>host/podman-facts.ts\<close>,
  \<open>host/mcc-release.ts\<close>, \<open>host/runtime-image.ts\<close> and the report of \<open>contracts/src/host-check.ts\<close>.

  A transport is the two of its calls that are used, \<open>exec\<close> and \<open>canForward\<close>, over a world the
  model does not look into. Digits read by \<open>Number\<close> are natural numbers.
\<close>

section \<open>The transport\<close>

record 'w host_transport =
  tp_exec :: "string \<Rightarrow> nat \<Rightarrow> string option \<Rightarrow> ('w, exec_result) io"
  tp_canForward :: "nat \<Rightarrow> nat \<Rightarrow> ('w, bool) io"

section \<open>Facts of any host\<close>

definition fact_timeout_ms :: nat where "fact_timeout_ms = 15000"

definition cpu_count_command :: string where \<open>cpu_count_command = ''nproc 2>/dev/null || printf 0''\<close>

definition memory_total_command :: string where
  \<open>memory_total_command = (''awk '' @ [quote_char] @ ''/MemTotal/ {print $2; exit}'' @ [quote_char]
      @ '' /proc/meminfo 2>/dev/null || printf 0'')\<close>

definition os_release_command :: string where
  \<open>os_release_command = (''. /etc/os-release 2>/dev/null; printf '' @ [quote_char] @ ''%s'' @ [backslash] @ ''n%s''
      @ [quote_char] @ '' '' @ [dquote] @ ''$ID'' @ [dquote] @ '' '' @ [dquote]
      @ ''$PRETTY_NAME'' @ [dquote])\<close>

definition systemd_version_command :: string where
  \<open>systemd_version_command = ''systemctl --version | head -n 1''\<close>

definition unknown_host_fact :: string where "unknown_host_fact = ''Unknown''"

text \<open>\<open>/^[ -~]{1,128}$/\<close>\<close>

definition is_printable :: "char \<Rightarrow> bool" where
  "is_printable c \<longleftrightarrow> 32 \<le> (of_char c :: nat) \<and> (of_char c :: nat) \<le> 126"

definition host_fact_shape :: "string \<Rightarrow> bool" where
  "host_fact_shape s \<longleftrightarrow> 1 \<le> length s \<and> length s \<le> 128 \<and> list_all is_printable s"

text \<open>\<open>.replace(/^"|"$/g, "")\<close>\<close>

definition without_outer_quotes :: "string \<Rightarrow> string" where
  "without_outer_quotes s =
     (let r = (case s of [] \<Rightarrow> [] | c # cs \<Rightarrow> if c = dquote then cs else s)
      in if r \<noteq> [] \<and> last r = dquote then butlast r else r)"

definition host_fact :: "string \<Rightarrow> string option" where
  "host_fact output =
     (let v = without_outer_quotes (trim output) in
      if v = [] then None else Some (if host_fact_shape v then v else unknown_host_fact))"

definition parse_os_release :: "string \<Rightarrow> string option \<times> string option" where
  "parse_os_release output =
     (case split_on lf output of
        [] \<Rightarrow> (host_fact [], host_fact [])
      | [i] \<Rightarrow> (host_fact i, host_fact [])
      | i # n # _ \<Rightarrow> (host_fact i, host_fact n))"

text \<open>\<open>Number.parseInt(s, 10)\<close> of a trimmed string: a sign, then the digits it starts with.\<close>

definition parse_int10 :: "string \<Rightarrow> int option" where
  "parse_int10 s =
     (let (neg, body) = (case s of [] \<Rightarrow> (False, [])
            | c # cs \<Rightarrow> if c = CHR ''-'' then (True, cs) else if c = CHR ''+'' then (False, cs) else (False, s));
          digits = takeWhile is_digit body
      in if digits = [] then None
         else Some (if neg then - int (number_of digits) else int (number_of digits)))"

definition max_safe_integer :: int where "max_safe_integer = 9007199254740991"

definition parse_count :: "string \<Rightarrow> int option" where
  "parse_count output =
     (case parse_int10 (trim output) of
        None \<Rightarrow> None
      | Some v \<Rightarrow> if \<bar>v\<bar> \<le> max_safe_integer \<and> 0 < v then Some v else None)"

definition parse_memory_mb :: "string \<Rightarrow> int option" where
  "parse_memory_mb output = map_option (\<lambda>kb. round_div kb 1024) (parse_count output)"

record host_facts =
  hf_osRelease :: "string option"
  hf_osId :: "string option"
  hf_osName :: "string option"
  hf_cpuCount :: "int option"
  hf_memoryMb :: "int option"

definition read_host_facts :: "'w host_transport \<Rightarrow> ('w, host_facts) io" where
  "read_host_facts transport =
     io_bind (tp_exec transport systemd_version_command fact_timeout_ms None) (\<lambda>version.
     io_bind (tp_exec transport os_release_command fact_timeout_ms None) (\<lambda>os.
     io_bind (tp_exec transport cpu_count_command fact_timeout_ms None) (\<lambda>cpu.
     io_bind (tp_exec transport memory_total_command fact_timeout_ms None) (\<lambda>memory.
     io_return
       \<lparr>hf_osRelease = host_fact (er_stdout version),
        hf_osId = fst (parse_os_release (er_stdout os)), hf_osName = snd (parse_os_release (er_stdout os)),
        hf_cpuCount = parse_count (er_stdout cpu), hf_memoryMb = parse_memory_mb (er_stdout memory)\<rparr>))))"

section \<open>The client's release and the runtime image\<close>

datatype mcc_architecture = X64 | Arm64

fun architecture_name :: "mcc_architecture \<Rightarrow> string" where
  "architecture_name X64 = ''x64''"
| "architecture_name Arm64 = ''arm64''"

text \<open>
  What indexing an object literal with a string gives: one of its own entries, a member every object
  inherits, printed as the text given, or \<open>undefined\<close>. Of the inherited members only
  \<open>constructor\<close> and \<open>__proto__\<close> have a name in lower case.
\<close>

datatype mcc_build = Build mcc_architecture | InheritedMember string

definition architecture_by_machine :: "string \<Rightarrow> mcc_build option" where
  "architecture_by_machine machine =
     (if machine = ''x86_64'' \<or> machine = ''amd64'' then Some (Build X64)
      else if machine = ''aarch64'' \<or> machine = ''arm64'' then Some (Build Arm64)
      else if machine = ''constructor'' then Some (InheritedMember ''function Object() { [native code] }'')
      else if machine = ''__proto__'' then Some (InheritedMember ''[object Object]'')
      else None)"

fun build_text :: "mcc_build \<Rightarrow> string" where
  "build_text (Build a) = architecture_name a"
| "build_text (InheritedMember t) = t"

definition mcc_version :: string where "mcc_version = ''20260829-511''"

definition mcc_download_url :: "string \<Rightarrow> mcc_build \<Rightarrow> string" where
  "mcc_download_url version architecture =
     ''https://github.com/MCCTeam/Minecraft-Console-Client/releases/download/'' @ version
     @ ''/MinecraftClient-'' @ version @ ''-linux-'' @ build_text architecture"

fun sha256_by_architecture :: "mcc_build \<Rightarrow> string option" where
  "sha256_by_architecture (Build X64) = Some ''2e0fe135079824d1b02a3ef9bf89c56d95d72a1d1502d7204f93acc0084223db''"
| "sha256_by_architecture (Build Arm64) = Some ''305dc0766df3509008cc00bb4ebd6be8246f01aff7b84409e0856a98fb759925''"
| "sha256_by_architecture (InheritedMember t) = None"

definition architecture_for_machine :: "string \<Rightarrow> thrown + mcc_build" where
  "architecture_for_machine machine =
     (case architecture_by_machine (lower (trim machine)) of
        None \<Rightarrow>
          Inl (Thrown ''UnsupportedArchitectureError''
            (''No Minecraft Console Client build for machine architecture '' @ [quote_char]
             @ (case host_fact machine of None \<Rightarrow> unknown_host_fact | Some f \<Rightarrow> f) @ [quote_char]
             @ ''; supported: x86_64, amd64, aarch64, arm64''))
      | Some a \<Rightarrow> Inr a)"

record mcc_release =
  mr_architecture :: mcc_build
  mr_url :: string
  mr_sha256 :: "string option"

definition mcc_release_for_machine :: "string \<Rightarrow> thrown + mcc_release" where
  "mcc_release_for_machine machine =
     rbind (architecture_for_machine machine) (\<lambda>architecture.
       Inr \<lparr>mr_architecture = architecture, mr_url = mcc_download_url mcc_version architecture,
            mr_sha256 = sha256_by_architecture architecture\<rparr>)"

record runtime_image =
  ri_manifest :: string
  ri_imageId :: string

definition runtime_image_repository :: string where
  "runtime_image_repository = ''mcr.microsoft.com/dotnet/runtime-deps''"

fun runtime_image_for :: "mcc_build \<Rightarrow> runtime_image option" where
  "runtime_image_for (Build X64) =
     Some \<lparr>ri_manifest = ''sha256:4d2c0a932f7b69603fe2ff643bd1f481914e154c4d5076691716bd23319bb12f'',
           ri_imageId = ''sha256:56e3d8542b4091c81816101e95875e32ec981577e669112c479a57d4003e4c29''\<rparr>"
| "runtime_image_for (Build Arm64) =
     Some \<lparr>ri_manifest = ''sha256:003addb8550309e7cd6886ff29175c4c6d926cb920eb9966bda388fe9d682062'',
           ri_imageId = ''sha256:b54641a0139b45834e25e82fa2cf2be60bafa6a1b6a22868bb1df7182a27a7b9''\<rparr>"
| "runtime_image_for (InheritedMember t) = None"

definition runtime_image_reference :: "runtime_image \<Rightarrow> string" where
  "runtime_image_reference img = runtime_image_repository @ ''@'' @ ri_manifest img"

definition podman_image_id :: "runtime_image \<Rightarrow> string" where
  "podman_image_id img =
     (if starts_with (ri_imageId img) ''sha256:'' then drop 7 (ri_imageId img) else ri_imageId img)"

section \<open>Facts of Podman\<close>

record podman_version =
  pv_major :: nat
  pv_minor :: nat
  pv_patch :: nat

definition podman_floor :: podman_version where
  "podman_floor = \<lparr>pv_major = 4, pv_minor = 3, pv_patch = 1\<rparr>"

text \<open>A run of digits a string starts with, and what follows it.\<close>

definition leading_digits :: "string \<Rightarrow> (nat \<times> string) option" where
  "leading_digits s =
     (let d = takeWhile is_digit s in if d = [] then None else Some (number_of d, dropWhile is_digit s))"

text \<open>\<open>([-+~][0-9A-Za-z.~+-]*)?$\<close>\<close>

definition version_suffix :: "string \<Rightarrow> bool" where
  "version_suffix s =
     (case s of [] \<Rightarrow> True
      | c # cs \<Rightarrow> c \<in> set ''-+~'' \<and> list_all (\<lambda>c. is_alnum c \<or> c \<in> set ''.~+-'') cs)"

definition after_dot :: "string \<Rightarrow> string option" where
  "after_dot s = (case s of [] \<Rightarrow> None | c # cs \<Rightarrow> if c = CHR ''.'' then Some cs else None)"

definition podman_version_prefix :: string where "podman_version_prefix = ''podman version ''"

definition parse_podman_version :: "string \<Rightarrow> podman_version option" where
  "parse_podman_version output =
     (let line = trim output in
      if \<not> starts_with line podman_version_prefix then None
      else case leading_digits (drop (length podman_version_prefix) line) of None \<Rightarrow> None
      | Some (major, r1) \<Rightarrow>
          (case Option.bind (after_dot r1) leading_digits of None \<Rightarrow> None
           | Some (minor, r2) \<Rightarrow>
               (case Option.bind (after_dot r2) leading_digits of None \<Rightarrow> None
                | Some (patch, r3) \<Rightarrow>
                    if version_suffix r3
                    then Some \<lparr>pv_major = major, pv_minor = minor, pv_patch = patch\<rparr> else None)))"

definition meets_podman_floor :: "podman_version \<Rightarrow> bool" where
  "meets_podman_floor v =
     (if pv_major v \<noteq> pv_major podman_floor then pv_major podman_floor < pv_major v
      else if pv_minor v \<noteq> pv_minor podman_floor then pv_minor podman_floor < pv_minor v
      else pv_patch podman_floor \<le> pv_patch v)"

definition format_podman_version :: "podman_version \<Rightarrow> string" where
  "format_podman_version v =
     nat_string (pv_major v) @ ''.'' @ nat_string (pv_minor v) @ ''.'' @ nat_string (pv_patch v)"

datatype network_stack = Slirp4netns | Pasta

fun stack_name :: "network_stack \<Rightarrow> string" where
  "stack_name Slirp4netns = ''slirp4netns''"
| "stack_name Pasta = ''pasta''"

definition network_stacks :: "network_stack list" where "network_stacks = [Slirp4netns, Pasta]"

definition required_stack_for :: "nat \<Rightarrow> network_stack" where
  "required_stack_for major = (if 5 \<le> major then Pasta else Slirp4netns)"

subsection \<open>The commands that read them\<close>

definition storage_override_variables :: "string list" where
  "storage_override_variables = [''XDG_CONFIG_HOME'', ''XDG_DATA_HOME'', ''CONTAINERS_STORAGE_CONF'']"

definition storage_overrides :: "string list" where
  "storage_overrides = storage_override_variables @ [''rootless_storage_path'']"

definition system_storage_conf :: string where "system_storage_conf = ''/etc/containers/storage.conf''"

definition storage_overrides_command :: "string \<Rightarrow> string" where
  \<open>storage_overrides_command systemStorageConf =
     join_with ''; ''
       (map (\<lambda>name. (''[ -z '' @ [dquote] @ ''${'') @ name @ (''+set}'' @ [dquote] @ '' ] || printf '' @ [quote_char] @ ''override='') @ name @ ([backslash] @ ''n'' @ [quote_char]))
          storage_override_variables
        @ [(''! grep -Eqs '' @ [quote_char] @ ''^[[:space:]]*rootless_storage_path[[:space:]]*=''
      @ [quote_char] @ '' '') @ shell_quote systemStorageConf
           @ ('' || printf '' @ [quote_char] @ ''override=rootless_storage_path'' @ [backslash] @ ''n''
      @ [quote_char])])\<close>

definition storage_conf_format :: string where
  \<open>storage_conf_format = (''[storage]'' @ [backslash] @ ''ndriver = '' @ [dquote] @ ''overlay'' @ [dquote, backslash]
      @ ''n'')\<close>

definition conf_path :: string where \<open>conf_path = ([dquote] @ ''$HOME'' @ [dquote] @ ''/.config/containers/storage.conf'')\<close>

definition graph_root :: string where \<open>graph_root = ([dquote] @ ''$HOME'' @ [dquote] @ ''/.local/share/containers/storage'')\<close>

definition storage_state_command :: string where
  \<open>storage_state_command =
     join_with ''; ''
       [(''if printf '' @ [quote_char]) @ storage_conf_format @ ([quote_char] @ '' | cmp -s - '') @ conf_path @ (''; then printf '' @ [quote_char] @ ''storage=set-up'' @ [backslash] @ ''n'' @ [quote_char]),
        ''elif [ ! -e '' @ conf_path @ '' ] && [ ! -L '' @ conf_path @ '' ] && { { [ ! -e '' @ graph_root
          @ '' ] && [ ! -L '' @ graph_root @ '' ]; } || { [ -d '' @ graph_root @ '' ] && [ -r '' @ graph_root
          @ ('' ] && [ -z '' @ [dquote] @ ''$(ls -A '') @ graph_root @ ('')'' @ [dquote] @ '' ]; }; }; then printf '' @ [quote_char] @ ''storage=fresh'' @ [backslash]
      @ ''n'' @ [quote_char]),
        (''else printf '' @ [quote_char] @ ''storage=used'' @ [backslash] @ ''n'' @ [quote_char]
      @ ''; fi'')]\<close>

definition podman_info_command :: string where
  \<open>podman_info_command = (''podman info --format '' @ [quote_char]
      @ ''{{.Host.Security.Rootless}} {{.Store.GraphDriverName}}'' @ [quote_char])\<close>

definition storage_step_command :: string where
  \<open>storage_step_command =
     join_with [lf]
       [''overrides=$('' @ storage_overrides_command system_storage_conf @ '')'',
        (''if [ -n '' @ [dquote] @ ''$overrides'' @ [dquote] @ '' ]; then printf '' @ [quote_char]
      @ ''refused'' @ [backslash] @ ''n'' @ [quote_char] @ ''; exit 1; fi''),
        ''state=$('' @ storage_state_command @ '')'',
        ''ours=0; kept=0'',
        (''undo() { [ '' @ [dquote] @ ''$ours'' @ [dquote] @ '' = 1 ] || return 0; rm -f '') @ conf_path
          @ (''; if [ '' @ [dquote] @ ''$kept'' @ [dquote] @ '' = 1 ]; then rm -rf '') @ graph_root @ ''/..?* '' @ graph_root @ ''/.[!.]* '' @ graph_root
          @ ''/*; else rm -rf '' @ graph_root @ ''; fi; }'',
        (''if [ '' @ [dquote] @ ''$state'' @ [dquote] @ '' = storage=fresh ]; then dir='' @ [dquote]
      @ ''$HOME'' @ [dquote] @ ''/.config/containers; [ ! -d '') @ graph_root
          @ ('' ] || kept=1; mkdir -p '' @ [dquote] @ ''$dir'' @ [dquote] @ '' || exit 1; tmp=$(mktemp ''
      @ [dquote] @ ''$dir'' @ [dquote] @ ''/.storage.conf.XXXXXX) || exit 1; if ! printf ''
      @ [quote_char])
          @ storage_conf_format @ ([quote_char] @ '' > '' @ [dquote] @ ''$tmp'' @ [dquote] @ '' || ! mv -f '' @ [dquote]
      @ ''$tmp'' @ [dquote] @ '' '') @ conf_path
          @ (''; then rm -f '' @ [dquote] @ ''$tmp'' @ [dquote] @ ''; exit 1; fi; ours=1; fi''),
        ''if ! info=$('' @ podman_info_command
          @ (''); then undo; [ '' @ [dquote] @ ''$state'' @ [dquote] @ '' != storage=used ] || printf ''
      @ [quote_char] @ ''used'' @ [backslash] @ ''n'' @ [quote_char] @ ''; exit 1; fi''),
        (''case '' @ [dquote] @ ''$info'' @ [dquote] @ '' in '' @ [dquote] @ ''true overlay'' @ [dquote]
      @ '') printf '' @ [quote_char] @ ''ready'' @ [backslash] @ ''n'' @ [quote_char]
      @ '' ;; '' @ [dquote] @ ''true '' @ [dquote] @ ''*) undo; printf '' @ [quote_char]
      @ ''used'' @ [backslash] @ ''n'' @ [quote_char] @ ''; exit 1 ;; *) undo; printf ''
      @ [quote_char] @ ''root'' @ [backslash] @ ''n'' @ [quote_char] @ ''; exit 1 ;; esac'')]\<close>

definition fact_command :: "string \<Rightarrow> string \<Rightarrow> string" where
  \<open>fact_command key command =
     (''printf '' @ [quote_char]) @ key @ (''=%s'' @ [backslash] @ ''n'' @ [quote_char] @ '' '' @ [dquote] @ ''$( '') @ command
     @ ('' 2>/dev/null | head -n 1 | cut -c 1-256 | tr -c '' @ [quote_char] @ ''[:print:]''
      @ [backslash] @ ''n'' @ [quote_char] @ '' '' @ [quote_char] @ '' '' @ [quote_char]
      @ '')'' @ [dquote])\<close>

definition subordinate_lines :: "string \<Rightarrow> string \<Rightarrow> string" where
  \<open>subordinate_lines key path =
     (''awk -F: -v u='' @ [dquote] @ ''$(id -un 2>/dev/null)'' @ [dquote] @ '' -v i='' @ [dquote]
      @ ''$(id -u 2>/dev/null)'' @ [dquote] @ '' '' @ [quote_char] @ ''NF == 3 && $1 != ''
      @ [dquote, dquote]
      @ '' && $2 ~ /^[0-9]+$/ && $3 ~ /^[0-9]+$/ { if ($1 == u || $1 == i) own = 1; e = $2 + $3; if (e > top) top = e } END { printf ''
      @ [dquote])
     @ key @ (''=%s'' @ [backslash] @ ''n'') @ key @ (''-end=%.0f'' @ [backslash] @ ''n'' @ [dquote] @ '', (own ? '' @ [dquote] @ ''own'' @ [dquote]
      @ '' : '' @ [dquote] @ ''other'' @ [dquote] @ ''), top }'' @ [quote_char] @ '' '') @ path @ '' 2>/dev/null''\<close>

definition overlay_helper :: string where "overlay_helper = ''fuse-overlayfs''"

definition host_facts_command :: string where
  \<open>host_facts_command =
     join_with [lf]
       ([fact_command ''uid'' ''id -u'',
         (''printf '' @ [quote_char] @ ''home=%s'' @ [backslash] @ ''n'' @ [quote_char] @ '' ''
      @ [dquote] @ ''$(printf '' @ [quote_char] @ ''%s'' @ [quote_char] @ '' '' @ [dquote]
      @ ''$HOME'' @ [dquote] @ '' | tr -c '' @ [quote_char] @ ''[:print:]'' @ [quote_char]
      @ '' '' @ [quote_char] @ '' '' @ [quote_char] @ '' | cut -c 1-256)'' @ [dquote]),
         fact_command ''passwd-home'' (''getent passwd '' @ [dquote] @ ''$(id -un)'' @ [dquote] @ '' | cut -d: -f6''),
         fact_command ''os'' (''(. /etc/os-release; printf '' @ [quote_char] @ ''%s %s'' @ [backslash] @ ''n'' @ [quote_char]
      @ '' '' @ [dquote] @ ''${ID:-}'' @ [dquote] @ '' '' @ [dquote] @ ''${VERSION_ID:-}''
      @ [dquote] @ '')''),
         fact_command ''podman'' ''podman --version'',
         storage_state_command,
         storage_overrides_command system_storage_conf,
         subordinate_lines ''subuid'' ''/etc/subuid'',
         subordinate_lines ''subgid'' ''/etc/subgid'',
         fact_command ''cgroup'' ''stat -fc %T /sys/fs/cgroup'']
        @ map (\<lambda>stack. ''! command -v '' @ stack_name stack @ ('' >/dev/null 2>&1 || printf '' @ [quote_char] @ ''helper='') @ stack_name stack
                 @ ([backslash] @ ''n'' @ [quote_char])) network_stacks
        @ [''! command -v '' @ overlay_helper @ ('' >/dev/null 2>&1 || printf '' @ [quote_char] @ ''overlay-helper='') @ overlay_helper @ ([backslash] @ ''n'' @ [quote_char]),
           ''if command -v curl >/dev/null 2>&1; then ''
             @ fact_command ''metadata'' (''curl -s --max-time 1 -o /dev/null -w '' @ [quote_char] @ ''%{http_code}'' @ [quote_char]
      @ '' http://169.254.169.254/'')
             @ (''; else printf '' @ [quote_char] @ ''metadata=none'' @ [backslash] @ ''n'' @ [quote_char]
      @ ''; fi''),
           ''exit 0''])\<close>

subsection \<open>Reading their answers\<close>

text \<open>\<open>/^(true|false) ([A-Za-z0-9_-]{1,32})$/\<close>\<close>

record podman_info =
  pi_rootless :: "bool option"
  pi_driver :: "string option"

definition driver_word :: "string \<Rightarrow> bool" where
  "driver_word s \<longleftrightarrow>
     1 \<le> length s \<and> length s \<le> 32 \<and> list_all (\<lambda>c. is_alnum c \<or> c = CHR ''_'' \<or> c = CHR ''-'') s"

definition parse_podman_info :: "string \<Rightarrow> podman_info" where
  "parse_podman_info output =
     (let line = trim output in
      if starts_with line ''true '' \<and> driver_word (drop 5 line)
      then \<lparr>pi_rootless = Some True, pi_driver = Some (drop 5 line)\<rparr>
      else if starts_with line ''false '' \<and> driver_word (drop 6 line)
      then \<lparr>pi_rootless = Some False, pi_driver = Some (drop 6 line)\<rparr>
      else \<lparr>pi_rootless = None, pi_driver = None\<rparr>)"

datatype storage_step_word = StorageRefused | StorageUsed | StorageRoot

definition storage_step_word_of :: "string \<Rightarrow> storage_step_word option" where
  "storage_step_word_of output =
     (let word = trim output in
      if word = ''refused'' then Some StorageRefused
      else if word = ''used'' then Some StorageUsed
      else if word = ''root'' then Some StorageRoot
      else None)"

datatype account_storage = FreshStorage | SetUpStorage | UsedStorage

datatype metadata_reach = Unanswered | Answered | Unchecked

record subordinate_ids =
  sb_own :: bool
  sb_end :: nat

record podman_facts =
  pf_uid :: "nat option"
  pf_usableHome :: bool
  pf_osId :: "string option"
  pf_osVersion :: "string option"
  pf_podman :: "podman_version option"
  pf_storage :: account_storage
  pf_overrides :: "string list"
  pf_subuid :: subordinate_ids
  pf_subgid :: subordinate_ids
  pf_cgroupV2 :: bool
  pf_helpers :: "network_stack list"
  pf_overlayHelper :: bool
  pf_metadata :: metadata_reach

definition key_value_line :: "string \<Rightarrow> string \<times> string" where
  "key_value_line line =
     (case index_of (CHR ''='') line of None \<Rightarrow> ([], []) | Some n \<Rightarrow> (take n line, drop (Suc n) line))"

definition values_of :: "(string \<times> string) list \<Rightarrow> string \<Rightarrow> string list" where
  "values_of kvs key = map snd (filter (\<lambda>kv. fst kv = key) kvs)"

definition value_or :: "string \<Rightarrow> string option \<Rightarrow> string" where
  "value_or d v = (case v of None \<Rightarrow> d | Some x \<Rightarrow> x)"

text \<open>\<open>/^[0-9]{1,10}$/\<close> and \<open>/^[a-z0-9._-]{1,32}$/\<close>\<close>

definition ten_digits :: "string \<Rightarrow> bool" where
  "ten_digits s \<longleftrightarrow> 1 \<le> length s \<and> length s \<le> 10 \<and> list_all is_digit s"

definition os_word :: "string \<Rightarrow> bool" where
  "os_word s \<longleftrightarrow>
     1 \<le> length s \<and> length s \<le> 32 \<and> list_all (\<lambda>c. is_lower_alpha c \<or> is_digit c \<or> c \<in> set ''._-'') s"

definition subordinate_of :: "(string \<times> string) list \<Rightarrow> string \<Rightarrow> subordinate_ids" where
  "subordinate_of kvs key =
     (let last_id = trim (value_or [] (first_opt (values_of kvs (key @ ''-end'')))) in
      \<lparr>sb_own = (trim (value_or [] (first_opt (values_of kvs key))) = ''own''),
       sb_end = (if ten_digits last_id then number_of last_id else 0)\<rparr>)"

definition parse_host_facts :: "string \<Rightarrow> podman_facts" where
  "parse_host_facts output =
     (let kvs = map key_value_line (split_on lf output);
          one = (\<lambda>key. first_opt (values_of kvs key));
          uid = trim (value_or [] (one ''uid''));
          os = split_on (CHR '' '') (trim (value_or [] (one ''os'')));
          osId = value_or [] (nth_opt os 0);
          osVersion = value_or [] (nth_opt os 1);
          metadata = trim (value_or ''none'' (one ''metadata''))
      in \<lparr>pf_uid = (if ten_digits uid then Some (number_of uid) else None),
          pf_usableHome = is_usable_home (value_or [] (one ''home'')) (value_or [] (one ''passwd-home'')),
          pf_osId = (if os_word osId then Some osId else None),
          pf_osVersion = (if os_word osVersion then Some osVersion else None),
          pf_podman = parse_podman_version (value_or [] (one ''podman'')),
          pf_storage =
            (case map_option trim (one ''storage'') of
               None \<Rightarrow> UsedStorage
             | Some s \<Rightarrow> if s = ''fresh'' then FreshStorage else if s = ''set-up'' then SetUpStorage else UsedStorage),
          pf_overrides = filter (\<lambda>name. list_ex (\<lambda>v. trim v = name) (values_of kvs ''override'')) storage_overrides,
          pf_subuid = subordinate_of kvs ''subuid'',
          pf_subgid = subordinate_of kvs ''subgid'',
          pf_cgroupV2 = (trim (value_or [] (one ''cgroup'')) = ''cgroup2fs''),
          pf_helpers =
            filter (\<lambda>stack. list_ex (\<lambda>v. trim v = stack_name stack) (values_of kvs ''helper'')) network_stacks,
          pf_overlayHelper = list_ex (\<lambda>v. trim v = overlay_helper) (values_of kvs ''overlay-helper''),
          pf_metadata =
            (if metadata = ''none'' then Unchecked else if metadata = ''000'' then Unanswered else Answered)\<rparr>)"

definition subordinate_id_floor :: nat where "subordinate_id_floor = 100000"
definition subordinate_id_count :: nat where "subordinate_id_count = 65536"

definition next_subordinate_range :: "nat \<Rightarrow> nat \<Rightarrow> nat \<times> nat" where
  "next_subordinate_range subuidEnd subgidEnd =
     (let start = max subordinate_id_floor (max subuidEnd subgidEnd)
      in (start, start + subordinate_id_count - 1))"

end
