(* ===== verification/HostCheck.thy ===== *)
theory HostCheck
  imports HostFacts
begin

text \<open>
  The report on a host an owner wants to enrol: \<open>contracts/src/host-check.ts\<close> and
  \<open>host/check.ts\<close>, with \<open>accountWord\<close> and \<open>lingerCommand\<close> of \<open>contracts/src/host-setup.ts\<close>.
\<close>

section \<open>Reports\<close>

datatype host_check_name =
    CheckReachable | CheckAccount | CheckSystemd | CheckArchitecture | CheckLingering | CheckPodman
  | CheckCgroups | CheckSubordinateIds | CheckNetworkHelper | CheckStorage | CheckTcpForwarding
  | CheckCloudMetadata

definition host_check_names :: "host_check_name list" where
  "host_check_names =
     [CheckReachable, CheckAccount, CheckSystemd, CheckArchitecture, CheckLingering, CheckPodman, CheckCgroups,
      CheckSubordinateIds, CheckNetworkHelper, CheckStorage, CheckTcpForwarding, CheckCloudMetadata]"

datatype host_check_outcome = CheckPass | CheckFail | CheckWarn | CheckSkipped

record host_check_result =
  hc_name :: host_check_name
  hc_outcome :: host_check_outcome
  hc_detail :: string
  hc_command :: "string option"
  hc_hint :: "string option"

record host_check_report =
  rp_ready :: bool
  rp_checks :: "host_check_result list"

definition is_blocking :: "host_check_result \<Rightarrow> bool" where
  "is_blocking c = (hc_outcome c = CheckFail)"

definition report_from :: "host_check_result list \<Rightarrow> host_check_report" where
  "report_from checks = \<lparr>rp_ready = list_all (\<lambda>c. \<not> is_blocking c) checks, rp_checks = checks\<rparr>"

section \<open>Words of commands\<close>

text \<open>\<open>/^[A-Za-z0-9_][A-Za-z0-9._-]*$/\<close>\<close>

definition bare_shell_word :: "string \<Rightarrow> bool" where
  "bare_shell_word s =
     (case s of [] \<Rightarrow> False
      | c # cs \<Rightarrow> (is_alnum c \<or> c = CHR ''_'') \<and> list_all (\<lambda>c. is_alnum c \<or> c \<in> set ''._-'') cs)"

definition account_word :: "string \<Rightarrow> string" where
  "account_word account = (if bare_shell_word account then account else shell_quote account)"

definition linger_command :: "string \<Rightarrow> string" where
  "linger_command account = ''sudo loginctl enable-linger '' @ account_word account"

definition check_timeout_ms :: nat where "check_timeout_ms = 20000"
definition forward_probe_port :: nat where "forward_probe_port = 22"

definition linger_query :: string where
  \<open>linger_query = (''loginctl show-user '' @ [dquote] @ ''$(id -un)'' @ [dquote]
      @ '' --property=Linger --value 2>/dev/null || printf no'')\<close>

definition root_refusal :: string where
  \<open>root_refusal = (''Bots can'' @ [quote_char] @ ''t run as root. Use a normal account.'')\<close>

definition used_storage_refusal :: string where
  "used_storage_refusal = ''Podman on this account already has data. Use a fresh account.''"

definition storage_settings_refusal :: string where
  \<open>storage_settings_refusal = (''This account'' @ [quote_char] @ ''s Podman storage settings aren'' @ [quote_char]
      @ ''t supported.'')\<close>

definition apt_install :: string where
  "apt_install = ''sudo apt-get install -y --no-install-recommends --no-remove''"

definition podman_install_command :: string where
  "podman_install_command =
     apt_install @ '' podman uidmap slirp4netns catatonit dbus-user-session '' @ overlay_helper"

definition overlay_helper_command :: string where
  "overlay_helper_command = apt_install @ '' '' @ overlay_helper"

fun package_for_stack :: "network_stack \<Rightarrow> string" where
  "package_for_stack Slirp4netns = ''slirp4netns''"
| "package_for_stack Pasta = ''passt''"

definition network_helper_command :: "network_stack \<Rightarrow> string" where
  "network_helper_command stack = apt_install @ '' '' @ package_for_stack stack"

definition subordinate_ids_command :: "nat \<times> nat \<Rightarrow> string \<Rightarrow> string" where
  "subordinate_ids_command r account =
     (let ids = nat_string (fst r) @ ''-'' @ nat_string (snd r)
      in ''sudo usermod --add-subuids '' @ ids @ '' --add-subgids '' @ ids @ '' '' @ account_word account)"

section \<open>One result per check\<close>

definition result_with ::
    "host_check_outcome \<Rightarrow> host_check_name \<Rightarrow> string \<Rightarrow> string option \<Rightarrow> string option \<Rightarrow> host_check_result" where
  "result_with outcome name detail command hint =
     \<lparr>hc_name = name, hc_outcome = outcome, hc_detail = detail, hc_command = command, hc_hint = hint\<rparr>"

definition not_checked :: string where "not_checked = ''Not checked''"

definition unreachable_report :: "string \<Rightarrow> host_check_report" where
  "unreachable_report reason =
     report_from (map (\<lambda>name. if name = CheckReachable then result_with CheckFail name reason None None
                              else result_with CheckSkipped name not_checked None None) host_check_names)"

definition reached_host :: "host_check_report \<Rightarrow> bool" where
  "reached_host report = list_ex (\<lambda>c. hc_name c = CheckReachable \<and> hc_outcome c = CheckPass) (rp_checks report)"

definition audit_outcome_for :: "host_check_report option \<Rightarrow> string" where
  "audit_outcome_for report =
     (case report of None \<Rightarrow> ''interrupted''
      | Some r \<Rightarrow>
          if \<not> reached_host r then ''unreachable'' else if rp_ready r then ''ready'' else ''blocked'')"

record check_host_input =
  ch_hostname :: string
  ch_port :: nat
  ch_username :: string
  ch_sshKeyId :: string
  ch_expectedFingerprint :: string

definition check_audit_detail :: "check_host_input \<Rightarrow> host_check_report option \<Rightarrow> (string \<times> string) list" where
  "check_audit_detail input report =
     [(''hostname'', ch_hostname input), (''port'', nat_string (ch_port input)), (''account'', ch_username input),
      (''sshKeyId'', ch_sshKeyId input), (''fingerprint'', ch_expectedFingerprint input),
      (''outcome'', audit_outcome_for report)]"

definition account_result :: "podman_facts \<Rightarrow> podman_info option \<Rightarrow> host_check_result" where
  \<open>account_result facts info =
     (let rootless = Option.bind info pi_rootless in
      if pf_uid facts = None then
        result_with CheckFail CheckAccount (''Couldn'' @ [quote_char] @ ''t read this account'' @ [quote_char] @ ''s user id.'') None None
      else if pf_uid facts = Some 0 \<or> rootless = Some False then
        result_with CheckFail CheckAccount root_refusal None None
      else if rootless = Some True then
        result_with CheckPass CheckAccount ''Not root, and Podman runs rootless'' None None
      else result_with CheckPass CheckAccount ''Not root. Rootless Podman is checked during setup.'' None None)\<close>

definition systemd_result :: "string option \<Rightarrow> bool \<Rightarrow> host_check_result" where
  \<open>systemd_result release usableHome =
     (case release of
        None \<Rightarrow> result_with CheckFail CheckSystemd ''This host does not appear to run systemd'' None None
      | Some r \<Rightarrow>
          if \<not> usableHome then
            result_with CheckFail CheckSystemd (''This account'' @ [quote_char] @ ''s home folder can'' @ [quote_char] @ ''t be used.'') None
              (Some (''It must be the account'' @ [quote_char]
      @ ''s own home, and may only contain letters, digits, ., _, - and /.''))
          else result_with CheckPass CheckSystemd r None None)\<close>

definition architecture_result :: "string \<Rightarrow> host_check_result" where
  "architecture_result machine =
     (case architecture_for_machine machine of
        Inl e \<Rightarrow> result_with CheckFail CheckArchitecture (error_message_or ''Unsupported architecture'' e) None None
      | Inr a \<Rightarrow>
          result_with CheckPass CheckArchitecture (trim machine @ '' uses the '' @ build_text a @ '' build'') None None)"

definition podman_result :: "podman_facts \<Rightarrow> host_check_result" where
  \<open>podman_result facts =
     (case pf_podman facts of
        None \<Rightarrow>
          result_with CheckFail CheckPodman (''Podman isn'' @ [quote_char] @ ''t installed.'') (Some podman_install_command)
            (Some ''This list is for Debian 12 and Ubuntu 24.04. On Debian 13, install passt in place of slirp4netns.'')
      | Some v \<Rightarrow>
          if \<not> meets_podman_floor v then
            result_with CheckFail CheckPodman
              (''Needs Podman '' @ format_podman_version podman_floor @ '' or newer. This server has ''
               @ format_podman_version v @ ''.'') None
              (Some ''Ubuntu 22.04 is too old. Debian 12, Debian 13 and Ubuntu 24.04 work.'')
          else
            result_with CheckPass CheckPodman (''Podman '' @ format_podman_version v) None
              (if pf_osId facts = Some ''ubuntu'' then Some ''Ubuntu support is untested on a real Ubuntu host.''
               else None))\<close>

definition lingering_result :: "string \<Rightarrow> string \<Rightarrow> host_check_result" where
  "lingering_result stdout account =
     (if trim stdout = ''yes'' then result_with CheckPass CheckLingering ''On'' None None
      else result_with CheckFail CheckLingering ''Bots would stop when you log out.''
             (Some (linger_command account)) None)"

definition cgroups_result :: "podman_facts \<Rightarrow> host_check_result" where
  \<open>cgroups_result facts =
     (if pf_cgroupV2 facts then result_with CheckPass CheckCgroups ''Supported'' None None
      else result_with CheckFail CheckCgroups (''This server'' @ [quote_char] @ ''s system is too old for Podman.'') None
             (Some ''Podman needs cgroup v2.''))\<close>

definition subordinate_ids_result :: "podman_facts \<Rightarrow> string \<Rightarrow> host_check_result" where
  \<open>subordinate_ids_result facts account =
     (if sb_own (pf_subuid facts) \<and> sb_own (pf_subgid facts) then
        result_with CheckPass CheckSubordinateIds ''Set up'' None None
      else
        result_with CheckFail CheckSubordinateIds (''This account can'' @ [quote_char] @ ''t run containers yet.'')
          (Some (subordinate_ids_command
                   (next_subordinate_range (sb_end (pf_subuid facts)) (sb_end (pf_subgid facts))) account))
          (Some (''The range starts after the highest one in /etc/subuid and /etc/subgid. Ranges from a directory service (NSS) aren''
      @ [quote_char] @ ''t seen here.'')))\<close>

definition network_helper_result :: "podman_facts \<Rightarrow> host_check_result" where
  "network_helper_result facts =
     (case pf_podman facts of
        None \<Rightarrow> result_with CheckSkipped CheckNetworkHelper not_checked None None
      | Some v \<Rightarrow>
          if \<not> meets_podman_floor v then result_with CheckSkipped CheckNetworkHelper not_checked None None
          else (let stack = required_stack_for (pv_major v) in
            if stack \<in> set (pf_helpers facts) then
              result_with CheckPass CheckNetworkHelper (''Uses '' @ stack_name stack) None None
            else result_with CheckFail CheckNetworkHelper ''A Podman network helper is missing.''
                   (Some (network_helper_command stack)) None))"

definition storage_result :: "podman_facts \<Rightarrow> podman_info option \<Rightarrow> host_check_result" where
  \<open>storage_result facts info =
     (if pf_overrides facts \<noteq> [] then
        result_with CheckFail CheckStorage storage_settings_refusal None
          (Some ''Unset XDG_CONFIG_HOME, XDG_DATA_HOME and CONTAINERS_STORAGE_CONF for this account, and remove rootless_storage_path from /etc/containers/storage.conf.'')
      else if pf_storage facts = FreshStorage then
        (if pf_overlayHelper facts then result_with CheckWarn CheckStorage ''Set up during provisioning.'' None None
         else result_with CheckWarn CheckStorage
                (''Set up during provisioning. Some kernels need '' @ overlay_helper @ '' for that.'')
                (Some overlay_helper_command)
                (Some (''Podman uses the kernel'' @ [quote_char] @ ''s own overlay where it can. Where it can''
      @ [quote_char] @ ''t, this package is the only way, and provisioning stops without it.'')))
      else (case info of
        None \<Rightarrow> result_with CheckSkipped CheckStorage not_checked None None
      | Some i \<Rightarrow>
          (let anotherDriver = (pi_driver i \<noteq> None \<and> pi_driver i \<noteq> Some ''overlay'');
               unreadableAfterUse = (pi_driver i = None \<and> pf_storage facts = UsedStorage)
           in if anotherDriver \<or> unreadableAfterUse then
                result_with CheckFail CheckStorage used_storage_refusal None
                  (Some ''Provisioning sets up storage only for an account that has never run Podman.'')
              else result_with CheckPass CheckStorage ''Set up'' None None)))\<close>

definition forwarding_result :: "bool \<Rightarrow> host_check_result" where
  \<open>forwarding_result forwards =
     (if forwards then
        result_with CheckPass CheckTcpForwarding ''Live control can reach instances through this connection'' None None
      else
        result_with CheckWarn CheckTcpForwarding
          (''This host'' @ [quote_char]
      @ ''s sshd refuses port forwarding, so live instance control will not work. Set AllowTcpForwarding to yes to enable it.'')
          None None)\<close>

fun metadata_result :: "metadata_reach \<Rightarrow> host_check_result" where
  \<open>metadata_result Answered =
     result_with CheckWarn CheckCloudMetadata ''Bots on this server can reach its cloud metadata service.'' None
       (Some (''Don'' @ [quote_char] @ ''t give this server cloud roles or credentials.''))\<close>
| "metadata_result Unanswered = result_with CheckPass CheckCloudMetadata ''Not reachable'' None None"
| \<open>metadata_result Unchecked =
     result_with CheckSkipped CheckCloudMetadata not_checked None (Some (''curl isn'' @ [quote_char] @ ''t installed.''))\<close>

definition reads_podman_info :: "podman_facts \<Rightarrow> bool" where
  "reads_podman_info facts \<longleftrightarrow>
     pf_uid facts \<noteq> None \<and> pf_uid facts \<noteq> Some 0 \<and>
     (case pf_podman facts of None \<Rightarrow> False | Some v \<Rightarrow> meets_podman_floor v) \<and>
     pf_overrides facts = [] \<and> pf_storage facts \<noteq> FreshStorage"

section \<open>The whole check\<close>

text \<open>What the host answered, and the results made of it.\<close>

definition check_results ::
    "string \<Rightarrow> string \<Rightarrow> string \<Rightarrow> podman_facts \<Rightarrow> string \<Rightarrow> podman_info option \<Rightarrow> bool \<Rightarrow> host_check_result list" where
  "check_results account version machine facts linger info forwards =
     [result_with CheckPass CheckReachable ''Connected and the host key matched'' None None,
      account_result facts info,
      systemd_result (host_fact version) (pf_usableHome facts),
      architecture_result machine,
      lingering_result linger account,
      podman_result facts,
      cgroups_result facts,
      subordinate_ids_result facts account,
      network_helper_result facts,
      storage_result facts info,
      forwarding_result forwards,
      metadata_result (pf_metadata facts)]"

definition check_host_over_transport :: "'w host_transport \<Rightarrow> string \<Rightarrow> ('w, host_check_report) io" where
  "check_host_over_transport transport account =
     io_bind (tp_exec transport systemd_version_command check_timeout_ms None) (\<lambda>version.
     io_bind (tp_exec transport ''uname -m'' check_timeout_ms None) (\<lambda>machine.
     io_bind (tp_exec transport host_facts_command check_timeout_ms None) (\<lambda>answer.
     (let facts = parse_host_facts (er_stdout answer) in
     io_bind (tp_exec transport linger_query check_timeout_ms None) (\<lambda>linger.
     io_bind (if reads_podman_info facts
              then io_bind (tp_exec transport podman_info_command check_timeout_ms None)
                     (\<lambda>r. io_return (Some (parse_podman_info (er_stdout r))))
              else io_return None) (\<lambda>info.
     io_bind (tp_canForward transport forward_probe_port check_timeout_ms) (\<lambda>forwards.
     io_return (report_from
       (check_results account (er_stdout version) (er_stdout machine) facts (er_stdout linger) info forwards)))))))))"

end
