(* ===== verification/Provision.thy ===== *)
theory Provision
  imports HostCheck
begin

text \<open>
  Setting a host up: \<open>host/provision.ts\<close>, \<open>host/provision-failure.ts\<close> and the services it installs,
  \<open>host/unit-template.ts\<close>.

  A call that fails gives a \<open>provision_error\<close>, the \<open>HostProvisioningFailedError\<close> with its two fields
  or whatever else was thrown. The reporter of progress changes the world and does not throw.
\<close>

section \<open>Unit templates\<close>

definition instance_unit_name :: string where "instance_unit_name = ''open-mcc@.service''"
definition sleep_stop_unit_name :: string where "sleep_stop_unit_name = ''open-mcc-sleep-stop@.service''"
definition sleep_start_unit_name :: string where "sleep_start_unit_name = ''open-mcc-sleep-start@.service''"
definition template_auth_unit_name :: string where "template_auth_unit_name = ''open-mcc-auth@.service''"

definition supporting_unit_names :: "string list" where
  "supporting_unit_names = [sleep_stop_unit_name, sleep_start_unit_name, template_auth_unit_name]"

definition unit_log_driver :: string where "unit_log_driver = ''passthrough''"

definition template_root :: string where "template_root = ''%h/'' @ instances_path"
definition template_dir :: string where "template_dir = template_root @ ''/instances/%i''"

definition template_port :: string where "template_port = ''$${OPEN_MCC_PORT}''"

definition skip_while_active :: "string \<Rightarrow> string" where
  \<open>skip_while_active unit =
     (''ExecCondition=/bin/sh -c '' @ [quote_char] @ ''case '' @ [dquote]
      @ ''$$(systemctl --user show -p ActiveState --value '') @ unit @ ('')'' @ [dquote] @ '' in '')
     @ join_with ''|'' running_unit_states @ ('') exit 1;; esac'' @ [quote_char])\<close>

definition config_preflight :: string where
  \<open>config_preflight =
     (''ExecStartPre=/bin/sh -c '' @ [quote_char] @ ''f='' @ [dquote]) @ template_dir
     @ (''/config/MinecraftClient.ini'' @ [dquote] @ ''; [ ! -L '' @ [dquote] @ ''$$f'' @ [dquote]
      @ '' ] && [ -f '' @ [dquote] @ ''$$f'' @ [dquote] @ '' ] && [ -s '' @ [dquote] @ ''$$f''
      @ [dquote] @ '' ] && [ -r '' @ [dquote] @ ''$$f'' @ [dquote] @ '' ] || { echo ''
      @ [dquote] @ ''open-mcc: the saved settings file is missing or unreadable'' @ [dquote]
      @ '' >&2; exit 1; }'' @ [quote_char])\<close>

definition sleep_exec :: "string \<Rightarrow> string" where
  "sleep_exec verb = ''/usr/bin/systemctl --user '' @ verb @ '' open-mcc@%i.service''"

definition text_lines :: "string list \<Rightarrow> string" where
  "text_lines ls = concat (map (\<lambda>l. l @ [lf]) ls)"

definition instance_unit_text :: "string \<Rightarrow> string \<Rightarrow> string" where
  \<open>instance_unit_text network imageId =
     text_lines
       [''[Unit]'', ''Description=open-mcc-manager instance %i'', ''StartLimitIntervalSec=600'', ''StartLimitBurst=5'',
        ''JobTimeoutSec=60'', ''After=network-online.target'', ''Wants=network-online.target'', [],
        ''[Service]'', ''Type=notify'', ''NotifyAccess=all'', ''Delegate=yes'',
        ''EnvironmentFile='' @ template_dir @ ''/unit.env'', ''WorkingDirectory='' @ template_dir,
        skip_while_active ''open-mcc-auth@%i.service'', config_preflight,
        (''ExecStartPre=/usr/bin/flock -w 30 '' @ [dquote]) @ template_dir @ (''/collect.lock'' @ [dquote] @ '' /bin/sh -c '' @ [quote_char] @ ''rm -rf -- '' @ [dquote]) @ template_dir
          @ (''/recording-cache'' @ [dquote] @ '' && mkdir -m 0700 '' @ [dquote]) @ template_dir @ (''/recording-cache'' @ [dquote, quote_char]),
        (''ExecStart=/bin/sh -c '' @ [quote_char] @ ''exec 3<>'' @ [dquote]) @ template_dir
          @ (''/control'' @ [dquote]
      @ ''; exec /usr/bin/podman run --replace --rm -d -i --pull=never --sdnotify=conmon --cgroups=split --log-driver='')
          @ unit_log_driver
          @ ('' --init --name open-mcc-%i --user 0:0 --read-only --cap-drop=all --security-opt=no-new-privileges --env-file=''
      @ [dquote])
          @ template_dir @ (''/env'' @ [dquote] @ '' -e DOTNET_BUNDLE_EXTRACT_BASE_DIR=/data -v '') @ template_root
          @ (''/bin:/opt/mcc:ro -v '' @ [dquote]) @ template_dir @ (''/config'' @ [dquote] @ '':/config:ro -v '' @ [dquote]) @ template_dir @ (''/state'' @ [dquote] @ '':/data -v '' @ [dquote])
          @ template_dir @ (''/replays'' @ [dquote] @ '':/data/replay_recordings -v '' @ [dquote]) @ template_dir
          @ (''/recording-cache'' @ [dquote] @ '':/data/recording_cache -w /data --network='') @ network @ '' -p 127.0.0.1:'' @ template_port
          @ '':'' @ template_port @ '' '' @ imageId
          @ ('' /opt/mcc/MinecraftClient /config/MinecraftClient.ini BasicIO <&3'' @ [quote_char]),
        (''ExecStop=/bin/sh -c '' @ [quote_char] @ ''[ -z '' @ [dquote] @ ''$$MAINPID'' @ [dquote]
      @ '' ] || { timeout 5 sh -c '' @ [dquote] @ ''echo /quit > '' @ [backslash, dquote]) @ template_dir
          @ (''/control'' @ [backslash, dquote, dquote]
      @ '' && while kill -0 $$MAINPID 2>/dev/null; do sleep 1; done; }'' @ [quote_char]),
        ''StandardOutput=journal'', ''StandardError=journal'', ''TimeoutStartSec=25'', ''TimeoutStopSec=20'',
        ''Restart=on-failure'', ''RestartPreventExitStatus=4'', ''RestartSec=30'', [],
        ''[Install]'', ''WantedBy=default.target'']\<close>

definition sign_in_unit_text :: "string \<Rightarrow> string \<Rightarrow> string" where
  \<open>sign_in_unit_text network imageId =
     text_lines
       [''[Unit]'', ''Description=open-mcc-manager sign-in for instance %i'', ''JobTimeoutSec=55'', [],
        ''[Service]'', ''Type=notify'', ''NotifyAccess=all'', ''Delegate=yes'',
        ''WorkingDirectory='' @ template_dir,
        skip_while_active ''open-mcc@%i.service'', config_preflight,
        (''ExecStartPre=/usr/bin/flock -w 30 '' @ [dquote]) @ template_dir @ (''/collect.lock'' @ [dquote] @ '' /bin/true''),
        (''ExecStart=/bin/sh -c '' @ [quote_char]
      @ ''exec /usr/bin/podman run --replace --rm -d --pull=never --sdnotify=conmon --cgroups=split --log-driver='')
          @ unit_log_driver
          @ '' --init --name open-mcc-auth-%i --user 0:0 --read-only --cap-drop=all --security-opt=no-new-privileges -e DOTNET_BUNDLE_EXTRACT_BASE_DIR=/data -v ''
          @ template_root @ (''/bin:/opt/mcc:ro -v '' @ [dquote]) @ template_dir @ (''/config'' @ [dquote] @ '':/config:ro -v '' @ [dquote]) @ template_dir
          @ (''/state'' @ [dquote] @ '':/data -w /data --network='') @ network @ '' '' @ imageId
          @ ('' /opt/mcc/MinecraftClient /config/MinecraftClient.ini BasicIO-NoColor </dev/null >''
      @ [dquote]) @ template_dir
          @ (''/auth.log'' @ [dquote] @ '' 2>&1'' @ [quote_char]),
        ''TimeoutStartSec=20'', ''TimeoutStopSec=10'']\<close>

definition sleep_unit_text :: "string \<Rightarrow> string \<Rightarrow> string" where
  "sleep_unit_text description verb =
     text_lines [''[Unit]'', ''Description='' @ description, [], ''[Service]'', ''Type=oneshot'',
       ''ExecStart='' @ sleep_exec verb]"

text \<open>\<open>/^[0-9a-f]{64}$/\<close>\<close>

definition podman_image_id_ok :: "string \<Rightarrow> bool" where
  "podman_image_id_ok s \<longleftrightarrow> length s = 64 \<and> list_all is_lower_hex s"

text \<open>The templates by unit name, a record of properties.\<close>

definition render_unit_templates :: "network_stack \<Rightarrow> string \<Rightarrow> thrown + (string \<times> string) list" where
  "render_unit_templates networkStack imageId =
     (if \<not> podman_image_id_ok imageId then
        Inl (internal_error ''The runtime image ID must be the 64 hex characters Podman prints'')
      else (let network = stack_name networkStack in
        Inr [(instance_unit_name, instance_unit_text network imageId),
             (template_auth_unit_name, sign_in_unit_text network imageId),
             (sleep_stop_unit_name, sleep_unit_text ''Stop open-mcc instance %i for its sleep window'' ''stop''),
             (sleep_start_unit_name, sleep_unit_text ''Start open-mcc instance %i after its sleep window'' ''start'')]))"

section \<open>Failures\<close>

datatype provision_step =
    CheckingSystemd | CheckingLinger | CheckingPodman | SettingUpStorage | CreatingDirectory
  | ReadingArchitecture | DownloadingClient | VerifyingDownload | InstallingClient | DownloadingImage
  | VerifyingImage | CheckingClientRuns | InstallingInstanceUnit | InstallingSleepUnits | ReloadingSystemd

definition provision_steps :: "provision_step list" where
  "provision_steps =
     [CheckingSystemd, CheckingLinger, CheckingPodman, SettingUpStorage, CreatingDirectory, ReadingArchitecture,
      DownloadingClient, VerifyingDownload, InstallingClient, DownloadingImage, VerifyingImage, CheckingClientRuns,
      InstallingInstanceUnit, InstallingSleepUnits, ReloadingSystemd]"

fun step_label :: "provision_step \<Rightarrow> string" where
  "step_label CheckingSystemd = ''Checking systemd''"
| "step_label CheckingLinger = ''Checking that instances survive a logout''"
| "step_label CheckingPodman = ''Checking Podman''"
| "step_label SettingUpStorage = ''Setting up container storage''"
| "step_label CreatingDirectory = ''Creating the instances directory''"
| "step_label ReadingArchitecture = ''Reading the host architecture''"
| "step_label DownloadingClient = ''Downloading the client''"
| "step_label VerifyingDownload = ''Verifying the download''"
| "step_label InstallingClient = ''Installing the client''"
| "step_label DownloadingImage = ''Downloading the runtime image''"
| "step_label VerifyingImage = ''Verifying the runtime image''"
| "step_label CheckingClientRuns = ''Checking the client runs''"
| "step_label InstallingInstanceUnit = ''Installing the instance unit''"
| "step_label InstallingSleepUnits = ''Installing the sleep units''"
| "step_label ReloadingSystemd = ''Reloading systemd''"

text \<open>\<open>FAILURES\<close>; its entry for the storage step is never read and does not exist.\<close>

fun step_failure_text :: "provision_step \<Rightarrow> string option" where
  "step_failure_text CheckingSystemd =
     Some ''Could not confirm systemd, a non-root account and a usable home folder on this host.''"
| "step_failure_text CheckingLinger =
     Some ''Lingering is off for this user, so bots would stop at logout. Run sudo loginctl enable-linger for this user on the host.''"
| \<open>step_failure_text CheckingPodman =
     Some (''Podman isn'' @ [quote_char]
      @ ''t ready for this account. Run the setup script on the host again.'')\<close>
| "step_failure_text SettingUpStorage = None"
| "step_failure_text CreatingDirectory = Some ''The instances directory could not be created.''"
| \<open>step_failure_text ReadingArchitecture =
     Some (''This host'' @ [quote_char] @ ''s processor could not be read, or has no client build.'')\<close>
| "step_failure_text DownloadingClient = Some ''The client could not be downloaded.''"
| "step_failure_text VerifyingDownload = Some ''The download did not match its checksum, so it was not installed.''"
| "step_failure_text InstallingClient = Some ''The client could not be installed.''"
| "step_failure_text DownloadingImage = Some ''The runtime image could not be downloaded.''"
| "step_failure_text VerifyingImage =
     Some ''The downloaded runtime image was not the expected one, so it was not used.''"
| "step_failure_text CheckingClientRuns = Some ''The client did not start.''"
| "step_failure_text InstallingInstanceUnit = Some ''The bot service could not be installed.''"
| "step_failure_text InstallingSleepUnits = Some ''The sleep services could not be installed.''"
| "step_failure_text ReloadingSystemd = Some ''systemd could not reload its services.''"

fun storage_failure :: "storage_step_word \<Rightarrow> string" where
  \<open>storage_failure StorageRefused =
     (''One of XDG_CONFIG_HOME, XDG_DATA_HOME, CONTAINERS_STORAGE_CONF or rootless_storage_path in /etc/containers/storage.conf is sending Podman''
      @ [quote_char] @ ''s storage elsewhere. Clear whichever is set on this host.'')\<close>
| "storage_failure StorageUsed =
     ''Podman on this account already has data, and OpenMCC will not change it. Enrol an account that has never run Podman.''"
| "storage_failure StorageRoot =
     ''Podman does not run rootless for this account. Bots can only run where it does.''"

definition download_ran_out_of_time :: string where
  "download_ran_out_of_time =
     ''The client download ran out of time. Provision again, or put this host on a faster connection.''"

definition storage_step_said_nothing :: string where
  "storage_step_said_nothing =
     ''Podman did not answer on this account, so nothing was set up on it. Run podman info there as this account to see why.''"

definition provisioning_stopped_early :: string where
  "provisioning_stopped_early = ''Provisioning stopped before its first step.''"

definition provisioning_failure_for ::
    "provision_step option \<Rightarrow> storage_step_word option \<Rightarrow> bool \<Rightarrow> string" where
  "provisioning_failure_for step storage ranOut =
     (case step of
        None \<Rightarrow> provisioning_stopped_early
      | Some s \<Rightarrow>
          if s = SettingUpStorage then
            (case storage of None \<Rightarrow> storage_step_said_nothing | Some w \<Rightarrow> storage_failure w)
          else if s = DownloadingClient \<and> ranOut then download_ran_out_of_time
          else value_or [] (step_failure_text s))"

section \<open>Calls that may fail\<close>

datatype provision_error =
    ProvisioningFailed string "storage_step_word option" bool
  | OtherThrown thrown

type_synonym ('w, 'a) prov = "'w \<Rightarrow> (provision_error + 'a) \<times> 'w"

definition prov_return :: "'a \<Rightarrow> ('w, 'a) prov" where "prov_return x = (\<lambda>w. (Inr x, w))"
definition prov_fail :: "string \<Rightarrow> ('w, 'a) prov" where
  "prov_fail m = (\<lambda>w. (Inl (ProvisioningFailed m None False), w))"
definition prov_throw :: "provision_error \<Rightarrow> ('w, 'a) prov" where "prov_throw e = (\<lambda>w. (Inl e, w))"

definition prov_bind :: "('w, 'a) prov \<Rightarrow> ('a \<Rightarrow> ('w, 'b) prov) \<Rightarrow> ('w, 'b) prov" where
  "prov_bind m f = (\<lambda>w. case m w of (Inl e, w') \<Rightarrow> (Inl e, w') | (Inr x, w') \<Rightarrow> f x w')"

definition prov_call :: "('w, 'a) io \<Rightarrow> ('w, 'a) prov" where
  "prov_call m = (\<lambda>w. case m w of (Inl e, w') \<Rightarrow> (Inl (OtherThrown e), w') | (Inr x, w') \<Rightarrow> (Inr x, w'))"

definition prov_sum :: "thrown + 'a \<Rightarrow> ('w, 'a) prov" where
  "prov_sum r = (case r of Inl e \<Rightarrow> prov_throw (OtherThrown e) | Inr x \<Rightarrow> prov_return x)"

text \<open>\<open>try m finally { f }\<close> for an \<open>f\<close> that does not throw.\<close>

definition prov_finally :: "('w, 'a) prov \<Rightarrow> ('w \<Rightarrow> 'w) \<Rightarrow> ('w, 'a) prov" where
  "prov_finally m f = (\<lambda>w. case m w of (r, w') \<Rightarrow> (r, f w'))"

lemma prov_simps:
  "prov_return x w = (Inr x, w)"
  "prov_fail msg w = (Inl (ProvisioningFailed msg None False), w)"
  "prov_throw e w = (Inl e, w)"
  "prov_bind m f w = (case m w of (Inl e, w') \<Rightarrow> (Inl e, w') | (Inr x, w') \<Rightarrow> f x w')"
  "prov_finally m g w = (case m w of (r, w') \<Rightarrow> (r, g w'))"
  by (simp_all add: prov_return_def prov_fail_def prov_throw_def prov_bind_def prov_finally_def)

section \<open>What is read of the host\<close>

definition provision_step_timeout_ms :: nat where "provision_step_timeout_ms = 15000"
definition provision_download_timeout_ms :: nat where "provision_download_timeout_ms = 460000"
definition image_pull_timeout_ms :: nat where "image_pull_timeout_ms = 180000"
definition client_probe_timeout_ms :: nat where "client_probe_timeout_ms = 30000"

definition client_banner :: string where "client_banner = ''Minecraft Console Client''"

definition system_command :: string where
  \<open>system_command =
     join_with [lf]
       [(''printf '' @ [quote_char] @ ''uid=%s'' @ [backslash] @ ''n'' @ [quote_char] @ '' '' @ [dquote]
      @ ''$(id -u)'' @ [dquote]),
        (''printf '' @ [quote_char] @ ''home=%s'' @ [backslash] @ ''n'' @ [quote_char] @ '' ''
      @ [dquote] @ ''$(printf '' @ [quote_char] @ ''%s'' @ [quote_char] @ '' '' @ [dquote]
      @ ''$HOME'' @ [dquote] @ '' | tr -c '' @ [quote_char] @ ''[:print:]'' @ [quote_char]
      @ '' '' @ [quote_char] @ '' '' @ [quote_char] @ '')'' @ [dquote]),
        (''printf '' @ [quote_char] @ ''passwd-home=%s'' @ [backslash] @ ''n'' @ [quote_char] @ '' ''
      @ [dquote] @ ''$(getent passwd '' @ [dquote] @ ''$(id -un)'' @ [dquote]
      @ '' | cut -d: -f6 | head -n 1)'' @ [dquote]),
        (''printf '' @ [quote_char] @ ''systemd=%s'' @ [backslash] @ ''n'' @ [quote_char] @ '' ''
      @ [dquote] @ ''$(systemctl --version 2>/dev/null | head -n 1)'' @ [dquote]),
        (''(. /etc/os-release 2>/dev/null && printf '' @ [quote_char] @ ''os-id=%s'' @ [backslash]
      @ ''nos-name=%s'' @ [backslash] @ ''n'' @ [quote_char] @ '' '' @ [dquote] @ ''$ID''
      @ [dquote] @ '' '' @ [dquote] @ ''$PRETTY_NAME'' @ [dquote] @ '')''),
        ''exit 0'']\<close>

definition line_value :: "string list \<Rightarrow> string \<Rightarrow> string option" where
  "line_value ls key =
     map_option (drop (length key + 1)) (find (\<lambda>l. starts_with l (key @ ''='')) ls)"

record system_facts =
  sy_uid :: "nat option"
  sy_home :: string
  sy_passwdHome :: string
  sy_systemd :: "string option"
  sy_osId :: "string option"
  sy_osName :: "string option"

definition parse_system :: "string \<Rightarrow> system_facts" where
  "parse_system output =
     (let ls = split_on lf output; uid = value_or [] (line_value ls ''uid'') in
      \<lparr>sy_uid = (if ten_digits uid then Some (number_of uid) else None),
       sy_home = value_or [] (line_value ls ''home''),
       sy_passwdHome = value_or [] (line_value ls ''passwd-home''),
       sy_systemd = host_fact (value_or [] (line_value ls ''systemd'')),
       sy_osId = host_fact (value_or [] (line_value ls ''os-id'')),
       sy_osName = host_fact (value_or [] (line_value ls ''os-name''))\<rparr>)"

text \<open>\<open>/^time="[^"]*" level=[a-z]+ msg=/\<close>\<close>

definition podman_log_line :: "string \<Rightarrow> bool" where
  \<open>podman_log_line line =
     (starts_with line (''time='' @ [dquote]) \<and>
      (let r = dropWhile (\<lambda>c. c \<noteq> dquote) (drop 6 line) in
       starts_with r ([dquote] @ '' level='') \<and>
       (let v = drop 8 r in
        takeWhile is_lower_alpha v \<noteq> [] \<and> starts_with (dropWhile is_lower_alpha v) '' msg='')))\<close>

definition podman_verdict :: string where "podman_verdict = ''Error: ''"

definition explain_client_failure :: "string \<Rightarrow> string" where
  "explain_client_failure output =
     (let ls = filter (\<lambda>l. l \<noteq> []) (map trim (split_on lf output)) in
      case find (\<lambda>l. \<not> podman_log_line l \<and> \<not> starts_with l podman_verdict) ls of
        Some l \<Rightarrow> ''The installed client could not start: '' @ l
      | None \<Rightarrow>
          (case find (\<lambda>l. starts_with l podman_verdict) ls of
             Some l \<Rightarrow> ''Podman did not run the client: '' @ drop (length podman_verdict) l
           | None \<Rightarrow> ''The installed client could not start, and reported nothing.''))"

section \<open>Commands\<close>

definition download_attempts :: nat where "download_attempts = 3"
definition download_deadline_seconds :: nat where "download_deadline_seconds = 450"
definition download_first_backoff_seconds :: nat where "download_first_backoff_seconds = 1"
definition curl_ran_out_of_time :: nat where "curl_ran_out_of_time = 28"

definition retryable_http_codes :: "string list" where "retryable_http_codes = [''408'', ''429'', ''5??'']"
definition retryable_curl_exits :: "nat list" where
  "retryable_curl_exits = [6, 7, 18, curl_ran_out_of_time, 35, 52, 55, 56]"

definition transient_patterns :: string where
  "transient_patterns =
     join_with ''|''
       (map (\<lambda>code. ''22:'' @ code) retryable_http_codes @ map (\<lambda>n. nat_string n @ '':*'') retryable_curl_exits)"

definition tab_char :: char where "tab_char = CHR 0x09"

definition client_download_command :: "string \<Rightarrow> string" where
  \<open>client_download_command url =
     join_with [lf]
       [''dir=$(mktemp -d) || exit 1'',
        ''deadline=$(($(date +%s) + '' @ nat_string download_deadline_seconds @ ''))'',
        ''pause='' @ nat_string download_first_backoff_seconds,
        ''attempt=1'',
        ''while :; do'',
        tab_char # ''left=$((deadline - $(date +%s)))'',
        tab_char # (''[ '' @ [dquote] @ ''$left'' @ [dquote] @ '' -gt 0 ] || exit 28''),
        tab_char # (''code=$(curl -fsSL --max-time '' @ [dquote] @ ''$left'' @ [dquote] @ '' -w '' @ [quote_char]
      @ ''%{http_code}'' @ [quote_char] @ '' -o '' @ [dquote] @ ''$dir/mcc'' @ [dquote] @ '' '') @ shell_quote url @ '')'',
        tab_char # ''status=$?'',
        tab_char # (''[ '' @ [dquote] @ ''$status'' @ [dquote] @ '' -eq 0 ] && break''),
        tab_char # (''case '' @ [dquote] @ ''$status:$code'' @ [dquote] @ '' in''),
        tab_char # transient_patterns @ '') ;;'',
        tab_char # (''*) exit '' @ [dquote] @ ''$status'' @ [dquote] @ '' ;;''),
        tab_char # ''esac'',
        tab_char # (''[ '' @ [dquote] @ ''$attempt'' @ [dquote] @ '' -lt '') @ nat_string download_attempts @ ('' ] || exit '' @ [dquote] @ ''$status'' @ [dquote]),
        tab_char # ''attempt=$((attempt + 1))'',
        tab_char # (''sleep '' @ [dquote] @ ''$pause'' @ [dquote]),
        tab_char # ''pause=$((pause * 2))'',
        ''done'',
        (''printf '' @ [quote_char] @ ''%s'' @ [quote_char] @ '' '' @ [dquote] @ ''$dir'' @ [dquote])]\<close>

definition image_pull_command :: "runtime_image \<Rightarrow> string" where
  "image_pull_command img = ''podman pull '' @ shell_quote (runtime_image_reference img)"

definition image_id_command :: "runtime_image \<Rightarrow> string" where
  \<open>image_id_command img =
     (''podman image inspect --format '' @ [quote_char] @ ''{{.Id}}'' @ [quote_char] @ '' '') @ shell_quote (runtime_image_reference img)\<close>

definition client_check_command :: "runtime_image \<Rightarrow> string" where
  "client_check_command img =
     ''podman run --rm --network=none --pull=never --log-driver='' @ unit_log_driver
     @ '' --user 0:0 --read-only --cap-drop=all -e DOTNET_BUNDLE_EXTRACT_BASE_DIR=/tmp -v '' @ instances_root
     @ ''/bin:/opt/mcc:ro '' @ podman_image_id img @ '' /opt/mcc/MinecraftClient --help < /dev/null 2>&1''"

definition make_directories_command :: string where
  "make_directories_command =
     ''install -d -m 0700 '' @ instances_root @ '' '' @ instances_root @ ''/bin '' @ instances_root @ ''/instances''"

definition verify_command :: "string \<Rightarrow> string \<Rightarrow> string" where
  \<open>verify_command sha256 workDir =
     (''printf '' @ [quote_char] @ ''%s  %s'' @ [quote_char] @ '' '') @ shell_quote sha256 @ '' '' @ shell_quote (workDir @ ''/mcc'') @ '' | sha256sum -c -''\<close>

definition install_client_command :: "string \<Rightarrow> string" where
  "install_client_command workDir =
     ''install -D -m 0755 '' @ shell_quote (workDir @ ''/mcc'') @ '' '' @ instances_root @ ''/bin/MinecraftClient''"

definition remove_download_command :: "string \<Rightarrow> string" where
  "remove_download_command workDir = ''rm -rf '' @ shell_quote workDir"

definition unit_dir :: string where \<open>unit_dir = ([dquote] @ ''$HOME'' @ [dquote] @ ''/.config/systemd/user'')\<close>

definition install_unit_command :: "string \<Rightarrow> string" where
  "install_unit_command name = ''cat > '' @ unit_dir @ ''/'' @ shell_quote name"

definition install_first_unit_command :: string where
  "install_first_unit_command = ''mkdir -p '' @ unit_dir @ '' && '' @ install_unit_command instance_unit_name"

section \<open>The steps\<close>

text \<open>\<open>step\<close>: a command that must exit with 0, and what it printed.\<close>

definition run_step ::
    "'w host_transport \<Rightarrow> string \<Rightarrow> string \<Rightarrow> nat \<Rightarrow> string option \<Rightarrow> ('w, string) prov" where
  "run_step transport command failure timeoutMs stdin =
     prov_bind (prov_call (tp_exec transport command timeoutMs stdin)) (\<lambda>r.
       if er_exitCode r \<noteq> 0 then prov_fail (failure @ '': '' @ trim (er_stderr r))
       else prov_return (trim (er_stdout r)))"

definition read_system ::
    "'w host_transport \<Rightarrow> ('w, string \<times> string option \<times> string option) prov" where
  \<open>read_system transport =
     prov_bind (prov_call (tp_exec transport system_command provision_step_timeout_ms None)) (\<lambda>r.
       if er_exitCode r \<noteq> 0 then
         prov_fail (''Failed to read systemd and the connecting account: '' @ trim (er_stderr r))
       else (let system = parse_system (er_stdout r) in
         if sy_uid system = None then prov_fail (''Couldn'' @ [quote_char] @ ''t read this account'' @ [quote_char] @ ''s user id.'')
         else if sy_uid system = Some 0 then prov_fail root_refusal
         else (case sy_systemd system of
             None \<Rightarrow> prov_fail ''systemd is not available on this host''
           | Some release \<Rightarrow>
               if \<not> is_usable_home (sy_home system) (sy_passwdHome system) then
                 prov_fail (''The remote home directory must be an absolute path containing only letters, digits, ''
      @ [quote_char] @ ''.'' @ [quote_char] @ '', '' @ [quote_char] @ ''_'' @ [quote_char]
      @ '', '' @ [quote_char] @ ''-'' @ [quote_char] @ '', and '' @ [quote_char] @ ''/''
      @ [quote_char] @ '', and must be the account'' @ [quote_char] @ ''s own home'')
               else prov_return (release, sy_osId system, sy_osName system))))\<close>

definition assert_linger_enabled :: "'w host_transport \<Rightarrow> ('w, unit) prov" where
  "assert_linger_enabled transport =
     prov_bind (prov_call (tp_exec transport linger_query provision_step_timeout_ms None)) (\<lambda>r.
       if trim (er_stdout r) = ''yes'' then prov_return ()
       else
         prov_bind (prov_call (io_catch
             (io_bind (tp_exec transport ''id -un'' provision_step_timeout_ms None)
                (\<lambda>u. io_return (trim (er_stdout u))))
             (\<lambda>_. io_return ''<user>''))) (\<lambda>user.
           prov_fail
             (''Instances would stop when this session ends because lingering is off for '' @ user
              @ ''. Run this on the host, then provision again: '' @ linger_command user)))"

definition network_stack_for :: "podman_facts \<Rightarrow> string + network_stack" where
  \<open>network_stack_for facts =
     (if pf_uid facts = None \<or> pf_uid facts = Some 0 then Inl root_refusal
      else (case pf_podman facts of
          None \<Rightarrow> Inl (''Needs Podman '' @ format_podman_version podman_floor @ '' or newer.'')
        | Some v \<Rightarrow>
            if \<not> meets_podman_floor v
            then Inl (''Needs Podman '' @ format_podman_version podman_floor @ '' or newer.'')
            else if \<not> pf_cgroupV2 facts then Inl (''This server'' @ [quote_char] @ ''s system is too old for Podman.'')
            else if \<not> sb_own (pf_subuid facts) \<or> \<not> sb_own (pf_subgid facts)
            then Inl (''This account can'' @ [quote_char] @ ''t run containers yet.'')
            else (let stack = required_stack_for (pv_major v) in
              if stack \<notin> set (pf_helpers facts) then Inl ''A Podman network helper is missing.'' else Inr stack)))\<close>

record provision_result =
  pr_osRelease :: string
  pr_osId :: "string option"
  pr_osName :: "string option"
  pr_networkStack :: network_stack
  pr_architecture :: mcc_build

text \<open>What reading a property of \<open>undefined\<close> throws.\<close>

definition read_of_undefined :: "string \<Rightarrow> provision_error" where
  \<open>read_of_undefined prop =
     OtherThrown (Thrown ''TypeError'' ((''Cannot read properties of undefined (reading '' @ [quote_char]) @ prop @ ([quote_char] @ '')'')))\<close>

definition present_or :: "string \<Rightarrow> 'a option \<Rightarrow> ('w, 'a) prov" where
  "present_or prop v = (case v of None \<Rightarrow> prov_throw (read_of_undefined prop) | Some x \<Rightarrow> prov_return x)"

text \<open>The temporary directory is removed whatever came of the two steps; a failure to do so is dropped.\<close>

definition remove_download :: "'w host_transport \<Rightarrow> string \<Rightarrow> 'w \<Rightarrow> 'w" where
  "remove_download transport workDir w =
     snd (tp_exec transport (remove_download_command workDir) provision_step_timeout_ms None w)"

fun install_units ::
    "'w host_transport \<Rightarrow> (string \<times> string) list \<Rightarrow> string list \<Rightarrow> ('w, unit) prov" where
  "install_units transport templates [] = prov_return ()"
| "install_units transport templates (name # names) =
     prov_bind (run_step transport (install_unit_command name)
         (''Failed to install the '' @ name @ '' unit template'') provision_step_timeout_ms
         (map_of templates name))
       (\<lambda>_. install_units transport templates names)"

text \<open>\<open>advance\<close>: the reporter hears of a step with its place in the list.\<close>

record provision_progress =
  pg_step :: provision_step
  pg_index :: nat
  pg_total :: nat

definition advance_step :: "(provision_progress \<Rightarrow> 'w \<Rightarrow> 'w) \<Rightarrow> nat \<Rightarrow> ('w, unit) prov" where
  "advance_step report completed =
     (\<lambda>w. (Inr (), if completed < length provision_steps
                   then report \<lparr>pg_step = provision_steps ! completed, pg_index = completed,
                                pg_total = length provision_steps\<rparr> w
                   else w))"

text \<open>\<open>provisionHost\<close> in three parts: the checks, the client, and the image with the services.\<close>

definition storage_step_failed :: "exec_result \<Rightarrow> provision_error" where
  "storage_step_failed storage =
     ProvisioningFailed
       (''Failed to set up container storage: '' @ trim (er_stdout storage) @ '' '' @ trim (er_stderr storage))
       (storage_step_word_of (er_stdout storage)) False"

definition provision_checks ::
    "'w host_transport \<Rightarrow> (provision_progress \<Rightarrow> 'w \<Rightarrow> 'w) \<Rightarrow>
     ('w, (string \<times> string option \<times> string option) \<times> network_stack) prov" where
  "provision_checks transport report =
     prov_bind (advance_step report 0) (\<lambda>_.
     prov_bind (read_system transport) (\<lambda>system.
     prov_bind (advance_step report 1) (\<lambda>_.
     prov_bind (assert_linger_enabled transport) (\<lambda>_.
     prov_bind (advance_step report 2) (\<lambda>_.
     prov_bind (run_step transport host_facts_command (''Failed to read Podman'' @ [quote_char] @ ''s facts'')
       provision_step_timeout_ms None) (\<lambda>answer.
     prov_bind (case network_stack_for (parse_host_facts answer) of
                  Inl m \<Rightarrow> prov_fail m | Inr stack \<Rightarrow> prov_return stack) (\<lambda>stack.
     prov_bind (advance_step report 3) (\<lambda>_.
     prov_bind (prov_call (tp_exec transport storage_step_command provision_step_timeout_ms None)) (\<lambda>storage.
       if er_exitCode storage \<noteq> 0 \<or> trim (er_stdout storage) \<noteq> ''ready'' then
         prov_throw (storage_step_failed storage)
       else prov_return (system, stack))))))))))"

text \<open>From the download to the installed client.\<close>

definition fetch_client ::
    "'w host_transport \<Rightarrow> (provision_progress \<Rightarrow> 'w \<Rightarrow> 'w) \<Rightarrow> mcc_release \<Rightarrow> ('w, unit) prov" where
  "fetch_client transport report release =
     prov_bind (advance_step report 6) (\<lambda>_.
     prov_bind (prov_call (tp_exec transport (client_download_command (mr_url release))
       provision_download_timeout_ms None)) (\<lambda>download.
       if er_exitCode download \<noteq> 0 then
         prov_throw (ProvisioningFailed
           (''Failed to download the Minecraft Console Client: '' @ trim (er_stderr download)) None
           (er_exitCode download = int curl_ran_out_of_time))
       else (let workDir = trim (er_stdout download) in
         prov_bind (prov_finally
           (prov_bind (advance_step report 7) (\<lambda>_.
            prov_bind (present_or ''replace'' (mr_sha256 release)) (\<lambda>sha256.
            prov_bind (run_step transport (verify_command sha256 workDir)
              ''The downloaded client did not match its expected checksum'' provision_step_timeout_ms None) (\<lambda>_.
            prov_bind (advance_step report 8) (\<lambda>_.
            run_step transport (install_client_command workDir) ''Failed to install the client''
              provision_step_timeout_ms None)))))
           (remove_download transport workDir)) (\<lambda>_.
         prov_return ()))))"

definition provision_client ::
    "'w host_transport \<Rightarrow> (provision_progress \<Rightarrow> 'w \<Rightarrow> 'w) \<Rightarrow> ('w, mcc_release) prov" where
  "provision_client transport report =
     prov_bind (advance_step report 4) (\<lambda>_.
     prov_bind (run_step transport make_directories_command ''Failed to create instances directory''
       provision_step_timeout_ms None) (\<lambda>_.
     prov_bind (advance_step report 5) (\<lambda>_.
     prov_bind (run_step transport ''uname -m'' ''Failed to read the host machine architecture''
       provision_step_timeout_ms None) (\<lambda>machine.
     prov_bind (prov_sum (mcc_release_for_machine machine)) (\<lambda>release.
     prov_bind (fetch_client transport report release) (\<lambda>_.
     prov_return release))))))"

text \<open>From the runtime image to a client that ran in it.\<close>

definition fetch_image ::
    "'w host_transport \<Rightarrow> (provision_progress \<Rightarrow> 'w \<Rightarrow> 'w) \<Rightarrow> runtime_image \<Rightarrow> ('w, unit) prov" where
  "fetch_image transport report img =
     prov_bind (run_step transport (image_pull_command img) ''Failed to download the runtime image''
       image_pull_timeout_ms None) (\<lambda>_.
     prov_bind (advance_step report 10) (\<lambda>_.
     prov_bind (run_step transport (image_id_command img) ''Failed to read the runtime image''
       provision_step_timeout_ms None) (\<lambda>pulled.
     if pulled \<noteq> podman_image_id img then
       prov_fail (''The runtime image is '' @ value_or unknown_host_fact (host_fact pulled) @ '', not ''
                  @ podman_image_id img)
     else
       prov_bind (advance_step report 11) (\<lambda>_.
       prov_bind (prov_call (tp_exec transport (client_check_command img) client_probe_timeout_ms None)) (\<lambda>probe.
       let probeOutput = er_stdout probe @ [lf] @ er_stderr probe in
       if \<not> has_sub probeOutput client_banner then prov_fail (explain_client_failure probeOutput)
       else prov_return ())))))"

definition provision_services ::
    "'w host_transport \<Rightarrow> (provision_progress \<Rightarrow> 'w \<Rightarrow> 'w) \<Rightarrow> network_stack \<Rightarrow> mcc_release \<Rightarrow> ('w, unit) prov" where
  "provision_services transport report stack release =
     prov_bind (advance_step report 9) (\<lambda>_.
     prov_bind (present_or ''manifest'' (runtime_image_for (mr_architecture release))) (\<lambda>img.
     prov_bind (fetch_image transport report img) (\<lambda>_.
     prov_bind (prov_sum (render_unit_templates stack (podman_image_id img))) (\<lambda>templates.
     prov_bind (advance_step report 12) (\<lambda>_.
     prov_bind (run_step transport install_first_unit_command ''Failed to install the instance unit template''
       provision_step_timeout_ms (map_of templates instance_unit_name)) (\<lambda>_.
     prov_bind (advance_step report 13) (\<lambda>_.
     prov_bind (install_units transport templates supporting_unit_names) (\<lambda>_.
     prov_bind (advance_step report 14) (\<lambda>_.
     prov_bind (run_step transport (systemctl ''daemon-reload'') ''Failed to reload systemd''
       provision_step_timeout_ms None) (\<lambda>_.
     prov_return ()))))))))))"

definition provision_host ::
    "'w host_transport \<Rightarrow> (provision_progress \<Rightarrow> 'w \<Rightarrow> 'w) \<Rightarrow> ('w, provision_result) prov" where
  "provision_host transport report =
     prov_bind (provision_checks transport report) (\<lambda>(system, stack).
     prov_bind (provision_client transport report) (\<lambda>release.
     prov_bind (provision_services transport report stack release) (\<lambda>_.
     prov_return
       \<lparr>pr_osRelease = fst system, pr_osId = fst (snd system), pr_osName = snd (snd system),
        pr_networkStack = stack, pr_architecture = mr_architecture release\<rparr>)))"

end
