(* ===== verification/Fleet.thy ===== *)
theory Fleet
  imports Announce Provision
begin

text \<open>
  The tables of hosts, keys, bots and the audit log, and who may change them:
  \<open>contracts/src/authz.ts\<close>, \<open>audit/audit.repository.ts\<close>, \<open>ssh-key/ssh-key.repository.ts\<close> with
  \<open>ssh-key.controller.ts\<close>, \<open>job/job.queue.ts\<close> and \<open>host/host.repository.ts\<close>.

  \<open>fleet_db\<close> extends the tables of the status log and the notifications with them, and with the
  supply of \<open>randomUUID\<close>. Foreign keys and unique indexes are conditions of the statements; members
  are not modelled, so an actor is taken to be one.
\<close>

section \<open>Capabilities\<close>

datatype role = Owner | Operator | Viewer

datatype capability =
    InstanceRead | ConsoleRead | ConsoleWrite | InstanceStart | ConfigEdit | InstanceCreate
  | InstanceAuthenticate | HostEnroll | SshKeyManage | MemberManage | NotificationRead
  | NotificationManage | AuditRead

definition all_capabilities :: "capability list" where
  "all_capabilities =
     [InstanceRead, ConsoleRead, ConsoleWrite, InstanceStart, ConfigEdit, InstanceCreate, InstanceAuthenticate,
      HostEnroll, SshKeyManage, MemberManage, NotificationRead, NotificationManage, AuditRead]"

definition viewer_capabilities :: "capability list" where
  "viewer_capabilities = [InstanceRead, ConsoleRead]"

definition operator_capabilities :: "capability list" where
  "operator_capabilities = viewer_capabilities @ [ConsoleWrite, InstanceStart, ConfigEdit, NotificationRead]"

fun grants_of :: "role \<Rightarrow> capability list" where
  "grants_of Viewer = viewer_capabilities"
| "grants_of Operator = operator_capabilities"
| "grants_of Owner = all_capabilities"

definition role_can :: "role \<Rightarrow> capability \<Rightarrow> bool" where
  "role_can r c \<longleftrightarrow> c \<in> set (grants_of r)"

record actor_context =
  ac_organizationId :: ident
  ac_memberId :: ident
  ac_actorLabel :: string
  ac_role :: role

definition forbidden :: "string \<Rightarrow> thrown" where
  "forbidden what = Thrown ''ForbiddenError'' (''Forbidden: '' @ what)"

text \<open>\<open>if (!can(ctx.role, c)) throw new ForbiddenError(...)\<close>, and what follows it.\<close>

definition guarded :: "actor_context \<Rightarrow> capability \<Rightarrow> string \<Rightarrow> ('w, 'a) io \<Rightarrow> ('w, 'a) io" where
  "guarded ctx c what m = (if \<not> role_can (ac_role ctx) c then io_throw (forbidden what) else m)"

section \<open>Tables\<close>

datatype host_status = HostPending | HostProvisioning | HostReady | HostUnreachableStatus | HostError | HostRemoving

record host_row =
  ho_id :: ident
  ho_organizationId :: ident
  ho_name :: string
  ho_hostname :: string
  ho_port :: nat
  ho_username :: string
  ho_sshKeyId :: "ident option"
  ho_status :: host_status
  ho_hostKeyAlgorithm :: "string option"
  ho_hostKeyFingerprint :: "string option"
  ho_hostKeyTrustedBy :: "ident option"
  ho_hostKeyTrustedByLabel :: string
  ho_hostKeyTrustedAt :: "time option"
  ho_osRelease :: "string option"
  ho_osId :: "string option"
  ho_osName :: "string option"
  ho_cpuCount :: "int option"
  ho_memoryMb :: "int option"
  ho_networkStack :: "network_stack option"
  ho_architecture :: "mcc_build option"
  ho_lastSeenAt :: "time option"
  ho_failedUnits :: "nat option"
  ho_provisioningAttemptId :: "ident option"
  ho_provisioningClaimedAt :: "time option"
  ho_provisioningStep :: "provision_step option"
  ho_provisioningStepIndex :: "nat option"
  ho_provisioningStepTotal :: "nat option"
  ho_provisioningError :: "string option"
  ho_teardownError :: "string option"
  ho_teardownRequestedAt :: "time option"

record ssh_key_row =
  sk_id :: ident
  sk_organizationId :: ident
  sk_name :: string
  sk_publicKey :: string
  sk_privateKeyEncrypted :: string
  sk_privateKeyKeyId :: string

record audit_entry =
  ae_actorId :: "ident option"
  ae_actorLabel :: string
  ae_action :: string
  ae_subjectType :: string
  ae_subjectId :: ident
  ae_detail :: "(string \<times> string) list"

record audit_row =
  au_id :: ident
  au_organizationId :: ident
  au_entry :: audit_entry
  au_createdAt :: time

datatype instance_status =
    InstanceCreated | InstanceNeedsSignIn | InstanceStopped | InstanceRunning | InstanceError

datatype account_type = MicrosoftAccount | OfflineAccount

record instance_row =
  bt_id :: ident
  bt_organizationId :: ident
  bt_hostId :: ident
  bt_name :: string
  bt_status :: instance_status
  bt_accountType :: account_type
  bt_minecraftAccount :: string
  bt_minecraftUsername :: "string option"
  bt_lastExitCode :: "int option"
  bt_liveControlPort :: nat
  bt_liveControlTokenEncrypted :: "string option"
  bt_liveControlTokenKeyId :: "string option"
  bt_authClaimId :: "ident option"
  bt_authClaimedAt :: "time option"
  bt_configClaimId :: "ident option"
  bt_configClaimedAt :: "time option"
  bt_createdAt :: time

record instance_config_row =
  if_id :: ident
  if_organizationId :: ident
  if_instanceId :: ident
  if_version :: nat
  if_document :: string
  if_authorId :: "ident option"
  if_authorLabel :: string

record 'q fleet_db = "'q app_db" +
  uuid_supply :: "nat \<Rightarrow> ident"
  uuid_next :: nat
  hostRows :: "host_row list"
  sshKeys :: "ssh_key_row list"
  auditEvents :: "audit_row list"
  botInstances :: "instance_row list"
  botConfigs :: "instance_config_row list"

type_synonym ('q, 'a) fleet = "('q fleet_db, 'a) io"

definition random_uuid :: "('q, 'm) fleet_db_scheme \<Rightarrow> ident \<times> ('q, 'm) fleet_db_scheme" where
  "random_uuid db = (uuid_supply db (uuid_next db), db\<lparr>uuid_next := Suc (uuid_next db)\<rparr>)"

text \<open>A transaction over these tables: a throw keeps only what was drawn.\<close>

definition fleet_transaction ::
    "(('q, 'm) fleet_db_scheme, 'a) io \<Rightarrow> (('q, 'm) fleet_db_scheme, 'a) io" where
  "fleet_transaction m db =
     (case m db of
        (Inl e, db') \<Rightarrow>
          (Inl e, db\<lparr>nano_next := nano_next db', clock_next := clock_next db', uuid_next := uuid_next db'\<rparr>)
      | (Inr x, db') \<Rightarrow> (Inr x, db'))"

text \<open>A call of the status controller, which sees its own tables only.\<close>

definition on_app :: "('q, 'a) app \<Rightarrow> ('q, 'a) fleet" where
  "on_app m db =
     (case m (app_db.truncate db) of
        (r, a) \<Rightarrow>
          (r, app_db.extend a
                (fleet_db.fields (uuid_supply db) (uuid_next db) (hostRows db) (sshKeys db) (auditEvents db)
                   (botInstances db) (botConfigs db))))"

definition foreign_key_violation :: thrown where
  "foreign_key_violation = Thrown ''DatabaseError'' ''update or delete violates foreign key constraint''"

section \<open>The audit log\<close>

definition resolve_actor_label :: "audit_entry \<Rightarrow> thrown + string" where
  "resolve_actor_label entry =
     (if ae_actorId entry = None then
        Inr (if trim (ae_actorLabel entry) \<noteq> [] then ae_actorLabel entry else ''system'')
      else if trim (ae_actorLabel entry) = [] then
        Inl (internal_error ''actorLabel is required when actorId is set'')
      else Inr (ae_actorLabel entry))"

definition audit_record ::
    "ident \<Rightarrow> audit_entry \<Rightarrow> (('q, 'm) fleet_db_scheme, audit_row) io" where
  "audit_record org entry db0 =
     (let (i, db) = nanoid db0 in
      case resolve_actor_label entry of
        Inl e \<Rightarrow> (Inl e, db)
      | Inr label \<Rightarrow>
          (let row = \<lparr>au_id = i, au_organizationId = org, au_entry = entry\<lparr>ae_actorLabel := label\<rparr>,
                      au_createdAt = db_time db\<rparr>
           in (Inr row, db\<lparr>auditEvents := auditEvents db @ [row]\<rparr>)))"

text \<open>\<open>orderBy("createdAt", "desc").orderBy("id", "desc")\<close>\<close>

definition newest_audits :: "ident \<Rightarrow> ('q, 'm) fleet_db_scheme \<Rightarrow> audit_row list" where
  "newest_audits org db =
     rev (sort_key (\<lambda>r. (au_createdAt r, au_id r)) (filter (\<lambda>r. au_organizationId r = org) (auditEvents db)))"

definition audit_list :: "ident \<Rightarrow> nat \<Rightarrow> nat \<Rightarrow> ('q, 'm) fleet_db_scheme \<Rightarrow> audit_row list" where
  "audit_list org limit offset db = take limit (drop offset (newest_audits org db))"

definition audit_count :: "ident \<Rightarrow> ('q, 'm) fleet_db_scheme \<Rightarrow> nat" where
  "audit_count org db = length (filter (\<lambda>r. au_organizationId r = org) (auditEvents db))"

definition audit_page_size :: nat where "audit_page_size = 50"

definition audit_controller_list ::
    "actor_context \<Rightarrow> nat \<Rightarrow> ('q, audit_row list \<times> nat) fleet" where
  "audit_controller_list ctx offset =
     guarded ctx AuditRead ''audit.read''
       (\<lambda>db. (Inr (audit_list (ac_organizationId ctx) audit_page_size offset db,
                   audit_count (ac_organizationId ctx) db), db))"

text \<open>What an actor did.\<close>

definition actor_entry ::
    "actor_context \<Rightarrow> string \<Rightarrow> string \<Rightarrow> ident \<Rightarrow> (string \<times> string) list \<Rightarrow> audit_entry" where
  "actor_entry ctx action subjectType subjectId detail =
     \<lparr>ae_actorId = Some (ac_memberId ctx), ae_actorLabel = ac_actorLabel ctx, ae_action = action,
      ae_subjectType = subjectType, ae_subjectId = subjectId, ae_detail = detail\<rparr>"

definition audit_actor ::
    "actor_context \<Rightarrow> string \<Rightarrow> string \<Rightarrow> ident \<Rightarrow> (string \<times> string) list \<Rightarrow> (('q, 'm) fleet_db_scheme, unit) io" where
  "audit_actor ctx action subjectType subjectId detail =
     io_bind (audit_record (ac_organizationId ctx) (actor_entry ctx action subjectType subjectId detail))
       (\<lambda>_. io_return ())"

section \<open>Keys\<close>

definition key_owned :: "ident \<Rightarrow> ident \<Rightarrow> ssh_key_row \<Rightarrow> bool" where
  "key_owned org i r \<longleftrightarrow> sk_id r = i \<and> sk_organizationId r = org"

definition find_ssh_key :: "ident \<Rightarrow> ident \<Rightarrow> ('q, 'm) fleet_db_scheme \<Rightarrow> ssh_key_row option" where
  "find_ssh_key org i db = find (key_owned org i) (sshKeys db)"

record ssh_key_values =
  kv_name :: string
  kv_publicKey :: string
  kv_privateKeyEncrypted :: string
  kv_privateKeyKeyId :: string

definition insert_ssh_key :: "ident \<Rightarrow> ssh_key_values \<Rightarrow> (('q, 'm) fleet_db_scheme, ssh_key_row) io" where
  "insert_ssh_key org v db0 =
     (let (i, db) = nanoid db0;
          row = \<lparr>sk_id = i, sk_organizationId = org, sk_name = kv_name v, sk_publicKey = kv_publicKey v,
                 sk_privateKeyEncrypted = kv_privateKeyEncrypted v, sk_privateKeyKeyId = kv_privateKeyKeyId v\<rparr>
      in if list_ex (\<lambda>r. sk_organizationId r = org \<and> sk_name r = kv_name v) (sshKeys db)
         then (Inl unique_violation, db)
         else (Inr row, db\<lparr>sshKeys := sshKeys db @ [row]\<rparr>))"

definition list_ssh_keys :: "ident \<Rightarrow> ('q, 'm) fleet_db_scheme \<Rightarrow> ssh_key_row list" where
  "list_ssh_keys org db = filter (\<lambda>r. sk_organizationId r = org) (sshKeys db)"

definition delete_ssh_key :: "ident \<Rightarrow> ident \<Rightarrow> (('q, 'm) fleet_db_scheme, bool) io" where
  "delete_ssh_key org i db =
     (if list_ex (key_owned org i) (sshKeys db)
         \<and> list_ex (\<lambda>h. ho_organizationId h = org \<and> ho_sshKeyId h = Some i) (hostRows db)
      then (Inl foreign_key_violation, db)
      else (Inr (list_ex (key_owned org i) (sshKeys db)),
            db\<lparr>sshKeys := filter (\<lambda>r. \<not> key_owned org i r) (sshKeys db)\<rparr>))"

definition delete_unless_in_use :: "ident \<Rightarrow> ident \<Rightarrow> (('q, 'm) fleet_db_scheme, bool) io" where
  "delete_unless_in_use org i =
     io_catch (delete_ssh_key org i) (\<lambda>e.
       if e = foreign_key_violation
       then io_throw (Thrown ''SshKeyInUseError'' (''SSH key '' @ i @ '' is still referenced by an enrolled host''))
       else io_throw e)"

text \<open>\<open>generateKeyPair\<close> gives the two halves of a key, \<open>seal\<close> the ciphertext and the id of the key that sealed it.\<close>

definition ssh_key_create ::
    "(string \<Rightarrow> string \<times> string) \<Rightarrow> (string \<Rightarrow> string \<times> string) \<Rightarrow> actor_context \<Rightarrow> string \<Rightarrow> ('q, ssh_key_row) fleet" where
  "ssh_key_create generateKeyPair seal ctx name =
     guarded ctx SshKeyManage ''sshKey.manage''
       (let (publicKey, privateKey) = generateKeyPair name; (ciphertext, keyId) = seal privateKey in
        fleet_transaction
          (io_bind (insert_ssh_key (ac_organizationId ctx)
             \<lparr>kv_name = name, kv_publicKey = publicKey, kv_privateKeyEncrypted = ciphertext,
              kv_privateKeyKeyId = keyId\<rparr>) (\<lambda>row.
           io_bind (audit_actor ctx ''sshKey.create'' ''sshKey'' (sk_id row) [(''name'', name)]) (\<lambda>_.
           io_return row))))"

definition ssh_key_remove :: "actor_context \<Rightarrow> ident \<Rightarrow> ('q, bool) fleet" where
  "ssh_key_remove ctx i =
     guarded ctx SshKeyManage ''sshKey.manage''
       (fleet_transaction
          (io_bind (delete_unless_in_use (ac_organizationId ctx) i) (\<lambda>removed.
             if removed then io_bind (audit_actor ctx ''sshKey.delete'' ''sshKey'' i []) (\<lambda>_. io_return True)
             else io_return False)))"

definition ssh_key_list :: "actor_context \<Rightarrow> ('q, ssh_key_row list) fleet" where
  "ssh_key_list ctx =
     guarded ctx SshKeyManage ''sshKey.manage'' (\<lambda>db. (Inr (list_ssh_keys (ac_organizationId ctx) db), db))"

section \<open>Jobs\<close>

fun queue_text :: "queue_name \<Rightarrow> string" where
  "queue_text HostTeardownQueue = ''host.teardown''"
| "queue_text StatusEscalateQueue = ''status.escalate''"
| "queue_text NotificationCleanupQueue = ''notification.cleanup''"
| "queue_text NotificationHttpQueue = ''notification.deliver.http''"
| "queue_text NotificationEmailQueue = ''notification.deliver.email''"
| "queue_text NotificationDeadletterQueue = ''notification.deadletter''"
| "queue_text SystemUpdateCheckQueue = ''system.update-check''"

text \<open>
  \<open>error.constructor !== Error\<close>: only an \<open>Error\<close> of that very class becomes a
  \<open>JobNotQueuedError\<close>.
\<close>

definition enqueue ::
    "'q job_sender \<Rightarrow> queue_name \<Rightarrow> payload \<Rightarrow> (('q, 'm) fleet_db_scheme, unit) io" where
  "enqueue send queue payload db =
     (case send queue payload None (boss db) of
        (Inl (Thrown c m), b) \<Rightarrow>
          (Inl (if c = ''Error'' then Thrown ''JobNotQueuedError'' m else Thrown c m), db\<lparr>boss := b\<rparr>)
      | (Inl ThrownValue, b) \<Rightarrow> (Inl ThrownValue, db\<lparr>boss := b\<rparr>)
      | (Inr None, b) \<Rightarrow>
          (Inl (Thrown ''JobNotQueuedError'' (queue_text queue @ '' did not take the job'')), db\<lparr>boss := b\<rparr>)
      | (Inr (Some _), b) \<Rightarrow> (Inr (), db\<lparr>boss := b\<rparr>))"

end
