(* ===== verification/HostStore.thy ===== *)
theory HostStore
  imports Fleet
begin

text \<open>
  \<open>host/host.repository.ts\<close>, every operation, with \<open>contracts/src/host-health.ts\<close>,
  \<open>host/runtime-guard.ts\<close> and the identity of \<open>host/host-reader.ts\<close> that read its rows.

  \<open>lockHost\<close> takes an advisory lock that ends with the transaction: the transactions on one host run
  one after the other, which is how the model runs them, so it has no definition of its own.
\<close>

section \<open>Trust in a host key\<close>

record host_create_values =
  hv_name :: string
  hv_hostname :: string
  hv_port :: nat
  hv_username :: string
  hv_sshKeyId :: "ident option"
  hv_hostKeyAlgorithm :: "string option"
  hv_hostKeyFingerprint :: "string option"
  hv_hostKeyTrustedBy :: "ident option"
  hv_hostKeyTrustedByLabel :: "string option"
  hv_hostKeyTrustedAt :: "time option"
  hv_status :: host_status

definition require_non_blank_label :: "string \<Rightarrow> thrown + string" where
  "require_non_blank_label label =
     (if trim label = [] then
        Inl (internal_error ''hostKeyTrustedByLabel is required when hostKeyTrustedBy is set'')
      else Inr label)"

definition resolve_host_key_trusted_by_label :: "host_create_values \<Rightarrow> thrown + string" where
  "resolve_host_key_trusted_by_label v =
     (let label = value_or [] (hv_hostKeyTrustedByLabel v) in
      if hv_hostKeyTrustedBy v = None then Inr (if trim label \<noteq> [] then label else ''unknown'')
      else require_non_blank_label label)"

definition require_consistent_trust_tuple :: "host_create_values \<Rightarrow> thrown + unit" where
  "require_consistent_trust_tuple v =
     (let present = length (filter id
            [hv_hostKeyFingerprint v \<noteq> None, hv_hostKeyAlgorithm v \<noteq> None, hv_hostKeyTrustedAt v \<noteq> None])
      in if present \<noteq> 0 \<and> present \<noteq> 3 then
           Inl (internal_error ''Host key trust evidence (hostKeyFingerprint, hostKeyAlgorithm, hostKeyTrustedAt) must be set all at once or not at all'')
         else if hv_hostKeyTrustedBy v \<noteq> None \<and> present = 0 then
           Inl (internal_error ''hostKeyTrustedBy cannot be set without hostKeyFingerprint, hostKeyAlgorithm, and hostKeyTrustedAt'')
         else Inr ())"

section \<open>Reading\<close>

definition host_owned :: "ident \<Rightarrow> ident \<Rightarrow> host_row \<Rightarrow> bool" where
  "host_owned org i h \<longleftrightarrow> ho_id h = i \<and> ho_organizationId h = org"

definition find_host :: "ident \<Rightarrow> ident \<Rightarrow> ('q, 'm) fleet_db_scheme \<Rightarrow> host_row option" where
  "find_host org i db = find (host_owned org i) (hostRows db)"

definition list_hosts :: "ident \<Rightarrow> ('q, 'm) fleet_db_scheme \<Rightarrow> host_row list" where
  "list_hosts org db = filter (\<lambda>h. ho_organizationId h = org) (hostRows db)"

definition list_pollable :: "('q, 'm) fleet_db_scheme \<Rightarrow> host_row list" where
  "list_pollable db =
     filter (\<lambda>h. ho_status h \<noteq> HostRemoving \<and> ho_osRelease h \<noteq> None \<and> ho_networkStack h \<noteq> None
                 \<and> ho_architecture h \<noteq> None) (hostRows db)"

definition instance_count :: "ident \<Rightarrow> ident \<Rightarrow> ('q, 'm) fleet_db_scheme \<Rightarrow> nat" where
  "instance_count org i db =
     length (filter (\<lambda>b. bt_hostId b = i \<and> bt_organizationId b = org) (botInstances db))"

section \<open>Writing\<close>

definition update_hosts ::
    "(host_row \<Rightarrow> bool) \<Rightarrow> (host_row \<Rightarrow> host_row) \<Rightarrow> ('q, 'm) fleet_db_scheme
      \<Rightarrow> host_row option \<times> ('q, 'm) fleet_db_scheme" where
  "update_hosts p f db =
     (map_option f (find p (hostRows db)), db\<lparr>hostRows := update_rows p f (hostRows db)\<rparr>)"

definition host_of_values :: "ident \<Rightarrow> ident \<Rightarrow> string \<Rightarrow> host_create_values \<Rightarrow> host_row" where
  "host_of_values i org label v =
     \<lparr>ho_id = i, ho_organizationId = org, ho_name = hv_name v, ho_hostname = hv_hostname v, ho_port = hv_port v,
      ho_username = hv_username v, ho_sshKeyId = hv_sshKeyId v, ho_status = hv_status v,
      ho_hostKeyAlgorithm = hv_hostKeyAlgorithm v, ho_hostKeyFingerprint = hv_hostKeyFingerprint v,
      ho_hostKeyTrustedBy = hv_hostKeyTrustedBy v, ho_hostKeyTrustedByLabel = label,
      ho_hostKeyTrustedAt = hv_hostKeyTrustedAt v, ho_osRelease = None, ho_osId = None, ho_osName = None,
      ho_cpuCount = None, ho_memoryMb = None, ho_networkStack = None, ho_architecture = None,
      ho_lastSeenAt = None, ho_failedUnits = None, ho_provisioningAttemptId = None,
      ho_provisioningClaimedAt = None, ho_provisioningStep = None, ho_provisioningStepIndex = None,
      ho_provisioningStepTotal = None, ho_provisioningError = None, ho_teardownError = None,
      ho_teardownRequestedAt = None\<rparr>"

definition insert_host :: "ident \<Rightarrow> host_create_values \<Rightarrow> (('q, 'm) fleet_db_scheme, host_row) io" where
  "insert_host org v db0 =
     (case require_consistent_trust_tuple v of
        Inl e \<Rightarrow> (Inl e, db0)
      | Inr _ \<Rightarrow>
          (let (i, db) = nanoid db0 in
           case resolve_host_key_trusted_by_label v of
             Inl e \<Rightarrow> (Inl e, db)
           | Inr label \<Rightarrow>
               if list_ex (\<lambda>h. ho_organizationId h = org \<and> ho_name h = hv_name v) (hostRows db)
               then (Inl unique_violation, db)
               else if (case hv_sshKeyId v of None \<Rightarrow> False | Some k \<Rightarrow> find_ssh_key org k db = None)
               then (Inl foreign_key_violation, db)
               else (Inr (host_of_values i org label v), db\<lparr>hostRows := hostRows db @ [host_of_values i org label v]\<rparr>)))"

definition begin_teardown ::
    "ident \<Rightarrow> ident \<Rightarrow> time \<Rightarrow> ('q, 'm) fleet_db_scheme \<Rightarrow> bool \<times> ('q, 'm) fleet_db_scheme" where
  "begin_teardown org i t db =
     (case update_hosts (host_owned org i)
             (\<lambda>h. h\<lparr>ho_status := HostRemoving, ho_teardownError := None, ho_teardownRequestedAt := Some t\<rparr>) db of
        (r, db') \<Rightarrow> (r \<noteq> None, db'))"

definition record_teardown_failure ::
    "ident \<Rightarrow> ident \<Rightarrow> string \<Rightarrow> ('q, 'm) fleet_db_scheme \<Rightarrow> ('q, 'm) fleet_db_scheme" where
  "record_teardown_failure i org reason db =
     snd (update_hosts (host_owned org i) (\<lambda>h. h\<lparr>ho_teardownError := Some (take 2000 reason)\<rparr>) db)"

text \<open>A bot on the host restricts its deletion.\<close>

definition delete_hosts ::
    "(host_row \<Rightarrow> bool) \<Rightarrow> ('q, 'm) fleet_db_scheme \<Rightarrow> (thrown + bool) \<times> ('q, 'm) fleet_db_scheme" where
  "delete_hosts p db =
     (if list_ex (\<lambda>h. p h \<and> list_ex (\<lambda>b. bt_hostId b = ho_id h \<and> bt_organizationId b = ho_organizationId h)
                                (botInstances db)) (hostRows db)
      then (Inl foreign_key_violation, db)
      else (Inr (list_ex p (hostRows db)), db\<lparr>hostRows := filter (\<lambda>h. \<not> p h) (hostRows db)\<rparr>))"

definition delete_after_teardown :: "ident \<Rightarrow> ident \<Rightarrow> (('q, 'm) fleet_db_scheme, bool) io" where
  "delete_after_teardown i org = delete_hosts (\<lambda>h. host_owned org i h \<and> ho_status h = HostRemoving)"

definition delete_host :: "ident \<Rightarrow> ident \<Rightarrow> (('q, 'm) fleet_db_scheme, bool) io" where
  "delete_host org i = delete_hosts (host_owned org i)"

record host_observation_result =
  hr_failedUnits :: "nat option"
  hr_osId :: "string option"
  hr_osName :: "string option"

definition kept_or :: "'a option \<Rightarrow> 'a option \<Rightarrow> 'a option" where
  "kept_or old new = (case new of None \<Rightarrow> old | Some x \<Rightarrow> Some x)"

definition record_seen ::
    "ident \<Rightarrow> ident \<Rightarrow> time \<Rightarrow> host_observation_result \<Rightarrow> ('q, 'm) fleet_db_scheme \<Rightarrow> ('q, 'm) fleet_db_scheme" where
  "record_seen i org seenAt observed db =
     snd (update_hosts (host_owned org i)
       (\<lambda>h. h\<lparr>ho_osId := kept_or (ho_osId h) (hr_osId observed), ho_osName := kept_or (ho_osName h) (hr_osName observed),
              ho_lastSeenAt := Some seenAt, ho_failedUnits := hr_failedUnits observed\<rparr>) db)"

text \<open>A patch's columns: \<open>None\<close> is \<open>undefined\<close>, which leaves the column as it is.\<close>

record host_patch =
  hp_name :: "string option"
  hp_hostname :: "string option"
  hp_port :: "nat option"
  hp_username :: "string option"
  hp_sshKeyId :: "ident option option"
  hp_status :: "host_status option"
  hp_osRelease :: "string option option"
  hp_cpuCount :: "int option option"
  hp_memoryMb :: "int option option"
  hp_lastSeenAt :: "time option option"
  hp_osId :: "string option option"
  hp_osName :: "string option option"
  hp_failedUnits :: "nat option option"

definition set_or :: "'a \<Rightarrow> 'a option \<Rightarrow> 'a" where
  "set_or old new = (case new of None \<Rightarrow> old | Some x \<Rightarrow> x)"

definition whitelist_host_update :: "host_patch \<Rightarrow> host_row \<Rightarrow> host_row" where
  "whitelist_host_update p h =
     h\<lparr>ho_name := set_or (ho_name h) (hp_name p), ho_hostname := set_or (ho_hostname h) (hp_hostname p),
       ho_port := set_or (ho_port h) (hp_port p), ho_username := set_or (ho_username h) (hp_username p),
       ho_sshKeyId := set_or (ho_sshKeyId h) (hp_sshKeyId p), ho_status := set_or (ho_status h) (hp_status p),
       ho_osRelease := set_or (ho_osRelease h) (hp_osRelease p), ho_osId := set_or (ho_osId h) (hp_osId p),
       ho_osName := set_or (ho_osName h) (hp_osName p), ho_cpuCount := set_or (ho_cpuCount h) (hp_cpuCount p),
       ho_memoryMb := set_or (ho_memoryMb h) (hp_memoryMb p),
       ho_lastSeenAt := set_or (ho_lastSeenAt h) (hp_lastSeenAt p),
       ho_failedUnits := set_or (ho_failedUnits h) (hp_failedUnits p)\<rparr>"

definition no_patch :: host_patch where
  "no_patch =
     \<lparr>hp_name = None, hp_hostname = None, hp_port = None, hp_username = None, hp_sshKeyId = None, hp_status = None,
      hp_osRelease = None, hp_cpuCount = None, hp_memoryMb = None, hp_lastSeenAt = None, hp_osId = None,
      hp_osName = None, hp_failedUnits = None\<rparr>"

definition update_host ::
    "ident \<Rightarrow> ident \<Rightarrow> host_patch \<Rightarrow> ('q, 'm) fleet_db_scheme \<Rightarrow> host_row option \<times> ('q, 'm) fleet_db_scheme" where
  "update_host org i patch = update_hosts (host_owned org i) (whitelist_host_update patch)"

section \<open>Provisioning attempts\<close>

definition provisioning_lease_ms :: time where "provisioning_lease_ms = 20 * 60 * 1000"

definition is_provisioning_claim_stale :: "time option \<Rightarrow> time \<Rightarrow> bool" where
  "is_provisioning_claim_stale claimedAt now =
     (case claimedAt of None \<Rightarrow> True | Some t \<Rightarrow> provisioning_lease_ms < now - t)"

text \<open>The rows a claim may take, given the status its caller expects.\<close>

definition claimable_host :: "host_status \<Rightarrow> time \<Rightarrow> host_row \<Rightarrow> bool" where
  "claimable_host expected staleBefore h \<longleftrightarrow>
     (let stale = ho_status h = HostProvisioning \<and>
            (case ho_provisioningClaimedAt h of None \<Rightarrow> True | Some t \<Rightarrow> t < staleBefore)
      in if expected = HostProvisioning then stale else ho_status h = expected \<or> stale)"

definition claimed_row :: "ident \<Rightarrow> time \<Rightarrow> host_row \<Rightarrow> host_row" where
  "claimed_row attempt now h =
     h\<lparr>ho_status := HostProvisioning, ho_provisioningAttemptId := Some attempt,
       ho_provisioningClaimedAt := Some now, ho_provisioningStep := None, ho_provisioningStepIndex := None,
       ho_provisioningStepTotal := None, ho_provisioningError := None\<rparr>"

definition claim_for_provisioning ::
    "ident \<Rightarrow> ident \<Rightarrow> host_status \<Rightarrow> ('q, 'm) fleet_db_scheme \<Rightarrow> host_row option \<times> ('q, 'm) fleet_db_scheme" where
  "claim_for_provisioning org i expected db0 =
     (let (now, db1) = read_now db0; (attempt, db) = random_uuid db1 in
      update_hosts (\<lambda>h. host_owned org i h \<and> claimable_host expected (now - provisioning_lease_ms) h)
        (claimed_row attempt now) db)"

definition at_step :: "provision_progress \<Rightarrow> host_row \<Rightarrow> host_row" where
  "at_step progress h =
     h\<lparr>ho_provisioningStep := Some (pg_step progress), ho_provisioningStepIndex := Some (pg_index progress),
       ho_provisioningStepTotal := Some (pg_total progress)\<rparr>"

definition record_provisioning_progress ::
    "ident \<Rightarrow> ident \<Rightarrow> ident \<Rightarrow> provision_progress \<Rightarrow> ('q, 'm) fleet_db_scheme \<Rightarrow> ('q, 'm) fleet_db_scheme" where
  "record_provisioning_progress org i attempt progress db =
     snd (update_hosts
       (\<lambda>h. host_owned org i h \<and> ho_provisioningAttemptId h = Some attempt \<and> ho_provisioningError h = None)
       (at_step progress) db)"

definition record_provisioning_failure ::
    "ident \<Rightarrow> ident \<Rightarrow> ident \<Rightarrow> string \<Rightarrow> provision_progress option
      \<Rightarrow> ('q, 'm) fleet_db_scheme \<Rightarrow> ('q, 'm) fleet_db_scheme" where
  "record_provisioning_failure org i attempt reason reached db =
     snd (update_hosts (\<lambda>h. host_owned org i h \<and> ho_provisioningAttemptId h = Some attempt)
       (\<lambda>h. (case reached of None \<Rightarrow> h | Some p \<Rightarrow> at_step p h)\<lparr>ho_provisioningError := Some reason\<rparr>) db)"

definition finalize_provisioning ::
    "ident \<Rightarrow> ident \<Rightarrow> ident \<Rightarrow> host_patch \<Rightarrow> network_stack option option \<Rightarrow> mcc_build option option
      \<Rightarrow> ('q, 'm) fleet_db_scheme \<Rightarrow> host_row option \<times> ('q, 'm) fleet_db_scheme" where
  "finalize_provisioning org i attempt patch stack architecture =
     update_hosts
       (\<lambda>h. host_owned org i h \<and> ho_status h = HostProvisioning \<and> ho_provisioningAttemptId h = Some attempt)
       (\<lambda>h. (whitelist_host_update patch h)
          \<lparr>ho_networkStack := set_or (ho_networkStack h) stack, ho_architecture := set_or (ho_architecture h) architecture,
           ho_provisioningAttemptId := None, ho_provisioningClaimedAt := None\<rparr>)"

record host_key_trust =
  ht_hostKeyTrustedBy :: ident
  ht_hostKeyTrustedByLabel :: string
  ht_hostKeyFingerprint :: string
  ht_hostKeyAlgorithm :: string
  ht_hostKeyTrustedAt :: time

definition update_host_key_trust ::
    "ident \<Rightarrow> ident \<Rightarrow> host_key_trust \<Rightarrow> (('q, 'm) fleet_db_scheme, host_row option) io" where
  "update_host_key_trust org i trust db =
     (case require_non_blank_label (ht_hostKeyTrustedByLabel trust) of
        Inl e \<Rightarrow> (Inl e, db)
      | Inr label \<Rightarrow>
          (case update_hosts (host_owned org i)
             (\<lambda>h. h\<lparr>ho_hostKeyAlgorithm := Some (ht_hostKeyAlgorithm trust),
                    ho_hostKeyFingerprint := Some (ht_hostKeyFingerprint trust),
                    ho_hostKeyTrustedBy := Some (ht_hostKeyTrustedBy trust), ho_hostKeyTrustedByLabel := label,
                    ho_hostKeyTrustedAt := Some (ht_hostKeyTrustedAt trust)\<rparr>) db of
             (r, db') \<Rightarrow> (Inr r, db')))"

section \<open>What is read off a row\<close>

datatype host_health = HealthOnline | HealthDegraded | HealthUnreadable | HealthOffline | HealthUnknown

definition health_poll_ms :: time where "health_poll_ms = 60000"
definition offline_after_ms :: time where "offline_after_ms = 3 * health_poll_ms"

definition health_for :: "host_row \<Rightarrow> time \<Rightarrow> host_health" where
  "health_for h now =
     (if ho_status h = HostPending \<or> ho_status h = HostProvisioning then HealthUnknown
      else if ho_status h = HostUnreachableStatus \<or> ho_status h = HostError then HealthOffline
      else case ho_lastSeenAt h of
        None \<Rightarrow> HealthUnknown
      | Some seen \<Rightarrow>
          if offline_after_ms < now - seen then HealthOffline
          else (case ho_failedUnits h of
            None \<Rightarrow> HealthUnreadable
          | Some n \<Rightarrow> if 0 < n then HealthDegraded else HealthOnline))"

datatype runtime_field = MissingNetworkStack | MissingArchitecture

datatype host_runtime_check = RuntimeReady network_stack mcc_build | RuntimeMissing "runtime_field list"

definition check_host_runtime :: "host_row \<Rightarrow> host_runtime_check" where
  "check_host_runtime h =
     (case (ho_networkStack h, ho_architecture h) of
        (Some s, Some a) \<Rightarrow> RuntimeReady s a
      | (s, a) \<Rightarrow>
          RuntimeMissing ((if s = None then [MissingNetworkStack] else [])
                          @ (if a = None then [MissingArchitecture] else [])))"

datatype host_need = SetUpOnce | Runtime

definition host_meets :: "host_row \<Rightarrow> host_need \<Rightarrow> bool" where
  "host_meets h need =
     (if ho_osRelease h = None then False
      else (case need of
        SetUpOnce \<Rightarrow> True
      | Runtime \<Rightarrow> (case check_host_runtime h of RuntimeReady _ _ \<Rightarrow> True | RuntimeMissing _ \<Rightarrow> False)))"

record connection_identity =
  ci_hostname :: string
  ci_port :: nat
  ci_username :: string
  ci_sshKeyId :: ident
  ci_hostKeyFingerprint :: string

text \<open>An empty string is as good as none.\<close>

definition non_empty_text :: "string option \<Rightarrow> string option" where
  "non_empty_text v = (case v of None \<Rightarrow> None | Some s \<Rightarrow> if s = [] then None else Some s)"

definition identity_of :: "host_row \<Rightarrow> connection_identity option" where
  "identity_of h =
     (if ho_teardownRequestedAt h \<noteq> None then None
      else case (non_empty_text (ho_sshKeyId h), non_empty_text (ho_hostKeyFingerprint h)) of
        (Some k, Some f) \<Rightarrow>
          Some \<lparr>ci_hostname = ho_hostname h, ci_port = ho_port h, ci_username = ho_username h, ci_sshKeyId = k,
                ci_hostKeyFingerprint = f\<rparr>
      | _ \<Rightarrow> None)"

end
