(* ===== verification/HostController.thy ===== *)
theory HostController
  imports HostStore Encoding
begin

text \<open>
  The procedures on hosts, \<open>host/host.controller.ts\<close>, with \<open>host/unreachable.ts\<close>,
  \<open>host/address-probe.ts\<close>, \<open>boundary/ssh.ts\<close> and \<open>transport/src/ssh/verify.ts\<close>.

  What is outside the repository or does I/O is a record of services over the tables: the SSH client,
  SHA-256, the sealed box and the pool of connections. Any of their calls may change the tables, which
  is how what other actors do meanwhile enters. The progress of a provisioning is written when it is
  reported. \<open>expressInstall\<close> is not modelled.
\<close>

section \<open>Why a server was not reached\<close>

text \<open>The properties \<open>code\<close> and \<open>level\<close> of an error, where they are strings.\<close>

record error_marks =
  em_code :: "string option"
  em_level :: "string option"

definition timed_out_reason :: string where "timed_out_reason = ''The server did not answer in time''"
definition refused_reason :: string where "refused_reason = ''The server refused the connection''"
definition not_found_reason :: string where "not_found_reason = ''That address could not be found''"
definition no_route_reason :: string where "no_route_reason = ''That address could not be reached''"
definition dropped_reason :: string where "dropped_reason = ''The server closed the connection''"
definition key_refused_reason :: string where
  "key_refused_reason = ''The server did not accept this SSH key''"
definition host_key_mismatch_reason :: string where
  \<open>host_key_mismatch_reason = (''The server'' @ [quote_char] @ ''s key did not match the fingerprint'')\<close>
definition could_not_connect :: string where "could_not_connect = ''Could not connect to the server''"

definition reason_by_code :: "(string \<times> string) list" where
  "reason_by_code =
     [(''ETIMEDOUT'', timed_out_reason), (''ECONNREFUSED'', refused_reason), (''ENOTFOUND'', not_found_reason),
      (''EAI_AGAIN'', not_found_reason), (''EHOSTUNREACH'', no_route_reason), (''ENETUNREACH'', no_route_reason),
      (''ENETDOWN'', no_route_reason), (''ECONNRESET'', dropped_reason), (''EPIPE'', dropped_reason)]"

text \<open>\<open>/timed out/i.test(s)\<close> and the like, for a pattern in lower case.\<close>

definition message_mentions :: "string \<Rightarrow> string \<Rightarrow> bool" where
  "message_mentions s pattern = has_sub (lower s) pattern"

definition connect_failure_reason :: "error_marks \<Rightarrow> string \<Rightarrow> string" where
  "connect_failure_reason marks message =
     (case Option.bind (em_code marks) (map_of reason_by_code) of
        Some known \<Rightarrow> known
      | None \<Rightarrow>
          if em_level marks = Some ''client-authentication'' then key_refused_reason
          else if em_level marks = Some ''client-dns'' then not_found_reason
          else if em_level marks = Some ''client-timeout'' \<or> message_mentions message ''timed out'' then timed_out_reason
          else if message_mentions message ''host denied'' then host_key_mismatch_reason
          else could_not_connect)"

text \<open>\<open>error instanceof Error ? connectFailureReason(error) : COULD_NOT_CONNECT\<close>\<close>

fun unreachable_reason :: "(thrown \<Rightarrow> error_marks) \<Rightarrow> thrown \<Rightarrow> string" where
  "unreachable_reason marks (Thrown c m) = connect_failure_reason (marks (Thrown c m)) m"
| "unreachable_reason marks ThrownValue = could_not_connect"

text \<open>A buffer is the list of its bytes.\<close>

type_synonym bytes = "nat list"

datatype ssh_handshake = HandshakeKey bytes | HandshakeTimedOut | HandshakeFailed string error_marks | HandshakeClosed

datatype address_probe_outcome =
    ProbeAnswered | ProbeNoAnswer | ProbeRefused | ProbeTimedOut | ProbeNotSsh | ProbeUnclear

definition no_answer_codes :: "string list" where
  "no_answer_codes = [''ENOTFOUND'', ''EAI_AGAIN'', ''EHOSTUNREACH'', ''ENETUNREACH'', ''ENETDOWN'']"

definition not_ssh_handshake :: "string \<Rightarrow> bool" where
  "not_ssh_handshake message =
     list_ex (message_mentions message)
       [''identification string'', ''header line too long'', ''greeting lines'', ''expected newline'']"

definition outcome_for_failure :: "string \<Rightarrow> error_marks \<Rightarrow> address_probe_outcome" where
  "outcome_for_failure message marks =
     (let code = value_or [] (em_code marks); level = value_or [] (em_level marks) in
      if code \<in> set no_answer_codes then ProbeNoAnswer
      else if code = ''ECONNREFUSED'' then ProbeRefused
      else if code = ''ETIMEDOUT'' then ProbeTimedOut
      else if level = ''client-dns'' then ProbeNoAnswer
      else if level = ''client-timeout'' \<or> message_mentions message ''timed out'' then ProbeTimedOut
      else if not_ssh_handshake message then ProbeNotSsh
      else ProbeUnclear)"

fun address_probe_outcome_for :: "ssh_handshake \<Rightarrow> address_probe_outcome" where
  "address_probe_outcome_for (HandshakeKey k) = ProbeAnswered"
| "address_probe_outcome_for HandshakeTimedOut = ProbeTimedOut"
| "address_probe_outcome_for HandshakeClosed = ProbeUnclear"
| "address_probe_outcome_for (HandshakeFailed message marks) = outcome_for_failure message marks"

section \<open>Host keys\<close>

definition fingerprint_from_key :: "(bytes \<Rightarrow> bytes) \<Rightarrow> bytes \<Rightarrow> string" where
  "fingerprint_from_key sha256 key =
     ''SHA256:'' @ rev (dropWhile (\<lambda>c. c = CHR ''='') (rev (base64 (sha256 key))))"

definition is_allowed_ssh_name_byte :: "nat \<Rightarrow> bool" where
  "is_allowed_ssh_name_byte b \<longleftrightarrow>
     (0x30 \<le> b \<and> b \<le> 0x39) \<or> (0x41 \<le> b \<and> b \<le> 0x5a) \<or> (0x61 \<le> b \<and> b \<le> 0x7a) \<or> b = 0x2d \<or> b = 0x2e \<or> b = 0x40"

text \<open>\<open>key.readUInt32BE(0)\<close>\<close>

definition read_uint32_be :: "bytes \<Rightarrow> nat" where
  "read_uint32_be key =
     (((key ! 0) * 256 + key ! 1) * 256 + key ! 2) * 256 + key ! 3"

definition algorithm_from_key :: "bytes \<Rightarrow> thrown + string" where
  "algorithm_from_key key =
     (if length key < 4 then Inl (Thrown ''Error'' ''Host key blob is too short to contain an algorithm name'')
      else (let n = read_uint32_be key in
        if n = 0 then Inl (Thrown ''Error'' ''Host key blob declares an empty algorithm name'')
        else if length key - 4 < n
        then Inl (Thrown ''Error'' ''Host key blob declares an algorithm length exceeding the buffer'')
        else (let name = take n (drop 4 key) in
          if \<not> list_all is_allowed_ssh_name_byte name
          then Inl (Thrown ''Error'' ''Host key blob declares an algorithm name outside the allowed character set'')
          else Inr (map (\<lambda>b. char_of b) name))))"

text \<open>
  \<open>verifyHostKey\<close>: the fingerprint when it is the one expected. Two strings have the same bytes
  exactly when they are equal.
\<close>

definition verify_host_key :: "(bytes \<Rightarrow> bytes) \<Rightarrow> bytes \<Rightarrow> string \<Rightarrow> string option" where
  "verify_host_key sha256 presented expected =
     (let fingerprint = fingerprint_from_key sha256 presented in
      if expected = [] then None else if fingerprint = expected then Some fingerprint else None)"

section \<open>Services\<close>

record connect_options =
  co_hostname :: string
  co_port :: nat
  co_username :: string
  co_privateKey :: string
  co_expectedFingerprint :: string
  co_timeoutMs :: nat

record 'w ssh_transport = "'w host_transport" +
  tp_connect :: "connect_options \<Rightarrow> ('w, unit) io"
  tp_close :: "('w, unit) io"

record 'q host_services =
  hx_probeHostKey :: "string \<Rightarrow> nat \<Rightarrow> nat \<Rightarrow> ('q, bytes) fleet"
  hx_probeSshHandshake :: "string \<Rightarrow> nat \<Rightarrow> nat \<Rightarrow> ('q, ssh_handshake) fleet"
  hx_transport :: "'q fleet_db ssh_transport"
  hx_evictHost :: "ident \<Rightarrow> ident \<Rightarrow> 'q fleet_db \<Rightarrow> 'q fleet_db"
  hx_open :: "string \<Rightarrow> string \<Rightarrow> thrown + string"
  hx_sha256 :: "bytes \<Rightarrow> bytes"
  hx_marks :: "thrown \<Rightarrow> error_marks"
  hx_send :: "'q job_sender"

definition address_probe_timeout_ms :: nat where "address_probe_timeout_ms = 5000"
definition probe_timeout_ms :: nat where "probe_timeout_ms = 10000"
definition connect_timeout_ms :: nat where "connect_timeout_ms = 10000"

text \<open>A synchronous computation that may throw, in the middle of awaited ones.\<close>

definition io_sum :: "thrown + 'a \<Rightarrow> ('w, 'a) io" where
  "io_sum r = (\<lambda>w. (r, w))"

definition io_fail :: "string \<Rightarrow> string \<Rightarrow> ('w, 'a) io" where
  "io_fail cls message = io_throw (Thrown cls message)"

definition db_call :: "('w \<Rightarrow> 'a \<times> 'w) \<Rightarrow> ('w, 'a) io" where
  "db_call f = (\<lambda>w. case f w of (x, w') \<Rightarrow> (Inr x, w'))"

definition db_read :: "('w \<Rightarrow> 'a) \<Rightarrow> ('w, 'a) io" where
  "db_read f = (\<lambda>w. (Inr (f w), w))"

text \<open>\<open>if (...) throw ...\<close>\<close>

definition io_require :: "bool \<Rightarrow> string \<Rightarrow> string \<Rightarrow> ('w, unit) io" where
  "io_require ok cls message = (if ok then io_return () else io_fail cls message)"

definition io_found :: "'a option \<Rightarrow> string \<Rightarrow> string \<Rightarrow> ('w, 'a) io" where
  "io_found v cls message = (case v of None \<Rightarrow> io_fail cls message | Some x \<Rightarrow> io_return x)"

definition close_quietly :: "'w ssh_transport \<Rightarrow> 'w \<Rightarrow> 'w" where
  "close_quietly transport w = snd (tp_close transport w)"

section \<open>Views\<close>

record host_public =
  hpb_row :: host_row
  hpb_hostKeyTrustedAt :: "string option"
  hpb_lastSeenAt :: "string option"
  hpb_teardownRequestedAt :: "string option"

text \<open>
  \<open>toHostPublic\<close> copies the columns and turns the dates into strings. It leaves out the columns
  \<open>organizationId\<close>, \<open>sshKeyId\<close>, \<open>hostKeyTrustedBy\<close>, the runtime and the attempt, which are blank here.
\<close>

definition to_host_public :: "host_row \<Rightarrow> host_public" where
  "to_host_public h =
     \<lparr>hpb_row = h\<lparr>ho_organizationId := [], ho_sshKeyId := None, ho_hostKeyTrustedBy := None,
                  ho_hostKeyTrustedAt := None, ho_cpuCount := None, ho_memoryMb := None, ho_networkStack := None,
                  ho_architecture := None, ho_lastSeenAt := None, ho_provisioningAttemptId := None,
                  ho_provisioningClaimedAt := None, ho_teardownRequestedAt := None\<rparr>,
      hpb_hostKeyTrustedAt = map_option iso_string (ho_hostKeyTrustedAt h),
      hpb_lastSeenAt = map_option iso_string (ho_lastSeenAt h),
      hpb_teardownRequestedAt = map_option iso_string (ho_teardownRequestedAt h)\<rparr>"

definition teardown_payload_for :: "host_row \<Rightarrow> payload option" where
  "teardown_payload_for h =
     (case (non_empty_text (ho_sshKeyId h), non_empty_text (ho_hostKeyFingerprint h)) of
        (Some k, Some f) \<Rightarrow>
          if ho_osRelease h = None then None
          else Some [(''hostId'', ho_id h), (''hostname'', ho_hostname h), (''port'', nat_string (ho_port h)),
                     (''username'', ho_username h), (''sshKeyId'', k), (''hostKeyFingerprint'', f)]
      | _ \<Rightarrow> None)"

section \<open>Before a host is enrolled\<close>

definition probe_address ::
    "'q host_services \<Rightarrow> actor_context \<Rightarrow> string \<Rightarrow> nat \<Rightarrow> ('q, address_probe_outcome) fleet" where
  "probe_address sv ctx hostname port =
     guarded ctx HostEnroll ''host.enroll''
       (io_bind (hx_probeSshHandshake sv hostname port address_probe_timeout_ms)
          (\<lambda>handshake. io_return (address_probe_outcome_for handshake)))"

text \<open>The key a server presents, the failure to read it thrown as the class given.\<close>

definition presented_key ::
    "'q host_services \<Rightarrow> string \<Rightarrow> string \<Rightarrow> nat \<Rightarrow> ('q, bytes) fleet" where
  "presented_key sv cls hostname port =
     io_catch (hx_probeHostKey sv hostname port probe_timeout_ms)
       (\<lambda>e. io_fail cls (unreachable_reason (hx_marks sv) e))"

definition read_host_key ::
    "'q host_services \<Rightarrow> actor_context \<Rightarrow> string \<Rightarrow> nat \<Rightarrow> ('q, string \<times> string) fleet" where
  "read_host_key sv ctx hostname port =
     guarded ctx HostEnroll ''host.enroll''
       (io_bind (presented_key sv ''HostKeyUnreadableError'' hostname port) (\<lambda>presented.
        io_bind (io_sum (algorithm_from_key presented)) (\<lambda>algorithm.
        io_return (fingerprint_from_key (hx_sha256 sv) presented, algorithm))))"

datatype host_check_attempt = CheckReported host_check_report | CheckInterrupted thrown

definition check_attempt ::
    "'q host_services \<Rightarrow> check_host_input \<Rightarrow> string \<Rightarrow> ('q, host_check_attempt) fleet" where
  "check_attempt sv input privateKey db0 =
     (let transport = hx_transport sv in
      case tp_connect transport
             \<lparr>co_hostname = ch_hostname input, co_port = ch_port input, co_username = ch_username input,
              co_privateKey = privateKey, co_expectedFingerprint = ch_expectedFingerprint input,
              co_timeoutMs = connect_timeout_ms\<rparr> db0 of
        (Inl e, db) \<Rightarrow>
          (Inr (CheckReported (unreachable_report (unreachable_reason (hx_marks sv) e))),
           close_quietly transport db)
      | (Inr _, db) \<Rightarrow>
          (case check_host_over_transport (host_transport.truncate transport) (ch_username input) db of
             (Inl e, db') \<Rightarrow>
               (Inr (CheckInterrupted (case e of Thrown c m \<Rightarrow> e | ThrownValue \<Rightarrow> internal_error could_not_connect)),
                close_quietly transport db')
           | (Inr report, db') \<Rightarrow> (Inr (CheckReported report), close_quietly transport db')))"

definition check_host ::
    "'q host_services \<Rightarrow> actor_context \<Rightarrow> check_host_input \<Rightarrow> ('q, host_check_report) fleet" where
  "check_host sv ctx input =
     guarded ctx HostEnroll ''host.enroll''
       (io_bind (db_read (find_ssh_key (ac_organizationId ctx) (ch_sshKeyId input))) (\<lambda>found.
        io_bind (io_found found ''SshKeyNotFoundError'' (''SSH key not found: '' @ ch_sshKeyId input)) (\<lambda>key.
        io_bind (io_sum (hx_open sv (sk_privateKeyEncrypted key) (sk_privateKeyKeyId key))) (\<lambda>privateKey.
        io_bind (check_attempt sv input privateKey) (\<lambda>attempt.
        io_bind (fleet_transaction
          (audit_actor ctx ''host.check'' ''host'' (ch_hostname input)
             (check_audit_detail input
                (case attempt of CheckReported report \<Rightarrow> Some report | CheckInterrupted _ \<Rightarrow> None)))) (\<lambda>_.
        case attempt of CheckInterrupted e \<Rightarrow> io_throw e | CheckReported report \<Rightarrow> io_return report))))))"

record create_host_input =
  eh_name :: string
  eh_hostname :: string
  eh_port :: nat
  eh_username :: string
  eh_sshKeyId :: ident
  eh_expectedFingerprint :: string

definition enroll ::
    "'q host_services \<Rightarrow> actor_context \<Rightarrow> create_host_input \<Rightarrow> ('q, host_public) fleet" where
  "enroll sv ctx input =
     guarded ctx HostEnroll ''host.enroll''
       (io_bind (presented_key sv ''HostUnreachableError'' (eh_hostname input) (eh_port input)) (\<lambda>presented.
        io_bind (io_found (verify_host_key (hx_sha256 sv) presented (eh_expectedFingerprint input))
          ''FingerprintMismatchError'' (''Host key fingerprint mismatch for '' @ eh_hostname input)) (\<lambda>fingerprint.
        io_bind (io_sum (algorithm_from_key presented)) (\<lambda>algorithm.
        fleet_transaction
          (io_bind (db_call read_now) (\<lambda>now.
           io_bind (insert_host (ac_organizationId ctx)
             \<lparr>hv_name = eh_name input, hv_hostname = eh_hostname input, hv_port = eh_port input,
              hv_username = eh_username input, hv_sshKeyId = Some (eh_sshKeyId input),
              hv_hostKeyAlgorithm = Some algorithm, hv_hostKeyFingerprint = Some fingerprint,
              hv_hostKeyTrustedBy = Some (ac_memberId ctx), hv_hostKeyTrustedByLabel = Some (ac_actorLabel ctx),
              hv_hostKeyTrustedAt = Some now, hv_status = HostPending\<rparr>) (\<lambda>created.
           io_bind (audit_actor ctx ''host.enroll'' ''host'' (ho_id created)
             [(''hostname'', eh_hostname input), (''fingerprint'', fingerprint)]) (\<lambda>_.
           io_return (to_host_public created)))))))))"

section \<open>Provisioning\<close>

definition host_not_found :: "ident \<Rightarrow> string" where
  "host_not_found i = ''Host not found: '' @ i"

text \<open>Whether an attempt holds the host, at a time drawn only when its status says so.\<close>

definition in_progress :: "host_row \<Rightarrow> (('q, 'm) fleet_db_scheme, bool) io" where
  "in_progress h =
     (if ho_status h = HostProvisioning
      then io_bind (db_call read_now) (\<lambda>now.
             io_return (\<not> is_provisioning_claim_stale (ho_provisioningClaimedAt h) now))
      else io_return False)"

definition claim_host ::
    "actor_context \<Rightarrow> ident \<Rightarrow> host_row \<Rightarrow> (('q, 'm) fleet_db_scheme, (host_row \<times> string) option) io" where
  "claim_host ctx hostId found =
     (let org = ac_organizationId ctx in
      io_bind (db_read (find_host org hostId)) (\<lambda>looked.
      io_bind (io_found looked ''HostNotFoundError'' (host_not_found hostId)) (\<lambda>locked.
      io_bind (io_found (non_empty_text (ho_hostKeyFingerprint locked)) ''HostMisconfiguredError''
        (''Host '' @ hostId @ '' has no trusted host key fingerprint'')) (\<lambda>fingerprint.
      io_bind (io_require (ho_sshKeyId locked = ho_sshKeyId found) ''HostConcurrentlyModifiedError''
        (''Host '' @ hostId @ '' changed its ssh key before provisioning could start'')) (\<lambda>_.
      io_bind (db_call (claim_for_provisioning org hostId (ho_status found))) (\<lambda>claimed.
      case claimed of
        None \<Rightarrow> io_return None
      | Some row \<Rightarrow>
          io_bind (if ho_status locked = HostProvisioning
                   then audit_actor ctx ''host.provision.reclaim'' ''host'' hostId
                          [(''previousAttemptId'', value_or [] (ho_provisioningAttemptId locked))]
                   else io_return ()) (\<lambda>_.
          io_return (Some (row, fingerprint)))))))))"

text \<open>A transport whose calls also pass on the step last reported.\<close>

type_synonym 'q tracked = "'q fleet_db \<times> provision_progress option"

definition beside_progress :: "('q fleet_db, 'a) io \<Rightarrow> ('q tracked, 'a) io" where
  "beside_progress m = (\<lambda>(db, reached). case m db of (r, db') \<Rightarrow> (r, (db', reached)))"

definition tracked_transport :: "'q fleet_db ssh_transport \<Rightarrow> 'q tracked host_transport" where
  "tracked_transport transport =
     \<lparr>tp_exec = (\<lambda>command timeoutMs stdin. beside_progress (tp_exec transport command timeoutMs stdin)),
      tp_canForward = (\<lambda>port timeoutMs. beside_progress (tp_canForward transport port timeoutMs))\<rparr>"

definition report_progress :: "ident \<Rightarrow> ident \<Rightarrow> ident \<Rightarrow> provision_progress \<Rightarrow> 'q tracked \<Rightarrow> 'q tracked" where
  "report_progress org hostId attempt progress =
     (\<lambda>(db, _). (record_provisioning_progress org hostId attempt progress db, Some progress))"

definition run_provision ::
    "'q host_services \<Rightarrow> ident \<Rightarrow> ident \<Rightarrow> ident \<Rightarrow> host_row \<Rightarrow> ssh_key_row \<Rightarrow> string
      \<Rightarrow> ('q tracked, provision_result) prov" where
  "run_provision sv org hostId attempt claimed key expectedFingerprint =
     prov_finally
       (prov_bind (prov_sum (hx_open sv (sk_privateKeyEncrypted key) (sk_privateKeyKeyId key))) (\<lambda>privateKey.
        prov_bind (prov_call (beside_progress (io_catch
            (tp_connect (hx_transport sv)
               \<lparr>co_hostname = ho_hostname claimed, co_port = ho_port claimed, co_username = ho_username claimed,
                co_privateKey = privateKey, co_expectedFingerprint = expectedFingerprint,
                co_timeoutMs = connect_timeout_ms\<rparr>)
            (\<lambda>e. io_fail ''HostUnreachableError'' (unreachable_reason (hx_marks sv) e))))) (\<lambda>_.
        provision_host (tracked_transport (hx_transport sv)) (report_progress org hostId attempt))))
       (\<lambda>(db, reached). (close_quietly (hx_transport sv) db, reached))"

text \<open>What the row is told of a failure, and what the caller is.\<close>

definition failure_text :: "provision_error \<Rightarrow> provision_progress option \<Rightarrow> string" where
  "failure_text e reached =
     (case e of
        OtherThrown (Thrown c m) \<Rightarrow>
          if c = ''HostUnreachableError'' then m
          else provisioning_failure_for (map_option pg_step reached) None False
      | OtherThrown ThrownValue \<Rightarrow> provisioning_failure_for (map_option pg_step reached) None False
      | ProvisioningFailed _ storage ranOut \<Rightarrow>
          provisioning_failure_for (map_option pg_step reached) storage ranOut)"

definition failure_thrown :: "provision_error \<Rightarrow> string \<Rightarrow> thrown" where
  "failure_thrown e failure =
     (case e of
        OtherThrown (Thrown c m) \<Rightarrow>
          if c = ''HostUnreachableError'' then Thrown c m else Thrown ''HostProvisioningFailedError'' failure
      | _ \<Rightarrow> Thrown ''HostProvisioningFailedError'' failure)"

definition settle_failure ::
    "ident \<Rightarrow> ident \<Rightarrow> ident \<Rightarrow> string \<Rightarrow> provision_progress option \<Rightarrow> ('q, 'm) fleet_db_scheme \<Rightarrow> ('q, 'm) fleet_db_scheme" where
  "settle_failure org hostId attempt failure reached db =
     snd (finalize_provisioning org hostId attempt (no_patch\<lparr>hp_status := Some HostError\<rparr>) None None
       (record_provisioning_failure org hostId attempt failure reached db))"

definition settle_success ::
    "actor_context \<Rightarrow> ident \<Rightarrow> ident \<Rightarrow> provision_result \<Rightarrow> (('q, 'm) fleet_db_scheme, host_public) io" where
  "settle_success ctx hostId attempt result =
     (let org = ac_organizationId ctx in
      io_bind (db_call (finalize_provisioning org hostId attempt
        (no_patch\<lparr>hp_status := Some HostReady, hp_osRelease := Some (Some (pr_osRelease result)),
                  hp_osId := Some (pr_osId result), hp_osName := Some (pr_osName result)\<rparr>)
        (Some (Some (pr_networkStack result))) (Some (Some (pr_architecture result))))) (\<lambda>settled.
      io_bind (io_found settled ''HostConcurrentlyModifiedError''
        (''Host '' @ hostId @ '' changed before provisioning could complete'')) (\<lambda>updated.
      io_bind (audit_actor ctx ''host.provision'' ''host'' hostId [(''osRelease'', pr_osRelease result)]) (\<lambda>_.
      io_return (to_host_public updated)))))"

definition run_claimed ::
    "'q host_services \<Rightarrow> actor_context \<Rightarrow> ident \<Rightarrow> ssh_key_row \<Rightarrow> host_row \<Rightarrow> string \<Rightarrow> ident \<Rightarrow> ('q, host_public) fleet" where
  "run_claimed sv ctx hostId key claimed expectedFingerprint attempt db0 =
     (case run_provision sv (ac_organizationId ctx) hostId attempt claimed key expectedFingerprint (db0, None) of
        (Inl e, (db, reached)) \<Rightarrow>
          (let failure = failure_text e reached in
           (Inl (failure_thrown e failure), settle_failure (ac_organizationId ctx) hostId attempt failure reached db))
      | (Inr result, (db, reached)) \<Rightarrow> fleet_transaction (settle_success ctx hostId attempt result) db)"

definition provision :: "'q host_services \<Rightarrow> actor_context \<Rightarrow> ident \<Rightarrow> ('q, host_public) fleet" where
  "provision sv ctx hostId =
     guarded ctx HostEnroll ''host.enroll''
       (let org = ac_organizationId ctx in
        io_bind (db_read (find_host org hostId)) (\<lambda>looked.
        io_bind (io_found looked ''HostNotFoundError'' (host_not_found hostId)) (\<lambda>found.
        io_bind (in_progress found) (\<lambda>busy.
        io_bind (io_require (\<not> busy) ''HostProvisioningInProgressError''
          (''Host '' @ hostId @ '' is already provisioning'')) (\<lambda>_.
        io_bind (io_found (non_empty_text (ho_sshKeyId found)) ''HostMisconfiguredError''
          (''Host '' @ hostId @ '' has no ssh key configured'')) (\<lambda>keyId.
        io_bind (io_found (non_empty_text (ho_hostKeyFingerprint found)) ''HostMisconfiguredError''
          (''Host '' @ hostId @ '' has no trusted host key fingerprint'')) (\<lambda>_.
        io_bind (db_read (find_ssh_key org keyId)) (\<lambda>lookedKey.
        io_bind (io_found lookedKey ''SshKeyNotFoundError'' (''SSH key not found: '' @ keyId)) (\<lambda>key.
        io_bind (fleet_transaction (claim_host ctx hostId found)) (\<lambda>claim.
        io_bind (io_found claim ''HostConcurrentlyModifiedError''
          (''Host '' @ hostId @ '' changed before provisioning could start'')) (\<lambda>(claimed, expectedFingerprint).
        io_bind (io_found (ho_provisioningAttemptId claimed) ''InternalError''
          (''Host '' @ hostId @ '' was claimed for provisioning without an attempt id'')) (\<lambda>attempt.
        run_claimed sv ctx hostId key claimed expectedFingerprint attempt))))))))))))"

section \<open>Trusting a new key, listing and removing\<close>

definition retrust_host_key ::
    "'q host_services \<Rightarrow> actor_context \<Rightarrow> ident \<Rightarrow> string \<Rightarrow> ('q, host_public) fleet" where
  "retrust_host_key sv ctx hostId expectedFingerprint =
     guarded ctx HostEnroll ''host.enroll''
       (let org = ac_organizationId ctx in
        io_bind (db_read (find_host org hostId)) (\<lambda>looked.
        io_bind (io_found looked ''HostNotFoundError'' (host_not_found hostId)) (\<lambda>target.
        io_bind (presented_key sv ''HostUnreachableError'' (ho_hostname target) (ho_port target)) (\<lambda>presented.
        io_bind (io_found (verify_host_key (hx_sha256 sv) presented expectedFingerprint)
          ''FingerprintMismatchError'' (''Host key fingerprint mismatch for host '' @ hostId)) (\<lambda>fingerprint.
        io_bind (io_sum (algorithm_from_key presented)) (\<lambda>algorithm.
        io_bind (fleet_transaction
          (io_bind (db_read (find_host org hostId)) (\<lambda>found.
           io_bind (case found of None \<Rightarrow> io_return False | Some h \<Rightarrow> in_progress h) (\<lambda>busy.
           io_bind (io_require (\<not> busy) ''HostProvisioningInProgressError''
             (''Host '' @ hostId @ '' cannot be re-trusted while a provisioning attempt is in progress'')) (\<lambda>_.
           io_bind (db_call read_now) (\<lambda>now.
           io_bind (update_host_key_trust org hostId
             \<lparr>ht_hostKeyTrustedBy = ac_memberId ctx, ht_hostKeyTrustedByLabel = ac_actorLabel ctx,
              ht_hostKeyFingerprint = fingerprint, ht_hostKeyAlgorithm = algorithm, ht_hostKeyTrustedAt = now\<rparr>) (\<lambda>r.
           io_bind (io_found r ''HostNotFoundError'' (host_not_found hostId)) (\<lambda>updated.
           io_bind (audit_actor ctx ''host.retrust'' ''host'' hostId [(''fingerprint'', fingerprint)]) (\<lambda>_.
           io_return (to_host_public updated)))))))))) (\<lambda>retrusted.
        (\<lambda>db. (Inr retrusted, hx_evictHost sv org hostId db)))))))))"

definition host_list :: "actor_context \<Rightarrow> ('q, host_public list) fleet" where
  "host_list ctx =
     guarded ctx InstanceRead ''read'' (db_read (\<lambda>db. map to_host_public (list_hosts (ac_organizationId ctx) db)))"

definition remove_host_tx ::
    "'q host_services \<Rightarrow> actor_context \<Rightarrow> ident \<Rightarrow> ('q, bool) fleet" where
  "remove_host_tx sv ctx hostId =
     (let org = ac_organizationId ctx in
      io_bind (db_read (find_host org hostId)) (\<lambda>looked.
      case looked of
        None \<Rightarrow> io_return False
      | Some found \<Rightarrow>
          io_bind (db_read (instance_count org hostId)) (\<lambda>instances.
          io_bind (io_require (instances = 0) ''HostHasInstancesError''
            (''Host '' @ hostId @ '' still has '' @ nat_string instances @ '' instance(s); remove them first'')) (\<lambda>_.
          io_bind (in_progress found) (\<lambda>busy.
          io_bind (io_require (\<not> busy) ''HostProvisioningInProgressError''
            (''Host '' @ hostId @ '' cannot be deleted while its status is '' @ [quote_char] @ ''provisioning'' @ [quote_char])) (\<lambda>_.
          case teardown_payload_for found of
            None \<Rightarrow>
              io_bind (delete_host org hostId) (\<lambda>removed.
              io_bind (if removed then audit_actor ctx ''host.delete'' ''host'' hostId [(''cleaned'', ''nothing was installed'')]
                       else io_return ()) (\<lambda>_.
              io_return removed))
          | Some teardownPayload \<Rightarrow>
              io_bind (db_call read_now) (\<lambda>now.
              io_bind (db_call (begin_teardown org hostId now)) (\<lambda>_.
              io_bind (io_catch
                (enqueue (hx_send sv) HostTeardownQueue (teardownPayload @ [(''organizationId'', org)]))
                (\<lambda>e. case e of
                    Thrown c m \<Rightarrow>
                      if c = ''JobNotQueuedError''
                      then io_fail ''HostRemovalNotStartedError'' (''Host '' @ hostId @ '' was not removed: '' @ m)
                      else io_throw e
                  | ThrownValue \<Rightarrow> io_throw e)) (\<lambda>_.
              io_bind (audit_actor ctx ''host.teardown.requested'' ''host'' hostId []) (\<lambda>_.
              io_return True))))))))))"

definition remove_host :: "'q host_services \<Rightarrow> actor_context \<Rightarrow> ident \<Rightarrow> ('q, bool) fleet" where
  "remove_host sv ctx hostId =
     guarded ctx HostEnroll ''host.delete''
       (let org = ac_organizationId ctx in
        io_bind (db_read (find_host org hostId)) (\<lambda>target.
        if target = None then io_return False
        else io_bind (fleet_transaction (remove_host_tx sv ctx hostId)) (\<lambda>removed.
             (\<lambda>db. (Inr removed, hx_evictHost sv org hostId db)))))"

end
