(* ===== verification/ProvisionSafety.thy ===== *)
theory ProvisionSafety
  imports HostController
begin

text \<open>
  What a ready report means, how it agrees with the guards of the provisioning, and what a
  provisioning has run on the host whichever way it ends.
\<close>

named_theorems check_rules

lemma is_blocking_result [check_rules]:
  "is_blocking (result_with outcome name detail command hint) \<longleftrightarrow> outcome = CheckFail"
  by (simp add: is_blocking_def result_with_def)

lemma blocking_account [check_rules]:
  "is_blocking (account_result facts info) \<longleftrightarrow>
     pf_uid facts = None \<or> pf_uid facts = Some 0 \<or> Option.bind info pi_rootless = Some False"
  by (simp add: account_result_def check_rules Let_def)

lemma blocking_systemd [check_rules]:
  "is_blocking (systemd_result release usable) \<longleftrightarrow> release = None \<or> \<not> usable"
  by (simp add: systemd_result_def check_rules split: option.splits)

lemma blocking_architecture [check_rules]:
  "is_blocking (architecture_result machine) \<longleftrightarrow> (\<exists>e. architecture_for_machine machine = Inl e)"
  by (simp add: architecture_result_def check_rules split: sum.splits)

lemma blocking_lingering [check_rules]:
  "is_blocking (lingering_result stdout account) \<longleftrightarrow> trim stdout \<noteq> ''yes''"
  by (simp add: lingering_result_def check_rules)

definition recent_podman :: "podman_facts \<Rightarrow> bool" where
  "recent_podman facts = (case pf_podman facts of None \<Rightarrow> False | Some v \<Rightarrow> meets_podman_floor v)"

lemma blocking_podman [check_rules]:
  "is_blocking (podman_result facts) \<longleftrightarrow> \<not> recent_podman facts"
  by (simp add: podman_result_def recent_podman_def check_rules split: option.splits)

lemma blocking_cgroups [check_rules]: "is_blocking (cgroups_result facts) \<longleftrightarrow> \<not> pf_cgroupV2 facts"
  by (simp add: cgroups_result_def check_rules)

lemma blocking_subordinate_ids [check_rules]:
  "is_blocking (subordinate_ids_result facts account) \<longleftrightarrow>
     \<not> (sb_own (pf_subuid facts) \<and> sb_own (pf_subgid facts))"
  by (simp add: subordinate_ids_result_def check_rules)

lemma blocking_network_helper [check_rules]:
  "is_blocking (network_helper_result facts) \<longleftrightarrow>
     recent_podman facts \<and>
     required_stack_for (pv_major (the (pf_podman facts))) \<notin> set (pf_helpers facts)"
  by (simp add: network_helper_result_def recent_podman_def check_rules Let_def split: option.splits)

definition storage_blocked :: "podman_facts \<Rightarrow> podman_info option \<Rightarrow> bool" where
  "storage_blocked facts info \<longleftrightarrow>
     pf_overrides facts \<noteq> [] \<or>
     (pf_storage facts \<noteq> FreshStorage \<and>
      (\<exists>i. info = Some i \<and> (pi_driver i \<noteq> None \<and> pi_driver i \<noteq> Some ''overlay''
                            \<or> pi_driver i = None \<and> pf_storage facts = UsedStorage)))"

lemma blocking_storage [check_rules]: "is_blocking (storage_result facts info) \<longleftrightarrow> storage_blocked facts info"
  by (auto simp: storage_result_def storage_blocked_def check_rules Let_def split: option.splits if_splits)

lemma blocking_forwarding [check_rules]: "\<not> is_blocking (forwarding_result forwards)"
  by (simp add: forwarding_result_def check_rules)

lemma blocking_metadata [check_rules]: "\<not> is_blocking (metadata_result reach)"
  by (cases reach) (simp_all add: check_rules)

lemma ready_report_iff:
  "rp_ready (report_from (check_results account version machine facts linger info forwards)) \<longleftrightarrow>
     pf_uid facts \<noteq> None \<and> pf_uid facts \<noteq> Some 0 \<and> Option.bind info pi_rootless \<noteq> Some False \<and>
     host_fact version \<noteq> None \<and> pf_usableHome facts \<and> (\<exists>a. architecture_for_machine machine = Inr a) \<and>
     trim linger = ''yes'' \<and> recent_podman facts \<and> pf_cgroupV2 facts \<and>
     sb_own (pf_subuid facts) \<and> sb_own (pf_subgid facts) \<and>
     required_stack_for (pv_major (the (pf_podman facts))) \<in> set (pf_helpers facts) \<and>
     \<not> storage_blocked facts info"
  by (cases "architecture_for_machine machine")
     (auto simp add: report_from_def check_results_def check_rules)

lemma network_stack_for_iff:
  "(\<exists>stack. network_stack_for facts = Inr stack) \<longleftrightarrow>
     pf_uid facts \<noteq> None \<and> pf_uid facts \<noteq> Some 0 \<and> recent_podman facts \<and> pf_cgroupV2 facts \<and>
     sb_own (pf_subuid facts) \<and> sb_own (pf_subgid facts) \<and>
     required_stack_for (pv_major (the (pf_podman facts))) \<in> set (pf_helpers facts)"
  by (auto simp: network_stack_for_def recent_podman_def Let_def split: option.splits if_splits)

lemma network_stack_for_Inr:
  "network_stack_for facts = Inr stack \<Longrightarrow> stack = required_stack_for (pv_major (the (pf_podman facts)))"
  by (auto simp: network_stack_for_def Let_def split: option.splits if_splits)

text \<open>Every report has the same checks, in the order of the list.\<close>

lemma result_names [simp]:
  "hc_name (result_with outcome name detail command hint) = name"
  "hc_name (account_result facts info) = CheckAccount" "hc_name (systemd_result release usable) = CheckSystemd"
  "hc_name (architecture_result machine) = CheckArchitecture" "hc_name (lingering_result linger account) = CheckLingering"
  "hc_name (podman_result facts) = CheckPodman" "hc_name (cgroups_result facts) = CheckCgroups"
  "hc_name (subordinate_ids_result facts account) = CheckSubordinateIds"
  "hc_name (network_helper_result facts) = CheckNetworkHelper" "hc_name (storage_result facts info) = CheckStorage"
  "hc_name (forwarding_result forwards) = CheckTcpForwarding" "hc_name (metadata_result reach) = CheckCloudMetadata"
  by (simp_all add: account_result_def systemd_result_def architecture_result_def lingering_result_def podman_result_def
      cgroups_result_def subordinate_ids_result_def network_helper_result_def storage_result_def forwarding_result_def
      Let_def result_with_def split: option.splits sum.splits)
    (cases reach; simp add: result_with_def)

lemma check_names: "map hc_name (check_results a v m facts l info fw) = host_check_names"
  by (simp add: check_results_def host_check_names_def)

text \<open>Versions of Podman read back from their text.\<close>

lemma leading_digits_nat: "(s = [] \<or> \<not> is_digit (hd s)) \<Longrightarrow> leading_digits (nat_string n @ s) = Some (n, s)"
proof -
  assume s: "s = [] \<or> \<not> is_digit (hd s)"
  have all: "\<forall>c \<in> set (nat_string n). is_digit c" by (rule nat_string_digits)
  have "takeWhile is_digit (nat_string n @ s) = nat_string n" "dropWhile is_digit (nat_string n @ s) = s"
    using all s by (cases s; simp add: takeWhile_append dropWhile_append)+
  then show ?thesis by (simp add: leading_digits_def)
qed

lemma dropWhile_kept: "s \<noteq> [] \<Longrightarrow> \<not> P (hd s) \<Longrightarrow> dropWhile P s = s"
  by (cases s) simp_all

lemma trim_same: "s \<noteq> [] \<Longrightarrow> \<not> is_space (hd s) \<Longrightarrow> \<not> is_space (last s) \<Longrightarrow> trim s = s"
  by (simp add: trim_def dropWhile_kept hd_rev)

lemma parse_formatted_version: "parse_podman_version (podman_version_prefix @ format_podman_version v) = Some v"
proof -
  let ?s = "podman_version_prefix @ format_podman_version v"
  have last: "is_digit (last (nat_string n))" for n using nat_string_digits [of n] by simp
  have "trim ?s = ?s"
    using last [of "pv_patch v"]
    by (intro trim_same) (auto simp: podman_version_prefix_def format_podman_version_def is_space_def is_digit_def)
  then show ?thesis
    by (simp add: parse_podman_version_def Let_def)
       (simp add: format_podman_version_def leading_digits_nat leading_digits_nat [where s = "[]", simplified] after_dot_def version_suffix_def is_digit_def)
qed

section \<open>Hosts that answer the same whenever they are asked\<close>

definition steady :: "(string \<Rightarrow> exec_result) \<Rightarrow> 'w host_transport \<Rightarrow> bool" where
  "steady answer transport \<longleftrightarrow>
     (\<forall>command timeoutMs stdin w. tp_exec transport command timeoutMs stdin w = (Inr (answer command), w))"

lemma steadyD [simp]:
  "steady answer transport \<Longrightarrow> tp_exec transport command timeoutMs stdin w = (Inr (answer command), w)"
  by (simp add: steady_def)

text \<open>A last line end changes nothing in what is read.\<close>

lemma split_on_snoc: "split_on c (xs @ [c]) = split_on c xs @ [[]]"
  by (induction xs) (auto split: list.splits)

lemma parse_host_facts_newline: "parse_host_facts (body @ [lf]) = parse_host_facts body"
proof -
  have kv: "map key_value_line (split_on lf (body @ [lf])) = map key_value_line (split_on lf body) @ [([], [])]"
    by (simp add: split_on_snoc key_value_line_def)
  have vals: "values_of (kvs @ [([], [])]) key = values_of kvs key" if "key \<noteq> []" for kvs key
    using that by (simp add: values_of_def)
  show ?thesis
    by (simp add: parse_host_facts_def subordinate_of_def kv vals Let_def)
qed

text \<open>
  The checks of \<open>provisionHost\<close> on a host the report called ready: what is left to fail is reading the
  system and setting the storage up.
\<close>

lemma check_over_steady:
  assumes st: "steady answer transport"
    and run: "check_host_over_transport transport account w = (Inr report, w')"
  shows "\<exists>info forwards. report = report_from (check_results account (er_stdout (answer systemd_version_command))
           (er_stdout (answer ''uname -m'')) (parse_host_facts (er_stdout (answer host_facts_command)))
           (er_stdout (answer linger_query)) info forwards)"
  using run st
  by (auto simp: check_host_over_transport_def io_simps Let_def split: prod.splits sum.splits if_splits)

lemma advance_then [simp]:
  "prov_bind (advance_step rep n) f w =
     f () (if n < length provision_steps
           then rep \<lparr>pg_step = provision_steps ! n, pg_index = n, pg_total = length provision_steps\<rparr> w else w)"
  by (simp add: prov_bind_def advance_step_def)

lemma prov_bind_Inr: "m w = (Inr x, w') \<Longrightarrow> prov_bind m f w = f x w'"
  by (simp add: prov_bind_def)

lemma prov_bind_return [simp]: "prov_bind (prov_return x) f w = f x w"
  by (simp add: prov_bind_def prov_return_def)

lemma prov_bind_Inl: "m w = (Inl e, w') \<Longrightarrow> prov_bind m f w = (Inl e, w')"
  by (simp add: prov_bind_def)

lemma steady_call: "steady answer transport \<Longrightarrow> prov_call (tp_exec transport c t i) w = (Inr (answer c), w)"
  by (simp add: prov_call_def)

lemma steady_step:
  assumes "steady answer transport" and "er_exitCode (answer c) = 0"
  shows "run_step transport c failure t i w = (Inr (trim (er_stdout (answer c))), w)"
  using assms by (simp add: run_step_def prov_bind_Inr [OF steady_call] prov_return_def)

lemma steady_linger:
  assumes "steady answer transport" and "trim (er_stdout (answer linger_query)) = ''yes''"
  shows "assert_linger_enabled transport w = (Inr (), w)"
  using assms by (simp add: assert_linger_enabled_def prov_bind_Inr [OF steady_call] prov_return_def)

lemma steady_system:
  assumes "steady answer transport"
  shows "read_system transport w = (fst (read_system transport v), w)"
  using assms
  by (simp add: read_system_def prov_bind_Inr [OF steady_call] prov_return_def prov_fail_def Let_def
      split: option.splits)

lemma checks_after_ready_report:
  assumes st: "steady answer transport"
    and run: "check_host_over_transport transport account w = (Inr report, w')" and ready: "rp_ready report"
    and exit: "er_exitCode (answer host_facts_command) = 0"
    and body: "er_stdout (answer host_facts_command) = body @ [lf]" "trim (er_stdout (answer host_facts_command)) = body"
  shows "\<exists>stack. fst (provision_checks transport rep v) =
     (case fst (read_system transport v) of
        Inl e \<Rightarrow> Inl e
      | Inr system \<Rightarrow>
          let storage = answer storage_step_command in
          if er_exitCode storage = 0 \<and> trim (er_stdout storage) = ''ready'' then Inr (system, stack)
          else Inl (storage_step_failed storage))"
proof -
  define facts where "facts = parse_host_facts (er_stdout (answer host_facts_command))"
  obtain info forwards where report: "report = report_from (check_results account
      (er_stdout (answer systemd_version_command)) (er_stdout (answer ''uname -m'')) facts
      (er_stdout (answer linger_query)) info forwards)"
    using check_over_steady [OF st run] by (auto simp: facts_def)
  then have all: "rp_ready (report_from (check_results account (er_stdout (answer systemd_version_command))
      (er_stdout (answer ''uname -m'')) facts (er_stdout (answer linger_query)) info forwards))"
    using ready by simp
  have linger: "trim (er_stdout (answer linger_query)) = ''yes''"
    using all unfolding ready_report_iff by blast
  have stack: "\<exists>stack. network_stack_for facts = Inr stack"
    using all unfolding ready_report_iff network_stack_for_iff by blast
  have trimmed: "parse_host_facts (trim (er_stdout (answer host_facts_command))) = facts"
    using body by (simp add: facts_def parse_host_facts_newline)
  obtain s where s: "network_stack_for facts = Inr s" using stack by blast
  show ?thesis
  proof (cases "fst (read_system transport v)")
    case (Inl e)
    then have rs: "read_system transport u = (Inl e, u)" for u by (metis steady_system [OF st])
    show ?thesis using Inl by (simp add: provision_checks_def prov_bind_Inl [OF rs])
  next
    case (Inr system)
    then have rs: "read_system transport u = (Inr system, u)" for u by (metis steady_system [OF st])
    show ?thesis
      unfolding Inr
      by (rule exI [of _ s])
        (simp add: provision_checks_def prov_bind_Inr [OF rs] prov_bind_Inr [OF steady_linger [OF st linger]]
          prov_bind_Inr [OF steady_step [OF st exit]] trimmed s prov_bind_Inr [OF steady_call [OF st]]
          prov_simps(1,3) Let_def)
  qed
qed

section \<open>What a provisioning ran\<close>

text \<open>
  A transport that also writes down every command with its answer, and the reporter beside it.
\<close>

type_synonym host_log = "(string \<times> (thrown + exec_result)) list"

definition logged :: "'w host_transport \<Rightarrow> ('w \<times> host_log) host_transport" where
  "logged transport =
     \<lparr>tp_exec = (\<lambda>command timeoutMs stdin (w, l).
        case tp_exec transport command timeoutMs stdin w of (r, w') \<Rightarrow> (r, (w', l @ [(command, r)]))),
      tp_canForward = (\<lambda>port timeoutMs (w, l). case tp_canForward transport port timeoutMs w of (r, w') \<Rightarrow> (r, (w', l)))\<rparr>"

definition log_report :: "(provision_progress \<Rightarrow> 'w \<Rightarrow> 'w) \<Rightarrow> provision_progress \<Rightarrow> 'w \<times> host_log \<Rightarrow> 'w \<times> host_log" where
  "log_report rep p = (\<lambda>(w, l). (rep p w, l))"

definition log_answered :: "host_log \<Rightarrow> string \<Rightarrow> (exec_result \<Rightarrow> bool) \<Rightarrow> bool" where
  "log_answered l command ok \<longleftrightarrow> (\<exists>a. (command, Inr a) \<in> set l \<and> ok a)"

lemma answeredI: "(command, Inr a) \<in> set l \<Longrightarrow> ok a \<Longrightarrow> log_answered l command ok"
  by (auto simp: log_answered_def)

lemma answered_grows: "log_answered l command ok \<Longrightarrow> log_answered (l @ es) command ok"
  by (auto simp: log_answered_def)

text \<open>
  A triple: from a log with \<open>P\<close> a call that returns leaves one with \<open>Q\<close>, a call that fails one with
  \<open>E\<close>.
\<close>

definition log_runs ::
    "(host_log \<Rightarrow> bool) \<Rightarrow> ('w \<times> host_log, 'a) prov \<Rightarrow> ('a \<Rightarrow> host_log \<Rightarrow> bool) \<Rightarrow> (host_log \<Rightarrow> bool) \<Rightarrow> bool" where
  "log_runs P m Q E \<longleftrightarrow>
     (\<forall>w l w' l'. P l \<longrightarrow>
        (\<forall>x. m (w, l) = (Inr x, (w', l')) \<longrightarrow> Q x l') \<and> (\<forall>e. m (w, l) = (Inl e, (w', l')) \<longrightarrow> E l'))"

lemma log_runsI:
  assumes "\<And>w l x w' l'. P l \<Longrightarrow> m (w, l) = (Inr x, (w', l')) \<Longrightarrow> Q x l'"
    and "\<And>w l e w' l'. P l \<Longrightarrow> m (w, l) = (Inl e, (w', l')) \<Longrightarrow> E l'"
  shows "log_runs P m Q E"
  using assms by (auto simp: log_runs_def)

lemma log_runsD:
  assumes "log_runs P m Q E" and "P l"
  shows "m (w, l) = (Inr x, (w', l')) \<Longrightarrow> Q x l'" and "m (w, l) = (Inl e, (w', l')) \<Longrightarrow> E l'"
  using assms unfolding log_runs_def by blast+

lemma log_weaken:
  assumes "log_runs P m Q E" and "\<And>l. P' l \<Longrightarrow> P l" and "\<And>x l. Q x l \<Longrightarrow> Q' x l" and "\<And>l. E l \<Longrightarrow> E' l"
  shows "log_runs P' m Q' E'"
  using assms unfolding log_runs_def by blast

lemma log_bind:
  assumes "log_runs P m R E" and "\<And>x. log_runs (R x) (f x) Q E"
  shows "log_runs P (prov_bind m f) Q E"
proof (rule log_runsI)
  fix w l x w' l'
  assume P: "P l" and run: "prov_bind m f (w, l) = (Inr x, (w', l'))"
  then obtain y w1 l1 where m: "m (w, l) = (Inr y, (w1, l1))" and f: "f y (w1, l1) = (Inr x, (w', l'))"
    by (auto simp: prov_bind_def split: prod.splits sum.splits)
  have "R y l1" by (rule log_runsD(1) [OF assms(1) P m])
  then show "Q x l'" by (rule log_runsD(1) [OF assms(2)]) (rule f)
next
  fix w l e w' l'
  assume P: "P l" and run: "prov_bind m f (w, l) = (Inl e, (w', l'))"
  show "E l'"
  proof (cases "fst (m (w, l))")
    case (Inl e1)
    then have "m (w, l) = (Inl e, (w', l'))" using run by (cases "m (w, l)") (simp add: prov_bind_def)
    then show ?thesis by (rule log_runsD(2) [OF assms(1) P])
  next
    case (Inr y)
    then obtain w1 l1 where m: "m (w, l) = (Inr y, (w1, l1))" by (metis prod.collapse)
    then have f: "f y (w1, l1) = (Inl e, (w', l'))" using run by (simp add: prov_bind_def)
    have "R y l1" by (rule log_runsD(1) [OF assms(1) P m])
    then show ?thesis by (rule log_runsD(2) [OF assms(2)]) (rule f)
  qed
qed

lemma log_return: "(\<And>l. P l \<Longrightarrow> Q x l) \<Longrightarrow> log_runs P (prov_return x) Q E"
  by (simp add: log_runs_def prov_return_def)

lemma log_throw: "(\<And>l. P l \<Longrightarrow> E l) \<Longrightarrow> log_runs P (prov_throw e) Q E"
  by (simp add: log_runs_def prov_throw_def)

lemma log_fail: "(\<And>l. P l \<Longrightarrow> E l) \<Longrightarrow> log_runs P (prov_fail msg) Q E"
  by (simp add: log_runs_def prov_fail_def)

lemma log_advance: "log_runs P (advance_step (log_report rep) n) (\<lambda>_. P) E"
  by (simp add: log_runs_def advance_step_def log_report_def)

lemma log_call:
  assumes "\<And>l a. P l \<Longrightarrow> Q a (l @ [(command, Inr a)])" and "\<And>l e. P l \<Longrightarrow> E (l @ [(command, Inl e)])"
  shows "log_runs P (prov_call (tp_exec (logged transport) command timeoutMs stdin)) Q E"
  using assms by (auto simp: log_runs_def prov_call_def logged_def split: prod.splits sum.splits)

lemma log_step:
  assumes "\<And>l a. P l \<Longrightarrow> er_exitCode a = 0 \<Longrightarrow> Q (trim (er_stdout a)) (l @ [(command, Inr a)])"
    and "\<And>l r. P l \<Longrightarrow> E (l @ [(command, r)])"
  shows "log_runs P (run_step (logged transport) command failure timeoutMs stdin) Q E"
  unfolding run_step_def
  by (rule log_bind [where R = "\<lambda>a l. \<exists>l0. P l0 \<and> l = l0 @ [(command, Inr a)]"])
     (auto intro!: log_call log_fail log_return simp: assms)

lemma log_finally:
  assumes "log_runs P m R F" and "\<And>x l w. R x l \<Longrightarrow> Q x (snd (g (w, l)))" and "\<And>l w. F l \<Longrightarrow> E (snd (g (w, l)))"
  shows "log_runs P (prov_finally m g) Q E"
proof (rule log_runsI)
  fix w l x w' l'
  assume P: "P l" and run: "prov_finally m g (w, l) = (Inr x, (w', l'))"
  then obtain w1 l1 where m: "m (w, l) = (Inr x, (w1, l1))" and g: "g (w1, l1) = (w', l')"
    by (auto simp: prov_finally_def split: prod.splits)
  show "Q x l'" using assms(2) [OF log_runsD(1) [OF assms(1) P m], of w1] g by simp
next
  fix w l e w' l'
  assume P: "P l" and run: "prov_finally m g (w, l) = (Inl e, (w', l'))"
  then obtain w1 l1 where m: "m (w, l) = (Inl e, (w1, l1))" and g: "g (w1, l1) = (w', l')"
    by (auto simp: prov_finally_def split: prod.splits)
  show "E l'" using assms(3) [OF log_runsD(2) [OF assms(1) P m], of w1] g by simp
qed

subsection \<open>The order of what was run\<close>

definition ordered_by :: "(host_log \<Rightarrow> string \<Rightarrow> bool) \<Rightarrow> host_log \<Rightarrow> bool" where
  "ordered_by ok l \<longleftrightarrow> (\<forall>l1 c x l2. l = l1 @ (c, x) # l2 \<longrightarrow> ok l1 c)"

lemma ordered_by_Nil [simp]: "ordered_by ok []"
  by (simp add: ordered_by_def)

lemma ordered_by_snoc [simp]: "ordered_by ok (l @ [(c, x)]) \<longleftrightarrow> ordered_by ok l \<and> ok l c"
proof
  assume all: "ordered_by ok (l @ [(c, x)])"
  then have "ok l c" unfolding ordered_by_def by blast
  moreover have "ordered_by ok l" using all unfolding ordered_by_def by (metis append.assoc append_Cons)
  ultimately show "ordered_by ok l \<and> ok l c" by simp
next
  assume ok: "ordered_by ok l \<and> ok l c"
  show "ordered_by ok (l @ [(c, x)])"
    unfolding ordered_by_def
  proof (intro allI impI)
    fix l1 c' x' l2
    assume eq: "l @ [(c, x)] = l1 @ (c', x') # l2"
    show "ok l1 c'"
    proof (cases l2 rule: rev_cases)
      case Nil
      then show ?thesis using eq ok by simp
    next
      case (snoc l3 e)
      then have "l = l1 @ (c', x') # l3" using eq by simp
      then show ?thesis using ok unfolding ordered_by_def by blast
    qed
  qed
qed

definition pinned_sha256 :: "mcc_architecture \<Rightarrow> string" where
  "pinned_sha256 a = the (sha256_by_architecture (Build a))"

definition installs_client :: "string \<Rightarrow> bool" where
  "installs_client c = starts_with c ''install -D''"

definition writes_unit :: "string \<Rightarrow> bool" where
  "writes_unit c \<longleftrightarrow> starts_with c ''cat > '' \<or> starts_with c ''mkdir -p ''"

definition downloads_client :: "string \<Rightarrow> bool" where
  "downloads_client c = starts_with c ''dir=$(mktemp -d)''"

definition client_verified :: "host_log \<Rightarrow> string \<Rightarrow> bool" where
  "client_verified l c \<longleftrightarrow>
     (\<exists>a dir. c = install_client_command dir \<and>
        log_answered l (verify_command (pinned_sha256 a) dir) (\<lambda>r. er_exitCode r = 0))"

definition image_verified :: "host_log \<Rightarrow> bool" where
  "image_verified l \<longleftrightarrow>
     (\<exists>a img. runtime_image_for (Build a) = Some img \<and>
        log_answered l (image_id_command img) (\<lambda>r. er_exitCode r = 0 \<and> trim (er_stdout r) = podman_image_id img) \<and>
        log_answered l (client_check_command img) (\<lambda>r. has_sub (er_stdout r @ [lf] @ er_stderr r) client_banner))"

definition in_order :: "host_log \<Rightarrow> string \<Rightarrow> bool" where
  "in_order l c \<longleftrightarrow> (installs_client c \<longrightarrow> client_verified l c) \<and> (writes_unit c \<longrightarrow> image_verified l)"

definition plain_command :: "string \<Rightarrow> bool" where
  "plain_command c \<longleftrightarrow> \<not> installs_client c \<and> \<not> writes_unit c \<and> \<not> downloads_client c"

lemmas command_kinds = plain_command_def installs_client_def writes_unit_def downloads_client_def

lemma plain_commands [simp]:
  "plain_command system_command" "plain_command linger_query" "plain_command ''id -un''"
  "plain_command host_facts_command" "plain_command storage_step_command" "plain_command make_directories_command"
  "plain_command ''uname -m''" "plain_command (verify_command sha dir)" "plain_command (remove_download_command dir)"
  "plain_command (image_pull_command img)" "plain_command (image_id_command img)"
  "plain_command (client_check_command img)" "plain_command (systemctl arguments)"
  by (simp_all add: command_kinds system_command_def linger_query_def host_facts_command_def fact_command_def
      storage_step_command_def make_directories_command_def verify_command_def remove_download_command_def
      image_pull_command_def image_id_command_def client_check_command_def systemctl_def runtime_dir_prefix_def
      quote_char_def)

lemma other_commands [simp]:
  "\<not> installs_client (client_download_command url)" "\<not> writes_unit (client_download_command url)"
  "downloads_client (client_download_command url)"
  "installs_client (install_client_command dir)" "\<not> writes_unit (install_client_command dir)"
  "\<not> downloads_client (install_client_command dir)"
  "\<not> installs_client (install_unit_command name)" "\<not> downloads_client (install_unit_command name)"
  "writes_unit (install_unit_command name)"
  "\<not> installs_client install_first_unit_command" "\<not> downloads_client install_first_unit_command"
  "writes_unit install_first_unit_command"
  by (simp_all add: command_kinds client_download_command_def install_client_command_def install_unit_command_def
      install_first_unit_command_def)

lemma plain_in_order [simp]: "plain_command c \<Longrightarrow> in_order l c"
  by (simp add: in_order_def plain_command_def)

text \<open>Every download that succeeded was followed by an attempt to remove its directory.\<close>

definition cleaned_but :: "string option \<Rightarrow> host_log \<Rightarrow> bool" where
  "cleaned_but pending l \<longleftrightarrow>
     (\<forall>c a. (c, Inr a) \<in> set l \<longrightarrow> downloads_client c \<longrightarrow> er_exitCode a = 0 \<longrightarrow>
        Some (trim (er_stdout a)) = pending \<or> (\<exists>x. (remove_download_command (trim (er_stdout a)), x) \<in> set l))"

definition orderly :: "string option \<Rightarrow> host_log \<Rightarrow> bool" where
  "orderly pending l \<longleftrightarrow> ordered_by in_order l \<and> cleaned_but pending l"

lemma orderly_Nil [simp]: "orderly pending []"
  by (simp add: orderly_def cleaned_but_def)

lemma orderly_snoc:
  assumes "orderly pending l" and "in_order l c" and "\<not> downloads_client c"
  shows "orderly pending (l @ [(c, x)])"
  using assms unfolding orderly_def cleaned_but_def by fastforce

lemma orderly_plain [intro]: "orderly pending l \<Longrightarrow> plain_command c \<Longrightarrow> orderly pending (l @ [(c, x)])"
  by (rule orderly_snoc) (simp_all add: plain_command_def in_order_def)

lemma orderly_download:
  assumes "orderly None l"
  shows "orderly (if er_exitCode a = 0 then Some (trim (er_stdout a)) else None) (l @ [(client_download_command url, Inr a)])"
    and "orderly None (l @ [(client_download_command url, Inl e)])"
  using assms unfolding orderly_def cleaned_but_def in_order_def by fastforce+

lemma orderly_removed:
  assumes "orderly (Some dir) l"
  shows "orderly None (l @ [(remove_download_command dir, x)])"
proof -
  have "ordered_by in_order (l @ [(remove_download_command dir, x)])" using assms by (simp add: orderly_def)
  moreover have "cleaned_but None (l @ [(remove_download_command dir, x)])"
    using assms plain_commands(9) [of dir] unfolding orderly_def cleaned_but_def plain_command_def by fastforce
  ultimately show ?thesis by (simp add: orderly_def)
qed

lemma log_call_plain:
  assumes "plain_command c" and "\<And>l e. F l \<Longrightarrow> F (l @ [e])"
  shows "log_runs (\<lambda>l. orderly d l \<and> F l) (prov_call (tp_exec (logged transport) c t i))
           (\<lambda>a l. orderly d l \<and> F l \<and> log_answered l c (\<lambda>r. r = a)) (orderly d)"
  by (rule log_call) (auto simp: assms log_answered_def)

lemma log_step_plain:
  assumes "plain_command c" and "\<And>l e. F l \<Longrightarrow> F (l @ [e])"
  shows "log_runs (\<lambda>l. orderly d l \<and> F l) (run_step (logged transport) c failure t i)
           (\<lambda>s l. orderly d l \<and> F l \<and> log_answered l c (\<lambda>r. er_exitCode r = 0 \<and> trim (er_stdout r) = s)) (orderly d)"
  by (rule log_step) (auto simp: assms log_answered_def)

lemma log_call_orderly:
  "plain_command c \<Longrightarrow> log_runs (orderly d) (prov_call (tp_exec (logged transport) c t i)) (\<lambda>_. orderly d) (orderly d)"
  by (rule log_call) auto

lemma log_step_orderly:
  "plain_command c \<Longrightarrow> log_runs (orderly d) (run_step (logged transport) c failure t i) (\<lambda>_. orderly d) (orderly d)"
  by (rule log_step) auto

lemmas log_bind_orderly = log_bind [where R = "\<lambda>_. orderly d" and E = "orderly d" for d]

lemma log_system_orderly: "log_runs (orderly d) (read_system (logged transport)) (\<lambda>_. orderly d) (orderly d)"
  unfolding read_system_def
  by (rule log_bind_orderly [OF log_call_orderly])
     (auto intro!: log_fail log_return simp: Let_def split: option.splits)

lemma log_io_catch:
  assumes "plain_command c"
  shows "log_runs (orderly d)
     (prov_call (io_catch (io_bind (tp_exec (logged transport) c t i) (\<lambda>u. io_return (f u))) (\<lambda>_. io_return g)))
     (\<lambda>_. orderly d) (orderly d)"
  using assms
  by (auto simp: log_runs_def prov_call_def logged_def io_simps split: prod.splits sum.splits)

lemma log_linger_orderly: "log_runs (orderly d) (assert_linger_enabled (logged transport)) (\<lambda>_. orderly d) (orderly d)"
  unfolding assert_linger_enabled_def
  by (rule log_bind_orderly [OF log_call_orderly])
     (auto intro!: log_fail log_return log_bind_orderly [OF log_io_catch])

lemma log_checks_orderly:
  "log_runs (orderly d) (provision_checks (logged transport) (log_report rep)) (\<lambda>_. orderly d) (orderly d)"
proof -
  have stack: "log_runs (orderly d)
      (case network_stack_for facts of Inl m \<Rightarrow> prov_fail m | Inr stack \<Rightarrow> prov_return stack) (\<lambda>_. orderly d) (orderly d)"
    for facts :: podman_facts
    by (cases "network_stack_for facts") (auto intro: log_fail log_return)
  show ?thesis
    unfolding provision_checks_def
    by (intro log_bind_orderly log_advance log_system_orderly log_linger_orderly log_step_orderly log_call_orderly
        stack plain_commands) (auto intro: log_throw log_return)
qed

definition genuine :: "mcc_release \<Rightarrow> bool" where
  "genuine release \<longleftrightarrow> (\<forall>sha. mr_sha256 release = Some sha \<longrightarrow>
     (\<exists>a. mr_architecture release = Build a \<and> sha = pinned_sha256 a))"

lemma sha256_pinned: "sha256_by_architecture b = Some sha \<Longrightarrow> \<exists>a. b = Build a \<and> sha = pinned_sha256 a"
  by (cases b rule: sha256_by_architecture.cases) (auto simp: pinned_sha256_def)

lemma release_genuine: "mcc_release_for_machine machine = Inr release \<Longrightarrow> genuine release"
  by (auto simp: mcc_release_for_machine_def genuine_def rbind_Inr dest: sha256_pinned)

lemma log_release:
  "log_runs (orderly d) (prov_sum (mcc_release_for_machine machine)) (\<lambda>r l. orderly d l \<and> genuine r) (orderly d)"
  by (auto simp: prov_sum_def split: sum.splits intro!: log_throw log_return release_genuine)

lemma log_present:
  "log_runs P (present_or prop v) (\<lambda>x l. P l \<and> v = Some x) P"
  by (cases v) (auto simp: present_or_def intro: log_throw log_return)

lemma install_in_order:
  "log_answered l (verify_command (pinned_sha256 a) dir) (\<lambda>r. er_exitCode r = 0) \<Longrightarrow> in_order l (install_client_command dir)"
  unfolding in_order_def client_verified_def by (metis other_commands(5))

lemma log_install_client:
  "log_runs (\<lambda>l. orderly d l \<and> log_answered l (verify_command (pinned_sha256 a) dir) (\<lambda>r. er_exitCode r = 0))
     (run_step (logged transport) (install_client_command dir) failure t i) (\<lambda>_. orderly d) (orderly d)"
  by (rule log_step) (auto intro: orderly_snoc install_in_order)

lemma log_verify_install:
  assumes "genuine release"
  shows "log_runs (orderly (Some dir))
     (prov_bind (advance_step (log_report rep) 7) (\<lambda>_.
      prov_bind (present_or prop (mr_sha256 release)) (\<lambda>sha256.
      prov_bind (run_step (logged transport) (verify_command sha256 dir) f1 t1 i1) (\<lambda>_.
      prov_bind (advance_step (log_report rep) 8) (\<lambda>_.
      run_step (logged transport) (install_client_command dir) f2 t2 i2)))))
     (\<lambda>_. orderly (Some dir)) (orderly (Some dir))"
proof (rule log_bind [OF log_advance], rule log_bind [OF log_present])
  fix sha256
  show "log_runs (\<lambda>l. orderly (Some dir) l \<and> mr_sha256 release = Some sha256)
     (prov_bind (run_step (logged transport) (verify_command sha256 dir) f1 t1 i1) (\<lambda>_.
      prov_bind (advance_step (log_report rep) 8) (\<lambda>_.
      run_step (logged transport) (install_client_command dir) f2 t2 i2)))
     (\<lambda>_. orderly (Some dir)) (orderly (Some dir))"
  proof (cases "mr_sha256 release = Some sha256")
    case True
    then obtain a where a: "sha256 = pinned_sha256 a" using assms by (auto simp: genuine_def)
    have plain: "plain_command (verify_command sha256 dir)" by (rule plain_commands)
    have verified: "log_runs (\<lambda>l. orderly (Some dir) l \<and> mr_sha256 release = Some sha256)
        (run_step (logged transport) (verify_command sha256 dir) f1 t1 i1)
        (\<lambda>_ l. orderly (Some dir) l \<and> log_answered l (verify_command (pinned_sha256 a) dir) (\<lambda>r. er_exitCode r = 0))
        (orderly (Some dir))"
      by (rule log_weaken [OF log_step_plain [OF plain, where F = "\<lambda>_. True"]]) (auto simp: a log_answered_def)
    show ?thesis by (intro log_bind [OF verified] log_bind [OF log_advance] log_install_client)
  next
    case False
    then show ?thesis by (simp add: log_runs_def)
  qed
qed

lemma remove_download_logged:
  "snd (remove_download (logged transport) dir (w, l)) =
     l @ [(remove_download_command dir, fst (tp_exec transport (remove_download_command dir) provision_step_timeout_ms None w))]"
  by (simp add: remove_download_def logged_def split: prod.splits)

lemma log_removing:
  assumes "log_runs (orderly (Some dir)) m (\<lambda>_. orderly (Some dir)) (orderly (Some dir))"
  shows "log_runs (orderly (Some dir)) (prov_finally m (remove_download (logged transport) dir)) (\<lambda>_. orderly None) (orderly None)"
  by (rule log_finally [OF assms]) (simp_all add: remove_download_logged orderly_removed)

lemma log_download:
  "log_runs (orderly None) (prov_call (tp_exec (logged transport) (client_download_command url) t i))
     (\<lambda>a. orderly (if er_exitCode a = 0 then Some (trim (er_stdout a)) else None)) (orderly None)"
  by (rule log_call) (simp_all only: orderly_download)

lemma log_fetch_client:
  assumes "genuine release"
  shows "log_runs (orderly None) (fetch_client (logged transport) (log_report rep) release) (\<lambda>_. orderly None) (orderly None)"
  unfolding fetch_client_def
  by (rule log_bind [OF log_advance], rule log_bind [OF log_download])
     (auto simp: Let_def intro!: log_throw log_return log_bind [OF log_removing [OF log_verify_install [OF assms]]])

lemma log_assume: "(A \<Longrightarrow> log_runs P m Q E) \<Longrightarrow> log_runs (\<lambda>l. P l \<and> A) m Q E"
  by (cases A) (simp_all add: log_runs_def)

lemma log_client_orderly:
  "log_runs (orderly None) (provision_client (logged transport) (log_report rep))
     (\<lambda>r l. orderly None l \<and> genuine r) (orderly None)"
  unfolding provision_client_def
  by (rule log_bind [OF log_advance], rule log_bind_orderly [OF log_step_orderly], rule plain_commands,
      rule log_bind [OF log_advance], rule log_bind_orderly [OF log_step_orderly], rule plain_commands,
      rule log_bind [OF log_release], rule log_assume, rule log_bind [OF log_fetch_client])
     (auto intro: log_return)

lemma render_ok: "runtime_image_for b = Some img \<Longrightarrow> podman_image_id_ok (podman_image_id img)"
  by (cases b rule: runtime_image_for.cases)
     (auto simp: podman_image_id_def podman_image_id_ok_def is_lower_hex_def is_digit_def)

lemma image_built: "runtime_image_for b = Some img \<Longrightarrow> \<exists>a. b = Build a"
  by (cases b) auto

lemma image_verified_grows: "image_verified l \<Longrightarrow> image_verified (l @ es)"
  by (auto simp: image_verified_def dest: answered_grows)

lemma unit_in_order: "\<not> installs_client c \<Longrightarrow> image_verified l \<Longrightarrow> in_order l c"
  by (simp add: in_order_def)

lemma log_write_unit:
  assumes "\<not> installs_client c" and "\<not> downloads_client c"
  shows "log_runs (\<lambda>l. orderly d l \<and> image_verified l) (run_step (logged transport) c failure t i)
     (\<lambda>_ l. orderly d l \<and> image_verified l) (orderly d)"
  by (rule log_step) (auto intro: orderly_snoc [OF _ unit_in_order [OF assms(1)] assms(2)] image_verified_grows)

lemma log_install_units:
  "log_runs (\<lambda>l. orderly d l \<and> image_verified l) (install_units (logged transport) templates names)
     (\<lambda>_ l. orderly d l \<and> image_verified l) (orderly d)"
  by (induction names) (auto intro!: log_return log_bind [OF log_write_unit] simp: )

lemma log_image:
  assumes img: "runtime_image_for (Build a) = Some img"
  shows "log_runs (orderly d) (fetch_image (logged transport) (log_report rep) img)
     (\<lambda>_ l. orderly d l \<and> image_verified l) (orderly d)"
proof -
  let ?pulled = "\<lambda>l. log_answered l (image_id_command img) (\<lambda>r. er_exitCode r = 0 \<and> trim (er_stdout r) = podman_image_id img)"
  have id: "log_runs (orderly d) (run_step (logged transport) (image_id_command img) f t i)
      (\<lambda>s l. orderly d l \<and> log_answered l (image_id_command img) (\<lambda>r. er_exitCode r = 0 \<and> trim (er_stdout r) = s)) (orderly d)"
    for f t i
    by (rule log_weaken [OF log_step_plain [where F = "\<lambda>_. True"]]) auto
  have probe: "log_runs (\<lambda>l. orderly d l \<and> ?pulled l)
      (prov_call (tp_exec (logged transport) (client_check_command img) t i))
      (\<lambda>p l. (orderly d l \<and> ?pulled l) \<and> log_answered l (client_check_command img) (\<lambda>r. r = p)) (orderly d)" for t i
    by (rule log_weaken [OF log_call_plain [where F = ?pulled]]) (auto intro: answered_grows)
  show ?thesis
    unfolding fetch_image_def
  proof (rule log_bind_orderly [OF log_step_orderly], rule plain_commands, rule log_bind [OF log_advance],
      rule log_bind [OF id])
    fix pulled
    show "log_runs (\<lambda>l. orderly d l \<and> log_answered l (image_id_command img)
              (\<lambda>r. er_exitCode r = 0 \<and> trim (er_stdout r) = pulled))
      (if pulled \<noteq> podman_image_id img then
         prov_fail (''The runtime image is '' @ value_or unknown_host_fact (host_fact pulled) @ '', not ''
                    @ podman_image_id img)
       else prov_bind (advance_step (log_report rep) 11) (\<lambda>_.
         prov_bind (prov_call (tp_exec (logged transport) (client_check_command img) client_probe_timeout_ms None))
           (\<lambda>probe. let probeOutput = er_stdout probe @ [lf] @ er_stderr probe in
              if \<not> has_sub probeOutput client_banner then prov_fail (explain_client_failure probeOutput)
              else prov_return ())))
      (\<lambda>_ l. orderly d l \<and> image_verified l) (orderly d)"
    proof (cases "pulled = podman_image_id img")
      case True
      show ?thesis
        unfolding True if_not_P [OF not_not [THEN iffD2, OF refl]]
        by (rule log_bind [OF log_advance], rule log_bind [OF probe])
           (auto simp: Let_def image_verified_def log_answered_def intro!: log_fail log_return exI [of _ a] img)
    qed (auto intro: log_fail)
  qed
qed

lemma log_templates:
  "log_runs (\<lambda>l. orderly d l \<and> image_verified l) (prov_sum (render_unit_templates stack imageId))
     (\<lambda>_ l. orderly d l \<and> image_verified l) (orderly d)"
  by (auto simp: prov_sum_def split: sum.splits intro!: log_throw log_return)

lemma log_services_orderly:
  "log_runs (orderly d) (provision_services (logged transport) (log_report rep) stack release) (\<lambda>_. orderly d) (orderly d)"
  unfolding provision_services_def
proof (rule log_bind [OF log_advance], rule log_bind [OF log_present], rule log_assume)
  fix img
  assume found: "runtime_image_for (mr_architecture release) = Some img"
  then obtain a where img: "runtime_image_for (Build a) = Some img" using image_built by metis
  have reload: "log_runs (\<lambda>l. orderly d l \<and> image_verified l)
      (run_step (logged transport) (systemctl ''daemon-reload'') f t i) (\<lambda>_. orderly d) (orderly d)" for f t i
    by (rule log_weaken [OF log_step_orderly]) auto
  show "log_runs (orderly d)
     (prov_bind (fetch_image (logged transport) (log_report rep) img) (\<lambda>_.
      prov_bind (prov_sum (render_unit_templates stack (podman_image_id img))) (\<lambda>templates.
      prov_bind (advance_step (log_report rep) 12) (\<lambda>_.
      prov_bind (run_step (logged transport) install_first_unit_command ''Failed to install the instance unit template''
        provision_step_timeout_ms (map_of templates instance_unit_name)) (\<lambda>_.
      prov_bind (advance_step (log_report rep) 13) (\<lambda>_.
      prov_bind (install_units (logged transport) templates supporting_unit_names) (\<lambda>_.
      prov_bind (advance_step (log_report rep) 14) (\<lambda>_.
      prov_bind (run_step (logged transport) (systemctl ''daemon-reload'') ''Failed to reload systemd''
        provision_step_timeout_ms None) (\<lambda>_.
      prov_return ()))))))))) (\<lambda>_. orderly d) (orderly d)"
    by (intro log_bind [OF log_image [OF img]] log_bind [OF log_templates] log_bind [OF log_advance]
        log_bind [OF log_write_unit] log_bind [OF log_install_units] log_bind [OF reload] log_return other_commands)
qed

lemma log_host_orderly:
  "log_runs (orderly None) (provision_host (logged transport) (log_report rep)) (\<lambda>_. orderly None) (orderly None)"
  unfolding provision_host_def
proof (rule log_bind_orderly [OF log_checks_orderly], unfold case_prod_beta, rule log_bind [OF log_client_orderly])
  fix x release
  show "log_runs (\<lambda>l. orderly None l \<and> genuine release)
     (prov_bind (provision_services (logged transport) (log_report rep) (snd x) release) (\<lambda>_.
      prov_return \<lparr>pr_osRelease = fst (fst x), pr_osId = fst (snd (fst x)), pr_osName = snd (snd (fst x)),
                   pr_networkStack = snd x, pr_architecture = mr_architecture release\<rparr>))
     (\<lambda>_. orderly None) (orderly None)"
    by (rule log_assume) (intro log_bind [OF log_services_orderly] log_return)
qed

subsection \<open>What a provisioned host answered\<close>

text \<open>A property of the log that lasts as it grows.\<close>

definition lasting :: "(host_log \<Rightarrow> bool) \<Rightarrow> bool" where
  "lasting F \<longleftrightarrow> (\<forall>l es. F l \<longrightarrow> F (l @ es))"

lemma lasting_rules [intro]:
  "lasting (\<lambda>l. A)" "lasting (\<lambda>l. log_answered l c ok)"
  "lasting F \<Longrightarrow> lasting G \<Longrightarrow> lasting (\<lambda>l. F l \<and> G l)"
  by (auto simp: lasting_def intro: answered_grows)

lemma lasting_image [intro]: "lasting image_verified"
  by (auto simp: lasting_def intro: image_verified_grows)

lemma log_call_acc:
  "lasting F \<Longrightarrow> log_runs F (prov_call (tp_exec (logged transport) c t i))
     (\<lambda>a l. F l \<and> log_answered l c (\<lambda>r. r = a)) (\<lambda>_. True)"
  by (rule log_call) (auto simp: lasting_def log_answered_def)

lemma log_step_acc:
  "lasting F \<Longrightarrow> log_runs F (run_step (logged transport) c failure t i)
     (\<lambda>s l. F l \<and> log_answered l c (\<lambda>r. er_exitCode r = 0 \<and> trim (er_stdout r) = s)) (\<lambda>_. True)"
  by (rule log_step) (auto simp: lasting_def log_answered_def)

lemma log_weaken_post:
  assumes "log_runs P m R E" and "\<And>x l. R x l \<Longrightarrow> Q x l"
  shows "log_runs P m Q E"
  by (rule log_weaken [OF assms(1)]) (auto intro: assms(2))

lemma log_present_acc:
  "log_runs P (present_or prop v) (\<lambda>x l. P l \<and> v = Some x) (\<lambda>_. True)"
  by (cases v) (auto simp: present_or_def intro: log_throw log_return)

lemma log_finally_acc:
  assumes "log_runs F m Q (\<lambda>_. True)" and "\<And>x. lasting (Q x)"
  shows "log_runs F (prov_finally m (remove_download (logged transport) dir)) Q (\<lambda>_. True)"
  by (rule log_finally [OF assms(1)])
     (use assms(2) in \<open>auto simp: remove_download_logged lasting_def\<close>)

definition system_checked :: "string \<times> string option \<times> string option \<Rightarrow> exec_result \<Rightarrow> bool" where
  "system_checked system r \<longleftrightarrow>
     er_exitCode r = 0 \<and> (\<exists>u. sy_uid (parse_system (er_stdout r)) = Some u \<and> u \<noteq> 0) \<and>
     sy_systemd (parse_system (er_stdout r)) = Some (fst system) \<and>
     is_usable_home (sy_home (parse_system (er_stdout r))) (sy_passwdHome (parse_system (er_stdout r)))"

lemma log_system_acc:
  assumes "lasting F"
  shows "log_runs F (read_system (logged transport))
     (\<lambda>system l. F l \<and> log_answered l system_command (system_checked system)) (\<lambda>_. True)"
  unfolding read_system_def
  by (rule log_bind [OF log_call_acc [OF assms]])
     (auto simp: Let_def log_answered_def system_checked_def split: option.splits intro!: log_fail log_return)

lemma log_linger_acc:
  assumes "lasting F"
  shows "log_runs F (assert_linger_enabled (logged transport))
     (\<lambda>_ l. F l \<and> log_answered l linger_query (\<lambda>r. trim (er_stdout r) = ''yes'')) (\<lambda>_. True)"
proof -
  have none: "log_runs P (prov_bind m (\<lambda>u. prov_fail (f u))) Q (\<lambda>_. True)" for P Q m and f :: "string \<Rightarrow> string"
    by (auto simp: log_runs_def prov_bind_def prov_fail_def split: prod.splits sum.splits)
  show ?thesis
    unfolding assert_linger_enabled_def
    by (rule log_bind [OF log_call_acc [OF assms]])
       (auto simp: log_answered_def intro!: none log_return)
qed

text \<open>What the checks of a provisioning that goes on have been answered.\<close>

definition checks_passed :: "(string \<times> string option \<times> string option) \<times> network_stack \<Rightarrow> host_log \<Rightarrow> bool" where
  "checks_passed x l \<longleftrightarrow>
     log_answered l system_command (system_checked (fst x)) \<and>
     log_answered l linger_query (\<lambda>r. trim (er_stdout r) = ''yes'') \<and>
     log_answered l host_facts_command (\<lambda>r. er_exitCode r = 0 \<and>
       network_stack_for (parse_host_facts (trim (er_stdout r))) = Inr (snd x)) \<and>
     log_answered l storage_step_command (\<lambda>r. er_exitCode r = 0 \<and> trim (er_stdout r) = ''ready'')"

lemma lasting_checks [intro]: "lasting (checks_passed x)"
  unfolding checks_passed_def by (intro lasting_rules)

lemma log_stack_acc:
  "log_runs P (case network_stack_for facts of Inl m \<Rightarrow> prov_fail m | Inr stack \<Rightarrow> prov_return stack)
     (\<lambda>stack l. P l \<and> network_stack_for facts = Inr stack) (\<lambda>_. True)"
  by (cases "network_stack_for facts") (auto intro: log_fail log_return)

lemma log_checks_acc:
  "log_runs (\<lambda>_. True) (provision_checks (logged transport) (log_report rep)) checks_passed (\<lambda>_. True)"
proof -
  have "log_runs (\<lambda>_. True) (provision_checks (logged transport) (log_report rep))
     (\<lambda>x l. (((((True \<and> log_answered l system_command (system_checked (fst x)))
        \<and> log_answered l linger_query (\<lambda>r. trim (er_stdout r) = ''yes''))
        \<and> (\<exists>s. log_answered l host_facts_command (\<lambda>r. er_exitCode r = 0 \<and> trim (er_stdout r) = s)
             \<and> network_stack_for (parse_host_facts s) = Inr (snd x)))
        \<and> log_answered l storage_step_command (\<lambda>r. er_exitCode r = 0 \<and> trim (er_stdout r) = ''ready'')))) (\<lambda>_. True)"
    unfolding provision_checks_def
    by (rule log_bind [OF log_advance], rule log_bind [OF log_system_acc], (intro lasting_rules),
        rule log_bind [OF log_advance], rule log_bind [OF log_linger_acc], (intro lasting_rules),
        rule log_bind [OF log_advance], rule log_bind [OF log_step_acc], (intro lasting_rules),
        rule log_bind [OF log_stack_acc], rule log_bind [OF log_advance],
        rule log_bind [OF log_call_acc], (intro lasting_rules))
       (auto simp: log_answered_def intro!: log_throw log_return)
  then show ?thesis
    by (rule log_weaken) (auto simp: checks_passed_def log_answered_def)
qed

text \<open>What is installed on it.\<close>

definition client_installed :: "mcc_release \<Rightarrow> host_log \<Rightarrow> bool" where
  "client_installed release l \<longleftrightarrow>
     (\<exists>a dir. mr_architecture release = Build a \<and>
        log_answered l (verify_command (pinned_sha256 a) dir) (\<lambda>r. er_exitCode r = 0) \<and>
        log_answered l (install_client_command dir) (\<lambda>r. er_exitCode r = 0))"

lemma lasting_client: "lasting (client_installed release)"
  unfolding client_installed_def lasting_def by (metis answered_grows)

lemma log_install_acc:
  assumes "genuine release" and "lasting F"
  shows "log_runs F
     (prov_bind (advance_step (log_report rep) 7) (\<lambda>_.
      prov_bind (present_or prop (mr_sha256 release)) (\<lambda>sha256.
      prov_bind (run_step (logged transport) (verify_command sha256 dir) f1 t1 i1) (\<lambda>_.
      prov_bind (advance_step (log_report rep) 8) (\<lambda>_.
      run_step (logged transport) (install_client_command dir) f2 t2 i2)))))
     (\<lambda>_ l. F l \<and> client_installed release l) (\<lambda>_. True)"
proof -
  have "log_runs F
     (prov_bind (advance_step (log_report rep) 7) (\<lambda>_.
      prov_bind (present_or prop (mr_sha256 release)) (\<lambda>sha256.
      prov_bind (run_step (logged transport) (verify_command sha256 dir) f1 t1 i1) (\<lambda>_.
      prov_bind (advance_step (log_report rep) 8) (\<lambda>_.
      run_step (logged transport) (install_client_command dir) f2 t2 i2)))))
     (\<lambda>_ l. F l \<and> (\<exists>sha. mr_sha256 release = Some sha \<and>
        log_answered l (verify_command sha dir) (\<lambda>r. er_exitCode r = 0) \<and>
        log_answered l (install_client_command dir) (\<lambda>r. er_exitCode r = 0))) (\<lambda>_. True)"
    by (rule log_bind [OF log_advance], rule log_bind [OF log_present_acc], rule log_bind [OF log_step_acc],
        (intro lasting_rules assms(2)), rule log_bind [OF log_advance],
        rule log_weaken_post [OF log_step_acc], (intro lasting_rules assms(2)))
       (auto simp: log_answered_def)
  then show ?thesis
    by (rule log_weaken_post) (use assms(1) in \<open>unfold client_installed_def genuine_def, blast\<close>)
qed

lemma log_client_acc:
  assumes F: "lasting F"
  shows "log_runs F (provision_client (logged transport) (log_report rep))
     (\<lambda>release l. F l \<and> client_installed release l) (\<lambda>_. True)"
proof -
  have fetch: "log_runs G (fetch_client (logged transport) (log_report rep) release)
      (\<lambda>_ l. G l \<and> client_installed release l) (\<lambda>_. True)" if ok: "genuine release" and G: "lasting G" for release G
    unfolding fetch_client_def
  proof (rule log_bind [OF log_advance], rule log_bind [OF log_call_acc [OF G]])
    fix r
    let ?P = "\<lambda>l. G l \<and> log_answered l (client_download_command (mr_url release)) (\<lambda>a. a = r)"
    have P: "lasting ?P" by (intro lasting_rules G)
    have Q: "lasting (\<lambda>l. ?P l \<and> client_installed release l)" by (intro lasting_rules G lasting_client)
    show "log_runs ?P
      (if er_exitCode r \<noteq> 0 then
         prov_throw (ProvisioningFailed
           (''Failed to download the Minecraft Console Client: '' @ trim (er_stderr r)) None
           (er_exitCode r = int curl_ran_out_of_time))
       else (let workDir = trim (er_stdout r) in
         prov_bind (prov_finally
           (prov_bind (advance_step (log_report rep) 7) (\<lambda>_.
            prov_bind (present_or ''replace'' (mr_sha256 release)) (\<lambda>sha256.
            prov_bind (run_step (logged transport) (verify_command sha256 workDir)
              ''The downloaded client did not match its expected checksum'' provision_step_timeout_ms None) (\<lambda>_.
            prov_bind (advance_step (log_report rep) 8) (\<lambda>_.
            run_step (logged transport) (install_client_command workDir) ''Failed to install the client''
              provision_step_timeout_ms None)))))
           (remove_download (logged transport) workDir)) (\<lambda>_.
         prov_return ())))
      (\<lambda>_ l. G l \<and> client_installed release l) (\<lambda>_. True)"
    proof (cases "er_exitCode r = 0")
      case True
      show ?thesis
        unfolding Let_def if_not_P [OF not_not [THEN iffD2, OF True]]
        by (rule log_bind [OF log_finally_acc [OF log_install_acc [OF ok P] Q]], rule log_return) simp
    qed (simp add: log_throw)
  qed
  have release: "log_runs P (prov_sum (mcc_release_for_machine machine)) (\<lambda>r l. P l \<and> genuine r) (\<lambda>_. True)" for P machine
    by (auto simp: prov_sum_def split: sum.splits intro!: log_throw log_return release_genuine)
  show ?thesis
    unfolding provision_client_def
    by (rule log_bind [OF log_advance], rule log_bind [OF log_step_acc [OF F]], rule log_bind [OF log_advance],
        rule log_bind [OF log_step_acc], (intro lasting_rules F), rule log_bind [OF release], rule log_assume,
        rule log_bind [OF fetch], assumption, (intro lasting_rules F))
       (auto intro: log_return)
qed

lemma log_units_acc:
  assumes "lasting F"
  shows "log_runs F (install_units (logged transport) templates names)
     (\<lambda>_ l. F l \<and> (\<forall>name \<in> set names. log_answered l (install_unit_command name) (\<lambda>r. er_exitCode r = 0))) (\<lambda>_. True)"
  using assms
proof (induction names arbitrary: F)
  case Nil
  then show ?case by (auto intro: log_return)
next
  case (Cons name names)
  have "lasting (\<lambda>l. F l \<and> log_answered l (install_unit_command name) (\<lambda>r. er_exitCode r = 0 \<and> trim (er_stdout r) = s))" for s
    by (intro lasting_rules Cons.prems)
  note IH = Cons.IH [OF this]
  show ?case
    unfolding install_units.simps
    by (rule log_bind [OF log_step_acc [OF Cons.prems]], rule log_weaken_post [OF IH]) (auto simp: log_answered_def)
qed

lemma log_image_acc:
  assumes img: "runtime_image_for (Build a) = Some img" and F: "lasting F"
  shows "log_runs F (fetch_image (logged transport) (log_report rep) img) (\<lambda>_ l. F l \<and> image_verified l) (\<lambda>_. True)"
proof -
  have "log_runs F (fetch_image (logged transport) (log_report rep) img)
     (\<lambda>_ l. F l \<and> (log_answered l (image_id_command img) (\<lambda>r. er_exitCode r = 0 \<and> trim (er_stdout r) = podman_image_id img)
        \<and> log_answered l (client_check_command img) (\<lambda>r. has_sub (er_stdout r @ [lf] @ er_stderr r) client_banner)))
     (\<lambda>_. True)"
    unfolding fetch_image_def
  proof (rule log_bind [OF log_step_acc [OF F]], rule log_bind [OF log_advance], rule log_bind [OF log_step_acc],
      (intro lasting_rules F))
    fix s pulled
    let ?P = "\<lambda>l. (F l \<and> log_answered l (image_pull_command img) (\<lambda>r. er_exitCode r = 0 \<and> trim (er_stdout r) = s))
        \<and> log_answered l (image_id_command img) (\<lambda>r. er_exitCode r = 0 \<and> trim (er_stdout r) = pulled)"
    show "log_runs ?P
      (if pulled \<noteq> podman_image_id img then
         prov_fail (''The runtime image is '' @ value_or unknown_host_fact (host_fact pulled) @ '', not ''
                    @ podman_image_id img)
       else prov_bind (advance_step (log_report rep) 11) (\<lambda>_.
         prov_bind (prov_call (tp_exec (logged transport) (client_check_command img) client_probe_timeout_ms None))
           (\<lambda>probe. let probeOutput = er_stdout probe @ [lf] @ er_stderr probe in
              if \<not> has_sub probeOutput client_banner then prov_fail (explain_client_failure probeOutput)
              else prov_return ())))
      (\<lambda>_ l. F l \<and> (log_answered l (image_id_command img) (\<lambda>r. er_exitCode r = 0 \<and> trim (er_stdout r) = podman_image_id img)
        \<and> log_answered l (client_check_command img) (\<lambda>r. has_sub (er_stdout r @ [lf] @ er_stderr r) client_banner)))
      (\<lambda>_. True)"
    proof (cases "pulled = podman_image_id img")
      case True
      have P: "lasting ?P" by (intro lasting_rules F)
      show ?thesis
        unfolding True if_not_P [OF not_not [THEN iffD2, OF refl]]
        by (rule log_bind [OF log_advance], rule log_bind [OF log_call_acc [OF P [unfolded True]]])
           (auto simp: Let_def log_answered_def intro!: log_fail log_return)
    qed (auto intro: log_fail)
  qed
  then show ?thesis
    by (rule log_weaken) (use img in \<open>auto simp: image_verified_def\<close>)
qed

definition services_installed :: "host_log \<Rightarrow> bool" where
  "services_installed l \<longleftrightarrow>
     image_verified l \<and> log_answered l install_first_unit_command (\<lambda>r. er_exitCode r = 0) \<and>
     (\<forall>name \<in> set supporting_unit_names. log_answered l (install_unit_command name) (\<lambda>r. er_exitCode r = 0)) \<and>
     log_answered l (systemctl ''daemon-reload'') (\<lambda>r. er_exitCode r = 0)"

lemma lasting_units:
  "lasting (\<lambda>l. \<forall>name \<in> set names. log_answered l (install_unit_command name) (\<lambda>r. er_exitCode r = 0))"
  by (auto simp: lasting_def intro: answered_grows)

lemma log_services_acc:
  assumes F: "lasting F"
  shows "log_runs F (provision_services (logged transport) (log_report rep) stack release)
     (\<lambda>_ l. F l \<and> services_installed l) (\<lambda>_. True)"
  unfolding provision_services_def
proof (rule log_bind [OF log_advance], rule log_bind [OF log_present_acc], rule log_assume)
  fix img
  assume "runtime_image_for (mr_architecture release) = Some img"
  then obtain a where img: "runtime_image_for (Build a) = Some img" using image_built by metis
  have templates: "log_runs P (prov_sum r) (\<lambda>_. P) (\<lambda>_. True)" for P and r :: "thrown + (string \<times> string) list"
    by (cases r) (auto simp: prov_sum_def intro: log_throw log_return)
  show "log_runs F
     (prov_bind (fetch_image (logged transport) (log_report rep) img) (\<lambda>_.
      prov_bind (prov_sum (render_unit_templates stack (podman_image_id img))) (\<lambda>templates.
      prov_bind (advance_step (log_report rep) 12) (\<lambda>_.
      prov_bind (run_step (logged transport) install_first_unit_command ''Failed to install the instance unit template''
        provision_step_timeout_ms (map_of templates instance_unit_name)) (\<lambda>_.
      prov_bind (advance_step (log_report rep) 13) (\<lambda>_.
      prov_bind (install_units (logged transport) templates supporting_unit_names) (\<lambda>_.
      prov_bind (advance_step (log_report rep) 14) (\<lambda>_.
      prov_bind (run_step (logged transport) (systemctl ''daemon-reload'') ''Failed to reload systemd''
        provision_step_timeout_ms None) (\<lambda>_.
      prov_return ()))))))))) (\<lambda>_ l. F l \<and> services_installed l) (\<lambda>_. True)"
    by (rule log_bind [OF log_image_acc [OF img F]], rule log_bind [OF templates], rule log_bind [OF log_advance],
        rule log_bind [OF log_step_acc], (intro lasting_rules F lasting_image), rule log_bind [OF log_advance],
        rule log_bind [OF log_units_acc], (intro lasting_rules F lasting_image), rule log_bind [OF log_advance],
        rule log_bind [OF log_step_acc], (intro lasting_rules F lasting_image lasting_units), rule log_return)
       (auto simp: services_installed_def log_answered_def)
qed

text \<open>The whole: a host is provisioned only when all of it was answered.\<close>

definition host_provisioned :: "provision_result \<Rightarrow> host_log \<Rightarrow> bool" where
  "host_provisioned result l \<longleftrightarrow>
     checks_passed ((pr_osRelease result, pr_osId result, pr_osName result), pr_networkStack result) l \<and>
     (\<exists>a dir. pr_architecture result = Build a \<and>
        log_answered l (verify_command (pinned_sha256 a) dir) (\<lambda>r. er_exitCode r = 0) \<and>
        log_answered l (install_client_command dir) (\<lambda>r. er_exitCode r = 0)) \<and>
     services_installed l"

lemma log_host_acc:
  "log_runs (\<lambda>_. True) (provision_host (logged transport) (log_report rep)) host_provisioned (\<lambda>_. True)"
  unfolding provision_host_def
proof (rule log_bind [OF log_checks_acc], unfold case_prod_beta, rule log_bind [OF log_client_acc], intro lasting_checks)
  fix x release
  show "log_runs (\<lambda>l. checks_passed x l \<and> client_installed release l)
     (prov_bind (provision_services (logged transport) (log_report rep) (snd x) release) (\<lambda>_.
      prov_return \<lparr>pr_osRelease = fst (fst x), pr_osId = fst (snd (fst x)), pr_osName = snd (snd (fst x)),
                   pr_networkStack = snd x, pr_architecture = mr_architecture release\<rparr>))
     host_provisioned (\<lambda>_. True)"
    by (rule log_bind [OF log_services_acc], intro lasting_rules lasting_checks lasting_client, rule log_return)
       (auto simp: host_provisioned_def client_installed_def)
qed

lemma host_provisioned_once_answered:
  assumes "provision_host (logged transport) (log_report rep) (w, []) = (Inr result, (w', trace))"
  shows "host_provisioned result trace"
  by (rule log_runsD(1) [OF log_host_acc TrueI assms])

lemma provisioning_orderly:
  assumes "provision_host (logged transport) (log_report rep) (w, []) = (outcome, (w', trace))"
  shows "orderly None trace"
proof (cases outcome)
  case (Inl e)
  show ?thesis by (rule log_runsD(2) [OF log_host_orderly orderly_Nil assms [unfolded Inl]])
next
  case (Inr r)
  show ?thesis by (rule log_runsD(1) [OF log_host_orderly orderly_Nil assms [unfolded Inr]])
qed

end
