(* ===== verification/HostSteps.thy ===== *)
theory HostSteps
  imports HostController
begin

text \<open>
  The table of hosts as a state machine: the statements the procedures on hosts, the poller and the
  teardown job run on it, in any order and for any host. What this keeps is what holds however the
  actors are interleaved.
\<close>

section \<open>Steps\<close>

text \<open>A change of everything but the hosts, which may draw identifiers.\<close>

definition beside_hosts :: "'q fleet_db \<Rightarrow> 'q fleet_db \<Rightarrow> bool" where
  "beside_hosts db db' \<longleftrightarrow>
     hostRows db' = hostRows db \<and> uuid_supply db' = uuid_supply db \<and> uuid_next db \<le> uuid_next db'"

inductive host_step :: "'q fleet_db \<Rightarrow> 'q fleet_db \<Rightarrow> bool" where
  step_beside: "beside_hosts db db' \<Longrightarrow> host_step db db'"
| step_insert: "insert_host org v db = (Inr row, db') \<Longrightarrow> hv_status v = HostPending \<Longrightarrow> host_step db db'"
| step_claim: "host_step db (snd (claim_for_provisioning org i expected db))"
| step_progress: "host_step db (record_provisioning_progress org i attempt progress db)"
| step_failure: "host_step db (record_provisioning_failure org i attempt reason reached db)"
| step_finalize:
    "hp_status patch = Some s \<Longrightarrow> s \<noteq> HostProvisioning \<Longrightarrow>
     host_step db (snd (finalize_provisioning org i attempt patch stack architecture db))"
| step_trust: "host_step db (snd (update_host_key_trust org i trust db))"
| step_teardown: "host_step db (snd (begin_teardown org i t db))"
| step_teardown_failure: "host_step db (record_teardown_failure i org reason db)"
| step_delete: "host_step db (snd (delete_hosts p db))"
| step_seen: "host_step db (record_seen i org seenAt observed db)"

abbreviation host_steps :: "'q fleet_db \<Rightarrow> 'q fleet_db \<Rightarrow> bool" where
  "host_steps \<equiv> host_step\<^sup>*\<^sup>*"

lemma host_steps_trans: "host_steps a b \<Longrightarrow> host_steps b c \<Longrightarrow> host_steps a c"
  by (rule rtranclp_trans)

lemma host_step_steps: "host_step a b \<Longrightarrow> host_steps a b"
  by (rule r_into_rtranclp)

section \<open>What every step does to a row\<close>

named_theorems host_ops

lemmas host_op_defs [host_ops] =
  update_hosts_def record_provisioning_progress_def record_provisioning_failure_def finalize_provisioning_def
  begin_teardown_def record_teardown_failure_def record_seen_def

lemma update_rowsE:
  assumes "h' \<in> set (update_rows p f rows)"
  obtains h where "h \<in> set rows" "p h" "h' = f h" | "h' \<in> set rows" "\<not> p h'"
  using assms by (auto simp: update_rows_def split: if_splits)

text \<open>
  One row's part of a step, at a supply and a count of identifiers: its attempt and its status stay,
  or it is claimed with an identifier drawn just then, or its attempt ends.
\<close>

definition row_step :: "ident option \<Rightarrow> host_row \<Rightarrow> host_row \<Rightarrow> bool" where
  "row_step drawn h h' \<longleftrightarrow>
     ho_id h' = ho_id h \<and> ho_organizationId h' = ho_organizationId h \<and>
     ((ho_provisioningAttemptId h' = ho_provisioningAttemptId h \<and>
       ho_provisioningClaimedAt h' = ho_provisioningClaimedAt h \<and>
       (ho_status h' = ho_status h \<or> ho_status h' = HostRemoving))
      \<or> (drawn \<noteq> None \<and> ho_provisioningAttemptId h' = drawn \<and> ho_provisioningClaimedAt h' \<noteq> None \<and>
         ho_status h' = HostProvisioning)
      \<or> (ho_provisioningAttemptId h' = None \<and> ho_status h' \<noteq> HostProvisioning))"

definition drawn_by :: "'q fleet_db \<Rightarrow> 'q fleet_db \<Rightarrow> ident option" where
  "drawn_by db db' = (if uuid_next db < uuid_next db' then Some (uuid_supply db (uuid_next db)) else None)"

lemma row_step_refl [simp]: "row_step drawn h h"
  by (simp add: row_step_def)

definition fresh_row :: "host_row \<Rightarrow> bool" where
  "fresh_row h \<longleftrightarrow> ho_provisioningAttemptId h = None \<and> ho_status h \<noteq> HostProvisioning"

lemma update_row_step:
  assumes "h' \<in> set (hostRows (snd (update_hosts p f db)))" and "\<And>h. p h \<Longrightarrow> row_step drawn h (f h)"
  shows "\<exists>h \<in> set (hostRows db). row_step drawn h h'"
proof -
  have "h' \<in> set (update_rows p f (hostRows db))" using assms(1) by (simp add: update_hosts_def)
  then show ?thesis
    by (cases rule: update_rowsE) (use assms(2) row_step_refl in blast)+
qed

lemma claimed_row_step: "row_step (Some a) h (claimed_row a now h)"
  by (simp add: row_step_def claimed_row_def)

lemma settled_row_step:
  assumes "hp_status patch = Some s" and "s \<noteq> HostProvisioning"
  shows "row_step drawn h ((whitelist_host_update patch h)
     \<lparr>ho_networkStack := n, ho_architecture := a, ho_provisioningAttemptId := None, ho_provisioningClaimedAt := None\<rparr>)"
  using assms by (simp add: row_step_def whitelist_host_update_def set_or_def)

lemma host_step_rows:
  assumes "host_step db db'" and "h' \<in> set (hostRows db')"
  shows "fresh_row h' \<or> (\<exists>h \<in> set (hostRows db). row_step (drawn_by db db') h h')"
  using assms(1)
proof (cases rule: host_step.cases)
  case step_beside
  then show ?thesis using assms(2) by (metis beside_hosts_def row_step_refl)
next
  case (step_insert org v row)
  then have "h' \<in> set (hostRows db) \<or> fresh_row h'" using assms(2)
    by (auto simp: insert_host_def nanoid_def Let_def fresh_row_def host_of_values_def
        split: sum.splits if_splits)
  then show ?thesis by (metis row_step_refl)
next
  case (step_claim org i expected)
  have drawn: "drawn_by db db' = Some (uuid_supply db (uuid_next db))"
    by (simp add: step_claim drawn_by_def claim_for_provisioning_def read_now_def random_uuid_def update_hosts_def)
  have "h' \<in> set (update_rows
      (\<lambda>h. host_owned org i h \<and> claimable_host expected (clock db (clock_next db) - provisioning_lease_ms) h)
      (claimed_row (uuid_supply db (uuid_next db)) (clock db (clock_next db))) (hostRows db))"
    using assms(2) by (simp add: step_claim claim_for_provisioning_def read_now_def random_uuid_def update_hosts_def)
  then show ?thesis
    unfolding drawn by (cases rule: update_rowsE) (use claimed_row_step row_step_refl in blast)+
next
  case (step_progress org i attempt progress)
  show ?thesis
    by (rule disjI2, rule update_row_step [OF assms(2) [unfolded step_progress record_provisioning_progress_def]]) (auto simp: row_step_def at_step_def)
next
  case (step_failure org i attempt reason reached)
  show ?thesis
    by (rule disjI2, rule update_row_step [OF assms(2) [unfolded step_failure record_provisioning_failure_def]]) (auto simp: row_step_def at_step_def split: option.splits)
next
  case (step_finalize patch s org i attempt stack architecture)
  show ?thesis
    by (rule disjI2, rule update_row_step [OF assms(2) [unfolded step_finalize(1) finalize_provisioning_def]]) (rule settled_row_step [OF step_finalize(2,3)])
next
  case (step_trust org i trust)
  show ?thesis
  proof (cases "require_non_blank_label (ht_hostKeyTrustedByLabel trust)")
    case (Inl e)
    then show ?thesis using assms(2) by (auto simp: step_trust update_host_key_trust_def intro!: bexI [of _ h'])
  next
    case (Inr label)
    show ?thesis
      using assms(2) unfolding step_trust update_host_key_trust_def Inr sum.case prod.case_eq_if snd_conv
      by (intro disjI2) (elim update_row_step, auto simp: row_step_def)
  qed
next
  case (step_teardown org i t)
  show ?thesis
    by (rule disjI2, rule update_row_step [OF assms(2) [unfolded step_teardown begin_teardown_def prod.case_eq_if snd_conv]]) (auto simp: row_step_def)
next
  case (step_teardown_failure i org reason)
  show ?thesis
    by (rule disjI2, rule update_row_step [OF assms(2) [unfolded step_teardown_failure record_teardown_failure_def]]) (auto simp: row_step_def)
next
  case (step_delete p)
  then have "h' \<in> set (hostRows db)" using assms(2) by (auto simp: delete_hosts_def split: if_splits)
  then show ?thesis by (metis row_step_refl)
next
  case (step_seen i org seenAt observed)
  show ?thesis
    by (rule disjI2, rule update_row_step [OF assms(2) [unfolded step_seen record_seen_def]]) (auto simp: row_step_def)
qed

lemma host_step_supply:
  assumes "host_step db db'"
  shows "uuid_supply db' = uuid_supply db \<and> uuid_next db \<le> uuid_next db'"
  using assms
proof (cases rule: host_step.cases)
  case (step_insert org v row)
  then show ?thesis
    by (auto simp: insert_host_def nanoid_def Let_def split: sum.splits if_splits)
next
  case (step_trust org i trust)
  then show ?thesis by (auto simp: update_host_key_trust_def update_hosts_def split: sum.splits)
next
  case (step_delete p)
  then show ?thesis by (auto simp: delete_hosts_def)
qed (auto simp: beside_hosts_def host_ops claim_for_provisioning_def read_now_def random_uuid_def)

lemma host_steps_supply:
  "host_steps db db' \<Longrightarrow> uuid_supply db' = uuid_supply db \<and> uuid_next db \<le> uuid_next db'"
  by (induction rule: rtranclp_induct) (use host_step_supply in force)+

section \<open>The invariant\<close>

text \<open>A host that is being provisioned has an attempt and the time of its claim.\<close>

definition attempts_held :: "'q fleet_db \<Rightarrow> bool" where
  "attempts_held db \<longleftrightarrow>
     (\<forall>h \<in> set (hostRows db). ho_status h = HostProvisioning \<longrightarrow>
        ho_provisioningAttemptId h \<noteq> None \<and> ho_provisioningClaimedAt h \<noteq> None)"

lemma attempts_held_step: "host_step db db' \<Longrightarrow> attempts_held db \<Longrightarrow> attempts_held db'"
  using host_step_rows [of db db'] unfolding attempts_held_def fresh_row_def row_step_def by fastforce

lemma attempts_held_steps:
  assumes "host_steps db db'" and "attempts_held db"
  shows "attempts_held db'"
  using assms by (induction rule: rtranclp_induct) (auto intro: attempts_held_step)

section \<open>Attempts that are over\<close>

text \<open>The attempt was drawn, and no row of the host holds it.\<close>

definition attempt_over :: "ident \<Rightarrow> ident \<Rightarrow> ident \<Rightarrow> 'q fleet_db \<Rightarrow> bool" where
  "attempt_over org i a db \<longleftrightarrow>
     (\<exists>k < uuid_next db. a = uuid_supply db k) \<and>
     (\<forall>h \<in> set (hostRows db). host_owned org i h \<longrightarrow> ho_provisioningAttemptId h \<noteq> Some a)"

lemma attempt_over_step:
  assumes "host_step db db'" and "inj (uuid_supply db)" and "attempt_over org i a db"
  shows "attempt_over org i a db'"
proof -
  have sup: "uuid_supply db' = uuid_supply db" "uuid_next db \<le> uuid_next db'"
    using host_step_supply [OF assms(1)] by auto
  obtain k where k: "k < uuid_next db" "a = uuid_supply db k" using assms(3) by (auto simp: attempt_over_def)
  have drawn: "drawn_by db db' \<noteq> Some a"
    using k injD [OF assms(2), of "uuid_next db" k] by (auto simp: drawn_by_def)
  have "ho_provisioningAttemptId h' \<noteq> Some a" if h': "h' \<in> set (hostRows db')" "host_owned org i h'" for h'
    using host_step_rows [OF assms(1) h'(1)]
  proof
    assume "fresh_row h'"
    then show ?thesis by (simp add: fresh_row_def)
  next
    assume "\<exists>h \<in> set (hostRows db). row_step (drawn_by db db') h h'"
    then obtain h where h: "h \<in> set (hostRows db)" "row_step (drawn_by db db') h h'" by blast
    then have "host_owned org i h" using h'(2) by (simp add: row_step_def host_owned_def)
    then have "ho_provisioningAttemptId h \<noteq> Some a" using assms(3) h(1) by (simp add: attempt_over_def)
    then show ?thesis using h(2) drawn unfolding row_step_def by auto
  qed
  moreover have "\<exists>k < uuid_next db'. a = uuid_supply db' k" using k sup by (metis order.strict_trans2)
  ultimately show ?thesis unfolding attempt_over_def by blast
qed

lemma attempt_over_steps:
  assumes "host_steps db db'" and "inj (uuid_supply db)" and "attempt_over org i a db"
  shows "attempt_over org i a db'"
  using assms
proof (induction rule: rtranclp_induct)
  case (step y z)
  then show ?case using attempt_over_step host_steps_supply by metis
qed

lemma update_hosts_none: "(\<And>h. h \<in> set (hostRows db) \<Longrightarrow> \<not> p h) \<Longrightarrow> update_hosts p f db = (None, db)"
  by (simp add: update_hosts_def update_rows_none find_None_iff)

lemma attempt_over_nothing:
  assumes "attempt_over org i a db"
  shows "record_provisioning_progress org i a progress db = db"
    and "record_provisioning_failure org i a reason reached db = db"
    and "finalize_provisioning org i a patch stack architecture db = (None, db)"
  using assms unfolding attempt_over_def record_provisioning_progress_def record_provisioning_failure_def finalize_provisioning_def
  by (subst update_hosts_none; auto)+

definition host_keys_unique :: "'q fleet_db \<Rightarrow> bool" where
  "host_keys_unique db \<longleftrightarrow> distinct (map (\<lambda>h. (ho_organizationId h, ho_id h)) (hostRows db))"

lemma host_keys_uniqueD:
  assumes "host_keys_unique db" and "h1 \<in> set (hostRows db)" "h2 \<in> set (hostRows db)"
    and "host_owned org i h1" "host_owned org i h2"
  shows "h1 = h2"
  using assms by (auto simp: host_keys_unique_def distinct_map inj_on_def host_owned_def)

lemma settled_attempt_over:
  assumes "host_keys_unique db" and "k < uuid_next db" and "a = uuid_supply db k"
    and "fst (finalize_provisioning org i a patch stack architecture db) \<noteq> None"
  shows "attempt_over org i a (snd (finalize_provisioning org i a patch stack architecture db))"
proof -
  let ?p = "\<lambda>h. host_owned org i h \<and> ho_status h = HostProvisioning \<and> ho_provisioningAttemptId h = Some a"
  obtain h where h: "h \<in> set (hostRows db)" "?p h"
    using assms(4) by (auto simp: finalize_provisioning_def update_hosts_def find_None_set)
  have only: "?p g" if "g \<in> set (hostRows db)" "host_owned org i g" for g
    using host_keys_uniqueD [OF assms(1) h(1) that(1) _ that(2)] h(2) by auto
  have "ho_provisioningAttemptId h' \<noteq> Some a"
    if "h' \<in> set (hostRows (snd (finalize_provisioning org i a patch stack architecture db)))" "host_owned org i h'" for h'
  proof -
    have "h' \<in> set (update_rows ?p (\<lambda>h. (whitelist_host_update patch h)
          \<lparr>ho_networkStack := set_or (ho_networkStack h) stack, ho_architecture := set_or (ho_architecture h) architecture,
           ho_provisioningAttemptId := None, ho_provisioningClaimedAt := None\<rparr>) (hostRows db))"
      using that(1) by (simp add: finalize_provisioning_def update_hosts_def)
    then show ?thesis using only [of h'] that(2) by (cases rule: update_rowsE) simp_all
  qed
  then show ?thesis
    using assms(2,3) by (auto simp: attempt_over_def finalize_provisioning_def update_hosts_def)
qed

lemma superseded_attempt_over:
  assumes "host_keys_unique db" and "inj (uuid_supply db)" and "k < uuid_next db" and "a = uuid_supply db k"
    and "fst (claim_for_provisioning org i expected db) \<noteq> None"
  shows "attempt_over org i a (snd (claim_for_provisioning org i expected db))"
proof -
  let ?p = "\<lambda>h. host_owned org i h \<and> claimable_host expected (clock db (clock_next db) - provisioning_lease_ms) h"
  obtain h where h: "h \<in> set (hostRows db)" "?p h"
    using assms(5) by (auto simp: claim_for_provisioning_def read_now_def random_uuid_def update_hosts_def find_None_set)
  have only: "?p g" if "g \<in> set (hostRows db)" "host_owned org i g" for g
    using host_keys_uniqueD [OF assms(1) h(1) that(1) _ that(2)] h(2) by auto
  have new: "uuid_supply db (uuid_next db) \<noteq> a"
    using injD [OF assms(2), of "uuid_next db" k] assms(3,4) by auto
  have gone: "ho_provisioningAttemptId h' \<noteq> Some a"
    if "h' \<in> set (hostRows (snd (claim_for_provisioning org i expected db)))" "host_owned org i h'" for h'
  proof -
    have "h' \<in> set (update_rows ?p (claimed_row (uuid_supply db (uuid_next db)) (clock db (clock_next db))) (hostRows db))"
      using that(1) by (simp add: claim_for_provisioning_def read_now_def random_uuid_def update_hosts_def)
    then show ?thesis using only [of h'] that(2) new by (cases rule: update_rowsE) (simp_all add: claimed_row_def)
  qed
  have "\<exists>k < uuid_next (snd (claim_for_provisioning org i expected db)).
      a = uuid_supply (snd (claim_for_provisioning org i expected db)) k"
    using assms(3,4) by (auto simp: claim_for_provisioning_def read_now_def random_uuid_def update_hosts_def intro!: exI [of _ k])
  then show ?thesis using gone unfolding attempt_over_def by blast
qed

lemma supply_kept_by_finalize: "uuid_supply (snd (finalize_provisioning org i attempt patch stack architecture db)) = uuid_supply db"
  by (simp add: finalize_provisioning_def update_hosts_def)

lemma supply_kept_by_claim: "uuid_supply (snd (claim_for_provisioning org i expected db)) = uuid_supply db"
  by (simp add: claim_for_provisioning_def update_hosts_def read_now_def random_uuid_def)

section \<open>What a provisioning does to the world it runs in\<close>

text \<open>
  A relation that every call of the transport and every report keeps is kept by the whole, whichever
  way it ends.
\<close>

locale world_kept =
  fixes R :: "'w \<Rightarrow> 'w \<Rightarrow> bool"
  assumes kept_refl: "R w w" and kept_trans: "R u v \<Longrightarrow> R v w \<Longrightarrow> R u w"
begin

definition keeps :: "('w \<Rightarrow> 'x \<times> 'w) \<Rightarrow> bool" where
  "keeps m \<longleftrightarrow> (\<forall>w. R w (snd (m w)))"

lemma keepsD: "keeps m \<Longrightarrow> R w (snd (m w))"
  by (simp add: keeps_def)

lemma keeps_prov [intro]:
  "keeps (prov_return x)" "keeps (prov_throw e)" "keeps (prov_fail msg)" "keeps (prov_sum r)" "keeps (present_or prop v)"
  by (auto simp: keeps_def prov_return_def prov_throw_def prov_fail_def prov_sum_def present_or_def kept_refl
      split: sum.splits option.splits)

lemma keeps_bind [intro]:
  assumes "keeps m" and "\<And>x. keeps (f x)"
  shows "keeps (prov_bind m f)"
  unfolding keeps_def
proof
  fix w
  show "R w (snd (prov_bind m f w))"
    using keepsD [OF assms(1), of w] kept_trans keepsD [OF assms(2)]
    by (fastforce simp: prov_bind_def split: prod.splits sum.splits)
qed

lemma keeps_finally [intro]:
  assumes "keeps m" and "\<And>w. R w (g w)"
  shows "keeps (prov_finally m g)"
  unfolding keeps_def
proof
  fix w
  show "R w (snd (prov_finally m g w))"
    using keepsD [OF assms(1), of w] kept_trans assms(2)
    by (fastforce simp: prov_finally_def split: prod.splits)
qed

lemma keeps_call [intro]: "keeps m \<Longrightarrow> keeps (prov_call m)"
  unfolding keeps_def prov_call_def by (metis (no_types, lifting) case_prod_beta snd_conv sum.case_eq_if)

lemma keeps_io [intro]:
  "keeps (io_return x)" "keeps (io_throw e)"
  "keeps m \<Longrightarrow> (\<And>x. keeps (f x)) \<Longrightarrow> keeps (io_bind m f)"
  "keeps m \<Longrightarrow> (\<And>e. keeps (h e)) \<Longrightarrow> keeps (io_catch m h)"
proof -
  show "keeps (io_return x)" "keeps (io_throw e)"
    by (simp_all add: keeps_def io_return_def io_throw_def kept_refl)
next
  assume m: "keeps m" and f: "\<And>x. keeps (f x)"
  show "keeps (io_bind m f)"
    unfolding keeps_def
  proof
    fix w
    show "R w (snd (io_bind m f w))"
      using keepsD [OF m, of w] kept_trans keepsD [OF f]
      by (fastforce simp: io_bind_def split: prod.splits sum.splits)
  qed
next
  assume m: "keeps m" and h: "\<And>e. keeps (h e)"
  show "keeps (io_catch m h)"
    unfolding keeps_def
  proof
    fix w
    show "R w (snd (io_catch m h w))"
      using keepsD [OF m, of w] kept_trans keepsD [OF h]
      by (fastforce simp: io_catch_def split: prod.splits sum.splits)
  qed
qed

lemma keeps_when [intro]: "(c \<Longrightarrow> keeps m) \<Longrightarrow> (\<not> c \<Longrightarrow> keeps n) \<Longrightarrow> keeps (if c then m else n)"
  by simp

lemma keeps_option [intro]:
  "keeps n \<Longrightarrow> (\<And>x. keeps (f x)) \<Longrightarrow> keeps (case v of None \<Rightarrow> n | Some x \<Rightarrow> f x)"
  by (cases v) simp_all

lemma keeps_sum [intro]:
  "(\<And>x. keeps (f x)) \<Longrightarrow> (\<And>x. keeps (g x)) \<Longrightarrow> keeps (case v of Inl x \<Rightarrow> f x | Inr x \<Rightarrow> g x)"
  by (cases v) simp_all

lemma keeps_step [intro]:
  assumes "\<And>c t i. keeps (tp_exec transport c t i)"
  shows "keeps (run_step transport c failure t i)"
  unfolding run_step_def by (intro keeps_bind keeps_call keeps_when keeps_prov assms)

lemma keeps_advance [intro]: "(\<And>p w. R w (rep p w)) \<Longrightarrow> keeps (advance_step rep n)"
  by (simp add: keeps_def advance_step_def kept_refl)

lemma keeps_units [intro]:
  assumes "\<And>c t i. keeps (tp_exec transport c t i)"
  shows "keeps (install_units transport templates names)"
  by (induction names) (auto intro: assms)

lemma keeps_system [intro]:
  assumes "\<And>c t i. keeps (tp_exec transport c t i)"
  shows "keeps (read_system transport)"
  unfolding read_system_def Let_def
  by (intro keeps_bind keeps_call keeps_when keeps_option keeps_prov assms)

lemma keeps_linger [intro]:
  assumes "\<And>c t i. keeps (tp_exec transport c t i)"
  shows "keeps (assert_linger_enabled transport)"
  unfolding assert_linger_enabled_def
  by (intro keeps_bind keeps_call keeps_when keeps_io keeps_prov assms)

lemma keeps_provision_host:
  assumes exec: "\<And>c t i. keeps (tp_exec transport c t i)" and rep: "\<And>p w. R w (rep p w)"
  shows "keeps (provision_host transport rep)"
proof -
  have adv: "keeps (advance_step rep n)" for n by (rule keeps_advance) (rule rep)
  have checks: "keeps (provision_checks transport rep)"
    unfolding provision_checks_def
    by (intro keeps_bind adv keeps_system keeps_linger keeps_step keeps_call keeps_when keeps_sum keeps_prov exec)
  have removed: "R w (remove_download transport dir w)" for dir w
    using keepsD [OF exec] by (simp add: remove_download_def)
  have fetch: "keeps (fetch_client transport rep release)" for release
    unfolding fetch_client_def Let_def
    by (intro keeps_bind keeps_finally adv keeps_step keeps_call keeps_when keeps_prov removed exec)
  have client: "keeps (provision_client transport rep)"
    unfolding provision_client_def by (intro keeps_bind adv keeps_step keeps_prov fetch exec)
  have img: "keeps (fetch_image transport rep img)" for img
    unfolding fetch_image_def Let_def
    by (intro keeps_bind adv keeps_step keeps_call keeps_when keeps_prov exec)
  have services: "keeps (provision_services transport rep stack release)" for stack release
    unfolding provision_services_def by (intro keeps_bind adv keeps_step keeps_units keeps_prov img exec)
  show ?thesis
    unfolding provision_host_def case_prod_beta by (intro keeps_bind keeps_prov checks client services)
qed

end

section \<open>The procedures are made of steps\<close>

interpretation fleet_kept: world_kept "host_step\<^sup>*\<^sup>*"
  by unfold_locales (auto intro: host_steps_trans)

interpretation tracked_kept: world_kept "\<lambda>u v. host_step\<^sup>*\<^sup>* (fst u) (fst v)"
  by unfold_locales (auto intro: host_steps_trans)

abbreviation stepping :: "('q fleet_db \<Rightarrow> 'x \<times> 'q fleet_db) \<Rightarrow> bool" where
  "stepping \<equiv> fleet_kept.keeps"

named_theorems stepping_rules

lemmas stepping_basic [stepping_rules] =
  fleet_kept.keeps_io fleet_kept.keeps_when fleet_kept.keeps_option fleet_kept.keeps_sum

lemma beside_hosts_steps: "beside_hosts db db' \<Longrightarrow> host_steps db db'"
  by (rule host_step_steps) (rule step_beside)

lemma stepping_read [stepping_rules]: "stepping (db_read f)" "stepping (io_sum r)"
  by (simp_all add: fleet_kept.keeps_def db_read_def io_sum_def)

lemma stepping_throws [stepping_rules]:
  "stepping (io_fail cls message)" "stepping (io_require ok cls message)" "stepping (io_found v cls message)"
  by (simp_all add: fleet_kept.keeps_def io_fail_def io_require_def io_found_def io_throw_def io_return_def split: option.split)

lemma stepping_db_call:
  "(\<And>db. host_steps db (snd (f db))) \<Longrightarrow> stepping (db_call f)"
  by (simp add: fleet_kept.keeps_def db_call_def prod.case_eq_if)

lemma stepping_guarded [stepping_rules]: "stepping m \<Longrightarrow> stepping (guarded ctx c what m)"
  by (simp add: guarded_def fleet_kept.keeps_io)

lemma stepping_transaction [stepping_rules]:
  assumes "stepping m"
  shows "stepping (fleet_transaction m)"
  unfolding fleet_kept.keeps_def
proof
  fix db
  have steps: "host_steps db (snd (m db))" using assms by (rule fleet_kept.keepsD)
  show "host_steps db (snd (fleet_transaction m db))"
  proof (cases "fst (m db)")
    case (Inl e)
    then have "snd (fleet_transaction m db) = db\<lparr>nano_next := nano_next (snd (m db)),
        clock_next := clock_next (snd (m db)), uuid_next := uuid_next (snd (m db))\<rparr>"
      by (simp add: fleet_transaction_def prod.case_eq_if)
    then show ?thesis
      using host_steps_supply [OF steps] by (auto intro: beside_hosts_steps simp: beside_hosts_def)
  next
    case (Inr x)
    then have "snd (fleet_transaction m db) = snd (m db)"
      by (simp add: fleet_transaction_def prod.case_eq_if)
    then show ?thesis using steps by simp
  qed
qed

lemma stepping_beside:
  "(\<And>db. beside_hosts db (snd (m db))) \<Longrightarrow> stepping m"
  by (simp add: fleet_kept.keeps_def beside_hosts_steps)

lemma stepping_now [stepping_rules]: "stepping (db_call read_now)"
  by (rule stepping_db_call) (simp add: read_now_def beside_hosts_steps beside_hosts_def)

lemma stepping_in_progress [stepping_rules]: "stepping (in_progress h)"
  unfolding in_progress_def by (intro stepping_rules)

lemma stepping_audit [stepping_rules]: "stepping (audit_actor ctx action subjectType subjectId detail)"
proof -
  have "stepping (audit_record org entry)" for org entry
    by (rule stepping_beside) (auto simp: beside_hosts_def audit_record_def nanoid_def Let_def split: sum.splits)
  then show ?thesis unfolding audit_actor_def by (intro stepping_rules)
qed

lemma stepping_enqueue [stepping_rules]: "stepping (enqueue send queue payload)"
  by (rule stepping_beside) (auto simp: beside_hosts_def enqueue_def split: prod.splits sum.splits thrown.splits option.splits)

lemma stepping_insert [stepping_rules]:
  assumes "hv_status v = HostPending"
  shows "stepping (insert_host org v)"
  unfolding fleet_kept.keeps_def
proof
  fix db
  show "host_steps db (snd (insert_host org v db))"
  proof (cases "fst (insert_host org v db)")
    case (Inl e)
    then have "beside_hosts db (snd (insert_host org v db))"
      by (auto simp: insert_host_def nanoid_def Let_def beside_hosts_def split: sum.splits if_splits)
    then show ?thesis by (rule beside_hosts_steps)
  next
    case (Inr row)
    then have "insert_host org v db = (Inr row, snd (insert_host org v db))" by (metis prod.collapse)
    then show ?thesis by (rule host_step_steps [OF step_insert]) (rule assms)
  qed
qed

lemma stepping_hosts [stepping_rules]:
  "stepping (delete_hosts p)" "stepping (delete_host org i)" "stepping (update_host_key_trust org i trust)"
  "stepping (db_call (claim_for_provisioning org i expected))" "stepping (db_call (begin_teardown org i t))"
  "hp_status patch = Some s \<Longrightarrow> s \<noteq> HostProvisioning \<Longrightarrow>
     stepping (db_call (finalize_provisioning org i a patch stack architecture))"
  by (auto simp: fleet_kept.keeps_def delete_host_def db_call_def prod.case_eq_if
      intro: host_step_steps host_step.intros)

text \<open>The services step too: what other actors do while one is awaited is made of steps.\<close>

definition services_step :: "'q host_services \<Rightarrow> bool" where
  "services_step sv \<longleftrightarrow>
     (\<forall>hostname port t. stepping (hx_probeHostKey sv hostname port t) \<and> stepping (hx_probeSshHandshake sv hostname port t)) \<and>
     (\<forall>c t i. stepping (tp_exec (hx_transport sv) c t i)) \<and>
     (\<forall>p t. stepping (tp_canForward (hx_transport sv) p t)) \<and>
     (\<forall>options. stepping (tp_connect (hx_transport sv) options)) \<and> stepping (tp_close (hx_transport sv)) \<and>
     (\<forall>org i db. host_steps db (hx_evictHost sv org i db))"

lemma services_stepD:
  assumes "services_step sv"
  shows "stepping (hx_probeHostKey sv hostname port t)" "stepping (hx_probeSshHandshake sv hostname port t)"
    "stepping (tp_exec (hx_transport sv) c t2 i)" "stepping (tp_canForward (hx_transport sv) p t2)"
    "stepping (tp_connect (hx_transport sv) options)" "host_steps db (close_quietly (hx_transport sv) db)"
    "host_steps db (hx_evictHost sv org h db)" "stepping (\<lambda>db. (r, hx_evictHost sv org h db))"
    "stepping (presented_key sv cls hostname port)"
proof -
  show probe: "stepping (hx_probeHostKey sv hostname port t)" for hostname port t
    using assms by (simp add: services_step_def)
  show "stepping (presented_key sv cls hostname port)"
    unfolding presented_key_def by (intro stepping_rules probe)
qed (use assms in \<open>auto simp: services_step_def fleet_kept.keeps_def close_quietly_def\<close>)

lemma stepping_run_provision:
  assumes "services_step sv"
  shows "tracked_kept.keeps (run_provision sv org hostId a claimed key fp)"
proof -
  have beside: "tracked_kept.keeps (beside_progress m)" if "stepping m" for m :: "('q fleet_db, 'x) io"
    using that by (auto simp: tracked_kept.keeps_def fleet_kept.keeps_def beside_progress_def prod.case_eq_if)
  have rep: "host_steps (fst w) (fst (report_progress org hostId a p w))" for p w
    by (auto simp: report_progress_def prod.case_eq_if intro: host_step_steps step_progress)
  have "tracked_kept.keeps (provision_host (tracked_transport (hx_transport sv)) (report_progress org hostId a))"
    by (rule tracked_kept.keeps_provision_host)
      (auto simp: tracked_transport_def intro: beside services_stepD [OF assms] rep)
  moreover have "tracked_kept.keeps (prov_call (beside_progress (io_catch (tp_connect (hx_transport sv) options)
      (\<lambda>e. io_fail cls (f e)))))" for options cls f
    by (intro tracked_kept.keeps_call beside stepping_rules services_stepD [OF assms])
  ultimately show ?thesis
    unfolding run_provision_def
    by (intro tracked_kept.keeps_finally tracked_kept.keeps_bind tracked_kept.keeps_prov)
      (auto simp: prod.case_eq_if services_stepD [OF assms])
qed

lemma stepping_settle_success [stepping_rules]: "stepping (settle_success ctx hostId a result)"
  unfolding settle_success_def Let_def by (intro stepping_rules) (simp add: no_patch_def, simp)

lemma steps_settle_failure: "host_steps db (settle_failure org hostId a failure reached db)"
proof -
  have "host_step db (record_provisioning_failure org hostId a failure reached db)" (is "host_step db ?db")
    by (rule step_failure)
  moreover have "host_step ?db (settle_failure org hostId a failure reached db)"
    unfolding settle_failure_def by (rule step_finalize [where s = HostError]) (simp_all add: no_patch_def)
  ultimately show ?thesis by (metis host_step_steps host_steps_trans)
qed

lemma stepping_run_claimed:
  assumes "services_step sv"
  shows "stepping (run_claimed sv ctx hostId key claimed fp a)"
  unfolding fleet_kept.keeps_def
proof
  fix db
  let ?run = "run_provision sv (ac_organizationId ctx) hostId a claimed key fp (db, None)"
  have run: "host_steps db (fst (snd ?run))"
    using tracked_kept.keepsD [OF stepping_run_provision [OF assms], of "(db, None)"] by simp
  obtain r db1 reached where r: "?run = (r, (db1, reached))" by (metis prod.collapse)
  show "host_steps db (snd (run_claimed sv ctx hostId key claimed fp a db))"
  proof (cases r)
    case (Inl e)
    then show ?thesis
      using host_steps_trans [OF run steps_settle_failure] by (simp add: run_claimed_def r Let_def)
  next
    case (Inr result)
    have "stepping (fleet_transaction (settle_success ctx hostId a result))" by (intro stepping_rules)
    then have "host_steps db1 (snd (fleet_transaction (settle_success ctx hostId a result) db1))"
      by (rule fleet_kept.keepsD)
    then show ?thesis using run Inr by (simp add: run_claimed_def r)
  qed
qed

lemma stepping_claim_host [stepping_rules]: "stepping (claim_host ctx hostId found)"
  unfolding claim_host_def Let_def by (intro stepping_rules)

lemma stepping_thrown [stepping_rules]:
  "(\<And>c m. stepping (f c m)) \<Longrightarrow> stepping n \<Longrightarrow> stepping (case e of Thrown c m \<Rightarrow> f c m | ThrownValue \<Rightarrow> n)"
  by (cases e) simp_all

lemma stepping_pair [stepping_rules]: "(\<And>x y. stepping (f x y)) \<Longrightarrow> stepping (case p of (x, y) \<Rightarrow> f x y)"
  by (simp add: prod.case_eq_if)

lemma stepping_check_over:
  assumes "\<And>c t i. stepping (tp_exec transport c t i)" and "\<And>p t. stepping (tp_canForward transport p t)"
  shows "stepping (check_host_over_transport transport account)"
  unfolding check_host_over_transport_def Let_def by (intro stepping_rules assms)

lemma stepping_check_attempt:
  assumes "services_step sv"
  shows "stepping (check_attempt sv input privateKey)"
  unfolding fleet_kept.keeps_def
proof
  fix db
  let ?options = "\<lparr>co_hostname = ch_hostname input, co_port = ch_port input, co_username = ch_username input,
              co_privateKey = privateKey, co_expectedFingerprint = ch_expectedFingerprint input,
              co_timeoutMs = connect_timeout_ms\<rparr>"
  obtain r db1 where c: "tp_connect (hx_transport sv) ?options db = (r, db1)" by (metis prod.collapse)
  have connected: "host_steps db db1"
    using fleet_kept.keepsD [OF services_stepD(5) [OF assms], of db ?options] c by simp
  have closed: "host_steps u (close_quietly (hx_transport sv) u)" for u by (rule services_stepD [OF assms])
  obtain r2 db2 where k: "check_host_over_transport (host_transport.truncate (hx_transport sv)) (ch_username input) db1 = (r2, db2)"
    by (metis prod.collapse)
  have "stepping (check_host_over_transport (host_transport.truncate (hx_transport sv)) (ch_username input))"
    by (rule stepping_check_over) (simp_all add: host_transport.truncate_def services_stepD [OF assms])
  then have checked: "host_steps db1 db2" using k by (metis fleet_kept.keepsD snd_conv)
  show "host_steps db (snd (check_attempt sv input privateKey db))"
    using connected checked closed
    by (cases r; cases r2) (auto simp: check_attempt_def c k Let_def intro: host_steps_trans)
qed

lemma procedures_step:
  assumes "services_step sv"
  shows "stepping (probe_address sv ctx hostname port)" "stepping (read_host_key sv ctx hostname port)"
    "stepping (check_host sv ctx input)" "stepping (enroll sv ctx new_host)" "stepping (provision sv ctx hostId)"
    "stepping (retrust_host_key sv ctx hostId fp)" "stepping (remove_host sv ctx hostId)"
proof -
  note [stepping_rules] = services_stepD [OF assms] stepping_check_attempt [OF assms] stepping_run_claimed [OF assms]
  show "stepping (probe_address sv ctx hostname port)"
    unfolding probe_address_def by (intro stepping_rules)
  show "stepping (read_host_key sv ctx hostname port)"
    unfolding read_host_key_def by (intro stepping_rules)
  have "stepping (case attempt of CheckInterrupted e \<Rightarrow> io_throw e | CheckReported report \<Rightarrow> io_return report)" for attempt
    by (cases attempt) (auto intro: stepping_rules)
  then show "stepping (check_host sv ctx input)"
    unfolding check_host_def by (intro stepping_rules)
  show "stepping (enroll sv ctx new_host)"
    unfolding enroll_def by (intro stepping_rules) simp
  show "stepping (provision sv ctx hostId)"
    unfolding provision_def Let_def by (intro stepping_rules)
  show "stepping (retrust_host_key sv ctx hostId fp)"
    unfolding retrust_host_key_def Let_def by (intro stepping_rules)
  show "stepping (remove_host sv ctx hostId)"
    unfolding remove_host_def remove_host_tx_def Let_def by (intro stepping_rules)
qed

section \<open>Enrolment\<close>

lemma io_bindE:
  assumes "io_bind m f w = (Inr y, w')"
  obtains x w1 where "m w = (Inr x, w1)" "f x w1 = (Inr y, w')"
  using assms by (auto simp: io_bind_def split: prod.splits sum.splits)

lemma inserted_host:
  assumes "insert_host org v db = (Inr row, db')"
  shows "row \<in> set (hostRows db')" and "\<exists>i label. row = host_of_values i org label v"
  using assms by (auto simp: insert_host_def Let_def split: sum.splits if_splits prod.splits)

lemma audit_keeps_hosts: "hostRows (snd (audit_actor ctx action subjectType subjectId detail db)) = hostRows db"
  by (auto simp: audit_actor_def audit_record_def io_simps nanoid_def read_now_def Let_def split: sum.splits prod.splits)

lemma transaction_done: "fleet_transaction m db = (Inr x, db') \<longleftrightarrow> m db = (Inr x, db')"
  by (auto simp: fleet_transaction_def split: prod.splits sum.splits)

lemma enroll_stores:
  assumes "enroll sv ctx input db = (Inr view, db')"
  obtains presented db1 row where "role_can (ac_role ctx) HostEnroll"
    "hx_probeHostKey sv (eh_hostname input) (eh_port input) probe_timeout_ms db = (Inr presented, db1)"
    "fingerprint_from_key (hx_sha256 sv) presented = eh_expectedFingerprint input"
    "row \<in> set (hostRows db')" "view = to_host_public row" "ho_organizationId row = ac_organizationId ctx"
    "ho_status row = HostPending" "ho_hostname row = eh_hostname input"
    "ho_hostKeyFingerprint row = Some (eh_expectedFingerprint input)" "ho_hostKeyTrustedBy row = Some (ac_memberId ctx)"
proof -
  have role: "role_can (ac_role ctx) HostEnroll" using assms by (auto simp: enroll_def guarded_def io_simps split: if_splits)
  have probed: "hx_probeHostKey sv h port probe_timeout_ms db = (Inr presented, db1)"
    if "presented_key sv c h port db = (Inr presented, db1)" for c h port presented db1
    using that by (auto simp: presented_key_def io_simps io_fail_def split: prod.splits sum.splits)
  have key: "fingerprint = eh_expectedFingerprint input \<and> fingerprint_from_key (hx_sha256 sv) presented = eh_expectedFingerprint input"
    if "io_found (verify_host_key (hx_sha256 sv) presented (eh_expectedFingerprint input)) c m u = (Inr fingerprint, u')"
    for c m u u' fingerprint presented
    using that by (auto simp: io_found_def io_simps io_fail_def verify_host_key_def Let_def split: option.splits if_splits)
  have kept: "hostRows u' = hostRows u" if "audit_actor ctx a s i d u = (Inr x, u')" for a s i d u u' x
    using audit_keeps_hosts [of ctx a s i d u] that by simp
  show thesis
    using assms
    unfolding enroll_def guarded_def
    apply (simp add: role)
    apply (elim io_bindE)
    apply (simp only: transaction_done)
    apply (elim io_bindE)
    subgoal for presented db1 fingerprint db2 algorithm db3 now db4 row db5 u db6
      by (frule inserted_host(1), drule inserted_host(2), drule kept, drule key,
          intro that [of presented db1 row, OF role probed])
        (auto simp: host_of_values_def io_simps)
    done
qed

end
