(* ===== verification/Examples.thy ===== *)
theory Examples
  imports StatusMachine Observer Delivery TaskScheduler TaskSignals SmtpSafety Sender ProvisionSafety HostSteps
begin

text \<open>
  The concrete values the properties are tried on: empty databases whose identifiers are the decimal
  numerals, a queue that takes every job, and small rows.
\<close>

definition blank_app :: "unit app_db" where
  "blank_app =
     \<lparr>nano_supply = nat_string, nano_next = 0, clock = (\<lambda>n. int n * 1000), clock_next = 0, db_time = 0,
      statusConditions = [], statusIntervals = [], statusEvents = [], statusSourceCursors = [],
      notificationDestinations = [], notificationSubscriptions = [], notifications = [],
      notificationDeliveries = [], notificationAttempts = [], boss = ()\<rparr>"

definition taking_queue :: "unit job_sender" where
  "taking_queue = (\<lambda>q p t b. (Inr (Some ''job''), b))"

lemma obliging_taking_queue: "obliging taking_queue"
  by (simp add: obliging_def taking_queue_def)

lemma inj_nat_string: "inj nat_string"
  by (simp add: inj_on_def)

lemma no_colon_nat_string: "no_colon (nat_string n)"
  using nat_string_digits [of n] by (auto simp: no_colon_def is_digit_def)

lemma empty_log_blank: "empty_log blank_app"
  by (simp add: empty_log_def blank_app_def inj_nat_string no_colon_nat_string)

definition some_host :: host_observation where
  "some_host = \<lparr>ob_hostId = ''h'', ob_hostName = ''host'', ob_reached = False\<rparr>"

definition some_bot :: instance_ref where
  "some_bot = \<lparr>in_id = ''b'', in_name = ''bot''\<rparr>"

definition blank_tasks :: task_db where
  "blank_tasks =
     \<lparr>nano_supply = nat_string, nano_next = 0, clock = (\<lambda>n. int n * 1000), clock_next = 0, db_time = 0,
      statusConditions = [], statusIntervals = [], statusEvents = [], statusSourceCursors = [],
      instanceCommands = [], instanceSchedules = [],
      instanceTasks = [], instanceTaskSteps = [], instanceTaskTimes = [], instanceTaskRuns = [],
      instanceSignals = [], instanceSignalCursors = []\<rparr>"

text \<open>A destination at \<open>8.8.8.8\<close>, which needs no lookup, and a client that answers every request with 204.\<close>

definition eight_url :: "string \<Rightarrow> url_parts option" where
  "eight_url raw =
     Some \<lparr>up_protocol = ''https:'', up_username = [], up_password = [], up_hostname = ''8.8.8.8'', up_search = [],
           up_hash = []\<rparr>"

definition no_lookup :: "string \<Rightarrow> ('w, (string \<times> nat) list) io" where
  "no_lookup hostname = io_return []"

definition no_content :: "'w http_client" where
  "no_content found timeoutMs maxBytes request = io_return \<lparr>hr_status = 204, hr_headers = [], hr_body = []\<rparr>"

definition no_codes :: "thrown \<Rightarrow> error_codes" where "no_codes e = \<lparr>ec_own = None, ec_cause = None\<rparr>"

definition discord_sending :: "unit sending" where
  "discord_sending =
     \<lparr>sg_codes = no_codes, sg_hmac = (\<lambda>_ _. []), sg_decode = (\<lambda>_. []),
      sg_parse_date = (\<lambda>_. None), sg_parse_json = (\<lambda>_. Some JNull),
      sg_transport = send_pinned eight_url (\<lambda>m. m) no_lookup no_content,
      sg_open = (\<lambda>sealed key. Inr []), sg_parse_config = (\<lambda>kind v. Some (DiscordStored ''https://8.8.8.8/'')),
      sg_email = (\<lambda>smtpPort smtpServer username password from_address to_addresses envelope policy w. (classify_refusal [], w))\<rparr>"

definition some_destination :: destination_row where
  "some_destination =
     \<lparr>de_id = ''x'', de_organizationId = ''o'', de_kind = DiscordKind,
      de_values = \<lparr>dv_name = [], dv_displayTarget = [], dv_secretEncrypted = [], dv_secretKeyId = []\<rparr>,
      de_enabled = True, de_createdAt = 0, de_lastSucceededAt = None, de_lastFailedAt = None, de_lastFailureReason = None\<rparr>"

definition some_envelope :: notification_envelope where
  "some_envelope =
     \<lparr>en_id = ''n'', en_deliveryId = ''d'', en_kind = TestNotification, en_title = ''t'', en_body = ''b'',
      en_subjectType = HostSubjectType, en_subjectId = ''h'', en_occurredAt = 0\<rparr>"

lemma eight_is_public: "verify_address ''8.8.8.8'' public_only False = AddressAllowed False"
proof -
  have p: "parse_address ''8.8.8.8'' = Some [8, 8, 8, 8]" by (simp add: reading)
  have n: "normalised [8, 8, 8, 8] = [8, 8, 8, 8]" by (simp add: normalised_def)
  have v: "address_value [8, 8, 8, 8] = 134744072" by simp
  show ?thesis
    using verify_octets_iff [of "[8, 8, 8, 8]" public_only False False]
    by (simp add: verify_address_def p n v never_address_def local_address_def unreachable_v4_def private_v4_def
        names_address_def public_only_def between_def ip4_def)
qed

lemma eight_literal: "bare_hostname ''8.8.8.8'' = ''8.8.8.8''" "is_ip ''8.8.8.8'' = 4"
  "host_is_allowed hostname public_only = False"
  by (simp_all add: reading host_is_allowed_def public_only_def)

lemma eight_allowed: "verify_destination_url eight_url raw public_only = UrlAllowed ''8.8.8.8''"
  by (simp add: verify_destination_url_def eight_url_def eight_literal eight_is_public)

lemma eight_pinned:
  "resolve_pinned lookup ''8.8.8.8'' public_only w =
     (PinOk [\<lparr>pa_address = ''8.8.8.8'', pa_family = 4, pa_named = False\<rparr>], w)"
  by (simp add: resolve_pinned_def eight_literal eight_is_public)

lemma discord_delivered:
  "dispatch_to discord_sending some_destination some_envelope public_only 0 () = (OutDelivered (Some 204), ())"
  by (simp add: dispatch_to_def read_destination_config_def deliver_discord_def attempt_send_def send_pinned_def
      pin_io_def send_over_def discord_sending_def some_destination_def post_request_def eight_allowed eight_literal
      eight_pinned eight_url_def no_content_def io_return_def classify_discord_reply_def classify_http_status_def Let_def)

end
