(* ===== verification/HostExamples.thy ===== *)
theory HostExamples
  imports Examples
begin

text \<open>
  The concrete hosts the properties about them are tried on: a transport that plays back a list of
  replies, a run of the provisioning over it that goes through, a table with one host that is being
  provisioned, and services that do nothing.
\<close>

section \<open>A provisioning that goes through\<close>

definition said :: "string \<Rightarrow> exec_result" where
  "said out = \<lparr>er_exitCode = 0, er_stdout = out, er_stderr = []\<rparr>"

definition scripted_host :: "exec_result list host_transport" where
  "scripted_host =
     \<lparr>tp_exec = (\<lambda>command timeoutMs stdin replies.
        case replies of [] \<Rightarrow> (Inl ThrownValue, []) | r # rs \<Rightarrow> (Inr r, rs)),
      tp_canForward = (\<lambda>port timeoutMs replies. (Inr True, replies))\<rparr>"

definition system_reply :: string where
  "system_reply = ''uid=1000'' @ [lf] @ ''home=/home/b'' @ [lf] @ ''passwd-home=/home/b'' @ [lf] @ ''systemd=systemd 252'' @ [lf]
     @ ''os-id=debian'' @ [lf]"

definition facts_reply :: string where
  "facts_reply = ''uid=1000'' @ [lf] @ ''home=/h'' @ [lf] @ ''passwd-home=/h'' @ [lf] @ ''podman=podman version 5.4.2'' @ [lf] @ ''storage=fresh'' @ [lf] @ ''subuid=own'' @ [lf]
     @ ''subgid=own'' @ [lf] @ ''cgroup=cgroup2fs'' @ [lf] @ ''helper=pasta''"

lemma system_reply_read [simp]:
  "parse_system system_reply =
     \<lparr>sy_uid = Some 1000, sy_home = ''/home/b'', sy_passwdHome = ''/home/b'', sy_systemd = Some ''systemd 252'',
      sy_osId = Some ''debian'', sy_osName = None\<rparr>"
  by code_simp

lemma facts_reply_read [simp]: "network_stack_for (parse_host_facts (trim facts_reply)) = Inr Pasta"
  by code_simp

definition host_replies :: "exec_result list" where
  "host_replies =
     map said [system_reply, ''yes'', facts_reply, ''ready'', [], ''x86_64'', ''/tmp/d'', [], [], [], [],
       podman_image_id (the (runtime_image_for (Build X64))), client_banner, [], [], [], [], []]"

lemma release_x64: "\<exists>r. mcc_release_for_machine ''x86_64'' = Inr r \<and> mr_architecture r = Build X64 \<and> mr_sha256 r \<noteq> None"
proof -
  have "architecture_for_machine ''x86_64'' = Inr (Build X64)" by code_simp
  then show ?thesis by (simp add: mcc_release_for_machine_def)
qed

lemma image_x64: "\<exists>i. runtime_image_for (Build X64) = Some i \<and> trim (podman_image_id i) = podman_image_id i \<and> podman_image_id_ok (podman_image_id i)"
proof (intro exI conjI)
  show "runtime_image_for (Build X64) = Some (the (runtime_image_for (Build X64)))" by simp
  show "trim (podman_image_id (the (runtime_image_for (Build X64)))) = podman_image_id (the (runtime_image_for (Build X64)))"
    by code_simp
  show "podman_image_id_ok (podman_image_id (the (runtime_image_for (Build X64))))" by code_simp
qed

lemma scripted_provisioned:
  "\<exists>w l. provision_host (logged scripted_host) (log_report (\<lambda>p w. w)) (host_replies, []) =
     (Inr \<lparr>pr_osRelease = ''systemd 252'', pr_osId = Some ''debian'', pr_osName = None, pr_networkStack = Pasta,
           pr_architecture = Build X64\<rparr>, (w, l))"
proof -
  obtain r sha where r: "mcc_release_for_machine ''x86_64'' = Inr r" "mr_architecture r = Build X64" "mr_sha256 r = Some sha"
    using release_x64 by auto
  obtain i where i: "runtime_image_for (Build X64) = Some i" "trim (podman_image_id i) = podman_image_id i"
    "podman_image_id_ok (podman_image_id i)"
    using image_x64 by blast
  have trims: "trim ''yes'' = ''yes''" "trim ''ready'' = ''ready''" "trim ''x86_64'' = ''x86_64''" "trim ''/tmp/d'' = ''/tmp/d''"
    by code_simp+
  have usable: "is_usable_home ''/home/b'' ''/home/b''" by code_simp
  have banner: "has_sub (client_banner @ [lf]) client_banner" by code_simp
  have call: "prov_call (tp_exec (logged scripted_host) c t k) (said s # rs, l) = (Inr (said s), (rs, l @ [(c, Inr (said s))]))"
    for c t k s rs l by (simp add: prov_call_def logged_def scripted_host_def)
  have step: "run_step (logged scripted_host) c f t k (said s # rs, l) = (Inr (trim s), (rs, l @ [(c, Inr (said s))]))"
    for c f t k s rs l by (simp add: run_step_def prov_bind_def call prov_return_def) (simp add: said_def)
  have advance: "advance_step (log_report (\<lambda>p w. w)) n w = (Inr (), w)" for n w
    by (simp add: advance_step_def log_report_def prod.case_eq_if)
  obtain templates where templates: "render_unit_templates Pasta (podman_image_id i) = Inr templates"
    using i(3) by (auto simp: render_unit_templates_def Let_def)
  have linger: "assert_linger_enabled (logged scripted_host) (said ''yes'' # rs, l) = (Inr (), (rs, l @ [(linger_query, Inr (said ''yes''))]))"
    for rs l by (simp add: assert_linger_enabled_def prov_bind_def call prov_return_def) (simp add: said_def trims)
  have sys: "read_system (logged scripted_host) (said system_reply # rs, l) =
      (Inr (''systemd 252'', Some ''debian'', None), (rs, l @ [(system_command, Inr (said system_reply))]))" for rs l
    by (simp add: read_system_def prov_bind_def call prov_return_def Let_def) (simp add: said_def usable prov_return_def)
  have run:
    "prov_bind (run_step (logged scripted_host) c f t k) g (said s # rs, l) = g (trim s) (rs, l @ [(c, Inr (said s))])"
    "prov_bind (prov_call (tp_exec (logged scripted_host) c t k)) h (said s # rs, l) = h (said s) (rs, l @ [(c, Inr (said s))])"
    "prov_bind (advance_step (log_report (\<lambda>p w. w)) n) j w = j () w"
    "prov_bind (assert_linger_enabled (logged scripted_host)) j (said ''yes'' # rs, l) = j () (rs, l @ [(linger_query, Inr (said ''yes''))])"
    "prov_bind (read_system (logged scripted_host)) y (said system_reply # rs, l) =
       y (''systemd 252'', Some ''debian'', None) (rs, l @ [(system_command, Inr (said system_reply))])"
    for c f t k g h j y s rs l n w
    by (simp_all add: prov_bind_def step call advance linger sys)
  have checks: "\<exists>l'. provision_checks (logged scripted_host) (log_report (\<lambda>p w. w))
       (said system_reply # said ''yes'' # said facts_reply # said ''ready'' # rs, l) =
      (Inr ((''systemd 252'', Some ''debian'', None), Pasta), (rs, l'))" for rs l
    unfolding provision_checks_def run facts_reply_read sum.case prov_bind_return by (simp add: said_def trims prov_return_def)
  have out: "er_exitCode (said s) = 0" "er_stdout (said s) = s" "er_stderr (said s) = []" for s by (simp_all add: said_def)
  have removed: "remove_download (logged scripted_host) d (said [] # rs, l) = (rs, l @ [(remove_download_command d, Inr (said []))])"
    for d rs l by (simp add: remove_download_def logged_def scripted_host_def)
  have ended: "prov_bind (prov_finally m f) g w = g x (f w')" if "m w = (Inr x, w')" for m f g w w' x
    using that by (simp add: prov_bind_def prov_finally_def)
  have fetch: "\<exists>l'. fetch_client (logged scripted_host) (log_report (\<lambda>p w. w)) r
       (said ''/tmp/d'' # said [] # said [] # said [] # rs, l) = (Inr (), (rs, l'))" for rs l
    unfolding fetch_client_def run out trims Let_def r(3) present_or_def option.case prov_bind_return
    by (simp add: prov_bind_return)
       (subst ended, (simp only: run prov_bind_return step), simp add: removed prov_return_def)
  have client: "\<exists>l'. provision_client (logged scripted_host) (log_report (\<lambda>p w. w))
       (said [] # said ''x86_64'' # said ''/tmp/d'' # said [] # said [] # said [] # rs, l) = (Inr r, (rs, l'))" for rs l
  proof -
    obtain l' where f: "fetch_client (logged scripted_host) (log_report (\<lambda>p w. w)) r
       (said ''/tmp/d'' # said [] # said [] # said [] # rs, l @ [(make_directories_command, Inr (said [])), (''uname -m'', Inr (said ''x86_64''))]) = (Inr (), (rs, l'))"
      using fetch by blast
    show ?thesis
      unfolding provision_client_def run trims r(1) prov_sum_def sum.case prov_bind_return
      by (rule exI [of _ l']) (simp add: prov_bind_def f prov_return_def)
  qed
  have pulled: "\<exists>l'. fetch_image (logged scripted_host) (log_report (\<lambda>p w. w)) i
       (said [] # said (podman_image_id i) # said client_banner # rs, l) = (Inr (), (rs, l'))" for rs l
    unfolding fetch_image_def run i(2) by (simp add: run out banner prov_return_def)
  have services: "\<exists>l'. provision_services (logged scripted_host) (log_report (\<lambda>p w. w)) Pasta r
       (said [] # said (podman_image_id i) # said client_banner # said [] # said [] # said [] # said [] # said [] # [], l)
       = (Inr (), ([], l'))" for l
  proof -
    obtain l1 where f: "fetch_image (logged scripted_host) (log_report (\<lambda>p w. w)) i
       (said [] # said (podman_image_id i) # said client_banner # said [] # said [] # said [] # said [] # said [] # [], l) =
       (Inr (), (said [] # said [] # said [] # said [] # said [] # [], l1))"
      using pulled by blast
    show ?thesis
      unfolding provision_services_def run r(2) i(1) present_or_def option.case prov_bind_return templates prov_sum_def
        sum.case supporting_unit_names_def install_units.simps
      by (simp add: prov_bind_def f step advance prov_return_def)
  qed
  have image: "podman_image_id (the (runtime_image_for (Build X64))) = podman_image_id i" by (metis i(1) option.sel)
  obtain l1 where l1: "provision_checks (logged scripted_host) (log_report (\<lambda>p w. w)) (host_replies, []) =
      (Inr ((''systemd 252'', Some ''debian'', None), Pasta), (drop 4 host_replies, l1))"
    using checks [of "drop 4 host_replies" "[]"] by (auto simp: host_replies_def)
  obtain l2 where l2: "provision_client (logged scripted_host) (log_report (\<lambda>p w. w)) (drop 4 host_replies, l1) =
      (Inr r, (drop 10 host_replies, l2))"
    using client [of "drop 10 host_replies" l1] by (auto simp: host_replies_def)
  obtain l3 where l3: "provision_services (logged scripted_host) (log_report (\<lambda>p w. w)) Pasta r (drop 10 host_replies, l2) =
      (Inr (), ([], l3))"
    using services [of l2] by (simp add: host_replies_def image del: runtime_image_for.simps) blast
  show ?thesis
    by (rule exI [of _ "[]"], rule exI [of _ l3])
      (simp add: provision_host_def prov_bind_def l1 l2 l3 r(2) prov_return_def)
qed

section \<open>A table with one host\<close>

definition some_host_row :: host_row where
  "some_host_row =
     \<lparr>ho_id = ''h'', ho_organizationId = ''o'', ho_name = ''host'', ho_hostname = ''10.0.0.1'', ho_port = 22,
      ho_username = ''bot'', ho_sshKeyId = Some ''k'', ho_status = HostProvisioning, ho_hostKeyAlgorithm = Some ''ssh-ed25519'',
      ho_hostKeyFingerprint = Some ''SHA256:x'', ho_hostKeyTrustedBy = Some ''m'', ho_hostKeyTrustedByLabel = ''member'',
      ho_hostKeyTrustedAt = Some 0, ho_osRelease = None, ho_osId = None, ho_osName = None, ho_cpuCount = None,
      ho_memoryMb = None, ho_networkStack = None, ho_architecture = None, ho_lastSeenAt = None, ho_failedUnits = None,
      ho_provisioningAttemptId = Some ''0'', ho_provisioningClaimedAt = Some 0, ho_provisioningStep = None,
      ho_provisioningStepIndex = None, ho_provisioningStepTotal = None, ho_provisioningError = None,
      ho_teardownError = None, ho_teardownRequestedAt = None\<rparr>"

definition fleet_with :: "host_row list \<Rightarrow> unit fleet_db" where
  "fleet_with rows =
     \<lparr>nano_supply = nat_string, nano_next = 0, clock = (\<lambda>n. int n * 1000), clock_next = 0, db_time = 0,
      statusConditions = [], statusIntervals = [], statusEvents = [], statusSourceCursors = [],
      notificationDestinations = [], notificationSubscriptions = [], notifications = [],
      notificationDeliveries = [], notificationAttempts = [], boss = (),
      uuid_supply = nat_string, uuid_next = 1, hostRows = rows,
      sshKeys = [\<lparr>sk_id = ''k'', sk_organizationId = ''o'', sk_name = ''key'', sk_publicKey = [], sk_privateKeyEncrypted = [],
                  sk_privateKeyKeyId = []\<rparr>],
      auditEvents = [], botInstances = [], botConfigs = []\<rparr>"

text \<open>Services that answer without touching a table, and a server that shows one key.\<close>

definition silent_transport :: "'w ssh_transport" where
  "silent_transport =
     \<lparr>tp_exec = (\<lambda>c t i. io_throw ThrownValue), tp_canForward = (\<lambda>p t. io_return False),
      tp_connect = (\<lambda>options. io_return ()), tp_close = io_return ()\<rparr>"

definition ed25519_key :: bytes where
  "ed25519_key = [0, 0, 0, 11, 115, 115, 104, 45, 101, 100, 50, 53, 53, 49, 57]"

definition idle_services :: "unit host_services" where
  "idle_services =
     \<lparr>hx_probeHostKey = (\<lambda>h p t. io_return ed25519_key), hx_probeSshHandshake = (\<lambda>h p t. io_return HandshakeTimedOut),
      hx_transport = silent_transport, hx_evictHost = (\<lambda>org i db. db), hx_open = (\<lambda>c k. Inr []),
      hx_sha256 = (\<lambda>b. []), hx_marks = (\<lambda>e. \<lparr>em_code = None, em_level = None\<rparr>), hx_send = taking_queue\<rparr>"

definition some_owner :: actor_context where
  "some_owner = \<lparr>ac_organizationId = ''o'', ac_memberId = ''m'', ac_actorLabel = ''member'', ac_role = Owner\<rparr>"

lemma services_step_idle: "services_step idle_services"
  by (simp add: services_step_def idle_services_def silent_transport_def fleet_kept.keeps_def io_simps)

section \<open>A host that answers the same whenever it is asked\<close>

lemma facts_reply_trim: "trim (facts_reply @ [lf]) = facts_reply"
  by code_simp

definition steady_answer :: "string \<Rightarrow> exec_result" where
  "steady_answer command =
     said (if command = system_command then system_reply
           else if command = systemd_version_command then ''systemd 252''
           else if command = ''uname -m'' then ''x86_64''
           else if command = linger_query then ''yes''
           else if command = storage_step_command then ''ready''
           else facts_reply @ [lf])"

definition steady_host :: "unit host_transport" where
  "steady_host =
     \<lparr>tp_exec = (\<lambda>command timeoutMs stdin w. (Inr (steady_answer command), w)), tp_canForward = (\<lambda>p t w. (Inr True, w))\<rparr>"

lemma steady_steady_host: "steady steady_answer steady_host"
  by (simp add: steady_def steady_host_def)

lemma facts_checked:
  "rp_ready (report_from (check_results ''bot'' ''systemd 252'' ''x86_64'' (parse_host_facts (facts_reply @ [lf])) ''yes'' None True))"
  by code_simp

lemma no_info_read: "\<not> reads_podman_info (parse_host_facts (facts_reply @ [lf]))" "\<not> reads_podman_info (parse_host_facts facts_reply)"
  by code_simp+

lemma steady_answers:
  "steady_answer system_command = said system_reply" "steady_answer systemd_version_command = said ''systemd 252''"
  "steady_answer ''uname -m'' = said ''x86_64''" "steady_answer linger_query = said ''yes''"
  "steady_answer host_facts_command = said (facts_reply @ [lf])"
  by (simp_all add: steady_answer_def system_command_def systemd_version_command_def linger_query_def host_facts_command_def
      storage_step_command_def storage_overrides_command_def fact_command_def quote_char_def)

lemma steady_host_ready:
  "\<exists>report. check_host_over_transport steady_host ''bot'' () = (Inr report, ()) \<and> rp_ready report"
  using facts_checked no_info_read
  by (simp add: check_host_over_transport_def io_simps Let_def steadyD [OF steady_steady_host] steady_answers)
     (simp add: said_def io_simps steady_host_def)

lemma scripted_check:
  "\<exists>report w. check_host_over_transport scripted_host ''bot'' (map said [''systemd 252'', ''x86_64'', facts_reply, ''yes'']) =
     (Inr report, w)"
  using no_info_read
  by (simp add: check_host_over_transport_def io_simps Let_def scripted_host_def) (simp add: said_def io_simps)

section \<open>An enrolment\<close>

definition some_enrolment :: create_host_input where
  "some_enrolment = \<lparr>eh_name = ''host'', eh_hostname = ''10.0.0.1'', eh_port = 22, eh_username = ''bot'', eh_sshKeyId = ''k'',
     eh_expectedFingerprint = ''SHA256:''\<rparr>"

lemma enrolment_done: "\<exists>view db'. enroll idle_services some_owner some_enrolment (fleet_with []) = (Inr view, db')"
proof -
  have "fingerprint_from_key (hx_sha256 idle_services) ed25519_key = ''SHA256:''" by code_simp
  moreover have "algorithm_from_key ed25519_key = Inr ''ssh-ed25519''" by code_simp
  moreover have "trim ''member'' = ''member''" by code_simp
  moreover have "role_can Owner HostEnroll" by code_simp
  ultimately show ?thesis
    by (simp add: enroll_def guarded_def presented_key_def idle_services_def some_owner_def some_enrolment_def io_simps
        io_found_def io_sum_def verify_host_key_def fleet_transaction_def db_call_def read_now_def insert_host_def
        require_consistent_trust_tuple_def resolve_host_key_trusted_by_label_def require_non_blank_label_def nanoid_def
        fleet_with_def audit_actor_def audit_record_def actor_entry_def resolve_actor_label_def value_or_def find_ssh_key_def key_owned_def Let_def)
qed

end
