(* ===== verification/Teardown.thy ===== *)
theory Teardown
  imports HostController Schedule
begin

text \<open>
  What is taken away again: the commands that remove one bot (\<open>instance/removal.ts\<close>), the teardown of a
  host (\<open>host/teardown.ts\<close>, with the names of \<open>instance/reconcile.ts\<close>), and the job that runs it with
  the wiring of \<open>apps/worker/src/bootstrap.ts\<close>.
\<close>

section \<open>The removal of a bot\<close>

definition removal_step_timeout_ms :: nat where "removal_step_timeout_ms = 15000"
definition unit_stop_timeout_ms :: nat where "unit_stop_timeout_ms = 45000"
definition directory_delete_timeout_ms :: nat where "directory_delete_timeout_ms = 40000"
definition containers_kill_after_seconds :: nat where "containers_kill_after_seconds = 3"
definition containers_deadline_seconds :: nat where "containers_deadline_seconds = 10"
definition directory_kill_after_seconds :: nat where "directory_kill_after_seconds = 5"
definition directory_deadline_seconds :: nat where "directory_deadline_seconds = 30"

definition units_of :: "string \<Rightarrow> thrown + string" where
  "units_of i =
     rbind (unit_name i) (\<lambda>name. rbind (auth_unit_name i) (\<lambda>auth.
       Inr (join_with '' '' (map shell_quote [name @ ''.service'', auth]))))"

definition containers_of :: "string \<Rightarrow> thrown + string" where
  "containers_of i = rbind (validate_instance_id i) (\<lambda>v. Inr (''open-mcc-'' @ v @ '' open-mcc-auth-'' @ v))"

definition remove_timers_command :: "string \<Rightarrow> thrown + string" where
  "remove_timers_command i =
     rbind (sleep_stop_timer i) (\<lambda>stop. rbind (sleep_start_timer i) (\<lambda>start.
       let timers = join_with '' '' (map shell_quote [stop, start]) in
       Inr (''for timer in '' @ timers @ ''; do if [ -e '' @ unit_dir @ (''/'' @ [dquote] @ ''$timer'' @ [dquote] @ '' ]; then '')
            @ systemctl ((''disable --now '' @ [dquote] @ ''$timer'' @ [dquote])) @ '' || exit 1; fi; rm -f -- '' @ unit_dir
            @ (''/'' @ [dquote] @ ''$timer'' @ [dquote] @ '' || exit 1; done; '') @ systemctl ''daemon-reload'')))"

definition stop_units_command :: "string \<Rightarrow> thrown + string" where
  "stop_units_command i = rbind (units_of i) (\<lambda>units. Inr (systemctl (''stop '' @ units)))"

definition remove_containers_command :: "string \<Rightarrow> thrown + string" where
  "remove_containers_command i =
     rbind (containers_of i) (\<lambda>containers.
       Inr (with_deadline containers_kill_after_seconds containers_deadline_seconds
              (''podman rm -f --ignore '' @ containers)))"

definition verify_gone_command :: "string \<Rightarrow> thrown + string" where
  "verify_gone_command i =
     rbind (units_of i) (\<lambda>units. rbind (containers_of i) (\<lambda>containers.
       Inr (join_with ''; ''
         [''failed='',
          ''for unit in '' @ units @ ''; do state=$('' @ systemctl ((''show -p ActiveState --value '' @ [dquote] @ ''$unit'' @ [dquote]))
            @ ('') || exit 1; case '' @ [dquote] @ ''$state'' @ [dquote]
      @ '' in inactive) ;; failed) failed='' @ [dquote] @ ''$failed $unit'' @ [dquote]
      @ '' ;; *) exit 1 ;; esac; done''),
          ''for name in '' @ containers @ ''; do '' @ podman ((''container exists '' @ [dquote] @ ''$name'' @ [dquote]))
            @ ''; case $? in 1) ;; *) exit 1 ;; esac; done'',
          (''[ -z '' @ [dquote] @ ''$failed'' @ [dquote] @ '' ] || '') @ systemctl (''reset-failed $failed'')])))"

definition delete_directory_command :: "string \<Rightarrow> thrown + string" where
  "delete_directory_command i =
     rbind (instance_dir i) (\<lambda>directory.
       Inr (with_deadline directory_kill_after_seconds directory_deadline_seconds
              ((''sh -c '' @ [quote_char] @ ''{ [ ! -e '') @ directory @ '' ] || chmod -R u+rwX -- '' @ directory @ ''; } && rm -rf -- ''
               @ directory @ [quote_char])))"

section \<open>Names that are ours\<close>

definition id_char :: "char \<Rightarrow> bool" where
  "id_char c \<longleftrightarrow> is_alnum c \<or> c = CHR ''_'' \<or> c = CHR ''-''"

text \<open>\<open>/^open-mcc(?:-sleep-(?:stop|start)|-auth)?@[A-Za-z0-9_-]{0,64}\.(?:service|timer)$/\<close>\<close>

definition managed_prefixes :: "string list" where
  "managed_prefixes = [''open-mcc-sleep-stop@'', ''open-mcc-sleep-start@'', ''open-mcc-auth@'', ''open-mcc@'']"

definition managed_rest :: "string \<Rightarrow> bool" where
  "managed_rest s \<longleftrightarrow>
     length (takeWhile id_char s) \<le> 64 \<and> dropWhile id_char s \<in> {''.service'', ''.timer''}"

definition is_managed_unit :: "string \<Rightarrow> bool" where
  "is_managed_unit name = list_ex (\<lambda>p. starts_with name p \<and> managed_rest (drop (length p) name)) managed_prefixes"

text \<open>\<open>/^open-mcc-(?:auth-)?([A-Za-z0-9_-]{1,64})$/\<close>, its group when it matches.\<close>

definition container_id_ok :: "string \<Rightarrow> bool" where
  "container_id_ok s \<longleftrightarrow> 1 \<le> length s \<and> length s \<le> 64 \<and> list_all id_char s"

definition managed_container :: "string \<Rightarrow> string option" where
  "managed_container name =
     (if \<not> starts_with name ''open-mcc-'' then None
      else (let rest = drop 9 name in
        if starts_with rest ''auth-'' \<and> container_id_ok (drop 5 rest) then Some (drop 5 rest)
        else if container_id_ok rest then Some rest else None))"

section \<open>The teardown of a host\<close>

definition teardown_timeout_ms :: nat where "teardown_timeout_ms = 20000"
definition containers_timeout_ms :: nat where "containers_timeout_ms = 60000"
definition image_timeout_ms :: nat where "image_timeout_ms = 15000"
definition files_timeout_ms :: nat where "files_timeout_ms = 60000"

definition pinned_images :: string where
  "pinned_images =
     join_with '' '' (map (\<lambda>a. case runtime_image_for (Build a) of None \<Rightarrow> [] | Some i \<Rightarrow> podman_image_id i) [Arm64, X64])"

definition bot_units :: string where
  "bot_units = join_with '' '' (map shell_quote [''open-mcc@*.service'', ''open-mcc-auth@*.service''])"

record teardown_report =
  td_unitsRemoved :: "string list"
  td_directoryRemoved :: bool
  td_lingeringLeft :: bool
  td_remaining :: "string list"

definition lines_of :: "string \<Rightarrow> string list" where
  "lines_of output = filter (\<lambda>l. l \<noteq> []) (map trim (split_on lf output))"

definition list_units_command :: string where
  "list_units_command = ''ls -1 '' @ unit_dir @ '' 2>/dev/null || true''"

definition list_containers_command :: string where
  "list_containers_command = podman ((''ps -a --format '' @ [quote_char] @ ''{{.Names}}'' @ [quote_char]))"

definition running_units_command :: string where
  "running_units_command =
     systemctl (''list-units --plain --no-legend --state='' @ join_with '','' running_unit_states @ '' ''
                @ shell_quote ''open-mcc*'')"

definition disable_unit_command :: "string \<Rightarrow> string" where
  "disable_unit_command u = systemctl (''disable --now '' @ shell_quote u) @ '' || true''"

definition remove_unit_command :: "string \<Rightarrow> string" where
  "remove_unit_command u = ''rm -f '' @ unit_dir @ ''/'' @ shell_quote u"

definition stop_bots_command :: string where "stop_bots_command = systemctl (''stop '' @ bot_units)"

definition remove_listed_command :: "string list \<Rightarrow> string" where
  "remove_listed_command names = with_deadline 5 50 (''podman rm -f --ignore '' @ join_with '' '' names)"

definition reset_failed_command :: string where
  "reset_failed_command = systemctl ''reset-failed'' @ '' || true''"

definition remove_images_command :: string where
  "remove_images_command = with_deadline 3 10 (''podman rmi --ignore '' @ pinned_images)"

definition delete_root_command :: string where
  "delete_root_command =
     with_deadline 5 50
       ((''sh -c '' @ [quote_char] @ ''{ [ ! -e '') @ instances_root @ '' ] || chmod -R u+rwX -- '' @ instances_root
        @ ''; } && rm -rf -- '' @ instances_root @ [quote_char])"

definition managed_units_in :: "exec_result \<Rightarrow> string list" where
  "managed_units_in r = filter is_managed_unit (lines_of (er_stdout r))"

definition containers_in :: "exec_result \<Rightarrow> string list option" where
  "containers_in r =
     (if er_exitCode r \<noteq> 0 then None
      else Some (filter (\<lambda>name. managed_container name \<noteq> None) (lines_of (er_stdout r))))"

text \<open>\<open>line.split(/\s+/)[0]\<close> of a trimmed line.\<close>

definition running_in :: "exec_result \<Rightarrow> nat option" where
  "running_in r =
     (if er_exitCode r \<noteq> 0 then None
      else Some (length (filter (\<lambda>l. is_managed_unit (takeWhile (\<lambda>c. \<not> is_space c) l)) (lines_of (er_stdout r)))))"

definition list_managed_units :: "'w host_transport \<Rightarrow> ('w, string list) io" where
  "list_managed_units transport =
     io_bind (tp_exec transport list_units_command teardown_timeout_ms None) (\<lambda>r. io_return (managed_units_in r))"

definition list_containers :: "'w host_transport \<Rightarrow> ('w, string list option) io" where
  "list_containers transport =
     io_bind (tp_exec transport list_containers_command teardown_timeout_ms None) (\<lambda>r. io_return (containers_in r))"

definition count_running_units :: "'w host_transport \<Rightarrow> ('w, nat option) io" where
  "count_running_units transport =
     io_bind (tp_exec transport running_units_command teardown_timeout_ms None) (\<lambda>r. io_return (running_in r))"

text \<open>A command whose answer is not looked at.\<close>

definition run_only :: "'w host_transport \<Rightarrow> nat \<Rightarrow> string \<Rightarrow> ('w, unit) io" where
  "run_only transport timeoutMs command = io_bind (tp_exec transport command timeoutMs None) (\<lambda>_. io_return ())"

text \<open>What each part leaves to say.\<close>

definition containers_remaining :: "string list option \<Rightarrow> string list" where
  "containers_remaining left =
     (case left of
        None \<Rightarrow> [''The containers could not be listed'']
      | Some names \<Rightarrow> if names = [] then [] else [nat_string (length names) @ '' container(s) still present''])"

definition running_remaining :: "nat option \<Rightarrow> string list" where
  "running_remaining running =
     (case running of
        None \<Rightarrow> [''The running units could not be listed'']
      | Some n \<Rightarrow> if 0 < n then [nat_string n @ '' unit(s) still running''] else [])"

definition files_remaining :: "exec_result \<Rightarrow> exec_result \<Rightarrow> string list \<Rightarrow> string list" where
  "files_remaining img deleted leftover =
     (if er_exitCode img \<noteq> 0 then [''The runtime image could not be removed''] else [])
     @ (if er_exitCode deleted \<noteq> 0 then [''~/'' @ instances_path @ '' could not be removed''] else [])
     @ map (\<lambda>u. u @ '' is still installed'') leftover"

definition tear_down_running ::
    "'w host_transport \<Rightarrow> string list \<Rightarrow> ('w, string list) io" where
  "tear_down_running transport units =
     io_bind (io_for units (\<lambda>u. run_only transport teardown_timeout_ms (disable_unit_command u))) (\<lambda>_.
     io_bind (run_only transport unit_stop_timeout_ms stop_bots_command) (\<lambda>_.
     io_bind (list_containers transport) (\<lambda>containers.
     io_bind (case containers of
                None \<Rightarrow> io_return ()
              | Some names \<Rightarrow>
                  if names = [] then io_return ()
                  else run_only transport containers_timeout_ms (remove_listed_command names)) (\<lambda>_.
     io_bind (list_containers transport) (\<lambda>left.
     io_bind (count_running_units transport) (\<lambda>running.
     io_return (containers_remaining left @ running_remaining running)))))))"

definition tear_down_files ::
    "'w host_transport \<Rightarrow> string list \<Rightarrow> ('w, bool \<times> bool \<times> string list) io" where
  "tear_down_files transport units =
     io_bind (io_for units (\<lambda>u. run_only transport teardown_timeout_ms (remove_unit_command u))) (\<lambda>_.
     io_bind (run_only transport teardown_timeout_ms (systemctl ''daemon-reload'')) (\<lambda>_.
     io_bind (run_only transport teardown_timeout_ms reset_failed_command) (\<lambda>_.
     io_bind (tp_exec transport remove_images_command image_timeout_ms None) (\<lambda>img.
     io_bind (tp_exec transport delete_root_command files_timeout_ms None) (\<lambda>deleted.
     io_bind (list_managed_units transport) (\<lambda>leftover.
     io_bind (tp_exec transport linger_query teardown_timeout_ms None) (\<lambda>lingering.
     io_return (er_exitCode deleted = 0, trim (er_stdout lingering) = ''yes'',
                files_remaining img deleted leftover))))))))"

definition tear_down_host :: "'w host_transport \<Rightarrow> ('w, teardown_report) io" where
  "tear_down_host transport =
     io_bind (list_managed_units transport) (\<lambda>units.
     io_bind (tear_down_running transport units) (\<lambda>running.
     io_bind (tear_down_files transport units) (\<lambda>(directoryRemoved, lingeringLeft, files).
     io_return \<lparr>td_unitsRemoved = units, td_directoryRemoved = directoryRemoved, td_lingeringLeft = lingeringLeft,
                td_remaining = running @ files\<rparr>)))"

section \<open>The job\<close>

definition not_fully_cleaned :: string where
  "not_fully_cleaned = ''Some of what was installed is still on the host.''"
definition cleaning_stopped :: string where "cleaning_stopped = ''Cleaning stopped before it finished.''"
definition could_not_reach :: string where "could_not_reach = ''Could not reach the host to clean it''"
definition key_is_gone :: string where
  "key_is_gone = ''The SSH key for this host is gone, so it cannot be reached to clean it.''"

record teardown_payload =
  tl_hostId :: ident
  tl_hostname :: string
  tl_port :: string
  tl_username :: string
  tl_sshKeyId :: ident
  tl_hostKeyFingerprint :: string
  tl_organizationId :: ident

definition read_teardown_payload :: "json \<Rightarrow> teardown_payload option" where
  "read_teardown_payload data =
     (case as_record data of
        None \<Rightarrow> None
      | Some rec \<Rightarrow>
          (let f = (\<lambda>k. as_string (map_of rec k)) in
           case (f ''hostId'', f ''hostname'', f ''port'', f ''username'') of
             (Some i, Some h, Some p, Some u) \<Rightarrow>
               (case (f ''sshKeyId'', f ''hostKeyFingerprint'', f ''organizationId'') of
                  (Some k, Some fp, Some org) \<Rightarrow>
                    Some \<lparr>tl_hostId = i, tl_hostname = h, tl_port = p, tl_username = u, tl_sshKeyId = k,
                          tl_hostKeyFingerprint = fp, tl_organizationId = org\<rparr>
                | _ \<Rightarrow> None)
           | _ \<Rightarrow> None))"

text \<open>
  What the worker passes in: the sealed box, an SSH transport whose \<open>connect\<close> takes the port as
  \<open>parseInt\<close> read it, and the codes an error carries.
\<close>

record 'q teardown_services =
  ts_transport :: "'q fleet_db host_transport"
  ts_connect :: "string \<Rightarrow> int option \<Rightarrow> string \<Rightarrow> string \<Rightarrow> string \<Rightarrow> nat \<Rightarrow> ('q, unit) fleet"
  ts_close :: "('q, unit) fleet"
  ts_open :: "string \<Rightarrow> string \<Rightarrow> thrown + string"
  ts_marks :: "thrown \<Rightarrow> error_marks"

definition open_key :: "'q teardown_services \<Rightarrow> ident \<Rightarrow> ident \<Rightarrow> ('q, string option) fleet" where
  "open_key sv org sshKeyId db =
     (case find_ssh_key org sshKeyId db of
        None \<Rightarrow> (Inr None, db)
      | Some key \<Rightarrow>
          (case ts_open sv (sk_privateKeyEncrypted key) (sk_privateKeyKeyId key) of
             Inl e \<Rightarrow> (Inl e, db)
           | Inr privateKey \<Rightarrow> (Inr (Some privateKey), db)))"

definition teardown_summary :: "teardown_report \<Rightarrow> (string \<times> string) list" where
  "teardown_summary report =
     (let said = (\<lambda>b. if b then ''true'' else ''false'') in
      [(''unitsRemoved'', nat_string (length (td_unitsRemoved report))),
       (''directoryRemoved'', said (td_directoryRemoved report)), (''lingeringLeft'', said (td_lingeringLeft report))])"

definition on_cleaned :: "ident \<Rightarrow> ident \<Rightarrow> (string \<times> string) list \<Rightarrow> (('q, 'm) fleet_db_scheme, unit) io" where
  "on_cleaned hostId org summary =
     io_bind (io_catch (io_bind (audit_record org
         \<lparr>ae_actorId = None, ae_actorLabel = ''worker'', ae_action = ''host.teardown'', ae_subjectType = ''host'',
          ae_subjectId = hostId, ae_detail = summary\<rparr>) (\<lambda>_. io_return ())) (\<lambda>_. io_return ())) (\<lambda>_.
     io_bind (delete_after_teardown hostId org) (\<lambda>_. io_return ()))"

definition on_failed :: "teardown_payload \<Rightarrow> string \<Rightarrow> ('q, 'm) fleet_db_scheme \<Rightarrow> ('q, 'm) fleet_db_scheme" where
  "on_failed p reason = record_teardown_failure (tl_hostId p) (tl_organizationId p) reason"

definition unreached_reason :: "(thrown \<Rightarrow> error_marks) \<Rightarrow> thrown \<Rightarrow> string" where
  "unreached_reason marks e =
     (case e of Thrown c m \<Rightarrow> connect_failure_reason (marks e) m | ThrownValue \<Rightarrow> could_not_reach)"

text \<open>The cleaning over a transport that is connected.\<close>

definition clean_connected :: "'q teardown_services \<Rightarrow> teardown_payload \<Rightarrow> ('q, unit) fleet" where
  "clean_connected sv p db =
     (case tear_down_host (ts_transport sv) db of
        (Inl e, db') \<Rightarrow> (Inl e, on_failed p cleaning_stopped db')
      | (Inr report, db') \<Rightarrow>
          if td_remaining report \<noteq> [] then (Inl (internal_error not_fully_cleaned), on_failed p not_fully_cleaned db')
          else (case on_cleaned (tl_hostId p) (tl_organizationId p) (teardown_summary report) db' of
                  (Inl e, db'') \<Rightarrow> (Inl e, on_failed p cleaning_stopped db'')
                | (Inr _, db'') \<Rightarrow> (Inr (), db'')))"

definition host_teardown_job :: "'q teardown_services \<Rightarrow> json \<Rightarrow> ('q, unit) fleet" where
  "host_teardown_job sv data db0 =
     (case read_teardown_payload data of
        None \<Rightarrow> (Inr (), db0)
      | Some p \<Rightarrow>
          (case open_key sv (tl_organizationId p) (tl_sshKeyId p) db0 of
             (Inl e, db) \<Rightarrow> (Inl e, db)
           | (Inr None, db) \<Rightarrow>
               (Inl (internal_error (''Ssh key '' @ tl_sshKeyId p @ '' is gone; cannot clean the host'')),
                on_failed p key_is_gone db)
           | (Inr (Some privateKey), db) \<Rightarrow>
               (case ts_connect sv (tl_hostname p) (parse_int10 (tl_port p)) (tl_username p) privateKey
                       (tl_hostKeyFingerprint p) connect_timeout_ms db of
                  (Inl e, db') \<Rightarrow> (Inl e, on_failed p (unreached_reason (ts_marks sv) e) db')
                | (Inr _, db') \<Rightarrow>
                    (case clean_connected sv p db' of (r, db'') \<Rightarrow> (r, snd (ts_close sv db''))))))"

end
