(* ===== verification/TeardownSafety.thy ===== *)
theory TeardownSafety
  imports Teardown ProvisionSafety HostSteps
begin

text \<open>
  What a teardown runs on a host and in which order, what its report means, and what the job makes of
  it.
\<close>

section \<open>Only what is ours is named\<close>

lemma managed_unit_chars:
  assumes "is_managed_unit name" and "c \<in> set name"
  shows "id_char c \<or> c = CHR ''@'' \<or> c = CHR ''.''"
proof -
  obtain p where p: "p \<in> set managed_prefixes" "starts_with name p" "managed_rest (drop (length p) name)"
    using assms(1) by (auto simp: is_managed_unit_def list_ex_iff)
  obtain r where name: "name = p @ r" using p(2) by (auto simp: starts_with_iff)
  have prefix: "list_all (\<lambda>c. id_char c \<or> c = CHR ''@'') p"
    using p(1) by (auto simp: managed_prefixes_def id_char_def is_alnum_def is_alpha_def)
  have end_: "dropWhile id_char r \<in> {''.service'', ''.timer''}" using p(3) name by (simp add: managed_rest_def)
  have rest: "list_all (\<lambda>c. id_char c \<or> c = CHR ''.'') (dropWhile id_char r)"
    using end_ by (auto simp: id_char_def is_alnum_def is_alpha_def)
  have "set r = set (takeWhile id_char r) \<union> set (dropWhile id_char r)"
    by (metis set_append takeWhile_dropWhile_id)
  then show ?thesis
    using assms(2) prefix rest set_takeWhileD [of c id_char r] unfolding name list_all_iff by auto
qed

lemma managed_container_chars: "managed_container name = Some i \<Longrightarrow> container_id_ok i \<and> (name = ''open-mcc-'' @ i \<or> name = ''open-mcc-auth-'' @ i)"
  by (auto simp: managed_container_def Let_def starts_with_iff split: if_splits)

text \<open>The commands a teardown may run.\<close>

definition teardown_command :: "string \<Rightarrow> bool" where
  "teardown_command c \<longleftrightarrow>
     c \<in> {list_units_command, stop_bots_command, list_containers_command, running_units_command, systemctl ''daemon-reload'',
           reset_failed_command, remove_images_command, delete_root_command, linger_query}
     \<or> (\<exists>u. is_managed_unit u \<and> (c = disable_unit_command u \<or> c = remove_unit_command u))
     \<or> (\<exists>names. names \<noteq> [] \<and> (\<forall>n \<in> set names. managed_container n \<noteq> None) \<and> c = remove_listed_command names)"

lemma managed_units_in_managed: "u \<in> set (managed_units_in r) \<Longrightarrow> is_managed_unit u"
  by (simp add: managed_units_in_def)

lemma containers_in_managed: "containers_in r = Some names \<Longrightarrow> n \<in> set names \<Longrightarrow> managed_container n \<noteq> None"
  by (auto simp: containers_in_def split: if_splits)

context world_kept
begin

lemma keeps_for:
  assumes "\<And>x. x \<in> set xs \<Longrightarrow> keeps (f x)"
  shows "keeps (io_for xs f)"
  using assms
proof (induction xs)
  case Nil
  then show ?case by (simp add: keeps_def kept_refl)
next
  case (Cons x xs)
  have "io_for (x # xs) f = io_bind (f x) (\<lambda>_. io_for xs f)"
    by (rule ext) (simp add: io_bind_def split: prod.split sum.split)
  then show ?case using Cons by (simp add: keeps_io)
qed

lemma keeps_run_only:
  assumes "\<And>t i. keeps (tp_exec transport c t i)"
  shows "keeps (run_only transport t c)"
  unfolding run_only_def by (intro keeps_io assms)

lemma keeps_tear_down:
  assumes "\<And>c t i. teardown_command c \<Longrightarrow> keeps (tp_exec transport c t i)"
  shows "keeps (tear_down_host transport)"
proof -
  have fixed: "teardown_command list_units_command" "teardown_command stop_bots_command"
      "teardown_command list_containers_command" "teardown_command running_units_command"
      "teardown_command (systemctl ''daemon-reload'')" "teardown_command reset_failed_command"
      "teardown_command remove_images_command" "teardown_command delete_root_command" "teardown_command linger_query"
    by (simp_all add: teardown_command_def)
  have unit: "teardown_command (disable_unit_command u)" "teardown_command (remove_unit_command u)" if "is_managed_unit u" for u
    using that by (auto simp: teardown_command_def)
  have run: "keeps (run_only transport t c)" if "teardown_command c" for t c
    unfolding run_only_def by (intro keeps_io assms that)
  have units: "keeps (io_bind (list_managed_units transport) f)" if "\<And>us. (\<forall>u \<in> set us. is_managed_unit u) \<Longrightarrow> keeps (f us)"
    for f :: "string list \<Rightarrow> ('w, 'y) io"
  proof -
    have "io_bind (list_managed_units transport) f =
        io_bind (tp_exec transport list_units_command teardown_timeout_ms None) (\<lambda>r. f (managed_units_in r))"
      by (rule ext) (simp add: list_managed_units_def io_simps split: prod.split sum.split)
    then show ?thesis by (simp add: keeps_io assms fixed that managed_units_in_def)
  qed
  have containers: "keeps (io_bind (list_containers transport) f)"
    if "\<And>names. (\<forall>ns. names = Some ns \<longrightarrow> (\<forall>n \<in> set ns. managed_container n \<noteq> None)) \<Longrightarrow> keeps (f names)"
    for f :: "string list option \<Rightarrow> ('w, 'y) io"
  proof -
    have "io_bind (list_containers transport) f =
        io_bind (tp_exec transport list_containers_command teardown_timeout_ms None) (\<lambda>r. f (containers_in r))"
      by (rule ext) (simp add: list_containers_def io_simps split: prod.split sum.split)
    then show ?thesis using containers_in_managed by (auto intro!: keeps_io assms fixed that)
  qed
  have counted: "keeps (count_running_units transport)"
    unfolding count_running_units_def by (intro keeps_io assms fixed)
  have removed: "keeps (case names of None \<Rightarrow> io_return () | Some ns \<Rightarrow>
      if ns = [] then io_return () else run_only transport containers_timeout_ms (remove_listed_command ns))"
    if "\<forall>ns. names = Some ns \<longrightarrow> (\<forall>n \<in> set ns. managed_container n \<noteq> None)" for names
    using that by (cases names) (auto intro!: keeps_io run simp: teardown_command_def)
  have running: "keeps (tear_down_running transport us)" if "\<forall>u \<in> set us. is_managed_unit u" for us
    unfolding tear_down_running_def
    by (intro keeps_io keeps_for run unit fixed containers removed counted) (use that in auto)
  have files: "keeps (tear_down_files transport us)" if "\<forall>u \<in> set us. is_managed_unit u" for us
    unfolding tear_down_files_def
    by (intro keeps_io keeps_for run unit fixed units assms) (use that in auto)
  show ?thesis
    unfolding tear_down_host_def case_prod_beta by (intro units keeps_io running files) auto
qed

end

definition adds_only :: "(string \<Rightarrow> bool) \<Rightarrow> 'w \<times> host_log \<Rightarrow> 'w \<times> host_log \<Rightarrow> bool" where
  "adds_only ok u v \<longleftrightarrow> (\<exists>es. snd v = snd u @ es \<and> (\<forall>e \<in> set es. ok (fst e)))"

interpretation adds_kept: world_kept "adds_only ok" for ok
proof
  fix u v w :: "'a \<times> host_log"
  show "adds_only ok w w" by (simp add: adds_only_def)
  assume "adds_only ok u v" "adds_only ok v w"
  then obtain es es2 where "snd v = snd u @ es" "\<forall>e \<in> set es. ok (fst e)" "snd w = snd v @ es2" "\<forall>e \<in> set es2. ok (fst e)"
    unfolding adds_only_def by blast
  then show "adds_only ok u w" unfolding adds_only_def by (intro exI [of _ "es @ es2"]) auto
qed

abbreviation tearing :: "('w \<times> host_log \<Rightarrow> 'x \<times> 'w \<times> host_log) \<Rightarrow> bool" where
  "tearing \<equiv> adds_kept.keeps teardown_command"

lemma tearing_exec: "teardown_command c \<Longrightarrow> tearing (tp_exec (logged transport) c t i)"
  by (auto simp: adds_kept.keeps_def adds_only_def logged_def split: prod.splits)

lemma teardown_commands_only:
  assumes "tear_down_host (logged transport) (w, []) = (outcome, (w', trace))"
  shows "\<forall>e \<in> set trace. teardown_command (fst e)"
proof -
  have "tearing (tear_down_host (logged transport))" by (rule adds_kept.keeps_tear_down) (rule tearing_exec)
  from adds_kept.keepsD [OF this, of "(w, [])"] show ?thesis using assms by (auto simp: adds_only_def)
qed

section \<open>What a teardown that ends ran\<close>

lemma logged_exec:
  assumes "tp_exec (logged transport) c t i s = (Inr r, s')"
  obtains "snd s' = snd s @ [(c, Inr r)]"
  using assms by (auto simp: logged_def split: prod.splits)

lemma logged_run_only:
  assumes "run_only (logged transport) t c s = (Inr u, s')"
  obtains r where "snd s' = snd s @ [(c, Inr r)]"
  using assms unfolding run_only_def by (elim io_bindE) (auto simp: io_simps elim: logged_exec)

lemma logged_each:
  assumes "io_for xs (\<lambda>x. run_only (logged transport) t (c x)) s = (Inr u, s')"
  obtains es where "snd s' = snd s @ es" "map fst es = map c xs"
  using assms
proof (induction xs arbitrary: s thesis)
  case Nil
  then show ?case by simp
next
  case (Cons x xs)
  from Cons.prems(2) obtain v s1 where one: "run_only (logged transport) t (c x) s = (Inr v, s1)"
    and rest: "io_for xs (\<lambda>x. run_only (logged transport) t (c x)) s1 = (Inr u, s')"
    by (auto split: prod.splits sum.splits)
  obtain r where r: "snd s1 = snd s @ [(c x, Inr r)]" using one by (rule logged_run_only)
  obtain es where "snd s' = snd s1 @ es" "map fst es = map c xs" using Cons.IH [OF _ rest] by blast
  then show ?case using Cons.prems(1) [of "(c x, Inr r) # es"] r by simp
qed

lemma logged_units:
  assumes "list_managed_units (logged transport) s = (Inr us, s')"
  obtains r where "snd s' = snd s @ [(list_units_command, Inr r)]" "us = managed_units_in r"
  using assms unfolding list_managed_units_def by (elim io_bindE) (auto simp: io_simps elim: logged_exec)

lemma logged_containers:
  assumes "list_containers (logged transport) s = (Inr names, s')"
  obtains r where "snd s' = snd s @ [(list_containers_command, Inr r)]" "names = containers_in r"
  using assms unfolding list_containers_def by (elim io_bindE) (auto simp: io_simps elim: logged_exec)

lemma logged_running:
  assumes "count_running_units (logged transport) s = (Inr n, s')"
  obtains r where "snd s' = snd s @ [(running_units_command, Inr r)]" "n = running_in r"
  using assms unfolding count_running_units_def by (elim io_bindE) (auto simp: io_simps elim: logged_exec)

text \<open>The answers a teardown reads, and the commands it runs given them.\<close>

record teardown_answers =
  ta_listed :: exec_result
  ta_seen :: exec_result
  ta_left :: exec_result
  ta_running :: exec_result
  ta_image :: exec_result
  ta_deleted :: exec_result
  ta_leftover :: exec_result
  ta_lingering :: exec_result

definition stopping_commands :: "teardown_answers \<Rightarrow> string list" where
  "stopping_commands a =
     map disable_unit_command (managed_units_in (ta_listed a)) @ [stop_bots_command, list_containers_command]
     @ (case containers_in (ta_seen a) of None \<Rightarrow> [] | Some names \<Rightarrow> if names = [] then [] else [remove_listed_command names])"

definition unit_commands :: "teardown_answers \<Rightarrow> string list" where
  "unit_commands a =
     map remove_unit_command (managed_units_in (ta_listed a)) @ [systemctl ''daemon-reload'', reset_failed_command]"

text \<open>
  A log of a teardown: it lists the units, stops what runs, looks what is left of the containers and
  units, takes the unit files away, and looks at the rest.
\<close>

definition teardown_log :: "teardown_answers \<Rightarrow> host_log \<Rightarrow> bool" where
  "teardown_log a l \<longleftrightarrow>
     (\<exists>stopping removing.
        l = (list_units_command, Inr (ta_listed a)) # stopping
            @ [(list_containers_command, Inr (ta_left a)), (running_units_command, Inr (ta_running a))] @ removing
            @ [(remove_images_command, Inr (ta_image a)), (delete_root_command, Inr (ta_deleted a)),
               (list_units_command, Inr (ta_leftover a)), (linger_query, Inr (ta_lingering a))] \<and>
        map fst stopping = stopping_commands a \<and> map fst removing = unit_commands a)"

definition host_clean :: "teardown_answers \<Rightarrow> bool" where
  "host_clean a \<longleftrightarrow>
     containers_in (ta_left a) = Some [] \<and> running_in (ta_running a) = Some 0 \<and> er_exitCode (ta_image a) = 0 \<and>
     er_exitCode (ta_deleted a) = 0 \<and> managed_units_in (ta_leftover a) = []"

definition report_of :: "teardown_answers \<Rightarrow> teardown_report" where
  "report_of a =
     \<lparr>td_unitsRemoved = managed_units_in (ta_listed a), td_directoryRemoved = (er_exitCode (ta_deleted a) = 0),
      td_lingeringLeft = (trim (er_stdout (ta_lingering a)) = ''yes''),
      td_remaining = containers_remaining (containers_in (ta_left a)) @ running_remaining (running_in (ta_running a))
        @ files_remaining (ta_image a) (ta_deleted a) (managed_units_in (ta_leftover a))\<rparr>"

lemma clean_iff_nothing_remains: "td_remaining (report_of a) = [] \<longleftrightarrow> host_clean a"
  by (auto simp: report_of_def host_clean_def containers_remaining_def running_remaining_def files_remaining_def
      split: option.splits if_splits)

lemma logged_removal:
  assumes "(case names of None \<Rightarrow> io_return () | Some ns \<Rightarrow>
          if ns = [] then io_return () else run_only (logged transport) t (remove_listed_command ns)) s = (Inr x, s')"
  obtains es where "snd s' = snd s @ es"
    "map fst es = (case names of None \<Rightarrow> [] | Some ns \<Rightarrow> if ns = [] then [] else [remove_listed_command ns])"
proof (cases "names = None \<or> names = Some []")
  case True
  then show thesis using assms that [of "[]"] by (auto simp: io_simps)
next
  case False
  then obtain ns where "names = Some ns" "ns \<noteq> []" by auto
  then show thesis using assms that by (auto elim!: logged_run_only)
qed

lemma teardown_running_ran:
  assumes "tear_down_running (logged transport) us s = (Inr said, s')"
  obtains seen left running es where
    "map fst es = map disable_unit_command us @ [stop_bots_command, list_containers_command]
       @ (case containers_in seen of None \<Rightarrow> [] | Some names \<Rightarrow> if names = [] then [] else [remove_listed_command names])"
    "snd s' = snd s @ es @ [(list_containers_command, Inr left), (running_units_command, Inr running)]"
    "said = containers_remaining (containers_in left) @ running_remaining (running_in running)"
  using assms unfolding tear_down_running_def
  apply (elim io_bindE logged_each logged_run_only logged_containers logged_running logged_removal)
  subgoal for u1 s1 u2 s2 names s3 u3 s4 left s5 n s6 es r seen lr rr es2
    by (rule that [of "es @ (stop_bots_command, Inr r) # (list_containers_command, Inr seen) # es2" seen lr rr])
      (simp_all add: io_simps)
  done

lemma teardown_files_ran:
  assumes "tear_down_files (logged transport) us s = (Inr (gone, lingers, said), s')"
  obtains img deleted leftover lingering es where
    "map fst es = map remove_unit_command us @ [systemctl ''daemon-reload'', reset_failed_command]"
    "snd s' = snd s @ es @ [(remove_images_command, Inr img), (delete_root_command, Inr deleted),
                            (list_units_command, Inr leftover), (linger_query, Inr lingering)]"
    "gone = (er_exitCode deleted = 0)" "lingers = (trim (er_stdout lingering) = ''yes'')"
    "said = files_remaining img deleted (managed_units_in leftover)"
  using assms unfolding tear_down_files_def
  apply (elim io_bindE logged_each logged_run_only logged_units logged_exec)
  subgoal for u1 s1 u2 s2 u3 s3 img s4 deleted s5 names s6 lingering s7 es r1 r2 leftover
    by (rule that [of "es @ [(systemctl ''daemon-reload'', Inr r1), (reset_failed_command, Inr r2)]" img deleted leftover lingering])
      (simp_all add: io_simps)
  done

lemma teardown_ran:
  assumes "tear_down_host (logged transport) (w, []) = (Inr report, (w', trace))"
  obtains a where "teardown_log a trace" "report = report_of a"
proof -
  from assms obtain us s1 said s2 gone lingers files s3 where
      listing: "list_managed_units (logged transport) (w, []) = (Inr us, s1)"
    and running: "tear_down_running (logged transport) us s1 = (Inr said, s2)"
    and removing: "tear_down_files (logged transport) us s2 = (Inr (gone, lingers, files), s3)"
    and made: "report = \<lparr>td_unitsRemoved = us, td_directoryRemoved = gone, td_lingeringLeft = lingers, td_remaining = said @ files\<rparr>"
      "s3 = (w', trace)"
    unfolding tear_down_host_def by (elim io_bindE) (auto simp: io_simps)
  obtain listed where l: "snd s1 = [(list_units_command, Inr listed)]" "us = managed_units_in listed"
    using listing by (elim logged_units) simp
  obtain seen left run es where r: "map fst es = map disable_unit_command us @ [stop_bots_command, list_containers_command]
       @ (case containers_in seen of None \<Rightarrow> [] | Some names \<Rightarrow> if names = [] then [] else [remove_listed_command names])"
    "snd s2 = snd s1 @ es @ [(list_containers_command, Inr left), (running_units_command, Inr run)]"
    "said = containers_remaining (containers_in left) @ running_remaining (running_in run)"
    using running by (rule teardown_running_ran)
  obtain img deleted leftover lingering fs where f: "map fst fs = map remove_unit_command us @ [systemctl ''daemon-reload'', reset_failed_command]"
    "snd s3 = snd s2 @ fs @ [(remove_images_command, Inr img), (delete_root_command, Inr deleted),
                            (list_units_command, Inr leftover), (linger_query, Inr lingering)]"
    "gone = (er_exitCode deleted = 0)" "lingers = (trim (er_stdout lingering) = ''yes'')"
    "files = files_remaining img deleted (managed_units_in leftover)"
    using removing by (rule teardown_files_ran)
  let ?a = "\<lparr>ta_listed = listed, ta_seen = seen, ta_left = left, ta_running = run, ta_image = img, ta_deleted = deleted,
             ta_leftover = leftover, ta_lingering = lingering\<rparr>"
  have "teardown_log ?a trace"
    unfolding teardown_log_def using l r f made(2)
    by (intro exI [of _ es] exI [of _ fs]) (simp add: stopping_commands_def unit_commands_def)
  moreover have "report = report_of ?a" using l r f made(1) by (simp add: report_of_def)
  ultimately show thesis by (rule that)
qed

section \<open>The job\<close>

text \<open>A transport beside the tables: no call of it changes them.\<close>

definition beside_tables :: "'q teardown_services \<Rightarrow> bool" where
  "beside_tables sv \<longleftrightarrow>
     (\<forall>c t i db. snd (tp_exec (ts_transport sv) c t i db) = db) \<and>
     (\<forall>h p u k f t db. snd (ts_connect sv h p u k f t db) = db) \<and> (\<forall>db. snd (ts_close sv db) = db)"

interpretation same_kept: world_kept "(=)"
  by unfold_locales simp_all

lemma teardown_beside: "beside_tables sv \<Longrightarrow> snd (tear_down_host (ts_transport sv) db) = db"
  using same_kept.keeps_tear_down [of "ts_transport sv"] by (simp add: same_kept.keeps_def beside_tables_def)

lemma on_cleaned_rows:
  assumes "on_cleaned hostId org summary db = (r, db')"
  shows "r = Inr () \<and> hostRows db' = filter (\<lambda>h. \<not> (host_owned org hostId h \<and> ho_status h = HostRemoving)) (hostRows db)
     \<or> (\<exists>e. r = Inl e) \<and> hostRows db' = hostRows db"
  using assms
  by (auto simp: on_cleaned_def io_simps audit_record_def nanoid_def delete_after_teardown_def delete_hosts_def Let_def
      split: sum.splits prod.splits if_splits)

definition with_teardown_error :: "teardown_payload \<Rightarrow> string \<Rightarrow> host_row list \<Rightarrow> host_row list" where
  "with_teardown_error p reason =
     update_rows (host_owned (tl_organizationId p) (tl_hostId p)) (\<lambda>h. h\<lparr>ho_teardownError := Some (take 2000 reason)\<rparr>)"

lemma on_failed_rows: "hostRows (on_failed p reason db) = with_teardown_error p reason (hostRows db)"
  by (simp add: on_failed_def record_teardown_failure_def update_hosts_def with_teardown_error_def)

lemma clean_connected_rows:
  assumes "beside_tables sv" and "clean_connected sv p db = (r, db')"
  shows "(r = Inr () \<and> (\<exists>report. fst (tear_down_host (ts_transport sv) db) = Inr report \<and> td_remaining report = []) \<and>
       hostRows db' = filter (\<lambda>h. \<not> (host_owned (tl_organizationId p) (tl_hostId p) h \<and> ho_status h = HostRemoving)) (hostRows db))
     \<or> ((\<exists>e. r = Inl e) \<and> (\<exists>reason. hostRows db' = with_teardown_error p reason (hostRows db)))"
proof -
  obtain x where run: "tear_down_host (ts_transport sv) db = (x, db)" using teardown_beside [OF assms(1)] by (metis prod.collapse)
  show ?thesis
    using assms(2)
    by (cases x) (auto simp: clean_connected_def run on_failed_rows split: if_splits prod.splits sum.splits dest!: on_cleaned_rows)
qed

lemma host_teardown_job_rows:
  assumes "beside_tables sv" and "read_teardown_payload data = Some p"
    and "host_teardown_job sv data db = (r, db')"
  shows "(r = Inr () \<and> (\<exists>report. fst (tear_down_host (ts_transport sv) db) = Inr report \<and> td_remaining report = []) \<and>
       hostRows db' = filter (\<lambda>h. \<not> (host_owned (tl_organizationId p) (tl_hostId p) h \<and> ho_status h = HostRemoving)) (hostRows db))
     \<or> ((\<exists>e. r = Inl e) \<and> (\<exists>reason. hostRows db' = with_teardown_error p reason (hostRows db)))
     \<or> ((\<exists>e. open_key sv (tl_organizationId p) (tl_sshKeyId p) db = (Inl e, db) \<and> r = Inl e) \<and> db' = db)"
proof -
  have connect: "ts_connect sv h q u k f t db = (x, db1) \<Longrightarrow> db1 = db" for h q u k f t x db1
    using assms(1) unfolding beside_tables_def by (metis snd_conv)
  have close: "snd (ts_close sv u) = u" for u using assms(1) by (simp add: beside_tables_def)
  have opened: "snd (open_key sv org k db) = db" for org k
    by (auto simp: open_key_def split: option.splits sum.splits)
  obtain x where key: "open_key sv (tl_organizationId p) (tl_sshKeyId p) db = (x, db)" using opened by (metis prod.collapse)
  show ?thesis
  proof (cases x)
    case (Inl e)
    then show ?thesis using assms(2,3) key by (simp add: host_teardown_job_def)
  next
    case (Inr k)
    then show ?thesis
      using assms(2,3) key clean_connected_rows [OF assms(1), of p db]
      by (cases k) (auto simp: host_teardown_job_def on_failed_rows close split: prod.splits sum.splits dest!: connect)
  qed
qed

section \<open>The job is made of steps\<close>

definition teardown_services_step :: "'q teardown_services \<Rightarrow> bool" where
  "teardown_services_step sv \<longleftrightarrow>
     (\<forall>c t i. stepping (tp_exec (ts_transport sv) c t i)) \<and>
     (\<forall>h p u k f t. stepping (ts_connect sv h p u k f t)) \<and> stepping (ts_close sv)"

lemma stepping_on_cleaned: "stepping (on_cleaned hostId org summary)"
proof -
  have "stepping (audit_record org entry)" for entry
    by (rule stepping_beside) (auto simp: beside_hosts_def audit_record_def nanoid_def Let_def split: sum.splits)
  then show ?thesis
    unfolding on_cleaned_def delete_after_teardown_def by (intro stepping_rules)
qed

lemma steps_on_failed: "host_steps db (on_failed p reason db)"
  unfolding on_failed_def by (rule host_step_steps) (rule step_teardown_failure)

lemma stepping_clean_connected:
  assumes "teardown_services_step sv"
  shows "stepping (clean_connected sv p)"
  unfolding fleet_kept.keeps_def
proof
  fix db
  have down: "stepping (tear_down_host (ts_transport sv))"
    using assms by (intro fleet_kept.keeps_tear_down) (simp add: teardown_services_step_def)
  obtain r db1 where r: "tear_down_host (ts_transport sv) db = (r, db1)" by (metis prod.collapse)
  then have one: "host_steps db db1" using fleet_kept.keepsD [OF down] by (metis snd_conv)
  have two: "host_steps db1 (on_failed p reason db1)" for reason by (rule steps_on_failed)
  show "host_steps db (snd (clean_connected sv p db))"
  proof (cases r)
    case (Inl e)
    then show ?thesis using host_steps_trans [OF one two] by (simp add: clean_connected_def r)
  next
    case (Inr report)
    obtain x db2 where x: "on_cleaned (tl_hostId p) (tl_organizationId p) (teardown_summary report) db1 = (x, db2)"
      by (metis prod.collapse)
    have "host_steps db1 db2" using fleet_kept.keepsD [OF stepping_on_cleaned] x by (metis snd_conv)
    then have "host_steps db db2" using one host_steps_trans by blast
    then show ?thesis
      using Inr host_steps_trans [OF one two] host_steps_trans [OF \<open>host_steps db db2\<close> steps_on_failed]
      by (cases x) (simp_all add: clean_connected_def r x)
  qed
qed

lemma teardown_steps:
  assumes "teardown_services_step sv"
  shows "stepping (host_teardown_job sv data)"
  unfolding fleet_kept.keeps_def
proof
  fix db
  have connect: "host_steps u (snd (ts_connect sv h q n k f t u))" for h q n k f t u
    using assms unfolding teardown_services_step_def fleet_kept.keeps_def by blast
  have close: "host_steps u (snd (ts_close sv u))" for u
    using assms unfolding teardown_services_step_def fleet_kept.keeps_def by blast
  have opened: "snd (open_key sv org k u) = u" for org k u
    by (auto simp: open_key_def split: option.splits sum.splits)
  show "host_steps db (snd (host_teardown_job sv data db))"
  proof (cases "read_teardown_payload data")
    case (Some p)
    obtain x where key: "open_key sv (tl_organizationId p) (tl_sshKeyId p) db = (x, db)" using opened by (metis prod.collapse)
    show ?thesis
    proof (cases "\<exists>k. x = Inr (Some k)")
      case True
      then obtain k where k: "x = Inr (Some k)" ..
      let ?c = "ts_connect sv (tl_hostname p) (parse_int10 (tl_port p)) (tl_username p) k (tl_hostKeyFingerprint p) connect_timeout_ms db"
      obtain y db1 where y: "?c = (y, db1)" by (metis prod.collapse)
      then have one: "host_steps db db1" using connect by (metis snd_conv)
      have "host_steps db1 (snd (clean_connected sv p db1))" by (rule fleet_kept.keepsD [OF stepping_clean_connected [OF assms]])
      then have "host_steps db (snd (ts_close sv (snd (clean_connected sv p db1))))"
        using one close host_steps_trans by blast
      then show ?thesis
        using Some key k y host_steps_trans [OF one steps_on_failed]
        by (cases y) (simp_all add: host_teardown_job_def prod.case_eq_if)
    next
      case False
      then show ?thesis
        using Some key steps_on_failed
        by (cases x) (auto simp: host_teardown_job_def split: option.splits)
    qed
  qed (simp add: host_teardown_job_def)
qed

end
