(* ===== verification/HealthPoller.thy ===== *)
theory HealthPoller
  imports HostSteps Observer StatusMachine
begin

text \<open>
  The reading of hosts: a lease on a connection (\<open>host/host-reader.ts\<close>), what is observed over it
  (\<open>host/health.ts\<close>), one poll of all hosts (\<open>host/health-poller.ts\<close>), and the poll as
  \<open>apps/server/src/bootstrap.ts\<close> wires it to the tables.
\<close>

section \<open>Leases\<close>

text \<open>A reader of a pooled connection. What may happen to the tables during a call is in the call.\<close>

record 'w host_reader =
  hrd_exec :: "string \<Rightarrow> ('w, exec_result) io"
  hrd_release :: "'w \<Rightarrow> 'w"

datatype 'w host_read_lease =
    Leased "'w host_reader" host_row connection_identity | LeaseMissing | LeaseUnprovisioned | LeaseChanged

text \<open>
  The pool of connections, given the key, the identity, the deadline and how to open a connection of
  that identity.
\<close>

record 'q reader_services =
  rv_lease :: "string \<Rightarrow> connection_identity \<Rightarrow> nat \<Rightarrow> ('q, unit) fleet \<Rightarrow> ('q, 'q fleet_db host_reader) fleet"
  rv_connect :: "connect_options \<Rightarrow> ('q, unit) fleet"
  rv_open :: "string \<Rightarrow> string \<Rightarrow> thrown + string"
  rv_marks :: "thrown \<Rightarrow> error_marks"

definition host_read_key :: "ident \<Rightarrow> ident \<Rightarrow> string" where
  "host_read_key org hostId = org @ '':'' @ hostId"

definition open_connection :: "'q reader_services \<Rightarrow> ident \<Rightarrow> ident \<Rightarrow> connection_identity \<Rightarrow> ('q, unit) fleet" where
  "open_connection sv org hostId identity =
     io_bind (db_read (find_ssh_key org (ci_sshKeyId identity))) (\<lambda>found.
     io_bind (io_found found ''SshKeyGoneError'' (''Ssh key not found for host '' @ hostId)) (\<lambda>key.
     io_catch
       (io_bind (io_sum (rv_open sv (sk_privateKeyEncrypted key) (sk_privateKeyKeyId key))) (\<lambda>privateKey.
        rv_connect sv \<lparr>co_hostname = ci_hostname identity, co_port = ci_port identity, co_username = ci_username identity,
          co_privateKey = privateKey, co_expectedFingerprint = ci_hostKeyFingerprint identity,
          co_timeoutMs = connect_timeout_ms\<rparr>))
       (\<lambda>e. io_fail ''HostUnreachableError'' (unreachable_reason (rv_marks sv) e))))"

definition key_gone :: "thrown \<Rightarrow> bool" where
  "key_gone e = (case e of Thrown c m \<Rightarrow> c = ''SshKeyGoneError'' | ThrownValue \<Rightarrow> False)"

text \<open>After the wait for a connection the row is read again, and the lease stands only if it still says the same.\<close>

definition lease_host_reader ::
    "'q reader_services \<Rightarrow> ident \<Rightarrow> ident \<Rightarrow> nat \<Rightarrow> host_need \<Rightarrow> ('q, 'q fleet_db host_read_lease) fleet" where
  "lease_host_reader sv org hostId deadlineMs need db0 =
     (case find_host org hostId db0 of
        None \<Rightarrow> (Inr LeaseMissing, db0)
      | Some host \<Rightarrow>
          (case identity_of host of
             None \<Rightarrow> (Inr LeaseMissing, db0)
           | Some identity \<Rightarrow>
               if \<not> host_meets host need then (Inr LeaseUnprovisioned, db0)
               else (case rv_lease sv (host_read_key org hostId) identity deadlineMs
                            (open_connection sv org hostId identity) db0 of
                  (Inl e, db) \<Rightarrow> (if key_gone e then Inr LeaseMissing else Inl e, db)
                | (Inr reader, db) \<Rightarrow>
                    (case find_host org hostId db of
                       None \<Rightarrow> (Inr LeaseMissing, hrd_release reader db)
                     | Some current \<Rightarrow>
                         (case identity_of current of
                            None \<Rightarrow> (Inr LeaseMissing, hrd_release reader db)
                          | Some stillTrusted \<Rightarrow>
                              if \<not> host_meets current need then (Inr LeaseMissing, hrd_release reader db)
                              else if stillTrusted \<noteq> identity then (Inr LeaseChanged, hrd_release reader db)
                              else (Inr (Leased reader current stillTrusted), db))))))"

section \<open>What is observed\<close>

definition health_timeout_ms :: nat where "health_timeout_ms = 15000"

definition failed_units_command :: string where
  "failed_units_command = systemctl ((''list-units '' @ [quote_char] @ ''open-mcc*'' @ [quote_char]
      @ '' --state=failed --no-legend --plain''))"

definition parse_failed_units :: "string \<Rightarrow> nat" where
  "parse_failed_units output = length (filter (\<lambda>l. trim l \<noteq> []) (split_on lf output))"

definition observe_host :: "'w host_reader \<Rightarrow> ('w, host_observation_result) io" where
  "observe_host reader =
     io_bind (hrd_exec reader failed_units_command) (\<lambda>failed.
     io_bind (hrd_exec reader os_release_command) (\<lambda>os.
     io_return
       \<lparr>hr_failedUnits = (if er_exitCode failed = 0 then Some (parse_failed_units (er_stdout failed)) else None),
        hr_osId = fst (parse_os_release (er_stdout os)), hr_osName = snd (parse_os_release (er_stdout os))\<rparr>))"

section \<open>One poll\<close>

definition is_pollable :: "host_row \<Rightarrow> bool" where
  "is_pollable h \<longleftrightarrow> ho_status h \<noteq> HostRemoving \<and> host_meets h Runtime"

record 'w health_poller =
  hl_pollableHosts :: "('w, host_row list) io"
  hl_lease :: "host_row \<Rightarrow> nat \<Rightarrow> ('w, 'w host_read_lease) io"
  hl_recordSeen :: "host_row \<Rightarrow> time \<Rightarrow> host_observation_result \<Rightarrow> ('w, unit) io"
  hl_recordReachability :: "host_row \<Rightarrow> bool \<Rightarrow> ('w, unit) io"
  hl_observeInstances :: "host_row \<Rightarrow> ('w, unit) io"
  hl_now :: "'w \<Rightarrow> time \<times> 'w"

record health_poll_run =
  hn_polled :: nat
  hn_reached :: "ident list"
  hn_unreachable :: "ident list"

definition not_reached :: "'w health_poller \<Rightarrow> host_row \<Rightarrow> health_poll_run \<Rightarrow> 'w \<Rightarrow> health_poll_run \<times> 'w" where
  "not_reached deps listed run w =
     (run\<lparr>hn_unreachable := hn_unreachable run @ [ho_id listed]\<rparr>, snd (hl_recordReachability deps listed False w))"

definition seen_host ::
    "'w health_poller \<Rightarrow> host_row \<Rightarrow> host_row \<Rightarrow> host_observation_result \<Rightarrow> health_poll_run \<Rightarrow> 'w \<Rightarrow> health_poll_run \<times> 'w" where
  "seen_host deps listed host observed run w0 =
     (let (seenAt, w1) = hl_now deps w0 in
      case hl_recordSeen deps host seenAt observed w1 of
        (Inl e, w2) \<Rightarrow> not_reached deps listed run w2
      | (Inr _, w2) \<Rightarrow>
          (let run' = run\<lparr>hn_reached := hn_reached run @ [ho_id host]\<rparr> in
           case hl_recordReachability deps host True w2 of
             (Inl e, w3) \<Rightarrow> not_reached deps listed run' w3
           | (Inr _, w3) \<Rightarrow> (run', snd (hl_observeInstances deps host w3))))"

definition poll_host :: "'w health_poller \<Rightarrow> host_row \<Rightarrow> health_poll_run \<Rightarrow> 'w \<Rightarrow> health_poll_run \<times> 'w" where
  "poll_host deps listed run w0 =
     (case hl_lease deps listed health_timeout_ms w0 of
        (Inl e, w1) \<Rightarrow> not_reached deps listed run w1
      | (Inr (Leased reader host identity), w1) \<Rightarrow>
          (case observe_host reader w1 of
             (Inl e, w2) \<Rightarrow> not_reached deps listed run (hrd_release reader w2)
           | (Inr observed, w2) \<Rightarrow> seen_host deps listed host observed run (hrd_release reader w2))
      | (Inr _, w1) \<Rightarrow> (run, w1))"

fun poll_hosts :: "'w health_poller \<Rightarrow> host_row list \<Rightarrow> health_poll_run \<Rightarrow> 'w \<Rightarrow> health_poll_run \<times> 'w" where
  "poll_hosts deps [] run w = (run, w)"
| "poll_hosts deps (h # hs) run w = (case poll_host deps h run w of (run', w') \<Rightarrow> poll_hosts deps hs run' w')"

definition run_health_poll :: "'w health_poller \<Rightarrow> ('w, health_poll_run) io" where
  "run_health_poll deps =
     io_bind (hl_pollableHosts deps) (\<lambda>listed. \<lambda>w.
       let hosts = filter is_pollable listed in
       case poll_hosts deps hosts \<lparr>hn_polled = length hosts, hn_reached = [], hn_unreachable = []\<rparr> w of
         (run, w') \<Rightarrow> (Inr run, w'))"

section \<open>The poll of the server\<close>

text \<open>The bots on a host that are read: all but those that wait for a sign-in.\<close>

definition observed_bots :: "host_row \<Rightarrow> ('q, 'm) fleet_db_scheme \<Rightarrow> instance_row list" where
  "observed_bots host db =
     filter (\<lambda>b. bt_organizationId b = ho_organizationId host \<and> bt_hostId b = ho_id host \<and> bt_status b \<noteq> InstanceNeedsSignIn)
       (botInstances db)"

definition server_poller ::
    "'q reader_services \<Rightarrow> 'q job_sender \<Rightarrow> payload \<Rightarrow> (host_row \<Rightarrow> instance_row list \<Rightarrow> ('q, unit) fleet) \<Rightarrow> 'q fleet_db health_poller" where
  "server_poller sv send carrier observe =
     \<lparr>hl_pollableHosts = db_read list_pollable,
      hl_lease = (\<lambda>host deadlineMs. lease_host_reader sv (ho_organizationId host) (ho_id host) deadlineMs Runtime),
      hl_recordSeen = (\<lambda>host seenAt observed db.
        (Inr (), record_seen (ho_id host) (ho_organizationId host) seenAt observed db)),
      hl_recordReachability = (\<lambda>host reached.
        on_app (record_host_reachability send carrier (ho_organizationId host)
          \<lparr>ob_hostId = ho_id host, ob_hostName = ho_name host, ob_reached = reached\<rparr>)),
      hl_observeInstances = (\<lambda>host db. observe host (observed_bots host db) db),
      hl_now = read_now\<rparr>"

end
