(* ===== verification/HealthPollerSafety.thy ===== *)
theory HealthPollerSafety
  imports HealthPoller "HOL-Library.Multiset"
begin

text \<open>
  What a poll of the hosts does to the tables, whom it counts, and whom a lease lets be read.
\<close>

section \<open>A lease is on what the row still says\<close>

lemma leased_is_current:
  assumes "lease_host_reader sv org hostId deadlineMs need db0 = (Inr (Leased reader host identity), db)"
  shows "find_host org hostId db = Some host" "identity_of host = Some identity" "host_meets host need"
    "\<exists>before. find_host org hostId db0 = Some before \<and> identity_of before = Some identity \<and> host_meets before need \<and>
       rv_lease sv (host_read_key org hostId) identity deadlineMs (open_connection sv org hostId identity) db0 = (Inr reader, db)"
  using assms
  by (auto simp: lease_host_reader_def split: option.splits sum.splits prod.splits if_splits)

lemma identity_kept: "identity_of h = Some identity \<Longrightarrow> ho_teardownRequestedAt h = None"
  by (auto simp: identity_of_def split: if_splits)

section \<open>Whom a poll counts\<close>

definition never_throws :: "('w, 'a) io \<Rightarrow> bool" where
  "never_throws m \<longleftrightarrow> (\<forall>w. \<exists>x w'. m w = (Inr x, w'))"

definition counted :: "health_poll_run \<Rightarrow> ident multiset" where
  "counted run = mset (hn_reached run) + mset (hn_unreachable run)"

text \<open>A lease is of the host it was asked for.\<close>

definition leases_own :: "'w health_poller \<Rightarrow> bool" where
  "leases_own deps \<longleftrightarrow>
     (\<forall>listed t w reader host identity w'. hl_lease deps listed t w = (Inr (Leased reader host identity), w') \<longrightarrow> ho_id host = ho_id listed)"

lemma poll_host_counts:
  assumes "leases_own deps" and "\<And>h. never_throws (hl_recordReachability deps h True)"
    and "poll_host deps listed run w = (run', w')"
  shows "hn_polled run' = hn_polled run \<and> counted run' \<subseteq># counted run + {#ho_id listed#}"
proof -
  have missed: "counted (fst (not_reached deps listed r u)) = counted r + {#ho_id listed#} \<and>
      hn_polled (fst (not_reached deps listed r u)) = hn_polled r" for r u
    by (simp add: not_reached_def counted_def)
  have seen: "counted (fst (seen_host deps listed host ob r u)) = counted r + {#ho_id listed#} \<and>
      hn_polled (fst (seen_host deps listed host ob r u)) = hn_polled r" if "ho_id host = ho_id listed" for host ob r u
  proof -
    obtain t u1 where t: "hl_now deps u = (t, u1)" by fastforce
    obtain x u2 where x: "hl_recordSeen deps host t ob u1 = (x, u2)" by fastforce
    obtain y u3 where y: "hl_recordReachability deps host True u2 = (Inr y, u3)"
      using assms(2) [of host] unfolding never_throws_def by blast
    show ?thesis
      using missed [of r u2] that by (cases x) (simp_all add: seen_host_def t x y, simp add: counted_def)
  qed
  obtain x w1 where x: "hl_lease deps listed health_timeout_ms w = (x, w1)" by fastforce
  show ?thesis
  proof (cases "\<exists>reader host identity. x = Inr (Leased reader host identity)")
    case True
    then obtain reader host identity where l: "x = Inr (Leased reader host identity)" by blast
    have "ho_id host = ho_id listed" using assms(1) x l unfolding leases_own_def by blast
    then show ?thesis
      using assms(3) missed [of run] seen [of host _ run]
      by (auto simp: poll_host_def x l split: prod.splits sum.splits) (metis fst_conv subset_mset.order_refl)+
  next
    case False
    then show ?thesis
      using assms(3) missed [of run w1]
      by (auto simp: poll_host_def x split: sum.splits host_read_lease.splits)
  qed
qed

lemma poll_hosts_counts:
  assumes "leases_own deps" and "\<And>h. never_throws (hl_recordReachability deps h True)"
    and "poll_hosts deps hs run w = (run', w')"
  shows "hn_polled run' = hn_polled run \<and> counted run' \<subseteq># counted run + mset (map ho_id hs)"
  using assms(3)
proof (induction hs arbitrary: run w)
  case (Cons h hs)
  obtain r1 w1 where one: "poll_host deps h run w = (r1, w1)" by fastforce
  then have "poll_hosts deps hs r1 w1 = (run', w')" using Cons.prems by simp
  from Cons.IH [OF this] poll_host_counts [OF assms(1,2) one] show ?case
    by (auto intro: subset_mset.order_trans subset_mset.add_right_mono simp: ac_simps)
qed simp

section \<open>What a poll does to the world\<close>

context world_kept
begin

definition reader_keeps :: "'w host_reader \<Rightarrow> bool" where
  "reader_keeps reader \<longleftrightarrow> (\<forall>c. keeps (hrd_exec reader c)) \<and> (\<forall>w. R w (hrd_release reader w))"

definition lease_keeps :: "('w, 'w host_read_lease) io \<Rightarrow> bool" where
  "lease_keeps m \<longleftrightarrow> keeps m \<and> (\<forall>w reader host identity w'. m w = (Inr (Leased reader host identity), w') \<longrightarrow> reader_keeps reader)"

definition poller_keeps :: "'w health_poller \<Rightarrow> bool" where
  "poller_keeps deps \<longleftrightarrow>
     keeps (hl_pollableHosts deps) \<and> (\<forall>h t. lease_keeps (hl_lease deps h t)) \<and>
     (\<forall>h t ob. keeps (hl_recordSeen deps h t ob)) \<and> (\<forall>h r. keeps (hl_recordReachability deps h r)) \<and>
     (\<forall>h. keeps (hl_observeInstances deps h)) \<and> (\<forall>w. R w (snd (hl_now deps w)))"

lemma poll_host_kept:
  assumes "poller_keeps deps"
  shows "R w (snd (poll_host deps listed run w))"
proof -
  have reach: "R u (snd (hl_recordReachability deps h r u))" and seen: "R u (snd (hl_recordSeen deps h t ob u))"
    and bots: "R u (snd (hl_observeInstances deps h u))" and now: "R u (snd (hl_now deps u))" for u h r t ob
    using assms by (simp_all add: poller_keeps_def keeps_def)
  have missed: "R u (snd (not_reached deps listed r u))" for r u using reach by (simp add: not_reached_def)
  have observed: "R u (snd (seen_host deps listed h ob r u))" for u h ob r
  proof -
    obtain t u1 where t: "hl_now deps u = (t, u1)" by fastforce
    obtain x u2 where x: "hl_recordSeen deps h t ob u1 = (x, u2)" by fastforce
    obtain y u3 where y: "hl_recordReachability deps h True u2 = (y, u3)" by fastforce
    have two: "R u u2" using now [of u] seen [of u1 h t ob] t x kept_trans by (metis snd_conv)
    have "R u2 u3" using reach [of u2 h True] y by simp
    then have three: "R u u3" using two kept_trans by blast
    show ?thesis
    proof (cases x)
      case (Inl e)
      then show ?thesis using kept_trans [OF two missed] by (simp add: seen_host_def t x)
    next
      case (Inr v)
      then show ?thesis
        using kept_trans [OF three missed] kept_trans [OF three bots] by (cases y) (simp_all add: seen_host_def t x y)
    qed
  qed
  obtain x w1 where x: "hl_lease deps listed health_timeout_ms w = (x, w1)" by fastforce
  have lk: "lease_keeps (hl_lease deps listed health_timeout_ms)" using assms by (simp add: poller_keeps_def)
  then have one: "R w w1" using x unfolding lease_keeps_def keeps_def by (metis snd_conv)
  show ?thesis
  proof (cases "\<exists>reader host identity. x = Inr (Leased reader host identity)")
    case True
    then obtain reader host identity where l: "x = Inr (Leased reader host identity)" by blast
    then have rk: "reader_keeps reader" using lk x unfolding lease_keeps_def by blast
    have "keeps (observe_host reader)"
      unfolding observe_host_def using rk by (intro keeps_io) (simp_all add: reader_keeps_def)
    moreover obtain y w2 where y: "observe_host reader w1 = (y, w2)" by fastforce
    ultimately have "R w1 w2" by (metis keepsD snd_conv)
    then have two: "R w (hrd_release reader w2)" using one rk kept_trans unfolding reader_keeps_def by blast
    show ?thesis
      using missed observed kept_trans [OF two] by (cases y) (simp_all add: poll_host_def x l y)
  next
    case False
    then show ?thesis
      using one missed kept_trans [OF one]
      by (auto simp: poll_host_def x split: sum.splits host_read_lease.splits)
  qed
qed

lemma keeps_health_poll:
  assumes "poller_keeps deps"
  shows "keeps (run_health_poll deps)"
proof -
  have all: "R w (snd (poll_hosts deps hs run w))" for hs run w
  proof (induction hs arbitrary: run w)
    case (Cons h hs)
    obtain r1 w1 where one: "poll_host deps h run w = (r1, w1)" by fastforce
    then have "R w w1" using poll_host_kept [OF assms] by (metis snd_conv)
    then show ?case using Cons.IH [of w1 r1] kept_trans by (simp add: one)
  qed (simp add: kept_refl)
  have "keeps (hl_pollableHosts deps)" using assms by (simp add: poller_keeps_def)
  then show ?thesis
    unfolding run_health_poll_def using all
    by (intro keeps_io) (simp_all add: keeps_def Let_def prod.case_eq_if)
qed

end

section \<open>The poll of the server\<close>

text \<open>Steps of the table of hosts beside steps of the status log.\<close>

definition table_steps :: "'q job_sender \<Rightarrow> payload \<Rightarrow> 'q fleet_db \<Rightarrow> 'q fleet_db \<Rightarrow> bool" where
  "table_steps send carrier db db' \<longleftrightarrow>
     host_steps db db' \<and> (log_step send carrier)\<^sup>*\<^sup>* (app_db.truncate db) (app_db.truncate db')"

interpretation tables_kept: world_kept "table_steps send carrier" for send :: "'q job_sender" and carrier
proof
  fix u v w :: "'q fleet_db"
  show "table_steps send carrier w w" by (simp add: table_steps_def)
  show "table_steps send carrier u v \<Longrightarrow> table_steps send carrier v w \<Longrightarrow> table_steps send carrier u w"
    unfolding table_steps_def by (meson rtranclp_trans)
qed

lemma truncate_extend [simp]: "app_db.truncate (app_db.extend a extra) = (a :: 'q app_db)"
  by (cases a) (simp add: app_db.defs)

lemma truncate_on_app [simp]: "app_db.truncate (snd (on_app m db)) = snd (m (app_db.truncate db))"
  by (simp add: on_app_def prod.case_eq_if)

lemma hosts_on_app: "beside_hosts db (snd (on_app m db))"
  by (simp add: on_app_def app_db.defs fleet_db.defs beside_hosts_def prod.case_eq_if)

lemma probe_kept: "table_steps send carrier db (snd (on_app (record_host_reachability send carrier org ob) db))"
  unfolding table_steps_def truncate_on_app
  by (auto intro: log_step.probe beside_hosts_steps hosts_on_app)

lemma seen_kept: "table_steps send carrier db (record_seen i org t ob db)"
proof -
  have "app_db.truncate (record_seen i org t ob db) = app_db.truncate db"
    by (simp add: record_seen_def update_hosts_def app_db.defs)
  then show ?thesis by (simp add: table_steps_def host_step_steps step_seen)
qed

lemma now_kept: "table_steps send carrier db (snd (read_now db))"
proof -
  have "outside_step (app_db.truncate db) (app_db.truncate (snd (read_now db)))"
    by (simp add: outside_step_def read_now_def app_db.defs)
  then show ?thesis
    by (auto simp: table_steps_def read_now_def beside_hosts_def intro: log_step.outside beside_hosts_steps)
qed

text \<open>The pool and the reading of bots, too, do only steps of these tables.\<close>

definition reader_services_step :: "'q reader_services \<Rightarrow> 'q job_sender \<Rightarrow> payload \<Rightarrow> bool" where
  "reader_services_step sv send carrier \<longleftrightarrow>
     (\<forall>options. tables_kept.keeps send carrier (rv_connect sv options)) \<and>
     (\<forall>key identity t opn. tables_kept.keeps send carrier opn \<longrightarrow>
        tables_kept.keeps send carrier (rv_lease sv key identity t opn) \<and>
        (\<forall>db reader db'. rv_lease sv key identity t opn db = (Inr reader, db') \<longrightarrow> tables_kept.reader_keeps send carrier reader))"

lemma open_connection_kept:
  assumes "reader_services_step sv send carrier"
  shows "tables_kept.keeps send carrier (open_connection sv org hostId identity)"
proof -
  have basic: "tables_kept.keeps send carrier (db_read f)" "tables_kept.keeps send carrier (io_sum r)"
    "tables_kept.keeps send carrier (io_found v cls m)" "tables_kept.keeps send carrier (io_fail cls m)" for f r v cls m
    by (simp_all add: tables_kept.keeps_def tables_kept.kept_refl db_read_def io_sum_def io_found_def io_fail_def io_throw_def io_return_def
        split: option.split)
  show ?thesis
    unfolding open_connection_def using assms
    by (intro tables_kept.keeps_io basic) (simp add: reader_services_step_def)
qed

lemma lease_kept:
  assumes "reader_services_step sv send carrier"
  shows "tables_kept.lease_keeps send carrier (lease_host_reader sv org hostId t need)"
  unfolding tables_kept.lease_keeps_def
proof (intro conjI allI impI)
  fix db reader host identity db'
  have own: "rv_lease sv key i t (open_connection sv org hostId i) u = (Inr reader, u') \<Longrightarrow> tables_kept.reader_keeps send carrier reader"
    for key i u u'
    using assms open_connection_kept [OF assms] unfolding reader_services_step_def by blast
  assume "lease_host_reader sv org hostId t need db = (Inr (Leased reader host identity), db')"
  then show "tables_kept.reader_keeps send carrier reader" using leased_is_current(4) own by blast
next
  show "tables_kept.keeps send carrier (lease_host_reader sv org hostId t need)"
    unfolding tables_kept.keeps_def
  proof
    fix db
    have lease: "table_steps send carrier u u'" if "rv_lease sv key i t (open_connection sv org hostId i) u = (x, u')" for key i u x u'
      using assms open_connection_kept [OF assms] that unfolding reader_services_step_def tables_kept.keeps_def by (metis snd_conv)
    have release: "table_steps send carrier u (hrd_release reader u)"
      if "rv_lease sv key i t (open_connection sv org hostId i) v = (Inr reader, v')" for key i v v' reader u
      using assms open_connection_kept [OF assms] that unfolding reader_services_step_def tables_kept.reader_keeps_def by blast
    show "table_steps send carrier db (snd (lease_host_reader sv org hostId t need db))"
      unfolding lease_host_reader_def
      using tables_kept.kept_refl
      by (auto split: option.split sum.split prod.split dest: lease intro: tables_kept.kept_trans [OF lease release])
  qed
qed

lemma server_poll_kept:
  assumes "reader_services_step sv send carrier" and "\<And>host bots. tables_kept.keeps send carrier (observe host bots)"
  shows "tables_kept.keeps send carrier (run_health_poll (server_poller sv send carrier observe))"
proof (rule tables_kept.keeps_health_poll)
  have "table_steps send carrier db (snd (observe host (observed_bots host db) db))" for host db
    using assms(2) by (simp add: tables_kept.keeps_def)
  then show "tables_kept.poller_keeps send carrier (server_poller sv send carrier observe)"
    using lease_kept [OF assms(1)]
    by (simp add: tables_kept.poller_keeps_def server_poller_def tables_kept.keeps_def db_read_def tables_kept.kept_refl
        probe_kept seen_kept now_kept [unfolded read_now_def, simplified] read_now_def)
qed

lemma log_inv_steps: "(log_step send carrier)\<^sup>*\<^sup>* a b \<Longrightarrow> log_inv a \<Longrightarrow> log_inv b"
  by (induction rule: rtranclp_induct) (use log_inv_step in blast)+

end
