(* ===== verification/TeardownExamples.thy ===== *)
theory TeardownExamples
  imports HostExamples TeardownSafety HealthPollerSafety
begin

text \<open>
  The concrete runs the properties of teardowns and polls are tried on: a host with one unit that is
  taken away, the job of a host that is being removed, and a pool whose readers answer nothing.
\<close>

definition one_unit_reply :: string where "one_unit_reply = ''open-mcc@.service'' @ [lf] @ ''other.service''"

lemma one_unit_read: "managed_units_in (said one_unit_reply) = [''open-mcc@.service'']"
  by code_simp

lemma nothing_read: "managed_units_in (said []) = []" "containers_in (said []) = Some []" "running_in (said []) = Some 0"
  by code_simp+

definition teardown_replies :: "exec_result list" where
  "teardown_replies = map said [one_unit_reply, [], [], [], [], [], [], [], [], [], [], [], ''yes'']"

lemma said_simps [simp]: "er_exitCode (said s) = 0" "er_stdout (said s) = s" "er_stderr (said s) = []"
  by (simp_all add: said_def)

lemma scripted_exec:
  "tp_exec (logged scripted_host) c t i (r # rs, l) = (Inr r, (rs, l @ [(c, Inr r)]))"
  by (simp add: logged_def scripted_host_def)

lemma scripted_teardown:
  "\<exists>report w trace. tear_down_host (logged scripted_host) (teardown_replies, []) = (Inr report, (w, trace)) \<and>
     td_unitsRemoved report = [''open-mcc@.service''] \<and> td_remaining report = []"
  by (simp add: tear_down_host_def list_managed_units_def tear_down_running_def tear_down_files_def list_containers_def
      count_running_units_def run_only_def teardown_replies_def io_simps scripted_exec one_unit_read nothing_read
      containers_remaining_def running_remaining_def files_remaining_def)

lemma scripted_teardown_removes:
  "\<exists>outcome w trace reply. tear_down_host (logged scripted_host) (teardown_replies, []) = (outcome, (w, trace)) \<and>
     (remove_unit_command ''open-mcc@.service'', reply) \<in> set trace"
  by (simp add: tear_down_host_def list_managed_units_def tear_down_running_def tear_down_files_def list_containers_def
      count_running_units_def run_only_def teardown_replies_def io_simps scripted_exec one_unit_read nothing_read) blast

section \<open>The job\<close>

definition quiet_teardown :: "unit teardown_services" where
  "quiet_teardown =
     \<lparr>ts_transport = \<lparr>tp_exec = (\<lambda>c t i. io_return (said [])), tp_canForward = (\<lambda>p t. io_return False)\<rparr>,
      ts_connect = (\<lambda>h p u k f t. io_return ()), ts_close = io_return (), ts_open = (\<lambda>c k. Inr []),
      ts_marks = (\<lambda>e. \<lparr>em_code = None, em_level = None\<rparr>)\<rparr>"

lemma quiet_teardown_beside: "beside_tables quiet_teardown"
  by (simp add: beside_tables_def quiet_teardown_def io_simps)

definition removing_row :: host_row where
  "removing_row = some_host_row\<lparr>ho_status := HostRemoving, ho_provisioningAttemptId := None\<rparr>"

definition teardown_data :: json where
  "teardown_data =
     JObj (map (\<lambda>(k, v). (k, JStr v)) [(''hostId'', ''h''), (''hostname'', ''10.0.0.1''), (''port'', ''22''), (''username'', ''bot''),
       (''sshKeyId'', ''k''), (''hostKeyFingerprint'', ''SHA256:x''), (''organizationId'', ''o'')])"

lemma teardown_data_read:
  "read_teardown_payload teardown_data =
     Some \<lparr>tl_hostId = ''h'', tl_hostname = ''10.0.0.1'', tl_port = ''22'', tl_username = ''bot'', tl_sshKeyId = ''k'',
           tl_hostKeyFingerprint = ''SHA256:x'', tl_organizationId = ''o''\<rparr>"
  by (simp add: read_teardown_payload_def teardown_data_def as_string_def Let_def)

section \<open>A poll\<close>

definition quiet_reader :: "'w host_reader" where
  "quiet_reader = \<lparr>hrd_exec = (\<lambda>c. io_return (said [])), hrd_release = (\<lambda>w. w)\<rparr>"

definition quiet_pool :: "unit reader_services" where
  "quiet_pool =
     \<lparr>rv_lease = (\<lambda>key identity t opn. io_return quiet_reader), rv_connect = (\<lambda>options. io_return ()), rv_open = (\<lambda>c k. Inr []),
      rv_marks = (\<lambda>e. \<lparr>em_code = None, em_level = None\<rparr>)\<rparr>"

definition ready_row :: host_row where
  "ready_row =
     some_host_row\<lparr>ho_status := HostReady, ho_osRelease := Some ''systemd 252'', ho_networkStack := Some Pasta,
       ho_architecture := Some (Build X64), ho_provisioningAttemptId := None, ho_provisioningClaimedAt := None\<rparr>"

lemma quiet_pool_steps: "reader_services_step quiet_pool send carrier"
  by (auto simp: reader_services_step_def quiet_pool_def tables_kept.keeps_def tables_kept.reader_keeps_def quiet_reader_def
      io_simps tables_kept.kept_refl)

lemma quiet_lease:
  "\<exists>reader host identity db. lease_host_reader quiet_pool ''o'' ''h'' 15000 Runtime (fleet_with [ready_row]) =
     (Inr (Leased reader host identity), db)"
proof -
  have found: "find_host ''o'' ''h'' (fleet_with [ready_row]) = Some ready_row"
    by (simp add: fleet_with_def find_host_def host_owned_def ready_row_def some_host_row_def)
  obtain identity where identity: "identity_of ready_row = Some identity"
    by (simp add: ready_row_def some_host_row_def identity_of_def non_empty_text_def)
  have "host_meets ready_row Runtime"
    by (simp add: ready_row_def some_host_row_def host_meets_def check_host_runtime_def)
  then show ?thesis
    by (simp add: lease_host_reader_def found identity quiet_pool_def io_return_def)
qed

end
