(* ===== verification/ReadPool.thy ===== *)
theory ReadPool
  imports HostStore
begin

text \<open>
  The pool of connections that hosts are read over (\<open>packages/transport/src/read-connections.ts\<close>) with the
  limiter of channels (\<open>ssh/limiter.ts\<close>). Objects that the source shares and mutates are rows of a heap,
  named by numbers; what runs between two awaits is one operation, and what the source leaves to promises,
  timers and the SSH transport are the events of a step relation.
\<close>

section \<open>Channels\<close>

definition default_exec_concurrency :: nat where "default_exec_concurrency = 6"

text \<open>A waiter is the number of the operation whose \<open>acquire\<close> has not resolved.\<close>

record limiter =
  lm_active :: nat
  lm_waiting :: "nat list"

definition new_limiter :: limiter where "new_limiter = \<lparr>lm_active = 0, lm_waiting = []\<rparr>"

definition limiter_acquire :: "nat \<Rightarrow> nat \<Rightarrow> limiter \<Rightarrow> bool \<times> limiter" where
  "limiter_acquire limit waiter l =
     (if lm_active l < limit then (True, l\<lparr>lm_active := lm_active l + 1\<rparr>)
      else (False, l\<lparr>lm_waiting := lm_waiting l @ [waiter]\<rparr>))"

definition limiter_abandon :: "nat \<Rightarrow> limiter \<Rightarrow> limiter" where
  "limiter_abandon waiter l = l\<lparr>lm_waiting := remove1 waiter (lm_waiting l)\<rparr>"

definition limiter_release :: "limiter \<Rightarrow> nat option \<times> limiter" where
  "limiter_release l =
     (case lm_waiting l of
        [] \<Rightarrow> (None, l\<lparr>lm_active := lm_active l - 1\<rparr>)
      | next # rest \<Rightarrow> (Some next, \<lparr>lm_active = (lm_active l - 1) + 1, lm_waiting = rest\<rparr>))"

section \<open>The pool's objects\<close>

datatype transport_state = TDisconnected | TConnecting | TReady | TDegraded | TFailed

record pool_transport =
  tr_state :: transport_state
  tr_destroys :: nat
  tr_closes :: nat

datatype read_error =
    ConnectionLost | QueueExpired | DeadlinePassed | HostChanged | BadDeadline | FromTransport thrown

datatype read_answer = ReadResult exec_result | ReadStream | ReadFailed read_error

datatype read_call = ExecCall string | ForwardCall nat

datatype op_state = OpQueued | OpRequested | OpOpen

text \<open>An operation: \<open>ro_stream\<close> is the forwarded stream, open or not, and \<open>ro_answer\<close> what its promise came to.\<close>

record read_op =
  ro_lease :: nat
  ro_call :: read_call
  ro_state :: op_state
  ro_holdsSlot :: bool
  ro_settled :: bool
  ro_aborted :: bool
  ro_stream :: "bool option"
  ro_answer :: "read_answer option"

record read_lease =
  le_connection :: nat
  le_ops :: "nat list"
  le_expired :: bool
  le_released :: bool
  le_timer :: "time option"

record pool_connection =
  cn_key :: string
  cn_entry :: nat
  cn_transport :: nat
  cn_identity :: connection_identity
  cn_readyAt :: time
  cn_limiter :: limiter
  cn_leases :: "nat list"
  cn_ops :: "nat list"
  cn_retired :: bool
  cn_closed :: bool
  cn_idleTimer :: "time option"
  cn_hardTimer :: "time option"

record pool_pending =
  pd_id :: nat
  pd_identity :: connection_identity
  pd_generation :: nat

record pool_entry =
  en_generation :: nat
  en_installed :: "nat option"
  en_pending :: "pool_pending option"
  en_connections :: "nat list"

datatype open_result = OpenUnsettled | OpenDone nat | OpenFailed read_error

text \<open>An opening is what \<open>startOpen\<close> closes over, with what its promise \<open>done\<close> came to; its transport has its number.\<close>

record pool_opening =
  og_key :: string
  og_entry :: nat
  og_identity :: connection_identity
  og_generation :: nat
  og_result :: open_result

text \<open>A call of \<open>lease\<close>: it waits for an opening, reads over a lease, or has failed.\<close>

datatype caller_state = CallerWaits nat | CallerReads nat | CallerFailed read_error

record pool_caller =
  ca_key :: string
  ca_identity :: connection_identity
  ca_deadlineMs :: time
  ca_state :: caller_state

record pool_options =
  po_idleMs :: time
  po_hardAgeMs :: time
  po_channelLimit :: nat

text \<open>\<open>pl_granted\<close> holds the operations whose \<open>acquire\<close> resolved and whose continuation has not run.\<close>

record pool =
  pl_now :: time
  pl_entries :: "string \<Rightarrow> nat option"
  pl_entry :: "nat \<Rightarrow> pool_entry"
  pl_nEntries :: nat
  pl_generations :: nat
  pl_opening :: "nat \<Rightarrow> pool_opening"
  pl_opens :: nat
  pl_transport :: "nat \<Rightarrow> pool_transport"
  pl_conn :: "nat \<Rightarrow> pool_connection"
  pl_nConns :: nat
  pl_lease :: "nat \<Rightarrow> read_lease"
  pl_nLeases :: nat
  pl_leaseCount :: int
  pl_op :: "nat \<Rightarrow> read_op"
  pl_nOps :: nat
  pl_granted :: "nat list"
  pl_caller :: "nat \<Rightarrow> pool_caller"
  pl_nCallers :: nat

definition upd_entry :: "nat \<Rightarrow> (pool_entry \<Rightarrow> pool_entry) \<Rightarrow> pool \<Rightarrow> pool" where
  "upd_entry e f p = p\<lparr>pl_entry := (pl_entry p)(e := f (pl_entry p e))\<rparr>"

definition upd_conn :: "nat \<Rightarrow> (pool_connection \<Rightarrow> pool_connection) \<Rightarrow> pool \<Rightarrow> pool" where
  "upd_conn c f p = p\<lparr>pl_conn := (pl_conn p)(c := f (pl_conn p c))\<rparr>"

definition upd_lease :: "nat \<Rightarrow> (read_lease \<Rightarrow> read_lease) \<Rightarrow> pool \<Rightarrow> pool" where
  "upd_lease l f p = p\<lparr>pl_lease := (pl_lease p)(l := f (pl_lease p l))\<rparr>"

definition upd_op :: "nat \<Rightarrow> (read_op \<Rightarrow> read_op) \<Rightarrow> pool \<Rightarrow> pool" where
  "upd_op i f p = p\<lparr>pl_op := (pl_op p)(i := f (pl_op p i))\<rparr>"

definition upd_transport :: "nat \<Rightarrow> (pool_transport \<Rightarrow> pool_transport) \<Rightarrow> pool \<Rightarrow> pool" where
  "upd_transport t f p = p\<lparr>pl_transport := (pl_transport p)(t := f (pl_transport p t))\<rparr>"

definition upd_opening :: "nat \<Rightarrow> (pool_opening \<Rightarrow> pool_opening) \<Rightarrow> pool \<Rightarrow> pool" where
  "upd_opening o' f p = p\<lparr>pl_opening := (pl_opening p)(o' := f (pl_opening p o'))\<rparr>"

definition destroy_transport :: "pool_transport \<Rightarrow> pool_transport" where
  "destroy_transport t = t\<lparr>tr_state := TDisconnected, tr_destroys := tr_destroys t + 1\<rparr>"

definition close_transport :: "pool_transport \<Rightarrow> pool_transport" where
  "close_transport t = t\<lparr>tr_state := TDisconnected, tr_closes := tr_closes t + 1\<rparr>"

text \<open>The connection an operation runs on.\<close>

definition op_connection :: "pool \<Rightarrow> nat \<Rightarrow> nat" where
  "op_connection p i = le_connection (pl_lease p (ro_lease (pl_op p i)))"

section \<open>Entries\<close>

definition new_entry :: "nat \<Rightarrow> pool_entry" where
  "new_entry generation = \<lparr>en_generation = generation, en_installed = None, en_pending = None, en_connections = []\<rparr>"

definition entry_for :: "string \<Rightarrow> pool \<Rightarrow> nat \<times> pool" where
  "entry_for key p =
     (case pl_entries p key of
        Some e \<Rightarrow> (e, p)
      | None \<Rightarrow>
          (let e = pl_nEntries p; generation = pl_generations p + 1 in
           (e, p\<lparr>pl_generations := generation, pl_nEntries := e + 1,
                 pl_entry := (pl_entry p)(e := new_entry generation),
                 pl_entries := (pl_entries p)(key := Some e)\<rparr>)))"

definition prune :: "string \<Rightarrow> nat \<Rightarrow> pool \<Rightarrow> pool" where
  "prune key e p =
     (if en_connections (pl_entry p e) \<noteq> [] \<or> en_pending (pl_entry p e) \<noteq> None then p
      else if pl_entries p key = Some e then p\<lparr>pl_entries := (pl_entries p)(key := None)\<rparr> else p)"

section \<open>Operations that end\<close>

definition release_slot :: "nat \<Rightarrow> pool \<Rightarrow> pool" where
  "release_slot c p =
     (case limiter_release (cn_limiter (pl_conn p c)) of (admitted, lim) \<Rightarrow>
        (upd_conn c (\<lambda>cn. cn\<lparr>cn_limiter := lim\<rparr>) p)
          \<lparr>pl_granted := pl_granted p @ (case admitted of None \<Rightarrow> [] | Some i \<Rightarrow> [i])\<rparr>)"

definition finish_op :: "nat \<Rightarrow> pool \<Rightarrow> pool" where
  "finish_op i p =
     (let c = op_connection p i;
          p' = upd_conn c (\<lambda>cn. cn\<lparr>cn_ops := removeAll i (cn_ops cn)\<rparr>)
                 (upd_lease (ro_lease (pl_op p i)) (\<lambda>l. l\<lparr>le_ops := removeAll i (le_ops l)\<rparr>) p) in
      if \<not> ro_holdsSlot (pl_op p i) then p'
      else release_slot c (upd_op i (\<lambda>x. x\<lparr>ro_holdsSlot := False\<rparr>) p'))"

definition settle_op :: "nat \<Rightarrow> read_answer \<Rightarrow> pool \<Rightarrow> pool" where
  "settle_op i answer =
     upd_op i (\<lambda>x. if ro_settled x then x else x\<lparr>ro_settled := True, ro_answer := Some answer\<rparr>)"

text \<open>\<open>controller.abort\<close> takes a waiting operation out of the limiter's queue.\<close>

definition abort_op :: "nat \<Rightarrow> pool \<Rightarrow> pool" where
  "abort_op i p =
     upd_conn (op_connection p i) (\<lambda>cn. cn\<lparr>cn_limiter := limiter_abandon i (cn_limiter cn)\<rparr>)
       (upd_op i (\<lambda>x. x\<lparr>ro_aborted := True\<rparr>) p)"

definition close_stream_of :: "nat \<Rightarrow> pool \<Rightarrow> pool" where
  "close_stream_of i = upd_op i (\<lambda>x. x\<lparr>ro_stream := (if ro_stream x = None then None else Some False)\<rparr>)"

definition abandon_op :: "nat \<Rightarrow> read_error \<Rightarrow> pool \<Rightarrow> pool" where
  "abandon_op i e p = close_stream_of i (finish_op i (abort_op i (settle_op i (ReadFailed e) p)))"

section \<open>Connections that end\<close>

definition shut_down :: "(pool_transport \<Rightarrow> pool_transport) \<Rightarrow> nat \<Rightarrow> pool \<Rightarrow> pool" where
  "shut_down how c p =
     (if cn_closed (pl_conn p c) then p
      else (let e = cn_entry (pl_conn p c);
                p1 = upd_conn c (\<lambda>cn. cn\<lparr>cn_closed := True, cn_idleTimer := None, cn_hardTimer := None\<rparr>) p;
                p2 = upd_entry e (\<lambda>en. en\<lparr>en_installed := (if en_installed en = Some c then None else en_installed en),
                                         en_connections := removeAll c (en_connections en)\<rparr>) p1;
                p3 = fold (\<lambda>i. abandon_op i ConnectionLost) (cn_ops (pl_conn p c)) p2;
                p4 = upd_transport (cn_transport (pl_conn p c)) how p3 in
            prune (cn_key (pl_conn p c)) e p4))"

definition retire :: "nat \<Rightarrow> pool \<Rightarrow> pool" where
  "retire c p =
     upd_entry (cn_entry (pl_conn p c))
       (\<lambda>en. en\<lparr>en_installed := (if en_installed en = Some c then None else en_installed en)\<rparr>)
       (upd_conn c (\<lambda>cn. cn\<lparr>cn_retired := True\<rparr>) p)"

definition after_last_lease :: "pool_options \<Rightarrow> nat \<Rightarrow> pool \<Rightarrow> pool" where
  "after_last_lease options c p =
     (let cn = pl_conn p c in
      if cn_closed cn \<or> cn_leases cn \<noteq> [] then p
      else if cn_retired cn then shut_down destroy_transport c p
      else if en_installed (pl_entry p (cn_entry cn)) \<noteq> Some c then shut_down close_transport c p
      else upd_conn c (\<lambda>cn. cn\<lparr>cn_idleTimer := Some (pl_now p + po_idleMs options)\<rparr>) p)"

definition expire_op :: "nat \<Rightarrow> pool \<Rightarrow> pool" where
  "expire_op i p =
     (if ro_state (pl_op p i) = OpQueued then abandon_op i QueueExpired p
      else abandon_op i DeadlinePassed (retire (op_connection p i) p))"

definition expire :: "nat \<Rightarrow> pool \<Rightarrow> pool" where
  "expire l p =
     fold expire_op (le_ops (pl_lease p l)) (upd_lease l (\<lambda>x. x\<lparr>le_expired := True, le_timer := None\<rparr>) p)"

section \<open>Openings\<close>

definition same_connection_identity :: "connection_identity \<Rightarrow> connection_identity \<Rightarrow> bool" where
  "same_connection_identity a b \<longleftrightarrow>
     ci_hostname a = ci_hostname b \<and> ci_port a = ci_port b \<and> ci_username a = ci_username b \<and>
     ci_sshKeyId a = ci_sshKeyId b \<and> ci_hostKeyFingerprint a = ci_hostKeyFingerprint b"

definition install :: "pool_options \<Rightarrow> string \<Rightarrow> nat \<Rightarrow> nat \<Rightarrow> connection_identity \<Rightarrow> pool \<Rightarrow> nat \<times> pool" where
  "install options key e t identity p =
     (let c = pl_nConns p;
          connection =
            \<lparr>cn_key = key, cn_entry = e, cn_transport = t, cn_identity = identity, cn_readyAt = pl_now p,
             cn_limiter = new_limiter, cn_leases = [], cn_ops = [], cn_retired = False, cn_closed = False,
             cn_idleTimer = None, cn_hardTimer = Some (pl_now p + po_hardAgeMs options)\<rparr>;
          previous = en_installed (pl_entry p e);
          p1 = p\<lparr>pl_conn := (pl_conn p)(c := connection), pl_nConns := c + 1\<rparr>;
          p2 = upd_entry e (\<lambda>en. en\<lparr>en_installed := Some c, en_connections := en_connections en @ [c]\<rparr>) p1 in
      (c, case previous of
            None \<Rightarrow> p2
          | Some old \<Rightarrow>
              if \<not> same_connection_identity (cn_identity (pl_conn p old)) identity
              then shut_down destroy_transport old p2
              else after_last_lease options old p2))"

definition start_open :: "string \<Rightarrow> nat \<Rightarrow> connection_identity \<Rightarrow> pool \<Rightarrow> nat \<times> pool" where
  "start_open key e identity p =
     (let i = pl_opens p + 1; generation = en_generation (pl_entry p e) in
      (i, upd_entry e (\<lambda>en. en\<lparr>en_pending := Some \<lparr>pd_id = i, pd_identity = identity, pd_generation = generation\<rparr>\<rparr>)
            (p\<lparr>pl_opens := i,
               pl_transport := (pl_transport p)(i := \<lparr>tr_state = TDisconnected, tr_destroys = 0, tr_closes = 0\<rparr>),
               pl_opening := (pl_opening p)(i :=
                 \<lparr>og_key = key, og_entry = e, og_identity = identity, og_generation = generation,
                  og_result = OpenUnsettled\<rparr>)\<rparr>)))"

definition is_pending :: "pool \<Rightarrow> nat \<Rightarrow> bool" where
  "is_pending p i = (map_option pd_id (en_pending (pl_entry p (og_entry (pl_opening p i)))) = Some i)"

definition give_up :: "nat \<Rightarrow> pool \<Rightarrow> pool" where
  "give_up i p =
     (let og = pl_opening p i; p' = upd_transport i destroy_transport p in
      if \<not> is_pending p i then p'
      else prune (og_key og) (og_entry og) (upd_entry (og_entry og) (\<lambda>en. en\<lparr>en_pending := None\<rparr>) p'))"

definition settle_opening :: "nat \<Rightarrow> open_result \<Rightarrow> pool \<Rightarrow> pool" where
  "settle_opening i r = upd_opening i (\<lambda>og. og\<lparr>og_result := r\<rparr>)"

definition open_fails :: "nat \<Rightarrow> read_error \<Rightarrow> pool \<Rightarrow> pool" where
  "open_fails i e p = settle_opening i (OpenFailed e) (give_up i p)"

definition open_succeeds :: "pool_options \<Rightarrow> nat \<Rightarrow> pool \<Rightarrow> pool" where
  "open_succeeds options i p =
     (let og = pl_opening p i;
          current = (is_pending p i \<and> en_generation (pl_entry p (og_entry og)) = og_generation og) in
      if \<not> current \<or> tr_state (pl_transport p i) \<noteq> TReady
      then settle_opening i (OpenFailed HostChanged) (give_up i p)
      else (case install options (og_key og) (og_entry og) i (og_identity og)
                   (upd_entry (og_entry og) (\<lambda>en. en\<lparr>en_pending := None\<rparr>) p) of
              (c, p') \<Rightarrow> settle_opening i (OpenDone c) p'))"

section \<open>Reading over a lease\<close>

definition begin_op :: "nat \<Rightarrow> read_call \<Rightarrow> pool \<Rightarrow> (read_error + nat) \<times> pool" where
  "begin_op l call p =
     (let lease = pl_lease p l; c = le_connection lease in
      if le_released lease \<or> cn_closed (pl_conn p c) then (Inl ConnectionLost, p)
      else if le_expired lease then (Inl QueueExpired, p)
      else (let i = pl_nOps p;
                op' = \<lparr>ro_lease = l, ro_call = call, ro_state = OpQueued, ro_holdsSlot = False, ro_settled = False,
                       ro_aborted = False, ro_stream = None, ro_answer = None\<rparr> in
            (Inr i, upd_conn c (\<lambda>cn. cn\<lparr>cn_ops := cn_ops cn @ [i]\<rparr>)
                      (upd_lease l (\<lambda>x. x\<lparr>le_ops := le_ops x @ [i]\<rparr>)
                         (p\<lparr>pl_op := (pl_op p)(i := op'), pl_nOps := i + 1\<rparr>)))))"

definition ask_slot :: "pool_options \<Rightarrow> nat \<Rightarrow> pool \<Rightarrow> pool" where
  "ask_slot options i p =
     (let c = op_connection p i in
      case limiter_acquire (po_channelLimit options) i (cn_limiter (pl_conn p c)) of (admitted, lim) \<Rightarrow>
        (upd_conn c (\<lambda>cn. cn\<lparr>cn_limiter := lim\<rparr>) p)
          \<lparr>pl_granted := (if admitted then pl_granted p @ [i] else pl_granted p)\<rparr>)"

definition read_over :: "pool_options \<Rightarrow> nat \<Rightarrow> read_call \<Rightarrow> pool \<Rightarrow> (read_error + nat) \<times> pool" where
  "read_over options l call p =
     (case begin_op l call p of
        (Inl e, p') \<Rightarrow> (Inl e, p')
      | (Inr i, p') \<Rightarrow> (Inr i, ask_slot options i p'))"

definition admitted_op :: "nat \<Rightarrow> pool \<Rightarrow> pool" where
  "admitted_op i p =
     (let p' = p\<lparr>pl_granted := removeAll i (pl_granted p)\<rparr> in
      if ro_settled (pl_op p i) then release_slot (op_connection p i) p'
      else upd_op i (\<lambda>x. x\<lparr>ro_holdsSlot := True, ro_state := OpRequested\<rparr>) p')"

definition outcome_of :: "pool \<Rightarrow> nat \<Rightarrow> read_error \<Rightarrow> read_error" where
  "outcome_of p c e =
     (if cn_closed (pl_conn p c) \<or> tr_state (pl_transport p (cn_transport (pl_conn p c))) \<noteq> TReady
      then ConnectionLost else e)"

definition answer_op :: "nat \<Rightarrow> read_answer \<Rightarrow> pool \<Rightarrow> pool" where
  "answer_op i answer p = (if ro_settled (pl_op p i) then p else finish_op i (settle_op i answer p))"

definition fail_op :: "nat \<Rightarrow> read_error \<Rightarrow> pool \<Rightarrow> pool" where
  "fail_op i e p = answer_op i (ReadFailed (outcome_of p (op_connection p i) e)) p"

definition stream_opens :: "nat \<Rightarrow> pool \<Rightarrow> pool" where
  "stream_opens i p =
     (if ro_settled (pl_op p i) then p
      else upd_op i (\<lambda>x. x\<lparr>ro_settled := True, ro_state := OpOpen, ro_stream := Some True, ro_answer := Some ReadStream\<rparr>) p)"

definition close_stream :: "nat \<Rightarrow> pool \<Rightarrow> pool" where
  "close_stream i p = close_stream_of i (finish_op i p)"

definition release_lease :: "pool_options \<Rightarrow> nat \<Rightarrow> pool \<Rightarrow> pool" where
  "release_lease options l p =
     (if le_released (pl_lease p l) then p
      else (let c = le_connection (pl_lease p l);
                p1 = (upd_lease l (\<lambda>x. x\<lparr>le_released := True, le_timer := None\<rparr>) p)\<lparr>pl_leaseCount := pl_leaseCount p - 1\<rparr>;
                p2 = fold (\<lambda>i. abandon_op i ConnectionLost) (le_ops (pl_lease p l)) p1;
                p3 = upd_conn c (\<lambda>cn. cn\<lparr>cn_leases := removeAll l (cn_leases cn)\<rparr>) p2 in
            after_last_lease options c p3))"

definition checkout :: "nat \<Rightarrow> time \<Rightarrow> pool \<Rightarrow> nat \<times> pool" where
  "checkout c deadlineMs p =
     (let l = pl_nLeases p;
          lease = \<lparr>le_connection = c, le_ops = [], le_expired = False, le_released = False,
                   le_timer = Some (pl_now p + deadlineMs)\<rparr> in
      (l, upd_conn c (\<lambda>cn. cn\<lparr>cn_idleTimer := None, cn_leases := cn_leases cn @ [l]\<rparr>)
            (p\<lparr>pl_lease := (pl_lease p)(l := lease), pl_nLeases := l + 1, pl_leaseCount := pl_leaseCount p + 1\<rparr>)))"

section \<open>Leases\<close>

definition usable :: "pool \<Rightarrow> nat \<Rightarrow> connection_identity \<Rightarrow> bool" where
  "usable p c identity \<longleftrightarrow>
     \<not> cn_closed (pl_conn p c) \<and> \<not> cn_retired (pl_conn p c) \<and>
     tr_state (pl_transport p (cn_transport (pl_conn p c))) = TReady \<and>
     same_connection_identity (cn_identity (pl_conn p c)) identity"

text \<open>One turn of the loop of \<open>lease\<close>, up to its await: a lease or an opening to wait for.\<close>

definition lease_turn ::
    "pool_options \<Rightarrow> string \<Rightarrow> connection_identity \<Rightarrow> time \<Rightarrow> pool \<Rightarrow> caller_state \<times> pool" where
  "lease_turn options key identity deadlineMs p0 =
     (case entry_for key p0 of (e, p) \<Rightarrow>
        let await = (\<lambda>p.
              let joinable = (case en_pending (pl_entry p e) of
                                None \<Rightarrow> None
                              | Some pending \<Rightarrow>
                                  if pd_generation pending = en_generation (pl_entry p e)
                                     \<and> same_connection_identity (pd_identity pending) identity
                                  then Some (pd_id pending) else None) in
              case joinable of
                Some i \<Rightarrow> (CallerWaits i, p)
              | None \<Rightarrow> (case start_open key e identity p of (i, p') \<Rightarrow> (CallerWaits i, p'))) in
        case en_installed (pl_entry p e) of
          None \<Rightarrow> await p
        | Some c \<Rightarrow>
            if \<not> usable p c identity then await (shut_down destroy_transport c p)
            else if pl_now p + deadlineMs \<le> cn_readyAt (pl_conn p c) + po_hardAgeMs options
            then (case checkout c deadlineMs p of (l, p') \<Rightarrow> (CallerReads l, p'))
            else await p)"

definition lease_call ::
    "pool_options \<Rightarrow> string \<Rightarrow> connection_identity \<Rightarrow> time \<Rightarrow> pool \<Rightarrow> pool" where
  "lease_call options key identity deadlineMs p =
     (case (if \<not> (0 < deadlineMs \<and> deadlineMs < po_hardAgeMs options) then (CallerFailed BadDeadline, p)
            else lease_turn options key identity deadlineMs p) of (state, p') \<Rightarrow>
        p'\<lparr>pl_caller := (pl_caller p')(pl_nCallers p' :=
              \<lparr>ca_key = key, ca_identity = identity, ca_deadlineMs = deadlineMs, ca_state = state\<rparr>),
           pl_nCallers := pl_nCallers p' + 1\<rparr>)"

text \<open>What a call does when the opening it awaits has settled.\<close>

definition resume_call :: "pool_options \<Rightarrow> nat \<Rightarrow> pool \<Rightarrow> pool" where
  "resume_call options k p =
     (let ca = pl_caller p k in
      case ca_state ca of
        CallerWaits i \<Rightarrow>
          (case (case og_result (pl_opening p i) of
                   OpenUnsettled \<Rightarrow> (CallerWaits i, p)
                 | OpenFailed e \<Rightarrow> (CallerFailed e, p)
                 | OpenDone c \<Rightarrow>
                     if usable p c (ca_identity ca)
                     then (case checkout c (ca_deadlineMs ca) p of (l, p') \<Rightarrow> (CallerReads l, p'))
                     else lease_turn options (ca_key ca) (ca_identity ca) (ca_deadlineMs ca) p) of (state, p') \<Rightarrow>
             p'\<lparr>pl_caller := (pl_caller p')(k := ca\<lparr>ca_state := state\<rparr>)\<rparr>)
      | _ \<Rightarrow> p)"

definition evict :: "string \<Rightarrow> pool \<Rightarrow> pool" where
  "evict key p =
     (case pl_entries p key of
        None \<Rightarrow> p
      | Some e \<Rightarrow>
          (let g = pl_generations p + 1;
               p1 = upd_entry e (\<lambda>en. en\<lparr>en_generation := g\<rparr>) (p\<lparr>pl_generations := g\<rparr>);
               p2 = fold (shut_down destroy_transport) (en_connections (pl_entry p e)) p1 in
           prune key e p2))"

section \<open>Steps\<close>

datatype pool_event =
    TimePasses nat
  | LeaseCalled string connection_identity time
  | OpenSucceeds nat
  | OpenFails nat thrown
  | CallResumes nat
  | ReadCalled nat read_call
  | OpAdmitted nat
  | ExecAnswers nat exec_result
  | StreamOpens nat
  | ChannelFails nat thrown
  | StreamCloses nat
  | LeaseReleased nat
  | LeaseExpires nat
  | IdleEnds nat
  | HardAgeEnds nat
  | Evicted string
  | TransportTurns nat transport_state

definition is_exec :: "read_call \<Rightarrow> bool" where
  "is_exec call = (case call of ExecCall _ \<Rightarrow> True | ForwardCall _ \<Rightarrow> False)"

definition timer_due :: "pool \<Rightarrow> time option \<Rightarrow> bool" where
  "timer_due p timer = (case timer of None \<Rightarrow> False | Some t \<Rightarrow> t \<le> pl_now p)"

text \<open>When an event can happen.\<close>

fun can_happen :: "pool \<Rightarrow> pool_event \<Rightarrow> bool" where
  "can_happen p (TimePasses ms) = True"
| "can_happen p (LeaseCalled key identity deadlineMs) = True"
| "can_happen p (OpenSucceeds i) = (0 < i \<and> i \<le> pl_opens p \<and> og_result (pl_opening p i) = OpenUnsettled)"
| "can_happen p (OpenFails i e) = (0 < i \<and> i \<le> pl_opens p \<and> og_result (pl_opening p i) = OpenUnsettled)"
| "can_happen p (CallResumes k) = (k < pl_nCallers p)"
| "can_happen p (ReadCalled l call) = (l < pl_nLeases p)"
| "can_happen p (OpAdmitted i) = (i \<in> set (pl_granted p))"
| "can_happen p (ExecAnswers i r) = (i < pl_nOps p \<and> ro_state (pl_op p i) = OpRequested \<and> is_exec (ro_call (pl_op p i)))"
| "can_happen p (StreamOpens i) = (i < pl_nOps p \<and> ro_state (pl_op p i) = OpRequested \<and> \<not> is_exec (ro_call (pl_op p i)))"
| "can_happen p (ChannelFails i e) = (i < pl_nOps p \<and> ro_state (pl_op p i) = OpRequested)"
| "can_happen p (StreamCloses i) = (i < pl_nOps p \<and> ro_stream (pl_op p i) \<noteq> None)"
| "can_happen p (LeaseReleased l) = (l < pl_nLeases p)"
| "can_happen p (LeaseExpires l) = (l < pl_nLeases p \<and> timer_due p (le_timer (pl_lease p l)))"
| "can_happen p (IdleEnds c) = (c < pl_nConns p \<and> timer_due p (cn_idleTimer (pl_conn p c)))"
| "can_happen p (HardAgeEnds c) = (c < pl_nConns p \<and> timer_due p (cn_hardTimer (pl_conn p c)))"
| "can_happen p (Evicted key) = True"
| "can_happen p (TransportTurns t s) = True"

fun happen :: "pool_options \<Rightarrow> pool_event \<Rightarrow> pool \<Rightarrow> pool" where
  "happen options (TimePasses ms) p = p\<lparr>pl_now := pl_now p + int ms\<rparr>"
| "happen options (LeaseCalled key identity deadlineMs) p = lease_call options key identity deadlineMs p"
| "happen options (OpenSucceeds i) p = open_succeeds options i p"
| "happen options (OpenFails i e) p = open_fails i (FromTransport e) p"
| "happen options (CallResumes k) p = resume_call options k p"
| "happen options (ReadCalled l call) p = snd (read_over options l call p)"
| "happen options (OpAdmitted i) p = admitted_op i p"
| "happen options (ExecAnswers i r) p = answer_op i (ReadResult r) p"
| "happen options (StreamOpens i) p = stream_opens i p"
| "happen options (ChannelFails i e) p = fail_op i (FromTransport e) p"
| "happen options (StreamCloses i) p = close_stream i p"
| "happen options (LeaseReleased l) p = release_lease options l p"
| "happen options (LeaseExpires l) p = expire l p"
| "happen options (IdleEnds c) p = shut_down close_transport c p"
| "happen options (HardAgeEnds c) p = shut_down destroy_transport c p"
| "happen options (Evicted key) p = evict key p"
| "happen options (TransportTurns t s) p = upd_transport t (\<lambda>x. x\<lparr>tr_state := s\<rparr>) p"

inductive pool_step :: "pool_options \<Rightarrow> pool \<Rightarrow> pool_event \<Rightarrow> pool \<Rightarrow> bool" for options where
  step: "can_happen p ev \<Longrightarrow> pool_step options p ev (happen options ev p)"

inductive_simps pool_step_iff: "pool_step options p ev q"

inductive pool_run :: "pool_options \<Rightarrow> pool \<Rightarrow> pool_event list \<Rightarrow> pool \<Rightarrow> bool" for options where
  none: "pool_run options p [] p"
| some: "pool_run options p evs q \<Longrightarrow> pool_step options q ev r \<Longrightarrow> pool_run options p (evs @ [ev]) r"

text \<open>Running events one after another, \<open>None\<close> where one cannot happen.\<close>

fun play :: "pool_options \<Rightarrow> pool_event list \<Rightarrow> pool \<Rightarrow> pool option" where
  "play options [] p = Some p"
| "play options (ev # evs) p = (if can_happen p ev then play options evs (happen options ev p) else None)"

definition no_identity :: connection_identity where
  "no_identity = \<lparr>ci_hostname = [], ci_port = 0, ci_username = [], ci_sshKeyId = [], ci_hostKeyFingerprint = []\<rparr>"

text \<open>A pool that has not been used. The rows below the counts are never read.\<close>

definition new_pool :: "time \<Rightarrow> pool" where
  "new_pool now =
     \<lparr>pl_now = now, pl_entries = (\<lambda>_. None), pl_entry = (\<lambda>_. new_entry 0), pl_nEntries = 0, pl_generations = 0,
      pl_opening = (\<lambda>_. \<lparr>og_key = [], og_entry = 0, og_identity = no_identity, og_generation = 0, og_result = OpenUnsettled\<rparr>),
      pl_opens = 0, pl_transport = (\<lambda>_. \<lparr>tr_state = TDisconnected, tr_destroys = 0, tr_closes = 0\<rparr>),
      pl_conn = (\<lambda>_. \<lparr>cn_key = [], cn_entry = 0, cn_transport = 0, cn_identity = no_identity, cn_readyAt = 0,
         cn_limiter = new_limiter, cn_leases = [], cn_ops = [], cn_retired = False, cn_closed = False,
         cn_idleTimer = None, cn_hardTimer = None\<rparr>),
      pl_nConns = 0,
      pl_lease = (\<lambda>_. \<lparr>le_connection = 0, le_ops = [], le_expired = False, le_released = False, le_timer = None\<rparr>),
      pl_nLeases = 0, pl_leaseCount = 0,
      pl_op = (\<lambda>_. \<lparr>ro_lease = 0, ro_call = ExecCall [], ro_state = OpQueued, ro_holdsSlot = False, ro_settled = False,
         ro_aborted = False, ro_stream = None, ro_answer = None\<rparr>),
      pl_nOps = 0, pl_granted = [],
      pl_caller = (\<lambda>_. \<lparr>ca_key = [], ca_identity = no_identity, ca_deadlineMs = 0, ca_state = CallerFailed BadDeadline\<rparr>),
      pl_nCallers = 0\<rparr>"

end
