(* ===== verification/ReadPoolSafety.thy ===== *)
theory ReadPoolSafety
  imports ReadPool
begin

text \<open>
  What holds in every pool that can be reached: operations and channels (\<open>core_ok\<close>), then connections,
  entries and leases (\<open>frame_ok\<close>), then the calls that wait (\<open>calls_ok\<close>). An operation that ends changes its
  own row, its places in its lease and connection, and the limiter: \<open>end_op\<close> is that change, and every way
  the source ends an operation is one.
\<close>

section \<open>Operations and channels\<close>

definition slots :: "pool \<Rightarrow> nat \<Rightarrow> nat set" where
  "slots p c = {i. i < pl_nOps p \<and> op_connection p i = c \<and> ro_holdsSlot (pl_op p i)}"

definition grants :: "pool \<Rightarrow> nat \<Rightarrow> nat" where
  "grants p c = length (filter (\<lambda>i. op_connection p i = c) (pl_granted p))"

definition waiting_on :: "pool \<Rightarrow> nat \<Rightarrow> nat list" where
  "waiting_on p c = lm_waiting (cn_limiter (pl_conn p c))"

definition active_on :: "pool \<Rightarrow> nat \<Rightarrow> nat" where
  "active_on p c = lm_active (cn_limiter (pl_conn p c))"

definition refs_ok :: "pool \<Rightarrow> bool" where
  "refs_ok p \<longleftrightarrow>
     (\<forall>l < pl_nLeases p. le_connection (pl_lease p l) < pl_nConns p) \<and>
     (\<forall>i < pl_nOps p. ro_lease (pl_op p i) < pl_nLeases p) \<and>
     (\<forall>c < pl_nConns p. \<forall>i \<in> set (cn_ops (pl_conn p c)). i < pl_nOps p \<and> op_connection p i = c) \<and>
     (\<forall>l < pl_nLeases p. \<forall>i \<in> set (le_ops (pl_lease p l)). i < pl_nOps p \<and> ro_lease (pl_op p i) = l) \<and>
     (\<forall>i < pl_nOps p. i \<in> set (cn_ops (pl_conn p (op_connection p i))) \<longleftrightarrow> i \<in> set (le_ops (pl_lease p (ro_lease (pl_op p i)))))"

definition limiter_ok :: "nat \<Rightarrow> pool \<Rightarrow> nat \<Rightarrow> bool" where
  "limiter_ok limit p c \<longleftrightarrow>
     active_on p c = grants p c + card (slots p c) \<and> active_on p c \<le> limit \<and>
     (waiting_on p c \<noteq> [] \<longrightarrow> active_on p c = limit) \<and> distinct (waiting_on p c) \<and>
     (\<forall>i \<in> set (waiting_on p c). i < pl_nOps p \<and> op_connection p i = c \<and> \<not> ro_settled (pl_op p i) \<and>
        ro_state (pl_op p i) = OpQueued \<and> i \<notin> set (pl_granted p))"

definition granted_ok :: "pool \<Rightarrow> bool" where
  "granted_ok p \<longleftrightarrow> distinct (pl_granted p) \<and>
     (\<forall>i \<in> set (pl_granted p). i < pl_nOps p \<and> \<not> ro_holdsSlot (pl_op p i) \<and> ro_state (pl_op p i) = OpQueued)"

definition op_ok :: "pool \<Rightarrow> nat \<Rightarrow> bool" where
  "op_ok p i \<longleftrightarrow>
     (ro_settled (pl_op p i) \<longleftrightarrow> ro_answer (pl_op p i) \<noteq> None) \<and>
     (ro_stream (pl_op p i) \<noteq> None \<longrightarrow> ro_settled (pl_op p i)) \<and>
     (ro_holdsSlot (pl_op p i) \<longrightarrow> i \<in> set (cn_ops (pl_conn p (op_connection p i))) \<and> ro_state (pl_op p i) \<noteq> OpQueued) \<and>
     (\<not> ro_settled (pl_op p i) \<longrightarrow> i \<in> set (cn_ops (pl_conn p (op_connection p i))) \<and>
        (if ro_state (pl_op p i) = OpQueued then i \<in> set (waiting_on p (op_connection p i)) \<or> i \<in> set (pl_granted p)
         else ro_state (pl_op p i) = OpRequested \<and> ro_holdsSlot (pl_op p i)))"

definition core_ok :: "nat \<Rightarrow> pool \<Rightarrow> bool" where
  "core_ok limit p \<longleftrightarrow> refs_ok p \<and> (\<forall>c < pl_nConns p. limiter_ok limit p c) \<and> granted_ok p \<and> (\<forall>i < pl_nOps p. op_ok p i)"

lemmas upd_defs = upd_entry_def upd_conn_def upd_lease_def upd_op_def upd_transport_def upd_opening_def

text \<open>The operation's row becomes \<open>x\<close>, and whatever it held or waited for is given back.\<close>

definition freed :: "bool \<Rightarrow> nat \<Rightarrow> limiter \<Rightarrow> nat option \<times> limiter" where
  "freed held i l = (if held then limiter_release (limiter_abandon i l) else (None, limiter_abandon i l))"

definition end_op :: "nat \<Rightarrow> read_op \<Rightarrow> pool \<Rightarrow> pool" where
  "end_op i x p =
     (let c = op_connection p i; l = ro_lease (pl_op p i); cn = pl_conn p c;
          f = freed (ro_holdsSlot (pl_op p i)) i (cn_limiter cn) in
      p\<lparr>pl_op := (pl_op p)(i := x),
        pl_lease := (pl_lease p)(l := (pl_lease p l)\<lparr>le_ops := removeAll i (le_ops (pl_lease p l))\<rparr>),
        pl_conn := (pl_conn p)(c := cn\<lparr>cn_ops := removeAll i (cn_ops cn), cn_limiter := snd f\<rparr>),
        pl_granted := pl_granted p @ (case fst f of None \<Rightarrow> [] | Some j \<Rightarrow> [j])\<rparr>)"

definition ended :: "read_op \<Rightarrow> read_op \<Rightarrow> bool" where
  "ended x y \<longleftrightarrow> ro_settled y \<and> \<not> ro_holdsSlot y \<and> ro_lease y = ro_lease x \<and> ro_call y = ro_call x \<and>
     ro_state y = ro_state x \<and> ro_answer y \<noteq> None"

definition abandoned :: "read_error \<Rightarrow> read_op \<Rightarrow> read_op" where
  "abandoned e x =
     (let y = (if ro_settled x then x else x\<lparr>ro_settled := True, ro_answer := Some (ReadFailed e)\<rparr>) in
      y\<lparr>ro_aborted := True, ro_holdsSlot := False, ro_stream := (if ro_stream x = None then None else Some False)\<rparr>)"

lemma read_op_no_slot: "\<not> ro_holdsSlot x \<Longrightarrow> x\<lparr>ro_holdsSlot := False\<rparr> = x"
  by (cases x) simp

lemma abandon_end_op: "abandon_op i e p = end_op i (abandoned e (pl_op p i)) p"
proof (cases "ro_holdsSlot (pl_op p i)")
  case True
  then show ?thesis
    by (cases "remove1 i (lm_waiting (cn_limiter (pl_conn p (op_connection p i))))"; intro pool.equality)
      (simp_all add: abandon_op_def close_stream_of_def finish_op_def abort_op_def settle_op_def upd_defs end_op_def abandoned_def
        op_connection_def release_slot_def freed_def Let_def limiter_release_def limiter_abandon_def)
next
  case False
  then show ?thesis
    by (cases "pl_op p i"; cases "pl_conn p (le_connection (pl_lease p (ro_lease (pl_op p i))))"; intro pool.equality)
      (simp_all add: abandon_op_def close_stream_of_def finish_op_def abort_op_def settle_op_def upd_defs end_op_def abandoned_def
        op_connection_def freed_def Let_def limiter_abandon_def)
qed

definition answered_op :: "read_answer \<Rightarrow> read_op \<Rightarrow> read_op" where
  "answered_op answer x = x\<lparr>ro_settled := True, ro_answer := Some answer, ro_holdsSlot := False\<rparr>"

definition stream_ended :: "read_op \<Rightarrow> read_op" where
  "stream_ended x = x\<lparr>ro_holdsSlot := False, ro_stream := (if ro_stream x = None then None else Some False)\<rparr>"

lemma not_waiting: "i \<notin> set (lm_waiting l) \<Longrightarrow> limiter_abandon i l = l"
  by (simp add: limiter_abandon_def remove1_idem)

lemma answer_end_op:
  assumes "\<not> ro_settled (pl_op p i)" and "i \<notin> set (waiting_on p (op_connection p i))"
  shows "answer_op i answer p = end_op i (answered_op answer (pl_op p i)) p"
  using assms
  by (cases "pl_op p i"; cases "pl_conn p (le_connection (pl_lease p (ro_lease (pl_op p i))))";
      cases "lm_waiting (cn_limiter (pl_conn p (op_connection p i)))"; intro pool.equality)
    (simp_all add: answer_op_def finish_op_def settle_op_def upd_defs end_op_def answered_op_def not_waiting waiting_on_def
      op_connection_def release_slot_def freed_def Let_def limiter_release_def)

lemma close_stream_end_op:
  assumes "i \<notin> set (waiting_on p (op_connection p i))"
  shows "close_stream i p = end_op i (stream_ended (pl_op p i)) p"
  using assms
  by (cases "pl_op p i"; cases "pl_conn p (le_connection (pl_lease p (ro_lease (pl_op p i))))";
      cases "lm_waiting (cn_limiter (pl_conn p (op_connection p i)))"; intro pool.equality)
    (simp_all add: close_stream_def close_stream_of_def finish_op_def upd_defs end_op_def stream_ended_def not_waiting
      waiting_on_def op_connection_def release_slot_def freed_def Let_def limiter_release_def)

lemma ended_rows:
  "ended x (abandoned e x)"
  "ended x (answered_op answer x)"
  "ro_settled x \<Longrightarrow> ro_answer x \<noteq> None \<Longrightarrow> ended x (stream_ended x)"
  if "ro_settled x \<longleftrightarrow> ro_answer x \<noteq> None" for x
  using that by (auto simp: ended_def abandoned_def answered_op_def stream_ended_def Let_def)

text \<open>What an operation that ends leaves as it was.\<close>

lemma end_op_same [simp]:
  "pl_now (end_op i x p) = pl_now p" "pl_entries (end_op i x p) = pl_entries p" "pl_entry (end_op i x p) = pl_entry p"
  "pl_nEntries (end_op i x p) = pl_nEntries p" "pl_generations (end_op i x p) = pl_generations p"
  "pl_opening (end_op i x p) = pl_opening p" "pl_opens (end_op i x p) = pl_opens p"
  "pl_transport (end_op i x p) = pl_transport p" "pl_nConns (end_op i x p) = pl_nConns p"
  "pl_nLeases (end_op i x p) = pl_nLeases p" "pl_leaseCount (end_op i x p) = pl_leaseCount p"
  "pl_nOps (end_op i x p) = pl_nOps p" "pl_caller (end_op i x p) = pl_caller p" "pl_nCallers (end_op i x p) = pl_nCallers p"
  "pl_op (end_op i x p) = (pl_op p)(i := x)"
  by (simp_all add: end_op_def Let_def)

lemma end_op_lease [simp]:
  "pl_lease (end_op i x p) l = (if l = ro_lease (pl_op p i) then (pl_lease p l)\<lparr>le_ops := removeAll i (le_ops (pl_lease p l))\<rparr>
     else pl_lease p l)"
  by (simp add: end_op_def Let_def)

lemma end_op_conn [simp]:
  "pl_conn (end_op i x p) c =
     (if c = op_connection p i
      then (pl_conn p c)\<lparr>cn_ops := removeAll i (cn_ops (pl_conn p c)),
             cn_limiter := snd (freed (ro_holdsSlot (pl_op p i)) i (cn_limiter (pl_conn p c)))\<rparr>
      else pl_conn p c)"
  by (simp add: end_op_def Let_def)

lemma end_op_granted:
  "pl_granted (end_op i x p) = pl_granted p @
     (case fst (freed (ro_holdsSlot (pl_op p i)) i (cn_limiter (pl_conn p (op_connection p i)))) of None \<Rightarrow> [] | Some j \<Rightarrow> [j])"
  by (simp add: end_op_def Let_def)

lemma end_op_connection [simp]: "ro_lease x = ro_lease (pl_op p i) \<Longrightarrow> op_connection (end_op i x p) j = op_connection p j"
  by (simp add: op_connection_def)

lemma end_op_slots:
  assumes "\<not> ro_holdsSlot x" and "ro_lease x = ro_lease (pl_op p i)"
  shows "slots (end_op i x p) c = slots p c - {i}"
  using assms by (auto simp: slots_def)

lemma finite_slots [simp]: "finite (slots p c)"
  by (simp add: slots_def)

lemma core_opD:
  assumes "core_ok limit p" and "i < pl_nOps p"
  shows "ro_lease (pl_op p i) < pl_nLeases p" "op_connection p i < pl_nConns p" "op_ok p i"
    "limiter_ok limit p (op_connection p i)"
  using assms by (auto simp: core_ok_def refs_ok_def op_connection_def)

lemma core_waiting:
  assumes "core_ok limit p" and "c < pl_nConns p" and "i \<in> set (waiting_on p c)"
  shows "i < pl_nOps p" "op_connection p i = c" "\<not> ro_settled (pl_op p i)" "ro_state (pl_op p i) = OpQueued"
    "i \<notin> set (pl_granted p)" "\<not> ro_holdsSlot (pl_op p i)"
proof -
  show "i < pl_nOps p" "op_connection p i = c" "\<not> ro_settled (pl_op p i)" "ro_state (pl_op p i) = OpQueued"
    "i \<notin> set (pl_granted p)"
    using assms by (auto simp: core_ok_def limiter_ok_def)
  then show "\<not> ro_holdsSlot (pl_op p i)" using core_opD(3) [OF assms(1)] by (auto simp: op_ok_def)
qed

lemma end_op_refs:
  assumes ok: "refs_ok p" and i: "i < pl_nOps p" and x: "ro_lease x = ro_lease (pl_op p i)"
  shows "refs_ok (end_op i x p)"
proof -
  have same: "op_connection (end_op i x p) j = op_connection p j" for j using x by simp
  have lease: "ro_lease (pl_op (end_op i x p) j) = ro_lease (pl_op p j)" for j using x by simp
  have ops: "set (cn_ops (pl_conn (end_op i x p) c)) = set (cn_ops (pl_conn p c)) - (if c = op_connection p i then {i} else {})"
    "set (le_ops (pl_lease (end_op i x p) l)) = set (le_ops (pl_lease p l)) - (if l = ro_lease (pl_op p i) then {i} else {})"
    "le_connection (pl_lease (end_op i x p) l) = le_connection (pl_lease p l)" for c l
    by simp_all
  show ?thesis
    unfolding refs_ok_def same lease ops
    using ok i x unfolding refs_ok_def by auto
qed

text \<open>The limiter of the operation's connection afterwards, and who it lets in.\<close>

lemma freed_values:
  assumes "lm_active l = g + (if held then Suc n else n)" and "lm_active l \<le> limit"
    and "lm_waiting l \<noteq> [] \<longrightarrow> lm_active l = limit" and "distinct (lm_waiting l)" and "held \<longrightarrow> i \<notin> set (lm_waiting l)"
  shows "lm_active (snd (freed held i l)) = g + (case fst (freed held i l) of None \<Rightarrow> 0 | Some _ \<Rightarrow> 1) + n"
    and "lm_active (snd (freed held i l)) \<le> limit"
    and "lm_waiting (snd (freed held i l)) \<noteq> [] \<longrightarrow> lm_active (snd (freed held i l)) = limit"
    and "distinct (lm_waiting (snd (freed held i l)))"
    and "set (lm_waiting (snd (freed held i l))) \<subseteq> set (lm_waiting l) - {i}"
    and "set (lm_waiting l) - {i} \<subseteq> set (lm_waiting (snd (freed held i l))) \<union> (case fst (freed held i l) of None \<Rightarrow> {} | Some j \<Rightarrow> {j})"
    and "\<And>j. fst (freed held i l) = Some j \<Longrightarrow> j \<in> set (lm_waiting l) - {i} \<and> j \<notin> set (lm_waiting (snd (freed held i l)))"
proof -
  have held: "remove1 i (lm_waiting l) = lm_waiting l" if held using assms(5) that by (simp add: remove1_idem)
  show "lm_active (snd (freed held i l)) = g + (case fst (freed held i l) of None \<Rightarrow> 0 | Some _ \<Rightarrow> 1) + n"
    and "lm_active (snd (freed held i l)) \<le> limit"
    and "lm_waiting (snd (freed held i l)) \<noteq> [] \<longrightarrow> lm_active (snd (freed held i l)) = limit"
    and "distinct (lm_waiting (snd (freed held i l)))"
    and "set (lm_waiting (snd (freed held i l))) \<subseteq> set (lm_waiting l) - {i}"
    and "set (lm_waiting l) - {i} \<subseteq> set (lm_waiting (snd (freed held i l))) \<union> (case fst (freed held i l) of None \<Rightarrow> {} | Some j \<Rightarrow> {j})"
    and "\<And>j. fst (freed held i l) = Some j \<Longrightarrow> j \<in> set (lm_waiting l) - {i} \<and> j \<notin> set (lm_waiting (snd (freed held i l)))"
    using assms held
    by (cases held; cases "lm_waiting l"; auto simp: freed_def limiter_release_def limiter_abandon_def set_remove1_eq)+
qed

lemma slots_not_waiting:
  assumes "core_ok limit p" and "i < pl_nOps p" and "ro_holdsSlot (pl_op p i)"
  shows "i \<notin> set (waiting_on p (op_connection p i))" "ro_state (pl_op p i) \<noteq> OpQueued"
  using core_waiting(6) [OF assms(1) core_opD(2) [OF assms(1,2)]] core_opD(3) [OF assms(1,2)] assms(3) by (auto simp: op_ok_def)

lemma end_op_core:
  assumes ok: "core_ok limit p" and i: "i < pl_nOps p" and x: "ended (pl_op p i) x"
  shows "core_ok limit (end_op i x p)"
proof -
  let ?q = "end_op i x p"
  define c0 where "c0 = op_connection p i"
  define f where "f = freed (ro_holdsSlot (pl_op p i)) i (cn_limiter (pl_conn p c0))"
  have xs: "ro_settled x" "\<not> ro_holdsSlot x" "ro_lease x = ro_lease (pl_op p i)" "ro_state x = ro_state (pl_op p i)" "ro_answer x \<noteq> None"
    using x by (auto simp: ended_def)
  have c0: "c0 < pl_nConns p" and lim: "limiter_ok limit p c0"
    using core_opD [OF ok i] by (auto simp: c0_def)
  have split: "card (slots p c0) = (if ro_holdsSlot (pl_op p i) then Suc (card (slots p c0 - {i})) else card (slots p c0 - {i}))"
  proof (cases "ro_holdsSlot (pl_op p i)")
    case True
    then have "i \<in> slots p c0" using i by (simp add: slots_def c0_def)
    then show ?thesis using True card.remove [OF finite_slots] by simp
  next
    case False
    then have "slots p c0 - {i} = slots p c0" by (auto simp: slots_def)
    then show ?thesis using False by simp
  qed
  let ?l = "cn_limiter (pl_conn p c0)"
  have w: "lm_waiting ?l = waiting_on p c0" by (simp add: waiting_on_def)
  have l: "lm_active ?l = grants p c0 + (if ro_holdsSlot (pl_op p i) then Suc (card (slots p c0 - {i})) else card (slots p c0 - {i}))"
    "lm_active ?l \<le> limit" "lm_waiting ?l \<noteq> [] \<longrightarrow> lm_active ?l = limit" "distinct (lm_waiting ?l)"
    using lim split by (auto simp: limiter_ok_def active_on_def waiting_on_def)
  have "ro_holdsSlot (pl_op p i) \<longrightarrow> i \<notin> set (lm_waiting ?l)"
    using slots_not_waiting(1) [OF ok i] by (simp add: waiting_on_def c0_def)
  note f = freed_values [OF l this, folded f_def, unfolded w]
  have conn: "op_connection ?q j = op_connection p j" for j using xs by simp
  have granted: "pl_granted ?q = pl_granted p @ (case fst f of None \<Rightarrow> [] | Some j \<Rightarrow> [j])"
    by (simp add: end_op_granted f_def c0_def)
  have admitted: "j < pl_nOps p" "op_connection p j = c0" "\<not> ro_settled (pl_op p j)" "ro_state (pl_op p j) = OpQueued"
    "j \<notin> set (pl_granted p)" "\<not> ro_holdsSlot (pl_op p j)" "j \<noteq> i" if "fst f = Some j" for j
    using core_waiting [OF ok c0] f(7) [OF that] by auto
  have waiting: "waiting_on ?q c = (if c = c0 then lm_waiting (snd f) else waiting_on p c)"
    and active: "active_on ?q c = (if c = c0 then lm_active (snd f) else active_on p c)" for c
    by (simp_all add: waiting_on_def active_on_def c0_def f_def)
  have grants: "grants ?q c = grants p c + (if c = c0 then (case fst f of None \<Rightarrow> 0 | Some _ \<Rightarrow> 1) else 0)" for c
    using admitted by (auto simp: grants_def granted conn split: option.splits)
  have slots: "slots ?q c = (if c = c0 then slots p c0 - {i} else slots p c)" for c
    using end_op_slots [OF xs(2,3)] by (auto simp: slots_def c0_def)
  have limiters: "limiter_ok limit ?q c" if c: "c < pl_nConns p" for c
  proof (cases "c = c0")
    case True
    have "\<forall>j \<in> set (lm_waiting (snd f)). j < pl_nOps p \<and> op_connection p j = c0 \<and> \<not> ro_settled (pl_op p j) \<and>
        ro_state (pl_op p j) = OpQueued \<and> j \<notin> set (pl_granted ?q) \<and> j \<noteq> i"
      using core_waiting [OF ok c0] f(5,7) by (auto simp: granted split: option.splits)
    then show ?thesis
      unfolding limiter_ok_def waiting active slots grants conn True using f(1-4) by simp
  next
    case False
    have l: "limiter_ok limit p c" using ok c by (simp add: core_ok_def)
    have "j \<noteq> i \<and> j \<notin> set (pl_granted ?q)" if "j \<in> set (waiting_on p c)" for j
    proof -
      have j: "op_connection p j = c" "j \<notin> set (pl_granted p)" using core_waiting [OF ok c that] by auto
      then have "fst f \<noteq> Some j" using admitted(2) False by metis
      then show ?thesis using j False by (auto simp: granted c0_def split: option.splits)
    qed
    then show ?thesis using l False unfolding limiter_ok_def waiting active slots grants conn by auto
  qed
  have "granted_ok ?q"
    using ok xs admitted unfolding granted_ok_def core_ok_def by (auto simp: granted split: option.splits)
  moreover have "op_ok ?q j" if j: "j < pl_nOps p" for j
  proof (cases "j = i")
    case True
    then show ?thesis using xs by (simp add: op_ok_def)
  next
    case False
    have o: "op_ok p j" using ok j by (simp add: core_ok_def)
    have "j \<in> set (waiting_on p c) \<Longrightarrow> j \<in> set (waiting_on ?q c) \<or> j \<in> set (pl_granted ?q)" for c
      using f(6) False by (auto simp: waiting granted split: option.splits)
    then show ?thesis using o False unfolding op_ok_def conn by (auto simp: granted)
  qed
  moreover have "refs_ok ?q" using ok i xs(3) end_op_refs by (simp add: core_ok_def)
  ultimately show ?thesis using limiters by (simp add: core_ok_def)
qed

text \<open>What else changes connections and leases adds rows and leaves what belongs to operations.\<close>

lemma core_extend:
  assumes ok: "core_ok limit p"
    and ops: "pl_op q = pl_op p" "pl_nOps q = pl_nOps p" "pl_granted q = pl_granted p"
    and leases: "pl_nLeases p \<le> pl_nLeases q"
      "\<And>l. l < pl_nLeases p \<Longrightarrow> le_connection (pl_lease q l) = le_connection (pl_lease p l) \<and> le_ops (pl_lease q l) = le_ops (pl_lease p l)"
      "\<And>l. pl_nLeases p \<le> l \<Longrightarrow> l < pl_nLeases q \<Longrightarrow> le_connection (pl_lease q l) < pl_nConns q \<and> le_ops (pl_lease q l) = []"
    and conns: "pl_nConns p \<le> pl_nConns q"
      "\<And>c. c < pl_nConns p \<Longrightarrow> cn_ops (pl_conn q c) = cn_ops (pl_conn p c) \<and> cn_limiter (pl_conn q c) = cn_limiter (pl_conn p c)"
      "\<And>c. pl_nConns p \<le> c \<Longrightarrow> c < pl_nConns q \<Longrightarrow> cn_ops (pl_conn q c) = [] \<and> cn_limiter (pl_conn q c) = new_limiter"
  shows "core_ok limit q"
proof -
  have refs: "refs_ok p" and limiters: "\<And>c. c < pl_nConns p \<Longrightarrow> limiter_ok limit p c" and granted: "granted_ok p"
    and op: "\<And>i. i < pl_nOps p \<Longrightarrow> op_ok p i"
    using ok by (auto simp: core_ok_def)
  have conn: "op_connection q i = op_connection p i" "op_connection p i < pl_nConns p" if "i < pl_nOps p" for i
    using core_opD [OF ok that] leases(2) by (auto simp: op_connection_def ops)
  have waiting: "waiting_on q c = (if c < pl_nConns p then waiting_on p c else [])"
    and active: "active_on q c = (if c < pl_nConns p then active_on p c else 0)" if "c < pl_nConns q" for c
    using conns(2) [of c] conns(3) [of c] that by (auto simp: waiting_on_def active_on_def new_limiter_def not_less)
  have on: "op_connection p i < pl_nConns p" "op_connection q i = op_connection p i" if "i \<in> set (pl_granted p)" for i
    using that granted conn by (auto simp: granted_ok_def)
  have grants: "grants q c = (if c < pl_nConns p then grants p c else 0)" for c
  proof (cases "c < pl_nConns p")
    case True
    have "filter (\<lambda>i. op_connection q i = c) (pl_granted p) = filter (\<lambda>i. op_connection p i = c) (pl_granted p)"
      by (rule filter_cong) (simp_all add: on)
    then show ?thesis using True by (simp add: grants_def ops)
  next
    case False
    then have "filter (\<lambda>i. op_connection q i = c) (pl_granted p) = []"
      using on by (auto simp: filter_empty_conv)
    then show ?thesis using False by (simp add: grants_def ops)
  qed
  have slots: "slots q c = (if c < pl_nConns p then slots p c else {})" for c
    using conn by (auto simp: slots_def ops)
  have "limiter_ok limit q c" if "c < pl_nConns q" for c
    using limiters [of c] conn that
    by (auto simp: limiter_ok_def waiting active grants slots ops)
  moreover have "op_ok q i" if "i < pl_nOps p" for i
    using op [OF that] conn [OF that] conns(1,2)
    by (auto simp: op_ok_def waiting ops)
  moreover have "refs_ok q"
    unfolding refs_ok_def
  proof (intro conjI allI impI ballI)
    fix l assume "l < pl_nLeases q"
    then have l: "l < pl_nLeases p \<or> le_connection (pl_lease q l) < pl_nConns q" using leases(3) [of l] by (meson not_less)
    moreover have "le_connection (pl_lease p l) < pl_nConns p" if "l < pl_nLeases p" using refs that by (simp add: refs_ok_def)
    ultimately show "le_connection (pl_lease q l) < pl_nConns q" using leases(2) [of l] conns(1) by auto
  next
    fix i assume "i < pl_nOps q"
    then show "ro_lease (pl_op q i) < pl_nLeases q" using refs leases(1) by (fastforce simp: refs_ok_def ops)
  next
    fix c i assume "c < pl_nConns q" "i \<in> set (cn_ops (pl_conn q c))"
    then have "c < pl_nConns p" "i \<in> set (cn_ops (pl_conn p c))" using conns(2,3) [of c] by (cases "c < pl_nConns p"; simp)+
    then have "i < pl_nOps p" "op_connection p i = c" using refs by (auto simp: refs_ok_def)
    then show "i < pl_nOps q" "op_connection q i = c" using conn by (auto simp: ops)
  next
    fix l i assume "l < pl_nLeases q" "i \<in> set (le_ops (pl_lease q l))"
    then have "l < pl_nLeases p" "i \<in> set (le_ops (pl_lease p l))" using leases(2,3) [of l] by (cases "l < pl_nLeases p"; simp)+
    then show "i < pl_nOps q" "ro_lease (pl_op q i) = l" using refs by (auto simp: refs_ok_def ops)
  next
    fix i assume "i < pl_nOps q"
    then have i: "i < pl_nOps p" by (simp add: ops)
    have "i \<in> set (cn_ops (pl_conn p (op_connection p i))) \<longleftrightarrow> i \<in> set (le_ops (pl_lease p (ro_lease (pl_op p i))))"
      using refs i unfolding refs_ok_def by blast
    then show "i \<in> set (cn_ops (pl_conn q (op_connection q i))) \<longleftrightarrow> i \<in> set (le_ops (pl_lease q (ro_lease (pl_op q i))))"
      using conn [OF i] conns(2) [OF conn(2) [OF i]] leases(2) [OF core_opD(1) [OF ok i]] by (simp add: ops)
  qed
  ultimately show ?thesis using granted by (simp add: core_ok_def granted_ok_def ops)
qed

lemma length_filter_removeAll:
  "distinct xs \<Longrightarrow> i \<in> set xs \<Longrightarrow> length (filter P xs) = (if P i then 1 else 0) + length (filter P (removeAll i xs))"
proof (induction xs)
  case (Cons a xs)
  show ?case
  proof (cases "a = i")
    case True
    then have "removeAll i xs = xs" using Cons.prems by simp
    then show ?thesis using True by simp
  next
    case False
    then show ?thesis using Cons by simp
  qed
qed simp

lemma admitted_op_core:
  assumes ok: "core_ok limit p" and i: "i \<in> set (pl_granted p)"
  shows "core_ok limit (admitted_op i p)"
proof -
  have granted: "granted_ok p" using ok by (simp add: core_ok_def)
  have n: "i < pl_nOps p" and hold: "\<not> ro_holdsSlot (pl_op p i)" and queued: "ro_state (pl_op p i) = OpQueued"
    using granted i by (auto simp: granted_ok_def)
  define c0 where "c0 = op_connection p i"
  have c0: "c0 < pl_nConns p" and lim: "limiter_ok limit p c0" using core_opD [OF ok n] by (auto simp: c0_def)
  have notwaiting: "i \<notin> set (waiting_on p c)" if "c < pl_nConns p" for c using core_waiting(5) [OF ok that] i by blast
  define p' where "p' = p\<lparr>pl_granted := removeAll i (pl_granted p)\<rparr>"
  have less: "grants p c = (if c = c0 then 1 else 0) + grants p' c" for c
    using length_filter_removeAll [of "pl_granted p" i "\<lambda>i. op_connection p i = c"] granted i
    by (auto simp: grants_def granted_ok_def p'_def c0_def op_connection_def)
  have refs: "refs_ok p" and limiters: "\<And>c. c < pl_nConns p \<Longrightarrow> limiter_ok limit p c"
    and op: "\<And>i. i < pl_nOps p \<Longrightarrow> op_ok p i"
    using ok by (auto simp: core_ok_def)
  show ?thesis
  proof (cases "ro_settled (pl_op p i)")
    case False
    define q where "q = p\<lparr>pl_granted := removeAll i (pl_granted p), pl_op := (pl_op p)(i := (pl_op p i)\<lparr>ro_holdsSlot := True, ro_state := OpRequested\<rparr>)\<rparr>"
    have q: "admitted_op i p = q" using False by (simp add: admitted_op_def q_def upd_defs Let_def)
    have conn: "op_connection q j = op_connection p j" for j by (simp add: q_def op_connection_def)
    have "slots q c = (if c = c0 then insert i (slots p c) else slots p c)" for c
      using n by (auto simp: slots_def q_def c0_def op_connection_def)
    moreover have "i \<notin> slots p c" for c using hold by (simp add: slots_def)
    ultimately have slots: "card (slots q c) = (if c = c0 then 1 else 0) + card (slots p c)" for c by simp
    have grants: "grants q c = grants p' c" for c
      unfolding grants_def conn by (simp add: q_def p'_def op_connection_def)
    have same: "waiting_on q c = waiting_on p c" "active_on q c = active_on p c" "pl_nConns q = pl_nConns p" "pl_nOps q = pl_nOps p"
      "pl_conn q = pl_conn p" for c
      by (simp_all add: q_def waiting_on_def active_on_def)
    have rows: "pl_op q j = (if j = i then (pl_op p i)\<lparr>ro_holdsSlot := True, ro_state := OpRequested\<rparr> else pl_op p j)" for j
      by (simp add: q_def)
    have "limiter_ok limit q c" if c: "c < pl_nConns p" for c
      using limiters [OF c] notwaiting [OF c] less [of c]
      unfolding limiter_ok_def conn same grants slots rows by (auto simp: q_def)
    moreover have "granted_ok q" using granted by (auto simp: granted_ok_def q_def distinct_removeAll)
    moreover have "op_ok q j" if "j < pl_nOps p" for j
      using op [OF that] False queued unfolding op_ok_def conn same rows by (auto simp: q_def)
    moreover have "refs_ok q" using refs by (simp add: refs_ok_def q_def op_connection_def)
    ultimately show ?thesis unfolding q by (simp add: core_ok_def same)
  next
    case True
    define f where "f = freed True i (cn_limiter (pl_conn p c0))"
    define q where "q = p\<lparr>pl_conn := (pl_conn p)(c0 := (pl_conn p c0)\<lparr>cn_limiter := snd f\<rparr>),
        pl_granted := removeAll i (pl_granted p) @ (case fst f of None \<Rightarrow> [] | Some j \<Rightarrow> [j])\<rparr>"
    let ?l = "cn_limiter (pl_conn p c0)"
    have w: "lm_waiting ?l = waiting_on p c0" by (simp add: waiting_on_def)
    have free: "freed True i ?l = limiter_release ?l"
      using notwaiting [OF c0] by (simp add: freed_def not_waiting w)
    have fr: "limiter_release (cn_limiter (pl_conn p c0)) = f" using free by (simp add: f_def)
    have q: "admitted_op i p = q"
      using True by (simp add: admitted_op_def q_def upd_defs release_slot_def fr c0_def [symmetric] split: prod.split)
    have l: "lm_active ?l = grants p' c0 + (if True then Suc (card (slots p c0)) else card (slots p c0))"
      "lm_active ?l \<le> limit" "lm_waiting ?l \<noteq> [] \<longrightarrow> lm_active ?l = limit" "distinct (lm_waiting ?l)"
      using lim less [of c0] by (auto simp: limiter_ok_def active_on_def waiting_on_def)
    have "True \<longrightarrow> i \<notin> set (lm_waiting ?l)" using notwaiting [OF c0] by (simp add: w)
    note f = freed_values [OF l this, folded f_def, unfolded w]
    have admitted: "j < pl_nOps p" "op_connection p j = c0" "\<not> ro_settled (pl_op p j)" "ro_state (pl_op p j) = OpQueued"
      "j \<notin> set (pl_granted p)" "\<not> ro_holdsSlot (pl_op p j)" "j \<noteq> i" if "fst f = Some j" for j
      using core_waiting [OF ok c0] f(7) [OF that] by auto
    have conn: "op_connection q j = op_connection p j" for j by (simp add: q_def op_connection_def)
    have slots: "slots q c = slots p c" for c by (simp add: slots_def q_def op_connection_def)
    have grants: "grants q c = grants p' c + (if c = c0 then (case fst f of None \<Rightarrow> 0 | Some _ \<Rightarrow> 1) else 0)" for c
      using admitted by (auto simp: grants_def q_def p'_def op_connection_def split: option.splits)
    have same: "pl_nConns q = pl_nConns p" "pl_nOps q = pl_nOps p" "pl_op q = pl_op p" by (simp_all add: q_def)
    have ops: "cn_ops (pl_conn q c) = cn_ops (pl_conn p c)" for c by (simp add: q_def)
    have waiting: "waiting_on q c = (if c = c0 then lm_waiting (snd f) else waiting_on p c)"
      and active: "active_on q c = (if c = c0 then lm_active (snd f) else active_on p c)" for c
      by (simp_all add: waiting_on_def active_on_def q_def)
    have in_granted: "j \<in> set (pl_granted q) \<longleftrightarrow> j \<in> set (pl_granted p) \<and> j \<noteq> i \<or> fst f = Some j" for j
      by (auto simp: q_def split: option.splits)
    have "limiter_ok limit q c" if c: "c < pl_nConns p" for c
    proof (cases "c = c0")
      case True
      have "\<forall>j \<in> set (lm_waiting (snd f)). j < pl_nOps p \<and> op_connection p j = c0 \<and> \<not> ro_settled (pl_op p j) \<and>
          ro_state (pl_op p j) = OpQueued \<and> j \<notin> set (pl_granted q)"
        using core_waiting [OF ok c0] f(5,7) by (auto simp: in_granted)
      then show ?thesis unfolding limiter_ok_def waiting active slots grants conn same True using f(1-4) by simp
    next
      case False
      have "j \<notin> set (pl_granted q)" if "j \<in> set (waiting_on p c)" for j
        using core_waiting(2,5) [OF ok c that] admitted(2) False by (auto simp: in_granted)
      then show ?thesis
        using limiters [OF c] False less [of c] unfolding limiter_ok_def waiting active slots grants conn same by auto
    qed
    moreover have "granted_ok q"
      using granted admitted by (auto simp: granted_ok_def q_def distinct_removeAll split: option.splits)
    moreover have "op_ok q j" if "j < pl_nOps p" for j
    proof (cases "j = i")
      case True
      then show ?thesis using op [OF n] \<open>ro_settled (pl_op p i)\<close> hold by (simp add: op_ok_def conn same)
    next
      case False
      have "j \<in> set (waiting_on p c) \<Longrightarrow> j \<in> set (waiting_on q c) \<or> j \<in> set (pl_granted q)" for c
        using f(6) False by (auto simp: waiting in_granted split: option.splits)
      then show ?thesis using op [OF that] False unfolding op_ok_def conn same ops by (auto simp: in_granted)
    qed
    moreover have "refs_ok q"
      using refs unfolding refs_ok_def conn same ops by (simp add: q_def)
    ultimately show ?thesis unfolding q by (simp add: core_ok_def same)
  qed
qed

lemma core_same:
  assumes "core_ok limit p"
    and "pl_op q = pl_op p" "pl_nOps q = pl_nOps p" "pl_granted q = pl_granted p" "pl_nLeases q = pl_nLeases p" "pl_nConns q = pl_nConns p"
    and "\<And>l. le_connection (pl_lease q l) = le_connection (pl_lease p l) \<and> le_ops (pl_lease q l) = le_ops (pl_lease p l)"
    and "\<And>c. cn_ops (pl_conn q c) = cn_ops (pl_conn p c) \<and> cn_limiter (pl_conn q c) = cn_limiter (pl_conn p c)"
  shows "core_ok limit q"
  by (rule core_extend [OF assms(1)]) (use assms in simp_all)

lemma abandon_core: "core_ok limit p \<Longrightarrow> i < pl_nOps p \<Longrightarrow> core_ok limit (abandon_op i e p)"
  unfolding abandon_end_op
  by (rule end_op_core) (auto intro!: ended_rows(1) dest: core_opD(3) simp: op_ok_def)

lemma answer_op_core:
  assumes ok: "core_ok limit p" and i: "i < pl_nOps p" and asked: "ro_state (pl_op p i) = OpRequested"
  shows "core_ok limit (answer_op i answer p)"
proof (cases "ro_settled (pl_op p i)")
  case False
  have "ro_holdsSlot (pl_op p i)" using core_opD(3) [OF ok i] False asked by (simp add: op_ok_def)
  then have "answer_op i answer p = end_op i (answered_op answer (pl_op p i)) p"
    using answer_end_op False slots_not_waiting(1) [OF ok i] by blast
  then show ?thesis
    using end_op_core [OF ok i ended_rows(2)] core_opD(3) [OF ok i] by (simp add: op_ok_def)
qed (simp add: answer_op_def ok)

lemma close_stream_core:
  assumes ok: "core_ok limit p" and i: "i < pl_nOps p" and settled: "ro_settled (pl_op p i)"
  shows "core_ok limit (close_stream i p)"
proof -
  have "i \<notin> set (waiting_on p (op_connection p i))"
    using core_waiting(3) [OF ok core_opD(2) [OF ok i]] settled by blast
  then have "close_stream i p = end_op i (stream_ended (pl_op p i)) p" by (rule close_stream_end_op)
  then show ?thesis
    using end_op_core [OF ok i ended_rows(3)] core_opD(3) [OF ok i] settled by (simp add: op_ok_def)
qed

lemma stream_opens_core:
  assumes ok: "core_ok limit p" and i: "i < pl_nOps p" and asked: "ro_state (pl_op p i) = OpRequested"
  shows "core_ok limit (stream_opens i p)"
proof (cases "ro_settled (pl_op p i)")
  case False
  define q where "q = stream_opens i p"
  have q: "q = p\<lparr>pl_op := (pl_op p)(i := (pl_op p i)\<lparr>ro_settled := True, ro_state := OpOpen, ro_stream := Some True, ro_answer := Some ReadStream\<rparr>)\<rparr>"
    using False by (simp add: q_def stream_opens_def upd_op_def)
  have conn: "op_connection q j = op_connection p j" for j by (simp add: q op_connection_def)
  have holds: "ro_holdsSlot (pl_op q j) = ro_holdsSlot (pl_op p j)" for j by (simp add: q)
  have "slots q c = slots p c" for c unfolding slots_def conn holds by (simp add: q)
  moreover have "grants q c = grants p c" for c unfolding grants_def conn by (simp add: q)
  moreover have "i \<notin> set (waiting_on p c)" if "c < pl_nConns p" for c
    using core_waiting(4) [OF ok that] asked by fastforce
  moreover have "waiting_on q c = waiting_on p c" "active_on q c = active_on p c" for c by (simp_all add: q waiting_on_def active_on_def)
  ultimately have "limiter_ok limit q c" if "c < pl_nConns p" for c
    using ok that unfolding core_ok_def limiter_ok_def conn by (auto simp: q)
  moreover have "op_ok q j" if "j < pl_nOps p" for j
    using core_opD(3) [OF ok that] asked False
    unfolding op_ok_def conn by (auto simp: q waiting_on_def split: if_splits)
  moreover have "granted_ok q"
    using ok asked unfolding core_ok_def granted_ok_def by (auto simp: q)
  moreover have "refs_ok q"
    using ok unfolding core_ok_def refs_ok_def conn by (auto simp: q)
  ultimately show ?thesis unfolding q_def [symmetric] by (simp add: core_ok_def q)
qed (simp add: stream_opens_def ok)

lemma read_over_core:
  assumes ok: "core_ok (po_channelLimit options) p" and l: "l < pl_nLeases p"
  shows "core_ok (po_channelLimit options) (snd (read_over options l call p))"
proof (cases "fst (begin_op l call p)")
  case (Inl e)
  then show ?thesis using ok by (auto simp: read_over_def begin_op_def Let_def split: if_splits)
next
  case (Inr n)
  define c0 where "c0 = le_connection (pl_lease p l)"
  define lim where "lim = limiter_acquire (po_channelLimit options) n (cn_limiter (pl_conn p c0))"
  define q where "q = snd (read_over options l call p)"
  have opened: "\<not> (le_released (pl_lease p l) \<or> cn_closed (pl_conn p (le_connection (pl_lease p l))))" "\<not> le_expired (pl_lease p l)"
    using Inr by (auto simp: begin_op_def Let_def split: if_splits)
  have n: "n = pl_nOps p" using Inr by (auto simp: begin_op_def Let_def split: if_splits)
  have q: "q = p\<lparr>pl_op := (pl_op p)(n := \<lparr>ro_lease = l, ro_call = call, ro_state = OpQueued, ro_holdsSlot = False,
        ro_settled = False, ro_aborted = False, ro_stream = None, ro_answer = None\<rparr>), pl_nOps := n + 1,
      pl_lease := (pl_lease p)(l := (pl_lease p l)\<lparr>le_ops := le_ops (pl_lease p l) @ [n]\<rparr>),
      pl_conn := (pl_conn p)(c0 := (pl_conn p c0)\<lparr>cn_ops := cn_ops (pl_conn p c0) @ [n], cn_limiter := snd lim\<rparr>),
      pl_granted := (if fst lim then pl_granted p @ [n] else pl_granted p)\<rparr>"
    using opened
    by (simp add: q_def read_over_def begin_op_def ask_slot_def Let_def upd_defs op_connection_def n [symmetric] lim_def
        c0_def split: prod.splits)
  have refs: "refs_ok p" and granted: "granted_ok p" using ok by (auto simp: core_ok_def)
  have c0: "c0 < pl_nConns p" using refs l by (simp add: refs_ok_def c0_def)
  then have limok: "limiter_ok (po_channelLimit options) p c0" using ok by (simp add: core_ok_def)
  have conn: "op_connection q j = (if j = n then c0 else op_connection p j)" for j
    by (simp add: q op_connection_def c0_def)
  have old: "ro_lease (pl_op p j) < pl_nLeases p" "j \<noteq> n" if "j < pl_nOps p" for j using core_opD(1) [OF ok that] that n by auto
  have fresh: "n \<notin> set (pl_granted p)" using granted n by (auto simp: granted_ok_def)
  have fresh_waiting: "n \<notin> set (waiting_on p c)" if "c < pl_nConns p" for c using core_waiting(1) [OF ok that] n by blast
  have slots: "slots q c = slots p c" for c
    by (auto simp: slots_def q n op_connection_def less_Suc_eq)
  have grants: "grants q c = grants p c + (if c = c0 \<and> fst lim then 1 else 0)" for c
  proof -
    have "filter (\<lambda>i. op_connection q i = c) (pl_granted p) = filter (\<lambda>i. op_connection p i = c) (pl_granted p)"
      by (rule filter_cong) (use fresh in \<open>auto simp: conn\<close>)
    moreover have "pl_granted q = pl_granted p @ (if fst lim then [n] else [])" by (simp add: q)
    ultimately show ?thesis by (simp add: grants_def conn)
  qed
  have waiting: "waiting_on q c = (if c = c0 then lm_waiting (snd lim) else waiting_on p c)"
    and active: "active_on q c = (if c = c0 then lm_active (snd lim) else active_on p c)" for c
    by (simp_all add: waiting_on_def active_on_def q)
  have acquired: "if fst lim then lm_waiting (snd lim) = waiting_on p c0 \<and> waiting_on p c0 = [] \<and>
        lm_active (snd lim) = Suc (active_on p c0) \<and> active_on p c0 < po_channelLimit options
      else lm_waiting (snd lim) = waiting_on p c0 @ [n] \<and> lm_active (snd lim) = active_on p c0 \<and>
        active_on p c0 = po_channelLimit options"
    using limok by (auto simp: lim_def limiter_acquire_def limiter_ok_def active_on_def waiting_on_def)
  have nums: "pl_nConns q = pl_nConns p" "pl_nOps q = Suc n" "pl_nLeases q = pl_nLeases p" by (simp_all add: q)
  have in_granted: "j \<in> set (pl_granted q) \<longleftrightarrow> j \<in> set (pl_granted p) \<or> j = n \<and> fst lim" for j by (auto simp: q)
  have row: "pl_op q j = (if j = n then \<lparr>ro_lease = l, ro_call = call, ro_state = OpQueued, ro_holdsSlot = False,
        ro_settled = False, ro_aborted = False, ro_stream = None, ro_answer = None\<rparr> else pl_op p j)" for j by (simp add: q)
  have ops: "set (cn_ops (pl_conn q c)) = set (cn_ops (pl_conn p c)) \<union> (if c = c0 then {n} else {})"
    "set (le_ops (pl_lease q k)) = set (le_ops (pl_lease p k)) \<union> (if k = l then {n} else {})"
    "le_connection (pl_lease q k) = le_connection (pl_lease p k)" for c k by (auto simp: q)
  have "limiter_ok (po_channelLimit options) q c" if c: "c < pl_nConns p" for c
  proof -
    have l: "limiter_ok (po_channelLimit options) p c" using ok c by (simp add: core_ok_def)
    have "j < Suc n \<and> op_connection q j = c \<and> \<not> ro_settled (pl_op q j) \<and> ro_state (pl_op q j) = OpQueued \<and> j \<notin> set (pl_granted q)"
      if "j \<in> set (waiting_on p c)" for j
      using core_waiting [OF ok c that] n by (auto simp: conn row in_granted)
    then show ?thesis
      using l acquired fresh fresh_waiting [OF c]
      unfolding limiter_ok_def waiting active slots grants nums
      by (auto simp: conn row in_granted split: if_splits)
  qed
  moreover have "distinct (pl_granted q)" using granted fresh by (auto simp: granted_ok_def q)
  then have "granted_ok q"
    using granted fresh unfolding granted_ok_def nums by (auto simp: row in_granted n intro: less_SucI)
  moreover have "op_ok q j" if "j < Suc n" for j
  proof (cases "j = n")
    case True
    then show ?thesis using acquired by (auto simp: op_ok_def row conn ops waiting in_granted split: if_splits)
  next
    case False
    then have "op_ok p j" "j < pl_nOps p" using ok that n by (auto simp: core_ok_def)
    then show ?thesis
      using False acquired unfolding op_ok_def by (auto simp: row conn ops waiting in_granted split: if_splits)
  qed
  moreover have "refs_ok q"
    unfolding refs_ok_def nums
  proof (intro conjI allI impI ballI)
    fix k assume "k < pl_nLeases p"
    then show "le_connection (pl_lease q k) < pl_nConns p" using refs by (simp add: ops refs_ok_def)
  next
    fix i assume "i < Suc n"
    then show "ro_lease (pl_op q i) < pl_nLeases p" using old(1) [of i] n l by (cases "i = n") (auto simp: row)
  next
    fix c i assume "c < pl_nConns p" "i \<in> set (cn_ops (pl_conn q c))"
    then have "i \<in> set (cn_ops (pl_conn p c)) \<or> (c = c0 \<and> i = n)" by (auto simp: ops split: if_splits)
    moreover have "i < pl_nOps p \<and> op_connection p i = c" if "i \<in> set (cn_ops (pl_conn p c))"
      using refs that \<open>c < pl_nConns p\<close> unfolding refs_ok_def by blast
    ultimately show "i < Suc n" "op_connection q i = c" using n by (auto simp: conn)
  next
    fix k i assume "k < pl_nLeases p" "i \<in> set (le_ops (pl_lease q k))"
    then have "i \<in> set (le_ops (pl_lease p k)) \<or> (k = l \<and> i = n)" by (auto simp: ops split: if_splits)
    moreover have "i < pl_nOps p \<and> ro_lease (pl_op p i) = k" if "i \<in> set (le_ops (pl_lease p k))"
      using refs that \<open>k < pl_nLeases p\<close> unfolding refs_ok_def by blast
    ultimately show "i < Suc n" "ro_lease (pl_op q i) = k" using n by (auto simp: row)
  next
    fix i assume "i < Suc n"
    moreover have "i \<in> set (cn_ops (pl_conn p (op_connection p i))) \<longleftrightarrow> i \<in> set (le_ops (pl_lease p (ro_lease (pl_op p i))))"
      if "i < pl_nOps p" using refs that unfolding refs_ok_def by blast
    moreover have "n \<notin> set (cn_ops (pl_conn p c0))" "n \<notin> set (le_ops (pl_lease p l))"
      using refs c0 l n unfolding refs_ok_def by blast+
    ultimately show "i \<in> set (cn_ops (pl_conn q (op_connection q i))) \<longleftrightarrow> i \<in> set (le_ops (pl_lease q (ro_lease (pl_op q i))))"
      using n by (cases "i = n") (auto simp: conn row ops)
  qed
  ultimately show ?thesis unfolding q_def [symmetric] by (simp add: core_ok_def nums)
qed


section \<open>Connections, entries and leases\<close>

lemma same_identity_eq [simp]: "same_connection_identity a b \<longleftrightarrow> a = b"
  by (cases a; cases b) (simp add: same_connection_identity_def)

definition conns_ok :: "time \<Rightarrow> pool \<Rightarrow> bool" where
  "conns_ok hardAge p \<longleftrightarrow>
     (\<forall>c < pl_nConns p. cn_entry (pl_conn p c) < pl_nEntries p \<and>
        (if cn_closed (pl_conn p c)
         then cn_ops (pl_conn p c) = [] \<and> cn_idleTimer (pl_conn p c) = None \<and> cn_hardTimer (pl_conn p c) = None
         else cn_hardTimer (pl_conn p c) = Some (cn_readyAt (pl_conn p c) + hardAge)))"

definition entries_ok :: "pool \<Rightarrow> bool" where
  "entries_ok p \<longleftrightarrow>
     (\<forall>key e. pl_entries p key = Some e \<longrightarrow> e < pl_nEntries p) \<and>
     (\<forall>e < pl_nEntries p.
        set (en_connections (pl_entry p e)) = {c. c < pl_nConns p \<and> \<not> cn_closed (pl_conn p c) \<and> cn_entry (pl_conn p c) = e} \<and>
        (\<forall>c. en_installed (pl_entry p e) = Some c \<longrightarrow> c \<in> set (en_connections (pl_entry p e)) \<and> \<not> cn_retired (pl_conn p c)))"

text \<open>The leases of \<open>Y\<close> are about to give their operations back.\<close>

definition leases_ok :: "nat set \<Rightarrow> pool \<Rightarrow> bool" where
  "leases_ok Y p \<longleftrightarrow>
     (\<forall>l < pl_nLeases p. l \<notin> Y \<and> (le_released (pl_lease p l) \<or> le_expired (pl_lease p l)) \<longrightarrow> le_ops (pl_lease p l) = []) \<and>
     (\<forall>c < pl_nConns p. set (cn_leases (pl_conn p c)) - Y =
        {l. l < pl_nLeases p \<and> \<not> le_released (pl_lease p l) \<and> le_connection (pl_lease p l) = c} - Y) \<and>
     pl_leaseCount p = int (card {l. l < pl_nLeases p \<and> \<not> le_released (pl_lease p l)})"

text \<open>An open connection without a lease is the one the next read will use; those of \<open>X\<close> are about to be closed.\<close>

definition used_ok :: "nat set \<Rightarrow> pool \<Rightarrow> bool" where
  "used_ok X p \<longleftrightarrow>
     (\<forall>c < pl_nConns p. c \<notin> X \<and> \<not> cn_closed (pl_conn p c) \<and> cn_leases (pl_conn p c) = [] \<longrightarrow>
        en_installed (pl_entry p (cn_entry (pl_conn p c))) = Some c)"

definition opening_of :: "pool \<Rightarrow> nat \<Rightarrow> bool" where
  "opening_of p i \<longleftrightarrow> 0 < i \<and> i \<le> pl_opens p"

definition opens_ok :: "pool \<Rightarrow> bool" where
  "opens_ok p \<longleftrightarrow>
     (\<forall>i. opening_of p i \<longrightarrow> og_entry (pl_opening p i) < pl_nEntries p \<and>
        (\<forall>c. og_result (pl_opening p i) = OpenDone c \<longrightarrow> c < pl_nConns p \<and>
           cn_key (pl_conn p c) = og_key (pl_opening p i) \<and> cn_identity (pl_conn p c) = og_identity (pl_opening p i))) \<and>
     (\<forall>e < pl_nEntries p. \<forall>pd. en_pending (pl_entry p e) = Some pd \<longrightarrow>
        opening_of p (pd_id pd) \<and> og_entry (pl_opening p (pd_id pd)) = e \<and>
        og_identity (pl_opening p (pd_id pd)) = pd_identity pd)"

text \<open>An entry serves one key, whether the table of entries still knows it or not.\<close>

definition keyed :: "pool \<Rightarrow> nat \<Rightarrow> string \<Rightarrow> bool" where
  "keyed p e key \<longleftrightarrow>
     (\<forall>k. pl_entries p k = Some e \<longrightarrow> k = key) \<and>
     (\<forall>c < pl_nConns p. cn_entry (pl_conn p c) = e \<longrightarrow> cn_key (pl_conn p c) = key) \<and>
     (\<forall>i. opening_of p i \<and> og_entry (pl_opening p i) = e \<longrightarrow> og_key (pl_opening p i) = key)"

definition keys_ok :: "pool \<Rightarrow> bool" where
  "keys_ok p \<longleftrightarrow> (\<forall>e < pl_nEntries p. \<exists>key. keyed p e key)"

definition calls_ok :: "pool \<Rightarrow> bool" where
  "calls_ok p \<longleftrightarrow>
     (\<forall>k < pl_nCallers p. case ca_state (pl_caller p k) of
        CallerWaits i \<Rightarrow> opening_of p i \<and> og_key (pl_opening p i) = ca_key (pl_caller p k) \<and>
          og_identity (pl_opening p i) = ca_identity (pl_caller p k)
      | CallerReads l \<Rightarrow> l < pl_nLeases p \<and>
          cn_key (pl_conn p (le_connection (pl_lease p l))) = ca_key (pl_caller p k) \<and>
          cn_identity (pl_conn p (le_connection (pl_lease p l))) = ca_identity (pl_caller p k)
      | CallerFailed e \<Rightarrow> True)"

lemmas frame_defs = conns_ok_def entries_ok_def leases_ok_def used_ok_def opens_ok_def keys_ok_def calls_ok_def

definition frame_ok :: "nat set \<Rightarrow> nat set \<Rightarrow> time \<Rightarrow> pool \<Rightarrow> bool" where
  "frame_ok X Y hardAge p \<longleftrightarrow> conns_ok hardAge p \<and> entries_ok p \<and> leases_ok Y p \<and> used_ok X p \<and> opens_ok p \<and> keys_ok p \<and> calls_ok p"

text \<open>Pools alike up to their operations.\<close>

definition conn_shape :: "pool_connection \<Rightarrow> pool_connection" where
  "conn_shape cn = cn\<lparr>cn_ops := [], cn_limiter := new_limiter\<rparr>"

definition lease_shape :: "read_lease \<Rightarrow> read_lease" where
  "lease_shape l = l\<lparr>le_ops := []\<rparr>"

lemma conn_shapeD:
  assumes "conn_shape a = conn_shape b"
  shows "cn_key a = cn_key b" "cn_entry a = cn_entry b" "cn_transport a = cn_transport b" "cn_identity a = cn_identity b"
    "cn_readyAt a = cn_readyAt b" "cn_leases a = cn_leases b" "cn_retired a = cn_retired b" "cn_closed a = cn_closed b"
    "cn_idleTimer a = cn_idleTimer b" "cn_hardTimer a = cn_hardTimer b"
  using assms by (cases a; cases b; simp add: conn_shape_def)+

lemma lease_shapeD:
  assumes "lease_shape a = lease_shape b"
  shows "le_connection a = le_connection b" "le_expired a = le_expired b" "le_released a = le_released b" "le_timer a = le_timer b"
  using assms by (cases a; cases b; simp add: lease_shape_def)+

definition alike :: "pool \<Rightarrow> pool \<Rightarrow> bool" where
  "alike p q \<longleftrightarrow>
     pl_entries q = pl_entries p \<and> pl_entry q = pl_entry p \<and> pl_nEntries q = pl_nEntries p \<and>
     pl_opening q = pl_opening p \<and> pl_opens q = pl_opens p \<and> pl_nConns q = pl_nConns p \<and> pl_nLeases q = pl_nLeases p \<and>
     pl_leaseCount q = pl_leaseCount p \<and> pl_caller q = pl_caller p \<and> pl_nCallers q = pl_nCallers p \<and>
     (\<forall>c. conn_shape (pl_conn q c) = conn_shape (pl_conn p c)) \<and> (\<forall>l. lease_shape (pl_lease q l) = lease_shape (pl_lease p l))"

lemma alikeD:
  assumes "alike p q"
  shows "pl_entries q = pl_entries p" "pl_entry q = pl_entry p" "pl_nEntries q = pl_nEntries p"
    "pl_opening q = pl_opening p" "pl_opens q = pl_opens p" "pl_nConns q = pl_nConns p" "pl_nLeases q = pl_nLeases p"
    "pl_leaseCount q = pl_leaseCount p" "pl_caller q = pl_caller p" "pl_nCallers q = pl_nCallers p"
    "cn_key (pl_conn q c) = cn_key (pl_conn p c)" "cn_entry (pl_conn q c) = cn_entry (pl_conn p c)"
    "cn_transport (pl_conn q c) = cn_transport (pl_conn p c)" "cn_identity (pl_conn q c) = cn_identity (pl_conn p c)"
    "cn_readyAt (pl_conn q c) = cn_readyAt (pl_conn p c)" "cn_leases (pl_conn q c) = cn_leases (pl_conn p c)"
    "cn_retired (pl_conn q c) = cn_retired (pl_conn p c)" "cn_closed (pl_conn q c) = cn_closed (pl_conn p c)"
    "cn_idleTimer (pl_conn q c) = cn_idleTimer (pl_conn p c)" "cn_hardTimer (pl_conn q c) = cn_hardTimer (pl_conn p c)"
    "le_connection (pl_lease q l) = le_connection (pl_lease p l)" "le_expired (pl_lease q l) = le_expired (pl_lease p l)"
    "le_released (pl_lease q l) = le_released (pl_lease p l)"
  using assms conn_shapeD [of "pl_conn q c" "pl_conn p c"] lease_shapeD [of "pl_lease q l" "pl_lease p l"]
  by (simp_all add: alike_def)

lemma alike_refl: "alike p p"
  by (simp add: alike_def)

lemma alike_trans: "alike p q \<Longrightarrow> alike q r \<Longrightarrow> alike p r"
  by (simp add: alike_def)

lemma frame_alike:
  assumes ok: "frame_ok X Y h p" and q: "alike p q"
    and conns: "\<And>c. c < pl_nConns p \<Longrightarrow> cn_closed (pl_conn p c) \<Longrightarrow> cn_ops (pl_conn q c) = []"
    and leases: "\<And>l. l < pl_nLeases p \<Longrightarrow> l \<notin> Y \<Longrightarrow> le_released (pl_lease p l) \<or> le_expired (pl_lease p l) \<Longrightarrow> le_ops (pl_lease q l) = []"
  shows "frame_ok X Y h q"
proof -
  have op_of: "opening_of q = opening_of p" by (simp add: opening_of_def fun_eq_iff alikeD [OF q])
  have kd: "keyed q = keyed p" by (simp add: keyed_def fun_eq_iff alikeD [OF q] op_of)
  have "conns_ok h q" using ok conns by (simp add: frame_ok_def conns_ok_def alikeD [OF q])
  moreover have "leases_ok Y q" using ok leases by (simp add: frame_ok_def leases_ok_def alikeD [OF q])
  ultimately show ?thesis
    using ok unfolding frame_ok_def entries_ok_def used_ok_def opens_ok_def keys_ok_def calls_ok_def alikeD [OF q] op_of kd by blast
qed

text \<open>Operations that end leave a pool alike.\<close>

definition ending :: "pool \<Rightarrow> pool \<Rightarrow> bool" where
  "ending p q \<longleftrightarrow> alike p q \<and> pl_nOps q = pl_nOps p \<and> pl_now q = pl_now p \<and> pl_transport q = pl_transport p \<and>
     pl_generations q = pl_generations p \<and>
     (\<forall>c. set (cn_ops (pl_conn q c)) \<subseteq> set (cn_ops (pl_conn p c))) \<and>
     (\<forall>l. set (le_ops (pl_lease q l)) \<subseteq> set (le_ops (pl_lease p l))) \<and>
     (\<forall>i. ro_lease (pl_op q i) = ro_lease (pl_op p i))"

lemma ending_refl: "ending p p"
  by (simp add: ending_def alike_refl)

lemma ending_trans: "ending p q \<Longrightarrow> ending q r \<Longrightarrow> ending p r"
  unfolding ending_def using alike_trans by (metis subset_trans)

lemma end_op_ending: "ro_lease x = ro_lease (pl_op p i) \<Longrightarrow> ending p (end_op i x p)"
  by (auto simp: ending_def alike_def conn_shape_def lease_shape_def)

lemma ending_frame:
  assumes "frame_ok X Y h p" and "ending p q"
  shows "frame_ok X Y h q"
proof (rule frame_alike [OF assms(1)])
  show "alike p q" using assms(2) by (simp add: ending_def)
  show "cn_ops (pl_conn q c) = []" if "c < pl_nConns p" "cn_closed (pl_conn p c)" for c
  proof -
    have "cn_ops (pl_conn p c) = []" using assms(1) that by (simp add: frame_ok_def conns_ok_def)
    then show ?thesis using assms(2) unfolding ending_def by (metis set_empty subset_empty)
  qed
  show "le_ops (pl_lease q l) = []" if "l < pl_nLeases p" "l \<notin> Y" "le_released (pl_lease p l) \<or> le_expired (pl_lease p l)" for l
  proof -
    have "le_ops (pl_lease p l) = []" using assms(1) that unfolding frame_ok_def leases_ok_def by blast
    then show ?thesis using assms(2) unfolding ending_def by (metis set_empty subset_empty)
  qed
qed

lemma abandon_ending: "ending p (abandon_op i e p)"
  unfolding abandon_end_op by (rule end_op_ending) (simp add: abandoned_def Let_def)

lemma abandon_gone:
  assumes "core_ok limit p" and "i < pl_nOps p"
  shows "c < pl_nConns p \<Longrightarrow> i \<notin> set (cn_ops (pl_conn (abandon_op i e p) c))"
    and "l < pl_nLeases p \<Longrightarrow> i \<notin> set (le_ops (pl_lease (abandon_op i e p) l))"
  using assms unfolding abandon_end_op core_ok_def refs_ok_def by auto

lemma fold_abandon:
  assumes "core_ok limit p" and "\<forall>i \<in> set ops. i < pl_nOps p"
  shows "core_ok limit (fold (\<lambda>i. abandon_op i e) ops p) \<and> ending p (fold (\<lambda>i. abandon_op i e) ops p) \<and>
     (\<forall>i \<in> set ops. (\<forall>c < pl_nConns p. i \<notin> set (cn_ops (pl_conn (fold (\<lambda>i. abandon_op i e) ops p) c))) \<and>
        (\<forall>l < pl_nLeases p. i \<notin> set (le_ops (pl_lease (fold (\<lambda>i. abandon_op i e) ops p) l))))"
  using assms
proof (induction ops arbitrary: p)
  case Nil
  then show ?case by (simp add: ending_refl)
next
  case (Cons i ops)
  let ?p = "abandon_op i e p" and ?q = "fold (\<lambda>i. abandon_op i e) ops (abandon_op i e p)"
  have i: "i < pl_nOps p" using Cons.prems by simp
  have e: "ending p ?p" by (rule abandon_ending)
  have nums: "pl_nOps ?p = pl_nOps p" "pl_nConns ?p = pl_nConns p" "pl_nLeases ?p = pl_nLeases p"
    using e by (auto simp: ending_def alike_def)
  have IH: "core_ok limit ?q \<and> ending ?p ?q \<and>
     (\<forall>i \<in> set ops. (\<forall>c < pl_nConns ?p. i \<notin> set (cn_ops (pl_conn ?q c))) \<and> (\<forall>l < pl_nLeases ?p. i \<notin> set (le_ops (pl_lease ?q l))))"
    using Cons.IH [OF abandon_core [OF Cons.prems(1) i]] Cons.prems(2) by (simp add: nums)
  have sub: "set (cn_ops (pl_conn ?q c)) \<subseteq> set (cn_ops (pl_conn ?p c))" "set (le_ops (pl_lease ?q l)) \<subseteq> set (le_ops (pl_lease ?p l))" for c l
    using IH by (auto simp: ending_def)
  have "(\<forall>c < pl_nConns p. i \<notin> set (cn_ops (pl_conn ?q c))) \<and> (\<forall>l < pl_nLeases p. i \<notin> set (le_ops (pl_lease ?q l)))"
    using abandon_gone [OF Cons.prems(1) i] sub by blast
  then show ?case using IH ending_trans [OF e] by (simp add: nums)
qed

text \<open>What closing a connection comes to.\<close>

definition closing :: "nat \<Rightarrow> pool \<Rightarrow> pool \<Rightarrow> bool" where
  "closing c p q \<longleftrightarrow>
     pl_now q = pl_now p \<and> pl_nEntries q = pl_nEntries p \<and> pl_generations q = pl_generations p \<and> pl_opening q = pl_opening p \<and>
     pl_opens q = pl_opens p \<and> pl_nConns q = pl_nConns p \<and> pl_nLeases q = pl_nLeases p \<and> pl_leaseCount q = pl_leaseCount p \<and>
     pl_nOps q = pl_nOps p \<and> pl_caller q = pl_caller p \<and> pl_nCallers q = pl_nCallers p \<and>
     (\<forall>k. pl_entries q k = pl_entries p k \<or> pl_entries q k = None) \<and>
     (\<forall>e. pl_entry q e = (if e = cn_entry (pl_conn p c)
        then (pl_entry p e)\<lparr>en_installed := (if en_installed (pl_entry p e) = Some c then None else en_installed (pl_entry p e)),
                             en_connections := removeAll c (en_connections (pl_entry p e))\<rparr>
        else pl_entry p e)) \<and>
     (\<forall>d. conn_shape (pl_conn q d) = conn_shape (if d = c then (pl_conn p c)\<lparr>cn_closed := True, cn_idleTimer := None, cn_hardTimer := None\<rparr>
        else pl_conn p d) \<and> set (cn_ops (pl_conn q d)) \<subseteq> set (cn_ops (pl_conn p d))) \<and>
     cn_ops (pl_conn q c) = [] \<and>
     (\<forall>l. lease_shape (pl_lease q l) = lease_shape (pl_lease p l) \<and> set (le_ops (pl_lease q l)) \<subseteq> set (le_ops (pl_lease p l)))"

lemma prune_same [simp]:
  "pl_now (prune k e p) = pl_now p" "pl_entry (prune k e p) = pl_entry p" "pl_nEntries (prune k e p) = pl_nEntries p"
  "pl_generations (prune k e p) = pl_generations p" "pl_opening (prune k e p) = pl_opening p" "pl_opens (prune k e p) = pl_opens p"
  "pl_transport (prune k e p) = pl_transport p" "pl_conn (prune k e p) = pl_conn p" "pl_nConns (prune k e p) = pl_nConns p"
  "pl_lease (prune k e p) = pl_lease p" "pl_nLeases (prune k e p) = pl_nLeases p" "pl_leaseCount (prune k e p) = pl_leaseCount p"
  "pl_op (prune k e p) = pl_op p" "pl_nOps (prune k e p) = pl_nOps p" "pl_granted (prune k e p) = pl_granted p"
  "pl_caller (prune k e p) = pl_caller p" "pl_nCallers (prune k e p) = pl_nCallers p"
  by (simp_all add: prune_def)

lemma prune_entries: "pl_entries (prune k e p) j = pl_entries p j \<or> pl_entries (prune k e p) j = None"
  by (simp add: prune_def)

lemma shut_down_closing:
  assumes ok: "core_ok limit p" and c: "c < pl_nConns p" and unclosed: "\<not> cn_closed (pl_conn p c)"
  shows "core_ok limit (shut_down how c p)" and "closing c p (shut_down how c p)"
proof -
  let ?e = "cn_entry (pl_conn p c)" and ?ops = "cn_ops (pl_conn p c)"
  define p1 where "p1 = upd_conn c (\<lambda>cn. cn\<lparr>cn_closed := True, cn_idleTimer := None, cn_hardTimer := None\<rparr>) p"
  define p2 where "p2 = upd_entry ?e (\<lambda>en. en\<lparr>en_installed := (if en_installed en = Some c then None else en_installed en),
                                         en_connections := removeAll c (en_connections en)\<rparr>) p1"
  define p3 where "p3 = fold (\<lambda>i. abandon_op i ConnectionLost) ?ops p2"
  define q where "q = shut_down how c p"
  have q: "q = prune (cn_key (pl_conn p c)) ?e (upd_transport (cn_transport (pl_conn p c)) how p3)"
    using unclosed by (simp add: q_def shut_down_def p1_def p2_def p3_def Let_def)
  have core2: "core_ok limit p2"
    by (rule core_same [OF ok]) (simp_all add: p2_def p1_def upd_defs)
  have ops: "\<forall>i \<in> set ?ops. i < pl_nOps p2"
    using ok c unfolding core_ok_def refs_ok_def by (auto simp: p2_def p1_def upd_defs)
  note fold = fold_abandon [OF core2 ops, of ConnectionLost, folded p3_def]
  have e: "ending p2 p3" using fold by blast
  note same = alikeD [of p2 p3]
  have a: "alike p2 p3" using e by (simp add: ending_def)
  have core3: "core_ok limit p3" using fold by blast
  show "core_ok limit (shut_down how c p)"
    unfolding q_def [symmetric] q by (rule core_same [OF core3]) (simp_all add: upd_defs)
  have none: "cn_ops (pl_conn p3 c) = []"
  proof -
    have "set (cn_ops (pl_conn p3 c)) \<subseteq> set (cn_ops (pl_conn p2 c))" using e by (simp add: ending_def)
    moreover have "cn_ops (pl_conn p2 c) = ?ops" by (simp add: p2_def p1_def upd_defs)
    moreover have "i \<notin> set (cn_ops (pl_conn p3 c))" if "i \<in> set ?ops" for i
      using fold that c by (simp add: p2_def p1_def upd_defs)
    ultimately show ?thesis by (metis ex_in_conv set_empty subsetD)
  qed
  have shape: "conn_shape (pl_conn p3 d) = conn_shape (pl_conn p2 d)" "lease_shape (pl_lease p3 l) = lease_shape (pl_lease p2 l)"
    "set (cn_ops (pl_conn p3 d)) \<subseteq> set (cn_ops (pl_conn p2 d))" "set (le_ops (pl_lease p3 l)) \<subseteq> set (le_ops (pl_lease p2 l))" for d l
    using e by (auto simp: ending_def alike_def)
  have two: "pl_conn p2 d = (if d = c then (pl_conn p c)\<lparr>cn_closed := True, cn_idleTimer := None, cn_hardTimer := None\<rparr> else pl_conn p d)"
    "pl_lease p2 = pl_lease p" for d by (simp_all add: p2_def p1_def upd_defs)
  have sub: "set (cn_ops (pl_conn p3 d)) \<subseteq> set (cn_ops (pl_conn p d))" for d using shape(3) [of d] two(1) [of d] by (auto split: if_splits)
  have now: "pl_now p3 = pl_now p2" "pl_generations p3 = pl_generations p2" "pl_nOps p3 = pl_nOps p2" using e by (simp_all add: ending_def)
  have entries: "pl_entries q k = pl_entries p k \<or> pl_entries q k = None" for k
    using prune_entries [of "cn_key (pl_conn p c)" ?e "upd_transport (cn_transport (pl_conn p c)) how p3" k] same(1) [OF a]
    by (simp add: q upd_defs p2_def p1_def)
  show "closing c p (shut_down how c p)"
    unfolding q_def [symmetric] closing_def
    using entries none shape sub
    by (simp add: q upd_transport_def now same [OF a] two) (simp add: p2_def p1_def upd_defs)
qed


lemma closingD:
  assumes "closing c p q"
  shows "pl_now q = pl_now p" "pl_nEntries q = pl_nEntries p" "pl_generations q = pl_generations p" "pl_opening q = pl_opening p"
    "pl_opens q = pl_opens p" "pl_nConns q = pl_nConns p" "pl_nLeases q = pl_nLeases p" "pl_leaseCount q = pl_leaseCount p"
    "pl_nOps q = pl_nOps p" "pl_caller q = pl_caller p" "pl_nCallers q = pl_nCallers p"
    "en_pending (pl_entry q e) = en_pending (pl_entry p e)" "en_generation (pl_entry q e) = en_generation (pl_entry p e)"
    "set (en_connections (pl_entry q e)) = (if e = cn_entry (pl_conn p c) then set (en_connections (pl_entry p e)) - {c} else set (en_connections (pl_entry p e)))"
    "en_installed (pl_entry q e) = (if e = cn_entry (pl_conn p c) \<and> en_installed (pl_entry p e) = Some c then None else en_installed (pl_entry p e))"
    "cn_key (pl_conn q d) = cn_key (pl_conn p d)" "cn_entry (pl_conn q d) = cn_entry (pl_conn p d)"
    "cn_transport (pl_conn q d) = cn_transport (pl_conn p d)" "cn_identity (pl_conn q d) = cn_identity (pl_conn p d)"
    "cn_readyAt (pl_conn q d) = cn_readyAt (pl_conn p d)" "cn_leases (pl_conn q d) = cn_leases (pl_conn p d)"
    "cn_retired (pl_conn q d) = cn_retired (pl_conn p d)"
    "cn_closed (pl_conn q d) = (d = c \<or> cn_closed (pl_conn p d))"
    "cn_idleTimer (pl_conn q d) = (if d = c then None else cn_idleTimer (pl_conn p d))"
    "cn_hardTimer (pl_conn q d) = (if d = c then None else cn_hardTimer (pl_conn p d))"
    "le_connection (pl_lease q l) = le_connection (pl_lease p l)" "le_expired (pl_lease q l) = le_expired (pl_lease p l)"
    "le_released (pl_lease q l) = le_released (pl_lease p l)"
    "cn_ops (pl_conn q c) = []" "cn_ops (pl_conn p d) = [] \<Longrightarrow> cn_ops (pl_conn q d) = []"
    "le_ops (pl_lease p l) = [] \<Longrightarrow> le_ops (pl_lease q l) = []"
proof -
  have shape: "conn_shape (pl_conn q d) = conn_shape (if d = c then (pl_conn p c)\<lparr>cn_closed := True, cn_idleTimer := None, cn_hardTimer := None\<rparr>
      else pl_conn p d)" "lease_shape (pl_lease q l) = lease_shape (pl_lease p l)"
    "set (cn_ops (pl_conn q d)) \<subseteq> set (cn_ops (pl_conn p d))" "set (le_ops (pl_lease q l)) \<subseteq> set (le_ops (pl_lease p l))"
    using assms unfolding closing_def by blast+
  note s = conn_shapeD [OF shape(1)] lease_shapeD [OF shape(2)]
  show "cn_key (pl_conn q d) = cn_key (pl_conn p d)" "cn_entry (pl_conn q d) = cn_entry (pl_conn p d)"
    "cn_transport (pl_conn q d) = cn_transport (pl_conn p d)" "cn_identity (pl_conn q d) = cn_identity (pl_conn p d)"
    "cn_readyAt (pl_conn q d) = cn_readyAt (pl_conn p d)" "cn_leases (pl_conn q d) = cn_leases (pl_conn p d)"
    "cn_retired (pl_conn q d) = cn_retired (pl_conn p d)"
    "cn_closed (pl_conn q d) = (d = c \<or> cn_closed (pl_conn p d))"
    "cn_idleTimer (pl_conn q d) = (if d = c then None else cn_idleTimer (pl_conn p d))"
    "cn_hardTimer (pl_conn q d) = (if d = c then None else cn_hardTimer (pl_conn p d))"
    "le_connection (pl_lease q l) = le_connection (pl_lease p l)" "le_expired (pl_lease q l) = le_expired (pl_lease p l)"
    "le_released (pl_lease q l) = le_released (pl_lease p l)"
    using s by simp_all
  show "cn_ops (pl_conn p d) = [] \<Longrightarrow> cn_ops (pl_conn q d) = []" "le_ops (pl_lease p l) = [] \<Longrightarrow> le_ops (pl_lease q l) = []"
    using shape(3,4) by auto
  have e: "pl_entry q e = (if e = cn_entry (pl_conn p c)
        then (pl_entry p e)\<lparr>en_installed := (if en_installed (pl_entry p e) = Some c then None else en_installed (pl_entry p e)),
                             en_connections := removeAll c (en_connections (pl_entry p e))\<rparr>
        else pl_entry p e)"
    using assms unfolding closing_def by blast
  show "en_pending (pl_entry q e) = en_pending (pl_entry p e)" "en_generation (pl_entry q e) = en_generation (pl_entry p e)"
    "set (en_connections (pl_entry q e)) = (if e = cn_entry (pl_conn p c) then set (en_connections (pl_entry p e)) - {c} else set (en_connections (pl_entry p e)))"
    "en_installed (pl_entry q e) = (if e = cn_entry (pl_conn p c) \<and> en_installed (pl_entry p e) = Some c then None else en_installed (pl_entry p e))"
    by (simp_all add: e)
qed (use assms in \<open>simp_all add: closing_def\<close>)

lemma closing_entries: "closing c p q \<Longrightarrow> pl_entries q k = Some e \<Longrightarrow> pl_entries p k = Some e"
  unfolding closing_def by (metis option.distinct(1))

lemma closing_frame:
  assumes ok: "frame_ok X Y h p" and c: "c < pl_nConns p" and q: "closing c p q"
  shows "frame_ok (X - {c}) Y h q"
proof -
  note D = closingD [OF q]
  have op_of: "opening_of q = opening_of p" by (simp add: opening_of_def fun_eq_iff D)
  have "conns_ok h q"
    using ok D(29,30) unfolding frame_ok_def conns_ok_def by (simp add: D(2,6,17,20,23-25))
  moreover have "entries_ok q"
    using ok closing_entries [OF q] unfolding frame_ok_def entries_ok_def by (auto simp: D(2,6,14,15,17,22,23) split: if_splits)
  moreover have "leases_ok Y q"
    using ok D(31) unfolding frame_ok_def leases_ok_def by (simp add: D(6-8,21,26-28))
  moreover have "used_ok (X - {c}) q"
    using ok unfolding frame_ok_def used_ok_def by (auto simp: D(6,15,17,21,23))
  moreover have "opens_ok q"
    using ok unfolding frame_ok_def opens_ok_def by (simp add: D(2,4,6,12,16,19) op_of)
  moreover have "keyed p e key \<Longrightarrow> keyed q e key" for e key
    using closing_entries [OF q] unfolding keyed_def by (auto simp: D(4,6,16,17) op_of)
  then have "keys_ok q"
    using ok unfolding frame_ok_def keys_ok_def D(2) by blast
  moreover have "calls_ok q"
    using ok unfolding frame_ok_def calls_ok_def D(4,7,10,11,16,19,26) op_of by blast
  ultimately show ?thesis by (simp add: frame_ok_def)
qed

definition pool_ok :: "pool_options \<Rightarrow> nat set \<Rightarrow> nat set \<Rightarrow> pool \<Rightarrow> bool" where
  "pool_ok options X Y p \<longleftrightarrow> core_ok (po_channelLimit options) p \<and> frame_ok X Y (po_hardAgeMs options) p"

lemma shut_down_ok:
  assumes "pool_ok options X Y p" and "c < pl_nConns p"
  shows "pool_ok options (X - {c}) Y (shut_down how c p)"
proof (cases "cn_closed (pl_conn p c)")
  case True
  then have "frame_ok (X - {c}) Y (po_hardAgeMs options) p"
    using assms by (auto simp: pool_ok_def frame_ok_def used_ok_def)
  then show ?thesis using assms True by (simp add: pool_ok_def shut_down_def)
next
  case False
  then show ?thesis
    using assms shut_down_closing [OF _ assms(2) False] closing_frame [OF _ assms(2)] unfolding pool_ok_def by blast
qed

lemma after_last_lease_ok:
  assumes ok: "pool_ok options X Y p" and c: "c < pl_nConns p"
  shows "pool_ok options (X - {c}) Y (after_last_lease options c p)"
proof -
  let ?cn = "pl_conn p c"
  consider (used) "cn_closed ?cn \<or> cn_leases ?cn \<noteq> []"
    | (gone) how where "after_last_lease options c p = shut_down how c p"
    | (idle) "\<not> cn_closed ?cn" "en_installed (pl_entry p (cn_entry ?cn)) = Some c"
        "after_last_lease options c p = upd_conn c (\<lambda>cn. cn\<lparr>cn_idleTimer := Some (pl_now p + po_idleMs options)\<rparr>) p"
    by (cases "cn_closed ?cn \<or> cn_leases ?cn \<noteq> []"; cases "cn_retired ?cn"; cases "en_installed (pl_entry p (cn_entry ?cn)) = Some c")
      (simp_all add: after_last_lease_def Let_def)
  then show ?thesis
  proof cases
    case used
    then have "after_last_lease options c p = p" by (auto simp: after_last_lease_def Let_def)
    then show ?thesis using ok used by (auto simp: pool_ok_def frame_ok_def used_ok_def)
  next
    case gone
    then show ?thesis using shut_down_ok [OF ok c] by simp
  next
    case idle
    define q where "q = upd_conn c (\<lambda>cn. cn\<lparr>cn_idleTimer := Some (pl_now p + po_idleMs options)\<rparr>) p"
    have core: "core_ok (po_channelLimit options) q"
      by (rule core_same [of _ p]) (use ok in \<open>simp_all add: pool_ok_def q_def upd_defs\<close>)
    have f: "pl_conn q d = (if d = c then ?cn\<lparr>cn_idleTimer := Some (pl_now p + po_idleMs options)\<rparr> else pl_conn p d)" for d
      by (simp add: q_def upd_defs)
    have fields: "cn_key (pl_conn q d) = cn_key (pl_conn p d)" "cn_entry (pl_conn q d) = cn_entry (pl_conn p d)"
      "cn_identity (pl_conn q d) = cn_identity (pl_conn p d)" "cn_readyAt (pl_conn q d) = cn_readyAt (pl_conn p d)"
      "cn_leases (pl_conn q d) = cn_leases (pl_conn p d)" "cn_retired (pl_conn q d) = cn_retired (pl_conn p d)"
      "cn_closed (pl_conn q d) = cn_closed (pl_conn p d)" "cn_hardTimer (pl_conn q d) = cn_hardTimer (pl_conn p d)"
      "cn_ops (pl_conn q d) = cn_ops (pl_conn p d)" "cn_closed (pl_conn p d) \<Longrightarrow> cn_idleTimer (pl_conn q d) = cn_idleTimer (pl_conn p d)" for d
      using idle(1) by (auto simp: f)
    have rest: "pl_entries q = pl_entries p" "pl_entry q = pl_entry p" "pl_nEntries q = pl_nEntries p" "pl_opening q = pl_opening p"
      "pl_opens q = pl_opens p" "pl_nConns q = pl_nConns p" "pl_nLeases q = pl_nLeases p" "pl_leaseCount q = pl_leaseCount p"
      "pl_caller q = pl_caller p" "pl_nCallers q = pl_nCallers p" "pl_lease q = pl_lease p"
      by (simp_all add: q_def upd_defs)
    have op_of: "opening_of q = opening_of p" by (simp add: opening_of_def fun_eq_iff rest)
    have kd: "keyed q = keyed p" by (simp add: keyed_def fun_eq_iff rest fields op_of)
    have frame: "frame_ok X Y (po_hardAgeMs options) p" using ok by (simp add: pool_ok_def)
    have "conns_ok (po_hardAgeMs options) q"
      using frame unfolding frame_ok_def conns_ok_def by (simp add: fields rest)
    moreover have "used_ok (X - {c}) q"
      using frame idle unfolding frame_ok_def used_ok_def fields rest by auto
    moreover have "entries_ok q = entries_ok p" unfolding entries_ok_def fields(1-9) rest ..
    moreover have "leases_ok Y q = leases_ok Y p" unfolding leases_ok_def fields(1-9) rest ..
    moreover have "opens_ok q = opens_ok p" unfolding opens_ok_def fields(1-9) rest op_of ..
    moreover have "keys_ok q = keys_ok p" unfolding keys_ok_def rest kd ..
    moreover have "calls_ok q = calls_ok p" unfolding calls_ok_def fields(1-9) rest op_of ..
    ultimately have "frame_ok (X - {c}) Y (po_hardAgeMs options) q" using frame by (simp add: frame_ok_def)
    then show ?thesis using core idle(3) by (simp add: pool_ok_def q_def)
  qed
qed

lemma retire_ok:
  assumes ok: "pool_ok options X Y p" and c: "c < pl_nConns p" and used: "cn_leases (pl_conn p c) \<noteq> []"
  shows "pool_ok options X Y (retire c p)"
proof -
  define q where "q = retire c p"
  have q: "q = upd_entry (cn_entry (pl_conn p c))
       (\<lambda>en. en\<lparr>en_installed := (if en_installed en = Some c then None else en_installed en)\<rparr>)
       (upd_conn c (\<lambda>cn. cn\<lparr>cn_retired := True\<rparr>) p)" by (simp add: q_def retire_def)
  have core: "core_ok (po_channelLimit options) q"
    by (rule core_same [of _ p]) (use ok in \<open>simp_all add: pool_ok_def q upd_defs\<close>)
  have fields: "cn_key (pl_conn q d) = cn_key (pl_conn p d)" "cn_entry (pl_conn q d) = cn_entry (pl_conn p d)"
    "cn_identity (pl_conn q d) = cn_identity (pl_conn p d)" "cn_readyAt (pl_conn q d) = cn_readyAt (pl_conn p d)"
    "cn_leases (pl_conn q d) = cn_leases (pl_conn p d)" "cn_idleTimer (pl_conn q d) = cn_idleTimer (pl_conn p d)"
    "cn_closed (pl_conn q d) = cn_closed (pl_conn p d)" "cn_hardTimer (pl_conn q d) = cn_hardTimer (pl_conn p d)"
    "cn_ops (pl_conn q d) = cn_ops (pl_conn p d)" "cn_retired (pl_conn q d) = (d = c \<or> cn_retired (pl_conn p d))"
    "en_connections (pl_entry q e) = en_connections (pl_entry p e)" "en_pending (pl_entry q e) = en_pending (pl_entry p e)"
    "en_installed (pl_entry q e) = (if e = cn_entry (pl_conn p c) \<and> en_installed (pl_entry p e) = Some c then None else en_installed (pl_entry p e))" for d e
    by (simp_all add: q upd_defs)
  have rest: "pl_entries q = pl_entries p" "pl_nEntries q = pl_nEntries p" "pl_opening q = pl_opening p"
    "pl_opens q = pl_opens p" "pl_nConns q = pl_nConns p" "pl_nLeases q = pl_nLeases p" "pl_leaseCount q = pl_leaseCount p"
    "pl_caller q = pl_caller p" "pl_nCallers q = pl_nCallers p" "pl_lease q = pl_lease p"
    by (simp_all add: q upd_defs)
  have op_of: "opening_of q = opening_of p" by (simp add: opening_of_def fun_eq_iff rest)
  have kd: "keyed q = keyed p" by (simp add: keyed_def fun_eq_iff rest fields op_of)
  have frame: "frame_ok X Y (po_hardAgeMs options) p" using ok by (simp add: pool_ok_def)
  have E: "entries_ok p" using frame by (simp add: frame_ok_def)
  have "d \<in> set (en_connections (pl_entry p e)) \<and> \<not> (d = c \<or> cn_retired (pl_conn p d))"
    if e: "e < pl_nEntries p" and d: "en_installed (pl_entry q e) = Some d" for e d
  proof -
    have "en_installed (pl_entry p e) = Some d" using d fields(13) [of e] by (metis option.distinct(1))
    then have "d \<in> set (en_connections (pl_entry p e))" "\<not> cn_retired (pl_conn p d)" "cn_entry (pl_conn p d) = e"
      using E e unfolding entries_ok_def by blast+
    moreover have "d \<noteq> c" using d fields(13) [of e] calculation(3) by (auto split: if_splits)
    ultimately show ?thesis by blast
  qed
  then have "entries_ok q"
    using E unfolding entries_ok_def fields(1-12) rest by blast
  moreover have "en_installed (pl_entry q (cn_entry (pl_conn p d))) = Some d"
    if d: "d < pl_nConns p" "d \<notin> X" "\<not> cn_closed (pl_conn p d)" "cn_leases (pl_conn p d) = []" for d
  proof -
    have "en_installed (pl_entry p (cn_entry (pl_conn p d))) = Some d" using frame d unfolding frame_ok_def used_ok_def by blast
    moreover have "d \<noteq> c" using used d(4) by blast
    ultimately show ?thesis by (simp add: fields(13))
  qed
  then have "used_ok X q" unfolding used_ok_def fields(1-12) rest by blast
  moreover have "conns_ok (po_hardAgeMs options) q = conns_ok (po_hardAgeMs options) p" unfolding conns_ok_def fields rest ..
  moreover have "leases_ok Y q = leases_ok Y p" unfolding leases_ok_def fields rest ..
  moreover have "opens_ok q = opens_ok p" unfolding opens_ok_def fields rest op_of ..
  moreover have "keys_ok q = keys_ok p" unfolding keys_ok_def rest kd ..
  moreover have "calls_ok q = calls_ok p" unfolding calls_ok_def fields rest op_of ..
  ultimately have "frame_ok X Y (po_hardAgeMs options) q" using frame by (simp add: frame_ok_def)
  then show ?thesis using core by (simp add: pool_ok_def q_def)
qed

lemma abandon_ok: "pool_ok options X Y p \<Longrightarrow> i < pl_nOps p \<Longrightarrow> pool_ok options X Y (abandon_op i e p)"
  using abandon_core ending_frame [OF _ abandon_ending] by (auto simp: pool_ok_def)

lemma expire_op_ok:
  assumes ok: "pool_ok options X Y p" and i: "i < pl_nOps p" and used: "cn_leases (pl_conn p (op_connection p i)) \<noteq> []"
  shows "pool_ok options X Y (expire_op i p)"
proof -
  have "op_connection p i < pl_nConns p" using core_opD(2) ok i by (auto simp: pool_ok_def)
  then have "pool_ok options X Y (retire (op_connection p i) p)" by (rule retire_ok [OF ok _ used])
  moreover have "pl_nOps (retire (op_connection p i) p) = pl_nOps p" by (simp add: retire_def upd_defs)
  ultimately show ?thesis using abandon_ok ok i by (simp add: expire_op_def)
qed

definition expiring :: "pool \<Rightarrow> pool \<Rightarrow> bool" where
  "expiring p q \<longleftrightarrow> pl_nOps q = pl_nOps p \<and> pl_nConns q = pl_nConns p \<and> pl_nLeases q = pl_nLeases p \<and>
     (\<forall>c. cn_leases (pl_conn q c) = cn_leases (pl_conn p c)) \<and> (\<forall>i. ro_lease (pl_op q i) = ro_lease (pl_op p i)) \<and>
     (\<forall>l. lease_shape (pl_lease q l) = lease_shape (pl_lease p l) \<and> set (le_ops (pl_lease q l)) \<subseteq> set (le_ops (pl_lease p l)))"

lemma expiring_trans: "expiring p q \<Longrightarrow> expiring q r \<Longrightarrow> expiring p r"
  unfolding expiring_def by (metis subset_trans)

lemma ending_expiring: "ending p q \<Longrightarrow> expiring p q"
  by (simp add: ending_def expiring_def alike_def) (metis conn_shapeD(6))

lemma retire_expiring: "expiring p (retire c p)"
  by (simp add: expiring_def retire_def upd_defs)

lemma expire_op_expiring: "expiring p (expire_op i p)"
  using expiring_trans [OF retire_expiring ending_expiring [OF abandon_ending]] ending_expiring [OF abandon_ending]
  by (simp add: expire_op_def)

lemma expiring_connection: "expiring p q \<Longrightarrow> op_connection q i = op_connection p i"
  using lease_shapeD(1) [of "pl_lease q (ro_lease (pl_op p i))" "pl_lease p (ro_lease (pl_op p i))"]
  by (simp add: expiring_def op_connection_def)

lemma expire_op_gone:
  assumes "core_ok limit p" and "i < pl_nOps p" and "l < pl_nLeases p"
  shows "i \<notin> set (le_ops (pl_lease (expire_op i p) l))"
proof -
  have "core_ok limit (retire (op_connection p i) p)"
    by (rule core_same [OF assms(1)]) (simp_all add: retire_def upd_defs)
  moreover have "pl_nOps (retire c p) = pl_nOps p" "pl_nLeases (retire c p) = pl_nLeases p" for c
    by (simp_all add: retire_def upd_defs)
  ultimately show ?thesis using assms by (simp add: expire_op_def abandon_gone(2))
qed

lemma fold_expire:
  assumes "pool_ok options X Y p" and "\<forall>i \<in> set ops. i < pl_nOps p \<and> cn_leases (pl_conn p (op_connection p i)) \<noteq> []"
  shows "pool_ok options X Y (fold expire_op ops p) \<and> expiring p (fold expire_op ops p) \<and>
     (\<forall>i \<in> set ops. \<forall>l < pl_nLeases p. i \<notin> set (le_ops (pl_lease (fold expire_op ops p) l)))"
  using assms
proof (induction ops arbitrary: p)
  case Nil
  then show ?case by (simp add: expiring_def)
next
  case (Cons i ops)
  have e: "expiring p (expire_op i p)" by (rule expire_op_expiring)
  have ok: "pool_ok options X Y (expire_op i p)" using expire_op_ok Cons.prems by simp
  have "\<forall>j \<in> set ops. j < pl_nOps (expire_op i p) \<and> cn_leases (pl_conn (expire_op i p) (op_connection (expire_op i p) j)) \<noteq> []"
    using Cons.prems(2) e by (simp add: expiring_connection [OF e] expiring_def)
  note IH = Cons.IH [OF ok this]
  have n: "pl_nLeases (expire_op i p) = pl_nLeases p" using e by (simp add: expiring_def)
  have "i \<notin> set (le_ops (pl_lease (fold expire_op ops (expire_op i p)) l))" if "l < pl_nLeases p" for l
    using expire_op_gone [of _ p i l] Cons.prems that IH unfolding pool_ok_def expiring_def by (metis list.set_intros(1) subsetD)
  then show ?case using IH expiring_trans [OF e] by (simp add: n)
qed

text \<open>A lease that has given its operations back.\<close>

lemma lease_emptied:
  assumes ok: "pool_ok options X (insert l Y) q" and ops: "le_ops (pl_lease q l) = []"
    and conns: "\<And>c. c < pl_nConns q \<Longrightarrow> l \<in> set (cn_leases (pl_conn q c)) \<longleftrightarrow>
      l < pl_nLeases q \<and> \<not> le_released (pl_lease q l) \<and> le_connection (pl_lease q l) = c"
  shows "pool_ok options X Y q"
proof -
  have L: "leases_ok (insert l Y) q" using ok by (simp add: pool_ok_def frame_ok_def)
  have "set (cn_leases (pl_conn q c)) - Y = {l. l < pl_nLeases q \<and> \<not> le_released (pl_lease q l) \<and> le_connection (pl_lease q l) = c} - Y"
    if c: "c < pl_nConns q" for c
  proof -
    have "set (cn_leases (pl_conn q c)) - insert l Y =
        {l. l < pl_nLeases q \<and> \<not> le_released (pl_lease q l) \<and> le_connection (pl_lease q l) = c} - insert l Y"
      using L c unfolding leases_ok_def by blast
    then show ?thesis using conns [OF c] by (cases "l \<in> set (cn_leases (pl_conn q c))") blast+
  qed
  moreover have "le_ops (pl_lease q k) = []" if "k < pl_nLeases q" "k \<notin> Y" "le_released (pl_lease q k) \<or> le_expired (pl_lease q k)" for k
    using L ops that unfolding leases_ok_def by (cases "k = l") auto
  ultimately have "leases_ok Y q" using L unfolding leases_ok_def by blast
  then show ?thesis using ok by (simp add: pool_ok_def frame_ok_def)
qed

lemma pool_leases:
  assumes "pool_ok options X {} p" and "c < pl_nConns p"
  shows "l \<in> set (cn_leases (pl_conn p c)) \<longleftrightarrow> l < pl_nLeases p \<and> \<not> le_released (pl_lease p l) \<and> le_connection (pl_lease p l) = c"
  using assms unfolding pool_ok_def frame_ok_def leases_ok_def by blast

lemma lease_ops:
  assumes "core_ok limit p" and "l < pl_nLeases p" and "i \<in> set (le_ops (pl_lease p l))"
  shows "i < pl_nOps p" and "ro_lease (pl_op p i) = l"
  using assms unfolding core_ok_def refs_ok_def by blast+

lemma expire_ok:
  assumes ok: "pool_ok options X {} p" and l: "l < pl_nLeases p"
  shows "pool_ok options X {} (expire l p)"
proof -
  define p1 where "p1 = upd_lease l (\<lambda>x. x\<lparr>le_expired := True, le_timer := None\<rparr>) p"
  define q where "q = expire l p"
  let ?ops = "le_ops (pl_lease p l)" and ?c = "le_connection (pl_lease p l)"
  have core: "core_ok (po_channelLimit options) p" using ok by (simp add: pool_ok_def)
  have c: "?c < pl_nConns p" using core l by (simp add: core_ok_def refs_ok_def)
  have q: "q = fold expire_op ?ops p1" by (simp add: q_def expire_def p1_def)
  have rest: "pl_entries p1 = pl_entries p" "pl_entry p1 = pl_entry p" "pl_nEntries p1 = pl_nEntries p" "pl_opening p1 = pl_opening p"
    "pl_opens p1 = pl_opens p" "pl_nConns p1 = pl_nConns p" "pl_nLeases p1 = pl_nLeases p" "pl_leaseCount p1 = pl_leaseCount p"
    "pl_caller p1 = pl_caller p" "pl_nCallers p1 = pl_nCallers p" "pl_conn p1 = pl_conn p" "pl_op p1 = pl_op p" "pl_nOps p1 = pl_nOps p"
    "le_connection (pl_lease p1 k) = le_connection (pl_lease p k)" "le_released (pl_lease p1 k) = le_released (pl_lease p k)"
    "le_ops (pl_lease p1 k) = le_ops (pl_lease p k)" "le_expired (pl_lease p1 k) = (k = l \<or> le_expired (pl_lease p k))" for k
    by (simp_all add: p1_def upd_defs)
  have "core_ok (po_channelLimit options) p1"
    by (rule core_same [OF core]) (simp_all add: p1_def upd_defs)
  moreover have "conns_ok (po_hardAgeMs options) p1 = conns_ok (po_hardAgeMs options) p" unfolding conns_ok_def rest ..
  moreover have "entries_ok p1 = entries_ok p" unfolding entries_ok_def rest ..
  moreover have "used_ok X p1 = used_ok X p" unfolding used_ok_def rest ..
  moreover have op_of: "opening_of p1 = opening_of p" by (simp add: opening_of_def fun_eq_iff rest)
  moreover have "opens_ok p1 = opens_ok p" unfolding opens_ok_def rest op_of ..
  moreover have "keyed p1 = keyed p" by (simp add: keyed_def fun_eq_iff rest op_of)
  then have "keys_ok p1 = keys_ok p" unfolding keys_ok_def rest by simp
  moreover have "calls_ok p1 = calls_ok p" unfolding calls_ok_def rest op_of ..
  moreover have "leases_ok {l} p1"
    using ok unfolding pool_ok_def frame_ok_def leases_ok_def rest by auto
  ultimately have ok1: "pool_ok options X {l} p1" using ok by (simp add: pool_ok_def frame_ok_def)
  have used: "cn_leases (pl_conn p ?c) \<noteq> []" if "i \<in> set ?ops" for i
  proof -
    have "\<not> le_released (pl_lease p l)"
      using ok l that unfolding pool_ok_def frame_ok_def leases_ok_def by auto
    then have "l \<in> set (cn_leases (pl_conn p ?c))" using pool_leases [OF ok c] l by blast
    then show ?thesis by auto
  qed
  have "\<forall>i \<in> set ?ops. i < pl_nOps p1 \<and> cn_leases (pl_conn p1 (op_connection p1 i)) \<noteq> []"
    using lease_ops [OF core l] used by (simp add: op_connection_def rest)
  note f = fold_expire [OF ok1 this, folded q]
  have e: "expiring p1 q" using f by blast
  have "le_ops (pl_lease q l) = []"
  proof -
    have "set (le_ops (pl_lease q l)) \<subseteq> set ?ops" using e by (auto simp: expiring_def rest)
    moreover have "i \<notin> set (le_ops (pl_lease q l))" if "i \<in> set ?ops" for i using f that l by (simp add: rest)
    ultimately show ?thesis by (metis ex_in_conv set_empty subsetD)
  qed
  moreover have "pool_ok options X {l} q" using f by blast
  moreover have "l \<in> set (cn_leases (pl_conn q c)) \<longleftrightarrow> l < pl_nLeases q \<and> \<not> le_released (pl_lease q l) \<and> le_connection (pl_lease q l) = c"
    if "c < pl_nConns q" for c
  proof -
    have "lease_shape (pl_lease q l) = lease_shape (pl_lease p1 l)" using e by (simp add: expiring_def)
    note s = lease_shapeD [OF this]
    show ?thesis using pool_leases [OF ok, of c l] that e by (simp add: s expiring_def rest)
  qed
  ultimately show ?thesis using lease_emptied unfolding q_def by blast
qed

lemma unreleased_card:
  assumes "l < (n :: nat)" and "\<not> released l"
  shows "int (card {k. k < n \<and> \<not> (k = l \<or> released k)}) = int (card {k. k < n \<and> \<not> released k}) - 1"
proof -
  have "{k. k < n \<and> \<not> (k = l \<or> released k)} = {k. k < n \<and> \<not> released k} - {l}" by auto
  moreover have "l \<in> {k. k < n \<and> \<not> released k}" using assms by simp
  moreover have "finite {k. k < n \<and> \<not> released k}" by (rule finite_subset [of _ "{..<n}"]) auto
  ultimately show ?thesis using card.remove [of "{k. k < n \<and> \<not> released k}" l] by simp
qed

lemma release_lease_ok:
  assumes ok: "pool_ok options {} {} p" and l: "l < pl_nLeases p"
  shows "pool_ok options {} {} (release_lease options l p)"
proof (cases "le_released (pl_lease p l)")
  case True
  then show ?thesis using ok by (simp add: release_lease_def)
next
  case False
  let ?ops = "le_ops (pl_lease p l)"
  define c0 where "c0 = le_connection (pl_lease p l)"
  define p1 where "p1 = (upd_lease l (\<lambda>x. x\<lparr>le_released := True, le_timer := None\<rparr>) p)\<lparr>pl_leaseCount := pl_leaseCount p - 1\<rparr>"
  define p2 where "p2 = fold (\<lambda>i. abandon_op i ConnectionLost) ?ops p1"
  define p3 where "p3 = upd_conn c0 (\<lambda>cn. cn\<lparr>cn_leases := removeAll l (cn_leases cn)\<rparr>) p2"
  have result: "release_lease options l p = after_last_lease options c0 p3"
    using False by (simp add: release_lease_def Let_def p1_def p2_def p3_def c0_def)
  have core: "core_ok (po_channelLimit options) p" using ok by (simp add: pool_ok_def)
  have c0: "c0 < pl_nConns p" using core l by (simp add: core_ok_def refs_ok_def c0_def)
  have rest: "pl_entries p1 = pl_entries p" "pl_entry p1 = pl_entry p" "pl_nEntries p1 = pl_nEntries p" "pl_opening p1 = pl_opening p"
    "pl_opens p1 = pl_opens p" "pl_nConns p1 = pl_nConns p" "pl_nLeases p1 = pl_nLeases p" "pl_leaseCount p1 = pl_leaseCount p - 1"
    "pl_caller p1 = pl_caller p" "pl_nCallers p1 = pl_nCallers p" "pl_conn p1 = pl_conn p" "pl_op p1 = pl_op p" "pl_nOps p1 = pl_nOps p"
    "le_connection (pl_lease p1 k) = le_connection (pl_lease p k)" "le_released (pl_lease p1 k) = (k = l \<or> le_released (pl_lease p k))"
    "le_ops (pl_lease p1 k) = le_ops (pl_lease p k)" "le_expired (pl_lease p1 k) = le_expired (pl_lease p k)" for k
    by (simp_all add: p1_def upd_defs)
  have core1: "core_ok (po_channelLimit options) p1"
    by (rule core_same [OF core]) (simp_all add: p1_def upd_defs)
  have ops: "\<forall>i \<in> set ?ops. i < pl_nOps p1" using lease_ops [OF core l] by (simp add: rest)
  have "leases_ok {l} p1"
    using ok unreleased_card [of l "pl_nLeases p" "\<lambda>k. le_released (pl_lease p k)"] l False
    unfolding pool_ok_def frame_ok_def leases_ok_def rest by auto
  moreover have "conns_ok (po_hardAgeMs options) p1 = conns_ok (po_hardAgeMs options) p" unfolding conns_ok_def rest ..
  moreover have "entries_ok p1 = entries_ok p" unfolding entries_ok_def rest ..
  moreover have "used_ok {} p1 = used_ok {} p" unfolding used_ok_def rest ..
  moreover have op_of: "opening_of p1 = opening_of p" by (simp add: opening_of_def fun_eq_iff rest)
  moreover have "opens_ok p1 = opens_ok p" unfolding opens_ok_def rest op_of ..
  moreover have "keyed p1 = keyed p" by (simp add: keyed_def fun_eq_iff rest op_of)
  then have "keys_ok p1 = keys_ok p" unfolding keys_ok_def rest by simp
  moreover have "calls_ok p1 = calls_ok p" unfolding calls_ok_def rest op_of ..
  ultimately have frame1: "frame_ok {} {l} (po_hardAgeMs options) p1" using ok by (simp add: pool_ok_def frame_ok_def)
  note f = fold_abandon [OF core1 ops, of ConnectionLost, folded p2_def]
  have e: "ending p1 p2" using f by blast
  have a: "alike p1 p2" using e by (simp add: ending_def)
  note A = alikeD [OF a]
  have frame2: "frame_ok {} {l} (po_hardAgeMs options) p2" by (rule ending_frame [OF frame1 e])
  have empty: "le_ops (pl_lease p2 l) = []"
  proof -
    have "set (le_ops (pl_lease p2 l)) \<subseteq> set ?ops" using e by (auto simp: ending_def rest)
    moreover have "i \<notin> set (le_ops (pl_lease p2 l))" if "i \<in> set ?ops" for i using f that l by (simp add: rest)
    ultimately show ?thesis by (metis ex_in_conv set_empty subsetD)
  qed
  have rest3: "pl_entries p3 = pl_entries p2" "pl_entry p3 = pl_entry p2" "pl_nEntries p3 = pl_nEntries p2" "pl_opening p3 = pl_opening p2"
    "pl_opens p3 = pl_opens p2" "pl_nConns p3 = pl_nConns p2" "pl_nLeases p3 = pl_nLeases p2" "pl_leaseCount p3 = pl_leaseCount p2"
    "pl_caller p3 = pl_caller p2" "pl_nCallers p3 = pl_nCallers p2" "pl_lease p3 = pl_lease p2"
    "cn_key (pl_conn p3 d) = cn_key (pl_conn p2 d)" "cn_entry (pl_conn p3 d) = cn_entry (pl_conn p2 d)"
    "cn_identity (pl_conn p3 d) = cn_identity (pl_conn p2 d)" "cn_readyAt (pl_conn p3 d) = cn_readyAt (pl_conn p2 d)"
    "cn_idleTimer (pl_conn p3 d) = cn_idleTimer (pl_conn p2 d)" "cn_retired (pl_conn p3 d) = cn_retired (pl_conn p2 d)"
    "cn_closed (pl_conn p3 d) = cn_closed (pl_conn p2 d)" "cn_hardTimer (pl_conn p3 d) = cn_hardTimer (pl_conn p2 d)"
    "cn_ops (pl_conn p3 d) = cn_ops (pl_conn p2 d)"
    "cn_leases (pl_conn p3 d) = (if d = c0 then removeAll l (cn_leases (pl_conn p2 d)) else cn_leases (pl_conn p2 d))" for d
    by (simp_all add: p3_def upd_defs)
  have "core_ok (po_channelLimit options) p3"
    by (rule core_same [of _ p2]) (use f in \<open>simp_all add: p3_def upd_defs\<close>)
  moreover have "leases_ok {} p3"
    unfolding leases_ok_def rest3(6,7,8,11)
  proof (intro conjI allI impI)
    have L2: "leases_ok {l} p2" using frame2 by (simp add: frame_ok_def)
    fix k assume "k < pl_nLeases p2" "k \<notin> {} \<and> (le_released (pl_lease p2 k) \<or> le_expired (pl_lease p2 k))"
    then show "le_ops (pl_lease p2 k) = []" using L2 empty unfolding leases_ok_def by (cases "k = l") auto
  next
    fix c assume c: "c < pl_nConns p2"
    have cp: "c < pl_nConns p" using c by (simp add: A rest)
    have mem: "k \<in> set (cn_leases (pl_conn p d)) \<longleftrightarrow> k < pl_nLeases p \<and> \<not> le_released (pl_lease p k) \<and> le_connection (pl_lease p k) = d"
      if "d < pl_nConns p" for k d
      using pool_leases [OF ok that] .
    show "set (cn_leases (pl_conn p3 c)) - {} =
        {k. k < pl_nLeases p2 \<and> \<not> le_released (pl_lease p2 k) \<and> le_connection (pl_lease p2 k) = c} - {}"
      using c0 cp False l by (auto simp: rest3(21) mem A rest) (auto simp: c0_def)
  next
    show "pl_leaseCount p2 = int (card {k. k < pl_nLeases p2 \<and> \<not> le_released (pl_lease p2 k)})"
      using frame2 unfolding frame_ok_def leases_ok_def by blast
  qed
  moreover have "used_ok {c0} p3"
    using frame2 unfolding frame_ok_def used_ok_def rest3(1-20) by (auto simp: rest3(21))
  moreover have "conns_ok (po_hardAgeMs options) p3 = conns_ok (po_hardAgeMs options) p2" unfolding conns_ok_def rest3(1-20) ..
  moreover have "entries_ok p3 = entries_ok p2" unfolding entries_ok_def rest3(1-20) ..
  moreover have op_of3: "opening_of p3 = opening_of p2" by (simp add: opening_of_def fun_eq_iff rest3)
  moreover have "opens_ok p3 = opens_ok p2" unfolding opens_ok_def rest3(1-20) op_of3 ..
  moreover have "keyed p3 = keyed p2" by (simp add: keyed_def fun_eq_iff rest3(1-20) op_of3)
  then have "keys_ok p3 = keys_ok p2" unfolding keys_ok_def rest3(1-20) by simp
  moreover have "calls_ok p3 = calls_ok p2" unfolding calls_ok_def rest3(1-20) op_of3 ..
  ultimately have "pool_ok options {c0} {} p3" using frame2 by (simp add: pool_ok_def frame_ok_def)
  moreover have "c0 < pl_nConns p3" using c0 by (simp add: rest3 A rest)
  ultimately show ?thesis unfolding result using after_last_lease_ok by fastforce
qed

lemma checkout_ok:
  assumes ok: "pool_ok options {} {} p" and c: "c < pl_nConns p"
  shows "pool_ok options {} {} (snd (checkout c ms p))"
proof -
  define q where "q = snd (checkout c ms p)"
  let ?l = "pl_nLeases p"
  have q: "q = upd_conn c (\<lambda>cn. cn\<lparr>cn_idleTimer := None, cn_leases := cn_leases cn @ [?l]\<rparr>)
      (p\<lparr>pl_lease := (pl_lease p)(?l := \<lparr>le_connection = c, le_ops = [], le_expired = False, le_released = False,
           le_timer = Some (pl_now p + ms)\<rparr>), pl_nLeases := ?l + 1, pl_leaseCount := pl_leaseCount p + 1\<rparr>)"
    by (simp add: q_def checkout_def Let_def)
  have rest: "pl_entries q = pl_entries p" "pl_entry q = pl_entry p" "pl_nEntries q = pl_nEntries p" "pl_opening q = pl_opening p"
    "pl_opens q = pl_opens p" "pl_nConns q = pl_nConns p" "pl_caller q = pl_caller p" "pl_nCallers q = pl_nCallers p"
    "cn_key (pl_conn q d) = cn_key (pl_conn p d)" "cn_entry (pl_conn q d) = cn_entry (pl_conn p d)"
    "cn_identity (pl_conn q d) = cn_identity (pl_conn p d)" "cn_readyAt (pl_conn q d) = cn_readyAt (pl_conn p d)"
    "cn_retired (pl_conn q d) = cn_retired (pl_conn p d)"
    "cn_closed (pl_conn q d) = cn_closed (pl_conn p d)" "cn_hardTimer (pl_conn q d) = cn_hardTimer (pl_conn p d)"
    "cn_ops (pl_conn q d) = cn_ops (pl_conn p d)" for d
    by (simp_all add: q upd_defs)
  have new: "cn_leases (pl_conn q d) = cn_leases (pl_conn p d) @ (if d = c then [?l] else [])"
    "cn_idleTimer (pl_conn q d) = (if d = c then None else cn_idleTimer (pl_conn p d))"
    "pl_nLeases q = Suc ?l" "pl_leaseCount q = pl_leaseCount p + 1"
    "le_connection (pl_lease q k) = (if k = ?l then c else le_connection (pl_lease p k))"
    "le_released (pl_lease q k) = (k \<noteq> ?l \<and> le_released (pl_lease p k))"
    "le_expired (pl_lease q k) = (k \<noteq> ?l \<and> le_expired (pl_lease p k))"
    "le_ops (pl_lease q k) = (if k = ?l then [] else le_ops (pl_lease p k))" for d k
    by (simp_all add: q upd_defs)
  have "core_ok (po_channelLimit options) q"
    by (rule core_extend [of _ p]) (use ok c in \<open>simp_all add: pool_ok_def q upd_defs\<close>)
  moreover have "leases_ok {} q"
    unfolding leases_ok_def rest(6) new(3)
  proof (intro conjI allI impI)
    fix k assume "k < Suc ?l" "k \<notin> {} \<and> (le_released (pl_lease q k) \<or> le_expired (pl_lease q k))"
    then show "le_ops (pl_lease q k) = []"
      using ok unfolding pool_ok_def frame_ok_def leases_ok_def by (auto simp: new less_Suc_eq split: if_splits)
  next
    fix d assume d: "d < pl_nConns p"
    show "set (cn_leases (pl_conn q d)) - {} = {k. k < Suc ?l \<and> \<not> le_released (pl_lease q k) \<and> le_connection (pl_lease q k) = d} - {}"
      using pool_leases [OF ok d] by (auto simp: new less_Suc_eq split: if_splits)
  next
    have "{k. k < Suc ?l \<and> \<not> le_released (pl_lease q k)} = insert ?l {k. k < ?l \<and> \<not> le_released (pl_lease p k)}"
      by (auto simp: new less_Suc_eq)
    moreover have "finite {k. k < ?l \<and> \<not> le_released (pl_lease p k)}" by (rule finite_subset [of _ "{..<?l}"]) auto
    ultimately show "pl_leaseCount q = int (card {k. k < Suc ?l \<and> \<not> le_released (pl_lease q k)})"
      using ok unfolding pool_ok_def frame_ok_def leases_ok_def by (simp add: new)
  qed
  moreover have "conns_ok (po_hardAgeMs options) q"
    using ok unfolding pool_ok_def frame_ok_def conns_ok_def rest by (simp add: new)
  moreover have "entries_ok q = entries_ok p" unfolding entries_ok_def rest ..
  moreover have "used_ok {} q"
    using ok unfolding pool_ok_def frame_ok_def used_ok_def rest by (auto simp: new split: if_splits)
  moreover have op_of: "opening_of q = opening_of p" by (simp add: opening_of_def fun_eq_iff rest)
  moreover have "opens_ok q = opens_ok p" unfolding opens_ok_def rest op_of ..
  moreover have "keyed q = keyed p" by (simp add: keyed_def fun_eq_iff rest op_of)
  then have "keys_ok q = keys_ok p" unfolding keys_ok_def rest by simp
  moreover have "calls_ok q"
    using ok unfolding pool_ok_def frame_ok_def calls_ok_def rest op_of
    by (auto simp: new split: caller_state.splits)
  ultimately show ?thesis using ok by (simp add: pool_ok_def frame_ok_def q_def)
qed

text \<open>Entries that come and go.\<close>

definition entry_known :: "string \<Rightarrow> nat \<Rightarrow> pool \<Rightarrow> bool" where
  "entry_known key e p \<longleftrightarrow> e < pl_nEntries p \<and> keyed p e key"

lemma entry_for_ok:
  assumes ok: "pool_ok options {} {} p"
  shows "pool_ok options {} {} (snd (entry_for key p))" "entry_known key (fst (entry_for key p)) (snd (entry_for key p))"
proof -
  have frame: "frame_ok {} {} (po_hardAgeMs options) p" using ok by (simp add: pool_ok_def)
  have "pool_ok options {} {} (snd (entry_for key p)) \<and> entry_known key (fst (entry_for key p)) (snd (entry_for key p))"
  proof (cases "pl_entries p key")
    case (Some e)
    then have e: "e < pl_nEntries p" using frame unfolding frame_ok_def entries_ok_def by blast
    then obtain k where "keyed p e k" using frame unfolding frame_ok_def keys_ok_def by blast
    then have "keyed p e key" using Some unfolding keyed_def by blast
    then show ?thesis using ok e Some by (simp add: entry_for_def entry_known_def)
  next
    case None
    let ?e = "pl_nEntries p"
    define q where "q = snd (entry_for key p)"
    have q: "q = p\<lparr>pl_generations := pl_generations p + 1, pl_nEntries := ?e + 1,
                 pl_entry := (pl_entry p)(?e := new_entry (pl_generations p + 1)), pl_entries := (pl_entries p)(key := Some ?e)\<rparr>"
      using None by (simp add: q_def entry_for_def Let_def)
    have rest: "pl_opening q = pl_opening p" "pl_opens q = pl_opens p" "pl_nConns q = pl_nConns p" "pl_caller q = pl_caller p"
      "pl_nCallers q = pl_nCallers p" "pl_conn q = pl_conn p" "pl_nLeases q = pl_nLeases p" "pl_lease q = pl_lease p"
      "pl_leaseCount q = pl_leaseCount p" by (simp_all add: q)
    have new: "pl_nEntries q = Suc ?e" "pl_entry q e = (if e = ?e then new_entry (pl_generations p + 1) else pl_entry p e)"
      "pl_entries q k = (if k = key then Some ?e else pl_entries p k)" for e k by (simp_all add: q)
    have op_of: "opening_of q = opening_of p" by (simp add: opening_of_def fun_eq_iff rest)
    have below: "cn_entry (pl_conn p c) < ?e" if "c < pl_nConns p" for c using frame that unfolding frame_ok_def conns_ok_def by blast
    have below': "og_entry (pl_opening p i) < ?e" if "opening_of p i" for i using frame that unfolding frame_ok_def opens_ok_def by blast
    have below'': "e < ?e" if "pl_entries p k = Some e" for e k using frame that unfolding frame_ok_def entries_ok_def by blast
    have ne: "cn_entry (pl_conn p c) \<noteq> ?e" if "c < pl_nConns p" for c using below [OF that] by simp
    have ne': "og_entry (pl_opening p i) \<noteq> ?e" if "opening_of p i" for i using below' [OF that] by simp
    have ne'': "pl_entries p k \<noteq> Some ?e" for k using below'' [of k ?e] by auto
    have keyed_new: "keyed q ?e key"
      unfolding keyed_def rest op_of by (auto simp: new ne ne' ne'' split: if_splits)
    have keyed_old: "keyed q e k" if "keyed p e k" "e < ?e" for e k
      using that unfolding keyed_def rest op_of by (auto simp: new split: if_splits)
    have "core_ok (po_channelLimit options) q"
      by (rule core_same [of _ p]) (use ok in \<open>simp_all add: pool_ok_def q\<close>)
    moreover have "conns_ok (po_hardAgeMs options) q"
      using frame unfolding frame_ok_def conns_ok_def rest by (auto simp: new less_Suc_eq)
    moreover have "entries_ok q"
      using frame below below'' unfolding frame_ok_def entries_ok_def rest
      by (auto simp: new less_Suc_eq new_entry_def ne split: if_splits)
    moreover have "leases_ok {} q = leases_ok {} p" unfolding leases_ok_def rest ..
    moreover have "used_ok {} q"
      using frame unfolding frame_ok_def used_ok_def rest by (auto simp: new ne)
    moreover have "opens_ok q"
      using frame unfolding frame_ok_def opens_ok_def rest op_of by (auto simp: new less_Suc_eq new_entry_def split: if_splits)
    moreover have "keys_ok q"
      using frame keyed_new keyed_old unfolding frame_ok_def keys_ok_def new(1) by (metis less_Suc_eq)
    moreover have "calls_ok q = calls_ok p" unfolding calls_ok_def rest op_of ..
    ultimately have "pool_ok options {} {} q" using frame by (simp add: pool_ok_def frame_ok_def)
    moreover have "fst (entry_for key p) = ?e" using None by (simp add: entry_for_def Let_def)
    ultimately show ?thesis using keyed_new by (simp add: entry_known_def q_def [symmetric] new)
  qed
  then show "pool_ok options {} {} (snd (entry_for key p))" "entry_known key (fst (entry_for key p)) (snd (entry_for key p))"
    by blast+
qed

lemma prune_ok:
  assumes ok: "pool_ok options X Y p"
  shows "pool_ok options X Y (prune key e p)"
proof -
  define q where "q = prune key e p"
  have entries: "pl_entries q k = Some e' \<Longrightarrow> pl_entries p k = Some e'" for k e'
    using prune_entries [of key e p k] by (auto simp: q_def)
  have rest: "pl_entry q = pl_entry p" "pl_nEntries q = pl_nEntries p" "pl_opening q = pl_opening p"
    "pl_opens q = pl_opens p" "pl_conn q = pl_conn p" "pl_nConns q = pl_nConns p" "pl_lease q = pl_lease p" "pl_nLeases q = pl_nLeases p"
    "pl_leaseCount q = pl_leaseCount p" "pl_caller q = pl_caller p" "pl_nCallers q = pl_nCallers p"
    by (simp_all add: q_def)
  have frame: "frame_ok X Y (po_hardAgeMs options) p" using ok by (simp add: pool_ok_def)
  have op_of: "opening_of q = opening_of p" by (simp add: opening_of_def fun_eq_iff rest)
  have "core_ok (po_channelLimit options) q"
    by (rule core_same [of _ p]) (use ok in \<open>simp_all add: pool_ok_def q_def\<close>)
  moreover have "conns_ok (po_hardAgeMs options) q = conns_ok (po_hardAgeMs options) p" unfolding conns_ok_def rest ..
  moreover have "entries_ok q" using frame entries unfolding frame_ok_def entries_ok_def rest by blast
  moreover have "leases_ok Y q = leases_ok Y p" unfolding leases_ok_def rest ..
  moreover have "used_ok X q = used_ok X p" unfolding used_ok_def rest ..
  moreover have "opens_ok q = opens_ok p" unfolding opens_ok_def rest op_of ..
  moreover have "keyed p e' k \<Longrightarrow> keyed q e' k" for e' k using entries unfolding keyed_def rest op_of by blast
  then have "keys_ok q" using frame unfolding frame_ok_def keys_ok_def rest by blast
  moreover have "calls_ok q = calls_ok p" unfolding calls_ok_def rest op_of ..
  ultimately show ?thesis using frame by (simp add: pool_ok_def frame_ok_def q_def)
qed

text \<open>What closing connections never changes.\<close>

definition static :: "pool \<Rightarrow> pool \<Rightarrow> bool" where
  "static p q \<longleftrightarrow> pl_nEntries q = pl_nEntries p \<and> pl_nConns q = pl_nConns p \<and> pl_nLeases q = pl_nLeases p \<and>
     pl_opening q = pl_opening p \<and> pl_opens q = pl_opens p \<and> pl_caller q = pl_caller p \<and> pl_nCallers q = pl_nCallers p \<and>
     (\<forall>c. cn_key (pl_conn q c) = cn_key (pl_conn p c) \<and> cn_identity (pl_conn q c) = cn_identity (pl_conn p c) \<and>
        cn_entry (pl_conn q c) = cn_entry (pl_conn p c)) \<and>
     (\<forall>e. en_pending (pl_entry q e) = en_pending (pl_entry p e)) \<and>
     (\<forall>l. le_connection (pl_lease q l) = le_connection (pl_lease p l)) \<and>
     (\<forall>k e. pl_entries q k = Some e \<longrightarrow> pl_entries p k = Some e)"

lemma static_refl: "static p p"
  by (simp add: static_def)

lemma static_trans: "static p q \<Longrightarrow> static q r \<Longrightarrow> static p r"
  by (simp add: static_def)

lemma shut_down_static:
  assumes "pool_ok options X Y p" and "c < pl_nConns p"
  shows "static p (shut_down how c p)"
proof (cases "cn_closed (pl_conn p c)")
  case True
  then show ?thesis by (simp add: shut_down_def static_refl)
next
  case False
  then have "closing c p (shut_down how c p)" using assms shut_down_closing(2) by (auto simp: pool_ok_def)
  then show ?thesis using closing_entries by (simp add: static_def closingD)
qed

lemma after_last_lease_static:
  assumes "pool_ok options X Y p" and "c < pl_nConns p"
  shows "static p (after_last_lease options c p)"
  using shut_down_static [OF assms] by (simp add: after_last_lease_def Let_def static_refl) (simp add: static_def upd_defs)

lemma static_known: "static p q \<Longrightarrow> entry_known key e p \<Longrightarrow> entry_known key e q"
  unfolding static_def entry_known_def keyed_def opening_of_def by auto

lemma forget_pending_ok:
  assumes ok: "pool_ok options X Y p"
  shows "pool_ok options X Y (upd_entry e (\<lambda>en. en\<lparr>en_pending := None\<rparr>) p)"
proof -
  define q where "q = upd_entry e (\<lambda>en. en\<lparr>en_pending := None\<rparr>) p"
  have rest: "pl_entries q = pl_entries p" "pl_nEntries q = pl_nEntries p" "pl_opening q = pl_opening p"
    "pl_opens q = pl_opens p" "pl_conn q = pl_conn p" "pl_nConns q = pl_nConns p" "pl_lease q = pl_lease p" "pl_nLeases q = pl_nLeases p"
    "pl_leaseCount q = pl_leaseCount p" "pl_caller q = pl_caller p" "pl_nCallers q = pl_nCallers p"
    "en_connections (pl_entry q d) = en_connections (pl_entry p d)" "en_installed (pl_entry q d) = en_installed (pl_entry p d)" for d
    by (simp_all add: q_def upd_defs)
  have frame: "frame_ok X Y (po_hardAgeMs options) p" using ok by (simp add: pool_ok_def)
  have op_of: "opening_of q = opening_of p" by (simp add: opening_of_def fun_eq_iff rest)
  have "core_ok (po_channelLimit options) q"
    by (rule core_same [of _ p]) (use ok in \<open>simp_all add: pool_ok_def q_def upd_defs\<close>)
  moreover have "conns_ok (po_hardAgeMs options) q = conns_ok (po_hardAgeMs options) p" unfolding conns_ok_def rest ..
  moreover have "entries_ok q = entries_ok p" unfolding entries_ok_def rest ..
  moreover have "leases_ok Y q = leases_ok Y p" unfolding leases_ok_def rest ..
  moreover have "used_ok X q = used_ok X p" unfolding used_ok_def rest ..
  moreover have "opens_ok q"
    using frame unfolding frame_ok_def opens_ok_def rest op_of by (auto simp: q_def upd_defs)
  moreover have "keyed q = keyed p" by (simp add: keyed_def fun_eq_iff rest op_of)
  then have "keys_ok q = keys_ok p" unfolding keys_ok_def rest by simp
  moreover have "calls_ok q = calls_ok p" unfolding calls_ok_def rest op_of ..
  ultimately show ?thesis using frame by (simp add: pool_ok_def frame_ok_def q_def)
qed

lemma transport_ok:
  assumes ok: "pool_ok options X Y p"
  shows "pool_ok options X Y (upd_transport t f p)"
proof -
  have "core_ok (po_channelLimit options) (upd_transport t f p)"
    by (rule core_same [of _ p]) (use ok in \<open>simp_all add: pool_ok_def upd_defs\<close>)
  moreover have "frame_ok X Y (po_hardAgeMs options) (upd_transport t f p)"
    by (rule frame_alike [of _ _ _ p])
      (use ok in \<open>auto simp: pool_ok_def frame_ok_def alike_def upd_defs conns_ok_def leases_ok_def\<close>)
  ultimately show ?thesis by (simp add: pool_ok_def)
qed

lemma give_up_ok: "pool_ok options X Y p \<Longrightarrow> pool_ok options X Y (give_up i p)"
  unfolding give_up_def Let_def by (simp add: transport_ok forget_pending_ok prune_ok)

lemma settle_opening_ok:
  assumes ok: "pool_ok options X Y p" and i: "opening_of p i"
    and r: "\<And>c. r = OpenDone c \<Longrightarrow> c < pl_nConns p \<and> cn_key (pl_conn p c) = og_key (pl_opening p i) \<and>
        cn_identity (pl_conn p c) = og_identity (pl_opening p i)"
  shows "pool_ok options X Y (settle_opening i r p)"
proof -
  define q where "q = settle_opening i r p"
  have rest: "pl_entries q = pl_entries p" "pl_entry q = pl_entry p" "pl_nEntries q = pl_nEntries p"
    "pl_opens q = pl_opens p" "pl_conn q = pl_conn p" "pl_nConns q = pl_nConns p" "pl_lease q = pl_lease p" "pl_nLeases q = pl_nLeases p"
    "pl_leaseCount q = pl_leaseCount p" "pl_caller q = pl_caller p" "pl_nCallers q = pl_nCallers p"
    "og_key (pl_opening q j) = og_key (pl_opening p j)" "og_entry (pl_opening q j) = og_entry (pl_opening p j)"
    "og_identity (pl_opening q j) = og_identity (pl_opening p j)" for j
    by (simp_all add: q_def settle_opening_def upd_defs)
  have result: "og_result (pl_opening q j) = (if j = i then r else og_result (pl_opening p j))" for j
    by (simp add: q_def settle_opening_def upd_defs)
  have frame: "frame_ok X Y (po_hardAgeMs options) p" using ok by (simp add: pool_ok_def)
  have op_of: "opening_of q = opening_of p" by (simp add: opening_of_def fun_eq_iff rest)
  have "core_ok (po_channelLimit options) q"
    by (rule core_same [of _ p]) (use ok in \<open>simp_all add: pool_ok_def q_def settle_opening_def upd_defs\<close>)
  moreover have "conns_ok (po_hardAgeMs options) q = conns_ok (po_hardAgeMs options) p" unfolding conns_ok_def rest ..
  moreover have "entries_ok q = entries_ok p" unfolding entries_ok_def rest ..
  moreover have "leases_ok Y q = leases_ok Y p" unfolding leases_ok_def rest ..
  moreover have "used_ok X q = used_ok X p" unfolding used_ok_def rest ..
  moreover have "opens_ok q"
    using frame r unfolding frame_ok_def opens_ok_def rest op_of result by (auto split: if_splits)
  moreover have "keyed q = keyed p" by (simp add: keyed_def fun_eq_iff rest op_of)
  then have "keys_ok q = keys_ok p" unfolding keys_ok_def rest by simp
  moreover have "calls_ok q = calls_ok p" unfolding calls_ok_def rest op_of ..
  ultimately show ?thesis using frame by (simp add: pool_ok_def frame_ok_def q_def)
qed

lemma give_up_static: "pl_opening (give_up i p) = pl_opening p" "pl_opens (give_up i p) = pl_opens p"
  by (simp_all add: give_up_def Let_def upd_defs)

lemma open_fails_ok: "pool_ok options X Y p \<Longrightarrow> opening_of p i \<Longrightarrow> pool_ok options X Y (open_fails i e p)"
  unfolding open_fails_def by (rule settle_opening_ok) (auto simp: give_up_ok opening_of_def give_up_static)

lemma start_open_ok:
  fixes identity :: connection_identity
  assumes ok: "pool_ok options {} {} p" and known: "entry_known key e p"
  defines "r \<equiv> start_open key e identity p"
  shows "pool_ok options {} {} (snd r)"
    and "opening_of (snd r) (fst r) \<and> og_key (pl_opening (snd r) (fst r)) = key \<and> og_identity (pl_opening (snd r) (fst r)) = identity"
proof -
  define q where "q = snd r"
  let ?i = "Suc (pl_opens p)"
  have i: "fst r = ?i" by (simp add: r_def start_open_def Let_def)
  have rest: "pl_entries q = pl_entries p" "pl_nEntries q = pl_nEntries p"
    "pl_conn q = pl_conn p" "pl_nConns q = pl_nConns p" "pl_lease q = pl_lease p" "pl_nLeases q = pl_nLeases p"
    "pl_leaseCount q = pl_leaseCount p" "pl_caller q = pl_caller p" "pl_nCallers q = pl_nCallers p"
    "en_connections (pl_entry q d) = en_connections (pl_entry p d)" "en_installed (pl_entry q d) = en_installed (pl_entry p d)" for d
    by (simp_all add: q_def r_def start_open_def Let_def upd_defs)
  have new: "pl_opens q = ?i" "pl_opening q j = (if j = ?i then \<lparr>og_key = key, og_entry = e, og_identity = identity,
        og_generation = en_generation (pl_entry p e), og_result = OpenUnsettled\<rparr> else pl_opening p j)"
    "en_pending (pl_entry q d) = (if d = e then Some \<lparr>pd_id = ?i, pd_identity = identity, pd_generation = en_generation (pl_entry p e)\<rparr>
       else en_pending (pl_entry p d))" for j d
    by (simp_all add: q_def r_def start_open_def Let_def upd_defs)
  have frame: "frame_ok {} {} (po_hardAgeMs options) p" using ok by (simp add: pool_ok_def)
  have op_of: "opening_of q j = (j = ?i \<or> opening_of p j)" for j by (auto simp: opening_of_def new)
  have old: "j \<noteq> ?i" if "opening_of p j" for j using that by (auto simp: opening_of_def)
  have e: "e < pl_nEntries p" and key: "keyed p e key" using known by (auto simp: entry_known_def)
  have "core_ok (po_channelLimit options) q"
    by (rule core_same [of _ p]) (use ok in \<open>simp_all add: pool_ok_def q_def r_def start_open_def Let_def upd_defs\<close>)
  moreover have "conns_ok (po_hardAgeMs options) q = conns_ok (po_hardAgeMs options) p" unfolding conns_ok_def rest ..
  moreover have "entries_ok q = entries_ok p" unfolding entries_ok_def rest ..
  moreover have "leases_ok {} q = leases_ok {} p" unfolding leases_ok_def rest ..
  moreover have "used_ok {} q = used_ok {} p" unfolding used_ok_def rest ..
  moreover have "opens_ok q"
    using frame e old unfolding frame_ok_def opens_ok_def rest op_of by (auto simp: new split: if_splits)
  moreover have "keyed q d k" if "keyed p d k" "d = e \<longrightarrow> k = key" for d k
    using that old unfolding keyed_def rest op_of by (auto simp: new split: if_splits)
  then have "keys_ok q" using frame key unfolding frame_ok_def keys_ok_def rest by metis
  moreover have "calls_ok q"
    using frame old unfolding frame_ok_def calls_ok_def rest op_of by (auto simp: new split: caller_state.splits)
  ultimately show "pool_ok options {} {} (snd r)" using frame by (simp add: pool_ok_def frame_ok_def q_def [symmetric])
  show "opening_of (snd r) (fst r) \<and> og_key (pl_opening (snd r) (fst r)) = key \<and> og_identity (pl_opening (snd r) (fst r)) = identity"
    by (simp add: i q_def [symmetric] op_of new)
qed

lemma install_ok:
  fixes identity :: connection_identity and t :: nat
  assumes ok: "pool_ok options {} {} p" and known: "entry_known key e p"
  defines "r \<equiv> install options key e t identity p"
  shows "pool_ok options {} {} (snd r)"
    and "pl_opening (snd r) = pl_opening p" "pl_opens (snd r) = pl_opens p"
      "fst r < pl_nConns (snd r) \<and> cn_key (pl_conn (snd r) (fst r)) = key \<and> cn_identity (pl_conn (snd r) (fst r)) = identity"
proof -
  let ?c = "pl_nConns p" and ?old = "en_installed (pl_entry p e)"
  define q where "q = upd_entry e (\<lambda>en. en\<lparr>en_installed := Some ?c, en_connections := en_connections en @ [?c]\<rparr>)
     (p\<lparr>pl_conn := (pl_conn p)(?c := \<lparr>cn_key = key, cn_entry = e, cn_transport = t, cn_identity = identity, cn_readyAt = pl_now p,
             cn_limiter = new_limiter, cn_leases = [], cn_ops = [], cn_retired = False, cn_closed = False,
             cn_idleTimer = None, cn_hardTimer = Some (pl_now p + po_hardAgeMs options)\<rparr>), pl_nConns := ?c + 1\<rparr>)"
  have r: "r = (?c, case ?old of None \<Rightarrow> q
          | Some old \<Rightarrow> if \<not> same_connection_identity (cn_identity (pl_conn p old)) identity
              then shut_down destroy_transport old q else after_last_lease options old q)"
    by (simp only: r_def install_def Let_def q_def)
  have rest: "pl_entries q = pl_entries p" "pl_nEntries q = pl_nEntries p" "pl_opening q = pl_opening p" "pl_opens q = pl_opens p"
    "pl_lease q = pl_lease p" "pl_nLeases q = pl_nLeases p" "pl_leaseCount q = pl_leaseCount p" "pl_caller q = pl_caller p"
    "pl_nCallers q = pl_nCallers p" "en_pending (pl_entry q d) = en_pending (pl_entry p d)" for d
    by (simp_all add: q_def upd_defs)
  have new: "pl_nConns q = Suc ?c" "c \<noteq> ?c \<Longrightarrow> pl_conn q c = pl_conn p c" "cn_key (pl_conn q ?c) = key" "cn_entry (pl_conn q ?c) = e"
    "cn_identity (pl_conn q ?c) = identity" "cn_leases (pl_conn q ?c) = []" "cn_ops (pl_conn q ?c) = []"
    "\<not> cn_retired (pl_conn q ?c)" "\<not> cn_closed (pl_conn q ?c)" "cn_idleTimer (pl_conn q ?c) = None"
    "cn_hardTimer (pl_conn q ?c) = Some (cn_readyAt (pl_conn q ?c) + po_hardAgeMs options)"
    "en_installed (pl_entry q d) = (if d = e then Some ?c else en_installed (pl_entry p d))"
    "set (en_connections (pl_entry q d)) = (if d = e then insert ?c (set (en_connections (pl_entry p d))) else set (en_connections (pl_entry p d)))" for c d
    by (simp_all add: q_def upd_defs)
  have e: "e < pl_nEntries p" and key: "keyed p e key" using known by (auto simp: entry_known_def)
  have frame: "frame_ok {} {} (po_hardAgeMs options) p" using ok by (simp add: pool_ok_def)
  have op_of: "opening_of q = opening_of p" by (simp add: opening_of_def fun_eq_iff rest)
  have lease: "le_connection (pl_lease p l) < ?c" if "l < pl_nLeases p" for l
    using ok that unfolding pool_ok_def core_ok_def refs_ok_def by blast
  have lease_ne: "le_connection (pl_lease p l) \<noteq> ?c" if "l < pl_nLeases p" for l using lease [OF that] by simp
  have conn: "pl_conn q c = pl_conn p c" if "c < ?c" for c using that by (simp add: new)
  have "core_ok (po_channelLimit options) q"
    by (rule core_extend [of _ p]) (use ok in \<open>simp_all add: pool_ok_def q_def upd_defs\<close>)
  moreover have "conns_ok (po_hardAgeMs options) q"
    using frame e unfolding frame_ok_def conns_ok_def rest new(1) by (auto simp: less_Suc_eq conn new)
  moreover have "entries_ok q"
    using frame unfolding frame_ok_def entries_ok_def rest new(1) by (auto simp: less_Suc_eq conn new split: if_splits)
  moreover have "leases_ok {} q"
    using frame lease_ne unfolding frame_ok_def leases_ok_def rest new(1) by (auto simp: less_Suc_eq conn new)
  moreover have "used_ok (set_option ?old) q"
    using frame unfolding frame_ok_def used_ok_def new(1) by (auto simp: less_Suc_eq conn new split: if_splits)
  moreover have "opens_ok q"
    using frame unfolding frame_ok_def opens_ok_def rest op_of new(1) by (auto simp: less_Suc_eq conn)
  moreover have "keyed q d k" if "keyed p d k" "d = e \<longrightarrow> k = key" for d k
    using that unfolding keyed_def rest op_of new(1) by (auto simp: less_Suc_eq conn new)
  then have "keys_ok q" using frame key unfolding frame_ok_def keys_ok_def rest by metis
  moreover have "calls_ok q"
    using frame lease unfolding frame_ok_def calls_ok_def rest op_of by (auto simp: conn split: caller_state.splits)
  ultimately have q: "pool_ok options (set_option ?old) {} q" using frame by (simp add: pool_ok_def frame_ok_def)
  have old: "old < pl_nConns q" if "?old = Some old" for old
    using frame e that unfolding frame_ok_def entries_ok_def by (auto simp: new(1))
  have "pool_ok options {} {} (snd r) \<and> static q (snd r)"
  proof (cases ?old)
    case None
    then show ?thesis using q by (simp add: r static_refl)
  next
    case (Some old)
    then show ?thesis
      using shut_down_ok [OF q old] after_last_lease_ok [OF q old] shut_down_static [OF q old] after_last_lease_static [OF q old]
      by (simp add: r)
  qed
  then show "pool_ok options {} {} (snd r)"
    and "pl_opening (snd r) = pl_opening p" "pl_opens (snd r) = pl_opens p"
      "fst r < pl_nConns (snd r) \<and> cn_key (pl_conn (snd r) (fst r)) = key \<and> cn_identity (pl_conn (snd r) (fst r)) = identity"
    by (simp_all add: static_def new rest) (simp_all add: r new)
qed

lemma pool_keyed:
  assumes "pool_ok options X Y p" and "opening_of p i"
  shows "entry_known (og_key (pl_opening p i)) (og_entry (pl_opening p i)) p"
proof -
  have "og_entry (pl_opening p i) < pl_nEntries p" using assms unfolding pool_ok_def frame_ok_def opens_ok_def by blast
  moreover then obtain k where k: "keyed p (og_entry (pl_opening p i)) k"
    using assms(1) unfolding pool_ok_def frame_ok_def keys_ok_def by blast
  then have "k = og_key (pl_opening p i)" using assms(2) unfolding keyed_def by blast
  ultimately show ?thesis using k by (simp add: entry_known_def)
qed

lemma open_succeeds_ok:
  assumes ok: "pool_ok options {} {} p" and i: "opening_of p i"
  shows "pool_ok options {} {} (open_succeeds options i p)"
proof -
  let ?og = "pl_opening p i"
  define p1 where "p1 = upd_entry (og_entry ?og) (\<lambda>en. en\<lparr>en_pending := None\<rparr>) p"
  define r where "r = install options (og_key ?og) (og_entry ?og) i (og_identity ?og) p1"
  have ok1: "pool_ok options {} {} p1" unfolding p1_def by (rule forget_pending_ok [OF ok])
  have known: "entry_known (og_key ?og) (og_entry ?og) p1"
    using pool_keyed [OF ok i] by (simp add: entry_known_def keyed_def opening_of_def p1_def upd_defs)
  note I = install_ok [OF ok1 known, of i "og_identity ?og", folded r_def]
  have same: "pl_opening p1 = pl_opening p" "pl_opens p1 = pl_opens p" by (simp_all add: p1_def upd_defs)
  have "pool_ok options {} {} (settle_opening i (OpenDone (fst r)) (snd r))"
    by (rule settle_opening_ok [OF I(1)]) (use i I(2-4) same in \<open>auto simp: opening_of_def\<close>)
  moreover have "pool_ok options {} {} (settle_opening i (OpenFailed HostChanged) (give_up i p))"
    by (rule settle_opening_ok [OF give_up_ok [OF ok]]) (use i in \<open>auto simp: opening_of_def give_up_static\<close>)
  ultimately show ?thesis
    by (simp add: open_succeeds_def Let_def p1_def [symmetric] r_def [symmetric] split: prod.split) auto
qed

section \<open>Calls\<close>

text \<open>What a turn of \<open>lease\<close> comes to, for a call that asks for this key and identity.\<close>

definition serves :: "pool \<Rightarrow> string \<Rightarrow> connection_identity \<Rightarrow> caller_state \<Rightarrow> bool" where
  "serves p key identity state \<longleftrightarrow>
     (case state of
        CallerWaits i \<Rightarrow> opening_of p i \<and> og_key (pl_opening p i) = key \<and> og_identity (pl_opening p i) = identity
      | CallerReads l \<Rightarrow> l < pl_nLeases p \<and> cn_key (pl_conn p (le_connection (pl_lease p l))) = key \<and>
          cn_identity (pl_conn p (le_connection (pl_lease p l))) = identity
      | CallerFailed e \<Rightarrow> True)"

lemma calls_serve: "calls_ok p \<longleftrightarrow> (\<forall>k < pl_nCallers p. serves p (ca_key (pl_caller p k)) (ca_identity (pl_caller p k)) (ca_state (pl_caller p k)))"
  by (simp add: calls_ok_def serves_def)

lemma checkout_serves:
  assumes "cn_key (pl_conn p c) = key" and "cn_identity (pl_conn p c) = identity"
  shows "serves (snd (checkout c ms p)) key identity (CallerReads (fst (checkout c ms p)))"
  using assms by (simp add: serves_def checkout_def Let_def upd_defs)

lemma checkout_callers: "pl_caller (snd (checkout c ms p)) = pl_caller p" "pl_nCallers (snd (checkout c ms p)) = pl_nCallers p"
  by (simp_all add: checkout_def Let_def upd_defs)

lemma await_ok:
  fixes identity :: connection_identity
  assumes ok: "pool_ok options {} {} p" and known: "entry_known key e p"
  defines "r \<equiv> case (case en_pending (pl_entry p e) of None \<Rightarrow> None
       | Some pending \<Rightarrow> if pd_generation pending = en_generation (pl_entry p e) \<and> same_connection_identity (pd_identity pending) identity
           then Some (pd_id pending) else None) of
       Some i \<Rightarrow> (CallerWaits i, p)
     | None \<Rightarrow> (case start_open key e identity p of (i, p') \<Rightarrow> (CallerWaits i, p'))"
  shows "pool_ok options {} {} (snd r)" and "serves (snd r) key identity (fst r)"
    and "pl_caller (snd r) = pl_caller p" and "pl_nCallers (snd r) = pl_nCallers p"
proof -
  have "pool_ok options {} {} (snd r) \<and> serves (snd r) key identity (fst r) \<and> pl_caller (snd r) = pl_caller p \<and> pl_nCallers (snd r) = pl_nCallers p"
  proof (cases "\<exists>pd. en_pending (pl_entry p e) = Some pd \<and> pd_generation pd = en_generation (pl_entry p e) \<and> pd_identity pd = identity")
    case True
    then obtain pd where pd: "en_pending (pl_entry p e) = Some pd" "pd_generation pd = en_generation (pl_entry p e)" "pd_identity pd = identity" by blast
    have e: "e < pl_nEntries p" and key: "keyed p e key" using known by (auto simp: entry_known_def)
    have "opening_of p (pd_id pd)" "og_entry (pl_opening p (pd_id pd)) = e" "og_identity (pl_opening p (pd_id pd)) = identity"
      using ok e pd unfolding pool_ok_def frame_ok_def opens_ok_def by blast+
    moreover have "og_key (pl_opening p (pd_id pd)) = key" using key calculation unfolding keyed_def by blast
    ultimately show ?thesis using ok pd by (simp add: r_def serves_def)
  next
    case False
    then have "r = (CallerWaits (fst (start_open key e identity p)), snd (start_open key e identity p))"
      by (auto simp: r_def split: option.splits prod.splits)
    moreover have "pl_caller (snd (start_open key e identity p)) = pl_caller p" "pl_nCallers (snd (start_open key e identity p)) = pl_nCallers p"
      by (simp_all add: start_open_def Let_def upd_defs)
    ultimately show ?thesis using start_open_ok [OF ok known, of identity] by (simp add: serves_def)
  qed
  then show "pool_ok options {} {} (snd r)" and "serves (snd r) key identity (fst r)"
    and "pl_caller (snd r) = pl_caller p" and "pl_nCallers (snd r) = pl_nCallers p" by blast+
qed

lemma entry_for_callers: "pl_caller (snd (entry_for key p)) = pl_caller p" "pl_nCallers (snd (entry_for key p)) = pl_nCallers p"
  by (simp_all add: entry_for_def Let_def split: option.split)

lemma lease_turn_ok:
  fixes identity :: connection_identity and key :: string and ms :: time
  assumes ok: "pool_ok options {} {} p"
  defines "r \<equiv> lease_turn options key identity ms p"
  shows "pool_ok options {} {} (snd r) \<and> serves (snd r) key identity (fst r) \<and>
     pl_caller (snd r) = pl_caller p \<and> pl_nCallers (snd r) = pl_nCallers p"
proof -
  obtain e q where entry: "entry_for key p = (e, q)" by fastforce
  have q: "pool_ok options {} {} q" and known: "entry_known key e q"
    and callers: "pl_caller q = pl_caller p" "pl_nCallers q = pl_nCallers p"
    using entry_for_ok [OF ok, of key] entry_for_callers [of key p] by (simp_all add: entry)
  note await = await_ok [OF q known, of identity]
  show ?thesis
  proof (cases "en_installed (pl_entry q e)")
    case None
    then show ?thesis using await by (simp add: r_def lease_turn_def entry Let_def callers)
  next
    case (Some c)
    have c: "c < pl_nConns q" "cn_entry (pl_conn q c) = e"
      using q known Some unfolding pool_ok_def frame_ok_def entries_ok_def entry_known_def by auto
    have key: "cn_key (pl_conn q c) = key" using known c unfolding entry_known_def keyed_def by blast
    consider (unusable) "\<not> usable q c identity" | (old) "usable q c identity" "\<not> pl_now q + ms \<le> cn_readyAt (pl_conn q c) + po_hardAgeMs options"
      | (fine) "usable q c identity" "pl_now q + ms \<le> cn_readyAt (pl_conn q c) + po_hardAgeMs options" by blast
    then show ?thesis
    proof cases
      case unusable
      have s: "static q (shut_down destroy_transport c q)" by (rule shut_down_static [OF q c(1)])
      have "pool_ok options {} {} (shut_down destroy_transport c q)" using shut_down_ok [OF q c(1)] by simp
      note await = await_ok [OF this static_known [OF s known], of identity]
      show ?thesis using await s unusable Some
        by (simp add: r_def lease_turn_def entry Let_def callers static_def)
    next
      case old
      then show ?thesis using await Some by (simp add: r_def lease_turn_def entry Let_def callers)
    next
      case fine
      then have "r = (CallerReads (fst (checkout c ms q)), snd (checkout c ms q))"
        using Some by (simp add: r_def lease_turn_def entry Let_def split: prod.split)
      moreover have "cn_identity (pl_conn q c) = identity" using fine(1) by (simp add: usable_def)
      ultimately show ?thesis
        using checkout_ok [OF q c(1)] checkout_serves [OF key] callers by (simp add: checkout_callers)
    qed
  qed
qed

lemma pool_ok_callers:
  assumes ok: "pool_ok options {} {} p"
    and same: "\<And>j. j < pl_nCallers q \<Longrightarrow> serves p (ca_key (pl_caller q j)) (ca_identity (pl_caller q j)) (ca_state (pl_caller q j))"
    and q: "q = p\<lparr>pl_caller := f, pl_nCallers := n\<rparr>"
  shows "pool_ok options {} {} q"
proof -
  have rest: "pl_entries q = pl_entries p" "pl_nEntries q = pl_nEntries p" "pl_opening q = pl_opening p" "pl_opens q = pl_opens p"
    "pl_conn q = pl_conn p" "pl_nConns q = pl_nConns p" "pl_lease q = pl_lease p" "pl_nLeases q = pl_nLeases p"
    "pl_leaseCount q = pl_leaseCount p" "pl_entry q = pl_entry p"
    by (simp_all add: q)
  have op_of: "opening_of q = opening_of p" by (simp add: opening_of_def fun_eq_iff rest)
  have frame: "frame_ok {} {} (po_hardAgeMs options) p" using ok by (simp add: pool_ok_def)
  have "core_ok (po_channelLimit options) q"
    by (rule core_same [of _ p]) (use ok in \<open>simp_all add: pool_ok_def q\<close>)
  moreover have "conns_ok (po_hardAgeMs options) q = conns_ok (po_hardAgeMs options) p" unfolding conns_ok_def rest ..
  moreover have "entries_ok q = entries_ok p" unfolding entries_ok_def rest ..
  moreover have "leases_ok {} q = leases_ok {} p" unfolding leases_ok_def rest ..
  moreover have "used_ok {} q = used_ok {} p" unfolding used_ok_def rest ..
  moreover have "opens_ok q = opens_ok p" unfolding opens_ok_def rest op_of ..
  moreover have "keyed q = keyed p" by (simp add: keyed_def fun_eq_iff rest op_of)
  then have "keys_ok q = keys_ok p" unfolding keys_ok_def rest by simp
  moreover have "serves q = serves p" by (intro ext) (simp add: serves_def rest op_of split: caller_state.split)
  then have "calls_ok q" using same unfolding calls_serve by simp
  ultimately show ?thesis using frame by (simp add: pool_ok_def frame_ok_def)
qed

lemma lease_call_ok:
  assumes ok: "pool_ok options {} {} p"
  shows "pool_ok options {} {} (lease_call options key identity ms p)"
proof -
  define r where "r = (if \<not> (0 < ms \<and> ms < po_hardAgeMs options) then (CallerFailed BadDeadline, p) else lease_turn options key identity ms p)"
  have r: "pool_ok options {} {} (snd r) \<and> serves (snd r) key identity (fst r)"
    using ok lease_turn_ok [OF ok] by (simp add: r_def serves_def)
  have call: "lease_call options key identity ms p = (snd r)\<lparr>pl_caller := (pl_caller (snd r))(pl_nCallers (snd r) :=
      \<lparr>ca_key = key, ca_identity = identity, ca_deadlineMs = ms, ca_state = fst r\<rparr>), pl_nCallers := pl_nCallers (snd r) + 1\<rparr>"
    by (simp add: lease_call_def r_def split: prod.split)
  have "calls_ok (snd r)" using r by (simp add: pool_ok_def frame_ok_def)
  then show ?thesis
    by (intro pool_ok_callers [OF _ _ call]) (use r in \<open>auto simp: call calls_serve less_Suc_eq\<close>)
qed

lemma resume_call_ok:
  assumes ok: "pool_ok options {} {} p" and k: "k < pl_nCallers p"
  shows "pool_ok options {} {} (resume_call options k p)"
proof (cases "ca_state (pl_caller p k)")
  case (CallerWaits i)
  let ?ca = "pl_caller p k"
  have calls: "calls_ok p" using ok by (simp add: pool_ok_def frame_ok_def)
  have i: "opening_of p i" "og_key (pl_opening p i) = ca_key ?ca" "og_identity (pl_opening p i) = ca_identity ?ca"
    using calls k CallerWaits by (auto simp: calls_serve serves_def)
  define r where "r = (case og_result (pl_opening p i) of
                   OpenUnsettled \<Rightarrow> (CallerWaits i, p)
                 | OpenFailed e \<Rightarrow> (CallerFailed e, p)
                 | OpenDone c \<Rightarrow>
                     if usable p c (ca_identity ?ca)
                     then (case checkout c (ca_deadlineMs ?ca) p of (l, p') \<Rightarrow> (CallerReads l, p'))
                     else lease_turn options (ca_key ?ca) (ca_identity ?ca) (ca_deadlineMs ?ca) p)"
  have opened: "c < pl_nConns p \<and> cn_key (pl_conn p c) = ca_key ?ca \<and> cn_identity (pl_conn p c) = ca_identity ?ca"
    if "og_result (pl_opening p i) = OpenDone c" for c
    using ok i that unfolding pool_ok_def frame_ok_def opens_ok_def by auto
  have r: "pool_ok options {} {} (snd r) \<and> serves (snd r) (ca_key ?ca) (ca_identity ?ca) (fst r) \<and>
      pl_caller (snd r) = pl_caller p \<and> pl_nCallers (snd r) = pl_nCallers p"
    using ok i opened lease_turn_ok [OF ok] checkout_ok [OF ok] checkout_serves
    by (auto simp: r_def serves_def [of _ _ _ "CallerWaits _"] serves_def [of _ _ _ "CallerFailed _"] checkout_callers
        split: open_result.split prod.split) (metis checkout_callers fst_conv snd_conv)+
  have call: "resume_call options k p = (snd r)\<lparr>pl_caller := (pl_caller (snd r))(k := ?ca\<lparr>ca_state := fst r\<rparr>), pl_nCallers := pl_nCallers (snd r)\<rparr>"
    by (simp add: resume_call_def CallerWaits r_def [symmetric] split: prod.split)
  have "calls_ok (snd r)" using r by (simp add: pool_ok_def frame_ok_def)
  then show ?thesis
    by (intro pool_ok_callers [OF _ _ call]) (use r in \<open>auto simp: call calls_serve\<close>)
qed (simp_all add: resume_call_def ok)

lemma fold_shut_down:
  assumes "pool_ok options {} {} p" and "\<forall>c \<in> set cs. c < pl_nConns p"
  shows "pool_ok options {} {} (fold (shut_down how) cs p) \<and> static p (fold (shut_down how) cs p)"
  using assms
proof (induction cs arbitrary: p)
  case Nil
  then show ?case by (simp add: static_refl)
next
  case (Cons c cs)
  have c: "c < pl_nConns p" using Cons.prems by simp
  have s: "static p (shut_down how c p)" by (rule shut_down_static [OF Cons.prems(1) c])
  have "pool_ok options {} {} (shut_down how c p)" using shut_down_ok [OF Cons.prems(1) c] by simp
  moreover have "\<forall>d \<in> set cs. d < pl_nConns (shut_down how c p)" using Cons.prems(2) s by (simp add: static_def)
  ultimately show ?case using Cons.IH static_trans [OF s] by simp
qed

lemma new_generation_ok:
  assumes ok: "pool_ok options {} {} p"
  shows "pool_ok options {} {} (upd_entry e (\<lambda>en. en\<lparr>en_generation := g\<rparr>) (p\<lparr>pl_generations := g\<rparr>))"
proof -
  define q where "q = upd_entry e (\<lambda>en. en\<lparr>en_generation := g\<rparr>) (p\<lparr>pl_generations := g\<rparr>)"
  have rest: "pl_entries q = pl_entries p" "pl_nEntries q = pl_nEntries p" "pl_opening q = pl_opening p"
    "pl_opens q = pl_opens p" "pl_conn q = pl_conn p" "pl_nConns q = pl_nConns p" "pl_lease q = pl_lease p" "pl_nLeases q = pl_nLeases p"
    "pl_leaseCount q = pl_leaseCount p" "pl_caller q = pl_caller p" "pl_nCallers q = pl_nCallers p"
    "en_connections (pl_entry q d) = en_connections (pl_entry p d)" "en_installed (pl_entry q d) = en_installed (pl_entry p d)"
    "en_pending (pl_entry q d) = en_pending (pl_entry p d)" for d
    by (simp_all add: q_def upd_defs)
  have frame: "frame_ok {} {} (po_hardAgeMs options) p" using ok by (simp add: pool_ok_def)
  have op_of: "opening_of q = opening_of p" by (simp add: opening_of_def fun_eq_iff rest)
  have "core_ok (po_channelLimit options) q"
    by (rule core_same [of _ p]) (use ok in \<open>simp_all add: pool_ok_def q_def upd_defs\<close>)
  moreover have "conns_ok (po_hardAgeMs options) q = conns_ok (po_hardAgeMs options) p" unfolding conns_ok_def rest ..
  moreover have "entries_ok q = entries_ok p" unfolding entries_ok_def rest ..
  moreover have "leases_ok {} q = leases_ok {} p" unfolding leases_ok_def rest ..
  moreover have "used_ok {} q = used_ok {} p" unfolding used_ok_def rest ..
  moreover have "opens_ok q = opens_ok p" unfolding opens_ok_def rest op_of ..
  moreover have "keyed q = keyed p" by (simp add: keyed_def fun_eq_iff rest op_of)
  then have "keys_ok q = keys_ok p" unfolding keys_ok_def rest by simp
  moreover have "calls_ok q = calls_ok p" unfolding calls_ok_def rest op_of ..
  ultimately show ?thesis using frame by (simp add: pool_ok_def frame_ok_def q_def)
qed

lemma entry_connections:
  assumes "pool_ok options X Y p" and "e < pl_nEntries p"
  shows "c \<in> set (en_connections (pl_entry p e)) \<longleftrightarrow> c < pl_nConns p \<and> \<not> cn_closed (pl_conn p c) \<and> cn_entry (pl_conn p c) = e"
  using assms unfolding pool_ok_def frame_ok_def entries_ok_def by blast

lemma evict_ok:
  assumes ok: "pool_ok options {} {} p"
  shows "pool_ok options {} {} (evict key p)"
proof (cases "pl_entries p key")
  case (Some e)
  then have e: "e < pl_nEntries p" using ok unfolding pool_ok_def frame_ok_def entries_ok_def by blast
  let ?p1 = "upd_entry e (\<lambda>en. en\<lparr>en_generation := pl_generations p + 1\<rparr>) (p\<lparr>pl_generations := pl_generations p + 1\<rparr>)"
  have "pool_ok options {} {} ?p1" by (rule new_generation_ok [OF ok])
  moreover have "\<forall>c \<in> set (en_connections (pl_entry p e)). c < pl_nConns ?p1"
    using entry_connections [OF ok e] by (simp add: upd_defs)
  ultimately show ?thesis using Some fold_shut_down prune_ok by (simp add: evict_def Let_def)
qed (simp add: evict_def ok)

lemma fold_shut_down_closed:
  assumes "pool_ok options {} {} p" and "\<forall>d \<in> set cs. d < pl_nConns p" and "c \<in> set cs \<or> cn_closed (pl_conn p c)"
  shows "cn_closed (pl_conn (fold (shut_down how) cs p) c)"
  using assms
proof (induction cs arbitrary: p)
  case (Cons d cs)
  have d: "d < pl_nConns p" using Cons.prems by simp
  have s: "static p (shut_down how d p)" by (rule shut_down_static [OF Cons.prems(1) d])
  have ok: "pool_ok options {} {} (shut_down how d p)" using shut_down_ok [OF Cons.prems(1) d] by simp
  have "cn_closed (pl_conn (shut_down how d p) c)" if "c = d \<or> cn_closed (pl_conn p c)"
  proof (cases "cn_closed (pl_conn p d)")
    case True
    then show ?thesis using that by (auto simp: shut_down_def)
  next
    case False
    then have "closing d p (shut_down how d p)" using shut_down_closing(2) Cons.prems(1) d by (auto simp: pool_ok_def)
    then show ?thesis using that by (simp add: closingD)
  qed
  then have "c \<in> set cs \<or> cn_closed (pl_conn (shut_down how d p) c)" using Cons.prems(3) by auto
  moreover have "\<forall>d' \<in> set cs. d' < pl_nConns (shut_down how d p)" using Cons.prems(2) s by (simp add: static_def)
  ultimately show ?case using Cons.IH [OF ok] by simp
qed simp

lemma evict_closes:
  assumes ok: "pool_ok options {} {} p" and key: "pl_entries p key = Some e" and c: "c < pl_nConns p" "cn_entry (pl_conn p c) = e"
  shows "cn_closed (pl_conn (evict key p) c)"
proof -
  let ?p1 = "upd_entry e (\<lambda>en. en\<lparr>en_generation := pl_generations p + 1\<rparr>) (p\<lparr>pl_generations := pl_generations p + 1\<rparr>)"
  have e: "e < pl_nEntries p" using ok key unfolding pool_ok_def frame_ok_def entries_ok_def by blast
  have "cn_closed (pl_conn (fold (shut_down destroy_transport) (en_connections (pl_entry p e)) ?p1) c)"
    by (rule fold_shut_down_closed [OF new_generation_ok [OF ok]])
      (use entry_connections [OF ok e] c in \<open>auto simp: upd_defs\<close>)
  then show ?thesis using key by (simp add: evict_def Let_def)
qed

lemma quiet_ok:
  assumes ok: "pool_ok options {} {} p" and core: "core_ok (po_channelLimit options) q" and q: "alike p q"
    and ops: "\<And>c. cn_ops (pl_conn q c) = cn_ops (pl_conn p c)" "\<And>l. le_ops (pl_lease q l) = le_ops (pl_lease p l)"
  shows "pool_ok options {} {} q"
proof -
  have "frame_ok {} {} (po_hardAgeMs options) p" using ok by (simp add: pool_ok_def)
  then have "frame_ok {} {} (po_hardAgeMs options) q"
    by (rule frame_alike [OF _ q]) (use ok in \<open>auto simp: ops pool_ok_def frame_ok_def conns_ok_def leases_ok_def\<close>)
  then show ?thesis using core by (simp add: pool_ok_def)
qed

lemma read_over_ok:
  assumes ok: "pool_ok options {} {} p" and l: "l < pl_nLeases p"
  shows "pool_ok options {} {} (snd (read_over options l call p))"
proof (cases "fst (begin_op l call p)")
  case (Inl e)
  then show ?thesis using ok by (auto simp: read_over_def begin_op_def Let_def split: if_splits)
next
  case (Inr i)
  define q where "q = snd (read_over options l call p)"
  have opened: "\<not> le_released (pl_lease p l)" "\<not> cn_closed (pl_conn p (le_connection (pl_lease p l)))" "\<not> le_expired (pl_lease p l)"
    using Inr by (auto simp: begin_op_def Let_def split: if_splits)
  have a: "alike p q" "\<And>c. cn_closed (pl_conn p c) \<Longrightarrow> cn_ops (pl_conn q c) = cn_ops (pl_conn p c)"
    "\<And>k. le_released (pl_lease p k) \<or> le_expired (pl_lease p k) \<Longrightarrow> le_ops (pl_lease q k) = le_ops (pl_lease p k)"
    using opened
    by (auto simp: q_def read_over_def begin_op_def ask_slot_def Let_def upd_defs op_connection_def alike_def conn_shape_def
        lease_shape_def split: prod.splits)
  have frame: "frame_ok {} {} (po_hardAgeMs options) p" using ok by (simp add: pool_ok_def)
  have "frame_ok {} {} (po_hardAgeMs options) q"
    by (rule frame_alike [OF frame a(1)])
      (use frame a(2,3) in \<open>auto simp: frame_ok_def conns_ok_def leases_ok_def\<close>)
  moreover have "core_ok (po_channelLimit options) q"
    unfolding q_def using ok l read_over_core by (simp add: pool_ok_def)
  ultimately show ?thesis by (simp add: pool_ok_def q_def)
qed

lemma answer_op_ok:
  assumes ok: "pool_ok options {} {} p" and i: "i < pl_nOps p" "ro_state (pl_op p i) = OpRequested"
  shows "pool_ok options {} {} (answer_op i answer p)"
proof (cases "ro_settled (pl_op p i)")
  case False
  have core: "core_ok (po_channelLimit options) p" using ok by (simp add: pool_ok_def)
  have "ro_holdsSlot (pl_op p i)" using core_opD(3) [OF core i(1)] False i(2) by (simp add: op_ok_def)
  then have "answer_op i answer p = end_op i (answered_op answer (pl_op p i)) p"
    using answer_end_op False slots_not_waiting(1) [OF core i(1)] by blast
  then have "ending p (answer_op i answer p)" using end_op_ending by (simp add: answered_op_def)
  then show ?thesis using ok answer_op_core [OF core i] ending_frame by (auto simp: pool_ok_def)
qed (simp add: answer_op_def ok)

lemma close_stream_ok:
  assumes ok: "pool_ok options {} {} p" and i: "i < pl_nOps p" "ro_stream (pl_op p i) \<noteq> None"
  shows "pool_ok options {} {} (close_stream i p)"
proof -
  have core: "core_ok (po_channelLimit options) p" using ok by (simp add: pool_ok_def)
  have settled: "ro_settled (pl_op p i)" using core_opD(3) [OF core i(1)] i(2) unfolding op_ok_def by blast
  have "i \<notin> set (waiting_on p (op_connection p i))"
    using core_waiting(3) [OF core core_opD(2) [OF core i(1)]] settled by blast
  then have "close_stream i p = end_op i (stream_ended (pl_op p i)) p" by (rule close_stream_end_op)
  then have "ending p (close_stream i p)" using end_op_ending by (simp add: stream_ended_def)
  then show ?thesis using ok close_stream_core [OF core i(1) settled] ending_frame by (auto simp: pool_ok_def)
qed

lemma happen_ok:
  assumes ok: "pool_ok options {} {} p" and can: "can_happen p ev"
  shows "pool_ok options {} {} (happen options ev p)"
proof (cases ev)
  case (TimePasses ms)
  have "pool_ok options {} {} (p\<lparr>pl_now := pl_now p + int ms\<rparr>)"
    by (rule quiet_ok [OF ok core_same [of _ p]]) (use ok in \<open>simp_all add: pool_ok_def alike_def\<close>)
  then show ?thesis using TimePasses by simp
next
  case (LeaseCalled key identity ms)
  then show ?thesis using lease_call_ok [OF ok] by simp
next
  case (OpenSucceeds i)
  then show ?thesis using open_succeeds_ok [OF ok] can by (simp add: opening_of_def)
next
  case (OpenFails i e)
  then show ?thesis using open_fails_ok [OF ok] can by (simp add: opening_of_def)
next
  case (CallResumes k)
  then show ?thesis using resume_call_ok [OF ok] can by simp
next
  case (ReadCalled l call)
  then show ?thesis using read_over_ok [OF ok] can by simp
next
  case (OpAdmitted i)
  then have "core_ok (po_channelLimit options) (admitted_op i p)" using ok can admitted_op_core by (simp add: pool_ok_def)
  then have "pool_ok options {} {} (admitted_op i p)"
    by (rule quiet_ok [OF ok]) (auto simp: admitted_op_def Let_def release_slot_def upd_defs alike_def conn_shape_def split: prod.split)
  then show ?thesis using OpAdmitted by simp
next
  case (ExecAnswers i r)
  then show ?thesis using answer_op_ok [OF ok] can by simp
next
  case (StreamOpens i)
  then have "core_ok (po_channelLimit options) (stream_opens i p)" using ok can stream_opens_core by (simp add: pool_ok_def)
  then have "pool_ok options {} {} (stream_opens i p)"
    by (rule quiet_ok [OF ok]) (simp_all add: stream_opens_def upd_defs alike_def)
  then show ?thesis using StreamOpens by simp
next
  case (ChannelFails i e)
  then show ?thesis using answer_op_ok [OF ok] can by (simp add: fail_op_def)
next
  case (StreamCloses i)
  then show ?thesis using close_stream_ok [OF ok] can by simp
next
  case (LeaseReleased l)
  then show ?thesis using release_lease_ok [OF ok] can by simp
next
  case (LeaseExpires l)
  then show ?thesis using expire_ok [OF ok] can by simp
next
  case (IdleEnds c)
  then show ?thesis using shut_down_ok [OF ok] can by fastforce
next
  case (HardAgeEnds c)
  then show ?thesis using shut_down_ok [OF ok] can by fastforce
next
  case (Evicted key)
  then show ?thesis using evict_ok [OF ok] by simp
next
  case (TransportTurns t s)
  then show ?thesis using transport_ok [OF ok] by simp
qed

lemma new_pool_ok: "pool_ok options {} {} (new_pool now)"
  by (simp add: new_pool_def pool_ok_def core_ok_def refs_ok_def granted_ok_def frame_ok_def frame_defs opening_of_def) auto

lemma pool_run_ok: "pool_run options p evs q \<Longrightarrow> pool_ok options {} {} p \<Longrightarrow> pool_ok options {} {} q"
  by (induction rule: pool_run.induct) (auto simp: pool_step_iff happen_ok)

lemma pool_reach_ok: "pool_run options (new_pool now) evs p \<Longrightarrow> pool_ok options {} {} p"
  by (rule pool_run_ok [OF _ new_pool_ok])

text \<open>Events played one after another are a run.\<close>

lemma pool_run_append: "pool_run options q evs r \<Longrightarrow> pool_run options p before q \<Longrightarrow> pool_run options p (before @ evs) r"
proof (induction rule: pool_run.induct)
  case (some q' evs r' ev s)
  then show ?case using pool_run.some [of options p "before @ evs"] by simp
qed simp

lemma play_run: "play options evs p = Some q \<Longrightarrow> pool_run options p evs q"
proof (induction evs arbitrary: p)
  case (Cons ev evs)
  then have "can_happen p ev" and rest: "play options evs (happen options ev p) = Some q" by (simp_all split: if_splits)
  then have "pool_run options p [ev] (happen options ev p)"
    using pool_run.some [OF pool_run.none pool_step.step] by fastforce
  then show ?case using pool_run_append [OF Cons.IH [OF rest]] by fastforce
qed (simp add: pool_run.none)

end
