(* ===== verification/ReadPoolExamples.thy ===== *)
theory ReadPoolExamples
  imports ReadPoolSafety
begin

text \<open>Concrete runs of the pool of connections: a read over a new connection, and an eviction that misses one.\<close>

lemma played_run: "map_option f (play options evs p) = Some v \<Longrightarrow> \<exists>q. pool_run options p evs q \<and> f q = v"
  using play_run by blast

definition small_pool :: pool_options where
  "small_pool = \<lparr>po_idleMs = 10000, po_hardAgeMs = 120000, po_channelLimit = 1\<rparr>"

definition host_identity :: connection_identity where
  "host_identity = \<lparr>ci_hostname = ''10.0.0.1'', ci_port = 22, ci_username = ''bot'', ci_sshKeyId = ''k'', ci_hostKeyFingerprint = ''SHA256:x''\<rparr>"

text \<open>Two reads over one channel: the first is on the host, the second waits.\<close>

definition two_reads :: "pool_event list" where
  "two_reads = [LeaseCalled ''o:h'' host_identity 15000, TransportTurns 1 TReady, OpenSucceeds 1, CallResumes 0,
     ReadCalled 0 (ExecCall ''uname -m''), OpAdmitted 0, ReadCalled 0 (ExecCall ''id -u'')]"

lemma two_reads_played:
  "map_option (\<lambda>p. (pl_nConns p, pl_nOps p, ca_state (pl_caller p 0), pl_nCallers p, ro_answer (pl_op p 1), cn_closed (pl_conn p 0))) (play small_pool two_reads (new_pool 0)) =
     Some (1, 2, CallerReads 0, 1, None, False)"
  by code_simp

lemma two_reads_run:
  "\<exists>p. pool_run small_pool (new_pool 0) two_reads p \<and> pl_nConns p = 1 \<and> pl_nOps p = 2 \<and> ca_state (pl_caller p 0) = CallerReads 0 \<and>
     pl_nCallers p = 1 \<and> ro_answer (pl_op p 1) = None \<and> \<not> cn_closed (pl_conn p 0)"
  using played_run [OF two_reads_played] by auto

lemma two_reads_entry_played:
  "map_option (\<lambda>p. (pl_entries p ''o:h'', pl_nConns p, cn_entry (pl_conn p 0))) (play small_pool two_reads (new_pool 0)) = Some (Some 0, 1, 0)"
  by code_simp

lemma two_reads_entry:
  "\<exists>p. pool_run small_pool (new_pool 0) two_reads p \<and> pl_entries p ''o:h'' = Some 0 \<and> 0 < pl_nConns p \<and> cn_entry (pl_conn p 0) = 0"
  using played_run [OF two_reads_entry_played] by auto

text \<open>A connection drops, the next read finds it so and opens another, and the host is evicted before that has opened.\<close>

definition connection_drop :: "pool_event list" where
  "connection_drop = [LeaseCalled ''o:h'' host_identity 15000, TransportTurns 1 TReady, OpenSucceeds 1, CallResumes 0,
     LeaseReleased 0, TransportTurns 1 TDisconnected, LeaseCalled ''o:h'' host_identity 15000]"

definition eviction_missed :: "pool_event list" where
  "eviction_missed = [Evicted ''o:h'', TransportTurns 2 TReady, OpenSucceeds 2, CallResumes 1, Evicted ''o:h'']"

lemma eviction_missed_played:
  "map_option (\<lambda>p. (ca_state (pl_caller p 1), ca_key (pl_caller p 1), le_released (pl_lease p 1), cn_closed (pl_conn p (le_connection (pl_lease p 1))))) 
     (play small_pool (connection_drop @ eviction_missed) (new_pool 0)) = Some (CallerReads 1, ''o:h'', False, False)"
  by code_simp

lemma eviction_missed_run:
  "\<exists>p. pool_run small_pool (new_pool 0) (connection_drop @ eviction_missed) p \<and> ca_state (pl_caller p 1) = CallerReads 1 \<and>
     ca_key (pl_caller p 1) = ''o:h'' \<and> \<not> le_released (pl_lease p 1) \<and> \<not> cn_closed (pl_conn p (le_connection (pl_lease p 1)))"
  using played_run [OF eviction_missed_played] by auto

end
