(* ===== verification/Spec2Isabelle.thy ===== *)
theory Spec2Isabelle
  imports TeardownExamples ReadPoolExamples
begin

text \<open>
  A verification library for open-mcc-manager, a manager of Minecraft console bots that run as systemd
  units on remote hosts. It models the core logic under \<open>src/packages/core/src\<close> with what it uses of
  \<open>src/packages/contracts/src\<close> and the tables of \<open>src/packages/db/src/schema\<close>.

  \<^bold>\<open>The program's parts and the theories.\<close>

  \<^item> \<open>Prelude\<close>: strings as lists of Latin-1 characters with the operations of JavaScript's strings the
    source uses, dates as integer milliseconds, calls that change a state as functions from the state to
    a thrown value or a result and the state after (\<open>io\<close>), and loops over them.
  \<^item> \<open>Contracts\<close>: two interfaces several tables share, inserts that take effect once per key
    (\<open>insert_once\<close>) and upserts by key (\<open>keyed_upsert\<close>), and tables as lists of rows.
  \<^item> Status of hosts and bots (\<open>status/\<close>): \<open>StatusContract\<close> (\<open>contracts/status.ts\<close>), \<open>Reachability\<close>
    (\<open>reachability.ts\<close>), \<open>Journal\<close> (\<open>boundary/journal.ts\<close>), \<open>Connection\<close> (\<open>connection.ts\<close>), \<open>Incident\<close>
    (\<open>incident.ts\<close>), \<open>Rollup\<close> (\<open>rollup.ts\<close>), \<open>StatusStore\<close> (\<open>status.repository.ts\<close>), \<open>StatusController\<close>
    (\<open>status.controller.ts\<close>, \<open>escalation.job.ts\<close>, \<open>boundary/status-cursor.ts\<close>), \<open>Observer\<close>
    (\<open>instance-observer.ts\<close>). \<open>StatusInvariant\<close> and \<open>StatusMachine\<close> hold the invariant of the log and the
    steps of the controller as an inductive relation with its reachable states.
  \<^item> Notifications (\<open>notification/\<close>): \<open>NotificationStore\<close> (\<open>notification.repository.ts\<close>), \<open>Announce\<close>
    (\<open>producer.ts\<close>, \<open>announce.ts\<close>, \<open>notification-copy.ts\<close>), \<open>Outcome\<close> (\<open>outcome.ts\<close>, \<open>retention.ts\<close>,
    \<open>bounds.ts\<close> and the providers' replies), \<open>Delivery\<close> (\<open>delivery.job.ts\<close>, \<open>delivery.batch.ts\<close>, the cleanup).
  \<^item> Bots on their hosts (\<open>instance/\<close>): \<open>Unit\<close> (\<open>unit.ts\<close>, \<open>host/profile.ts\<close>), \<open>Schedule\<close> (\<open>schedule.ts\<close>,
    \<open>due.ts\<close>), \<open>CommandStore\<close> (\<open>command.repository.ts\<close>, \<open>schedule.repository.ts\<close>, \<open>scheduler.ts\<close>), \<open>Tasks\<close>
    (\<open>task.ts\<close>, \<open>task-run.ts\<close>), \<open>TaskStore\<close> (\<open>task.repository.ts\<close>), \<open>TaskScheduler\<close> (\<open>task-scheduler.ts\<close> and its
    wiring in \<open>apps/server/src/bootstrap.ts\<close>), \<open>TaskSignals\<close> (\<open>task-signals.ts\<close>, and \<open>recordJoinSightings\<close> of
    \<open>instance.controller.ts\<close>).
  \<^item> Sending (\<open>notification/\<close>): \<open>Egress\<close> (\<open>egress.ts\<close>), \<open>Pinned\<close> (\<open>pinned.ts\<close>, \<open>provider-url.ts\<close>), \<open>Encoding\<close>
    (the encodings of Node the senders use), \<open>Failure\<close> (\<open>failure.ts\<close>), \<open>MailText\<close> (\<open>smtp.reply.ts\<close>,
    \<open>smtp.message.ts\<close>), \<open>Smtp\<close> (\<open>smtp.connect.ts\<close>, \<open>smtp.client.ts\<close>, \<open>smtp.sender.ts\<close>), \<open>Sender\<close> (\<open>sender.ts\<close>,
    \<open>signature.ts\<close>, \<open>dispatch.ts\<close>). \<open>SmtpSafety\<close> holds what is true of whole conversations.
  \<^item> Hosts (\<open>host/\<close>): \<open>HostFacts\<close> (\<open>facts.ts\<close>, \<open>podman-facts.ts\<close>, \<open>mcc-release.ts\<close>, \<open>runtime-image.ts\<close>),
    \<open>HostCheck\<close> (\<open>check.ts\<close>), \<open>Provision\<close> (\<open>provision.ts\<close>, \<open>provision-failure.ts\<close>, \<open>unit-template.ts\<close>), \<open>Fleet\<close>
    (the tables of hosts, keys, members' audit log), \<open>HostStore\<close> (\<open>host.repository.ts\<close>), \<open>HostController\<close>
    (\<open>host.controller.ts\<close>, \<open>unreachable.ts\<close>, \<open>address-probe.ts\<close>), \<open>Teardown\<close> (\<open>instance/removal.ts\<close>,
    \<open>teardown.ts\<close>, \<open>job/host-teardown.job.ts\<close>), \<open>HealthPoller\<close> (\<open>host-reader.ts\<close>, \<open>health.ts\<close>,
    \<open>health-poller.ts\<close>). \<open>ProvisionSafety\<close>, \<open>TeardownSafety\<close> and \<open>HealthPollerSafety\<close> hold what is true of
    the commands a host was sent, \<open>HostSteps\<close> the steps of the table of hosts and what every procedure keeps.
  \<^item> Connections (\<open>packages/transport\<close>): \<open>ReadPool\<close> (\<open>read-connections.ts\<close>, \<open>ssh/limiter.ts\<close>), with \<open>ReadPoolSafety\<close>,
    its invariant over every interleaving of calls, answers, timers and evictions.
  \<^item> \<open>Examples\<close>, \<open>HostExamples\<close>, \<open>TeardownExamples\<close>, \<open>ReadPoolExamples\<close>: the concrete rows, hosts and states the properties are
    tried on.

  \<^bold>\<open>How the parts interact.\<close> The poller's probes and the observer's journal readings become recorded
  states and events in the status log; each event is announced in the same transaction, a notification
  with a delivery per subscribed destination, each with a job on a queue; the delivery job sends it and
  settles or queues it again. An interruption queues an escalation. Beside this the two schedulers read
  the commands and tasks that are enabled, claim what is due and send it to the bots that run. A host is
  enrolled with the key it showed, provisioned under an attempt that one procedure at a time holds, polled
  over connections of the identity its row still has, and taken away by a job that deletes its row.

  \<^bold>\<open>State.\<close> The database is one record of tables (lists of rows in insertion order), extended by each
  store: \<open>status_db\<close>, then \<open>notify_db\<close> and \<open>app_db\<close> with the queue, or \<open>command_db\<close> and \<open>task_db\<close>. It also
  holds the supplies the code draws from: identifiers (\<open>nanoid\<close>) and the clock (\<open>new Date()\<close>), each a
  function of a counter. A transaction is \<open>in_transaction\<close>: a throw restores the tables and keeps what was
  drawn. Unique indexes are conditions of the inserts. A row's columns keep their names, with the table's
  prefix. The pool of connections is a heap of rows, numbered as they are created; its step relation
  \<open>pool_step\<close> has one event per call, answer, timer and turn of a transport, \<open>play\<close> runs a list of them.

  \<^bold>\<open>Parameters.\<close> What is not under \<open>src/\<close> is an argument: the queue (\<open>send\<close>), the hosts' shells (\<open>exec\<close>),
  the sending of a notification (\<open>deliver\<close>), the mail server's socket (\<open>smtp_net\<close>), \<open>new URL\<close>, the lookup
  of names, the HTTP client, the HMAC and the sealed box, the SSH of the host procedures (\<open>host_services\<close>,
  \<open>teardown_services\<close>, \<open>reader_services\<close>, whose calls may change the tables, since other procedures run
  while they are awaited), \<open>Date.parse\<close> and \<open>Intl.DateTimeFormat\<close> (\<open>read_date\<close>,
  \<open>zone_parts\<close>), \<open>JSON.parse\<close> and \<open>Number\<close>, \<open>Math.random\<close>. Hypotheses on them name documented behaviour:
  \<open>obliging\<close> (the queue takes its jobs), \<open>journal_host\<close> (journalctl's \<open>--cursor\<close> and \<open>-n\<close>), \<open>keeps_runs\<close>
  (what is called does not touch the table of runs), \<open>services_step\<close> (what
  others do while a server is awaited is any run of the steps of the procedures), \<open>steady\<close> (a host that
  answers the same whenever it is asked), \<open>falls_silent\<close> (a socket fails or ends after finitely many pieces).

  \<^bold>\<open>What the lemmas show.\<close> The status log keeps its invariant in every reachable state and its records
  refine the pure machines of hosts and bots; paging loses and repeats nothing, in journals and in the
  feed; the summary adds up; each fact is logged, announced and delivered once and every delivery settles;
  what reaches a shell or a unit file is what was meant; commands and tasks run once for what made them
  due; nothing is sent to an address the policy does not allow, mail keeps its secrets behind TLS, is
  written once and is read back as it was meant; hosts are provisioned only with what was verified, keep
  their attempts apart, and are taken away only by commands on this program's own names; reads share
  connections without passing their limit, their host or their deadline, and none is left without an answer.

  \<^bold>\<open>Bounds and fuel.\<close> \<open>drain_rounds\<close> and \<open>join_rounds\<close> recurse on the number of rounds, which the code bounds
  by four. \<open>delivery_chain\<close> counts jobs: its fuel is the limit of eight attempts, and the lemma shows it
  enough. \<open>feed_pages\<close> counts pages: any number whose pages hold more than the log is enough. The
  waiting for a mail server is a \<open>partial_function (option)\<close>: a server that never answers is \<open>None\<close>, and
  a property shows that a socket which falls silent is not. All other
  loops of the code run over lists and are structural recursions or folds.

  \<^bold>\<open>Not modelled.\<close> Log lines, tracing spans and the timers that start a tick; the SSH transport, the HTTP
  client and the web interface, which are I/O or rendering; \<open>expressInstall\<close>; of the controller of bots only the functions named above.
  \<open>lockHost\<close> is not a definition: transactions run one after another.
\<close>

section \<open>The status log\<close>






text \<open>
  C3. The abstract machine declares a host down exactly when its probes have failed without an answer
  in between for the threshold of two minutes: \<open>late_failure\<close> reads that off the probes alone.
\<close>

theorem down_iff_failed_for_threshold:
  "rc_state (probe_run unobserved_reachability ps) = RDown \<longleftrightarrow> late_failure None ps False"
  using probe_run_spec_aux [OF reach_ok_unobserved, of ps] by (simp add: unobserved_reachability_def)

text \<open>
  In the log of a host's probes the announcements alternate: unreachable, recovered, unreachable,
  and so on, however the probes come.
\<close>

theorem outages_alternate: "alternates HostUnreachable (outage_log (probe_events unobserved_reachability ps))"
  using outages_alternate_aux [OF reach_ok_unobserved, of ps] by (simp add: unobserved_reachability_def)

text \<open>
  C4. The changes read out of a bot's journal take its connection where the journal's signals do, one
  after another, and every change moves the state it finds.
\<close>

theorem journal_changes_refine:
  "state_after st (changes_loop st signals) = foldl signal_target st signals \<and> moves st (changes_loop st signals)"
  by (simp add: changes_loop_refines changes_loop_moves)










section \<open>Journals and the event feed\<close>

text \<open>
  C7. Draining a bot's journal page by page, within the rounds one drain has, records exactly the
  changes that one reading of all the lines from the cursor would, and leaves the cursor on the last
  line; reading that line again in the next drain records nothing.
\<close>

theorem paged_drain_reads_everything:
  assumes "\<forall>l \<in> set J. readable_line rd l" and "\<forall>p. is_journal_cursor (cursor_of p)"
    and "journal_host J cursor_of inst exec"
    and "p < length J" and "length J - p \<le> journal_drain_rounds * journal_max_lines"
  shows "drain_connection_changes rd (recording_drain exec) inst seen (Some (cursor_of p)) ([], Some (cursor_of p)) =
      (Inr Drained, (changes_from_signals seen (signals_from rd J p), Some (cursor_of (length J - 1)))) \<and>
    changes_from_signals (connection_after seen (changes_from_signals seen (signals_from rd J p)))
      (signals_from rd J (length J - 1)) = []"
  using drain_rounds_whole [OF assms, of seen "[]"] last_entry_again [OF assms(1,4), of seen]
  by (simp only: drain_connection_changes_def append_Nil simp_thms)

definition some_line :: string where
  "some_line = ''2026-01-01T00:00:00+0000 host bot[7]: Server was successfully joined.''"

definition some_cursor :: string where
  "some_cursor = ''s=00000000000000000000000000000000;i=1;b=00000000000000000000000000000000;m=1;t=1;x=1''"

definition some_exec :: "string \<Rightarrow> (drain_log, exec_result) io" where
  "some_exec = (\<lambda>cmd w.
     (Inr \<lparr>er_exitCode = 0, er_stdout = page_text [some_line] some_cursor, er_stderr = []\<rparr>, w))"

theorem paged_drain_reads_everything_witness:
  "fst (drain_connection_changes (\<lambda>_. Some 5000) (recording_drain some_exec) ''b'' unobserved_connection
      (Some some_cursor) ([], Some some_cursor)) = Inr Drained \<and>
   changes_from_signals (connection_after unobserved_connection
      (changes_from_signals unobserved_connection (signals_from (\<lambda>_. Some 5000) [some_line] 0)))
      (signals_from (\<lambda>_. Some 5000) [some_line] 0) = []"
proof -
  have line: "\<forall>l \<in> set [some_line]. readable_line (\<lambda>_. Some 5000) l"
    by (simp add: readable_line_def some_line_def parse_journal_line_def match_journal_line_def trim_def
        is_space_def is_digit_def lf_def cr_def journal_note_def starts_with_iff is_line_end_def)
  have cursor: "\<forall>p. is_journal_cursor ((\<lambda>_. some_cursor) (p::nat))"
    by (simp add: some_cursor_def) code_simp
  have ok: "instance_id_ok ''b''" by code_simp
  have host: "journal_host [some_line] (\<lambda>_. some_cursor) ''b'' some_exec"
    using ok by (simp add: journal_host_def some_exec_def journal_command_def unit_name_def rbind_def
        validate_instance_id_Inr [THEN iffD2] journal_max_lines_def Let_def)
  show ?thesis
    using paged_drain_reads_everything [OF line cursor host, of 0 unobserved_connection]
    by (simp add: journal_drain_rounds_def journal_max_lines_def)
qed

fun feed_pages :: "nat \<Rightarrow> ident \<Rightarrow> event_filter \<Rightarrow> nat \<Rightarrow> status_event_cursor option \<Rightarrow> 'm status_db_scheme
    \<Rightarrow> status_event_row list option" where
  "feed_pages 0 org f limit cursor db = None"
| "feed_pages (Suc n) org f limit cursor db =
     (let page = list_events org f limit cursor db in
      if length page < limit then Some page
      else map_option ((@) page)
             (feed_pages n org f limit (Some (event_position (last page))) db))"

lemma feed_pages_rest:
  assumes "distinct (map ev_id (statusEvents db))" and "0 < limit"
    and "length (filter (past_cursor cursor) (newest_first org f db)) < n * limit"
  shows "feed_pages n org f limit cursor db = Some (filter (past_cursor cursor) (newest_first org f db))"
  using assms(3)
proof (induction n arbitrary: cursor)
  case 0
  then show ?case by simp
next
  case (Suc n)
  let ?L = "filter (past_cursor cursor) (newest_first org f db)"
  let ?page = "list_events org f limit cursor db"
  have page: "?page = take limit ?L" by (simp add: list_events_newest_first)
  show ?case
  proof (cases "length ?page < limit")
    case True
    then have "?page = ?L" using page by simp
    then show ?thesis using True by (simp add: Let_def)
  next
    case False
    then have full: "length ?page = limit" using page by simp
    let ?R = "filter (past_cursor (Some (event_position (last ?page)))) (newest_first org f db)"
    have "?page @ ?R = ?L"
      using list_events_next_page [OF assms(1) refl full assms(2), of "length ?L + length ?R"]
      by (simp add: list_events_newest_first)
    moreover from this have "length ?R < n * limit"
      using full Suc.prems by (metis add_less_cancel_left length_append mult_Suc)
    ultimately show ?thesis using Suc.IH False by (simp add: Let_def)
  qed
qed

lemma descending_distinct:
  "sorted_wrt (\<lambda>a b. (event_position b :: status_event_cursor) < event_position a) rows \<Longrightarrow> distinct rows"
  by (induction rows) auto

text \<open>
  C8. Following the event feed from page to page, each page asked for with the position of the last
  event of the one before, shows every event that matches exactly once, newest first, and ends.
\<close>

theorem feed_shows_every_event_once:
  assumes "distinct (map ev_id (statusEvents db))" and "0 < limit" and "length (statusEvents db) < n * limit"
  shows "\<exists>rows. feed_pages n org f limit None db = Some rows \<and> distinct rows \<and>
    set rows = {r \<in> set (statusEvents db). event_matches org f r} \<and>
    sorted_wrt (\<lambda>a b. event_position b < event_position a) rows"
proof -
  let ?rows = "newest_first org f db"
  have "length ?rows < n * limit"
    using le_less_trans [OF length_filter_le assms(3)] by (simp add: newest_first_def)
  moreover have all: "filter (past_cursor None) ?rows = ?rows" by (simp add: past_cursor_def)
  ultimately have "feed_pages n org f limit None db = Some ?rows"
    using feed_pages_rest [OF assms(1,2), of None org f n] by simp
  moreover have "sorted_wrt (\<lambda>a b. event_position b < event_position a) ?rows"
    by (rule newest_first_descends [OF assms(1)])
  moreover from this have "distinct ?rows"
    by (rule descending_distinct)
  ultimately show ?thesis by (auto simp: set_newest_first)
qed

definition two_events :: "unit app_db" where
  "two_events = blank_app\<lparr>statusEvents :=
     [\<lparr>ev_id = ''1'', ev_organizationId = ''o'', ev_values = instance_event some_bot InstanceJoined 1000 1000 1000 None ''j''\<rparr>,
      \<lparr>ev_id = ''2'', ev_organizationId = ''o'', ev_values = instance_event some_bot status_event_kind.InstanceStopped 2000 2000 2000 None ''s''\<rparr>]\<rparr>"

theorem feed_shows_every_event_once_witness:
  "\<exists>rows. feed_pages 3 ''o'' \<lparr>ef_since = 0, ef_hostId = None, ef_instanceId = None\<rparr> 1 None two_events = Some rows \<and>
    map ev_id rows = [''2'', ''1'']"
proof -
  have d: "distinct (map ev_id (statusEvents two_events))" by (simp add: two_events_def)
  have n: "length (statusEvents two_events) < 3 * 1" by (simp add: two_events_def)
  obtain rows where r: "feed_pages 3 ''o'' \<lparr>ef_since = 0, ef_hostId = None, ef_instanceId = None\<rparr> 1 None two_events = Some rows"
      "distinct rows" "set rows = {r \<in> set (statusEvents two_events).
        event_matches ''o'' \<lparr>ef_since = 0, ef_hostId = None, ef_instanceId = None\<rparr> r}"
      "sorted_wrt (\<lambda>a b. event_position b < event_position a) rows"
    using feed_shows_every_event_once [OF d zero_less_one n] by blast
  have s: "set rows = set (statusEvents two_events)"
    unfolding r(3) by (auto simp: two_events_def event_matches_def instance_event_def)
  have "length rows = 2" using distinct_card [OF r(2)] by (simp add: s two_events_def)
  then obtain a b where ab: "rows = [a, b]" by (auto simp: length_Suc_conv numeral_2_eq_2)
  obtain e1 e2 where e: "statusEvents two_events = [e1, e2]" "ev_id e1 = ''1''" "ev_id e2 = ''2''"
      "event_position e1 < event_position e2"
    by (simp add: two_events_def event_position_def instance_event_def less_prod_def)
  have "a = e1 \<and> b = e2 \<or> a = e2 \<and> b = e1"
    using s r(2) unfolding ab e(1) by (auto simp: doubleton_eq_iff)
  moreover have "event_position b < event_position a" using r(4) unfolding ab by simp
  then have "\<not> (a = e1 \<and> b = e2)" using e(4) by (metis less_asym)
  ultimately have "a = e2" "b = e1" by blast+
  then have "map ev_id rows = [''2'', ''1'']" by (simp add: ab e(2,3))
  with r(1) show ?thesis by (intro exI [of _ rows] conjI)
qed

lemma index_of_first: "c \<notin> set xs \<Longrightarrow> index_of c (xs @ c # ys) = Some (length xs)"
  by (induction xs) auto

lemma index_of_splits: "index_of c xs = Some i \<Longrightarrow> take i xs @ c # drop (Suc i) xs = xs"
  by (induction xs arbitrary: i) (auto split: if_splits)

lemma iso_string_no_bar: "CHR ''|'' \<notin> set (iso_string t)"
proof -
  have d: "CHR ''|'' \<notin> set (nat_string n)" for n using nat_string_digits [of n] by (auto simp: is_digit_def)
  have p: "CHR ''|'' \<notin> set (pad_zero w n)" for w n using d by (simp add: pad_zero_def Let_def)
  show ?thesis by (simp add: iso_string_def iso_year_def Let_def p split: prod.split)
qed

text \<open>
  A cursor of the event feed survives the trip through its text, where the date constructor reads
  the stamps the feed writes; and whatever text parses as a cursor is the text of that cursor.
\<close>

theorem event_cursor_round_trip:
  assumes "read_date (iso_string t) = Some t" and "i \<noteq> []"
  shows "parse_status_event_cursor read_date (encode_status_event_cursor (t, i)) = Some (t, i) \<and>
    (\<forall>raw c. parse_status_event_cursor read_date raw = Some c \<longrightarrow> encode_status_event_cursor c = raw)"
proof
  have "index_of (CHR ''|'') (iso_string t @ ''|'' @ i) = Some (length (iso_string t))"
    using index_of_first [OF iso_string_no_bar] by simp
  then show "parse_status_event_cursor read_date (encode_status_event_cursor (t, i)) = Some (t, i)"
    using assms by (simp add: parse_status_event_cursor_def encode_status_event_cursor_def Let_def)
next
  show "\<forall>raw c. parse_status_event_cursor read_date raw = Some c \<longrightarrow> encode_status_event_cursor c = raw"
    by (auto simp: parse_status_event_cursor_def encode_status_event_cursor_def Let_def index_of_splits
        split: option.splits if_splits)
qed

theorem event_cursor_round_trip_witness:
  "parse_status_event_cursor (\<lambda>s. if s = iso_string 5000 then Some 5000 else None)
     (encode_status_event_cursor (5000, ''e'')) = Some (5000, ''e'')"
  by (rule conjunct1 [OF event_cursor_round_trip]) simp_all

section \<open>The summary\<close>

lemma bucket_starts_steps:
  fixes r :: status_range and now :: time
  defines "step \<equiv> bucket_seconds r * 1000"
  shows "\<exists>rest. bucket_starts_for r now = (now - range_seconds r * 1000) # rest \<and>
     sorted ((now - range_seconds r * 1000) # rest) \<and>
     (\<forall>t \<in> set rest. step dvd t) \<and> last ((now - range_seconds r * 1000) # rest) = now div step * step"
proof -
  let ?s = "bucket_starts_for r now"
  have pos: "0 < step" by (cases r) (simp_all add: step_def)
  have len: "length ?s = bucket_count r" by (rule bucket_starts_length)
  have count: "2 < bucket_count r" using bucket_count_value [of r] by auto
  have nth: "?s ! i = (if i = 0 then now - range_seconds r * 1000
      else now div step * step - (int (bucket_count r) - 1 - int i) * step)" if "i < bucket_count r" for i
    using bucket_starts_nth [OF that] by (simp add: step_def)
  have range: "range_seconds r * 1000 = int (bucket_count r) * step" by (simp add: range_is_count step_def)
  have floor: "now div step * step \<le> now \<and> now < now div step * step + step" by (rule floor_bounds [OF pos])
  obtain rest where s: "?s = (now - range_seconds r * 1000) # rest"
    using nth [of 0] len count by (cases ?s) auto
  have "?s ! i \<le> ?s ! j" if "i \<le> j" "j < length ?s" for i j
  proof (cases "i = 0")
    case True
    show ?thesis
    proof (cases "j = 0")
      case False
      have "(int (bucket_count r) - 1 - int j) * step \<le> (int (bucket_count r) - 1) * step"
        using False pos by (intro mult_right_mono) auto
      also have "\<dots> = int (bucket_count r) * step - step" by (simp add: left_diff_distrib)
      finally have "now - int (bucket_count r) * step \<le> now div step * step - (int (bucket_count r) - 1 - int j) * step"
        using floor by linarith
      then show ?thesis using True False that len nth by (simp add: range)
    qed (use True in simp)
  next
    case False
    have "(int (bucket_count r) - 1 - int j) * step \<le> (int (bucket_count r) - 1 - int i) * step"
      using that pos by (intro mult_right_mono) auto
    then show ?thesis using False that len nth by simp
  qed
  then have sorted: "sorted ?s" by (simp add: sorted_iff_nth_mono)
  have dvd: "step dvd t" if t: "t \<in> set rest" for t
  proof -
    obtain i where "i < length rest" "rest ! i = t" using t unfolding in_set_conv_nth by blast
    then have "t = now div step * step - (int (bucket_count r) - 1 - int (Suc i)) * step"
      using nth [of "Suc i"] len s by simp
    then have "t = (now div step - (int (bucket_count r) - 1 - int (Suc i))) * step"
      by (simp only: left_diff_distrib)
    then show ?thesis by simp
  qed
  have "last ?s = ?s ! (bucket_count r - 1)" using len count by (subst last_conv_nth) auto
  moreover have "?s ! (bucket_count r - 1) = now div step * step - (int (bucket_count r) - 1 - int (bucket_count r - 1)) * step"
    using nth [of "bucket_count r - 1"] count by (auto simp del: of_nat_diff)
  moreover have "int (bucket_count r) - 1 - int (bucket_count r - 1) = 0" using count by linarith
  ultimately have "last ?s = now div step * step" by (simp only: mult_zero_left diff_zero)
  then show ?thesis using s sorted dvd by metis
qed

definition recorded_by :: "time \<Rightarrow> status_interval_row \<Rightarrow> bool" where
  "recorded_by now r \<longleftrightarrow> whole_second (si_startedAt r) \<and>
     (case si_endedAt r of None \<Rightarrow> True | Some e \<Rightarrow> whole_second e \<and> e \<le> now)"

lemma overlap_within:
  "(case ri_endedAt i of None \<Rightarrow> False | Some e \<Rightarrow> e \<le> b) \<Longrightarrow> b \<le> c \<Longrightarrow> overlap_seconds i a c = overlap_seconds i a b"
  by (auto simp: overlap_seconds_def Let_def min_def split: option.splits)

lemma buckets_of_summary:
  assumes "whole_second now" and "list_all (recorded_by now) mine"
  shows "sum_list (map (\<lambda>u. get_bucket b (ba_availability u))
      (roll_up_buckets (map (ended_by now) mine) (bucket_starts_for r now) (bucket_seconds r))) =
    get_bucket b (availability_over mine (now - range_seconds r * 1000) now)"
proof -
  let ?step = "bucket_seconds r * 1000" and ?since = "now - range_seconds r * 1000"
  obtain rest where s: "bucket_starts_for r now = ?since # rest" and sorted: "sorted (?since # rest)"
    and dvd: "\<forall>t \<in> set rest. ?step dvd t" and last: "last (?since # rest) = now div ?step * ?step"
    using bucket_starts_steps [of r now] by blast
  have pos: "0 < bucket_seconds r" and range: "0 < range_seconds r" by (cases r; simp)+
  have floor: "now \<le> now div ?step * ?step + ?step" using floor_bounds [of ?step now] pos by simp
  have whole: "\<forall>t \<in> set (?since # rest). whole_second t"
    using assms(1) dvd by (auto simp: whole_second_def intro: dvd_mult_right dvd_diff)
  have one: "consecutive_overlaps (ended_by now i) (?since # rest) (bucket_seconds r) =
      overlap_seconds (ended_by now i) ?since now" if "recorded_by now i" for i
  proof -
    have "whole_interval (ended_by now i)"
      using that assms(1) by (auto simp: recorded_by_def whole_interval_def ended_by_def split: option.splits)
    from consecutive_overlaps_total [OF this sorted whole less_imp_le [OF pos]]
    have "consecutive_overlaps (ended_by now i) (?since # rest) (bucket_seconds r) =
        overlap_seconds (ended_by now i) ?since (now div ?step * ?step + ?step)"
      unfolding last .
    also have "\<dots> = overlap_seconds (ended_by now i) ?since now"
      using that floor by (intro overlap_within) (auto simp: recorded_by_def ended_by_def split: option.splits)
    finally show ?thesis .
  qed
  let ?clip = "\<lambda>r. \<lparr>ri_state = si_state r, ri_startedAt = (if si_startedAt r < ?since then ?since else si_startedAt r),
      ri_endedAt = Some (case si_endedAt r of None \<Rightarrow> now | Some e \<Rightarrow> e)\<rparr>"
  have clip: "overlap_seconds (?clip i) ?since now = overlap_seconds (ended_by now i) ?since now" for i
    by (simp add: overlap_seconds_def ended_by_def max_def)
  have st: "ri_state (ended_by now i) = si_state i" for i by (simp add: ended_by_def)
  have sel: "ri_state (?clip i) = si_state i" for i by simp
  have "sum_list (map (\<lambda>i. consecutive_overlaps i (?since # rest) (bucket_seconds r))
        (filter (\<lambda>i. bucket_of (ri_state i) = b) (map (ended_by now) mine))) =
      sum_list (map (\<lambda>i. overlap_seconds i ?since now) (filter (\<lambda>i. bucket_of (ri_state i) = b) (map ?clip mine)))"
    using assms(2) by (induction mine) (simp_all add: one clip st del: consecutive_overlaps.simps)
  then show ?thesis
    using range by (simp add: s buckets_sum_overlaps availability_over_def get_roll_up_window del: consecutive_overlaps.simps)
qed

text \<open>
  In a bot's summary the buckets add up to its availability over the range: every second of a
  state that the figure counts is in exactly one bucket, where the log's instants are whole seconds.
\<close>

theorem summary_buckets_add_up:
  assumes "whole_second now" and "\<forall>r \<in> set intervals. recorded_by now r"
  shows "sum_list (map (\<lambda>u. get_bucket b (ba_availability u))
      (bs_buckets (bot_summary_of conditions intervals (bucket_starts_for r now) (bucket_seconds r)
        (now - range_seconds r * 1000) now named))) =
    get_bucket b (bs_availability (bot_summary_of conditions intervals (bucket_starts_for r now) (bucket_seconds r)
        (now - range_seconds r * 1000) now named))"
proof -
  have "list_all (recorded_by now) (filter (\<lambda>r. si_subject r = InstanceSubject (fst named)) intervals)"
    using assms(2) by (simp add: list_all_iff)
  from buckets_of_summary [OF assms(1) this] show ?thesis by (simp add: bot_summary_of_def Let_def)
qed

definition some_interval :: status_interval_row where
  "some_interval =
     \<lparr>si_id = ''i'', si_organizationId = ''o'', si_subject = InstanceSubject ''b'',
      si_dimension = InstanceConnectionDim, si_state = Joined, si_startedAt = 5000, si_endedAt = None,
      si_startEventId = None, si_endEventId = None\<rparr>"


theorem summary_buckets_add_up_witness:
  "sum_list (map (\<lambda>u. get_bucket GoodB (ba_availability u))
      (bs_buckets (bot_summary_of [] [some_interval] (bucket_starts_for Range24h 90000) (bucket_seconds Range24h)
        (90000 - range_seconds Range24h * 1000) 90000 (''b'', ''bot'')))) = 85"
proof -
  have w: "whole_second 90000" by (simp add: whole_second_def)
  have r: "\<forall>r \<in> set [some_interval]. recorded_by 90000 r"
    by (simp add: recorded_by_def some_interval_def whole_second_def)
  show ?thesis
    using summary_buckets_add_up [OF w r, where b = GoodB and conditions = "[]" and r = Range24h and named = "(''b'', ''bot'')"]
    by (simp add: bot_summary_of_def availability_over_def some_interval_def roll_up_window_def roll_up_step_def
        overlap_seconds_def round_div_def empty_availability_def Let_def)
qed

section \<open>Notifications and their delivery\<close>

text \<open>
  However often events are recorded, in whatever order, each source key enters the log once: of
  the inserts of a key exactly one takes effect where the log did not hold it, and none where it did.
\<close>

theorem source_key_logged_once:
  "wins (\<lambda>(org, v). event_source_key org v) k vs (fst (insert_run (\<lambda>(org, v). record_event org v) vs db)) =
     (if k \<notin> event_keys db \<and> Some k \<in> (\<lambda>(org, v). event_source_key org v) ` set vs then 1 else 0)"
  by (cases "k \<in> event_keys db") (simp_all only: event_log.wins_taken event_log.wins_fresh simp_thms if_True if_False)

text \<open>
  C9. A fact is announced once and sent once to each destination: of the inserts of a dedupe key at
  most one makes a notification, and of those of a notification and destination at most one a delivery.
\<close>

theorem announced_once:
  "wins (\<lambda>(org, v). Some (org, nv_dedupeKey v)) k vs
     (fst (insert_run (\<lambda>(org, v). create_notification org v) vs db)) \<le> 1 \<and>
   wins Some d ds (fst (insert_run (\<lambda>(org, n, dest). create_delivery org n dest) ds db)) \<le> 1"
  using notification_log.wins_at_most_once delivery_log.wins_at_most_once by blast

text \<open>
  C10. What ends a problem is announced exactly where the last thing announced of its incident is that
  problem; a problem itself is announced whatever was announced before.
\<close>

theorem resolution_announced_after_problem:
  "plan_notification ev lastAnnounced w \<noteq> None \<longleftrightarrow>
     (case problem_resolved_by (fa_kind ev) of
        None \<Rightarrow> is_notifying_event (fa_kind ev)
      | Some problem \<Rightarrow>
          lastAnnounced (fa_subjectType ev) (fa_subjectId ev)
            [EventNotification problem, EventNotification (fa_kind ev)] (fa_incidentId ev) w =
          Some (EventNotification problem))"
proof (cases "problem_resolved_by (fa_kind ev)")
  case None
  then show ?thesis by (simp only: plan_problem_iff [OF None] option.case)
next
  case (Some problem)
  then show ?thesis by (simp only: plan_resolution_iff [OF Some] option.case)
qed

text \<open>
  C11. A delivery job either throws and leaves every delivery as it was, which a queue that takes its
  jobs rules out, or skips a delivery that is not queued and touches nothing at all, the destination
  included, or sends a queued one and leaves it in the state its result names; a retry waits between
  fifteen seconds and an hour and is asked for only below the limit of attempts.
\<close>

theorem delivery_job_outcomes:
  "case deliver_job redact deliver send queue limit p db of
     (Inl e, db') \<Rightarrow> \<not> obliging send \<and> (\<forall>org i. find_delivery org i db' = find_delivery org i db)
   | (Inr r, db') \<Rightarrow>
       (case r of
          ResultSkipped \<Rightarrow> db' = db \<and> delivery_state_of (dp_organizationId p) (dp_deliveryId p) db \<noteq> Some Queued
        | ResultRetrying s \<Rightarrow> dp_attempt p < limit \<and> base_retry_seconds \<le> s \<and> s \<le> max_retry_seconds \<and>
            delivery_state_of (dp_organizationId p) (dp_deliveryId p) db = Some Queued \<and>
            delivery_state_of (dp_organizationId p) (dp_deliveryId p) db' = Some Queued
        | _ \<Rightarrow> delivery_state_of (dp_organizationId p) (dp_deliveryId p) db = Some Queued \<and>
            delivery_state_of (dp_organizationId p) (dp_deliveryId p) db' = result_state r)"
proof -
  obtain x db' where j: "deliver_job redact deliver send queue limit p db = (x, db')" by (metis surj_pair)
  show ?thesis
  proof (cases x)
    case (Inl e)
    then show ?thesis using deliver_job_throws [of redact deliver send queue limit p db e db'] j by simp
  next
    case (Inr r)
    then show ?thesis
      using deliver_job_result [of redact deliver send queue limit p db r db'] j by (cases r) auto
  qed
qed





text \<open>
  The wait before the next attempt lies between fifteen seconds and an hour, never shrinks from one
  attempt to the next, and is at least what the destination asked for, up to that hour.
\<close>

theorem retry_delay_bounds:
  "base_retry_seconds \<le> next_delay_seconds attempt asked \<and> next_delay_seconds attempt asked \<le> max_retry_seconds \<and>
   next_delay_seconds attempt asked \<le> next_delay_seconds (attempt + int k) asked \<and>
   min max_retry_seconds s \<le> next_delay_seconds attempt (Some s)"
  using next_delay_bounds [of attempt asked] backoff_mono [of attempt "attempt + int k"]
  by (simp add: next_delay_seconds_def min_def max_def)

lemma cleanup_keeps:
  "(d \<in> set (notificationDeliveries db) \<and> (dl_state d = Queued \<or> dl_settledAt d = None) \<longrightarrow>
      d \<in> set (notificationDeliveries (snd (cleanup_organizations b orgs db)))) \<and>
   (n \<in> set (notifications db) \<and> rb_createdBefore b \<le> no_createdAt n \<longrightarrow>
      n \<in> set (notifications (snd (cleanup_organizations b orgs db)))) \<and>
   fst (cleanup_organizations b orgs db) + length (notifications (snd (cleanup_organizations b orgs db))) =
     length (notifications db)"
proof (induction orgs arbitrary: db)
  case Nil
  then show ?case by simp
next
  case (Cons org orgs)
  obtain k db1 where s: "delete_settled_before org (rb_createdBefore b) (rb_settledBefore b) db = (k, db1)"
    by (metis surj_pair)
  have d: "d \<in> set (notificationDeliveries db) \<Longrightarrow> dl_state d = Queued \<or> dl_settledAt d = None \<Longrightarrow>
      d \<in> set (notificationDeliveries db1)"
    using delete_settled_before_queued [of d db org "rb_createdBefore b" "rb_settledBefore b"] s by simp
  have n: "n \<in> set (notifications db) \<Longrightarrow> rb_createdBefore b \<le> no_createdAt n \<Longrightarrow> n \<in> set (notifications db1)"
    using delete_settled_before_removes [of n org "rb_createdBefore b" "rb_settledBefore b" db] s by simp
  have c: "k + length (notifications db1) = length (notifications db)"
    using delete_settled_before_count [of org "rb_createdBefore b" "rb_settledBefore b" db] s by simp
  show ?case using Cons.IH [of db1] s d n c by (auto simp: case_prod_beta)
qed

text \<open>
  Cleaning up keeps every delivery that is still queued or was never settled, and removes no
  notification made within the retention time.
\<close>

theorem cleanup_spares_open_deliveries:
  "{d \<in> set (notificationDeliveries db). dl_state d = Queued \<or> dl_settledAt d = None}
      \<subseteq> set (notificationDeliveries (snd (cleanup_handler orgs retentionDays db))) \<and>
   {n \<in> set (notifications db). cutoff_for (clock db (clock_next db)) retentionDays \<le> no_createdAt n}
      \<subseteq> set (notifications (snd (cleanup_handler orgs retentionDays db))) \<and>
   fst (cleanup_handler orgs retentionDays db) +
     length (notifications (snd (cleanup_handler orgs retentionDays db))) = length (notifications db)"
proof -
  let ?db = "db\<lparr>clock_next := Suc (clock_next db)\<rparr>"
  have r: "cleanup_handler orgs retentionDays db =
      cleanup_organizations (boundaries_for (clock db (clock_next db)) retentionDays) orgs ?db"
    by (simp add: cleanup_handler_def read_now_def)
  show ?thesis
    using cleanup_keeps [where db = ?db and orgs = orgs and b = "boundaries_for (clock db (clock_next db)) retentionDays"]
    by (auto simp: r boundaries_for_def)
qed

text \<open>
  A text cut to a number of bytes fits in it, is the text itself where that fits, and is a prefix
  of the text at a boundary between its characters, with the ellipsis where there is room for one.
\<close>

theorem truncated_text_fits:
  "text_bytes (truncate_bytes ps limit) \<le> limit \<and>
   (if text_bytes ps \<le> limit then truncate_bytes ps limit = ps
    else \<exists>kept rest. ps = kept @ rest \<and>
      truncate_bytes ps limit = kept @ (if utf8_length ellipsis < limit then [ellipsis] else []))"
  using truncate_bytes_fits [of ps limit]
     take_bytes_prefix [of ps "limit - utf8_length ellipsis"] take_bytes_prefix [of ps limit]
  by (auto simp: truncate_bytes_def Let_def)

section \<open>Units and commands on the host\<close>

text \<open>
  C13. A quoted value is one word of the shell command it stands in: the shell reads it as exactly that
  value, whatever characters it holds, and goes on with what follows.
\<close>

theorem quoted_value_is_one_word:
  "shell_word False (shell_quote value @ rest) = map_option ((@) value) (shell_word False rest)"
  by (rule shell_quote_word)

text \<open>
  A unit name is made only of an identifier that passes validation; it holds no systemd specifier
  and a shell reads it as itself even where it is not quoted.
\<close>

theorem unit_name_is_safe:
  "case unit_name i of
     Inl _ \<Rightarrow> \<not> instance_id_ok i
   | Inr name \<Rightarrow> instance_id_ok i \<and> name = ''open-mcc@'' @ i \<and> shell_word False name = Some name \<and> \<not> has_sub name ''%''"
proof (cases "unit_name i")
  case (Inl e)
  then show ?thesis using unit_name_Inr [of i "''open-mcc@'' @ i"] by auto
next
  case (Inr name)
  then have ok: "instance_id_ok i" and name: "name = ''open-mcc@'' @ i" by (simp_all add: unit_name_Inr)
  have "list_all (\<lambda>c. is_alnum c \<or> c = CHR ''_'' \<or> c = CHR ''-'' \<or> c = CHR ''@'' \<or> c = CHR ''.'') name"
    using instance_id_chars [OF ok] unfolding name
    by (auto simp: list_all_iff is_alnum_def is_alpha_def is_digit_def)
  then have "shell_word False name = Some name" by (rule shell_word_plain)
  moreover have "\<not> has_sub name ''%''"
  proof
    assume "has_sub name ''%''"
    then have "CHR ''%'' \<in> set name" by (auto simp: has_sub_iff)
    then show False using instance_id_chars [OF ok] unfolding name
      by (auto simp: list_all_iff is_alnum_def is_alpha_def is_digit_def)
  qed
  ultimately show ?thesis using Inr ok name by simp
qed

text \<open>A unit's environment is rendered exactly for the ports from 1 to 65535.\<close>

theorem unit_env_port_range: "(\<exists>t. render_unit_env port = Inr t) \<longleftrightarrow> 1 \<le> port \<and> port \<le> 65535"
  by (rule render_unit_env_iff)

text \<open>
  What the host prints of a started unit is read back as the three values it shows, in whatever
  order its lines come.
\<close>

theorem start_state_round_trip:
  assumes "set kvs = {(''ActiveState'', a), (''Result'', r), (''SignIn'', s)}" and "length kvs = 3"
    and "unit_word a" and "unit_word r" and "unit_word s"
  shows "parse_unit_start_state (join_with [lf] (map (\<lambda>(k, v). k @ ''='' @ v) kvs) @ [lf]) =
     Some \<lparr>us_activeState = a, us_result = r, us_signIn = s\<rparr>"
  by (rule parse_unit_start_state_render [OF assms])

theorem start_state_round_trip_witness:
  "parse_unit_start_state (''Result=success'' @ [lf] @ ''SignIn=none'' @ [lf] @ ''ActiveState=active'' @ [lf]) =
     Some \<lparr>us_activeState = ''active'', us_result = ''success'', us_signIn = ''none''\<rparr>"
proof -
  have w: "unit_word ''active''" "unit_word ''success''" "unit_word ''none''"
    by (simp_all add: unit_word_def is_lower_alpha_def)
  show ?thesis
    using start_state_round_trip [where kvs = "[(''Result'', ''success''), (''SignIn'', ''none''), (''ActiveState'', ''active'')]",
        OF _ _ w] by (simp add: insert_commute)
qed

section \<open>Sleep windows and scheduled commands\<close>

text \<open>
  Days of the week are stored for every choice but the empty one, and what is stored reads back as
  those days in the week's order.
\<close>

theorem days_round_trip:
  "case render_days_of_week days of
     Inl _ \<Rightarrow> days = []
   | Inr stored \<Rightarrow> days \<noteq> [] \<and> parse_days_of_week stored = ordered_days days"
proof (cases "render_days_of_week days")
  case (Inl e)
  then show ?thesis using render_days_Inr_iff [of days] by auto
next
  case (Inr stored)
  then show ?thesis using render_days_Inr_iff [of days] parse_render_days [OF Inr] by auto
qed

text \<open>
  Both timers of a sleep window hold exactly one \<open>OnCalendar\<close> line, that of the window's time, and
  nothing the window holds adds a line to either.
\<close>

theorem sleep_timers_one_calendar:
  assumes "render_sleep_timers w = Inr timers" and "unit \<in> set timers"
  shows "\<exists>calendar. (\<exists>t \<in> {sw_stopAt w, sw_startAt w}.
      render_on_calendar (sw_daysOfWeek w) (minute_of_day t) (sw_timezone w) = Inr calendar) \<and>
    length (split_on lf (snd unit)) = 11 \<and>
    filter (\<lambda>l. starts_with l ''OnCalendar='') (split_on lf (snd unit)) = [''OnCalendar='' @ calendar]"
  by (rule render_sleep_timers_lines [OF assms])

definition some_window :: sleep_window where
  "some_window =
     \<lparr>sw_instanceId = ''b'', sw_daysOfWeek = [Mon], sw_stopAt = \<lparr>hour = 23, minute = 30\<rparr>,
      sw_startAt = \<lparr>hour = 7, minute = 0\<rparr>, sw_timezone = ''UTC''\<rparr>"

theorem sleep_timers_one_calendar_witness:
  "list_all (\<lambda>unit. length (split_on lf (snd unit)) = 11)
     (case render_sleep_timers some_window of Inl _ \<Rightarrow> [([], [])] | Inr timers \<Rightarrow> timers)"
proof -
  have "isl (render_sleep_timers some_window) = False" by code_simp
  then obtain timers where t: "render_sleep_timers some_window = Inr timers"
    by (cases "render_sleep_timers some_window") auto
  show ?thesis using sleep_timers_one_calendar [OF t] by (auto simp: t list_all_iff)
qed



definition ten_o_clock :: zone_parts where
  "ten_o_clock = (\<lambda>tz t. Some [(''weekday'', ''Mon''), (''hour'', ''10''), (''minute'', ''00''),
     (''year'', ''2026''), (''month'', ''01''), (''day'', ''05'')])"


text \<open>
  A tick throws only where the list of commands cannot be read; otherwise every command it
  considered is counted exactly once, as sent, failed, skipped or claimed by another.
\<close>

theorem scheduler_tick_accounts:
  "case run_scheduler_tick zp deps w of
     (Inl e, w') \<Rightarrow> sd_dueCommands deps (snd (sd_now deps w)) = (Inl e, w')
   | (Inr run, _) \<Rightarrow> accounted run = sr_considered run"
proof (cases "run_scheduler_tick zp deps w")
  case (Pair r w')
  show ?thesis
  proof (cases r)
    case (Inl e)
    then show ?thesis using Pair by (auto simp: run_scheduler_tick_def Let_def split: prod.splits sum.splits)
  next
    case (Inr run)
    then obtain t rows w2 where f: "fold (consider_command zp deps t) rows
      (\<lparr>sr_considered = length rows, sr_fired = [], sr_failed = [], sr_skipped = 0, sr_unclaimed = 0\<rparr>, w2) = (run, w')"
      using scheduler_tick_cases [of zp deps w run w'] Pair by auto
    let ?start = "\<lparr>sr_considered = length rows, sr_fired = [], sr_failed = [], sr_skipped = 0, sr_unclaimed = 0\<rparr>"
    have "accounted ?start = 0" by (simp add: accounted_def)
    then have "accounted run = sr_considered run"
      using fold_consider_accounted [of zp deps t rows "(?start, w2)"] unfolding f by simp
    then show ?thesis using Pair Inr by simp
  qed
qed




section \<open>Tasks\<close>

text \<open>
  A task runs once for what made it due, and a signal is stored once: of the claims of a task's
  key, as of the recordings of a signal, exactly one takes effect where the key is new, none where it
  is not.
\<close>

theorem run_claimed_once:
  "wins (\<lambda>(org, task, c, t). Some (org, task, tc_claimKey c)) k vs
     (fst (insert_run (\<lambda>(org, task, c, t). claim_task_run org task c t) vs db)) =
     (if k \<notin> claimed_run_keys db \<and> Some k \<in> (\<lambda>(org, task, c, t). Some (org, task, tc_claimKey c)) ` set vs then 1 else 0)"
  by (cases "k \<in> claimed_run_keys db") (simp_all only: run_log.wins_taken run_log.wins_fresh simp_thms if_True if_False)

lemma interval_run_length: "length (fst (interval_run row ticks)) = length ticks"
  by (induction ticks arbitrary: row) (simp_all add: case_prod_beta Let_def)

text \<open>
  C16. An armed interval that has not fired yet fires at the first tick at which its bot runs and the
  time reached is the one it was armed for plus all the time the bot was seen not running; it is then
  armed again for the time drawn from there.
\<close>

theorem interval_fires_when_due:
  assumes "interval_armed row nextRun seen" and "True \<notin> set (fst (interval_run row ticks))"
  shows "fst (interval_run row (ticks @ [(t, running, jitter)])) =
      replicate (length ticks) False @ [running \<and> nextRun + paused_for seen ticks \<le> t] \<and>
    (if running \<and> nextRun + paused_for seen ticks \<le> t
     then interval_armed (snd (interval_run row (ticks @ [(t, running, jitter)])))
       (t + int (jitter (the (it_intervalMinSeconds (snd (interval_run row ticks))))
                    (the (it_intervalMaxSeconds (snd (interval_run row ticks))))) * 1000) t
     else True)"
proof -
  let ?row = "snd (interval_run row ticks)"
  have armed: "interval_armed ?row (nextRun + paused_for seen ticks) (last_seen seen ticks)"
    by (rule interval_run_waits [OF assms])
  have quiet: "fst (interval_run row ticks) = replicate (length ticks) False"
    using assms(2) interval_run_length [of row ticks] by (intro replicate_eqI) auto
  have one: "interval_run ?row [tick] = ([fst (interval_step ?row tick)], snd (interval_step ?row tick))" for tick
    by (simp add: case_prod_beta Let_def)
  have ok: "it_intervalMinSeconds ?row \<noteq> None" "it_intervalMaxSeconds ?row \<noteq> None"
    using armed by (simp_all add: interval_armed_def)
  show ?thesis
    unfolding interval_run_append one quiet interval_step_armed [OF armed] using ok by simp
qed

definition some_task :: instance_task_row where
  "some_task =
     \<lparr>it_id = ''t'', it_organizationId = ''o'', it_instanceId = ''b'', it_name = ''n'', it_stepDelaySeconds = 0,
      it_enabled = True, it_timezone = ''UTC'', it_onFirstLogin = False, it_onLogin = False, it_onRespawn = False,
      it_intervalMinSeconds = Some 60, it_intervalMaxSeconds = Some 60, it_intervalNextRunAt = Some 60000,
      it_intervalObservedAt = Some 0, it_lastRunAt = None, it_lastRunError = None, it_createdAt = 0\<rparr>"

theorem interval_fires_when_due_witness:
  "fst (interval_run some_task ([(30000, True, \<lambda>lo hi. lo), (50000, False, \<lambda>lo hi. lo)] @ [(80000, True, \<lambda>lo hi. lo)])) =
     [False, False, True]"
proof -
  have armed: "interval_armed some_task 60000 0" by (simp add: interval_armed_def some_task_def)
  have quiet: "True \<notin> set (fst (interval_run some_task [(30000, True, \<lambda>lo hi. lo), (50000, False, \<lambda>lo hi. lo)]))"
    by (simp add: interval_step_def interval_plan_of_def some_task_def arm_row_def Let_def)
  show ?thesis
    using conjunct1 [OF interval_fires_when_due [OF armed quiet, of 80000 True "\<lambda>lo hi. lo"]]
    by (simp add: numeral_2_eq_2)
qed

text \<open>
  The steps of a task are sent in the order of their positions with the task's pause between two
  of them, up to the first the bot refuses; the count returned is of the steps sent.
\<close>

theorem steps_sent_in_order:
  "send_steps_in_order steps delay (recording_runner fails) log0 =
    (let commands = map ts_command (ordered_steps steps);
         sent = takeWhile (\<lambda>c. \<not> fails c) commands;
         log1 = log0 @ steps_log delay 0 sent
     in case dropWhile (\<lambda>c. \<not> fails c) commands of
          [] \<Rightarrow> (Inr (length steps), log1)
        | c # _ \<Rightarrow>
            (Inl (StepsFailed (step_failed_message (length sent) (length steps) c) (length sent)),
             log1 @ (if 0 < length sent \<and> 0 < delay then [Waited (int delay * 1000)] else [])))"
  using send_steps_from_recording [of fails delay "length steps" 0 0 "ordered_steps steps" log0]
  by (cases "dropWhile (\<lambda>c. \<not> fails c) (map ts_command (ordered_steps steps))")
    (simp_all add: send_steps_in_order_def ordered_steps_def Let_def del: dropWhile_eq_Nil_conv)

text \<open>
  C17. A tick of the task scheduler returns, whatever the bots do, and leaves no run it began running:
  the runs still marked as running after it were so before it.
\<close>

theorem task_tick_settles_its_runs:
  assumes "\<And>p. keeps_runs (send p)" and "keeps_runs jitter" and "\<And>org i. keeps_runs (isRunning org i)"
    and "\<And>org i needs t. keeps_runs (observe org i needs t)"
  shows "(\<exists>run. fst (run_task_scheduler_tick zp (stored_task_scheduler isRunning observe send jitter describe) db) = Inr run) \<and>
    running_runs (snd (run_task_scheduler_tick zp (stored_task_scheduler isRunning observe send jitter describe) db))
      \<subseteq> running_runs db"
  using task_tick_returns task_tick_settles [where se = send and ji = jitter and ir = isRunning and ob = observe,
      OF assms] by blast

theorem task_tick_settles_its_runs_witness:
  "running_runs (snd (run_task_scheduler_tick ten_o_clock
     (stored_task_scheduler (\<lambda>_ _ db. (Inr True, db)) (\<lambda>_ _ _ _ db. (Inr (), db)) (\<lambda>_ db. (Inr 1, db))
        (\<lambda>db. (\<lambda>lo hi. lo, db)) (\<lambda>_. [])) (blank_tasks\<lparr>instanceTasks := [some_task]\<rparr>))) = {}"
proof -
  have k: "keeps_runs (\<lambda>db :: task_db. (x, db))" for x by (simp add: keeps_runs_def)
  have "running_runs (blank_tasks\<lparr>instanceTasks := [some_task]\<rparr>) = {}"
    by (simp add: running_runs_def blank_tasks_def)
  with task_tick_settles_its_runs [where send = "\<lambda>_ db. (Inr 1, db)" and jitter = "\<lambda>db. (\<lambda>lo hi. lo, db)"
      and isRunning = "\<lambda>_ _ db. (Inr True, db)" and observe = "\<lambda>_ _ _ _ db. (Inr (), db)", OF k k k k]
  show ?thesis by (metis subset_empty)
qed

text \<open>
  A bot that does not run, or whose state cannot be read, is sent nothing: what its group does is
  the same whatever sending does, and no task of it counts as fired.
\<close>

theorem idle_bot_sent_nothing:
  assumes "fst (kd_isRunning deps (it_organizationId (pt_task p)) (it_instanceId (pt_task p)) w) \<noteq> Inr True"
  shows "consider_group zp (deps\<lparr>kd_send := s\<rparr>) t (k, p # ps) (run, w) = consider_group zp deps t (k, p # ps) (run, w) \<and>
    kr_fired (fst (consider_group zp deps t (k, p # ps) (run, w))) = kr_fired run"
  by (rule consider_group_idle [OF assms])

definition some_parts :: task_parts where
  "some_parts = \<lparr>pt_task = some_task, pt_steps = [], pt_times = [], pt_runs = []\<rparr>"

theorem idle_bot_sent_nothing_witness:
  "kr_fired (fst (consider_group ten_o_clock
     (stored_task_scheduler (\<lambda>_ _ db. (Inr False, db)) (\<lambda>_ _ _ _ db. (Inr (), db)) (\<lambda>_ db. (Inr 1, db))
        (\<lambda>db. (\<lambda>lo hi. lo, db)) (\<lambda>_. [])) 80000 (task_group_key some_parts, [some_parts])
     (\<lparr>kr_considered = 1, kr_fired = [], kr_failed = [], kr_unclaimed = 0, kr_observed = 0\<rparr>, blank_tasks))) = []"
  by (subst conjunct2 [OF idle_bot_sent_nothing]) simp_all

text \<open>However a bot's logins are sighted and recorded, each of its processes has one first login.\<close>

theorem first_login_once:
  assumes "one_first_login db"
  shows "one_first_login (fold (\<lambda>(org, inst, joins, t). record_join_sightings org inst joins t) batches db)"
  using assms by (induction batches arbitrary: db) (auto simp: one_first_login_sightings)

theorem first_login_once_witness:
  "first_logins ''o'' ''b'' ''77'' (fold (\<lambda>(org, inst, joins, t). record_join_sightings org inst joins t)
     [(''o'', ''b'', [\<lparr>js_process = ''77'', js_occurredAt = 5000\<rparr>], 6000),
      (''o'', ''b'', [\<lparr>js_process = ''77'', js_occurredAt = 7000\<rparr>], 8000)] blank_tasks) \<le> 1"
proof -
  have "one_first_login blank_tasks"
    by (simp add: one_first_login_def first_logins_def has_joined_as_def blank_tasks_def)
  from first_login_once [OF this, of "[(''o'', ''b'', [\<lparr>js_process = ''77'', js_occurredAt = 5000\<rparr>], 6000),
      (''o'', ''b'', [\<lparr>js_process = ''77'', js_occurredAt = 7000\<rparr>], 8000)]"]
  show ?thesis unfolding one_first_login_def by (simp split: if_splits del: fold_simps)
qed

text \<open>A respawn is sighted once, however the pages of a bot's events overlap.\<close>

theorem respawns_sighted_once:
  assumes "\<forall>page \<in> set pages. distinct (map me_id (mp_events page))"
  shows "distinct (respawn_run rd t cursor pages)"
  by (rule respawn_run_distinct [OF assms])

definition some_page :: mcp_event_page where
  "some_page = \<lparr>mp_latestId = 2, mp_events = [\<lparr>me_id = 1, me_timestampUtc = [], me_type = ''respawn''\<rparr>,
     \<lparr>me_id = 2, me_timestampUtc = [], me_type = ''respawn''\<rparr>]\<rparr>"

theorem respawns_sighted_once_witness:
  "distinct (respawn_run (\<lambda>_. None) 5000 (Some 0) [some_page, some_page])"
  by (rule respawns_sighted_once) (simp add: some_page_def)

text \<open>Tasks are grouped by their bot: no task is lost or added, and a group is of one bot.\<close>

theorem groups_partition_tasks:
  "mset (concat (map snd (by_instance tasks))) = mset tasks \<and> list_all one_bot (by_instance tasks)"
  by (simp only: by_instance_mset by_instance_groups simp_thms)

text \<open>What is stored as a task's steps is read back as the same commands in the same order.\<close>

theorem task_steps_round_trip:
  "map ts_command (steps_for org taskId (replace_steps org taskId commands db)) = commands"
  by (rule steps_for_replace_steps)

section \<open>Where notifications go\<close>

text \<open>
  C18. An address may be connected to exactly where it is readable, it is none of the addresses no
  policy opens (the unspecified, link-local and multicast ones and the cloud's metadata service), and it
  is public or named by the policy; it passes as named exactly where the policy names it. An IPv4
  address written as an IPv6 one gets the verdict of the IPv4 address.
\<close>

theorem address_allowed_iff:
  "(verify_address address policy hostAllowed = AddressAllowed named \<longleftrightarrow>
      (case parse_address address of
         None \<Rightarrow> False
       | Some bytes \<Rightarrow>
           \<not> never_address (normalised bytes) \<and> named = names_address policy hostAllowed (normalised bytes) \<and>
           (local_address (normalised bytes) \<longrightarrow> named))) \<and>
   (is_ipv4 address \<longrightarrow>
      verify_address (''::ffff:'' @ address) policy hostAllowed = verify_address address policy hostAllowed)"
proof (intro conjI impI)
  show "verify_address address policy hostAllowed = AddressAllowed named \<longleftrightarrow>
      (case parse_address address of
         None \<Rightarrow> False
       | Some bytes \<Rightarrow>
           \<not> never_address (normalised bytes) \<and> named = names_address policy hostAllowed (normalised bytes) \<and>
           (local_address (normalised bytes) \<longrightarrow> named))"
    using verify_octets_iff [OF parse_address_length]
    by (auto simp: verify_address_def split: option.split)
qed (rule verify_mapped)

theorem address_allowed_iff_witness:
  "verify_address ''::ffff:8.8.8.8'' public_only False = verify_address ''8.8.8.8'' public_only False"
proof -
  have "is_ipv4 ''8.8.8.8''" by (simp add: reading)
  then show ?thesis using address_allowed_iff [of "''8.8.8.8''" public_only False False] by simp
qed

text \<open>
  C19. A notification that is delivered other than by mail went to the address of its own destination's
  settings, at a URL the policy allows, over a connection whose lookup knows only addresses that were
  verified under that policy: what the name resolves to later is never connected to.
\<close>

theorem delivered_to_verified_address:
  assumes "dispatch_to sg destination envelope policy now w = (OutDelivered status, w')"
    and "sg_open sg (dv_secretEncrypted (de_values destination)) (dv_secretKeyId (de_values destination)) = Inr opened"
    and "read_destination_config sg (de_kind destination) opened = Some settings"
    and "target_url settings = Some url"
    and "sg_transport sg = send_pinned parse_url race lookup client" and "keeps_to race"
  shows "\<exists>hostname addresses t m request w1 response.
     verify_destination_url parse_url url policy = UrlAllowed hostname \<and> addresses \<noteq> [] \<and>
     list_all (\<lambda>a. verify_address (pa_address a) policy (host_is_allowed (bare_hostname hostname) policy) =
        AddressAllowed (pa_named a)) addresses \<and>
     pq_url request = url \<and> client (pinned_lookup addresses) t m request w1 = (Inr response, w')"
  using dispatch_delivered [OF assms] unfolding verified_def .

theorem delivered_to_verified_address_witness:
  "\<exists>hostname addresses t m request w1 response.
     verify_destination_url eight_url ''https://8.8.8.8/'' public_only = UrlAllowed hostname \<and> addresses \<noteq> [] \<and>
     list_all (\<lambda>a. verify_address (pa_address a) public_only (host_is_allowed (bare_hostname hostname) public_only) =
        AddressAllowed (pa_named a)) addresses \<and>
     pq_url request = ''https://8.8.8.8/'' \<and> no_content (pinned_lookup addresses) t m request w1 = (Inr response, ())"
  by (rule delivered_to_verified_address
      [OF discord_delivered, of "[]" "DiscordStored ''https://8.8.8.8/''" _ eight_url "\<lambda>m. m" no_lookup no_content])
    (simp_all add: discord_sending_def some_destination_def read_destination_config_def keeps_to_def)

section \<open>Mail\<close>

text \<open>
  C20. Whatever the mail server answers, nothing but greetings and the request for TLS is ever written
  in the clear, neither credentials nor addresses nor the message, and only addresses that were
  verified under the policy are connected to.
\<close>

theorem mail_secrets_over_tls:
  assumes "deliver_email codes net lookup settings deliveryId title body policy timeoutMs utc t = Some (outcome, t')"
    and "tk_acts t = []"
  shows "(\<forall>line. Wrote False line \<in> set (tk_acts t') \<longrightarrow> opening_line line) \<and>
    (\<exists>addresses.
       list_all (verified policy (host_is_allowed (lower (bare_hostname (es_smtpServer settings))) policy)) addresses \<and>
       (\<forall>address port. Opened address port \<in> set (tk_acts t') \<longrightarrow> address \<in> pa_address ` set addresses))"
  using careful_deliver_email [OF assms] by (fastforce simp: list_all_iff)

theorem mail_secrets_over_tls_witness:
  "\<exists>outcome t'. deliver_email no_codes scripted no_lookup small_settings ''d'' ''t'' ''b'' public_only 20000 ''now''
       (scripted_talk False hasty_script) = Some (outcome, t') \<and>
     (\<forall>line. Wrote False line \<in> set (tk_acts t') \<longrightarrow> opening_line line)"
proof -
  obtain outcome t' where r: "deliver_email no_codes scripted no_lookup small_settings ''d'' ''t'' ''b'' public_only 20000
       ''now'' (scripted_talk False hasty_script) = Some (outcome, t')"
    using deliver_email_total [OF always_ends_scripted] by blast
  have "tk_acts (scripted_talk False hasty_script) = []" by (simp add: scripted_talk_def)
  from mail_secrets_over_tls [OF r this] r show ?thesis by blast
qed



text \<open>
  C22. Mail counts as delivered only where the server gave a positive answer to the message itself, or
  gave a positive answer where it had to ask for more (\<open>AUTH LOGIN\<close>, its two answers and \<open>DATA\<close>).
\<close>

theorem mail_delivered_on_reply:
  assumes "converse codes net timeoutMs name credentials m t = Some (Settled (OutDelivered status), t')"
  shows "\<exists>code. status = Some (int code) \<and> 200 \<le> code \<and> code < 400 \<and>
     (exchange (tk_acts t') (Body m) code \<or>
      (\<exists>line. asks_for_more line \<and> exchange (tk_acts t') line code \<and> code \<noteq> (if line = DataLine then 354 else 334)))"
  using assms by (rule converse_delivered)

text \<open>
  The second case is a defect: a server that answers \<open>DATA\<close> with 250 has the message counted as
  delivered though not a line of it was written.
\<close>

theorem unwritten_mail_delivered:
  "\<exists>t'. converse no_codes scripted 1000 ''openmcc'' small_credentials small_message (scripted_talk True hasty_script) =
      Some (Settled (OutDelivered (Some 250)), t') \<and> bodyless small_message (tk_acts t')"
  using hasty_delivered by (auto simp: no_codes_def [abs_def])

theorem mail_delivered_on_reply_witness:
  "\<exists>t' line. converse no_codes scripted 1000 ''openmcc'' small_credentials small_message (scripted_talk True hasty_script) =
      Some (Settled (OutDelivered (Some 250)), t') \<and>
     (exchange (tk_acts t') (Body small_message) 250 \<or> asks_for_more line \<and> exchange (tk_acts t') line 250)"
proof -
  obtain t' where r: "converse no_codes scripted 1000 ''openmcc'' small_credentials small_message
      (scripted_talk True hasty_script) = Some (Settled (OutDelivered (Some 250)), t')"
    using hasty_delivered by (auto simp: no_codes_def [abs_def])
  from mail_delivered_on_reply [OF r] show ?thesis using r by auto
qed

text \<open>
  C23. The text on the wire ends at its last line and nowhere before, whatever the message holds: no dot
  in it ends it early. Its body reads back, as base64, to the text's UTF-8 bytes.
\<close>

theorem mail_ends_where_written:
  assumes "one_line_fields m"
  shows "(\<forall>a b. line_text (Body m) = a @ crlf @ ''.'' @ crlf @ b \<longrightarrow> b = []) \<and>
    base64_read (wrapped_base64 (sm_text m)) = utf8_bytes (sm_text m)"
  using message_ends_once [OF assms] body_reads_back assms by (auto simp: one_line_fields_def)

theorem mail_ends_where_written_witness:
  "base64_read (wrapped_base64 (sm_text small_message)) = utf8_bytes (sm_text small_message)"
proof -
  have "one_line_fields small_message"
    using points_of_is_point [of "''t''"] points_of_is_point [of "''t'' @ [lf, lf] @ ''b''"]
    by (simp add: one_line_fields_def small_message_def small_settings_def email_message_def truncate_chars_def
        email_subject_chars_def email_text_chars_def points_of_def cr_def lf_def)
  from mail_ends_where_written [OF this] show ?thesis by blast
qed

text \<open>
  A reply reads the same in whatever pieces its bytes come, and what follows it is kept for the
  next.
\<close>

theorem replies_read_in_any_pieces:
  assumes "concat chunks = reply_text code texts @ rest" and "code < 1000" and "texts \<noteq> []"
    and "list_all one_line texts" and "tk_net t = chunks" and "tk_buffer t = []" and "tk_failure t = None"
  shows "\<exists>t'. read_next (scripted) t = Some (Inr \<lparr>sr_code = code, sr_lines = texts\<rparr>, t') \<and>
    tk_buffer t' @ concat (tk_net t') = rest"
proof -
  have "read_reply (tk_buffer t @ concat (tk_net t)) = Some (\<lparr>sr_code = code, sr_lines = texts\<rparr>, rest)"
    using read_reply_rendered [OF assms(2-4), of rest] assms(1,5,6) by simp
  from await_script [OF this assms(7)] show ?thesis
    using assms(7) by (simp add: read_next_def scripted_def)
qed

theorem replies_read_in_any_pieces_witness:
  "\<exists>t'. read_next scripted (scripted_talk True [''25'', ''0 o'', ''k'' @ [cr], lf # ''22'']) =
     Some (Inr \<lparr>sr_code = 250, sr_lines = [''ok'']\<rparr>, t') \<and> tk_buffer t' @ concat (tk_net t') = ''22''"
proof (rule replies_read_in_any_pieces)
  have n: "nat_string 250 = ''250''" by (simp add: nat_string.simps char_of_eq_iff)
  show "concat [''25'', ''0 o'', ''k'' @ [cr], lf # ''22''] = reply_text 250 [''ok''] @ ''22''"
    by (simp add: pad_zero_def n crlf_def)
qed (simp_all add: scripted_talk_def cr_def lf_def)

text \<open>
  C24. Sending mail returns, whatever the server writes, where every socket fails or ends after finitely
  many pieces; the time limit of an idle socket is one such end.
\<close>

theorem mail_sending_ends:
  assumes "\<forall>n. falls_silent (nw_next net) n"
  shows "\<exists>outcome t'. deliver_email codes net lookup settings deliveryId title body policy timeoutMs utc t = Some (outcome, t')"
  using deliver_email_total assms unfolding always_ends_def by blast

theorem mail_sending_ends_witness:
  "\<exists>outcome t'. deliver_email no_codes scripted no_lookup small_settings ''d'' ''t'' ''b'' public_only 20000 ''now''
     (scripted_talk False hasty_script) = Some (outcome, t')"
  by (rule mail_sending_ends) (simp add: scripted_def falls_silent_script)

text \<open>
  A receiver accepts a webhook's signature exactly where one of the destination's usable secrets
  signs as the receiver's own: while a secret is being rotated both the old and the new one are
  accepted, and the header of one notification is not accepted for another.
\<close>

theorem webhook_signature_verifies:
  assumes "\<And>key message. list_all (\<lambda>b. b < 256) (hmac key message)"
  shows "verify_signature hmac decode (signature_header hmac decode secrets i timestamp body) secret i' timestamp' body' \<longleftrightarrow>
     (\<exists>s \<in> set secrets. sign_payload hmac decode s i timestamp body = sign_payload hmac decode secret i' timestamp' body')"
  using verify_signature_iff assms .

theorem webhook_signature_verifies_witness:
  "verify_signature (\<lambda>key message. [1]) (\<lambda>_. []) (signature_header (\<lambda>key message. [1]) (\<lambda>_. []) [''a'', ''b''] ''i'' ''1'' [])
     ''b'' ''i'' ''1'' []"
proof -
  have "list_all (\<lambda>b. b < 256) ((\<lambda>key message. [1 :: nat]) key message)" for key message :: "nat list" by (simp add: numeral_eq_Suc)
  from webhook_signature_verifies [OF this, of "\<lambda>_. []" "[''a'', ''b'']" "''i''" "''1''" "[]" "''b''" "''i''" "''1''" "[]"]
  show ?thesis by simp
qed

text \<open>
  A text written into a JSON body reads back as itself and ends where it was written to end: no
  title, body or name breaks out of its quotes.
\<close>

theorem json_text_reads_back: "read_text (tl (quoted points @ rest)) = Some (points, rest)"
  by (rule read_text_quoted)

section \<open>Hosts\<close>

text \<open>
  C25. A host check always reports each of its checks once and in the order of the list, calls the host
  ready exactly when none of them failed, and an unreachable host gets a report of the same shape that
  is not ready.
\<close>

theorem check_report_complete:
  assumes "check_host_over_transport transport account w = (Inr report, w')"
  shows "map hc_name (rp_checks report) = host_check_names \<and>
     (rp_ready report \<longleftrightarrow> CheckFail \<notin> hc_outcome ` set (rp_checks report)) \<and>
     map hc_name (rp_checks (unreachable_report detail)) = host_check_names \<and> \<not> rp_ready (unreachable_report detail)"
proof -
  obtain a v m facts l info fw where report: "report = report_from (check_results a v m facts l info fw)"
    using assms by (auto simp: check_host_over_transport_def io_simps Let_def split: prod.splits sum.splits if_splits)
  have "map hc_name (rp_checks report) = host_check_names"
    by (simp add: report report_from_def check_names)
  moreover have "rp_ready report \<longleftrightarrow> CheckFail \<notin> hc_outcome ` set (rp_checks report)"
    unfolding report report_from_def is_blocking_def list_all_iff by (auto simp: image_iff)
  ultimately show ?thesis
    by (simp add: unreachable_report_def report_from_def host_check_names_def result_with_def is_blocking_def)
qed

theorem check_report_complete_witness:
  "\<exists>report w. check_host_over_transport scripted_host ''bot'' (map said [''systemd 252'', ''x86_64'', facts_reply, ''yes'']) =
       (Inr report, w) \<and> map hc_name (rp_checks report) = host_check_names"
proof -
  obtain report w where run: "check_host_over_transport scripted_host ''bot''
      (map said [''systemd 252'', ''x86_64'', facts_reply, ''yes'']) = (Inr report, w)"
    using scripted_check by blast
  show ?thesis by (intro exI conjI, rule run) (use check_report_complete [OF run] in blast)
qed



text \<open>
  C27. Whatever a host answers and wherever a provisioning stops, no client is installed before its
  download matched the pinned checksum, no service is written before the image was the pinned one and
  the client ran in it, and every finished download was removed.
\<close>

theorem installed_once_verified:
  assumes "provision_host (logged transport) (log_report rep) (w, []) = (outcome, (w', trace))"
  shows "(\<forall>earlier command reply later. trace = earlier @ (command, reply) # later \<longrightarrow>
            (installs_client command \<longrightarrow> client_verified earlier command) \<and>
            (writes_unit command \<longrightarrow> image_verified earlier)) \<and>
     (\<forall>command reply. (command, Inr reply) \<in> set trace \<longrightarrow> downloads_client command \<longrightarrow> er_exitCode reply = 0 \<longrightarrow>
            (\<exists>r. (remove_download_command (trim (er_stdout reply)), r) \<in> set trace))"
  using provisioning_orderly [OF assms] unfolding orderly_def ordered_by_def in_order_def cleaned_but_def by fastforce

theorem installed_once_verified_witness:
  "\<exists>outcome w trace. provision_host (logged scripted_host) (log_report (\<lambda>p w. w)) (host_replies, []) = (outcome, (w, trace)) \<and>
     (\<forall>earlier command reply later. trace = earlier @ (command, reply) # later \<longrightarrow> writes_unit command \<longrightarrow> image_verified earlier)"
proof -
  obtain outcome w trace where run: "provision_host (logged scripted_host) (log_report (\<lambda>p w. w)) (host_replies, []) =
      (outcome, (w, trace))"
    by (metis prod.collapse)
  show ?thesis using installed_once_verified [OF run] run by blast
qed



text \<open>
  C29. Once an attempt to provision a host has settled, or a later one took the host over, nothing it
  still does changes the table of hosts, whatever other procedures ran in between.
\<close>

theorem finished_attempt_has_no_say:
  assumes "host_keys_unique db" and "inj (uuid_supply db)" and "k < uuid_next db" and "attempt = uuid_supply db k"
    and "fst (finalize_provisioning org i attempt patch stack architecture db) \<noteq> None \<and>
           db1 = snd (finalize_provisioning org i attempt patch stack architecture db)
         \<or> fst (claim_for_provisioning org i expected db) \<noteq> None \<and> db1 = snd (claim_for_provisioning org i expected db)"
    and "host_steps db1 db2"
  shows "record_provisioning_progress org i attempt progress db2 = db2 \<and>
     record_provisioning_failure org i attempt reason reached db2 = db2 \<and>
     finalize_provisioning org i attempt patch2 stack2 architecture2 db2 = (None, db2)"
proof -
  have over: "attempt_over org i attempt db1" and kept: "uuid_supply db1 = uuid_supply db"
    using assms(5) settled_attempt_over [OF assms(1,3,4)] superseded_attempt_over [OF assms(1-4)]
      supply_kept_by_finalize supply_kept_by_claim by metis+
  have "attempt_over org i attempt db2"
    by (rule attempt_over_steps [OF assms(6) _ over]) (simp add: kept assms(2))
  then show ?thesis by (simp add: attempt_over_nothing)
qed

theorem finished_attempt_has_no_say_witness:
  "let db1 = snd (finalize_provisioning ''o'' ''h'' ''0'' no_patch None None (fleet_with [some_host_row]))
   in record_provisioning_failure ''o'' ''h'' ''0'' ''late'' None db1 = db1"
proof -
  let ?db = "fleet_with [some_host_row]"
  let ?db1 = "snd (finalize_provisioning ''o'' ''h'' ''0'' no_patch None None ?db)"
  have zero: "nat_string 0 = ''0''" by code_simp
  have "record_provisioning_progress ''o'' ''h'' ''0'' \<lparr>pg_step = CheckingSystemd, pg_index = 0, pg_total = 15\<rparr> ?db1 = ?db1 \<and>
      record_provisioning_failure ''o'' ''h'' ''0'' ''late'' None ?db1 = ?db1 \<and>
      finalize_provisioning ''o'' ''h'' ''0'' no_patch None None ?db1 = (None, ?db1)"
    by (rule finished_attempt_has_no_say [where k = 0 and db = "?db" and patch = no_patch and stack = None and architecture = None
          and expected = HostReady and ?db1.0 = "?db1"])
      (simp_all add: fleet_with_def host_keys_unique_def inj_nat_string finalize_provisioning_def update_hosts_def
        some_host_row_def host_owned_def no_patch_def whitelist_host_update_def set_or_def zero)
  then show ?thesis by (simp add: Let_def)
qed

text \<open>
  C30. Every procedure on hosts keeps this: a host that is being provisioned has an attempt and the time
  of its claim. What others do to the tables while a server is awaited is any run of the same steps.
\<close>

theorem provisioning_hosts_hold_attempts:
  assumes "services_step sv" and "attempts_held db"
  shows "attempts_held (snd (enroll sv ctx new_host db)) \<and> attempts_held (snd (check_host sv ctx input db)) \<and>
    attempts_held (snd (provision sv ctx hostId db)) \<and> attempts_held (snd (retrust_host_key sv ctx hostId fp db)) \<and>
    attempts_held (snd (remove_host sv ctx hostId db))"
  by (intro conjI; rule attempts_held_steps [OF fleet_kept.keepsD assms(2)]; rule procedures_step [OF assms(1)])

theorem provisioning_hosts_hold_attempts_witness:
  "attempts_held (snd (provision idle_services some_owner ''h'' (fleet_with [some_host_row])))"
proof -
  have "attempts_held (fleet_with [some_host_row])" by (simp add: attempts_held_def fleet_with_def some_host_row_def)
  from provisioning_hosts_hold_attempts [OF services_step_idle this] show ?thesis by blast
qed

text \<open>
  C31. A host that is enrolled showed, while it was, the key whose fingerprint its member confirmed; the
  new row is pending and trusts that key.
\<close>

theorem enrolled_key_was_shown:
  assumes "enroll sv ctx input db = (Inr view, db')"
  shows "role_can (ac_role ctx) HostEnroll \<and>
     (\<exists>presented db1. hx_probeHostKey sv (eh_hostname input) (eh_port input) probe_timeout_ms db = (Inr presented, db1) \<and>
        fingerprint_from_key (hx_sha256 sv) presented = eh_expectedFingerprint input \<and>
        (\<exists>row \<in> set (hostRows db'). view = to_host_public row \<and> ho_organizationId row = ac_organizationId ctx \<and>
           ho_status row = HostPending \<and> ho_hostname row = eh_hostname input \<and>
           ho_hostKeyFingerprint row = Some (eh_expectedFingerprint input) \<and>
           ho_hostKeyTrustedBy row = Some (ac_memberId ctx)))"
  by (rule enroll_stores [OF assms]) blast

theorem enrolled_key_was_shown_witness:
  "\<exists>view db'. enroll idle_services some_owner some_enrolment (fleet_with []) = (Inr view, db') \<and>
     (\<exists>row \<in> set (hostRows db'). ho_hostKeyFingerprint row = Some ''SHA256:'')"
proof -
  obtain view db' where run: "enroll idle_services some_owner some_enrolment (fleet_with []) = (Inr view, db')"
    using enrolment_done by blast
  have "eh_expectedFingerprint some_enrolment = ''SHA256:''" by (simp add: some_enrolment_def)
  then show ?thesis using enrolled_key_was_shown [OF run] run by fastforce
qed

text \<open>
  The text of a Podman version reads back as the version it shows, and the floor compares versions
  number by number from the left.
\<close>

theorem podman_version_round_trip:
  "parse_podman_version (podman_version_prefix @ format_podman_version v) = Some v \<and>
   (meets_podman_floor v \<longleftrightarrow>
      (pv_major podman_floor, pv_minor podman_floor, pv_patch podman_floor) \<le> (pv_major v, pv_minor v, pv_patch v))"
  by (auto simp: parse_formatted_version meets_podman_floor_def)

section \<open>Taking hosts away and reading them\<close>

text \<open>
  C32. Whatever a host answers, a teardown runs on it only its fixed commands and commands that name units
  and containers of this program; such a name holds letters, digits and few other characters, so nothing
  a host lists can become part of a command.
\<close>

theorem teardown_names_only_ours:
  assumes "tear_down_host (logged transport) (w, []) = (outcome, (w', trace))" and "(command, reply) \<in> set trace"
  shows "command \<in> {list_units_command, stop_bots_command, list_containers_command, running_units_command,
            systemctl ''daemon-reload'', reset_failed_command, remove_images_command, delete_root_command, linger_query} \<or>
     (\<exists>u. (\<forall>c \<in> set u. id_char c \<or> c = CHR ''@'' \<or> c = CHR ''.'') \<and> is_managed_unit u \<and>
        (command = disable_unit_command u \<or> command = remove_unit_command u)) \<or>
     (\<exists>names. (\<forall>n \<in> set names. \<exists>i. container_id_ok i \<and> (n = ''open-mcc-'' @ i \<or> n = ''open-mcc-auth-'' @ i)) \<and>
        command = remove_listed_command names)"
proof -
  have "teardown_command command" using teardown_commands_only [OF assms(1)] assms(2) by fastforce
  then consider (fixed) "command \<in> {list_units_command, stop_bots_command, list_containers_command, running_units_command,
        systemctl ''daemon-reload'', reset_failed_command, remove_images_command, delete_root_command, linger_query}"
    | (unit) u where "is_managed_unit u" "command = disable_unit_command u \<or> command = remove_unit_command u"
    | (names) names where "\<forall>n \<in> set names. managed_container n \<noteq> None" "command = remove_listed_command names"
    unfolding teardown_command_def by blast
  then show ?thesis
  proof cases
    case fixed
    then show ?thesis by (rule disjI1)
  next
    case unit
    then show ?thesis using managed_unit_chars [OF unit(1)] by blast
  next
    case names
    have "\<exists>i. container_id_ok i \<and> (n = ''open-mcc-'' @ i \<or> n = ''open-mcc-auth-'' @ i)" if "n \<in> set names" for n
      using names(1) that managed_container_chars by fastforce
    then show ?thesis using names(2) by blast
  qed
qed

theorem teardown_names_only_ours_witness:
  "\<exists>outcome w trace c reply. tear_down_host (logged scripted_host) (teardown_replies, []) = (outcome, (w, trace)) \<and>
     (c, reply) \<in> set trace \<and> c = remove_unit_command ''open-mcc@.service'' \<and>
     (c \<in> {list_units_command, stop_bots_command, list_containers_command, running_units_command,
            systemctl ''daemon-reload'', reset_failed_command, remove_images_command, delete_root_command, linger_query} \<or>
      (\<exists>u. (\<forall>x \<in> set u. id_char x \<or> x = CHR ''@'' \<or> x = CHR ''.'') \<and> is_managed_unit u \<and>
         (c = disable_unit_command u \<or> c = remove_unit_command u)) \<or>
      (\<exists>names. (\<forall>n \<in> set names. \<exists>i. container_id_ok i \<and> (n = ''open-mcc-'' @ i \<or> n = ''open-mcc-auth-'' @ i)) \<and>
         c = remove_listed_command names))"
proof -
  obtain outcome w trace reply where run: "tear_down_host (logged scripted_host) (teardown_replies, []) = (outcome, (w, trace))"
    and asked: "(remove_unit_command ''open-mcc@.service'', reply) \<in> set trace"
    using scripted_teardown_removes by blast
  show ?thesis using teardown_names_only_ours [OF run asked] run asked by blast
qed

text \<open>
  C33. A teardown that ends ran, in this order: it listed the units, stopped them and the bots, looked what
  was left of containers and units, took the unit files, the images and the directory away, and listed the
  units once more. Its report says that nothing remains exactly when every one of those looks says so.
\<close>

theorem teardown_clean_iff_seen_clean:
  assumes "tear_down_host (logged transport) (w, []) = (Inr report, (w', trace))"
  shows "\<exists>a. teardown_log a trace \<and> report = report_of a \<and>
     (td_remaining report = [] \<longleftrightarrow>
        containers_in (ta_left a) = Some [] \<and> running_in (ta_running a) = Some 0 \<and> er_exitCode (ta_image a) = 0 \<and>
        er_exitCode (ta_deleted a) = 0 \<and> managed_units_in (ta_leftover a) = [])"
  by (rule teardown_ran [OF assms]) (use clean_iff_nothing_remains in \<open>auto simp: host_clean_def\<close>)

theorem teardown_clean_iff_seen_clean_witness:
  "\<exists>report w trace a. tear_down_host (logged scripted_host) (teardown_replies, []) = (Inr report, (w, trace)) \<and>
     teardown_log a trace \<and> td_remaining report = [] \<and> managed_units_in (ta_leftover a) = []"
proof -
  obtain report w trace where run: "tear_down_host (logged scripted_host) (teardown_replies, []) = (Inr report, (w, trace))"
    and clean: "td_remaining report = []"
    using scripted_teardown by blast
  show ?thesis using teardown_clean_iff_seen_clean [OF run] run clean by blast
qed



text \<open>
  A poll of all hosts, whichever hosts answer and wherever it throws, is made of steps of the table of
  hosts beside steps of the status log: hosts that are being provisioned keep their attempts, and the log
  stays consistent.
\<close>

theorem poll_keeps_tables:
  assumes "reader_services_step sv send carrier" and "\<forall>host bots. tables_kept.keeps send carrier (observe host bots)"
    and "attempts_held db" and "log_inv (app_db.truncate db)"
  shows "host_steps db (snd (run_health_poll (server_poller sv send carrier observe) db)) \<and>
     attempts_held (snd (run_health_poll (server_poller sv send carrier observe) db)) \<and>
     log_inv (app_db.truncate (snd (run_health_poll (server_poller sv send carrier observe) db)))"
proof -
  have steps: "table_steps send carrier db (snd (run_health_poll (server_poller sv send carrier observe) db))"
    using server_poll_kept [OF assms(1)] assms(2) by (simp add: tables_kept.keeps_def)
  then show ?thesis
    unfolding table_steps_def using attempts_held_steps [OF _ assms(3)] log_inv_steps [OF _ assms(4)] by blast
qed

theorem poll_keeps_tables_witness:
  "attempts_held (snd (run_health_poll (server_poller quiet_pool taking_queue [] (\<lambda>host bots. io_return ())) (fleet_with [ready_row])))"
proof -
  have held: "attempts_held (fleet_with [ready_row])" by (simp add: attempts_held_def fleet_with_def ready_row_def)
  have "app_db.truncate (fleet_with [ready_row]) = blank_app" by (simp add: fleet_with_def blank_app_def app_db.defs)
  then have inv: "log_inv (app_db.truncate (fleet_with [ready_row]))" using log_inv_empty [OF empty_log_blank] by simp
  have "\<forall>(host :: host_row) (bots :: instance_row list). tables_kept.keeps taking_queue [] (io_return ())"
    by (simp add: tables_kept.keeps_io)
  from poll_keeps_tables [OF quiet_pool_steps this held inv] show ?thesis by (elim conjE)
qed

text \<open>
  C35. A host is read only over a connection of the identity its row still has when the lease is given:
  not one that is being taken away, not one whose address, account, key or host key changed while the
  connection was waited for.
\<close>

theorem leased_host_is_current:
  assumes "lease_host_reader sv org hostId deadlineMs need db0 = (Inr (Leased reader host identity), db)"
  shows "find_host org hostId db = Some host \<and> ho_teardownRequestedAt host = None \<and> identity_of host = Some identity \<and>
     host_meets host need \<and>
     rv_lease sv (host_read_key org hostId) identity deadlineMs (open_connection sv org hostId identity) db0 = (Inr reader, db)"
  using leased_is_current [OF assms] identity_kept by blast

theorem leased_host_is_current_witness:
  "\<exists>reader host identity db. lease_host_reader quiet_pool ''o'' ''h'' 15000 Runtime (fleet_with [ready_row]) =
     (Inr (Leased reader host identity), db) \<and> ho_teardownRequestedAt host = None"
proof -
  obtain reader host identity db where run:
    "lease_host_reader quiet_pool ''o'' ''h'' 15000 Runtime (fleet_with [ready_row]) = (Inr (Leased reader host identity), db)"
    using quiet_lease by blast
  show ?thesis using leased_host_is_current [OF run] run by blast
qed

section \<open>The pool of connections\<close>

text \<open>
  C36. However calls, answers, timers, drops and evictions interleave, the reads on a connection hold or were
  promised at most the channels its limit allows, and a read waits in the queue only while all are taken.
\<close>

theorem reads_stay_within_channels:
  assumes "pool_run options (new_pool now) evs p" and "c < pl_nConns p"
  shows "card {i. i < pl_nOps p \<and> op_connection p i = c \<and> ro_holdsSlot (pl_op p i)} +
       length (filter (\<lambda>i. op_connection p i = c) (pl_granted p)) \<le> po_channelLimit options \<and>
     (lm_waiting (cn_limiter (pl_conn p c)) \<noteq> [] \<longrightarrow>
       card {i. i < pl_nOps p \<and> op_connection p i = c \<and> ro_holdsSlot (pl_op p i)} +
       length (filter (\<lambda>i. op_connection p i = c) (pl_granted p)) = po_channelLimit options)"
proof -
  have "limiter_ok (po_channelLimit options) p c"
    using pool_reach_ok [OF assms(1)] assms(2) by (simp add: pool_ok_def core_ok_def)
  then show ?thesis by (auto simp: limiter_ok_def waiting_on_def slots_def grants_def)
qed

theorem reads_stay_within_channels_witness:
  "\<exists>p. pool_run small_pool (new_pool 0) two_reads p \<and>
     card {i. i < pl_nOps p \<and> op_connection p i = 0 \<and> ro_holdsSlot (pl_op p i)} \<le> 1"
proof -
  obtain p where run: "pool_run small_pool (new_pool 0) two_reads p" and c: "0 < pl_nConns p"
    using two_reads_run by auto
  show ?thesis using reads_stay_within_channels [OF run c] run by (auto simp: small_pool_def)
qed

text \<open>
  C37. No read is left waiting: one without an answer runs over a lease that is neither given back nor past
  its deadline, on a connection that is open, and it holds a channel, was let in, or stands in the queue for
  one. So closing, eviction, release and the deadline answer every read they end.
\<close>

theorem no_read_left_waiting:
  assumes "pool_run options (new_pool now) evs p" and "i < pl_nOps p" and "ro_answer (pl_op p i) = None"
  shows "\<not> cn_closed (pl_conn p (op_connection p i)) \<and> \<not> le_released (pl_lease p (ro_lease (pl_op p i))) \<and>
     \<not> le_expired (pl_lease p (ro_lease (pl_op p i))) \<and>
     (ro_holdsSlot (pl_op p i) \<or> i \<in> set (pl_granted p) \<or> i \<in> set (lm_waiting (cn_limiter (pl_conn p (op_connection p i)))))"
proof -
  have ok: "pool_ok options {} {} p" by (rule pool_reach_ok [OF assms(1)])
  then have core: "core_ok (po_channelLimit options) p" and frame: "frame_ok {} {} (po_hardAgeMs options) p"
    by (simp_all add: pool_ok_def)
  have o: "op_ok p i" using core_opD(3) [OF core assms(2)] .
  then have on: "i \<in> set (cn_ops (pl_conn p (op_connection p i)))" using assms(3) unfolding op_ok_def by auto
  then have over: "i \<in> set (le_ops (pl_lease p (ro_lease (pl_op p i))))"
    using core assms(2) unfolding core_ok_def refs_ok_def by blast
  have "\<not> cn_closed (pl_conn p (op_connection p i))"
    using frame core_opD(2) [OF core assms(2)] on unfolding frame_ok_def conns_ok_def by force
  moreover have "\<not> (le_released (pl_lease p (ro_lease (pl_op p i))) \<or> le_expired (pl_lease p (ro_lease (pl_op p i))))"
    using frame core_opD(1) [OF core assms(2)] over unfolding frame_ok_def leases_ok_def by force
  ultimately show ?thesis using o assms(3) unfolding op_ok_def waiting_on_def by (auto split: if_splits)
qed

theorem no_read_left_waiting_witness:
  "\<exists>p. pool_run small_pool (new_pool 0) two_reads p \<and> ro_answer (pl_op p 1) = None \<and> \<not> cn_closed (pl_conn p (op_connection p 1))"
proof -
  obtain p where run: "pool_run small_pool (new_pool 0) two_reads p" and i: "1 < pl_nOps p" and none: "ro_answer (pl_op p 1) = None"
    using two_reads_run by auto
  show ?thesis using no_read_left_waiting [OF run i none] run none by blast
qed

text \<open>
  C38. A call that reads, reads over a connection that was opened for the key and the identity it asked for:
  a host of one organization is never read over the connection of another's, or over one to an address, an
  account or a host key it does not have.
\<close>

theorem reads_keep_to_their_host:
  assumes "pool_run options (new_pool now) evs p" and "k < pl_nCallers p" and "ca_state (pl_caller p k) = CallerReads l"
  shows "cn_key (pl_conn p (le_connection (pl_lease p l))) = ca_key (pl_caller p k) \<and>
     cn_identity (pl_conn p (le_connection (pl_lease p l))) = ca_identity (pl_caller p k)"
proof -
  have "calls_ok p" using pool_reach_ok [OF assms(1)] by (simp add: pool_ok_def frame_ok_def)
  then show ?thesis using assms(2,3) by (auto simp: calls_ok_def)
qed

theorem reads_keep_to_their_host_witness:
  "\<exists>p. pool_run small_pool (new_pool 0) two_reads p \<and> cn_identity (pl_conn p (le_connection (pl_lease p 0))) = ca_identity (pl_caller p 0)"
proof -
  obtain p where run: "pool_run small_pool (new_pool 0) two_reads p" and k: "0 < pl_nCallers p" "ca_state (pl_caller p 0) = CallerReads 0"
    using two_reads_run by auto
  show ?thesis using reads_keep_to_their_host [OF run k] run by blast
qed



text \<open>
  C40. An eviction closes every connection of the entry the table knows for the key, but a read that found
  its connection dropped waits on an entry the table has forgotten: two evictions, before and after it
  opened, leave its connection open and read over.
\<close>

theorem eviction_misses_forgotten_entry:
  "(\<forall>options now evs p key e c. pool_run options (new_pool now) evs p \<and> pl_entries p key = Some e \<and>
       c < pl_nConns p \<and> cn_entry (pl_conn p c) = e \<longrightarrow> cn_closed (pl_conn (evict key p) c)) \<and>
   (\<exists>options evs p k l. pool_run options (new_pool 0) (evs @ [Evicted (ca_key (pl_caller p k))]) p \<and>
       ca_state (pl_caller p k) = CallerReads l \<and> \<not> le_released (pl_lease p l) \<and>
       \<not> cn_closed (pl_conn p (le_connection (pl_lease p l))))"
proof
  show "\<forall>options now evs p key e c. pool_run options (new_pool now) evs p \<and> pl_entries p key = Some e \<and>
       c < pl_nConns p \<and> cn_entry (pl_conn p c) = e \<longrightarrow> cn_closed (pl_conn (evict key p) c)"
    using evict_closes pool_reach_ok by blast
  obtain p where "pool_run small_pool (new_pool 0) (connection_drop @ eviction_missed) p"
    and "ca_state (pl_caller p 1) = CallerReads 1" and "ca_key (pl_caller p 1) = ''o:h''"
    and "\<not> le_released (pl_lease p 1)" and "\<not> cn_closed (pl_conn p (le_connection (pl_lease p 1)))"
    using eviction_missed_run by blast
  moreover have "connection_drop @ eviction_missed =
      (connection_drop @ [Evicted ''o:h'', TransportTurns 2 TReady, OpenSucceeds 2, CallResumes 1]) @ [Evicted ''o:h'']"
    by (simp add: eviction_missed_def)
  ultimately show "\<exists>options evs p k l. pool_run options (new_pool 0) (evs @ [Evicted (ca_key (pl_caller p k))]) p \<and>
       ca_state (pl_caller p k) = CallerReads l \<and> \<not> le_released (pl_lease p l) \<and>
       \<not> cn_closed (pl_conn p (le_connection (pl_lease p l)))"
    by metis
qed

theorem eviction_misses_forgotten_entry_witness:
  "\<exists>p. pool_run small_pool (new_pool 0) two_reads p \<and> cn_closed (pl_conn (evict ''o:h'' p) 0)"
proof -
  obtain p where "pool_run small_pool (new_pool 0) two_reads p" and "pl_entries p ''o:h'' = Some 0"
    and "0 < pl_nConns p" and "cn_entry (pl_conn p 0) = 0"
    using two_reads_entry by blast
  then show ?thesis using eviction_misses_forgotten_entry [THEN conjunct1] by blast
qed

end
